(* ===== verification/DamengNames.thy ===== *)
theory DamengNames
  imports GoPrelude
begin

text \<open>
  The target-column naming policy of \<^verbatim>\<open>datamigrate/damengnames/names.go\<close>: column names that
  DM forbids are replaced, every other name is kept in upper case, and no two target columns
  may share a name.
\<close>

text \<open>The table \<open>replacements\<close>; a missing key is Go's empty string.\<close>

definition replacements :: "string \<Rightarrow> string" where
  "replacements key =
     (if key = ''ROWID'' then ''ROW_ID''
      else if key = ''TRXID'' then ''TRX_ID''
      else if key = ''VERSIONS_STARTTIME'' then ''VERSIONS_START_TIME''
      else if key = ''VERSIONS_ENDTIME'' then ''VERSIONS_END_TIME''
      else if key = ''VERSIONS_STARTTRXID'' then ''VERSIONS_START_TRX_ID''
      else if key = ''VERSIONS_ENDTRXID'' then ''VERSIONS_END_TRX_ID''
      else if key = ''VERSIONS_OPERATION'' then ''VERSIONS__OPERATION''
      else [])"

definition Forbidden :: "string \<Rightarrow> bool" where
  "Forbidden name \<longleftrightarrow> replacements (to_upper name) \<noteq> []"

datatype names_error = NameConflict string

text \<open>The first loop: every original name is reserved, and a duplicate is an error.\<close>

fun reserve_names :: "string list \<Rightarrow> string list \<Rightarrow> names_error + string list" where
  "reserve_names used [] = Inr used"
| "reserve_names used (name # names) =
     (let key = to_upper name in
      if key \<in> set used then Inl (NameConflict key) else reserve_names (key # used) names)"

definition suffixed :: "string \<Rightarrow> nat \<Rightarrow> string" where
  "suffixed base suffix = base @ ''_'' @ itoa (int suffix)"

text \<open>
  The suffix loop \<open>for suffix := 2; used[key]; suffix++\<close>. The names in \<open>used\<close> are finitely many,
  so after more steps than it has elements a free name is reached.
\<close>

function free_name :: "string list \<Rightarrow> string \<Rightarrow> string \<Rightarrow> nat \<Rightarrow> string" where
  "free_name used base key suffix =
     (if key \<in> set used then free_name used base (suffixed base suffix) (Suc suffix) else key)"
  by pat_completeness auto

lemma inj_suffixed: "inj (suffixed base)"
  by (rule injI) (simp add: suffixed_def itoa_inj)

lemma finite_suffixed: "finite {i. s \<le> i \<and> suffixed base i \<in> set used}"
proof -
  have "finite (suffixed base -` set used)"
    by (rule finite_vimageI) (simp_all add: inj_suffixed)
  then show ?thesis by (rule rev_finite_subset) auto
qed

lemma card_suffixed_Suc:
  "card {i. s \<le> i \<and> suffixed base i \<in> set used} =
   card {i. Suc s \<le> i \<and> suffixed base i \<in> set used} + (if suffixed base s \<in> set used then 1 else 0)"
proof -
  let ?A = "\<lambda>s. {i. s \<le> i \<and> suffixed base i \<in> set used}"
  have "?A s = (if suffixed base s \<in> set used then insert s (?A (Suc s)) else ?A (Suc s))"
    by (auto simp: less_eq_Suc_le[symmetric] order_le_less)
  moreover have "s \<notin> ?A (Suc s)" by simp
  ultimately show ?thesis by (simp add: finite_suffixed card_insert_disjoint split: if_splits)
qed

termination free_name
  by (relation "measure (\<lambda>(used, base, key, s).
        card {i. s \<le> i \<and> suffixed base i \<in> set used} + (if key \<in> set used then 1 else 0))")
     (auto simp: card_suffixed_Suc [symmetric])

declare free_name.simps [simp del]

text \<open>The second loop: the target names, in the order of the source names.\<close>

fun plan_names :: "string list \<Rightarrow> string list \<Rightarrow> string list" where
  "plan_names used [] = []"
| "plan_names used (name # names) =
     (let key = to_upper name; base = replacements key in
      if base \<noteq> []
      then (let fresh = free_name used base base 2 in fresh # plan_names (fresh # used) names)
      else key # plan_names used names)"

definition Plan :: "string list \<Rightarrow> names_error + string list" where
  "Plan names = bind_res (reserve_names [] names) (\<lambda>used. Inr (plan_names used names))"

section \<open>Reservation\<close>

lemma reserve_names_ok:
  "reserve_names used names = Inr u \<Longrightarrow>
   u = rev (map to_upper names) @ used \<and>
   distinct (map to_upper names) \<and> set (map to_upper names) \<inter> set used = {}"
  by (induction names arbitrary: used u) (fastforce simp: Let_def split: if_splits)+

lemma reserve_names_total:
  "distinct (map to_upper names) \<Longrightarrow> set (map to_upper names) \<inter> set used = {} \<Longrightarrow>
   \<exists>u. reserve_names used names = Inr u"
  by (induction names arbitrary: used) (auto simp: Let_def)

section \<open>Fresh names\<close>

lemma free_name_fresh: "free_name used base key suffix \<notin> set used"
proof (induction used base key suffix rule: free_name.induct)
  case (1 used base key suffix)
  then show ?case by (simp add: free_name.simps [of used base key suffix])
qed

lemma free_name_form:
  "free_name used base key suffix = key \<or>
   (\<exists>i. free_name used base key suffix = suffixed base i)"
proof (induction used base key suffix rule: free_name.induct)
  case (1 used base key suffix)
  then show ?case by (auto simp: free_name.simps [of used base key suffix])
qed

lemma last_itoa_digit: "is_digit (last (itoa (int n)))"
proof -
  have "last (nat_digits n) \<in> set (nat_digits n)" by simp
  then have "is_digit (last (nat_digits n))"
    using nat_digits_all_digits [of n] by (simp add: list_all_iff del: last_in_set)
  then show ?thesis by (simp add: itoa_def)
qed

lemma replacements_last_letter:
  "replacements key \<noteq> [] \<Longrightarrow> \<not> is_digit (last key)"
  by (auto simp: replacements_def is_digit_def split: if_splits)

lemma upper_char_digit: "is_digit (upper_char c) \<longleftrightarrow> is_digit c"
proof (cases "97 \<le> (of_char c :: nat) \<and> (of_char c :: nat) \<le> 122")
  case True
  then have "(of_char (upper_char c) :: nat) = of_char c - 32"
    by (simp add: of_char_upper_char)
  with True show ?thesis by (auto simp: is_digit_def)
next
  case False
  then show ?thesis by (auto simp: upper_char_def Let_def)
qed

lemma suffixed_not_forbidden: "\<not> Forbidden (suffixed base n)"
proof
  assume "Forbidden (suffixed base n)"
  then have "\<not> is_digit (last (to_upper (suffixed base n)))"
    unfolding Forbidden_def by (rule replacements_last_letter)
  moreover have "last (to_upper (suffixed base n)) = upper_char (last (itoa (int n)))"
    by (simp add: suffixed_def to_upper_def last_map)
  ultimately show False by (simp add: upper_char_digit last_itoa_digit)
qed

lemma replacement_not_forbidden:
  "replacements key \<noteq> [] \<Longrightarrow> \<not> Forbidden (replacements key)"
  by (auto simp: replacements_def Forbidden_def to_upper_def upper_char_def split: if_splits)

lemma free_name_allowed:
  "replacements key \<noteq> [] \<Longrightarrow>
   \<not> Forbidden (free_name used (replacements key) (replacements key) suffix)"
  using free_name_form [of used "replacements key" "replacements key" suffix]
  by (auto simp: suffixed_not_forbidden replacement_not_forbidden)

section \<open>The plan\<close>

lemma length_plan_names [simp]: "length (plan_names used names) = length names"
  by (induction names arbitrary: used) (simp_all add: Let_def)

lemma plan_names_allowed: "x \<in> set (plan_names used names) \<Longrightarrow> \<not> Forbidden x"
proof (induction names arbitrary: used)
  case Nil
  then show ?case by simp
next
  case (Cons name names)
  show ?case
  proof (cases "replacements (to_upper name) = []")
    case True
    with Cons show ?thesis by (auto simp: Let_def Forbidden_def)
  next
    case False
    with Cons free_name_allowed [OF False, of used 2] show ?thesis by (auto simp: Let_def)
  qed
qed

lemma plan_names_fresh:
  "set (map to_upper names) \<subseteq> set used \<Longrightarrow> x \<in> set (plan_names used names) \<Longrightarrow>
   x \<in> set used \<Longrightarrow> x \<in> set (map to_upper names)"
proof (induction names arbitrary: used)
  case Nil
  then show ?case by simp
next
  case (Cons name names)
  let ?base = "replacements (to_upper name)"
  show ?case
  proof (cases "?base = []")
    case True
    with Cons show ?thesis by (auto simp: Let_def)
  next
    case False
    let ?f = "free_name used ?base ?base 2"
    from Cons.prems have "x \<noteq> ?f" using free_name_fresh [of used ?base ?base 2] by metis
    moreover have "set (map to_upper names) \<subseteq> set (?f # used)" using Cons.prems by auto
    ultimately show ?thesis
      using False Cons.IH [of "?f # used"] Cons.prems by (simp add: Let_def)
  qed
qed

lemma plan_names_distinct:
  "distinct (map to_upper names) \<Longrightarrow> set (map to_upper names) \<subseteq> set used \<Longrightarrow>
   distinct (plan_names used names)"
proof (induction names arbitrary: used)
  case Nil
  then show ?case by simp
next
  case (Cons name names)
  let ?base = "replacements (to_upper name)"
  show ?case
  proof (cases "?base = []")
    case True
    have "to_upper name \<notin> set (plan_names used names)"
      using Cons.prems plan_names_fresh [of names used "to_upper name"] by auto
    with True Cons show ?thesis by (simp add: Let_def)
  next
    case False
    let ?f = "free_name used ?base ?base 2"
    have "?f \<notin> set used" by (rule free_name_fresh)
    moreover have sub: "set (map to_upper names) \<subseteq> set (?f # used)" using Cons.prems by auto
    ultimately have "?f \<notin> set (plan_names (?f # used) names)"
      using Cons.prems plan_names_fresh [OF sub, of ?f] by auto
    with False Cons.IH [OF _ sub] Cons.prems show ?thesis by (simp add: Let_def)
  qed
qed

lemma plan_names_nth:
  "i < length names \<Longrightarrow> \<not> Forbidden (names ! i) \<Longrightarrow>
   plan_names used names ! i = to_upper (names ! i)"
proof (induction names arbitrary: used i)
  case Nil
  then show ?case by simp
next
  case (Cons name names)
  then show ?case by (cases i) (auto simp: Let_def Forbidden_def)
qed

lemma Plan_Inr:
  "Plan names = Inr out \<longleftrightarrow>
   distinct (map to_upper names) \<and> out = plan_names (rev (map to_upper names)) names"
  using reserve_names_ok [of "[]" names] reserve_names_total [of names "[]"]
  by (auto simp: Plan_def bind_res_Inr_iff)

text \<open>C37: The planned DM column names are pairwise distinct, as many as the source names, never a
  forbidden name, and every allowed source name is kept (in upper case) at its position.\<close>

theorem Plan_correct:
  assumes "Plan names = Inr out"
  shows "length out = length names \<and> distinct out \<and> list_all (\<lambda>x. \<not> Forbidden x) out \<and>
         list_all2 (\<lambda>name target. Forbidden name \<or> target = to_upper name) names out"
proof -
  from assms have d: "distinct (map to_upper names)"
    and out: "out = plan_names (rev (map to_upper names)) names"
    by (simp_all add: Plan_Inr)
  have "distinct out" unfolding out by (rule plan_names_distinct [OF d]) simp
  moreover have "list_all (\<lambda>x. \<not> Forbidden x) out"
    using plan_names_allowed by (auto simp: out list_all_iff)
  moreover have "list_all2 (\<lambda>name target. Forbidden name \<or> target = to_upper name) names out"
    using plan_names_nth by (fastforce simp: out list_all2_conv_all_nth)
  ultimately show ?thesis by (simp add: out)
qed

lemma Plan_example:
  "Plan [''rowid'', ''row_id'', ''name''] = Inr [''ROW_ID_2'', ''ROW_ID'', ''NAME'']"
  by code_simp

theorem Plan_correct_witness:
  "length [''ROW_ID_2'', ''ROW_ID'', ''NAME''] = length [''rowid'', ''row_id'', ''name''] \<and>
   distinct [''ROW_ID_2'', ''ROW_ID'', ''NAME''] \<and>
   list_all (\<lambda>x. \<not> Forbidden x) [''ROW_ID_2'', ''ROW_ID'', ''NAME''] \<and>
   list_all2 (\<lambda>name target. Forbidden name \<or> target = to_upper name)
     [''rowid'', ''row_id'', ''name''] [''ROW_ID_2'', ''ROW_ID'', ''NAME'']"
  by (rule Plan_correct [OF Plan_example])

text \<open>Planning fails exactly when two source names agree up to letter case, so no valid set of
  columns is refused and no collision is accepted.\<close>

theorem Plan_conflict_iff: "is_ok (Plan names) \<longleftrightarrow> distinct (map to_upper names)"
  using Plan_Inr [of names] by (cases "Plan names") auto

end
