(* ===== verification/CdcTypes.thy ===== *)
theory CdcTypes
  imports GoPrelude "HOL-Library.Word"
begin

text \<open>
  The data of the change-data-capture package (\<^verbatim>\<open>datamigrate/cdc/types.go\<close>): positions of
  the MySQL binary log, table metadata, the bootstrap record kept in the target's checkpoint
  table, statistics, changes and the runner's hooks. A row value (Go's \<open>any\<close>) is a type
  parameter \<open>'v\<close>; a time is the number of seconds since the epoch, \<open>None\<close> the zero time.
\<close>

definition CheckpointTableName :: string where
  "CheckpointTableName = ''__dbgold_cdc_checkpoint''"

record Position =
  File :: string
  Pos :: "32 word"
  GTID :: string

definition zero_position :: Position where
  "zero_position = \<lparr>File = [], Pos = 0, GTID = []\<rparr>"

record UniqueIndexInfo =
  ui_name :: string
  ui_columns :: "string list"

record TableInfo =
  Name :: string
  Engine :: string
  Columns :: "string list"
  ColumnTypes :: "string list"
  PrimaryKey :: "int list"
  AutoIncrement :: "int list"
  LocatorStrategy :: string
  LocatorIndex :: string
  LocatorColumns :: "string list"
  UniqueIndexes :: "UniqueIndexInfo list"

definition LocatorStrategyVersion :: int where "LocatorStrategyVersion = 1"
definition LocatorPrimaryKey :: string where "LocatorPrimaryKey = ''primary_key''"
definition LocatorUniqueKey :: string where "LocatorUniqueKey = ''unique_key''"
definition LocatorFullRow :: string where "LocatorFullRow = ''full_row''"

record Locator =
  ls_table :: string
  ls_strategy :: string
  ls_index :: string
  ls_columns :: "string list"

record BootstrapIssue =
  bi_table :: string
  bi_stage :: string
  bi_error :: string
  bi_ddl :: string

record BootstrapFailedObject =
  fo_category :: string
  fo_name :: string
  fo_error :: string
  fo_ddl :: string
  fo_stage :: string

record BootstrapRecord =
  br_state :: string
  br_position :: Position
  br_effective :: "string list"
  br_excluded :: "BootstrapIssue list"
  br_manifest_hash :: string
  br_failed :: "BootstrapFailedObject list"
  br_report_version :: int
  br_locator_version :: int
  br_locators :: "Locator list"

record Stats =
  Inserts :: int
  Updates :: int
  Deletes :: int
  Skipped :: int
  Warnings :: int
  st_position :: Position
  SourceHead :: Position
  CaughtUp :: bool
  LagSeconds :: int
  LastEventAt :: "int option"

definition zero_stats :: Stats where
  "zero_stats = \<lparr>Inserts = 0, Updates = 0, Deletes = 0, Skipped = 0, Warnings = 0,
     st_position = zero_position, SourceHead = zero_position, CaughtUp = False, LagSeconds = 0,
     LastEventAt = None\<rparr>"

text \<open>A change of one row; \<open>Table\<close> is the metadata the pointer refers to.\<close>

record 'v Change =
  Action :: string
  Table :: TableInfo
  Before :: "'v list"
  After :: "'v list"

record RowConflict =
  rc_table :: string
  rc_action :: string
  rc_position :: Position
  rc_hash :: string

text \<open>The calls the runner makes to its hooks, in order.\<close>

datatype hook_call =
    HookStatus string string
  | HookStats Stats
  | HookDDL string Position
  | HookConflict RowConflict

record Hooks =
  has_status :: bool
  has_stats :: bool
  has_ddl :: bool
  has_conflict :: bool

record Config =
  JobID :: string
  SourceDatabase :: string
  TargetDBType :: string
  TargetSchema :: string
  LowerCaseNames :: bool
  Start :: Position
  cfg_locator_version :: int
  cfg_locators :: "Locator list"
  cfg_exclusions :: "BootstrapIssue list"
  cfg_manifest_hash :: string

text \<open>The name of a table or column in the target (\<^verbatim>\<open>target_metadata.go\<close>).\<close>

definition targetObjectName :: "bool \<Rightarrow> string \<Rightarrow> string \<Rightarrow> string" where
  "targetObjectName lower dbtype s =
     (let s' = (if lower then to_lower s else s) in if dbtype = ''dameng'' then to_upper s' else s')"

end
