(* ===== verification/CdcDml.thy ===== *)
theory CdcDml
  imports CdcTypes
begin

text \<open>
  What the two target appliers share (\<^verbatim>\<open>postgres.go\<close>, \<^verbatim>\<open>dameng_dml.go\<close>): the error
  values, identifier quoting, the columns that locate a row and the check that a full-row statement has hit
  one row. Errors that only the DaMeng applier raises are \<open>Refused\<close>; \<open>Joined\<close> is Go's
  \<open>errors.Join\<close> and \<open>Panic\<close> an index out of range of a slice.
\<close>

section \<open>Errors\<close>

datatype identity_problem =
    BadSeed string
  | BadCurrent string
  | BadStep string
  | BadMaximum string
  | BeyondTypeMaximum int int
  | NotBeyondData int int
  | BadSourceNext string
  | BelowSourceNext int int bool

datatype dm_problem =
    UnknownAction string
  | TargetTableMissing string
  | SourceTypesIncomplete string
  | TargetColumnMissing string string
  | LobUnsupported string
  | LocatorOutOfRange string
  | NoLocatorPredicate string
  | UniqueMatched string int
  | TriggerLockSetting
  | TriggerEnabled string string string
  | CheckpointsUpdated int
  | BadBinlogPosition int
  | BootstrapPending
  | BootstrapDecided string string
  | BootstrapFrozen
  | BootstrapNeedsFinalize
  | BadBootstrapState string
  | ManifestChanged
  | PlanMismatch
  | StateChanged
  | ObjectReplaced string string
  | InvalidExclusion string
  | BadAutoColumn string
  | IdentityMissing string string
  | IdentityUnsafe string identity_problem

datatype 'e cdc_error =
    Driver 'e
  | ColumnCount "int list"
  | LocatorColumnMissing string
  | NoLocatorColumns string
  | ActiveTrigger string string string
  | FullRowConflict string string string int
  | ApplyFailed string string "'e cdc_error"
  | NotCompleted string
  | CheckpointMissing
  | SequenceMissing string string string
  | Refused dm_problem
  | Joined "'e cdc_error" "'e cdc_error"
  | Panic

text \<open>\<open>errors.As\<close> for a \<open>*RowConflictError\<close>: the first one in the chain of wrapped errors.\<close>

fun as_conflict :: "'e cdc_error \<Rightarrow> (string \<times> string \<times> string) option" where
  "as_conflict (FullRowConflict t act h n) = Some (t, act, h)"
| "as_conflict (ApplyFailed _ _ e) = as_conflict e"
| "as_conflict (Joined e e') = (case as_conflict e of None \<Rightarrow> as_conflict e' | Some c \<Rightarrow> Some c)"
| "as_conflict _ = None"

text \<open>\<open>fmt.Errorf("apply %s %s: %w", ...)\<close>; a panic is not an error value and is not wrapped.\<close>

fun wrap_apply :: "string \<Rightarrow> string \<Rightarrow> 'e cdc_error \<Rightarrow> 'e cdc_error" where
  "wrap_apply action t Panic = Panic"
| "wrap_apply action t e = ApplyFailed action t e"

record applier =
  a_schema :: string
  a_job :: string
  a_lower :: bool

section \<open>Identifiers\<close>

definition dquote :: char where "dquote = CHR 0x22"

definition quoteIdent :: "string \<Rightarrow> string" where
  "quoteIdent s = [dquote] @ replace_all s [dquote] [dquote, dquote] @ [dquote]"

definition applier_name :: "applier \<Rightarrow> string \<Rightarrow> string" where
  "applier_name a s = (if a_lower a then to_lower s else s)"

definition qualified_name :: "applier \<Rightarrow> string \<Rightarrow> string" where
  "qualified_name a table = quoteIdent (a_schema a) @ ''.'' @ quoteIdent (applier_name a table)"

definition qualifiedIdent :: "string \<Rightarrow> string \<Rightarrow> string" where
  "qualifiedIdent schema object =
     (if schema = [] then quoteIdent object else quoteIdent schema @ ''.'' @ quoteIdent object)"

section \<open>Row locators\<close>

definition columnIndex :: "TableInfo \<Rightarrow> string \<Rightarrow> nat option" where
  "columnIndex t column = find_index (Columns t) column"

fun locator_indexes :: "TableInfo \<Rightarrow> string list \<Rightarrow> 'e cdc_error + nat list" where
  "locator_indexes t [] = Inr []"
| "locator_indexes t (c # cs) =
     (case columnIndex t c of
        None \<Rightarrow> Inl (LocatorColumnMissing c)
      | Some i \<Rightarrow> bind_res (locator_indexes t cs) (\<lambda>is. Inr (i # is)))"

definition locatorColumnIndexes :: "TableInfo \<Rightarrow> 'e cdc_error + nat list" where
  "locatorColumnIndexes t =
     bind_res (locator_indexes t (LocatorColumns t))
       (\<lambda>is. if is = [] then Inl (NoLocatorColumns (Name t)) else Inr is)"

definition locatorChanged :: "('v \<Rightarrow> 'v \<Rightarrow> bool) \<Rightarrow> TableInfo \<Rightarrow> 'v list \<Rightarrow> 'v list \<Rightarrow> bool" where
  "locatorChanged deep_equal t before after =
     list_ex (\<lambda>column.
        case columnIndex t column of
          None \<Rightarrow> True
        | Some i \<Rightarrow> i \<ge> length before \<or> i \<ge> length after \<or> \<not> deep_equal (before ! i) (after ! i))
       (LocatorColumns t)"

definition requireOneFullRow ::
  "('v list \<Rightarrow> string) \<Rightarrow> TableInfo \<Rightarrow> string \<Rightarrow> 'v list \<Rightarrow> ('e + int) \<Rightarrow> 'e cdc_error option" where
  "requireOneFullRow row_hash t action before affected =
     (case affected of
        Inl e \<Rightarrow> Some (Driver e)
      | Inr n \<Rightarrow> if n = 1 then None else Some (FullRowConflict (Name t) action (row_hash before) n))"

section \<open>Steps that change a state and may fail\<close>

text \<open>The state is kept on an error too: what a failed statement leaves behind matters to the clean-up.\<close>

type_synonym ('a, 's, 'e) failing = "'s \<Rightarrow> ('e cdc_error + 'a) \<times> 's"

definition then_do :: "('a, 's, 'e) failing \<Rightarrow> ('a \<Rightarrow> ('b, 's, 'e) failing) \<Rightarrow> ('b, 's, 'e) failing" where
  "then_do m f s = (case m s of (Inl e, s') \<Rightarrow> (Inl e, s') | (Inr x, s') \<Rightarrow> f x s')"

definition give :: "'e cdc_error + 'a \<Rightarrow> ('a, 's, 'e) failing" where
  "give r s = (r, s)"

lemma then_do_Inr: "then_do m f s = (Inr y, s') \<longleftrightarrow> (\<exists>x s1. m s = (Inr x, s1) \<and> f x s1 = (Inr y, s'))"
  by (auto simp: then_do_def split: prod.splits sum.splits)

lemma give_Inr [simp]: "give r s = (Inr y, s') \<longleftrightarrow> r = Inr y \<and> s' = s"
  by (auto simp: give_def)

text \<open>\<open>refines_step m m'\<close>: whenever the first succeeds the second does the same.\<close>

definition refines_step :: "('a, 's, 'e) failing \<Rightarrow> ('a, 's, 'e) failing \<Rightarrow> bool" where
  "refines_step m m' \<longleftrightarrow> (\<forall>s x s'. m s = (Inr x, s') \<longrightarrow> m' s = (Inr x, s'))"

lemma refines_step_refl: "refines_step m m"
  by (simp add: refines_step_def)

lemma refines_step_then:
  "refines_step m m' \<Longrightarrow> (\<And>x. refines_step (f x) (f' x)) \<Longrightarrow> refines_step (then_do m f) (then_do m' f')"
  by (fastforce simp: refines_step_def then_do_Inr)

lemma refines_step_if:
  "refines_step a a' \<Longrightarrow> refines_step b b' \<Longrightarrow> refines_step (if c then a else b) (if c then a' else b')"
  by simp

text \<open>A relation between the state before and after a step, kept by every step: errors included.\<close>

definition keeps :: "('s \<Rightarrow> bool) \<Rightarrow> ('a, 's, 'e) failing \<Rightarrow> bool" where
  "keeps P m \<longleftrightarrow> (\<forall>s. P s \<longrightarrow> P (snd (m s)))"

lemma keeps_give [simp]: "keeps P (give r)"
  by (simp add: keeps_def give_def)

lemma keeps_then: "keeps P m \<Longrightarrow> (\<And>x. keeps P (f x)) \<Longrightarrow> keeps P (then_do m f)"
  by (fastforce simp: keeps_def then_do_def split: prod.splits sum.splits)

section \<open>Quoting is safe\<close>

text \<open>
  The scanner of a quoted identifier, as PostgreSQL reads one: up to the first double quote that is
  not doubled. Result: the identifier and the rest of the statement.
\<close>

fun scan_quoted :: "string \<Rightarrow> (string \<times> string) option" where
  "scan_quoted [] = None"
| "scan_quoted [c] = (if c = dquote then Some ([], []) else None)"
| "scan_quoted (c # d # cs) =
     (if c = dquote
      then (if d = dquote then map_option (\<lambda>(s, rest). (dquote # s, rest)) (scan_quoted cs)
            else Some ([], d # cs))
      else map_option (\<lambda>(s, rest). (c # s, rest)) (scan_quoted (d # cs)))"

fun scan_ident :: "string \<Rightarrow> (string \<times> string) option" where
  "scan_ident [] = None"
| "scan_ident (c # cs) = (if c = dquote then scan_quoted cs else None)"

lemma replace_dquote: "replace_all s [dquote] [dquote, dquote] =
    concat (map (\<lambda>c. if c = dquote then [dquote, dquote] else [c]) s)"
  by (induction s) (auto simp: has_prefix_def)

lemma scan_quoted_Cons:
  "c \<noteq> dquote \<Longrightarrow> scan_quoted (c # cs) = map_option (\<lambda>(s, rest). (c # s, rest)) (scan_quoted cs)"
  by (cases cs) auto

lemma scan_quoted_end:
  "rest = [] \<or> hd rest \<noteq> dquote \<Longrightarrow> scan_quoted (dquote # rest) = Some ([], rest)"
  by (cases rest) auto

lemma scan_quoted_escaped:
  assumes "rest = [] \<or> hd rest \<noteq> dquote"
  shows "scan_quoted (replace_all s [dquote] [dquote, dquote] @ dquote # rest) = Some (s, rest)"
  unfolding replace_dquote
proof (induction s)
  case Nil
  show ?case using assms by (simp add: scan_quoted_end)
next
  case (Cons c s)
  then show ?case by (simp add: scan_quoted_Cons)
qed

text \<open>Quoting an identifier never lets its text escape into the statement: whatever follows (not
  starting with a double quote), PostgreSQL's scanner reads back exactly the original identifier and
  continues with the text that follows.\<close>

theorem quoteIdent_scan:
  assumes "rest = [] \<or> hd rest \<noteq> dquote"
  shows "scan_ident (quoteIdent s @ rest) = Some (s, rest)"
  using scan_quoted_escaped [OF assms] by (simp add: quoteIdent_def)

theorem quoteIdent_scan_witness:
  "scan_ident (quoteIdent (''a'' @ [dquote] @ ''; DROP TABLE t'') @ '' WHERE x'') =
   Some (''a'' @ [dquote] @ ''; DROP TABLE t'', '' WHERE x'')"
  by (rule quoteIdent_scan) (simp add: dquote_def)

end
