(* ===== verification/TableFilter.thy ===== *)
theory TableFilter
  imports GoPrelude
begin

text \<open>
  Table selection (\<^verbatim>\<open>datamigrate/filter.go\<close>): a comma-separated list of names and glob patterns. The
  pattern language is that of Go's \<open>filepath.Match\<close> on Unix: \<open>*\<close> matches any characters but the
  separator, \<open>?\<close> one of them, \<open>[...]\<close> a character class, backslash quotes. A malformed pattern
  matches nothing (the caller ignores the error). Characters are bytes, so \<open>?\<close> and classes are exact for
  ASCII names.
\<close>

section \<open>Patterns\<close>

datatype glob =
    GLit char
  | GAny
  | GStar
  | GClass bool "(char \<times> char) list"

text \<open>One possibly escaped character of a class (\<open>getEsc\<close>).\<close>

definition class_char :: "string \<Rightarrow> (char \<times> string) option" where
  "class_char s =
     (case s of
        [] \<Rightarrow> None
      | c # cs \<Rightarrow>
          if c = CHR ''-'' \<or> c = CHR '']'' then None
          else if c = CHR 0x5C
          then (case cs of [] \<Rightarrow> None | d # ds \<Rightarrow> if ds = [] then None else Some (d, ds))
          else if cs = [] then None else Some (c, cs))"

fun class_ranges :: "nat \<Rightarrow> bool \<Rightarrow> string \<Rightarrow> ((char \<times> char) list \<times> string) option" where
  "class_ranges 0 first s = None"
| "class_ranges (Suc n) first s =
     (if \<not> first \<and> has_prefix s '']'' then Some ([], drop 1 s)
      else (case class_char s of
              None \<Rightarrow> None
            | Some (lo, s1) \<Rightarrow>
                (case (if has_prefix s1 ''-'' then class_char (drop 1 s1) else Some (lo, s1)) of
                   None \<Rightarrow> None
                 | Some (hi, s2) \<Rightarrow>
                     map_option (\<lambda>(rs, rest). ((lo, hi) # rs, rest)) (class_ranges n False s2))))"

fun parse_glob :: "nat \<Rightarrow> string \<Rightarrow> glob list option" where
  "parse_glob 0 s = None"
| "parse_glob (Suc n) [] = Some []"
| "parse_glob (Suc n) (c # cs) =
     (if c = CHR ''*'' then map_option (Cons GStar) (parse_glob n cs)
      else if c = CHR ''?'' then map_option (Cons GAny) (parse_glob n cs)
      else if c = CHR 0x5C
      then (case cs of [] \<Rightarrow> None | d # ds \<Rightarrow> map_option (Cons (GLit d)) (parse_glob n ds))
      else if c = CHR ''[''
      then (let neg = has_prefix cs ''^''; body = (if neg then drop 1 cs else cs)
            in case class_ranges (Suc (length body)) True body of
                 None \<Rightarrow> None
               | Some (rs, rest) \<Rightarrow> map_option (Cons (GClass neg rs)) (parse_glob n rest))
      else map_option (Cons (GLit c)) (parse_glob n cs))"

section \<open>Matching\<close>

definition in_range :: "char \<Rightarrow> (char \<times> char) \<Rightarrow> bool" where
  "in_range c r = ((of_char (fst r) :: nat) \<le> of_char c \<and> (of_char c :: nat) \<le> of_char (snd r))"

text \<open>A chunk is a pattern without stars; the result is what it leaves of the name.\<close>

fun match_chunk :: "glob list \<Rightarrow> string \<Rightarrow> string option" where
  "match_chunk [] s = Some s"
| "match_chunk (g # gs) [] = None"
| "match_chunk (g # gs) (c # cs) =
     (if (case g of GLit d \<Rightarrow> c = d | GAny \<Rightarrow> c \<noteq> CHR ''/'' | GStar \<Rightarrow> False
            | GClass neg rs \<Rightarrow> list_ex (in_range c) rs \<noteq> neg)
      then match_chunk gs cs else None)"

text \<open>\<open>skip_chunk\<close> finds the first position, at most up to the next separator, at which the chunk matches; the last chunk must
  use up the name.\<close>

definition try_chunk :: "glob list \<Rightarrow> bool \<Rightarrow> string \<Rightarrow> string option" where
  "try_chunk chunk final s =
     (case match_chunk chunk s of None \<Rightarrow> None | Some t \<Rightarrow> if final \<and> t \<noteq> [] then None else Some t)"

fun skip_chunk :: "glob list \<Rightarrow> bool \<Rightarrow> string \<Rightarrow> string option" where
  "skip_chunk chunk final [] = try_chunk chunk final []"
| "skip_chunk chunk final (c # cs) =
     (case try_chunk chunk final (c # cs) of
        Some t \<Rightarrow> Some t
      | None \<Rightarrow> if c = CHR ''/'' then None else skip_chunk chunk final cs)"

definition glob_chunk :: "glob list \<Rightarrow> glob list" where
  "glob_chunk p = takeWhile (\<lambda>g. g \<noteq> GStar) (dropWhile (\<lambda>g. g = GStar) p)"

definition glob_rest :: "glob list \<Rightarrow> glob list" where
  "glob_rest p = dropWhile (\<lambda>g. g \<noteq> GStar) (dropWhile (\<lambda>g. g = GStar) p)"

lemma glob_rest_shorter: "p \<noteq> [] \<Longrightarrow> length (glob_rest p) < length p"
proof -
  assume "p \<noteq> []"
  have le: "length (dropWhile Q xs) \<le> length xs" for Q and xs :: "glob list" by (rule length_dropWhile_le)
  obtain g gs where p: "p = g # gs" using \<open>p \<noteq> []\<close> by (cases p) auto
  show ?thesis
  proof (cases "g = GStar")
    case True
    then have "length (glob_rest p) \<le> length gs"
      unfolding glob_rest_def p by (simp add: le order.trans [OF le le])
    then show ?thesis by (simp add: p)
  next
    case False
    then show ?thesis using le [of "\<lambda>g. g \<noteq> GStar" gs] by (simp add: glob_rest_def p)
  qed
qed

function glob_match :: "glob list \<Rightarrow> string \<Rightarrow> bool" where
  "glob_match p s =
     (if p = [] then s = []
      else if hd p = GStar \<and> glob_chunk p = [] then CHR ''/'' \<notin> set s
      else (case (if hd p = GStar then skip_chunk (glob_chunk p) (glob_rest p = []) s
                  else try_chunk (glob_chunk p) (glob_rest p = []) s) of
              None \<Rightarrow> False
            | Some t \<Rightarrow> glob_match (glob_rest p) t))"
  by pat_completeness auto
termination
  by (relation "measure (\<lambda>(p, s). length p)") (simp_all add: glob_rest_shorter)

declare glob_match.simps [simp del]

definition filepath_match :: "string \<Rightarrow> string \<Rightarrow> bool" where
  "filepath_match pattern name =
     (case parse_glob (Suc (length pattern)) pattern of None \<Rightarrow> False | Some p \<Rightarrow> glob_match p name)"

section \<open>Selection\<close>

text \<open>\<open>strings.Split(s, ",")\<close>.\<close>

fun split_on :: "char \<Rightarrow> string \<Rightarrow> string list" where
  "split_on d [] = [[]]"
| "split_on d (c # cs) =
     (if c = d then [] # split_on d cs
      else (case split_on d cs of [] \<Rightarrow> [[c]] | w # ws \<Rightarrow> (c # w) # ws))"

definition parsePatterns :: "string \<Rightarrow> string list" where
  "parsePatterns flt =
     (if flt = [] then [] else filter (\<lambda>p. p \<noteq> []) (map trim_space (split_on CHR '','' flt)))"

definition matchesAny :: "string \<Rightarrow> string list \<Rightarrow> bool" where
  "matchesAny name patterns \<longleftrightarrow> list_ex (\<lambda>p. filepath_match p name) patterns"

definition FilterTables :: "string list \<Rightarrow> string \<Rightarrow> string \<Rightarrow> string list" where
  "FilterTables tables mode flt =
     (if mode = ''all'' then tables
      else let patterns = parsePatterns flt in
           filter (\<lambda>t. (mode = ''include'' \<and> matchesAny t patterns) \<or>
                       (mode = ''exclude'' \<and> \<not> matchesAny t patterns)) tables)"

section \<open>Facts\<close>

definition plain_char :: "char \<Rightarrow> bool" where
  "plain_char c \<longleftrightarrow> c \<notin> {CHR ''*'', CHR ''?'', CHR 0x5C, CHR ''['', CHR '',''} \<and> \<not> is_space c"

lemma parse_glob_plain:
  "list_all plain_char s \<Longrightarrow> length s < n \<Longrightarrow> parse_glob n s = Some (map GLit s)"
  by (induction n s rule: parse_glob.induct) (auto simp: plain_char_def)

lemma match_chunk_lits: "match_chunk (map GLit p) s = (if has_prefix s p then Some (drop (length p) s) else None)"
proof (induction p arbitrary: s)
  case (Cons c p)
  then show ?case by (cases s) auto
qed simp

lemma has_prefix_all: "has_prefix s p \<and> drop (length p) s = [] \<longleftrightarrow> s = p"
  by (auto simp: has_prefix_iff)

lemma glob_lits [simp]:
  "glob_chunk (map GLit p) = map GLit p" "glob_rest (map GLit p) = []"
proof -
  have 1: "dropWhile (\<lambda>g. g = GStar) (map GLit p) = map GLit p" by (cases p) auto
  show "glob_chunk (map GLit p) = map GLit p" unfolding glob_chunk_def 1 by (induction p) auto
  show "glob_rest (map GLit p) = []" unfolding glob_rest_def 1 by (induction p) auto
qed

lemma filepath_match_plain:
  assumes "list_all plain_char p"
  shows "filepath_match p s \<longleftrightarrow> s = p"
proof -
  have "glob_match (map GLit p) s \<longleftrightarrow> s = p"
  proof (cases "p = []")
    case True
    then show ?thesis by (simp add: glob_match.simps)
  next
    case False
    then have "hd (map GLit p) \<noteq> GStar" by (simp add: hd_map)
    then show ?thesis
      using False has_prefix_all [of s p]
      by (subst glob_match.simps) (auto simp: try_chunk_def match_chunk_lits glob_match.simps)
  qed
  with assms show ?thesis by (simp add: filepath_match_def parse_glob_plain)
qed

lemma split_on_nonempty: "split_on d s \<noteq> []"
  by (induction s) (auto split: list.splits)

lemma split_on_plain: "d \<notin> set w \<Longrightarrow> split_on d w = [w]"
  by (induction w) auto

lemma split_on_sep: "d \<notin> set w \<Longrightarrow> split_on d (w @ d # s) = w # split_on d s"
  by (induction w) auto

lemma split_on_join:
  "ws \<noteq> [] \<Longrightarrow> list_all (\<lambda>w. d \<notin> set w) ws \<Longrightarrow> split_on d (str_join [d] ws) = ws"
  by (induction "[d]" ws rule: str_join.induct) (auto simp: split_on_plain split_on_sep)

lemma trim_space_plain: "list_all plain_char s \<Longrightarrow> trim_space s = s"
proof -
  assume "list_all plain_char s"
  then have ns: "\<forall>c\<in>set s. \<not> is_space c" by (auto simp: list_all_iff plain_char_def)
  have dw: "dropWhile is_space xs = xs" if "\<forall>c\<in>set xs. \<not> is_space c" for xs
    using that by (cases xs) auto
  show ?thesis using ns by (simp add: trim_space_def dw)
qed

lemma parsePatterns_names:
  assumes "names \<noteq> []" "list_all (\<lambda>n. n \<noteq> [] \<and> list_all plain_char n) names"
  shows "parsePatterns (str_join '','' names) = names"
proof -
  have "list_all (\<lambda>w. CHR '','' \<notin> set w) names"
    using assms(2) by (auto simp: list_all_iff plain_char_def)
  then have sp: "split_on CHR '','' (str_join '','' names) = names" by (rule split_on_join [OF assms(1)])
  moreover have "map trim_space names = names"
    using assms(2) by (auto simp: list_all_iff trim_space_plain intro: map_idI)
  moreover have "filter (\<lambda>p. p \<noteq> []) names = names" using assms(2) by (auto simp: list_all_iff filter_id_conv)
  moreover have "str_join '','' names \<noteq> []" using assms by (cases names rule: list.exhaust; cases "tl names") auto
  ultimately show ?thesis by (simp add: parsePatterns_def)
qed

section \<open>Properties\<close>

text \<open>An include list of plain names selects exactly those names and the same list used to exclude
  selects exactly the others, both in the order of the source's list.\<close>

theorem FilterTables_names:
  assumes "names \<noteq> []" and "list_all (\<lambda>n. n \<noteq> [] \<and> list_all plain_char n) names"
  shows "FilterTables tables ''include'' (str_join '','' names) = filter (\<lambda>t. t \<in> set names) tables \<and>
    FilterTables tables ''exclude'' (str_join '','' names) = filter (\<lambda>t. t \<notin> set names) tables"
proof -
  have "matchesAny t names \<longleftrightarrow> t \<in> set names" for t
    using assms(2) by (auto simp: matchesAny_def list_ex_iff list_all_iff filepath_match_plain)
  then show ?thesis using parsePatterns_names [OF assms] by (simp add: FilterTables_def)
qed

theorem FilterTables_names_witness:
  "FilterTables [''a'', ''b'', ''c''] ''include'' (str_join '','' [''c'', ''a'']) =
     filter (\<lambda>t. t \<in> set [''c'', ''a'']) [''a'', ''b'', ''c''] \<and>
   FilterTables [''a'', ''b'', ''c''] ''exclude'' (str_join '','' [''c'', ''a'']) =
     filter (\<lambda>t. t \<notin> set [''c'', ''a'']) [''a'', ''b'', ''c'']"
  by (rule FilterTables_names) (simp_all add: plain_char_def is_space_def)

end
