(* ===== verification/CdcMetadata.thy ===== *)
theory CdcMetadata
  imports CdcTypes TableFilter
begin

text \<open>
  Table metadata and the choice of row locators (\<^verbatim>\<open>metadata.go\<close>, \<^verbatim>\<open>target_metadata.go\<close>,
  \<open>sameColumnSet\<close> and \<open>applyMissingTargetExclusions\<close> of \<^verbatim>\<open>preflight.go\<close>). The rows the catalog queries return are the arguments of
  the functions that assemble them; a scan or connection error ends the Go function with that error
  before anything is used. A Go map keyed by table is an association list in order of first insertion.
\<close>

datatype meta_error =
    ExactTableMissing string
  | NoSourceTables
  | EmptyExactList
  | StrategyMissing string
  | StrategyInvalid string string
  | StrategyColumnGone string string
  | BadIndexKey string
  | EmptyIndexKey string

section \<open>Source tables\<close>

record column_row =
  cr_table :: string
  cr_column :: string
  cr_type :: string
  cr_extra :: string
  cr_engine :: "string option"

fun update_table :: "string \<Rightarrow> (TableInfo \<Rightarrow> TableInfo) \<Rightarrow> TableInfo list \<Rightarrow> TableInfo list" where
  "update_table n f [] = []"
| "update_table n f (t # ts) = (if Name t = n then f t # ts else t # update_table n f ts)"

definition find_table :: "string \<Rightarrow> TableInfo list \<Rightarrow> TableInfo option" where
  "find_table n ts = List.find (\<lambda>t. Name t = n) ts"

definition new_table :: "string \<Rightarrow> string option \<Rightarrow> TableInfo" where
  "new_table n eng = \<lparr>Name = n, Engine = (case eng of None \<Rightarrow> [] | Some e \<Rightarrow> e), Columns = [], ColumnTypes = [],
     PrimaryKey = [], AutoIncrement = [], LocatorStrategy = [], LocatorIndex = [], LocatorColumns = [],
     UniqueIndexes = []\<rparr>"

definition add_column :: "column_row \<Rightarrow> TableInfo \<Rightarrow> TableInfo" where
  "add_column r t = t\<lparr>Columns := Columns t @ [cr_column r],
     ColumnTypes := ColumnTypes t @ [to_upper (cr_type r)],
     AutoIncrement := (if str_contains (to_lower (cr_extra r)) ''auto_increment''
                       then AutoIncrement t @ [int (length (Columns t))] else AutoIncrement t)\<rparr>"

fun load_columns :: "column_row list \<Rightarrow> TableInfo list \<Rightarrow> TableInfo list" where
  "load_columns [] ts = ts"
| "load_columns (r # rs) ts =
     (let ts' = (if find_table (cr_table r) ts = None then ts @ [new_table (cr_table r) (cr_engine r)] else ts)
      in load_columns rs (update_table (cr_table r) (add_column r) ts'))"

definition add_key_column :: "string \<Rightarrow> TableInfo \<Rightarrow> TableInfo" where
  "add_key_column col t =
     (case find_index (Columns t) col of
        None \<Rightarrow> t
      | Some i \<Rightarrow> t\<lparr>PrimaryKey := PrimaryKey t @ [int i]\<rparr>)"

fun load_keys :: "(string \<times> string) list \<Rightarrow> TableInfo list \<Rightarrow> TableInfo list" where
  "load_keys [] ts = ts"
| "load_keys ((table, col) # rs) ts = load_keys rs (update_table table (add_key_column col) ts)"

subsection \<open>Unique indexes\<close>

record index_row =
  ir_table :: string
  ir_index :: string
  ir_column :: "string option"
  ir_subpart :: "int option"
  ir_type :: string
  ir_nullable :: "string option"

text \<open>An SQL NULL is \<open>None\<close>.\<close>

definition eligibleUniqueIndexPart :: "string option \<Rightarrow> bool \<Rightarrow> string \<Rightarrow> string option \<Rightarrow> bool" where
  "eligibleUniqueIndexPart column hasPrefix indexType nullable =
     ((case column of None \<Rightarrow> False | Some c \<Rightarrow> c \<noteq> []) \<and> \<not> hasPrefix \<and> equal_fold indexType ''BTREE'' \<and>
      (case nullable of None \<Rightarrow> False | Some n \<Rightarrow> equal_fold n ''NO''))"

record index_builder =
  ib_table :: string
  ib_info :: UniqueIndexInfo
  ib_valid :: bool

definition builder_key :: "index_builder \<Rightarrow> string \<times> string" where
  "builder_key b = (ib_table b, ui_name (ib_info b))"

fun update_builder :: "string \<times> string \<Rightarrow> (index_builder \<Rightarrow> index_builder) \<Rightarrow> index_builder list \<Rightarrow> index_builder list" where
  "update_builder k f [] = []"
| "update_builder k f (b # bs) = (if builder_key b = k then f b # bs else b # update_builder k f bs)"

definition add_index_part :: "index_row \<Rightarrow> index_builder \<Rightarrow> index_builder" where
  "add_index_part r b =
     (if eligibleUniqueIndexPart (ir_column r) (ir_subpart r \<noteq> None) (ir_type r) (ir_nullable r)
      then b\<lparr>ib_info := (ib_info b)\<lparr>ui_columns := ui_columns (ib_info b) @
             [case ir_column r of None \<Rightarrow> [] | Some c \<Rightarrow> c]\<rparr>\<rparr>
      else b\<lparr>ib_valid := False\<rparr>)"

fun load_index_rows :: "index_row list \<Rightarrow> index_builder list \<Rightarrow> index_builder list" where
  "load_index_rows [] bs = bs"
| "load_index_rows (r # rs) bs =
     (let k = (ir_table r, ir_index r);
          bs' = (if list_ex (\<lambda>b. builder_key b = k) bs then bs
                 else bs @ [\<lparr>ib_table = ir_table r,
                      ib_info = \<lparr>ui_name = ir_index r, ui_columns = []\<rparr>, ib_valid = True\<rparr>])
      in load_index_rows rs (update_builder k (add_index_part r) bs'))"

definition index_less :: "UniqueIndexInfo \<Rightarrow> UniqueIndexInfo \<Rightarrow> bool" where
  "index_less x y =
     (if length (ui_columns x) \<noteq> length (ui_columns y)
      then length (ui_columns x) < length (ui_columns y) else str_less (ui_name x) (ui_name y))"

definition loadUniqueIndexes :: "index_row list \<Rightarrow> TableInfo list \<Rightarrow> TableInfo list" where
  "loadUniqueIndexes rows ts =
     (let usable = filter (\<lambda>b. ib_valid b \<and> ui_columns (ib_info b) \<noteq> []) (load_index_rows rows []);
          found = (\<lambda>t. map ib_info (filter (\<lambda>b. ib_table b = Name t) usable))
      in map (\<lambda>t. t\<lparr>UniqueIndexes := sort_by index_less (UniqueIndexes t @ found t)\<rparr>) ts)"

subsection \<open>Selecting the tables\<close>

fun select_exact :: "TableInfo list \<Rightarrow> string list \<Rightarrow> meta_error + string list" where
  "select_exact ts [] = Inr []"
| "select_exact ts (n # ns) =
     (if find_table n ts = None then Inl (ExactTableMissing n)
      else bind_res (select_exact ts ns) (\<lambda>rest. Inr (n # rest)))"

definition loadTables ::
  "column_row list \<Rightarrow> (string \<times> string) list \<Rightarrow> index_row list \<Rightarrow> string \<Rightarrow> string \<Rightarrow> string list option
     \<Rightarrow> meta_error + TableInfo list" where
  "loadTables cols keys idx mode flt exact =
     (let ts = loadUniqueIndexes idx (load_keys keys (load_columns cols []));
          selected = (case exact of
              None \<Rightarrow> Inr (FilterTables (map Name ts) mode flt)
            | Some names \<Rightarrow> select_exact ts names)
      in bind_res selected (\<lambda>names.
           let result = List.map_filter (\<lambda>n. find_table n ts) names
           in if result = [] then Inl NoSourceTables else Inr result))"

text \<open>\<open>TableNames\<close> of the configuration; \<open>None\<close> is Go's nil slice.\<close>

definition LoadConfiguredTables ::
  "string list option \<Rightarrow> string \<Rightarrow> string \<Rightarrow> column_row list \<Rightarrow> (string \<times> string) list \<Rightarrow> index_row list
     \<Rightarrow> meta_error + TableInfo list" where
  "LoadConfiguredTables names mode flt cols keys idx =
     (case names of
        Some ns \<Rightarrow> if ns = [] then Inl EmptyExactList else loadTables cols keys idx ''all'' [] (Some ns)
      | None \<Rightarrow> loadTables cols keys idx mode flt None)"

definition tableNames :: "TableInfo list \<Rightarrow> string list" where
  "tableNames ts = map Name ts"

text \<open>\<open>tableMap\<close>: a later table of the same name replaces an earlier one.\<close>

definition tableMap :: "TableInfo list \<Rightarrow> string \<Rightarrow> TableInfo option" where
  "tableMap ts n = List.find (\<lambda>t. Name t = n) (rev ts)"

end
