(* ===== verification/CdcLocators.thy ===== *)
theory CdcLocators
  imports CdcMetadata
begin

text \<open>
  How a row is located in the target (\<^verbatim>\<open>metadata.go\<close>, \<^verbatim>\<open>target_metadata.go\<close>, \<^verbatim>\<open>preflight.go\<close>):
  the target's columns and unique indexes as read from its catalog, the choice of primary key, unique key
  or full row for every table, and the freezing of that choice into the checkpoint and its replay.
\<close>

section \<open>Target metadata\<close>

record target_column =
  tc_name :: string
  tc_nullable :: string
  tc_default :: "string option"
  tc_identity :: string

record target_table =
  tt_name :: string
  tt_columns :: "target_column list"
  tt_unique :: "string list list"

definition tt_column_names :: "target_table \<Rightarrow> string set" where
  "tt_column_names t = set (map tc_name (tt_columns t))"

fun parse_attnums :: "string \<Rightarrow> string list \<Rightarrow> meta_error + int list" where
  "parse_attnums key [] = Inr []"
| "parse_attnums key (w # ws) =
     (case parse_int 64 w of
        None \<Rightarrow> Inl (BadIndexKey key)
      | Some n \<Rightarrow> bind_res (parse_attnums key ws) (\<lambda>ns. Inr (if n > 0 then n # ns else ns)))"

definition parseIndexKeyOrder :: "string \<Rightarrow> meta_error + int list" where
  "parseIndexKeyOrder indkey =
     bind_res (parse_attnums indkey (str_fields indkey))
       (\<lambda>ns. if ns = [] then Inl (EmptyIndexKey indkey) else Inr ns)"

record target_index_row =
  tr_table :: string
  tr_oid :: int
  tr_key :: string
  tr_attnum :: int
  tr_column :: string

record target_builder =
  tb_table :: string
  tb_oid :: int
  tb_order :: "int list"
  tb_columns :: "(int \<times> string) list"

fun put_target_column :: "string \<Rightarrow> int \<Rightarrow> int \<Rightarrow> string \<Rightarrow> target_builder list \<Rightarrow> target_builder list" where
  "put_target_column tab oid n col [] = []"
| "put_target_column tab oid n col (b # bs) =
     (if tb_table b = tab \<and> tb_oid b = oid then b\<lparr>tb_columns := (n, col) # tb_columns b\<rparr> # bs
      else b # put_target_column tab oid n col bs)"

fun target_index_rows ::
  "string list \<Rightarrow> target_index_row list \<Rightarrow> target_builder list \<Rightarrow> meta_error + target_builder list" where
  "target_index_rows known [] bs = Inr bs"
| "target_index_rows known (r # rs) bs =
     (if tr_table r \<notin> set known then target_index_rows known rs bs
      else bind_res
        (if list_ex (\<lambda>b. tb_table b = tr_table r \<and> tb_oid b = tr_oid r) bs then Inr bs
         else bind_res (parseIndexKeyOrder (tr_key r)) (\<lambda>order.
           Inr (bs @ [\<lparr>tb_table = tr_table r, tb_oid = tr_oid r, tb_order = order, tb_columns = []\<rparr>])))
        (\<lambda>bs'. target_index_rows known rs
           (put_target_column (tr_table r) (tr_oid r) (tr_attnum r) (tr_column r) bs')))"

definition builder_columns :: "target_builder \<Rightarrow> string list" where
  "builder_columns b =
     filter (\<lambda>c. c \<noteq> []) (map (\<lambda>n. case map_of (tb_columns b) n of None \<Rightarrow> [] | Some c \<Rightarrow> c) (tb_order b))"

definition unique_set_less :: "string list \<Rightarrow> string list \<Rightarrow> bool" where
  "unique_set_less x y =
     (if length x \<noteq> length y then length x < length y
      else str_less (str_join [CHR 0x00] x) (str_join [CHR 0x00] y))"

text \<open>The names of the target's tables, its column rows \<open>(table, column)\<close> and its unique index rows.\<close>

definition loadTargetSchemaMetadata ::
  "string list \<Rightarrow> (string \<times> target_column) list \<Rightarrow> target_index_row list \<Rightarrow> meta_error + target_table list" where
  "loadTargetSchemaMetadata tables cols idx =
     bind_res (target_index_rows tables idx []) (\<lambda>bs.
       Inr (map (\<lambda>n. \<lparr>tt_name = n, tt_columns = map snd (filter (\<lambda>r. fst r = n) cols),
              tt_unique = sort_by unique_set_less (filter (\<lambda>cs. cs \<noteq> [])
                 (map builder_columns (filter (\<lambda>b. tb_table b = n) bs)))\<rparr>) (remdups tables)))"

definition find_target :: "string \<Rightarrow> target_table list \<Rightarrow> target_table option" where
  "find_target n ts = List.find (\<lambda>t. tt_name t = n) ts"

section \<open>Choosing a locator\<close>

definition sameColumnSet :: "string list \<Rightarrow> string list \<Rightarrow> bool" where
  "sameColumnSet a b = (length a = length b \<and> list_all (\<lambda>c. c \<in> set a) b)"

definition columnNamesAt :: "TableInfo \<Rightarrow> int list \<Rightarrow> string list" where
  "columnNamesAt t idxs =
     map (\<lambda>i. Columns t ! nat i) (filter (\<lambda>i. 0 \<le> i \<and> i < int (length (Columns t))) idxs)"

text \<open>The first candidate, in the order of size and name, that a unique set of the target confirms.\<close>

definition selectConfiguredUniqueLocator ::
  "TableInfo \<Rightarrow> string list list \<Rightarrow> Config \<Rightarrow> UniqueIndexInfo option" where
  "selectConfiguredUniqueLocator t uniques cfg =
     List.find (\<lambda>cand. list_ex (sameColumnSet
         (map (targetObjectName (LowerCaseNames cfg) (TargetDBType cfg)) (ui_columns cand))) uniques)
       (sort_by index_less (UniqueIndexes t))"

definition resolve_locator :: "Config \<Rightarrow> target_table list \<Rightarrow> TableInfo \<Rightarrow> TableInfo" where
  "resolve_locator cfg meta t =
     (if PrimaryKey t \<noteq> []
      then t\<lparr>LocatorStrategy := LocatorPrimaryKey, LocatorIndex := ''PRIMARY'',
             LocatorColumns := columnNamesAt t (PrimaryKey t)\<rparr>
      else
        let uniques = (case find_target (targetObjectName (LowerCaseNames cfg) (TargetDBType cfg) (Name t)) meta of
                         None \<Rightarrow> [] | Some tt \<Rightarrow> tt_unique tt);
            t' = (case selectConfiguredUniqueLocator t uniques cfg of
                    None \<Rightarrow> t
                  | Some cand \<Rightarrow> t\<lparr>LocatorStrategy := LocatorUniqueKey, LocatorIndex := ui_name cand,
                                  LocatorColumns := ui_columns cand\<rparr>)
        in if LocatorStrategy t' = []
           then t'\<lparr>LocatorStrategy := LocatorFullRow, LocatorColumns := Columns t'\<rparr> else t')"

definition resolveLocatorStrategiesFromMetadata ::
  "Config \<Rightarrow> TableInfo list \<Rightarrow> target_table list \<Rightarrow> TableInfo list" where
  "resolveLocatorStrategiesFromMetadata cfg tables meta = map (resolve_locator cfg meta) tables"

section \<open>Freezing and replaying the choice\<close>

definition LocatorStrategiesFromTables :: "TableInfo list \<Rightarrow> Locator list" where
  "LocatorStrategiesFromTables tables =
     map (\<lambda>t. \<lparr>ls_table = Name t, ls_strategy = LocatorStrategy t, ls_index = LocatorIndex t,
               ls_columns = LocatorColumns t\<rparr>) tables"

text \<open>The map by table name: the last strategy of a table counts.\<close>

definition strategy_of :: "Locator list \<Rightarrow> string \<Rightarrow> Locator option" where
  "strategy_of ls n = List.find (\<lambda>l. ls_table l = n) (rev ls)"

definition valid_strategy :: "string \<Rightarrow> bool" where
  "valid_strategy s \<longleftrightarrow> s = LocatorPrimaryKey \<or> s = LocatorUniqueKey \<or> s = LocatorFullRow"

definition apply_strategy :: "Locator list \<Rightarrow> TableInfo \<Rightarrow> meta_error + TableInfo" where
  "apply_strategy ls t =
     (case strategy_of ls (Name t) of
        None \<Rightarrow> Inl (StrategyMissing (Name t))
      | Some l \<Rightarrow>
          if \<not> valid_strategy (ls_strategy l) then Inl (StrategyInvalid (Name t) (ls_strategy l))
          else (case List.find (\<lambda>c. c \<notin> set (Columns t)) (ls_columns l) of
                  Some c \<Rightarrow> Inl (StrategyColumnGone (Name t) c)
                | None \<Rightarrow> Inr (t\<lparr>LocatorStrategy := ls_strategy l, LocatorIndex := ls_index l,
                                LocatorColumns := ls_columns l\<rparr>)))"

fun ApplyLocatorStrategies :: "TableInfo list \<Rightarrow> Locator list \<Rightarrow> meta_error + TableInfo list" where
  "ApplyLocatorStrategies [] ls = Inr []"
| "ApplyLocatorStrategies (t # ts) ls =
     bind_res (apply_strategy ls t) (\<lambda>t'.
       bind_res (ApplyLocatorStrategies ts ls) (\<lambda>ts'. Inr (t' # ts')))"

section \<open>Confirmed exclusions\<close>

record TargetTableIssue =
  ti_source :: string
  ti_schema :: string
  ti_target :: string

datatype exclusion_error =
    DuplicateExclusion string
  | ExclusionOutOfScope string
  | ExclusionNotMissing string
  | NothingLeft

fun accept_exclusions ::
  "string list \<Rightarrow> (string \<rightharpoonup> TargetTableIssue) \<Rightarrow> string list \<Rightarrow> string list
     \<Rightarrow> (string \<times> TargetTableIssue) list \<times> exclusion_error list" where
  "accept_exclusions selected missing [] seen = ([], [])"
| "accept_exclusions selected missing (n # ns) seen =
     (let (acc, errs) = accept_exclusions selected missing ns (if n \<in> set seen then seen else n # seen)
      in if n \<in> set seen then (acc, DuplicateExclusion n # errs)
         else if n \<notin> set selected then (acc, ExclusionOutOfScope n # errs)
         else (case missing n of
                 None \<Rightarrow> (acc, ExclusionNotMissing n # errs)
               | Some issue \<Rightarrow> ((n, issue) # acc, errs)))"

definition applyMissingTargetExclusions ::
  "TableInfo list \<Rightarrow> (string \<rightharpoonup> TargetTableIssue) \<Rightarrow> string list
     \<Rightarrow> TableInfo list \<times> TargetTableIssue list \<times> TargetTableIssue list \<times> exclusion_error list" where
  "applyMissingTargetExclusions tables missing requested =
     (let (acc, errs) = accept_exclusions (map Name tables) missing requested [];
          effective = filter (\<lambda>t. missing (Name t) = None) tables;
          unresolved = List.map_filter (\<lambda>t. if Name t \<in> set (map fst acc) then None else missing (Name t)) tables
      in (effective, unresolved, map snd acc, errs @ (if effective = [] then [NothingLeft] else [])))"

section \<open>Facts\<close>

lemma find_Some_mem: "List.find P xs = Some x \<Longrightarrow> x \<in> set xs \<and> P x"
  by (induction xs) (auto split: if_splits)

lemma find_distinct:
  "distinct (map f xs) \<Longrightarrow> x \<in> set xs \<Longrightarrow> List.find (\<lambda>y. f y = f x) xs = Some x"
  by (induction xs) (auto dest: inj_onD)

lemma strategy_of_tables:
  assumes "distinct (map Name ts)" "t \<in> set ts"
  shows "strategy_of (LocatorStrategiesFromTables ts) (Name t) =
    Some \<lparr>ls_table = Name t, ls_strategy = LocatorStrategy t, ls_index = LocatorIndex t,
          ls_columns = LocatorColumns t\<rparr>"
proof -
  let ?l = "\<lambda>t. \<lparr>ls_table = Name t, ls_strategy = LocatorStrategy t, ls_index = LocatorIndex t,
          ls_columns = LocatorColumns t\<rparr>"
  have "distinct (map ls_table (rev (map ?l ts)))"
    using assms(1) by (simp add: rev_map [symmetric] comp_def)
  moreover have "?l t \<in> set (rev (map ?l ts))" using assms(2) by simp
  ultimately have "List.find (\<lambda>y. ls_table y = ls_table (?l t)) (rev (map ?l ts)) = Some (?l t)"
    by (rule find_distinct)
  then show ?thesis by (simp add: strategy_of_def LocatorStrategiesFromTables_def)
qed

definition locator_ok :: "TableInfo \<Rightarrow> bool" where
  "locator_ok t \<longleftrightarrow> valid_strategy (LocatorStrategy t) \<and> set (LocatorColumns t) \<subseteq> set (Columns t)"

lemma find_none: "List.find P xs = None \<longleftrightarrow> (\<forall>x\<in>set xs. \<not> P x)"
  by (induction xs) auto

lemma apply_strategy_same:
  assumes "strategy_of ls (Name t) = Some \<lparr>ls_table = Name t, ls_strategy = LocatorStrategy u,
      ls_index = LocatorIndex u, ls_columns = LocatorColumns u\<rparr>"
    and "locator_ok u" "Columns t = Columns u"
  shows "apply_strategy ls t = Inr (t\<lparr>LocatorStrategy := LocatorStrategy u, LocatorIndex := LocatorIndex u,
      LocatorColumns := LocatorColumns u\<rparr>)"
proof -
  have "List.find (\<lambda>c. c \<notin> set (Columns t)) (LocatorColumns u) = None"
    using assms(2,3) by (auto simp: find_none locator_ok_def)
  with assms show ?thesis by (simp add: apply_strategy_def locator_ok_def)
qed

lemma apply_strategies_map:
  "(\<And>t. t \<in> set ts \<Longrightarrow> apply_strategy ls t = Inr (f t)) \<Longrightarrow> ApplyLocatorStrategies ts ls = Inr (map f ts)"
  by (induction ts) simp_all

text \<open>What loading the source's metadata guarantees of a table.\<close>

definition table_ok :: "TableInfo \<Rightarrow> bool" where
  "table_ok t \<longleftrightarrow> LocatorStrategy t = [] \<and> (\<forall>u\<in>set (UniqueIndexes t). set (ui_columns u) \<subseteq> set (Columns t))"

lemma columnNamesAt_subset: "set (columnNamesAt t is) \<subseteq> set (Columns t)"
  by (auto simp: columnNamesAt_def)

lemma resolve_locator_ok:
  assumes "table_ok t"
  shows "locator_ok (resolve_locator cfg meta t)" "Name (resolve_locator cfg meta t) = Name t"
    "Columns (resolve_locator cfg meta t) = Columns t"
    "t\<lparr>LocatorStrategy := LocatorStrategy (resolve_locator cfg meta t),
       LocatorIndex := LocatorIndex (resolve_locator cfg meta t),
       LocatorColumns := LocatorColumns (resolve_locator cfg meta t)\<rparr> = resolve_locator cfg meta t"
proof -
  have cand: "set (ui_columns c) \<subseteq> set (Columns t)"
    if "selectConfiguredUniqueLocator t u cfg = Some c" for u c
    using find_Some_mem [OF that [unfolded selectConfiguredUniqueLocator_def]] assms
    by (auto simp: table_ok_def)
  show "locator_ok (resolve_locator cfg meta t)"
    using assms columnNamesAt_subset [of t] cand
    by (auto simp: resolve_locator_def locator_ok_def valid_strategy_def Let_def table_ok_def
        LocatorUniqueKey_def split: option.splits)
  show "Name (resolve_locator cfg meta t) = Name t" "Columns (resolve_locator cfg meta t) = Columns t"
    by (auto simp: resolve_locator_def Let_def split: option.splits)
  show "t\<lparr>LocatorStrategy := LocatorStrategy (resolve_locator cfg meta t),
       LocatorIndex := LocatorIndex (resolve_locator cfg meta t),
       LocatorColumns := LocatorColumns (resolve_locator cfg meta t)\<rparr> = resolve_locator cfg meta t"
    by (auto simp: resolve_locator_def Let_def split: option.splits)
qed

lemma sameColumnSet_iff:
  assumes "distinct a"
  shows "sameColumnSet a b \<longleftrightarrow> distinct b \<and> set a = set b \<or> (\<not> distinct b \<and> length a = length b \<and> set b \<subseteq> set a)"
proof -
  have "set a = set b" if "distinct b" "length a = length b" "set b \<subseteq> set a"
    using that assms by (metis card_subset_eq distinct_card finite_set)
  moreover have "length a = length b" if "distinct b" "set a = set b"
    using that assms by (metis distinct_card)
  ultimately show ?thesis by (auto simp: sameColumnSet_def list_all_iff)
qed

section \<open>Properties\<close>

text \<open>C34: Freezing is lossless: the strategies recorded from the tables as resolved at the start, replayed on
  freshly loaded tables (distinct names, index columns among the table's columns), are always
  accepted and give back the resolved tables, whatever the target's metadata was.\<close>

theorem frozen_strategies_replay:
  assumes "distinct (map Name ts)" and "list_all table_ok ts"
  shows "ApplyLocatorStrategies ts
      (LocatorStrategiesFromTables (resolveLocatorStrategiesFromMetadata cfg ts meta)) =
    Inr (resolveLocatorStrategiesFromMetadata cfg ts meta)"
proof -
  let ?f = "resolve_locator cfg meta"
  have names: "map Name (map ?f ts) = map Name ts"
    using assms(2) by (auto simp: list_all_iff resolve_locator_ok(2))
  have "apply_strategy (LocatorStrategiesFromTables (map ?f ts)) t = Inr (?f t)" if t: "t \<in> set ts" for t
  proof -
    have ok: "table_ok t" using assms(2) t by (auto simp: list_all_iff)
    have "distinct (map Name (map ?f ts))" unfolding names by (rule assms(1))
    moreover have "?f t \<in> set (map ?f ts)" using t by simp
    ultimately have s: "strategy_of (LocatorStrategiesFromTables (map ?f ts)) (Name (?f t)) =
      Some \<lparr>ls_table = Name (?f t), ls_strategy = LocatorStrategy (?f t), ls_index = LocatorIndex (?f t),
            ls_columns = LocatorColumns (?f t)\<rparr>" by (rule strategy_of_tables)
    show ?thesis
      using apply_strategy_same [OF s [unfolded resolve_locator_ok(2) [OF ok]] resolve_locator_ok(1) [OF ok]]
      by (simp add: resolve_locator_ok [OF ok])
  qed
  then show ?thesis
    unfolding resolveLocatorStrategiesFromMetadata_def by (rule apply_strategies_map)
qed

definition demo_source :: TableInfo where
  "demo_source = \<lparr>Name = ''t'', Engine = ''InnoDB'', Columns = [''a'', ''b''], ColumnTypes = [''INT'', ''INT''],
     PrimaryKey = [], AutoIncrement = [], LocatorStrategy = [], LocatorIndex = [], LocatorColumns = [],
     UniqueIndexes = [\<lparr>ui_name = ''u'', ui_columns = [''b'']\<rparr>]\<rparr>"

definition demo_config :: Config where
  "demo_config = \<lparr>JobID = ''j'', SourceDatabase = ''d'', TargetDBType = [], TargetSchema = ''s'',
     LowerCaseNames = False, Start = zero_position, cfg_locator_version = 1, cfg_locators = [],
     cfg_exclusions = [], cfg_manifest_hash = []\<rparr>"

theorem frozen_strategies_replay_witness:
  "ApplyLocatorStrategies [demo_source] (LocatorStrategiesFromTables (resolveLocatorStrategiesFromMetadata
      demo_config [demo_source] [\<lparr>tt_name = ''t'', tt_columns = [], tt_unique = [[''b'']]\<rparr>])) =
   Inr (resolveLocatorStrategiesFromMetadata
      demo_config [demo_source] [\<lparr>tt_name = ''t'', tt_columns = [], tt_unique = [[''b'']]\<rparr>])"
  by (rule frozen_strategies_replay) (simp_all add: demo_source_def table_ok_def)

text \<open>C35: A unique-key locator is sound: for a table without a primary key the columns chosen are those of
  one of the source's usable unique indexes, and the target has a unique set with exactly the columns'
  target names (the target's own sets have no repetition). Without such a set the whole row locates.\<close>

theorem unique_locator_confirmed:
  assumes "table_ok t" and "PrimaryKey t = []"
    and "\<forall>u\<in>set (UniqueIndexes t). distinct (map (targetObjectName (LowerCaseNames cfg) (TargetDBType cfg)) (ui_columns u))"
    and "\<forall>tt\<in>set meta. \<forall>cs\<in>set (tt_unique tt). distinct cs"
  shows "(LocatorStrategy (resolve_locator cfg meta t) = LocatorUniqueKey \<and>
       (\<exists>u\<in>set (UniqueIndexes t). \<exists>tt\<in>set meta. \<exists>cs\<in>set (tt_unique tt).
          LocatorColumns (resolve_locator cfg meta t) = ui_columns u \<and>
          tt_name tt = targetObjectName (LowerCaseNames cfg) (TargetDBType cfg) (Name t) \<and>
          set cs = targetObjectName (LowerCaseNames cfg) (TargetDBType cfg) ` set (ui_columns u))) \<or>
     (LocatorStrategy (resolve_locator cfg meta t) = LocatorFullRow \<and>
       LocatorColumns (resolve_locator cfg meta t) = Columns t)"
proof -
  let ?n = "targetObjectName (LowerCaseNames cfg) (TargetDBType cfg)"
  define uniques where "uniques = (case find_target (?n (Name t)) meta of None \<Rightarrow> [] | Some tt \<Rightarrow> tt_unique tt)"
  show ?thesis
  proof (cases "selectConfiguredUniqueLocator t uniques cfg")
    case None
    then show ?thesis using assms(1,2)
      by (simp add: resolve_locator_def uniques_def [symmetric] table_ok_def Let_def)
  next
    case (Some u)
    then have u: "u \<in> set (UniqueIndexes t)" and ex: "list_ex (sameColumnSet (map ?n (ui_columns u))) uniques"
      using find_Some_mem [OF Some [unfolded selectConfiguredUniqueLocator_def]] by auto
    from ex obtain cs where cs: "cs \<in> set uniques" "sameColumnSet (map ?n (ui_columns u)) cs"
      by (auto simp: list_ex_iff)
    from cs(1) obtain tt where tt: "find_target (?n (Name t)) meta = Some tt" "cs \<in> set (tt_unique tt)"
      by (cases "find_target (?n (Name t)) meta") (auto simp: uniques_def)
    then have "tt \<in> set meta" "tt_name tt = ?n (Name t)"
      using find_Some_mem [OF tt(1) [unfolded find_target_def]] by auto
    moreover have "distinct cs" using assms(4) tt(2) \<open>tt \<in> set meta\<close> by blast
    then have "set cs = ?n ` set (ui_columns u)"
      using cs(2) sameColumnSet_iff [of "map ?n (ui_columns u)" cs] assms(3) u by auto
    ultimately show ?thesis
      using Some u tt(2) assms(2)
      by (auto simp: resolve_locator_def uniques_def [symmetric] Let_def LocatorUniqueKey_def)
  qed
qed

theorem unique_locator_confirmed_witness:
  "(LocatorStrategy (resolve_locator demo_config [\<lparr>tt_name = ''t'', tt_columns = [], tt_unique = [[''b'']]\<rparr>] demo_source) = LocatorUniqueKey \<and>
       (\<exists>u\<in>set (UniqueIndexes demo_source). \<exists>tt\<in>set [\<lparr>tt_name = ''t'', tt_columns = [], tt_unique = [[''b'']]\<rparr>]. \<exists>cs\<in>set (tt_unique tt).
          LocatorColumns (resolve_locator demo_config [\<lparr>tt_name = ''t'', tt_columns = [], tt_unique = [[''b'']]\<rparr>] demo_source) = ui_columns u \<and>
          tt_name tt = targetObjectName (LowerCaseNames demo_config) (TargetDBType demo_config) (Name demo_source) \<and>
          set cs = targetObjectName (LowerCaseNames demo_config) (TargetDBType demo_config) ` set (ui_columns u))) \<or>
     (LocatorStrategy (resolve_locator demo_config [\<lparr>tt_name = ''t'', tt_columns = [], tt_unique = [[''b'']]\<rparr>] demo_source) = LocatorFullRow \<and>
       LocatorColumns (resolve_locator demo_config [\<lparr>tt_name = ''t'', tt_columns = [], tt_unique = [[''b'']]\<rparr>] demo_source) = Columns demo_source)"
  by (rule unique_locator_confirmed) (simp_all add: demo_source_def table_ok_def)

lemma accept_exclusions_ok:
  "accept_exclusions selected missing req seen = (acc, errs) \<Longrightarrow>
   (errs = [] \<longleftrightarrow> distinct req \<and> set req \<inter> set seen = {} \<and>
      (\<forall>n\<in>set req. n \<in> set selected \<and> missing n \<noteq> None)) \<and>
   (errs = [] \<longrightarrow> map fst acc = req) \<and>
   (\<forall>(n, issue)\<in>set acc. n \<in> set req \<and> n \<in> set selected \<and> missing n = Some issue)"
proof (induction req arbitrary: seen acc errs)
  case (Cons n ns)
  let ?seen = "if n \<in> set seen then seen else n # seen"
  obtain acc' errs' where rec: "accept_exclusions selected missing ns ?seen = (acc', errs')"
    by (cases "accept_exclusions selected missing ns ?seen") auto
  have IH: "(errs' = [] \<longleftrightarrow> distinct ns \<and> set ns \<inter> set ?seen = {} \<and>
      (\<forall>n\<in>set ns. n \<in> set selected \<and> missing n \<noteq> None)) \<and>
   (errs' = [] \<longrightarrow> map fst acc' = ns) \<and>
   (\<forall>(n, issue)\<in>set acc'. n \<in> set ns \<and> n \<in> set selected \<and> missing n = Some issue)"
    by (rule Cons.IH [OF rec])
  show ?case
  proof (cases "n \<in> set seen \<or> n \<notin> set selected \<or> missing n = None")
    case True
    then have "acc = acc'" "errs \<noteq> []"
      using Cons.prems rec by (auto simp: Let_def split: if_splits option.splits)
    then show ?thesis using IH True by (auto split: prod.splits)
  next
    case False
    then obtain issue where "missing n = Some issue" by auto
    with False Cons.prems rec have "acc = (n, issue) # acc'" "errs = errs'"
      by (auto simp: Let_def)
    then show ?thesis using IH False \<open>missing n = Some issue\<close> by (auto split: prod.splits)
  qed
qed simp

text \<open>Confirmed exclusions never hide a table silently. The effective tables are exactly those present in the
  target; no error is reported exactly when every request is a distinct selected table that is
  missing and a table is left; the accepted issues are then those of the requested tables in order,
  and every missing table is either accepted or reported as unresolved.\<close>

theorem exclusions_accounted:
  assumes "applyMissingTargetExclusions ts missing req = (effective, unresolved, accepted, errs)"
  shows "effective = filter (\<lambda>t. missing (Name t) = None) ts \<and>
    (errs = [] \<longleftrightarrow> distinct req \<and> (\<forall>n\<in>set req. n \<in> Name ` set ts \<and> missing n \<noteq> None) \<and> effective \<noteq> []) \<and>
    (errs = [] \<longrightarrow> map Some accepted = map missing req) \<and>
    (\<forall>t\<in>set ts. \<forall>issue. missing (Name t) = Some issue \<longrightarrow> issue \<in> set accepted \<union> set unresolved)"
proof -
  obtain acc errs' where acc: "accept_exclusions (map Name ts) missing req [] = (acc, errs')"
    by (cases "accept_exclusions (map Name ts) missing req []") auto
  note A = accept_exclusions_ok [OF acc]
  have eff: "effective = filter (\<lambda>t. missing (Name t) = None) ts"
    and accepted: "accepted = map snd acc"
    and errs: "errs = errs' @ (if effective = [] then [NothingLeft] else [])"
    and unres: "unresolved = List.map_filter (\<lambda>t. if Name t \<in> set (map fst acc) then None else missing (Name t)) ts"
    using assms acc by (auto simp: applyMissingTargetExclusions_def Let_def)
  have "map Some accepted = map missing req" if "errs' = []"
  proof -
    have "map Some accepted = map missing (map fst acc)"
      unfolding accepted using A by (auto simp: case_prod_beta)
    then show ?thesis using A that by simp
  qed
  moreover have "issue \<in> set accepted \<union> set unresolved"
    if t: "t \<in> set ts" "missing (Name t) = Some issue" for t issue
  proof (cases "Name t \<in> set (map fst acc)")
    case True
    then obtain i where i: "(Name t, i) \<in> set acc" by auto
    then have "missing (Name t) = Some i" using A by fastforce
    then show ?thesis using i t(2) accepted by force
  next
    case False
    then show ?thesis using t unres by (force simp: List.map_filter_def)
  qed
  ultimately show ?thesis using A eff errs by auto
qed

definition demo_issue :: TargetTableIssue where
  "demo_issue = \<lparr>ti_source = ''g'', ti_schema = ''s'', ti_target = ''g''\<rparr>"

theorem exclusions_accounted_witness:
  "applyMissingTargetExclusions [demo_source, demo_source\<lparr>Name := ''g''\<rparr>] [''g'' \<mapsto> demo_issue] [''g''] =
     ([demo_source], [], [demo_issue], []) \<and>
   [demo_source] = filter (\<lambda>t. [''g'' \<mapsto> demo_issue] (Name t) = None) [demo_source, demo_source\<lparr>Name := ''g''\<rparr>] \<and>
   map Some [demo_issue] = map [''g'' \<mapsto> demo_issue] [''g'']"
proof -
  have *: "applyMissingTargetExclusions [demo_source, demo_source\<lparr>Name := ''g''\<rparr>] [''g'' \<mapsto> demo_issue] [''g''] =
     ([demo_source], [], [demo_issue], [])"
    by (simp add: applyMissingTargetExclusions_def demo_source_def List.map_filter_def)
  from exclusions_accounted [OF *] show ?thesis using * by simp
qed

end
