(* ===== verification/CdcDamengMetadata.thy ===== *)
theory CdcDamengMetadata
  imports CdcLocators DamengNames "HOL-Library.AList"
begin

text \<open>
  The catalog of a DaMeng target (\<^verbatim>\<open>dameng_metadata.go\<close>): its tables, columns and unique indexes,
  assembled from the rows of four catalog queries, which are the arguments of the functions here. A query or
  scan error ends the Go function with that error before anything is used. Names are those of the catalog
  and never folded.
\<close>

record dm_column = target_column +
  tc_data_type :: string

record dm_table =
  dt_name :: string
  dt_columns :: "dm_column list"
  dt_unique :: "string list list"

record dm_column_row =
  cw_table :: string
  cw_column :: string
  cw_nullable :: string
  cw_default :: "string option"
  cw_type :: string
  cw_identity :: string

text \<open>The key of an index: its owner and name, and the owner and name of its table.\<close>

type_synonym index_key = "string \<times> string \<times> string \<times> string"

record dm_index_row =
  xr_key :: index_key
  xr_uniqueness :: string
  xr_status :: string
  xr_kind :: string

record dm_index_column_row =
  xc_key :: index_key
  xc_column :: "string option"
  xc_position :: int

record dm_index =
  dx_key :: index_key
  dx_valid :: bool
  dx_columns :: "(int \<times> string) list"

definition key_table :: "index_key \<Rightarrow> string" where
  "key_table k = (case k of (owner, name, table_owner, table) \<Rightarrow> table)"

definition key_table_owner :: "index_key \<Rightarrow> string" where
  "key_table_owner k = (case k of (owner, name, table_owner, table) \<Rightarrow> table_owner)"

section \<open>Assembly\<close>

definition dm_column_of :: "dm_column_row \<Rightarrow> dm_column" where
  "dm_column_of r = \<lparr>tc_name = cw_column r, tc_nullable = (if cw_nullable r = ''Y'' then ''YES'' else ''NO''),
     tc_default = cw_default r, tc_identity = cw_identity r, tc_data_type = cw_type r\<rparr>"

definition dm_columns_of :: "dm_column_row list \<Rightarrow> string \<Rightarrow> dm_column list" where
  "dm_columns_of cols table = map dm_column_of (filter (\<lambda>r. cw_table r = table) cols)"

text \<open>The metadata of a table that a index column row refers to, if the schema has it.\<close>

definition known_column :: "string list \<Rightarrow> dm_column_row list \<Rightarrow> string \<Rightarrow> string \<Rightarrow> bool" where
  "known_column tables cols table column \<longleftrightarrow>
     table \<in> set tables \<and> column \<in> set (map tc_name (dm_columns_of cols table))"

fun update_index :: "index_key \<Rightarrow> (dm_index \<Rightarrow> dm_index) \<Rightarrow> dm_index list \<Rightarrow> dm_index list" where
  "update_index k f [] = []"
| "update_index k f (x # xs) = (if dx_key x = k then f x # xs else x # update_index k f xs)"

definition usable_index :: "string \<Rightarrow> dm_index_row \<Rightarrow> bool" where
  "usable_index schema r \<longleftrightarrow> key_table_owner (xr_key r) = schema \<and> xr_uniqueness r = ''UNIQUE'' \<and>
     xr_status r = ''VALID'' \<and> (xr_kind r = ''NORMAL'' \<or> xr_kind r = ''CLUSTER'')"

fun load_index_list :: "string \<Rightarrow> dm_index_row list \<Rightarrow> dm_index list \<Rightarrow> dm_index list" where
  "load_index_list schema [] xs = xs"
| "load_index_list schema (r # rs) xs =
     load_index_list schema rs
       (if xr_key r \<in> set (map dx_key xs)
        then update_index (xr_key r) (\<lambda>x. x\<lparr>dx_valid := False\<rparr>) xs
        else xs @ [\<lparr>dx_key = xr_key r, dx_valid = usable_index schema r, dx_columns = []\<rparr>])"

definition column_at :: "dm_index \<Rightarrow> int \<Rightarrow> string" where
  "column_at x p = (case map_of (dx_columns x) p of None \<Rightarrow> [] | Some c \<Rightarrow> c)"

definition put_index_column ::
  "string list \<Rightarrow> dm_column_row list \<Rightarrow> dm_index_column_row \<Rightarrow> dm_index \<Rightarrow> dm_index" where
  "put_index_column tables cols r x =
     (let bad = (key_table (xc_key r) \<notin> set tables \<or> xc_column r = None \<or>
                 \<not> known_column tables cols (key_table (xc_key r)) (the (xc_column r)) \<or>
                 xc_position r < 1 \<or> column_at x (xc_position r) \<noteq> []);
          name = (case xc_column r of None \<Rightarrow> [] | Some c \<Rightarrow> c)
      in x\<lparr>dx_valid := (dx_valid x \<and> \<not> bad), dx_columns := AList.update (xc_position r) name (dx_columns x)\<rparr>)"

fun load_index_columns ::
  "string list \<Rightarrow> dm_column_row list \<Rightarrow> dm_index_column_row list \<Rightarrow> dm_index list \<Rightarrow> dm_index list" where
  "load_index_columns tables cols [] xs = xs"
| "load_index_columns tables cols (r # rs) xs =
     load_index_columns tables cols rs (update_index (xc_key r) (put_index_column tables cols r) xs)"

text \<open>The columns of a valid index in the order of their positions \<open>1, 2, ...\<close>; a gap discards it.\<close>

definition index_columns :: "dm_index \<Rightarrow> string list option" where
  "index_columns x =
     (if \<not> dx_valid x \<or> dx_columns x = [] then None
      else let cs = map (\<lambda>i. column_at x (int i + 1)) [0..<length (dx_columns x)]
           in if [] \<in> set cs then None else Some cs)"

definition loadDamengTargetSchemaMetadata ::
  "string \<Rightarrow> string list \<Rightarrow> dm_column_row list \<Rightarrow> dm_index_row list \<Rightarrow> dm_index_column_row list \<Rightarrow> dm_table list" where
  "loadDamengTargetSchemaMetadata schema tables cols idx idx_cols =
     (let xs = load_index_columns tables cols idx_cols (load_index_list schema idx []) in
      map (\<lambda>n. \<lparr>dt_name = n, dt_columns = dm_columns_of cols n,
             dt_unique = sort_by unique_set_less
               (List.map_filter index_columns (filter (\<lambda>x. key_table (dx_key x) = n) xs))\<rparr>)
        (remdups tables))"

definition find_dm_table :: "string \<Rightarrow> dm_table list \<Rightarrow> dm_table option" where
  "find_dm_table n ts = List.find (\<lambda>t. dt_name t = n) ts"

section \<open>Facts\<close>

lemma update_index_keys [simp]:
  "(\<And>x. dx_key (f x) = dx_key x) \<Longrightarrow> map dx_key (update_index k f xs) = map dx_key xs"
  by (induction xs) auto

lemma put_index_column_key [simp]: "dx_key (put_index_column tables cols r x) = dx_key x"
  by (simp add: put_index_column_def Let_def)

lemma update_index_mem:
  assumes "y \<in> set (update_index k f xs)" "distinct (map dx_key xs)"
  shows "(y \<in> set xs \<and> dx_key y \<noteq> k) \<or> (\<exists>x\<in>set xs. dx_key x = k \<and> y = f x)"
  using assms by (induction xs) (fastforce split: if_splits)+

lemma alist_update_mem: "(p, d) \<in> set (AList.update k v xs) \<Longrightarrow> (p, d) \<in> set xs \<or> (p = k \<and> d = v)"
  by (induction xs) (auto split: if_splits)

text \<open>What an index of the list stands for, after the index rows and a prefix of the column rows.\<close>

definition index_from_rows :: "string \<Rightarrow> dm_index_row list \<Rightarrow> dm_index \<Rightarrow> bool" where
  "index_from_rows schema idx x \<longleftrightarrow>
     (dx_valid x \<longrightarrow> (\<exists>r\<in>set idx. xr_key r = dx_key x \<and> usable_index schema r) \<and>
        length (filter (\<lambda>r. xr_key r = dx_key x) idx) = 1)"

lemma load_index_list_sound:
  assumes "distinct (map dx_key xs)" "\<forall>x\<in>set xs. index_from_rows schema done x"
    "set (map dx_key xs) = set (map xr_key done)" "\<forall>x\<in>set xs. dx_columns x = []"
  shows "distinct (map dx_key (load_index_list schema rs xs)) \<and>
    (\<forall>x\<in>set (load_index_list schema rs xs). index_from_rows schema (done @ rs) x \<and> dx_columns x = [])"
  using assms
proof (induction rs arbitrary: xs "done")
  case (Cons r rs)
  let ?xs = "if xr_key r \<in> set (map dx_key xs)
     then update_index (xr_key r) (\<lambda>x. x\<lparr>dx_valid := False\<rparr>) xs
     else xs @ [\<lparr>dx_key = xr_key r, dx_valid = usable_index schema r, dx_columns = []\<rparr>]"
  have keys: "map dx_key ?xs = map dx_key xs @ (if xr_key r \<in> set (map dx_key xs) then [] else [xr_key r])"
    by simp
  have d: "distinct (map dx_key ?xs)" using Cons.prems(1) unfolding keys by simp
  have k: "set (map dx_key ?xs) = set (map xr_key (done @ [r]))"
    unfolding keys using Cons.prems(3) by auto
  have none: "filter (\<lambda>q. xr_key q = xr_key r) done = []" if "xr_key r \<notin> set (map dx_key xs)"
    using that Cons.prems(3) by (metis (mono_tags) filter_False image_eqI set_map)
  have s: "\<forall>x\<in>set ?xs. index_from_rows schema (done @ [r]) x"
  proof
    fix x assume x: "x \<in> set ?xs"
    show "index_from_rows schema (done @ [r]) x"
    proof (cases "xr_key r \<in> set (map dx_key xs)")
      case True
      then have "x \<in> set (update_index (xr_key r) (\<lambda>x. x\<lparr>dx_valid := False\<rparr>) xs)" using x by simp
      from update_index_mem [OF this Cons.prems(1)] show ?thesis
        using Cons.prems(2) by (auto simp: index_from_rows_def)
    next
      case False
      then consider "x \<in> set xs" "dx_key x \<noteq> xr_key r"
        | "x = \<lparr>dx_key = xr_key r, dx_valid = usable_index schema r, dx_columns = []\<rparr>"
        using x by (fastforce simp: image_iff)
      then show ?thesis
        using Cons.prems(2) none [OF False] by cases (auto simp: index_from_rows_def)
    qed
  qed
  have c: "\<forall>x\<in>set ?xs. dx_columns x = []"
    using Cons.prems(1,4) by (auto dest!: update_index_mem)
  from Cons.IH [OF d s k c] show ?case by simp
qed simp

definition columns_from_rows ::
  "string list \<Rightarrow> dm_column_row list \<Rightarrow> dm_index_column_row list \<Rightarrow> dm_index \<Rightarrow> bool" where
  "columns_from_rows tables cols rows x \<longleftrightarrow> distinct (map fst (dx_columns x)) \<and> (dx_valid x \<longrightarrow>
     (\<forall>(p, c)\<in>set (dx_columns x). known_column tables cols (key_table (dx_key x)) c \<and>
        \<lparr>xc_key = dx_key x, xc_column = Some c, xc_position = p\<rparr> \<in> set rows) \<and>
     (\<forall>r\<in>set rows. xc_key r = dx_key x \<longrightarrow> xc_position r \<in> fst ` set (dx_columns x)))"

lemma put_index_column_sound:
  assumes "columns_from_rows tables cols rows x" "dx_key x = xc_key r"
  shows "columns_from_rows tables cols (rows @ [r]) (put_index_column tables cols r x)"
proof -
  have r: "r = \<lparr>xc_key = dx_key x, xc_column = xc_column r, xc_position = xc_position r\<rparr>"
    using assms(2) by simp
  show ?thesis
    unfolding columns_from_rows_def
  proof (intro conjI impI)
    show "distinct (map fst (dx_columns (put_index_column tables cols r x)))"
      using assms(1) by (simp add: columns_from_rows_def put_index_column_def Let_def distinct_update)
  next
    assume valid: "dx_valid (put_index_column tables cols r x)"
    then obtain c where c: "xc_column r = Some c" "known_column tables cols (key_table (dx_key x)) c" "dx_valid x"
      using assms(2) by (auto simp: put_index_column_def Let_def)
    have cols: "dx_columns (put_index_column tables cols r x) = AList.update (xc_position r) c (dx_columns x)"
      using c by (simp add: put_index_column_def Let_def)
    have "(\<forall>(p, c)\<in>set (dx_columns (put_index_column tables cols r x)).
          known_column tables cols (key_table (dx_key (put_index_column tables cols r x))) c \<and>
          \<lparr>xc_key = dx_key (put_index_column tables cols r x), xc_column = Some c, xc_position = p\<rparr> \<in> set (rows @ [r])) \<and>
        (\<forall>q\<in>set (rows @ [r]). xc_key q = dx_key (put_index_column tables cols r x) \<longrightarrow>
          xc_position q \<in> fst ` set (dx_columns (put_index_column tables cols r x)))"
      using assms(1) c r unfolding cols columns_from_rows_def
      by (auto dest!: alist_update_mem simp: dom_update)
    then show "\<forall>(p, c)\<in>set (dx_columns (put_index_column tables cols r x)).
          known_column tables cols (key_table (dx_key (put_index_column tables cols r x))) c \<and>
          \<lparr>xc_key = dx_key (put_index_column tables cols r x), xc_column = Some c, xc_position = p\<rparr> \<in> set (rows @ [r])"
      "\<forall>q\<in>set (rows @ [r]). xc_key q = dx_key (put_index_column tables cols r x) \<longrightarrow>
          xc_position q \<in> fst ` set (dx_columns (put_index_column tables cols r x))"
      by blast+
  qed
qed

lemma load_index_columns_sound:
  assumes "distinct (map dx_key xs)" "\<forall>x\<in>set xs. index_from_rows schema idx x \<and> columns_from_rows tables cols done x"
  shows "\<forall>x\<in>set (load_index_columns tables cols rs xs).
    index_from_rows schema idx x \<and> columns_from_rows tables cols (done @ rs) x"
  using assms
proof (induction rs arbitrary: xs "done")
  case (Cons r rs)
  let ?xs = "update_index (xc_key r) (put_index_column tables cols r) xs"
  have keep: "index_from_rows schema idx (put_index_column tables cols r x)" if "index_from_rows schema idx x" for x
    using that by (auto simp: index_from_rows_def put_index_column_def Let_def)
  have skip: "columns_from_rows tables cols (done @ [r]) x" if "columns_from_rows tables cols done x" "dx_key x \<noteq> xc_key r" for x
    using that by (auto simp: columns_from_rows_def)
  have "\<forall>x\<in>set ?xs. index_from_rows schema idx x \<and> columns_from_rows tables cols (done @ [r]) x"
    using Cons.prems by (auto dest!: update_index_mem intro: keep skip put_index_column_sound)
  moreover have "distinct (map dx_key ?xs)" using Cons.prems(1) by simp
  ultimately show ?case using Cons.IH [of ?xs "done @ [r]"] by simp
qed simp

section \<open>Name collisions\<close>

datatype name_issue =
    InvalidName string
  | TableCollision string string string
  | CheckpointCollision string
  | ColumnCollision string string string string
  | InvalidColumnName string string
  | PseudoColumn string string

text \<open>
  \<open>ValidName\<close> of \<^verbatim>\<open>tsqldameng/view.go\<close>. A control character is a byte below 32, 127, or the
  UTF-8 encoding \<open>C2 80\<close> to \<open>C2 9F\<close> of one of the controls above 127.
\<close>

fun has_control :: "string \<Rightarrow> bool" where
  "has_control [] = False"
| "has_control (c # cs) = (of_char c < (32 :: nat) \<or> of_char c = (127 :: nat) \<or>
     (of_char c = (194 :: nat) \<and> cs \<noteq> [] \<and> 128 \<le> (of_char (hd cs) :: nat) \<and> (of_char (hd cs) :: nat) \<le> 159) \<or> has_control cs)"

definition ValidName :: "string \<Rightarrow> bool" where
  "ValidName s \<longleftrightarrow> s \<noteq> [] \<and> length (to_upper s) \<le> 128 \<and> \<not> has_control s"

definition targetSchemaName :: "Config \<Rightarrow> string" where
  "targetSchemaName cfg = (if TargetDBType cfg = ''dameng'' then to_upper (TargetSchema cfg) else TargetSchema cfg)"

definition object_name :: "Config \<Rightarrow> string \<Rightarrow> string" where
  "object_name cfg s = targetObjectName (LowerCaseNames cfg) (TargetDBType cfg) s"

fun column_collisions :: "Config \<Rightarrow> string \<Rightarrow> string list \<Rightarrow> (string \<rightharpoonup> string) \<Rightarrow> name_issue list" where
  "column_collisions cfg t [] seen = []"
| "column_collisions cfg t (c # cs) seen =
     (let mapped = object_name cfg c in
      (case seen mapped of None \<Rightarrow> [] | Some prior \<Rightarrow> [ColumnCollision t prior c mapped]) @
      column_collisions cfg t cs (seen(mapped \<mapsto> c)))"

fun table_collisions :: "Config \<Rightarrow> TableInfo list \<Rightarrow> (string \<rightharpoonup> string) \<Rightarrow> name_issue list" where
  "table_collisions cfg [] seen = []"
| "table_collisions cfg (t # ts) seen =
     (let name = object_name cfg (Name t) in
      (case seen name of None \<Rightarrow> [] | Some prior \<Rightarrow> [TableCollision prior (Name t) name]) @
      (if name = to_upper CheckpointTableName then [CheckpointCollision (Name t)] else []) @
      column_collisions cfg (Name t) (Columns t) Map.empty @
      table_collisions cfg ts (seen(name \<mapsto> Name t)))"

definition validateDamengNameCollisions :: "Config \<Rightarrow> TableInfo list \<Rightarrow> name_issue list" where
  "validateDamengNameCollisions cfg tables =
     (if TargetDBType cfg \<noteq> ''dameng'' then []
      else (if ValidName (targetSchemaName cfg) then [] else [InvalidName (targetSchemaName cfg)]) @
           table_collisions cfg tables Map.empty)"

definition column_name_issues :: "Config \<Rightarrow> string \<Rightarrow> string \<Rightarrow> name_issue list" where
  "column_name_issues cfg t c =
     (if ValidName (object_name cfg c) then [] else [InvalidColumnName t c]) @
     (if Forbidden (object_name cfg c) then [PseudoColumn t c] else [])"

definition table_name_issues :: "Config \<Rightarrow> TableInfo \<Rightarrow> name_issue list" where
  "table_name_issues cfg t =
     (if ValidName (object_name cfg (Name t)) then [] else [InvalidName (object_name cfg (Name t))]) @
     concat (map (column_name_issues cfg (Name t)) (Columns t))"

definition validateDamengNames :: "Config \<Rightarrow> TableInfo list \<Rightarrow> name_issue list" where
  "validateDamengNames cfg tables =
     (if TargetDBType cfg \<noteq> ''dameng'' then []
      else validateDamengNameCollisions cfg tables @ concat (map (table_name_issues cfg) tables))"

lemma column_collisions_Nil:
  "column_collisions cfg t cs seen = [] \<longleftrightarrow>
     distinct (map (object_name cfg) cs) \<and> (\<forall>c\<in>set cs. seen (object_name cfg c) = None)"
  by (induction cs arbitrary: seen) (auto simp: Let_def image_iff split: option.splits)

lemma table_collisions_Nil:
  "table_collisions cfg ts seen = [] \<longleftrightarrow>
     distinct (map (\<lambda>t. object_name cfg (Name t)) ts) \<and>
     (\<forall>t\<in>set ts. seen (object_name cfg (Name t)) = None \<and> object_name cfg (Name t) \<noteq> to_upper CheckpointTableName \<and>
        distinct (map (object_name cfg) (Columns t)))"
proof (induction ts arbitrary: seen)
  case (Cons a ts)
  have "object_name cfg (Name a) \<notin> (\<lambda>t. object_name cfg (Name t)) ` set ts \<longleftrightarrow>
      (\<forall>t\<in>set ts. object_name cfg (Name t) \<noteq> object_name cfg (Name a))"
    by (auto simp: image_iff)
  then show ?case
    by (cases "seen (object_name cfg (Name a))") (auto simp: Let_def column_collisions_Nil Cons.IH)
qed simp

text \<open>The positions of a complete index are exactly \<open>1, ..., n\<close>.\<close>

lemma index_columns_Some:
  assumes "index_columns x = Some cs" "distinct (map fst (dx_columns x))"
  shows "dx_valid x" "cs \<noteq> []" "fst ` set (dx_columns x) = {1..int (length cs)}"
    "\<forall>i<length cs. (int i + 1, cs ! i) \<in> set (dx_columns x)"
proof -
  let ?n = "length (dx_columns x)"
  from assms(1) have cs: "cs = map (\<lambda>i. column_at x (int i + 1)) [0..<?n]" "[] \<notin> set cs" "dx_columns x \<noteq> []"
    and "dx_valid x"
    by (auto simp: index_columns_def Let_def split: if_splits)
  then show "dx_valid x" "cs \<noteq> []" by auto
  show mem: "\<forall>i<length cs. (int i + 1, cs ! i) \<in> set (dx_columns x)"
  proof (intro allI impI)
    fix i assume i: "i < length cs"
    then have "column_at x (int i + 1) = cs ! i" using cs(1) by simp
    then have "column_at x (int i + 1) \<noteq> []" using cs(2) nth_mem [OF i] by metis
    then show "(int i + 1, cs ! i) \<in> set (dx_columns x)"
      using i cs(1) by (auto simp: column_at_def split: option.splits dest: map_of_SomeD)
  qed
  have sub: "{1..int ?n} \<subseteq> fst ` set (dx_columns x)"
  proof
    fix p assume p: "p \<in> {1..int ?n}"
    then have "nat (p - 1) < length cs" using p cs(1) by (simp add: nat_less_iff)
    then have "(int (nat (p - 1)) + 1, cs ! nat (p - 1)) \<in> set (dx_columns x)" using mem by blast
    then show "p \<in> fst ` set (dx_columns x)" using p by (auto intro: rev_image_eqI)
  qed
  have "card (fst ` set (dx_columns x)) = ?n" using assms(2) by (metis distinct_card length_map list.set_map)
  then have "card (fst ` set (dx_columns x)) = card {1..int ?n}" by simp
  with sub show "fst ` set (dx_columns x) = {1..int (length cs)}"
    using cs(1) by (metis List.finite_set card_subset_eq finite_imageI length_map length_upt diff_zero)
qed

section \<open>Properties\<close>

text \<open>A unique set that the DaMeng applier may locate rows by is a real one: it is the complete column list,
  in order of position, of exactly one index row of its table that is UNIQUE, VALID and an ordinary or
  clustered index owned by the target schema; all its columns are columns of that table, and every
  column row of the index is one of its positions (an expression column, a gap, a duplicate or an unknown
  name discards the index).\<close>

theorem dameng_unique_sets_sound:
  assumes "t \<in> set (loadDamengTargetSchemaMetadata schema tables cols idx idx_cols)" and "cs \<in> set (dt_unique t)"
  shows "cs \<noteq> [] \<and> set cs \<subseteq> set (map tc_name (dt_columns t)) \<and>
    (\<exists>r. filter (\<lambda>q. xr_key q = xr_key r) idx = [r] \<and> usable_index schema r \<and> key_table (xr_key r) = dt_name t \<and>
       (\<forall>i<length cs. \<lparr>xc_key = xr_key r, xc_column = Some (cs ! i), xc_position = int i + 1\<rparr> \<in> set idx_cols) \<and>
       (\<forall>q\<in>set idx_cols. xc_key q = xr_key r \<longrightarrow> 1 \<le> xc_position q \<and> xc_position q \<le> int (length cs)))"
proof -
  define xs where "xs = load_index_columns tables cols idx_cols (load_index_list schema idx [])"
  from assms obtain x where x: "x \<in> set xs" "index_columns x = Some cs" "key_table (dx_key x) = dt_name t"
    and tcols: "dt_columns t = dm_columns_of cols (dt_name t)"
    unfolding loadDamengTargetSchemaMetadata_def xs_def [symmetric] Let_def
    by (auto simp: List.map_filter_def)
  have "distinct (map dx_key (load_index_list schema idx [])) \<and>
      (\<forall>x\<in>set (load_index_list schema idx []). index_from_rows schema ([] @ idx) x \<and> dx_columns x = [])"
    by (rule load_index_list_sound) simp_all
  then have "\<forall>x\<in>set xs. index_from_rows schema idx x \<and> columns_from_rows tables cols ([] @ idx_cols) x"
    unfolding xs_def by (intro load_index_columns_sound) (auto simp: columns_from_rows_def)
  then have from_idx: "index_from_rows schema idx x" and from_cols: "columns_from_rows tables cols idx_cols x"
    using x(1) by auto
  then have dist: "distinct (map fst (dx_columns x))" by (simp add: columns_from_rows_def)
  note C = index_columns_Some [OF x(2) dist]
  obtain r where r: "r \<in> set idx" "xr_key r = dx_key x" "usable_index schema r"
    "length (filter (\<lambda>q. xr_key q = dx_key x) idx) = 1"
    using from_idx C(1) by (auto simp: index_from_rows_def)
  then obtain q where q: "filter (\<lambda>q. xr_key q = xr_key r) idx = [q]" by (auto simp: length_Suc_conv)
  moreover have "r \<in> set (filter (\<lambda>q. xr_key q = xr_key r) idx)" using r(1) by simp
  ultimately have only: "filter (\<lambda>q. xr_key q = xr_key r) idx = [r]" by simp
  have entry: "known_column tables cols (dt_name t) c \<and> \<lparr>xc_key = xr_key r, xc_column = Some c, xc_position = p\<rparr> \<in> set idx_cols"
    if "(p, c) \<in> set (dx_columns x)" for p c
    using from_cols C(1) that x(3) r(2) by (auto simp: columns_from_rows_def)
  have "set cs \<subseteq> set (map tc_name (dt_columns t))"
    using C(4) entry tcols by (fastforce simp: in_set_conv_nth known_column_def)
  moreover have "1 \<le> xc_position q \<and> xc_position q \<le> int (length cs)"
    if "q \<in> set idx_cols" "xc_key q = xr_key r" for q
    using from_cols C(1,3) that r(2) by (auto simp: columns_from_rows_def)
  ultimately show ?thesis using C(2,4) entry only r(2,3) x(3) by (intro conjI exI [of _ r]) auto
qed

text \<open>A schema \<open>S\<close> with a table \<open>T\<close> of two columns: a unique index on both, one with a gap in its
  positions and one that is not valid.\<close>

definition sample_columns :: "dm_column_row list" where
  "sample_columns = map (\<lambda>c. \<lparr>cw_table = ''T'', cw_column = c, cw_nullable = ''N'', cw_default = None,
     cw_type = ''INT'', cw_identity = ''NO''\<rparr>) [''A'', ''B'']"

definition sample_indexes :: "dm_index_row list" where
  "sample_indexes = map (\<lambda>(n, st). \<lparr>xr_key = (''S'', n, ''S'', ''T''), xr_uniqueness = ''UNIQUE'', xr_status = st,
     xr_kind = ''NORMAL''\<rparr>) [(''I1'', ''VALID''), (''I2'', ''VALID''), (''I3'', ''UNUSABLE'')]"

definition sample_index_columns :: "dm_index_column_row list" where
  "sample_index_columns = map (\<lambda>(n, c, p). \<lparr>xc_key = (''S'', n, ''S'', ''T''), xc_column = Some c, xc_position = p\<rparr>)
     [(''I1'', ''B'', 2), (''I1'', ''A'', 1), (''I2'', ''A'', 2), (''I3'', ''B'', 1)]"

lemma sample_metadata:
  "map (\<lambda>t. (dt_name t, dt_unique t))
     (loadDamengTargetSchemaMetadata ''S'' [''T''] sample_columns sample_indexes sample_index_columns) =
   [(''T'', [[''A'', ''B'']])]"
  by code_simp

theorem dameng_unique_sets_sound_witness:
  "set [''A'', ''B''] \<subseteq> set (map tc_name (dt_columns
     (hd (loadDamengTargetSchemaMetadata ''S'' [''T''] sample_columns sample_indexes sample_index_columns))))"
proof -
  obtain t where t: "loadDamengTargetSchemaMetadata ''S'' [''T''] sample_columns sample_indexes sample_index_columns = [t]"
    and u: "dt_unique t = [[''A'', ''B'']]"
    using sample_metadata by (auto simp: map_eq_Cons_conv)
  from dameng_unique_sets_sound [of t "''S''" "[''T'']" sample_columns sample_indexes sample_index_columns "[''A'', ''B'']"]
  show ?thesis unfolding t using u by simp
qed

text \<open>The name check before any DDL accepts exactly the selections that DaMeng can represent: no issue is
  reported if and only if the schema name is valid, no two selected tables fold to one name, none folds to
  the checkpoint table's, and within each table no two columns fold to one name.\<close>

theorem dameng_names_unambiguous:
  "validateDamengNameCollisions (cfg\<lparr>TargetDBType := ''dameng''\<rparr>) tables = [] \<longleftrightarrow>
     ValidName (to_upper (TargetSchema cfg)) \<and>
     distinct (map (\<lambda>t. object_name (cfg\<lparr>TargetDBType := ''dameng''\<rparr>) (Name t)) tables) \<and>
     list_all (\<lambda>t. object_name (cfg\<lparr>TargetDBType := ''dameng''\<rparr>) (Name t) \<noteq> to_upper CheckpointTableName \<and>
        distinct (map (object_name (cfg\<lparr>TargetDBType := ''dameng''\<rparr>)) (Columns t))) tables"
  by (auto simp: validateDamengNameCollisions_def targetSchemaName_def table_collisions_Nil list_all_iff)

end
