(* ===== verification/CdcDamengDml.thy ===== *)
theory CdcDamengDml
  imports CdcDml CdcDamengMetadata
begin

text \<open>
  The row statements of the DaMeng applier (\<^verbatim>\<open>dameng_dml.go\<close>, the placeholder of
  \<^verbatim>\<open>valueconv/mysql_dameng.go\<close>): values bound per column type, the predicate that locates a row, and
  INSERT, UPDATE, DELETE and their composition for one change. The tables' content is \<open>'d\<close>; the record
  \<open>dm_env\<close> holds the server's answers, the row conversion (\<^verbatim>\<open>dameng_values.go\<close>, which calls the
  character set library) and the comparison and hash of rows. A Go value (\<open>any\<close>) is a \<open>gval\<close>.
\<close>

section \<open>Values, environment and transaction state\<close>

datatype 'o gval = GNil | GString string | GBytes string | GClob string | GBlob string | GOther 'o

text \<open>
  What may go wrong outside the process. \<open>fd_identity\<close> is for SET IDENTITY_INSERT of a table, on or off,
  in a session: the error and whether the session was switched all the same; \<open>fd_cleanup\<close> likewise for the
  deferred clean-up, \<open>fd_ddl\<close> for a DDL statement and \<open>fd_commit\<close> for a commit: the error and whether
  the statement took effect all the same.
\<close>

datatype dm_call =
    CallConn | CallBegin | CallLockMode | CallTriggers | CallMetadata
  | CallUpdateCheckpoint | CallCountCheckpoint | CallInsertCheckpoint
  | CallLoadRecord | CallAbort | CallForeignKeys | CallLoadPlan | CallSavePlan nat | CallObjectId nat string string

record ('o, 'd, 'e) dm_faults =
  fd_call :: "dm_call \<Rightarrow> 'e option"
  fd_exec :: "string \<Rightarrow> 'o gval list \<Rightarrow> 'd \<Rightarrow> 'e option"
  fd_identity :: "string \<Rightarrow> bool \<Rightarrow> string option \<Rightarrow> ('e \<times> bool) option"
  fd_cleanup :: "string \<Rightarrow> string option \<Rightarrow> ('e \<times> bool) option"
  fd_ddl :: "string \<Rightarrow> ('e \<times> bool) option"
  fd_commit :: "('e \<times> bool) option"

definition no_dm_faults :: "('o, 'd, 'e) dm_faults" where
  "no_dm_faults = \<lparr>fd_call = \<lambda>_. None, fd_exec = \<lambda>_ _ _. None, fd_identity = \<lambda>_ _ _. None,
     fd_cleanup = \<lambda>_ _. None, fd_ddl = \<lambda>_. None, fd_commit = None\<rparr>"

record ('o, 'd, 'e) dm_env =
  dm_convert_row :: "TableInfo \<Rightarrow> 'o gval list \<Rightarrow> 'e + 'o gval list"
  dm_deep_equal :: "'o gval \<Rightarrow> 'o gval \<Rightarrow> bool"
  dm_row_hash :: "'o gval list \<Rightarrow> string"
  dm_exec :: "string option \<Rightarrow> string \<Rightarrow> 'o gval list \<Rightarrow> 'd \<Rightarrow> 'e + ('e + int) \<times> 'd"
  dm_count :: "string \<Rightarrow> 'o gval list \<Rightarrow> 'd \<Rightarrow> 'e + int"
  dm_lock_mode :: "'d \<Rightarrow> string option"
  dm_triggers :: "string \<Rightarrow> 'd \<Rightarrow> (string \<times> string \<times> string) list"
  dm_catalog :: "string \<Rightarrow> 'd \<Rightarrow> string list \<times> dm_column_row list \<times> dm_index_row list \<times> dm_index_column_row list"
  dm_faults :: "('o, 'd, 'e) dm_faults"
  dm_now :: int

definition dm_calm :: "('o, 'd, 'e) dm_env \<Rightarrow> ('o, 'd, 'e) dm_env" where
  "dm_calm env = env\<lparr>dm_faults := no_dm_faults\<rparr>"

text \<open>
  The state of a transaction: the tables, the table whose IDENTITY_INSERT is on in the session (DaMeng
  allows one), and the Go variable \<open>identityTable\<close>.
\<close>

record 'd dm_tx =
  tx_data :: 'd
  tx_session :: "string option"
  tx_identity :: string

definition dm_name :: "applier \<Rightarrow> string \<Rightarrow> string" where
  "dm_name a s = targetObjectName (a_lower a) ''dameng'' s"

definition dm_qualified :: "applier \<Rightarrow> string \<Rightarrow> string" where
  "dm_qualified a table = quoteIdent (a_schema a) @ ''.'' @ quoteIdent (dm_name a table)"

definition dm_exec_stmt ::
  "('o, 'd, 'e) dm_env \<Rightarrow> string \<Rightarrow> 'o gval list \<Rightarrow> ('e + int, 'd dm_tx, 'e) failing" where
  "dm_exec_stmt env sql args s =
     (case fd_exec (dm_faults env) sql args (tx_data s) of
        Some e \<Rightarrow> (Inl (Driver e), s)
      | None \<Rightarrow> (case dm_exec env (tx_session s) sql args (tx_data s) of
          Inl e \<Rightarrow> (Inl (Driver e), s)
        | Inr (n, d) \<Rightarrow> (Inr n, s\<lparr>tx_data := d\<rparr>)))"

definition dm_query_count :: "('o, 'd, 'e) dm_env \<Rightarrow> string \<Rightarrow> 'o gval list \<Rightarrow> (int, 'd dm_tx, 'e) failing" where
  "dm_query_count env sql args s =
     (case fd_exec (dm_faults env) sql args (tx_data s) of
        Some e \<Rightarrow> (Inl (Driver e), s)
      | None \<Rightarrow> (case dm_count env sql args (tx_data s) of Inl e \<Rightarrow> (Inl (Driver e), s) | Inr n \<Rightarrow> (Inr n, s)))"

section \<open>Identity columns\<close>

definition switch_session :: "string \<Rightarrow> bool \<Rightarrow> string option \<Rightarrow> string option" where
  "switch_session t on sess = (if on then Some t else if sess = Some t then None else sess)"

definition identity_stmt :: "('o, 'd, 'e) dm_env \<Rightarrow> string \<Rightarrow> bool \<Rightarrow> (unit, 'd dm_tx, 'e) failing" where
  "identity_stmt env t on s =
     (let s' = s\<lparr>tx_session := switch_session t on (tx_session s)\<rparr> in
      case fd_identity (dm_faults env) t on (tx_session s) of
        None \<Rightarrow> (Inr (), s')
      | Some (e, took) \<Rightarrow> (Inl (Driver e), if took then s' else s))"

text \<open>\<open>identityTable\<close> is set before the statement: an error may have switched the session.\<close>

definition setIdentity :: "('o, 'd, 'e) dm_env \<Rightarrow> string \<Rightarrow> (unit, 'd dm_tx, 'e) failing" where
  "setIdentity env table s =
     (if tx_identity s = table then (Inr (), s)
      else then_do
        (\<lambda>s. if tx_identity s \<noteq> []
             then then_do (identity_stmt env (tx_identity s) False) (\<lambda>_ s. (Inr (), s\<lparr>tx_identity := []\<rparr>)) s
             else (Inr (), s))
        (\<lambda>_ s. if table \<noteq> [] then identity_stmt env table True (s\<lparr>tx_identity := table\<rparr>) else (Inr (), s)) s)"

section \<open>Binding values\<close>

record damengRow =
  dr_applier :: applier
  dr_table :: TableInfo
  dr_columns :: "dm_column list"
  dr_identity :: "nat list"

text \<open>The target's column of a name: the last one in the catalog's order.\<close>

definition column_named :: "dm_column list \<Rightarrow> string \<Rightarrow> dm_column option" where
  "column_named cols n = List.find (\<lambda>c. tc_name c = n) (rev cols)"

fun row_columns :: "applier \<Rightarrow> string \<Rightarrow> dm_column list \<Rightarrow> string list \<Rightarrow> 'e cdc_error + dm_column list" where
  "row_columns a t cols [] = Inr []"
| "row_columns a t cols (n # ns) =
     (case column_named cols (dm_name a n) of
        None \<Rightarrow> Inl (Refused (TargetColumnMissing t (dm_name a n)))
      | Some c \<Rightarrow> bind_res (row_columns a t cols ns) (\<lambda>cs. Inr (c # cs)))"

definition newDamengRow :: "applier \<Rightarrow> TableInfo \<Rightarrow> dm_table \<Rightarrow> 'e cdc_error + damengRow" where
  "newDamengRow a t target =
     (if Columns t = [] \<or> length (ColumnTypes t) \<noteq> length (Columns t)
      then Inl (Refused (SourceTypesIncomplete (Name t)))
      else bind_res (row_columns a (Name t) (dt_columns target) (Columns t)) (\<lambda>cs.
        Inr \<lparr>dr_applier = a, dr_table = t, dr_columns = cs,
             dr_identity = filter (\<lambda>i. tc_identity (cs ! i) = ''YES'') [0..<length cs]\<rparr>))"

definition row_qualified :: "damengRow \<Rightarrow> string" where
  "row_qualified r = dm_qualified (dr_applier r) (Name (dr_table r))"

definition row_column :: "damengRow \<Rightarrow> nat \<Rightarrow> string" where
  "row_column r i = quoteIdent (tc_name (dr_columns r ! i))"

definition identityChanged ::
  "('o gval \<Rightarrow> 'o gval \<Rightarrow> bool) \<Rightarrow> damengRow \<Rightarrow> 'o gval list \<Rightarrow> 'o gval list \<Rightarrow> bool" where
  "identityChanged deep_equal r before after =
     list_ex (\<lambda>i. \<not> deep_equal (before ! i) (after ! i)) (dr_identity r)"

definition MySQLDamengPlaceholder :: "string \<Rightarrow> string" where
  "MySQLDamengPlaceholder dt =
     (let t = to_upper dt in
      if t = ''DECIMAL'' \<or> t = ''NUMERIC'' then ''CAST(? AS VARCHAR(128))''
      else if t = ''DATE'' then ''TO_DATE(?, '' @ [CHR 0x27] @ ''YYYY-MM-DD'' @ [CHR 0x27] @ '')''
      else if t = ''DATETIME'' \<or> t = ''TIMESTAMP''
      then ''TO_TIMESTAMP(?, '' @ [CHR 0x27] @ ''YYYY-MM-DD HH24:MI:SS.FF6'' @ [CHR 0x27] @ '')''
      else ''?'')"

definition bind :: "damengRow \<Rightarrow> nat \<Rightarrow> 'o gval \<Rightarrow> 'e cdc_error + string \<times> 'o gval" where
  "bind r i v =
     (if i \<ge> length (dr_columns r) then Inl Panic
      else
        let typ = to_upper (tc_data_type (dr_columns r ! i)) in
        if typ \<in> set [''CLOB'', ''NCLOB'', ''TEXT'', ''LONG'', ''LONGVARCHAR'']
        then (case v of
            GNil \<Rightarrow> Inr (''CAST(? AS CLOB)'', GNil)
          | GString x \<Rightarrow> Inr (''CAST(? AS CLOB)'', GClob x)
          | GBytes x \<Rightarrow> Inr (''CAST(? AS CLOB)'', GClob x)
          | _ \<Rightarrow> Inl (Refused (LobUnsupported (Columns (dr_table r) ! i))))
        else if typ \<in> set [''BLOB'', ''IMAGE'']
        then (case v of
            GNil \<Rightarrow> Inr (''CAST(? AS BLOB)'', GNil)
          | GBytes x \<Rightarrow> Inr (''CAST(? AS BLOB)'', GBlob x)
          | GString x \<Rightarrow> Inr (''CAST(? AS BLOB)'', GBlob x)
          | _ \<Rightarrow> Inl (Refused (LobUnsupported (Columns (dr_table r) ! i))))
        else Inr (MySQLDamengPlaceholder (ColumnTypes (dr_table r) ! i), v))"

section \<open>Locating a row\<close>

text \<open>The text column of a full-row locator: how it is compared, and whether it is padded (\<open>CHAR\<close>).\<close>

definition fullRowTextColumn :: "damengRow \<Rightarrow> nat \<Rightarrow> (string \<times> bool) option" where
  "fullRowTextColumn r i =
     (if LocatorStrategy (dr_table r) \<noteq> LocatorFullRow then None
      else
        let typ = to_upper (tc_data_type (dr_columns r ! i)) in
        if typ \<in> set [''CHAR'', ''CHARACTER'', ''NCHAR'', ''NATIONAL CHARACTER'']
        then Some (''RTRIM('' @ row_column r i @ '')'', True)
        else if typ \<in> set [''VARCHAR'', ''VARCHAR2'', ''NVARCHAR'', ''NVARCHAR2'', ''CHARACTER VARYING'', ''NATIONAL CHARACTER VARYING'']
        then Some (row_column r i, False)
        else None)"

definition trim_right_spaces :: "string \<Rightarrow> string" where
  "trim_right_spaces s = rev (dropWhile (\<lambda>c. c = CHR 0x20) (rev s))"

definition text_operand :: "bool \<Rightarrow> string \<Rightarrow> 'o gval \<Rightarrow> string \<times> 'o gval" where
  "text_operand fixed mark v =
     (if mark \<noteq> ''?'' then (''CAST('' @ mark @ '' AS CLOB)'', v)
      else (case v of
          GString x \<Rightarrow> (''CAST(? AS CLOB)'', GClob (if fixed then trim_right_spaces x else x))
        | GBytes x \<Rightarrow> (''CAST(? AS CLOB)'', GClob (if fixed then trim_right_spaces x else x))
        | _ \<Rightarrow> (''CAST('' @ mark @ '' AS CLOB)'', v)))"

definition predicate_at :: "damengRow \<Rightarrow> 'o gval list \<Rightarrow> nat \<Rightarrow> 'e cdc_error + string \<times> 'o gval list" where
  "predicate_at r row i =
     (if i \<ge> length row then Inl (Refused (LocatorOutOfRange (Name (dr_table r))))
      else if i \<ge> length (dr_columns r) then Inl Panic
      else if row ! i = GNil then Inr (row_column r i @ '' IS NULL'', [])
      else bind_res (bind r i (row ! i)) (\<lambda>(mark, v).
        case fullRowTextColumn r i of
          Some (column, fixed) \<Rightarrow>
            (let (mark', v') = text_operand fixed mark v
             in Inr (''DBMS_LOB.COMPARE(CAST('' @ column @ '' AS CLOB), '' @ mark' @ '')=0'', [v']))
        | None \<Rightarrow>
            if str_contains mark '' AS CLOB)'' \<or> str_contains mark '' AS BLOB)''
            then Inr (''DBMS_LOB.COMPARE('' @ row_column r i @ '', '' @ mark @ '')=0'', [v])
            else Inr (row_column r i @ ''='' @ mark, [v])))"

fun predicate_parts :: "damengRow \<Rightarrow> 'o gval list \<Rightarrow> nat list \<Rightarrow> 'e cdc_error + (string \<times> 'o gval list) list" where
  "predicate_parts r row [] = Inr []"
| "predicate_parts r row (i # is) =
     bind_res (predicate_at r row i) (\<lambda>p. bind_res (predicate_parts r row is) (\<lambda>ps. Inr (p # ps)))"

definition predicate :: "damengRow \<Rightarrow> nat list \<Rightarrow> 'o gval list \<Rightarrow> 'e cdc_error + string \<times> 'o gval list" where
  "predicate r is row =
     bind_res (predicate_parts r row is) (\<lambda>ps.
       if ps = [] then Inl (Refused (NoLocatorPredicate (Name (dr_table r))))
       else Inr (str_join '' AND '' (map fst ps), concat (map snd ps)))"

definition allIndexes :: "damengRow \<Rightarrow> nat list" where
  "allIndexes r = [0..<length (dr_columns r)]"

definition first_row :: "damengRow \<Rightarrow> string \<Rightarrow> string" where
  "first_row r whr = ''ROWID=(SELECT ROWID FROM '' @ row_qualified r @ '' WHERE '' @ whr @ '' AND ROWNUM=1)''"

section \<open>Statements\<close>

fun bind_all :: "damengRow \<Rightarrow> (nat \<times> 'o gval) list \<Rightarrow> 'e cdc_error + (string \<times> 'o gval) list" where
  "bind_all r [] = Inr []"
| "bind_all r ((i, v) # ivs) = bind_res (bind r i v) (\<lambda>b. bind_res (bind_all r ivs) (\<lambda>bs. Inr (b # bs)))"

definition dm_insert :: "('o, 'd, 'e) dm_env \<Rightarrow> damengRow \<Rightarrow> 'o gval list \<Rightarrow> (unit, 'd dm_tx, 'e) failing" where
  "dm_insert env r row =
     then_do (if dr_identity r \<noteq> [] then setIdentity env (row_qualified r) else give (Inr ())) (\<lambda>_.
       then_do (give (bind_all r (zip [0..<length row] row))) (\<lambda>bs.
         then_do (dm_exec_stmt env (''INSERT INTO '' @ row_qualified r @ '' ('' @
             str_join '','' (map (row_column r) [0..<length row]) @ '') VALUES ('' @ str_join '','' (map fst bs) @ '')'')
           (map snd bs)) (\<lambda>n. give (Inr ()))))"

definition dm_delete ::
  "('o, 'd, 'e) dm_env \<Rightarrow> damengRow \<Rightarrow> 'o gval list \<Rightarrow> bool \<Rightarrow> (unit, 'd dm_tx, 'e) failing" where
  "dm_delete env r before full =
     then_do (give (if full then Inr (allIndexes r) else locatorColumnIndexes (dr_table r))) (\<lambda>is.
       then_do (give (predicate r is before)) (\<lambda>(whr, args).
         then_do (dm_exec_stmt env (''DELETE FROM '' @ row_qualified r @ '' WHERE '' @
                    (if full then first_row r whr else whr)) args) (\<lambda>n.
           give (if full then (case requireOneFullRow (dm_row_hash env) (dr_table r) ''delete'' before n of
                    None \<Rightarrow> Inr () | Some e \<Rightarrow> Inl e)
                 else Inr ()))))"

text \<open>Without a column to set the row is only counted; an identity column is never set and, for a keyed
  table, is part of the predicate.\<close>

definition dm_update ::
  "('o, 'd, 'e) dm_env \<Rightarrow> damengRow \<Rightarrow> 'o gval list \<Rightarrow> 'o gval list \<Rightarrow> bool \<Rightarrow> (int, 'd dm_tx, 'e) failing" where
  "dm_update env r before after full =
     then_do (give (if full then Inr [] else locatorColumnIndexes (dr_table r))) (\<lambda>locator.
       let is = (if full then allIndexes r else locator @ filter (\<lambda>i. i \<notin> set locator) (dr_identity r)) in
       then_do (give (predicate r is before)) (\<lambda>(whr, where_args).
         let set_indexes = filter (\<lambda>i. i \<notin> set (dr_identity r) \<and> (full \<or> i \<notin> set locator)) [0..<length after] in
         then_do (give (bind_all r (map (\<lambda>i. (i, after ! i)) set_indexes))) (\<lambda>bs.
           if set_indexes = []
           then dm_query_count env (''SELECT COUNT(*) FROM '' @ row_qualified r @ '' WHERE '' @ whr @ '' AND ROWNUM=1'') where_args
           else then_do (dm_exec_stmt env (''UPDATE '' @ row_qualified r @ '' SET '' @
                    str_join '','' (map (\<lambda>(i, b). row_column r i @ ''='' @ fst b) (zip set_indexes bs)) @ '' WHERE '' @
                    (if full then first_row r whr else whr)) (map snd bs @ where_args)) (\<lambda>n.
                  give (case n of Inl e \<Rightarrow> Inl (Driver e) | Inr k \<Rightarrow> Inr k)))))"

definition dm_upsert :: "('o, 'd, 'e) dm_env \<Rightarrow> damengRow \<Rightarrow> 'o gval list \<Rightarrow> (unit, 'd dm_tx, 'e) failing" where
  "dm_upsert env r row =
     (if LocatorStrategy (dr_table r) = LocatorFullRow then dm_insert env r row
      else then_do (dm_update env r row row False) (\<lambda>n.
        if n = 1 then give (Inr ())
        else if n > 1 then give (Inl (Refused (UniqueMatched (Name (dr_table r)) n)))
        else then_do (if dr_identity r \<noteq> [] then dm_delete env r row False else give (Inr ()))
               (\<lambda>_. dm_insert env r row)))"

definition convert_row :: "('o, 'd, 'e) dm_env \<Rightarrow> damengRow \<Rightarrow> 'o gval list \<Rightarrow> 'e cdc_error + 'o gval list" where
  "convert_row env r row =
     (case dm_convert_row env (dr_table r) row of Inl e \<Rightarrow> Inl (Driver e) | Inr vs \<Rightarrow> Inr vs)"

definition dm_apply_row :: "('o, 'd, 'e) dm_env \<Rightarrow> damengRow \<Rightarrow> 'o gval Change \<Rightarrow> (unit, 'd dm_tx, 'e) failing" where
  "dm_apply_row env r ch =
     (let full = (LocatorStrategy (dr_table r) = LocatorFullRow) in
      then_do (give (if Action ch \<noteq> ''insert'' then convert_row env r (Before ch) else Inr [])) (\<lambda>before.
        then_do (give (if Action ch \<noteq> ''delete'' then convert_row env r (After ch) else Inr [])) (\<lambda>after.
          if Action ch = ''insert'' then dm_upsert env r after
          else if Action ch = ''delete'' then dm_delete env r before full
          else if Action ch = ''update''
          then (if full
                then (if identityChanged (dm_deep_equal env) r before after
                      then then_do (dm_delete env r before True) (\<lambda>_. dm_insert env r after)
                      else then_do (dm_update env r before after True) (\<lambda>n.
                        give (case requireOneFullRow (dm_row_hash env) (dr_table r) ''update'' (Before ch) (Inr n) of
                                None \<Rightarrow> Inr () | Some e \<Rightarrow> Inl e)))
                else then_do
                  (if locatorChanged (dm_deep_equal env) (dr_table r) before after \<or>
                      identityChanged (dm_deep_equal env) r before after
                   then dm_delete env r before False else give (Inr ()))
                  (\<lambda>_. dm_upsert env r after))
          else give (Inl (Refused (UnknownAction (Action ch)))))))"

lemmas dm_dml_defs = dm_insert_def dm_delete_def dm_update_def dm_upsert_def dm_apply_row_def

section \<open>Facts\<close>

lemma dm_calm_simps [simp]:
  "dm_convert_row (dm_calm env) = dm_convert_row env" "dm_deep_equal (dm_calm env) = dm_deep_equal env"
  "dm_row_hash (dm_calm env) = dm_row_hash env" "dm_exec (dm_calm env) = dm_exec env"
  "dm_count (dm_calm env) = dm_count env" "dm_lock_mode (dm_calm env) = dm_lock_mode env"
  "dm_triggers (dm_calm env) = dm_triggers env" "dm_catalog (dm_calm env) = dm_catalog env"
  "dm_faults (dm_calm env) = no_dm_faults" "dm_now (dm_calm env) = dm_now env"
  by (simp_all add: dm_calm_def)

lemma no_dm_faults_simps [simp]:
  "fd_call no_dm_faults c = None" "fd_exec no_dm_faults sql args d = None"
  "fd_identity no_dm_faults t on sess = None" "fd_cleanup no_dm_faults t sess = None"
  "fd_ddl no_dm_faults sql = None" "fd_commit no_dm_faults = None"
  by (simp_all add: no_dm_faults_def)

lemma convert_row_calm [simp]: "convert_row (dm_calm env) = convert_row env"
  unfolding convert_row_def dm_calm_simps by (rule refl)

lemma statements_calm:
  "refines_step (dm_exec_stmt env sql args) (dm_exec_stmt (dm_calm env) sql args)"
  "refines_step (dm_query_count env sql args) (dm_query_count (dm_calm env) sql args)"
  "refines_step (identity_stmt env t on) (identity_stmt (dm_calm env) t on)"
  by (auto simp: refines_step_def dm_exec_stmt_def dm_query_count_def identity_stmt_def Let_def split: option.splits)

lemma identity_stmt_Inr: "identity_stmt env t on s = (Inr u, s') \<longleftrightarrow>
    fd_identity (dm_faults env) t on (tx_session s) = None \<and> s' = s\<lparr>tx_session := switch_session t on (tx_session s)\<rparr>"
  by (auto simp: identity_stmt_def Let_def split: option.splits)

lemma setIdentity_calm: "refines_step (setIdentity env t) (setIdentity (dm_calm env) t)"
  by (auto simp: refines_step_def setIdentity_def then_do_Inr identity_stmt_Inr split: if_splits)

lemmas refines_step_intros = refines_step_refl refines_step_then refines_step_if statements_calm setIdentity_calm

lemma dm_dml_calm:
  "refines_step (dm_insert env r row) (dm_insert (dm_calm env) r row)"
  "refines_step (dm_delete env r row full) (dm_delete (dm_calm env) r row full)"
  "refines_step (dm_update env r row row' full) (dm_update (dm_calm env) r row row' full)"
  unfolding dm_insert_def dm_delete_def dm_update_def Let_def case_prod_beta dm_calm_simps
  by (intro refines_step_intros)+

lemma dm_upsert_calm: "refines_step (dm_upsert env r row) (dm_upsert (dm_calm env) r row)"
  unfolding dm_upsert_def by (intro refines_step_intros dm_dml_calm)

lemma dm_apply_row_calm: "refines_step (dm_apply_row env r ch) (dm_apply_row (dm_calm env) r ch)"
  unfolding dm_apply_row_def Let_def dm_calm_simps convert_row_calm
  by (intro refines_step_intros dm_dml_calm dm_upsert_calm)

text \<open>
  The session is never ahead of the variable: if IDENTITY_INSERT is on for a table, the variable names it,
  whatever statement failed and whether or not it took effect.
\<close>

definition session_tracked :: "'d dm_tx \<Rightarrow> bool" where
  "session_tracked s \<longleftrightarrow> (\<forall>t. tx_session s = Some t \<longrightarrow> t = tx_identity s \<and> t \<noteq> [])"

lemma exec_tracked:
  "keeps session_tracked (dm_exec_stmt env sql args)" "keeps session_tracked (dm_query_count env sql args)"
  by (auto simp: keeps_def dm_exec_stmt_def dm_query_count_def session_tracked_def
      split: option.splits sum.splits prod.splits)

lemma session_tracked_cases:
  assumes "session_tracked s"
  obtains "tx_session s = None" | "tx_session s = Some (tx_identity s)" "tx_identity s \<noteq> []"
  using assms by (cases "tx_session s") (auto simp: session_tracked_def)

lemma identity_stmt_snd:
  "tx_identity (snd (identity_stmt env t on s)) = tx_identity s"
  "tx_session (snd (identity_stmt env t on s)) = tx_session s \<or>
   tx_session (snd (identity_stmt env t on s)) = switch_session t on (tx_session s)"
  by (auto simp: identity_stmt_def Let_def split: option.splits)

lemma identity_on_tracked:
  assumes "tx_session s = None" "t \<noteq> []"
  shows "session_tracked (snd (identity_stmt env t True (s\<lparr>tx_identity := t\<rparr>)))"
  using assms identity_stmt_snd [of env t True "s\<lparr>tx_identity := t\<rparr>"]
  by (auto simp: session_tracked_def switch_session_def)

lemma identity_off_tracked:
  assumes "session_tracked s"
  shows "session_tracked (snd (identity_stmt env (tx_identity s) False s))"
  using assms identity_stmt_snd [of env "tx_identity s" False s]
  by (auto simp: session_tracked_def switch_session_def split: if_splits)

lemma setIdentity_tracked: "keeps session_tracked (setIdentity env t)"
  unfolding keeps_def
proof (intro allI impI)
  fix s :: "'a dm_tx" assume tracked: "session_tracked s"
  show "session_tracked (snd (setIdentity env t s))"
  proof (cases "tx_identity s = t")
    case False
    show ?thesis
    proof (cases "tx_identity s = []")
      case True
      then have "tx_session s = None" using tracked by (auto simp: session_tracked_def)
      then show ?thesis
        using True False by (simp add: setIdentity_def then_do_def identity_on_tracked)
    next
      case named: False
      obtain q s1 where off: "identity_stmt env (tx_identity s) False s = (q, s1)" by (rule prod.exhaust)
      show ?thesis
      proof (cases q)
        case (Inl e)
        then show ?thesis
          using named False off identity_off_tracked [OF tracked, of env] by (simp add: setIdentity_def then_do_def)
      next
        case (Inr u)
        then have "tx_session s1 = None"
          using off tracked by (auto simp: identity_stmt_Inr switch_session_def elim: session_tracked_cases)
        then show ?thesis
          using named False off Inr identity_on_tracked [of "s1\<lparr>tx_identity := []\<rparr>" t env]
          by (simp add: setIdentity_def then_do_def session_tracked_def)
      qed
    qed
  qed (use tracked in \<open>simp add: setIdentity_def\<close>)
qed

lemma setIdentity_off: "setIdentity env [] s = (Inr u, s') \<Longrightarrow> tx_identity s' = []"
  by (auto simp: setIdentity_def then_do_Inr split: if_splits)

lemma keeps_if: "keeps P a \<Longrightarrow> keeps P b \<Longrightarrow> keeps P (if c then a else b)"
  by simp

lemmas tracked_intros = keeps_give keeps_then keeps_if exec_tracked setIdentity_tracked

lemma dm_dml_tracked:
  "keeps session_tracked (dm_insert env r row)"
  "keeps session_tracked (dm_delete env r row full)"
  "keeps session_tracked (dm_update env r row row' full)"
  unfolding dm_insert_def dm_delete_def dm_update_def Let_def case_prod_beta
  by (intro tracked_intros)+

lemma dm_apply_row_tracked: "keeps session_tracked (dm_apply_row env r ch)"
  unfolding dm_apply_row_def dm_upsert_def Let_def
  by (intro tracked_intros dm_dml_tracked)

end
