(* ===== verification/CdcPostgresDml.thy ===== *)
theory CdcPostgresDml
  imports CdcDml
begin

text \<open>
  The SQL statements of the PostgreSQL applier (\<^verbatim>\<open>postgres.go\<close>): the text and bound values of the INSERT, DELETE and UPDATE statements of one change.
  The target database is a service: \<open>'d\<close> is the content of its tables and the record \<open>pg_env\<close>
  holds what its driver answers and what the value converter (\<^verbatim>\<open>valueconv\<close>) does with a value. An index
  out of range of a slice is Go's panic, here the error \<open>Panic\<close>.
\<close>

section \<open>Environment\<close>

text \<open>
  What may go wrong in one call, apart from what the statements themselves do: a connection or server
  error at the start of the transaction, at a statement, at a query, at the checkpoint statement, or at
  the commit, where the flag says that the server had made the transaction durable all the same (a
  connection lost while COMMIT was answered).
\<close>

record ('v, 'd, 'e) faults =
  f_begin :: "'e option"
  f_exec :: "string \<Rightarrow> 'v list \<Rightarrow> 'd \<Rightarrow> 'e option"
  f_query :: "'e option"
  f_upsert :: "'e option"
  f_commit :: "('e \<times> bool) option"

definition no_faults :: "('v, 'd, 'e) faults" where
  "no_faults = \<lparr>f_begin = None, f_exec = \<lambda>_ _ _. None, f_query = None, f_upsert = None, f_commit = None\<rparr>"

record ('v, 'd, 'e) pg_env =
  env_convert :: "'v \<Rightarrow> string \<Rightarrow> string \<Rightarrow> 'v"
  env_deep_equal :: "'v \<Rightarrow> 'v \<Rightarrow> bool"
  env_row_hash :: "'v list \<Rightarrow> string"
  env_exec :: "string \<Rightarrow> 'v list \<Rightarrow> 'd \<Rightarrow> 'e + ('e + int) \<times> 'd"
  env_triggers :: "string \<Rightarrow> 'd \<Rightarrow> (string \<times> string) list"
  env_faults :: "('v, 'd, 'e) faults"
  env_now :: int

definition calm :: "('v, 'd, 'e) pg_env \<Rightarrow> ('v, 'd, 'e) pg_env" where
  "calm env = env\<lparr>env_faults := no_faults\<rparr>"

section \<open>Statements\<close>

text \<open>\<open>a.conv.Convert(row[i], "mysql", t.ColumnTypes[i])\<close> for the indexes of a list, in order.\<close>

definition convert_at :: "('v, 'd, 'e) pg_env \<Rightarrow> TableInfo \<Rightarrow> 'v list \<Rightarrow> nat list \<Rightarrow> 'e cdc_error + 'v list" where
  "convert_at env t row is =
     (if list_all (\<lambda>i. i < length row \<and> i < length (ColumnTypes t)) is
      then Inr (map (\<lambda>i. env_convert env (row ! i) ''mysql'' (ColumnTypes t ! i)) is)
      else Inl Panic)"

definition exec_stmt :: "('v, 'd, 'e) pg_env \<Rightarrow> string \<Rightarrow> 'v list \<Rightarrow> 'd \<Rightarrow> 'e cdc_error + ('e + int) \<times> 'd" where
  "exec_stmt env sql vals d =
     (case f_exec (env_faults env) sql vals d of
        Some e \<Rightarrow> Inl (Driver e)
      | None \<Rightarrow> (case env_exec env sql vals d of Inl e \<Rightarrow> Inl (Driver e) | Inr r \<Rightarrow> Inr r))"

definition mark :: "nat \<Rightarrow> string" where
  "mark i = ''$'' @ itoa (int i + 1)"

definition column_names :: "applier \<Rightarrow> TableInfo \<Rightarrow> string list" where
  "column_names a t = map (\<lambda>c. quoteIdent (applier_name a c)) (Columns t)"

definition on_conflict :: "applier \<Rightarrow> TableInfo \<Rightarrow> nat list \<Rightarrow> string" where
  "on_conflict a t is =
     (let pk = map (\<lambda>p. column_names a t ! p) is;
          sets = map (\<lambda>i. column_names a t ! i @ ''=EXCLUDED.'' @ column_names a t ! i)
                   (filter (\<lambda>i. i \<notin> set is) [0..<length (Columns t)])
      in if sets = [] then '' ON CONFLICT ('' @ str_join '','' pk @ '') DO NOTHING''
         else '' ON CONFLICT ('' @ str_join '','' pk @ '') DO UPDATE SET '' @ str_join '','' sets)"

definition insert_row ::
  "('v, 'd, 'e) pg_env \<Rightarrow> applier \<Rightarrow> TableInfo \<Rightarrow> 'v list \<Rightarrow> 'd \<Rightarrow> 'e cdc_error + 'd" where
  "insert_row env a t row d =
     (if length row \<noteq> length (Columns t)
      then Inl (ColumnCount [int (length row), int (length (Columns t))])
      else bind_res (convert_at env t row [0..<length (Columns t)]) (\<lambda>vals.
        let sql = ''INSERT INTO '' @ qualified_name a (Name t) @ '' ('' @ str_join '','' (column_names a t) @
                  '') VALUES ('' @ str_join '','' (map mark [0..<length (Columns t)]) @ '')''
        in bind_res
             (if LocatorStrategy t = LocatorPrimaryKey \<or> LocatorStrategy t = LocatorUniqueKey
              then bind_res (locatorColumnIndexes t) (\<lambda>is. Inr (sql @ on_conflict a t is))
              else Inr sql)
             (\<lambda>stmt. bind_res (exec_stmt env stmt vals d) (\<lambda>(n, d'). Inr d'))))"

definition deleteByLocator ::
  "('v, 'd, 'e) pg_env \<Rightarrow> applier \<Rightarrow> TableInfo \<Rightarrow> 'v list \<Rightarrow> 'd \<Rightarrow> 'e cdc_error + 'd" where
  "deleteByLocator env a t row d =
     bind_res (locatorColumnIndexes t) (\<lambda>is.
       bind_res (convert_at env t row is) (\<lambda>vals.
         let conds = map (\<lambda>(k, p). column_names a t ! p @ ''='' @ mark k) (zip [0..<length is] is)
         in bind_res (exec_stmt env (''DELETE FROM '' @ qualified_name a (Name t) @ '' WHERE '' @
                        str_join '' AND '' conds) vals d) (\<lambda>(n, d'). Inr d')))"

definition full_row_where :: "applier \<Rightarrow> TableInfo \<Rightarrow> nat \<Rightarrow> string" where
  "full_row_where a t offset =
     str_join '' AND '' (map (\<lambda>i. column_names a t ! i @ '' IS NOT DISTINCT FROM '' @ mark (offset + i))
       [0..<length (Columns t)])"

definition updateFullRow ::
  "('v, 'd, 'e) pg_env \<Rightarrow> applier \<Rightarrow> TableInfo \<Rightarrow> 'v list \<Rightarrow> 'v list \<Rightarrow> 'd \<Rightarrow> 'e cdc_error + 'd" where
  "updateFullRow env a t before after d =
     (let n = length (Columns t) in
      if length before \<noteq> n \<or> length after \<noteq> n
      then Inl (ColumnCount [int (length before), int (length after), int n])
      else bind_res (convert_at env t after [0..<n]) (\<lambda>new_vals.
        bind_res (convert_at env t before [0..<n]) (\<lambda>old_vals.
          let sets = map (\<lambda>i. column_names a t ! i @ ''='' @ mark i) [0..<n];
              stmt = ''UPDATE '' @ qualified_name a (Name t) @ '' SET '' @ str_join '','' sets @
                     '' WHERE ctid=(SELECT ctid FROM '' @ qualified_name a (Name t) @ '' WHERE '' @
                     full_row_where a t n @ '' LIMIT 1)''
          in bind_res (exec_stmt env stmt (new_vals @ old_vals) d) (\<lambda>(affected, d').
               case requireOneFullRow (env_row_hash env) t ''update'' before affected of None \<Rightarrow> Inr d' | Some e \<Rightarrow> Inl e))))"

definition deleteFullRow ::
  "('v, 'd, 'e) pg_env \<Rightarrow> applier \<Rightarrow> TableInfo \<Rightarrow> 'v list \<Rightarrow> 'd \<Rightarrow> 'e cdc_error + 'd" where
  "deleteFullRow env a t before d =
     (let n = length (Columns t) in
      if length before \<noteq> n
      then Inl (ColumnCount [int (length before), int n])
      else bind_res (convert_at env t before [0..<n]) (\<lambda>vals.
          let stmt = ''DELETE FROM '' @ qualified_name a (Name t) @ '' WHERE ctid=(SELECT ctid FROM '' @
                     qualified_name a (Name t) @ '' WHERE '' @ full_row_where a t 0 @ '' LIMIT 1)''
          in bind_res (exec_stmt env stmt vals d) (\<lambda>(affected, d').
               case requireOneFullRow (env_row_hash env) t ''delete'' before affected of None \<Rightarrow> Inr d' | Some e \<Rightarrow> Inl e)))"

lemmas dml_defs = insert_row_def deleteByLocator_def updateFullRow_def deleteFullRow_def

section \<open>Facts\<close>

text \<open>What succeeds under some faults does the same without them.\<close>

lemma calm_simps [simp]:
  "env_convert (calm env) = env_convert env" "env_deep_equal (calm env) = env_deep_equal env"
  "env_row_hash (calm env) = env_row_hash env" "env_exec (calm env) = env_exec env"
  "env_triggers (calm env) = env_triggers env" "env_faults (calm env) = no_faults"
  by (simp_all add: calm_def)

definition refines :: "'e + 'a \<Rightarrow> 'e + 'a \<Rightarrow> bool" where
  "refines r r' \<longleftrightarrow> (\<forall>x. r = Inr x \<longrightarrow> r' = Inr x)"

lemma refines_refl [simp]: "refines r r"
  by (simp add: refines_def)

lemma refines_Inl [simp]: "refines (Inl e) r"
  by (simp add: refines_def)

lemma refines_bind:
  "refines r r' \<Longrightarrow> (\<And>x. refines (f x) (g x)) \<Longrightarrow> refines (bind_res r f) (bind_res r' g)"
  by (cases r) (auto simp: refines_def)

lemma refines_if: "refines a a' \<Longrightarrow> refines b b' \<Longrightarrow> refines (if c then a else b) (if c then a' else b')"
  by simp

lemmas refines_intros = refines_refl refines_Inl refines_bind refines_if

lemma exec_stmt_calm: "refines (exec_stmt env sql vals d) (exec_stmt (calm env) sql vals d)"
  by (auto simp: refines_def exec_stmt_def no_faults_def split: option.splits)

lemma convert_at_calm [simp]: "convert_at (calm env) = convert_at env"
  unfolding convert_at_def calm_simps by (rule refl)

lemma dml_calm:
  "refines (insert_row env a t row d) (insert_row (calm env) a t row d)"
  "refines (deleteByLocator env a t row d) (deleteByLocator (calm env) a t row d)"
  "refines (updateFullRow env a t before after d) (updateFullRow (calm env) a t before after d)"
  "refines (deleteFullRow env a t before d) (deleteFullRow (calm env) a t before d)"
  unfolding dml_defs Let_def convert_at_calm calm_simps
  by (intro refines_intros exec_stmt_calm)+

end
