(* ===== verification/CdcPostgres.thy ===== *)
theory CdcPostgres
  imports CdcPostgresDml
begin

text \<open>
  The PostgreSQL applier's transactions (\<^verbatim>\<open>postgres.go\<close>, \<^verbatim>\<open>trigger_guard.go\<close>): the checkpoint
  table of this module, the application of one source transaction with its checkpoint, and the
  operations on the bootstrap record. The checkpoint table is the module's own: its rows and the effect of
  the module's statements on them are modelled as written in the SQL text; the JSON columns hold the
  lists they encode. A transaction works on a copy of the database that a commit makes durable;
  \<open>f_commit\<close> says whether the commit reports an error and, if so, whether the server had made it
  durable anyway (a connection lost during COMMIT).
\<close>

section \<open>The database\<close>

record ckpt_row =
  ck_file :: string
  ck_position :: int
  ck_gtid :: string
  ck_state :: string
  ck_effective :: "string list"
  ck_excluded :: "BootstrapIssue list"
  ck_hash :: string
  ck_failed :: "BootstrapFailedObject list"
  ck_report :: int
  ck_locator_version :: int
  ck_locators :: "Locator list"

text \<open>The column defaults of \<open>ensureCheckpoint\<close>.\<close>

definition default_row :: ckpt_row where
  "default_row = \<lparr>ck_file = [], ck_position = 4, ck_gtid = [], ck_state = ''completed'', ck_effective = [],
     ck_excluded = [], ck_hash = [], ck_failed = [], ck_report = 0, ck_locator_version = 0, ck_locators = []\<rparr>"

record 'd db =
  ckpts :: "string \<rightharpoonup> ckpt_row"
  content :: 'd

section \<open>Checkpoint statements\<close>

text \<open>\<open>INSERT ... ON CONFLICT(job_id) DO UPDATE\<close> of the position columns.\<close>

definition upsert_position :: "string \<Rightarrow> Position \<Rightarrow> (string \<rightharpoonup> ckpt_row) \<Rightarrow> string \<rightharpoonup> ckpt_row" where
  "upsert_position job p m =
     (let old = (case m job of Some r \<Rightarrow> r | None \<Rightarrow> default_row)
      in m(job \<mapsto> old\<lparr>ck_file := File p, ck_position := uint (Pos p), ck_gtid := GTID p\<rparr>))"

definition saveCheckpointTx ::
  "('v, 'd, 'e) pg_env \<Rightarrow> applier \<Rightarrow> Position \<Rightarrow> 'd db \<Rightarrow> 'e cdc_error + 'd db" where
  "saveCheckpointTx env a p s =
     (case f_upsert (env_faults env) of
        Some e \<Rightarrow> Inl (Driver e)
      | None \<Rightarrow> Inr (s\<lparr>ckpts := upsert_position (a_job a) p (ckpts s)\<rparr>))"

text \<open>\<open>BeginTx\<close>, a body on a copy of the database, \<open>Commit\<close>; every error rolls back.\<close>

definition with_tx ::
  "('v, 'd, 'e) pg_env \<Rightarrow> ('d db \<Rightarrow> 'e cdc_error + 'r \<times> 'd db) \<Rightarrow> 'd db \<Rightarrow> ('e cdc_error + 'r) \<times> 'd db" where
  "with_tx env body s =
     (case f_begin (env_faults env) of
        Some e \<Rightarrow> (Inl (Driver e), s)
      | None \<Rightarrow>
          (case body s of
             Inl e \<Rightarrow> (Inl e, s)
           | Inr (r, s') \<Rightarrow>
               (case f_commit (env_faults env) of
                  None \<Rightarrow> (Inr r, s')
                | Some (e, durable) \<Rightarrow> (Inl (Driver e), if durable then s' else s))))"

definition SaveCheckpoint ::
  "('v, 'd, 'e) pg_env \<Rightarrow> applier \<Rightarrow> Position \<Rightarrow> 'd db \<Rightarrow> ('e cdc_error + unit) \<times> 'd db" where
  "SaveCheckpoint env a p s =
     with_tx env (\<lambda>s. bind_res (saveCheckpointTx env a p s) (\<lambda>s'. Inr ((), s'))) s"

definition LoadBootstrapRecord ::
  "applier \<Rightarrow> 'd db \<Rightarrow> BootstrapRecord option" where
  "LoadBootstrapRecord a s =
     map_option (\<lambda>r. \<lparr>br_state = ck_state r,
         br_position = \<lparr>File = ck_file r, Pos = word_of_int (ck_position r), GTID = ck_gtid r\<rparr>,
         br_effective = ck_effective r, br_excluded = ck_excluded r, br_manifest_hash = ck_hash r,
         br_failed = ck_failed r, br_report_version = ck_report r,
         br_locator_version = ck_locator_version r, br_locators = ck_locators r\<rparr>)
       (ckpts s (a_job a))"

definition LoadCheckpoint :: "applier \<Rightarrow> 'd db \<Rightarrow> 'e cdc_error + Position option" where
  "LoadCheckpoint a s =
     (case LoadBootstrapRecord a s of
        None \<Rightarrow> Inr None
      | Some r \<Rightarrow> if br_state r \<noteq> ''completed'' then Inl (NotCompleted (br_state r))
                 else Inr (Some (br_position r)))"

definition SaveBootstrapRecord ::
  "('v, 'd, 'e) pg_env \<Rightarrow> applier \<Rightarrow> BootstrapRecord \<Rightarrow> 'd db \<Rightarrow> ('e cdc_error + unit) \<times> 'd db" where
  "SaveBootstrapRecord env a r s =
     (case f_upsert (env_faults env) of
        Some e \<Rightarrow> (Inl (Driver e), s)
      | None \<Rightarrow> (Inr (), s\<lparr>ckpts := (ckpts s)(a_job a \<mapsto>
          \<lparr>ck_file = File (br_position r), ck_position = uint (Pos (br_position r)),
           ck_gtid = GTID (br_position r), ck_state = br_state r, ck_effective = br_effective r,
           ck_excluded = br_excluded r, ck_hash = br_manifest_hash r, ck_failed = br_failed r,
           ck_report = br_report_version r, ck_locator_version = br_locator_version r,
           ck_locators = br_locators r\<rparr>)\<rparr>))"

section \<open>Triggers\<close>

definition checkTargetBusinessTriggers ::
  "('v, 'd, 'e) pg_env \<Rightarrow> applier \<Rightarrow> TableInfo list \<Rightarrow> 'd \<Rightarrow> 'e cdc_error option" where
  "checkTargetBusinessTriggers env a tables d =
     (let selected = map (\<lambda>t. targetObjectName (a_lower a) [] (Name t)) tables in
      case f_query (env_faults env) of
        Some e \<Rightarrow> Some (Driver e)
      | None \<Rightarrow>
          (case List.find (\<lambda>(table, trg). table \<in> set selected) (env_triggers env (a_schema a) d) of
             None \<Rightarrow> None
           | Some (table, trg) \<Rightarrow> Some (ActiveTrigger (a_schema a) table trg)))"

fun changed_tables :: "'v Change list \<Rightarrow> string list \<Rightarrow> TableInfo list" where
  "changed_tables [] seen = []"
| "changed_tables (ch # chs) seen =
     (if Name (Table ch) \<in> set seen then changed_tables chs seen
      else Table ch # changed_tables chs (Name (Table ch) # seen))"

definition checkTransactionTriggers ::
  "('v, 'd, 'e) pg_env \<Rightarrow> applier \<Rightarrow> 'v Change list \<Rightarrow> 'd \<Rightarrow> 'e cdc_error + 'd" where
  "checkTransactionTriggers env a changes d =
     (let tables = changed_tables changes [] in
      if tables = [] then Inr d
      else bind_res (exec_stmt env (''LOCK TABLE '' @
               str_join '','' (sort_by str_less (map (\<lambda>t. qualified_name a (Name t)) tables)) @
               '' IN ROW EXCLUSIVE MODE'') [] d)
             (\<lambda>(n, d'). case checkTargetBusinessTriggers env a tables d' of
                None \<Rightarrow> Inr d' | Some e \<Rightarrow> Inl e))"

section \<open>Applying one source transaction\<close>

definition update_change ::
  "('v, 'd, 'e) pg_env \<Rightarrow> applier \<Rightarrow> 'v Change \<Rightarrow> 'd \<Rightarrow> 'e cdc_error + 'd" where
  "update_change env a ch d =
     (if LocatorStrategy (Table ch) = LocatorFullRow
      then updateFullRow env a (Table ch) (Before ch) (After ch) d
      else bind_res
             (if locatorChanged (env_deep_equal env) (Table ch) (Before ch) (After ch)
              then deleteByLocator env a (Table ch) (Before ch) d else Inr d)
             (\<lambda>d'. insert_row env a (Table ch) (After ch) d'))"

definition delete_change ::
  "('v, 'd, 'e) pg_env \<Rightarrow> applier \<Rightarrow> 'v Change \<Rightarrow> 'd \<Rightarrow> 'e cdc_error + 'd" where
  "delete_change env a ch d =
     (if LocatorStrategy (Table ch) = LocatorFullRow
      then deleteFullRow env a (Table ch) (Before ch) d
      else deleteByLocator env a (Table ch) (Before ch) d)"

text \<open>The body of the loop over the changes: the counters and the tables' new content.\<close>

definition apply_change ::
  "('v, 'd, 'e) pg_env \<Rightarrow> applier \<Rightarrow> 'v Change \<Rightarrow> Stats \<times> 'd \<Rightarrow> 'e cdc_error + Stats \<times> 'd" where
  "apply_change env a ch sd =
     (let (st, d) = sd;
          r = (if Action ch = ''insert''
               then bind_res (insert_row env a (Table ch) (After ch) d)
                      (\<lambda>d'. Inr (st\<lparr>Inserts := i64 (Inserts st + 1)\<rparr>, d'))
               else if Action ch = ''update''
               then bind_res (update_change env a ch d)
                      (\<lambda>d'. Inr (st\<lparr>Updates := i64 (Updates st + 1)\<rparr>, d'))
               else if Action ch = ''delete''
               then bind_res (delete_change env a ch d)
                      (\<lambda>d'. Inr (st\<lparr>Deletes := i64 (Deletes st + 1)\<rparr>, d'))
               else Inr (st, d))
      in case r of Inl e \<Rightarrow> Inl (wrap_apply (Action ch) (Name (Table ch)) e) | Inr x \<Rightarrow> Inr x)"

fun apply_changes ::
  "('v, 'd, 'e) pg_env \<Rightarrow> applier \<Rightarrow> 'v Change list \<Rightarrow> Stats \<times> 'd \<Rightarrow> 'e cdc_error + Stats \<times> 'd" where
  "apply_changes env a [] sd = Inr sd"
| "apply_changes env a (ch # chs) sd =
     (case apply_change env a ch sd of Inl e \<Rightarrow> Inl e | Inr sd' \<Rightarrow> apply_changes env a chs sd')"

definition apply_body ::
  "('v, 'd, 'e) pg_env \<Rightarrow> applier \<Rightarrow> 'v Change list \<Rightarrow> Position \<Rightarrow> 'd db \<Rightarrow> 'e cdc_error + Stats \<times> 'd db" where
  "apply_body env a changes p s =
     bind_res (checkTransactionTriggers env a changes (content s)) (\<lambda>d.
       bind_res (apply_changes env a changes (zero_stats, d)) (\<lambda>(st, d').
         bind_res (saveCheckpointTx env a p (s\<lparr>content := d'\<rparr>)) (\<lambda>s'.
           Inr (st\<lparr>st_position := p, LastEventAt := Some (env_now env)\<rparr>, s'))))"

definition Apply ::
  "('v, 'd, 'e) pg_env \<Rightarrow> applier \<Rightarrow> 'v Change list \<Rightarrow> Position \<Rightarrow> 'd db \<Rightarrow> ('e cdc_error + Stats) \<times> 'd db" where
  "Apply env a changes p s = with_tx env (apply_body env a changes p) s"

section \<open>Facts\<close>

lemma with_tx_cases:
  assumes "with_tx env body s = (r, s')"
  obtains (rolled_back) e where "r = Inl e" "s' = s"
    | (durable) x where "body s = Inr (x, s')" "is_ok r \<or> f_commit (env_faults env) \<noteq> None"
  using assms by (auto simp: with_tx_def split: option.splits sum.splits prod.splits if_splits)

lemma with_tx_Inr: "with_tx env body s = (Inr x, s') \<Longrightarrow> body s = Inr (x, s')"
  by (auto simp: with_tx_def split: option.splits sum.splits prod.splits)

text \<open>The position in the job's checkpoint row, whatever the row's bootstrap state.\<close>

definition checkpoint_of :: "applier \<Rightarrow> 'd db \<Rightarrow> Position option" where
  "checkpoint_of a s = map_option br_position (LoadBootstrapRecord a s)"

text \<open>
  The effect of the changes of one transaction on the target's tables: what the statements do when no
  fault interferes; \<open>None\<close> if one of them is refused.
\<close>

definition tx_effect ::
  "('v, 'd, 'e) pg_env \<Rightarrow> applier \<Rightarrow> 'v Change list \<Rightarrow> 'd \<Rightarrow> 'd option" where
  "tx_effect env a changes d =
     (case checkTransactionTriggers (calm env) a changes d of
        Inl e \<Rightarrow> None
      | Inr d1 \<Rightarrow> (case apply_changes (calm env) a changes (zero_stats, d1) of Inl e \<Rightarrow> None | Inr (st, d2) \<Rightarrow> Some d2))"

lemma refines_sum_map:
  "refines r r' \<Longrightarrow> refines (case r of Inl e \<Rightarrow> Inl (g e) | Inr x \<Rightarrow> Inr x) (case r' of Inl e \<Rightarrow> Inl (g e) | Inr x \<Rightarrow> Inr x)"
  by (auto simp: refines_def split: sum.splits)

lemma checkTargetBusinessTriggers_calm:
  "refines (case checkTargetBusinessTriggers env a ts d of None \<Rightarrow> Inr d' | Some e \<Rightarrow> Inl e)
     (case checkTargetBusinessTriggers (calm env) a ts d of None \<Rightarrow> Inr d' | Some e \<Rightarrow> Inl e)"
  by (auto simp: refines_def checkTargetBusinessTriggers_def Let_def no_faults_def split: option.splits)

lemma checkTransactionTriggers_calm:
  "refines (checkTransactionTriggers env a changes d) (checkTransactionTriggers (calm env) a changes d)"
  unfolding checkTransactionTriggers_def Let_def
  by (auto intro!: refines_intros exec_stmt_calm checkTargetBusinessTriggers_calm)

lemma change_calm:
  "refines (update_change env a ch d) (update_change (calm env) a ch d)"
  "refines (delete_change env a ch d) (delete_change (calm env) a ch d)"
  unfolding update_change_def delete_change_def calm_simps
  by (intro refines_intros dml_calm)+

lemma apply_change_calm: "refines (apply_change env a ch sd) (apply_change (calm env) a ch sd)"
  unfolding apply_change_def Let_def
  by (cases sd) (simp only: prod.case, intro refines_sum_map refines_intros dml_calm change_calm)

lemma apply_changes_calm: "refines (apply_changes env a chs sd) (apply_changes (calm env) a chs sd)"
proof (induction chs arbitrary: sd)
  case (Cons ch chs)
  then show ?case
    using apply_change_calm [of env a ch sd] by (auto simp: refines_def split: sum.splits)
qed simp

lemma checkpoint_of_upsert [simp]:
  "checkpoint_of a (s\<lparr>content := d, ckpts := upsert_position (a_job a) p m\<rparr>) = Some p"
  "checkpoint_of a (s\<lparr>ckpts := upsert_position (a_job a) p m\<rparr>) = Some p"
  by (cases p; simp add: checkpoint_of_def LoadBootstrapRecord_def upsert_position_def Let_def)+

lemma apply_body_Inr:
  assumes "apply_body env a changes p s = Inr (st, s')"
  obtains d1 st0 d2 where
    "checkTransactionTriggers env a changes (content s) = Inr d1"
    "apply_changes env a changes (zero_stats, d1) = Inr (st0, d2)"
    "st = st0\<lparr>st_position := p, LastEventAt := Some (env_now env)\<rparr>"
    "s' = s\<lparr>content := d2, ckpts := upsert_position (a_job a) p (ckpts s)\<rparr>"
  using assms
  by (auto simp: apply_body_def bind_res_Inr_iff saveCheckpointTx_def split: option.splits prod.splits)

lemma apply_body_effect:
  assumes "apply_body env a changes p s = Inr (st, s')"
  shows "tx_effect env a changes (content s) = Some (content s')" "checkpoint_of a s' = Some p"
    "st_position st = p" "\<forall>job. job \<noteq> a_job a \<longrightarrow> ckpts s' job = ckpts s job"
proof -
  from assms obtain d1 st0 d2 where *:
    "checkTransactionTriggers env a changes (content s) = Inr d1"
    "apply_changes env a changes (zero_stats, d1) = Inr (st0, d2)"
    "st = st0\<lparr>st_position := p, LastEventAt := Some (env_now env)\<rparr>"
    "s' = s\<lparr>content := d2, ckpts := upsert_position (a_job a) p (ckpts s)\<rparr>"
    by (rule apply_body_Inr)
  then show "tx_effect env a changes (content s) = Some (content s')" "st_position st = p"
    using checkTransactionTriggers_calm [of env a changes "content s"]
      apply_changes_calm [of env a changes "(zero_stats, d1)"]
    by (simp_all add: tx_effect_def refines_def)
  show "checkpoint_of a s' = Some p" unfolding *(4) by (rule checkpoint_of_upsert)
  show "\<forall>job. job \<noteq> a_job a \<longrightarrow> ckpts s' job = ckpts s job"
    using *(4) by (simp add: upsert_position_def Let_def)
qed

definition count_action :: "string \<Rightarrow> 'v Change list \<Rightarrow> int" where
  "count_action action changes = int (length (filter (\<lambda>ch. Action ch = action) changes))"

lemma apply_change_stats:
  assumes "apply_change env a ch (st, d) = Inr (st', d')"
  shows "st' = st\<lparr>Inserts := (if Action ch = ''insert'' then i64 (Inserts st + 1) else Inserts st),
     Updates := (if Action ch = ''update'' then i64 (Updates st + 1) else Updates st),
     Deletes := (if Action ch = ''delete'' then i64 (Deletes st + 1) else Deletes st)\<rparr>"
  using assms
  by (auto simp: apply_change_def Let_def bind_res_Inr_iff split: if_splits sum.splits)

lemma i64_step:
  "0 \<le> x \<Longrightarrow> 0 \<le> n \<Longrightarrow> x + 1 + n < 2 ^ 63 \<Longrightarrow> i64 (x + 1) = x + 1"
  by (rule i64_id) (simp add: in_i64_def i64_min_def i64_max_def)

lemma apply_changes_stats:
  assumes "apply_changes env a changes (st, d) = Inr (st', d')"
    and "0 \<le> Inserts st" "0 \<le> Updates st" "0 \<le> Deletes st"
    and "Inserts st + count_action ''insert'' changes < 2 ^ 63"
    and "Updates st + count_action ''update'' changes < 2 ^ 63"
    and "Deletes st + count_action ''delete'' changes < 2 ^ 63"
  shows "st' = st\<lparr>Inserts := Inserts st + count_action ''insert'' changes,
     Updates := Updates st + count_action ''update'' changes,
     Deletes := Deletes st + count_action ''delete'' changes\<rparr>"
  using assms
proof (induction changes arbitrary: st d)
  case Nil
  then show ?case by (simp add: count_action_def)
next
  case (Cons ch chs)
  then obtain st1 d1 where 1: "apply_change env a ch (st, d) = Inr (st1, d1)"
    and 2: "apply_changes env a chs (st1, d1) = Inr (st', d')"
    by (auto split: sum.splits)
  have bound: "\<And>x act. 0 \<le> x \<Longrightarrow> x + 1 + count_action act chs < 2 ^ 63 \<Longrightarrow> i64 (x + 1) = x + 1"
    by (rule i64_step) (simp_all add: count_action_def)
  have step: "count_action act (ch # chs) = (if Action ch = act then 1 else 0) + count_action act chs" for act
    by (simp add: count_action_def)
  have st1: "st1 = st\<lparr>Inserts := Inserts st + (if Action ch = ''insert'' then 1 else 0),
     Updates := Updates st + (if Action ch = ''update'' then 1 else 0),
     Deletes := Deletes st + (if Action ch = ''delete'' then 1 else 0)\<rparr>"
    unfolding apply_change_stats [OF 1]
    using Cons.prems(2-7) bound [of "Inserts st" "''insert''"] bound [of "Updates st" "''update''"]
      bound [of "Deletes st" "''delete''"]
    by (auto simp: step split: if_splits)
  from Cons.IH [OF 2] Cons.prems(2-7) st1 show ?case
    by (simp add: step split: if_splits)
qed

text \<open>A small environment in which every statement succeeds, for the witnesses: the tables' content is
  the list of the statements executed.\<close>

definition demo_env :: "(int, string list, unit) pg_env" where
  "demo_env = \<lparr>env_convert = (\<lambda>v _ _. v), env_deep_equal = (=), env_row_hash = (\<lambda>_. ''h''),
     env_exec = (\<lambda>sql vals d. Inr (Inr 1, sql # d)), env_triggers = (\<lambda>_ _. []),
     env_faults = no_faults, env_now = 7\<rparr>"

definition demo_applier :: applier where
  "demo_applier = \<lparr>a_schema = ''public'', a_job = ''job'', a_lower = True\<rparr>"

definition demo_table :: TableInfo where
  "demo_table = \<lparr>Name = ''T'', Engine = ''InnoDB'', Columns = [''id'', ''n''],
     ColumnTypes = [''int'', ''int''], PrimaryKey = [0], AutoIncrement = [],
     LocatorStrategy = ''primary_key'', LocatorIndex = ''PRIMARY'', LocatorColumns = [''id''],
     UniqueIndexes = []\<rparr>"

definition demo_changes :: "int Change list" where
  "demo_changes = [\<lparr>Action = ''insert'', Table = demo_table, Before = [], After = [1, 2]\<rparr>,
     \<lparr>Action = ''update'', Table = demo_table, Before = [1, 2], After = [1, 3]\<rparr>]"

definition demo_db :: "string list db" where
  "demo_db = \<lparr>ckpts = Map.empty, content = []\<rparr>"

lemma demo_apply_ok: "is_ok (fst (Apply demo_env demo_applier demo_changes zero_position demo_db))"
  by code_simp

section \<open>Properties\<close>

text \<open>C6: Applying a source transaction is atomic. Either nothing of it is in the target and an error is
  returned, or all its changes and its checkpoint are, together: the tables are exactly what the
  changes make of them, the job's checkpoint is the transaction's position, and no other job's
  checkpoint row has changed. In the second case an error is returned only by the commit itself.\<close>

theorem Apply_atomic:
  assumes "Apply env a changes p s = (r, s')"
  shows "(s' = s \<and> \<not> is_ok r) \<or>
    (tx_effect env a changes (content s) = Some (content s') \<and> checkpoint_of a s' = Some p \<and>
     (\<forall>job. job \<noteq> a_job a \<longrightarrow> ckpts s' job = ckpts s job) \<and> (is_ok r \<or> f_commit (env_faults env) \<noteq> None))"
proof -
  from assms have "with_tx env (apply_body env a changes p) s = (r, s')" by (simp add: Apply_def)
  then show ?thesis
  proof (cases rule: with_tx_cases)
    case (rolled_back e)
    then show ?thesis by simp
  next
    case (durable st)
    then show ?thesis using apply_body_effect [OF durable(1)] by blast
  qed
qed

theorem Apply_atomic_witness:
  "(snd (Apply demo_env demo_applier demo_changes zero_position demo_db) = demo_db \<and>
      \<not> is_ok (fst (Apply demo_env demo_applier demo_changes zero_position demo_db))) \<or>
    (tx_effect demo_env demo_applier demo_changes (content demo_db) =
       Some (content (snd (Apply demo_env demo_applier demo_changes zero_position demo_db))) \<and>
     checkpoint_of demo_applier (snd (Apply demo_env demo_applier demo_changes zero_position demo_db)) =
       Some zero_position \<and>
     (\<forall>job. job \<noteq> a_job demo_applier \<longrightarrow>
        ckpts (snd (Apply demo_env demo_applier demo_changes zero_position demo_db)) job = ckpts demo_db job) \<and>
     (is_ok (fst (Apply demo_env demo_applier demo_changes zero_position demo_db)) \<or>
      f_commit (env_faults demo_env) \<noteq> None))"
  by (rule Apply_atomic) (rule prod.collapse [symmetric])

text \<open>The statistics of an applied transaction count its changes by kind, name the position of the
  transaction, and a job whose checkpoint row was absent or completed then loads that position.\<close>

theorem Apply_success:
  assumes "Apply env a changes p s = (Inr st, s')"
    and "int (length changes) < 2 ^ 63"
    and "ckpts s (a_job a) = None \<or> (\<exists>row. ckpts s (a_job a) = Some row \<and> ck_state row = ''completed'')"
  shows "Inserts st = count_action ''insert'' changes \<and> Updates st = count_action ''update'' changes \<and>
    Deletes st = count_action ''delete'' changes \<and> st_position st = p \<and>
    LoadCheckpoint a s' = Inr (Some p)"
proof -
  from assms(1) have body: "apply_body env a changes p s = Inr (st, s')"
    unfolding Apply_def by (rule with_tx_Inr)
  then obtain d1 st0 d2 where *:
    "apply_changes env a changes (zero_stats, d1) = Inr (st0, d2)"
    "st = st0\<lparr>st_position := p, LastEventAt := Some (env_now env)\<rparr>"
    "s' = s\<lparr>content := d2, ckpts := upsert_position (a_job a) p (ckpts s)\<rparr>"
    by (rule apply_body_Inr)
  have bounds: "count_action act changes < 2 ^ 63" for act
  proof -
    have "count_action act changes \<le> int (length changes)"
      by (simp add: count_action_def)
    with assms(2) show ?thesis by linarith
  qed
  have "st0 = zero_stats\<lparr>Inserts := count_action ''insert'' changes,
      Updates := count_action ''update'' changes, Deletes := count_action ''delete'' changes\<rparr>"
    using apply_changes_stats [OF *(1)] bounds by (simp add: zero_stats_def)
  moreover have "LoadCheckpoint a s' = Inr (Some p)"
    using assms(3) *(3)
    by (cases p)
      (auto simp: LoadCheckpoint_def LoadBootstrapRecord_def upsert_position_def Let_def default_row_def)
  ultimately show ?thesis using *(2) by simp
qed

theorem Apply_success_witness:
  "case Apply demo_env demo_applier demo_changes zero_position demo_db of
     (Inl e, s') \<Rightarrow> False
   | (Inr st, s') \<Rightarrow>
       Inserts st = count_action ''insert'' demo_changes \<and> Updates st = count_action ''update'' demo_changes \<and>
       Deletes st = count_action ''delete'' demo_changes \<and> st_position st = zero_position \<and>
       LoadCheckpoint demo_applier s' = (Inr (Some zero_position) :: unit cdc_error + Position option)"
proof -
  obtain r s' where *: "Apply demo_env demo_applier demo_changes zero_position demo_db = (r, s')"
    by (rule prod.exhaust)
  then obtain st where st: "r = Inr st" using demo_apply_ok by (cases r) auto
  show ?thesis
    using Apply_success [OF * [unfolded st]] * st by (simp add: demo_changes_def demo_db_def)
qed

end
