(* ===== verification/CdcDameng.thy ===== *)
theory CdcDameng
  imports CdcDamengDml CdcPostgres
begin

text \<open>
  The DaMeng applier's transactions (\<^verbatim>\<open>dameng.go\<close>, \<^verbatim>\<open>dameng_checkpoint.go\<close>): the lock mode
  and the trigger check, the application of one source transaction with its checkpoint on one physical
  session, the clean-up of that session, and the checkpoint row. JOB_ID is the primary key of the checkpoint
  table, so a statement on a job's row affects one row or none. The schema name of the applier is already
  in upper case (\<open>newDamengApplier\<close>).
\<close>

section \<open>The checkpoint table\<close>

record damengCleanupItem =
  ci_table :: string
  ci_constraint :: string
  ci_object_id :: int
  ci_done :: bool

record damengCleanupPlan =
  cp_manifest :: string
  cp_items :: "damengCleanupItem list"

record dm_row = ckpt_row +
  ck_plan :: "damengCleanupPlan option"

definition dm_default_row :: dm_row where
  "dm_default_row = ckpt_row.extend default_row \<lparr>ck_plan = None\<rparr>"

record 'd dm_db =
  dm_ckpts :: "string \<rightharpoonup> dm_row"
  dm_content :: 'd

text \<open>A call to the server that fails or not.\<close>

definition dm_ok :: "('o, 'd, 'e) dm_env \<Rightarrow> dm_call \<Rightarrow> 'e cdc_error + unit" where
  "dm_ok env c = (case fd_call (dm_faults env) c of None \<Rightarrow> Inr () | Some e \<Rightarrow> Inl (Driver e))"

definition put_position :: "Position \<Rightarrow> dm_row \<Rightarrow> dm_row" where
  "put_position p row = row\<lparr>ck_file := File p, ck_position := uint (Pos p), ck_gtid := GTID p\<rparr>"

text \<open>\<open>UPDATE ... WHERE BOOTSTRAP_STATE='completed'\<close>, then \<open>COUNT(*)\<close>, then \<open>INSERT\<close>.\<close>

definition dm_saveCheckpointTx ::
  "('o, 'd, 'e) dm_env \<Rightarrow> applier \<Rightarrow> Position \<Rightarrow> (string \<rightharpoonup> dm_row) \<Rightarrow> 'e cdc_error + (string \<rightharpoonup> dm_row)" where
  "dm_saveCheckpointTx env a p m =
     bind_res (dm_ok env CallUpdateCheckpoint) (\<lambda>_.
       case m (a_job a) of
         Some row \<Rightarrow>
           if ck_state row = ''completed'' then Inr (m(a_job a \<mapsto> put_position p row))
           else bind_res (dm_ok env CallCountCheckpoint) (\<lambda>_. Inl (Refused BootstrapPending))
       | None \<Rightarrow>
           bind_res (dm_ok env CallCountCheckpoint) (\<lambda>_.
             bind_res (dm_ok env CallInsertCheckpoint) (\<lambda>_. Inr (m(a_job a \<mapsto> put_position p dm_default_row)))))"

definition dm_with_tx ::
  "('o, 'd, 'e) dm_env \<Rightarrow> ('d dm_db \<Rightarrow> 'e cdc_error + 'd dm_db) \<Rightarrow> 'd dm_db \<Rightarrow> ('e cdc_error + unit) \<times> 'd dm_db" where
  "dm_with_tx env body s =
     (case bind_res (dm_ok env CallBegin) (\<lambda>_. body s) of
        Inl e \<Rightarrow> (Inl e, s)
      | Inr s' \<Rightarrow>
          (case fd_commit (dm_faults env) of
             None \<Rightarrow> (Inr (), s')
           | Some (e, durable) \<Rightarrow> (Inl (Driver e), if durable then s' else s)))"

definition dm_SaveCheckpoint ::
  "('o, 'd, 'e) dm_env \<Rightarrow> applier \<Rightarrow> Position \<Rightarrow> 'd dm_db \<Rightarrow> ('e cdc_error + unit) \<times> 'd dm_db" where
  "dm_SaveCheckpoint env a p s =
     dm_with_tx env (\<lambda>s. bind_res (dm_saveCheckpointTx env a p (dm_ckpts s)) (\<lambda>m. Inr (s\<lparr>dm_ckpts := m\<rparr>))) s"

definition record_of :: "dm_row \<Rightarrow> BootstrapRecord" where
  "record_of r = \<lparr>br_state = ck_state r,
     br_position = \<lparr>File = ck_file r, Pos = word_of_int (ck_position r), GTID = ck_gtid r\<rparr>,
     br_effective = ck_effective r, br_excluded = ck_excluded r, br_manifest_hash = ck_hash r,
     br_failed = ck_failed r, br_report_version = ck_report r,
     br_locator_version = ck_locator_version r, br_locators = ck_locators r\<rparr>"

text \<open>The BIGINT column may hold what is no offset: that is an error, not a truncation.\<close>

definition dm_LoadBootstrapRecord ::
  "('o, 'd, 'e) dm_env \<Rightarrow> applier \<Rightarrow> 'd dm_db \<Rightarrow> 'e cdc_error + BootstrapRecord option" where
  "dm_LoadBootstrapRecord env a s =
     bind_res (dm_ok env CallLoadRecord) (\<lambda>_.
       case dm_ckpts s (a_job a) of
         None \<Rightarrow> Inr None
       | Some r \<Rightarrow> if ck_position r < 0 \<or> ck_position r > 2 ^ 32 - 1
                  then Inl (Refused (BadBinlogPosition (ck_position r))) else Inr (Some (record_of r)))"

definition dm_LoadCheckpoint ::
  "('o, 'd, 'e) dm_env \<Rightarrow> applier \<Rightarrow> 'd dm_db \<Rightarrow> 'e cdc_error + Position option" where
  "dm_LoadCheckpoint env a s =
     bind_res (dm_LoadBootstrapRecord env a s) (\<lambda>orec.
       case orec of
         None \<Rightarrow> Inr None
       | Some r \<Rightarrow> if br_state r \<noteq> ''completed'' then Inl (NotCompleted (br_state r))
                  else Inr (Some (br_position r)))"

section \<open>Locks and triggers\<close>

definition damengCDCWriteLock :: "('o, 'd, 'e) dm_env \<Rightarrow> 'd \<Rightarrow> 'e cdc_error + string" where
  "damengCDCWriteLock env d =
     bind_res (dm_ok env CallLockMode) (\<lambda>_.
       case dm_lock_mode env d of
         None \<Rightarrow> Inr ''EXCLUSIVE''
       | Some v \<Rightarrow> if trim_space v \<noteq> ''0'' then Inl (Refused TriggerLockSetting) else Inr ''ROW EXCLUSIVE'')"

definition trigger_active :: "string \<Rightarrow> bool" where
  "trigger_active status =
     (let st = to_upper (trim_space status) in st \<noteq> ''N'' \<and> st \<noteq> ''DISABLED'')"

definition checkDamengEnabledTriggers ::
  "('o, 'd, 'e) dm_env \<Rightarrow> applier \<Rightarrow> string list \<Rightarrow> 'd \<Rightarrow> 'e cdc_error + unit" where
  "checkDamengEnabledTriggers env a tables d =
     (let selected = map (dm_name a) tables in
      bind_res (dm_ok env CallTriggers) (\<lambda>_.
        case List.find (\<lambda>(table, trg, status). table \<in> set selected \<and> trigger_active status)
               (dm_triggers env (a_schema a) d) of
          None \<Rightarrow> Inr ()
        | Some (table, trg, status) \<Rightarrow> Inl (Refused (TriggerEnabled (a_schema a) table trg))))"

definition checkDamengBusinessTriggers ::
  "('o, 'd, 'e) dm_env \<Rightarrow> applier \<Rightarrow> TableInfo list \<Rightarrow> 'd \<Rightarrow> 'e cdc_error option" where
  "checkDamengBusinessTriggers env a tables d =
     (case bind_res (damengCDCWriteLock env d) (\<lambda>mode. checkDamengEnabledTriggers env a (map Name tables) d) of
        Inl e \<Rightarrow> Some e | Inr u \<Rightarrow> None)"

definition load_metadata :: "('o, 'd, 'e) dm_env \<Rightarrow> applier \<Rightarrow> 'd \<Rightarrow> 'e cdc_error + dm_table list" where
  "load_metadata env a d =
     bind_res (dm_ok env CallMetadata) (\<lambda>_.
       case dm_catalog env (a_schema a) d of
         (tables, cols, idx, idx_cols) \<Rightarrow> Inr (loadDamengTargetSchemaMetadata (a_schema a) tables cols idx idx_cols))"

section \<open>Applying one source transaction\<close>

fun check_actions :: "'v Change list \<Rightarrow> 'e cdc_error + unit" where
  "check_actions [] = Inr ()"
| "check_actions (ch # chs) =
     (if Action ch \<noteq> ''insert'' \<and> Action ch \<noteq> ''update'' \<and> Action ch \<noteq> ''delete''
      then Inl (Refused (UnknownAction (Action ch))) else check_actions chs)"

definition lock_order :: "applier \<Rightarrow> 'v Change list \<Rightarrow> string list" where
  "lock_order a changes =
     sort_by (\<lambda>x y. str_less (dm_qualified a x) (dm_qualified a y)) (remdups (map (\<lambda>ch. Name (Table ch)) changes))"

fun lock_tables :: "('o, 'd, 'e) dm_env \<Rightarrow> applier \<Rightarrow> string \<Rightarrow> string list \<Rightarrow> (unit, 'd dm_tx, 'e) failing" where
  "lock_tables env a mode [] = give (Inr ())"
| "lock_tables env a mode (t # ts) =
     then_do (dm_exec_stmt env (''LOCK TABLE '' @ dm_qualified a t @ '' IN '' @ mode @ '' MODE'') [])
       (\<lambda>n. lock_tables env a mode ts)"

definition count_change :: "string \<Rightarrow> Stats \<Rightarrow> Stats" where
  "count_change action st =
     (if action = ''insert'' then st\<lparr>Inserts := i64 (Inserts st + 1)\<rparr>
      else if action = ''update'' then st\<lparr>Updates := i64 (Updates st + 1)\<rparr>
      else if action = ''delete'' then st\<lparr>Deletes := i64 (Deletes st + 1)\<rparr> else st)"

definition wrap_step :: "string \<Rightarrow> string \<Rightarrow> ('a, 's, 'e) failing \<Rightarrow> ('a, 's, 'e) failing" where
  "wrap_step action t m s = (case m s of (Inl e, s') \<Rightarrow> (Inl (wrap_apply action t e), s') | (Inr x, s') \<Rightarrow> (Inr x, s'))"

definition dm_apply_change ::
  "('o, 'd, 'e) dm_env \<Rightarrow> applier \<Rightarrow> dm_table list \<Rightarrow> 'o gval Change \<Rightarrow> Stats \<Rightarrow> (Stats, 'd dm_tx, 'e) failing" where
  "dm_apply_change env a meta ch st =
     (case find_dm_table (dm_name a (Name (Table ch))) meta of
        None \<Rightarrow> give (Inl (Refused (TargetTableMissing (dm_qualified a (Name (Table ch))))))
      | Some target \<Rightarrow>
          then_do (give (newDamengRow a (Table ch) target)) (\<lambda>r.
            then_do (wrap_step (Action ch) (Name (Table ch)) (dm_apply_row env r ch)) (\<lambda>_.
              give (Inr (count_change (Action ch) st)))))"

fun dm_apply_changes ::
  "('o, 'd, 'e) dm_env \<Rightarrow> applier \<Rightarrow> dm_table list \<Rightarrow> 'o gval Change list \<Rightarrow> Stats \<Rightarrow> (Stats, 'd dm_tx, 'e) failing" where
  "dm_apply_changes env a meta [] st = give (Inr st)"
| "dm_apply_changes env a meta (ch # chs) st =
     then_do (dm_apply_change env a meta ch st) (\<lambda>st'. dm_apply_changes env a meta chs st')"

definition reading :: "('d \<Rightarrow> 'e cdc_error + 'a) \<Rightarrow> ('a, 'd dm_tx, 'e) failing" where
  "reading f s = (f (tx_data s), s)"

text \<open>The transaction from its begin to \<open>setIdentity("")\<close>.\<close>

definition dm_body :: "('o, 'd, 'e) dm_env \<Rightarrow> applier \<Rightarrow> 'o gval Change list \<Rightarrow> (Stats, 'd dm_tx, 'e) failing" where
  "dm_body env a changes =
     (let tables = lock_order a changes in
      then_do (if tables = [] then give (Inr []) else reading (damengCDCWriteLock env)) (\<lambda>mode.
      then_do (lock_tables env a mode tables) (\<lambda>_.
      then_do (if tables = [] then give (Inr []) else reading (\<lambda>d.
          bind_res (checkDamengEnabledTriggers env a tables d) (\<lambda>_. load_metadata env a d))) (\<lambda>meta.
      then_do (dm_apply_changes env a meta changes zero_stats) (\<lambda>st.
      then_do (setIdentity env []) (\<lambda>_. give (Inr st)))))))"

text \<open>What becomes of the connection: back in the pool, its session in some state, or discarded because
  the driver was told that it is bad.\<close>

datatype conn = Returned "string option" | Discarded

fun join_errors :: "'e cdc_error \<Rightarrow> 'e cdc_error \<Rightarrow> 'e cdc_error" where
  "join_errors Panic e' = Panic"
| "join_errors e e' = Joined e e'"

text \<open>The deferred clean-up after an error.\<close>

definition cleanup :: "('o, 'd, 'e) dm_env \<Rightarrow> 'e cdc_error \<Rightarrow> 'd dm_tx \<Rightarrow> 'e cdc_error \<times> conn" where
  "cleanup env e tx =
     (if tx_identity tx = [] then (e, Returned (tx_session tx))
      else (case fd_cleanup (dm_faults env) (tx_identity tx) (tx_session tx) of
              None \<Rightarrow> (e, Returned (switch_session (tx_identity tx) False (tx_session tx)))
            | Some (e', took) \<Rightarrow> (join_errors e (Driver e'), Discarded)))"

definition dm_Apply_on ::
  "('o, 'd, 'e) dm_env \<Rightarrow> applier \<Rightarrow> 'o gval Change list \<Rightarrow> Position \<Rightarrow> string option \<Rightarrow> 'd dm_db
     \<Rightarrow> ('e cdc_error + Stats) \<times> 'd dm_db \<times> conn" where
  "dm_Apply_on env a changes p sess s =
     (case bind_res (check_actions changes) (\<lambda>_. bind_res (dm_ok env CallConn) (\<lambda>_. dm_ok env CallBegin)) of
        Inl e \<Rightarrow> (Inl e, s, Returned sess)
      | Inr u \<Rightarrow>
          (case dm_body env a changes \<lparr>tx_data = dm_content s, tx_session = sess, tx_identity = []\<rparr> of
             (Inl e, tx) \<Rightarrow> (let (e', c) = cleanup env e tx in (Inl e', s, c))
           | (Inr st, tx) \<Rightarrow>
               (case dm_saveCheckpointTx env a p (dm_ckpts s) of
                  Inl e \<Rightarrow> (let (e', c) = cleanup env e tx in (Inl e', s, c))
                | Inr m \<Rightarrow>
                    (let s' = \<lparr>dm_ckpts = m, dm_content = tx_data tx\<rparr> in
                     case fd_commit (dm_faults env) of
                       Some (e, durable) \<Rightarrow>
                         (let (e', c) = cleanup env (Driver e) tx in (Inl e', if durable then s' else s, c))
                     | None \<Rightarrow> (Inr (st\<lparr>st_position := p, LastEventAt := Some (dm_now env)\<rparr>), s', Returned (tx_session tx))))))"

text \<open>\<open>Apply\<close> on a connection whose session has IDENTITY_INSERT off everywhere.\<close>

definition dm_Apply ::
  "('o, 'd, 'e) dm_env \<Rightarrow> applier \<Rightarrow> 'o gval Change list \<Rightarrow> Position \<Rightarrow> 'd dm_db \<Rightarrow> ('e cdc_error + Stats) \<times> 'd dm_db" where
  "dm_Apply env a changes p s = (case dm_Apply_on env a changes p None s of (r, s', c) \<Rightarrow> (r, s'))"

text \<open>\<open>Apply\<close> on the pool's connection, whatever an earlier call left in its session; a discarded
  connection is replaced by a new one.\<close>

definition dm_Apply_pooled ::
  "('o, 'd, 'e) dm_env \<Rightarrow> applier \<Rightarrow> 'o gval Change list \<Rightarrow> Position \<Rightarrow> string option \<times> 'd dm_db
     \<Rightarrow> ('e cdc_error + Stats) \<times> string option \<times> 'd dm_db" where
  "dm_Apply_pooled env a changes p ps =
     (case dm_Apply_on env a changes p (fst ps) (snd ps) of
        (r, s', Returned sess) \<Rightarrow> (r, sess, s') | (r, s', Discarded) \<Rightarrow> (r, None, s'))"

section \<open>Facts\<close>

lemma dm_ok_calm: "refines (dm_ok env c) (dm_ok (dm_calm env) c)"
  by (auto simp: refines_def dm_ok_def split: option.splits)

lemma refines_option: "(\<And>x. refines (f x) (g x)) \<Longrightarrow> refines a b \<Longrightarrow>
    refines (case v of None \<Rightarrow> a | Some x \<Rightarrow> f x) (case v of None \<Rightarrow> b | Some x \<Rightarrow> g x)"
  by (cases v) auto

lemma reading_calm: "(\<And>d. refines (f d) (g d)) \<Longrightarrow> refines_step (reading f) (reading g)"
  by (auto simp: refines_step_def reading_def refines_def)

lemma reads_calm:
  "refines (damengCDCWriteLock env d) (damengCDCWriteLock (dm_calm env) d)"
  "refines (checkDamengEnabledTriggers env a tables d) (checkDamengEnabledTriggers (dm_calm env) a tables d)"
  "refines (load_metadata env a d) (load_metadata (dm_calm env) a d)"
  unfolding damengCDCWriteLock_def checkDamengEnabledTriggers_def load_metadata_def Let_def dm_calm_simps
  by (intro refines_intros refines_option dm_ok_calm)+

lemma wrap_step_calm: "refines_step m m' \<Longrightarrow> refines_step (wrap_step x y m) (wrap_step x y m')"
  by (fastforce simp: refines_step_def wrap_step_def split: prod.splits sum.splits)

lemma wrap_step_keeps: "keeps P m \<Longrightarrow> keeps P (wrap_step x y m)"
  unfolding keeps_def wrap_step_def by (fastforce split: prod.splits sum.splits)

lemma lock_tables_calm: "refines_step (lock_tables env a mode ts) (lock_tables (dm_calm env) a mode ts)"
  by (induction ts) (auto intro: refines_step_intros)

lemma dm_apply_change_calm:
  "refines_step (dm_apply_change env a meta ch st) (dm_apply_change (dm_calm env) a meta ch st)"
  unfolding dm_apply_change_def
  by (cases "find_dm_table (dm_name a (Name (Table ch))) meta")
    (auto intro!: refines_step_intros wrap_step_calm dm_apply_row_calm)

lemma dm_apply_changes_calm:
  "refines_step (dm_apply_changes env a meta chs st) (dm_apply_changes (dm_calm env) a meta chs st)"
  by (induction chs arbitrary: st) (auto intro: refines_step_refl refines_step_then dm_apply_change_calm)

lemma dm_body_calm: "refines_step (dm_body env a changes) (dm_body (dm_calm env) a changes)"
  unfolding dm_body_def Let_def
  by (intro refines_step_intros lock_tables_calm dm_apply_changes_calm reading_calm reads_calm refines_bind)

lemma reading_keeps [simp]: "keeps P (reading f)"
  by (simp add: keeps_def reading_def)

lemma lock_tables_tracked: "keeps session_tracked (lock_tables env a mode ts)"
  by (induction ts) (auto intro: tracked_intros)

lemma dm_apply_changes_tracked: "keeps session_tracked (dm_apply_changes env a meta chs st)"
proof (induction chs arbitrary: st)
  case (Cons ch chs)
  have "keeps session_tracked (dm_apply_change env a meta ch st)" for st
    unfolding dm_apply_change_def
    by (cases "find_dm_table (dm_name a (Name (Table ch))) meta")
      (auto intro!: keeps_then wrap_step_keeps dm_apply_row_tracked)
  then show ?case using Cons by (auto intro: keeps_then)
qed simp

lemma dm_body_tracked: "keeps session_tracked (dm_body env a changes)"
  unfolding dm_body_def Let_def
  by (intro tracked_intros reading_keeps lock_tables_tracked dm_apply_changes_tracked)

lemma dm_body_off: "dm_body env a changes s = (Inr st, s') \<Longrightarrow> tx_identity s' = []"
  by (auto simp: dm_body_def Let_def then_do_Inr dest: setIdentity_off)

text \<open>The effect of the changes of one transaction on the target's tables without faults.\<close>

definition dm_effect :: "('o, 'd, 'e) dm_env \<Rightarrow> applier \<Rightarrow> 'o gval Change list \<Rightarrow> 'd \<Rightarrow> 'd option" where
  "dm_effect env a changes d =
     (case check_actions changes :: 'e cdc_error + unit of
        Inl e \<Rightarrow> None
      | Inr u \<Rightarrow> (case dm_body (dm_calm env) a changes \<lparr>tx_data = d, tx_session = None, tx_identity = []\<rparr> of
          (Inl e, tx) \<Rightarrow> None | (Inr st, tx) \<Rightarrow> Some (tx_data tx)))"

definition dm_checkpoint_of :: "applier \<Rightarrow> 'd dm_db \<Rightarrow> Position option" where
  "dm_checkpoint_of a s = map_option (\<lambda>r. br_position (record_of r)) (dm_ckpts s (a_job a))"

definition dm_boot_state :: "applier \<Rightarrow> 'd dm_db \<Rightarrow> string option" where
  "dm_boot_state a s = map_option ck_state (dm_ckpts s (a_job a))"

lemma put_position_record [simp]:
  "br_position (record_of (put_position p r)) = p" "ck_state (put_position p r) = ck_state r"
  by (cases p; simp add: put_position_def record_of_def)+

lemma dm_default_row_simps [simp]: "ck_state dm_default_row = ''completed''" "ck_plan dm_default_row = None"
  by (simp_all add: dm_default_row_def default_row_def ckpt_row.extend_def)

lemma dm_saveCheckpointTx_Inr:
  assumes "dm_saveCheckpointTx env a p m = Inr m'"
  obtains row where "m' = m(a_job a \<mapsto> put_position p row)" "ck_state row = ''completed''"
    "m (a_job a) = Some row \<or> m (a_job a) = None"
  using assms
  by (auto simp: dm_saveCheckpointTx_def bind_res_Inr_iff split: option.splits if_splits)

lemma dm_Apply_on_cases:
  fixes env :: "('o, 'd, 'e) dm_env"
  assumes "dm_Apply_on env a changes p sess s = (r, s', c)"
  obtains (refused) e where "r = Inl e" "s' = s" "c = Returned sess"
    | (failed) e0 e tx where "r = Inl e" "s' = s" "(e, c) = cleanup env e0 tx"
        "tx = snd (dm_body env a changes \<lparr>tx_data = dm_content s, tx_session = sess, tx_identity = []\<rparr>)"
    | (written) st tx m where "check_actions changes = (Inr () :: 'e cdc_error + unit)"
        "dm_body env a changes \<lparr>tx_data = dm_content s, tx_session = sess, tx_identity = []\<rparr> = (Inr st, tx)"
        "dm_saveCheckpointTx env a p (dm_ckpts s) = Inr m" "s' = \<lparr>dm_ckpts = m, dm_content = tx_data tx\<rparr>"
        "c = Returned (tx_session tx)"
        "r = Inr (st\<lparr>st_position := p, LastEventAt := Some (dm_now env)\<rparr>) \<or>
         (\<exists>e. fd_commit (dm_faults env) = Some (e, True) \<and> r = Inl (Driver e))"
proof -
  let ?tx0 = "\<lparr>tx_data = dm_content s, tx_session = sess, tx_identity = []\<rparr>"
  show thesis
  proof (cases "bind_res (check_actions changes) (\<lambda>_. bind_res (dm_ok env CallConn) (\<lambda>_. dm_ok env CallBegin))")
    case (Inl e)
    then show thesis using assms by (intro refused) (auto simp: dm_Apply_on_def)
  next
    case (Inr u)
    then have chk: "check_actions changes = (Inr () :: 'e cdc_error + unit)" by (auto simp: bind_res_Inr_iff)
    obtain q tx where body: "dm_body env a changes ?tx0 = (q, tx)" by (rule prod.exhaust)
    show thesis
    proof (cases q)
      case (Inl e)
      then show thesis using assms Inr body by (intro failed [of _ e tx]) (auto simp: dm_Apply_on_def split: prod.splits)
    next
      case st: (Inr st)
      have off: "tx_identity tx = []" using body st dm_body_off by simp
      show thesis
      proof (cases "dm_saveCheckpointTx env a p (dm_ckpts s)")
        case (Inl e)
        then show thesis
          using assms Inr body st \<open>bind_res _ _ = Inr u\<close>
          by (intro failed [of _ e tx]) (auto simp: dm_Apply_on_def split: prod.splits)
      next
        case m: (Inr m)
        note A = assms [unfolded dm_Apply_on_def \<open>bind_res _ _ = Inr u\<close> body st m, simplified]
        show thesis
        proof (cases "fd_commit (dm_faults env)")
          case None
          then show thesis using A chk body st m by (intro written) auto
        next
          case (Some ed)
          obtain e durable where ed: "ed = (e, durable)" by (rule prod.exhaust)
          show thesis
          proof (cases durable)
            case True
            then show thesis using A Some ed chk body st m off by (intro written) (auto simp: cleanup_def)
          next
            case False
            then show thesis using A Some ed body st off
              by (intro failed [of _ "Driver e" tx]) (auto simp: cleanup_def)
          qed
        qed
      qed
    qed
  qed
qed

lemma session_at_start [simp]: "session_tracked \<lparr>tx_data = d, tx_session = None, tx_identity = []\<rparr>"
  by (simp add: session_tracked_def)

lemma dm_body_session:
  assumes "dm_body env a changes \<lparr>tx_data = d, tx_session = None, tx_identity = []\<rparr> = (q, tx)"
  shows "session_tracked tx"
  using dm_body_tracked [of env a changes] assms session_at_start [of d] unfolding keeps_def by (metis snd_conv)

lemma dm_Apply_on_clean:
  assumes "dm_Apply_on env a changes p None s = (r, s', c)"
  shows "c = Returned None \<or> (\<exists>e. r = Inl e) \<and> c = Discarded"
  using assms
proof (cases rule: dm_Apply_on_cases)
  case (failed e0 e tx)
  then have "session_tracked tx" by (metis dm_body_session prod.collapse)
  then show ?thesis
    by (cases rule: session_tracked_cases)
      (use failed(1,3) in \<open>auto simp: cleanup_def switch_session_def split: if_splits option.splits prod.splits\<close>)
next
  case (written st tx m)
  then have "tx_session tx = None"
    using dm_body_session [OF written(2)] dm_body_off [OF written(2)] by (auto simp: session_tracked_def)
  then show ?thesis using written(5) by simp
qed simp

lemma dm_Apply_law:
  assumes "dm_Apply env a changes p s = (r, s')"
  shows "(s' = s \<and> \<not> is_ok r) \<or>
    (dm_effect env a changes (dm_content s) = Some (dm_content s') \<and> dm_checkpoint_of a s' = Some p \<and>
     dm_boot_state a s' = Some ''completed'' \<and> (\<forall>job. job \<noteq> a_job a \<longrightarrow> dm_ckpts s' job = dm_ckpts s job) \<and>
     (is_ok r \<or> fd_commit (dm_faults env) \<noteq> None))"
proof -
  obtain c where "dm_Apply_on env a changes p None s = (r, s', c)"
    using assms by (auto simp: dm_Apply_def split: prod.splits)
  then show ?thesis
  proof (cases rule: dm_Apply_on_cases)
    case (written st tx m)
    have "dm_body (dm_calm env) a changes \<lparr>tx_data = dm_content s, tx_session = None, tx_identity = []\<rparr> = (Inr st, tx)"
      using dm_body_calm [of env a changes] written(2) by (simp add: refines_step_def)
    then have "dm_effect env a changes (dm_content s) = Some (dm_content s')"
      using written(1,4) by (simp add: dm_effect_def)
    moreover obtain row where "m = (dm_ckpts s)(a_job a \<mapsto> put_position p row)" "ck_state row = ''completed''"
      using written(3) by (rule dm_saveCheckpointTx_Inr)
    ultimately show ?thesis
      using written(4,6) by (auto simp: dm_checkpoint_of_def dm_boot_state_def)
  qed simp_all
qed

lemma dm_Apply_position: "dm_Apply env a changes p s = (Inr st, s') \<Longrightarrow> st_position st = p"
proof -
  assume "dm_Apply env a changes p s = (Inr st, s')"
  then obtain c where "dm_Apply_on env a changes p None s = (Inr st, s', c)"
    by (auto simp: dm_Apply_def split: prod.splits)
  then show "st_position st = p" by (cases rule: dm_Apply_on_cases) auto
qed

text \<open>A bootstrap that is not completed is never advanced.\<close>

lemma dm_saveCheckpointTx_pending:
  "dm_ckpts s (a_job a) = Some row \<Longrightarrow> ck_state row \<noteq> ''completed'' \<Longrightarrow> dm_saveCheckpointTx env a p (dm_ckpts s) \<noteq> Inr m"
  by (auto elim!: dm_saveCheckpointTx_Inr)

section \<open>Properties\<close>

text \<open>C5: IDENTITY_INSERT never leaks from one transaction into another. Over any sequence of applied
  transactions on one pooled connection, with any faults (a SET IDENTITY_INSERT that fails and takes effect
  all the same, a clean-up that fails, a lost commit), running each call in whatever session the previous one
  left is the same as running each on a fresh session, and the session ends with IDENTITY_INSERT off.\<close>

theorem dameng_identity_never_leaks:
  "foldl (\<lambda>ps (env, changes, p). snd (dm_Apply_pooled env a changes p ps)) (None, s) calls =
     (None, foldl (\<lambda>s (env, changes, p). snd (dm_Apply env a changes p s)) s calls)"
proof (induction calls arbitrary: s)
  case (Cons call calls)
  obtain env changes p where call: "call = (env, changes, p)" by (cases call)
  obtain r s' c where on: "dm_Apply_on env a changes p None s = (r, s', c)" by (rule prod_cases3)
  have "dm_Apply_pooled env a changes p (None, s) = (r, None, s')"
    using dm_Apply_on_clean [OF on] on by (auto simp: dm_Apply_pooled_def)
  moreover have "dm_Apply env a changes p s = (r, s')" using on by (simp add: dm_Apply_def)
  ultimately show ?case using Cons [of s'] by (simp add: call)
qed simp

text \<open>Applying a source transaction to DaMeng is atomic: either an error is returned and nothing has
  changed, or the tables are exactly what the changes make of them, the job's completed checkpoint is the
  transaction's position and no other job's row has changed, and then an error can only be a commit whose
  answer was lost.\<close>

theorem dameng_Apply_atomic:
  assumes "dm_Apply env a changes p s = (r, s')"
  shows "(s' = s \<and> \<not> is_ok r) \<or>
    (dm_effect env a changes (dm_content s) = Some (dm_content s') \<and> dm_checkpoint_of a s' = Some p \<and>
     dm_boot_state a s' = Some ''completed'' \<and> (\<forall>job. job \<noteq> a_job a \<longrightarrow> dm_ckpts s' job = dm_ckpts s job) \<and>
     (is_ok r \<or> fd_commit (dm_faults env) \<noteq> None))"
  using assms by (rule dm_Apply_law)

text \<open>A target with an identity column: INSERT is refused unless IDENTITY_INSERT is on for the table; the
  tables' content is the list of the statements executed.\<close>

definition dm_sample_table :: string where
  "dm_sample_table = dm_qualified demo_applier ''T''"

definition dm_demo_env :: "(int, string list, unit) dm_env" where
  "dm_demo_env = \<lparr>dm_convert_row = (\<lambda>t vs. Inr vs), dm_deep_equal = (=), dm_row_hash = (\<lambda>_. ''h''),
     dm_exec = (\<lambda>sess sql vals d. if has_prefix sql ''INSERT'' \<and> sess \<noteq> Some dm_sample_table then Inl ()
        else Inr (Inr (if has_prefix sql ''UPDATE'' then 0 else 1), sql # d)),
     dm_count = (\<lambda>_ _ _. Inr 0), dm_lock_mode = (\<lambda>_. Some ''0''), dm_triggers = (\<lambda>_ _. []),
     dm_catalog = (\<lambda>_ _. ([''T''],
        map (\<lambda>(c, i). \<lparr>cw_table = ''T'', cw_column = c, cw_nullable = ''N'', cw_default = None, cw_type = ''INT'',
           cw_identity = i\<rparr>) [(''ID'', ''YES''), (''N'', ''NO'')], [], [])),
     dm_faults = no_dm_faults, dm_now = 7\<rparr>"

definition dm_demo_changes :: "int gval Change list" where
  "dm_demo_changes = [\<lparr>Action = ''insert'', Table = demo_table, Before = [], After = [GOther 1, GOther 2]\<rparr>]"

definition dm_demo_db :: "string list dm_db" where
  "dm_demo_db = \<lparr>dm_ckpts = Map.empty, dm_content = []\<rparr>"

lemma dm_demo_applied:
  "is_ok (fst (dm_Apply dm_demo_env demo_applier dm_demo_changes zero_position dm_demo_db))"
  by code_simp

theorem dameng_Apply_atomic_witness:
  "dm_effect dm_demo_env demo_applier dm_demo_changes (dm_content dm_demo_db) =
       Some (dm_content (snd (dm_Apply dm_demo_env demo_applier dm_demo_changes zero_position dm_demo_db))) \<and>
     dm_checkpoint_of demo_applier (snd (dm_Apply dm_demo_env demo_applier dm_demo_changes zero_position dm_demo_db)) =
       Some zero_position"
proof -
  obtain r s' where *: "dm_Apply dm_demo_env demo_applier dm_demo_changes zero_position dm_demo_db = (r, s')"
    by (rule prod.exhaust)
  then have "is_ok r" using dm_demo_applied by simp
  then show ?thesis using dameng_Apply_atomic [OF *] * by simp
qed

end
