(* ===== verification/CdcRegistry.thy ===== *)
theory CdcRegistry
  imports CdcTypes
begin

text \<open>
  The registry of running CDC jobs (\<^verbatim>\<open>registry.go\<close>). Every method holds the mutex for its
  whole body, so a concurrent execution is a sequence of operations, here \<open>registry_step\<close> over a
  list of \<open>registry_op\<close>. A \<open>control\<close> records the stop action, the cutover boundary and whether
  the job's context has been cancelled.
\<close>

record control =
  ctl_action :: string
  ctl_cutover :: "Position option"
  ctl_cancelled :: bool

type_synonym registry = "string \<rightharpoonup> control"

definition Register :: "registry \<Rightarrow> string \<Rightarrow> bool \<times> registry" where
  "Register r jid =
     (case r jid of
        Some _ \<Rightarrow> (False, r)
      | None \<Rightarrow> (True, r(jid \<mapsto> \<lparr>ctl_action = [], ctl_cutover = None, ctl_cancelled = False\<rparr>)))"

definition Cancel :: "registry \<Rightarrow> string \<Rightarrow> string \<Rightarrow> bool \<times> registry" where
  "Cancel r jid action =
     (case r jid of
        None \<Rightarrow> (False, r)
      | Some j \<Rightarrow>
          if ctl_action j \<noteq> [] then (False, r)
          else if action = ''pause'' \<and> ctl_cutover j \<noteq> None then (False, r)
          else (True, r(jid \<mapsto> j\<lparr>ctl_action := action, ctl_cancelled := True\<rparr>)))"

definition RequestCutover :: "registry \<Rightarrow> string \<Rightarrow> Position \<Rightarrow> bool \<times> registry" where
  "RequestCutover r jid p =
     (case r jid of
        None \<Rightarrow> (False, r)
      | Some j \<Rightarrow>
          if ctl_action j \<noteq> [] then (False, r)
          else (True, r(jid \<mapsto> j\<lparr>ctl_cutover := Some p\<rparr>)))"

definition CutoverBoundary :: "registry \<Rightarrow> string \<Rightarrow> Position option" where
  "CutoverBoundary r jid = (case r jid of None \<Rightarrow> None | Some j \<Rightarrow> ctl_cutover j)"

definition ClearCutover :: "registry \<Rightarrow> string \<Rightarrow> bool \<times> registry" where
  "ClearCutover r jid =
     (case r jid of None \<Rightarrow> (False, r) | Some j \<Rightarrow> (True, r(jid \<mapsto> j\<lparr>ctl_cutover := None\<rparr>)))"

definition Remove :: "registry \<Rightarrow> string \<Rightarrow> string \<times> registry" where
  "Remove r jid = (case r jid of None \<Rightarrow> ([], r) | Some j \<Rightarrow> (ctl_action j, r(jid := None)))"

definition Running :: "registry \<Rightarrow> string \<Rightarrow> bool" where
  "Running r jid \<longleftrightarrow> r jid \<noteq> None"

datatype registry_op =
    OpRegister string
  | OpCancel string string
  | OpCutover string Position
  | OpClear string
  | OpRemove string

fun registry_step :: "registry \<Rightarrow> registry_op \<Rightarrow> registry" where
  "registry_step r (OpRegister jid) = snd (Register r jid)"
| "registry_step r (OpCancel jid action) = snd (Cancel r jid action)"
| "registry_step r (OpCutover jid p) = snd (RequestCutover r jid p)"
| "registry_step r (OpClear jid) = snd (ClearCutover r jid)"
| "registry_step r (OpRemove jid) = snd (Remove r jid)"

lemmas registry_defs = Register_def Cancel_def RequestCutover_def CutoverBoundary_def
  ClearCutover_def Remove_def Running_def

section \<open>The contract of a one-shot decision\<close>

text \<open>
  What the job's goroutine relies on: once a stop has been decided, no operation but the release
  of the job changes the decision.
\<close>

locale stop_once =
  fixes step :: "'s \<Rightarrow> 'op \<Rightarrow> 's"
    and decided :: "'s \<Rightarrow> 'a option"
    and releases :: "'op \<Rightarrow> bool"
  assumes decided_kept:
    "decided s = Some a \<Longrightarrow> \<not> releases op \<Longrightarrow> decided (step s op) = Some a"
begin

lemma decided_run:
  "decided s = Some a \<Longrightarrow> list_all (\<lambda>op. \<not> releases op) ops \<Longrightarrow>
   decided (foldl step s ops) = Some a"
  by (induction ops arbitrary: s) (simp_all add: decided_kept)

end

definition stop_action :: "string \<Rightarrow> registry \<Rightarrow> string option" where
  "stop_action jid r =
     (case r jid of None \<Rightarrow> None | Some j \<Rightarrow> if ctl_action j = [] then None else Some (ctl_action j))"

lemma stop_action_step:
  "stop_action jid r = Some a \<Longrightarrow> op \<noteq> OpRemove jid \<Longrightarrow> stop_action jid (registry_step r op) = Some a"
  by (cases op) (auto simp: stop_action_def registry_defs split: option.splits if_splits)

interpretation registry: stop_once registry_step "stop_action jid" "\<lambda>op. op = OpRemove jid" for jid
  by unfold_locales (rule stop_action_step)

section \<open>Properties\<close>

text \<open>The first accepted stop request decides: whatever other operations (cancellations, cutover
  requests, registrations, other jobs) interleave before the job is removed, \<open>Remove\<close> hands back the
  action of that first request and a cancelled context stays cancelled until then.\<close>

theorem first_stop_wins:
  assumes "fst (Cancel r jid action)" and "action \<noteq> []"
    and "list_all (\<lambda>op. op \<noteq> OpRemove jid) ops"
  shows "fst (Remove (foldl registry_step (snd (Cancel r jid action)) ops) jid) = action"
proof -
  have "stop_action jid (snd (Cancel r jid action)) = Some action"
    using assms(1,2) by (auto simp: Cancel_def stop_action_def split: option.splits if_splits)
  then have "stop_action jid (foldl registry_step (snd (Cancel r jid action)) ops) = Some action"
    using assms(3) by (rule registry.decided_run)
  then show ?thesis by (auto simp: stop_action_def Remove_def split: option.splits if_splits)
qed

theorem first_stop_wins_witness:
  "fst (Remove (foldl registry_step
      (snd (Cancel (snd (Register Map.empty ''job'')) ''job'' ''stop''))
      [OpCancel ''job'' ''pause'', OpRegister ''job'', OpCutover ''job'' zero_position]) ''job'') = ''stop''"
  by (rule first_stop_wins) (simp_all add: registry_defs)

definition cutover_pending :: "registry \<Rightarrow> string \<Rightarrow> bool" where
  "cutover_pending r jid \<longleftrightarrow> CutoverBoundary r jid \<noteq> None"

text \<open>While a cutover is pending a job is never paused: a pause request is refused and leaves the
  registry unchanged, any other stop action is accepted exactly when none was accepted before.\<close>

theorem pause_refused_during_cutover:
  "cutover_pending r jid \<Longrightarrow>
   Cancel r jid ''pause'' = (False, r) \<and>
   (action \<noteq> ''pause'' \<longrightarrow> (fst (Cancel r jid action) \<longleftrightarrow> stop_action jid r = None))"
  by (auto simp: cutover_pending_def registry_defs stop_action_def split: option.splits)

theorem pause_refused_during_cutover_witness:
  "Cancel [''a'' \<mapsto> \<lparr>ctl_action = [], ctl_cutover = Some zero_position, ctl_cancelled = False\<rparr>] ''a'' ''pause'' =
     (False, [''a'' \<mapsto> \<lparr>ctl_action = [], ctl_cutover = Some zero_position, ctl_cancelled = False\<rparr>]) \<and>
   fst (Cancel [''a'' \<mapsto> \<lparr>ctl_action = [], ctl_cutover = Some zero_position, ctl_cancelled = False\<rparr>] ''a'' ''stop'')"
proof -
  let ?r = "[''a'' \<mapsto> \<lparr>ctl_action = [], ctl_cutover = Some zero_position, ctl_cancelled = False\<rparr>]"
  have "cutover_pending ?r ''a''" by (simp add: cutover_pending_def CutoverBoundary_def)
  from pause_refused_during_cutover [OF this, of "''stop''"] show ?thesis by (simp add: stop_action_def)
qed

text \<open>The operations on one job leave every other job alone.\<close>

fun op_id :: "registry_op \<Rightarrow> string" where
  "op_id (OpRegister jid) = jid"
| "op_id (OpCancel jid _) = jid"
| "op_id (OpCutover jid _) = jid"
| "op_id (OpClear jid) = jid"
| "op_id (OpRemove jid) = jid"

lemma registry_step_other: "op_id op \<noteq> jid \<Longrightarrow> registry_step r op jid = r jid"
  by (cases op) (auto simp: registry_defs split: option.splits)

lemma registry_run_other:
  "list_all (\<lambda>op. op_id op \<noteq> jid) ops \<Longrightarrow> foldl registry_step r ops jid = r jid"
  by (induction ops arbitrary: r) (simp_all add: registry_step_other)

end
