(* ===== verification/CdcDamengBootstrap.thy ===== *)
theory CdcDamengBootstrap
  imports CdcDameng CdcRegistry
begin

text \<open>
  The bootstrap record of a DaMeng target (\<^verbatim>\<open>dameng_checkpoint.go\<close>). DaMeng commits every DDL
  statement on its own, so the clean-up of a review is a plan frozen in the checkpoint row: the object
  identities are recorded when the review is published, each finished step is marked, and an interrupted
  clean-up is resumed. The record \<open>boot_env\<close> holds the catalog's answers (object ids, foreign keys) and
  \<open>HashBootstrapManifest\<close>; the JSON columns hold the values they encode. The module's mutex makes each
  operation run alone.
\<close>

record 'd boot_env =
  bo_object_id :: "string \<Rightarrow> string \<Rightarrow> string \<Rightarrow> 'd \<Rightarrow> int option"
  bo_foreign_keys :: "string \<Rightarrow> 'd \<Rightarrow> (string \<times> string \<times> string) list"
  bo_hash :: "BootstrapRecord \<Rightarrow> string"

section \<open>Planning the clean-up\<close>

definition ownsBootstrapTable :: "BootstrapIssue \<Rightarrow> bool" where
  "ownsBootstrapTable issue \<longleftrightarrow>
     bi_stage issue = ''data'' \<or> bi_stage issue = ''row_count'' \<or> bi_stage issue = ''cdc_compatibility''"

fun excluded_map ::
  "applier \<Rightarrow> string list \<Rightarrow> BootstrapIssue list \<Rightarrow> (string \<rightharpoonup> BootstrapIssue) \<Rightarrow> 'e cdc_error + (string \<rightharpoonup> BootstrapIssue)" where
  "excluded_map a effective [] m = Inr m"
| "excluded_map a effective (issue # issues) m =
     (let name = dm_name a (bi_table issue) in
      if name \<in> set effective \<or> name = to_upper CheckpointTableName
      then Inl (Refused (InvalidExclusion (bi_table issue)))
      else excluded_map a effective issues (m(name \<mapsto> issue)))"

definition foreign_key_candidate :: "string list \<Rightarrow> (string \<rightharpoonup> BootstrapIssue) \<Rightarrow> string \<times> string \<times> string \<Rightarrow> bool" where
  "foreign_key_candidate effective excluded fk =
     (case fk of (table, con, referenced) \<Rightarrow>
        excluded referenced \<noteq> None \<and>
        (table \<in> set effective \<or> (case excluded table of None \<Rightarrow> False | Some issue \<Rightarrow> ownsBootstrapTable issue)))"

fun plan_items ::
  "('o, 'd, 'e) dm_env \<Rightarrow> 'd boot_env \<Rightarrow> applier \<Rightarrow> 'd \<Rightarrow> (string \<times> string) list \<Rightarrow> (string \<times> string) list
     \<Rightarrow> 'e cdc_error + damengCleanupItem list" where
  "plan_items env bo a d seen [] = Inr []"
| "plan_items env bo a d seen ((t, con) # cs) =
     (if (t, con) \<in> set seen then plan_items env bo a d seen cs
      else bind_res (dm_ok env (CallObjectId 0 t con)) (\<lambda>_.
        bind_res (plan_items env bo a d ((t, con) # seen) cs) (\<lambda>items.
          case bo_object_id bo (a_schema a) t con d of
            None \<Rightarrow> Inr items
          | Some n \<Rightarrow> Inr (\<lparr>ci_table = t, ci_constraint = con, ci_object_id = n, ci_done = False\<rparr> # items))))"

definition planBootstrapCleanup ::
  "('o, 'd, 'e) dm_env \<Rightarrow> 'd boot_env \<Rightarrow> applier \<Rightarrow> BootstrapRecord \<Rightarrow> 'd \<Rightarrow> 'e cdc_error + damengCleanupPlan" where
  "planBootstrapCleanup env bo a r d =
     (let effective = map (dm_name a) (br_effective r) in
      bind_res (excluded_map a effective (br_excluded r) Map.empty) (\<lambda>excluded.
        bind_res (dm_ok env CallForeignKeys) (\<lambda>_.
          let candidates =
            map (\<lambda>(t, con, ref). (t, con)) (filter (foreign_key_candidate effective excluded) (bo_foreign_keys bo (a_schema a) d)) @
            map (\<lambda>issue. (dm_name a (bi_table issue), [])) (filter ownsBootstrapTable (br_excluded r))
          in bind_res (plan_items env bo a d [] candidates) (\<lambda>items.
               Inr \<lparr>cp_manifest = br_manifest_hash r, cp_items = items\<rparr>))))"

section \<open>Saving the record\<close>

definition put_record :: "BootstrapRecord \<Rightarrow> dm_row \<Rightarrow> dm_row" where
  "put_record r row = row\<lparr>ck_file := File (br_position r), ck_position := uint (Pos (br_position r)),
     ck_gtid := GTID (br_position r), ck_state := br_state r, ck_effective := br_effective r,
     ck_excluded := br_excluded r, ck_hash := br_manifest_hash r, ck_failed := br_failed r,
     ck_report := br_report_version r, ck_locator_version := br_locator_version r, ck_locators := br_locators r\<rparr>"

text \<open>Whether the stored record lets \<open>r\<close> replace it: \<open>Inr True\<close> is "nothing to do".\<close>

definition admit_record :: "BootstrapRecord option \<Rightarrow> BootstrapRecord \<Rightarrow> 'e cdc_error + bool" where
  "admit_record stored r =
     (case stored of
        None \<Rightarrow> Inr False
      | Some old \<Rightarrow>
          if br_state old = ''completed'' \<or> br_state old = ''aborted''
          then (if br_state r = br_state old \<and> br_manifest_hash r = br_manifest_hash old then Inr True
                else Inl (Refused (BootstrapDecided (br_state old) (br_state r))))
          else if br_state old = ''review_pending''
          then (if br_state r \<noteq> ''aborted'' \<and> (br_state r \<noteq> ''review_pending'' \<or> br_manifest_hash r \<noteq> br_manifest_hash old)
                then Inl (Refused BootstrapFrozen) else Inr False)
          else if br_state old = ''snapshot_in_progress''
          then (if br_state r = ''completed'' then Inl (Refused BootstrapNeedsFinalize) else Inr False)
          else Inl (Refused (BadBootstrapState (br_state old))))"

definition valid_state :: "string \<Rightarrow> bool" where
  "valid_state st \<longleftrightarrow> st \<in> set [''snapshot_in_progress'', ''review_pending'', ''completed'', ''aborted'']"

text \<open>The plan to store with a review: \<open>None\<close> keeps the one already frozen.\<close>

definition review_plan ::
  "('o, 'd, 'e) dm_env \<Rightarrow> 'd boot_env \<Rightarrow> applier \<Rightarrow> BootstrapRecord option \<Rightarrow> BootstrapRecord \<Rightarrow> 'd dm_db
     \<Rightarrow> 'e cdc_error + damengCleanupPlan option" where
  "review_plan env bo a stored r s =
     (if br_state r \<noteq> ''review_pending'' then Inr None
      else bind_res
        (case stored of
           None \<Rightarrow> Inr None
         | Some old \<Rightarrow> if br_state old = ''review_pending''
             then bind_res (dm_ok env CallLoadPlan) (\<lambda>_.
               Inr (case dm_ckpts s (a_job a) of None \<Rightarrow> None | Some row \<Rightarrow> ck_plan row))
             else Inr None)
        (\<lambda>frozen. case frozen of
           Some plan \<Rightarrow> if cp_manifest plan \<noteq> br_manifest_hash r then Inl (Refused PlanMismatch) else Inr None
         | None \<Rightarrow> bind_res (planBootstrapCleanup env bo a r (dm_content s)) (\<lambda>plan. Inr (Some plan))))"

definition write_record ::
  "('o, 'd, 'e) dm_env \<Rightarrow> applier \<Rightarrow> BootstrapRecord \<Rightarrow> damengCleanupPlan option \<Rightarrow> 'd dm_db \<Rightarrow> 'e cdc_error + 'd dm_db" where
  "write_record env a r plan s =
     bind_res (dm_ok env CallUpdateCheckpoint) (\<lambda>_.
       bind_res (case dm_ckpts s (a_job a) of
                   Some row \<Rightarrow> Inr (put_record r row)
                 | None \<Rightarrow> bind_res (dm_ok env CallInsertCheckpoint) (\<lambda>_. Inr (put_record r dm_default_row)))
         (\<lambda>row. case plan of
            None \<Rightarrow> Inr (s\<lparr>dm_ckpts := (dm_ckpts s)(a_job a \<mapsto> row)\<rparr>)
          | Some p \<Rightarrow> bind_res (dm_ok env (CallSavePlan 0)) (\<lambda>_.
              Inr (s\<lparr>dm_ckpts := (dm_ckpts s)(a_job a \<mapsto> row\<lparr>ck_plan := Some p\<rparr>)\<rparr>))))"

definition dm_SaveBootstrapRecord ::
  "('o, 'd, 'e) dm_env \<Rightarrow> 'd boot_env \<Rightarrow> applier \<Rightarrow> BootstrapRecord \<Rightarrow> 'd dm_db \<Rightarrow> ('e cdc_error + unit) \<times> 'd dm_db" where
  "dm_SaveBootstrapRecord env bo a r s =
     (case bind_res (dm_LoadBootstrapRecord env a s) (\<lambda>stored.
             bind_res (admit_record stored r) (\<lambda>skip.
               if skip then Inr None
               else if \<not> valid_state (br_state r) then Inl (Refused (BadBootstrapState (br_state r)))
               else bind_res (review_plan env bo a stored r s) (\<lambda>plan. Inr (Some plan)))) of
        Inl e \<Rightarrow> (Inl e, s)
      | Inr None \<Rightarrow> (Inr (), s)
      | Inr (Some plan) \<Rightarrow> dm_with_tx env (write_record env a r plan) s)"

definition dm_MarkBootstrapAborted ::
  "('o, 'd, 'e) dm_env \<Rightarrow> applier \<Rightarrow> 'd dm_db \<Rightarrow> ('e cdc_error + unit) \<times> 'd dm_db" where
  "dm_MarkBootstrapAborted env a s =
     (case dm_ok env CallAbort of
        Inl e \<Rightarrow> (Inl e, s)
      | Inr u \<Rightarrow>
          (case dm_ckpts s (a_job a) of
             Some row \<Rightarrow>
               if ck_state row \<noteq> ''completed''
               then (Inr (), s\<lparr>dm_ckpts := (dm_ckpts s)(a_job a \<mapsto> row\<lparr>ck_state := ''aborted''\<rparr>)\<rparr>)
               else (Inl CheckpointMissing, s)
           | None \<Rightarrow> (Inl CheckpointMissing, s)))"

section \<open>Finalising\<close>

definition in_review :: "string \<Rightarrow> bool" where
  "in_review st \<longleftrightarrow> st = ''snapshot_in_progress'' \<or> st = ''review_pending''"

text \<open>\<open>k\<close> numbers the calls, for the faults.\<close>

definition saveCleanupPlan ::
  "('o, 'd, 'e) dm_env \<Rightarrow> applier \<Rightarrow> nat \<Rightarrow> damengCleanupPlan \<Rightarrow> 'd dm_db \<Rightarrow> ('e cdc_error + unit) \<times> 'd dm_db" where
  "saveCleanupPlan env a k plan s =
     (case dm_ok env (CallSavePlan k) of
        Inl e \<Rightarrow> (Inl e, s)
      | Inr u \<Rightarrow>
          (case dm_ckpts s (a_job a) of
             Some row \<Rightarrow>
               if in_review (ck_state row)
               then (Inr (), s\<lparr>dm_ckpts := (dm_ckpts s)(a_job a \<mapsto> row\<lparr>ck_plan := Some plan\<rparr>)\<rparr>)
               else (Inl (Refused StateChanged), s)
           | None \<Rightarrow> (Inl (Refused StateChanged), s)))"

definition drop_statement :: "applier \<Rightarrow> damengCleanupItem \<Rightarrow> string" where
  "drop_statement a it =
     (if ci_constraint it \<noteq> []
      then ''ALTER TABLE '' @ dm_qualified a (ci_table it) @ '' DROP CONSTRAINT '' @ quoteIdent (ci_constraint it)
      else ''DROP TABLE '' @ dm_qualified a (ci_table it))"

definition exec_ddl ::
  "('o, 'd, 'e) dm_env \<Rightarrow> string \<Rightarrow> 'd dm_db \<Rightarrow> ('e cdc_error + unit) \<times> 'd dm_db" where
  "exec_ddl env sql s =
     (case dm_exec env None sql [] (dm_content s) of
        Inl e \<Rightarrow> (Inl (Driver e), s)
      | Inr (n, d) \<Rightarrow>
          (case fd_ddl (dm_faults env) sql of
             None \<Rightarrow> (Inr (), s\<lparr>dm_content := d\<rparr>)
           | Some (e, took) \<Rightarrow> (Inl (Driver e), if took then s\<lparr>dm_content := d\<rparr> else s)))"

text \<open>The object of an item goes if it is still the one that was planned.\<close>

definition drop_item ::
  "('o, 'd, 'e) dm_env \<Rightarrow> 'd boot_env \<Rightarrow> applier \<Rightarrow> damengCleanupItem \<Rightarrow> (unit, 'd dm_db, 'e) failing" where
  "drop_item env bo a it =
     then_do (give (dm_ok env (CallObjectId 1 (ci_table it) (ci_constraint it)))) (\<lambda>_ s.
       case bo_object_id bo (a_schema a) (ci_table it) (ci_constraint it) (dm_content s) of
         None \<Rightarrow> (Inr (), s)
       | Some n \<Rightarrow> if n \<noteq> ci_object_id it then (Inl (Refused (ObjectReplaced (a_schema a) (ci_table it))), s)
                  else exec_ddl env (drop_statement a it) s)"

fun clean_items ::
  "('o, 'd, 'e) dm_env \<Rightarrow> 'd boot_env \<Rightarrow> applier \<Rightarrow> string \<Rightarrow> damengCleanupItem list \<Rightarrow> damengCleanupItem list
     \<Rightarrow> (unit, 'd dm_db, 'e) failing" where
  "clean_items env bo a manifest before [] = give (Inr ())"
| "clean_items env bo a manifest before (it # its) =
     (if ci_done it then clean_items env bo a manifest (before @ [it]) its
      else then_do (drop_item env bo a it) (\<lambda>_.
        then_do (saveCleanupPlan env a (Suc (length before))
            \<lparr>cp_manifest = manifest, cp_items = before @ [it\<lparr>ci_done := True\<rparr>] @ its\<rparr>) (\<lambda>_.
          clean_items env bo a manifest (before @ [it\<lparr>ci_done := True\<rparr>]) its)))"

definition obtain_plan ::
  "('o, 'd, 'e) dm_env \<Rightarrow> 'd boot_env \<Rightarrow> applier \<Rightarrow> BootstrapRecord \<Rightarrow> (damengCleanupPlan, 'd dm_db, 'e) failing" where
  "obtain_plan env bo a r =
     then_do (\<lambda>s. (bind_res (dm_ok env CallLoadPlan) (\<lambda>_.
         Inr (case dm_ckpts s (a_job a) of None \<Rightarrow> None | Some row \<Rightarrow> ck_plan row)), s)) (\<lambda>frozen.
       case frozen of
         Some plan \<Rightarrow> give (if cp_manifest plan \<noteq> br_manifest_hash r then Inl (Refused PlanMismatch) else Inr plan)
       | None \<Rightarrow> then_do (\<lambda>s. (planBootstrapCleanup env bo a r (dm_content s), s)) (\<lambda>plan.
           then_do (saveCleanupPlan env a 0 plan) (\<lambda>_. give (Inr plan))))"

definition confirm_record ::
  "('o, 'd, 'e) dm_env \<Rightarrow> applier \<Rightarrow> BootstrapRecord \<Rightarrow> (unit, 'd dm_db, 'e) failing" where
  "confirm_record env a r =
     dm_with_tx env (\<lambda>s. bind_res (dm_ok env CallUpdateCheckpoint) (\<lambda>_.
       case dm_ckpts s (a_job a) of
         Some row \<Rightarrow>
           if in_review (ck_state row)
           then Inr (s\<lparr>dm_ckpts := (dm_ckpts s)(a_job a \<mapsto> put_record (r\<lparr>br_state := ''completed''\<rparr>) row)\<rparr>)
           else Inl (Refused StateChanged)
       | None \<Rightarrow> Inl (Refused StateChanged)))"

definition dm_FinalizeBootstrap ::
  "('o, 'd, 'e) dm_env \<Rightarrow> 'd boot_env \<Rightarrow> applier \<Rightarrow> BootstrapRecord \<Rightarrow> (unit, 'd dm_db, 'e) failing" where
  "dm_FinalizeBootstrap env bo a r =
     then_do (\<lambda>s. (dm_LoadBootstrapRecord env a s, s)) (\<lambda>stored.
       case stored of
         None \<Rightarrow> give (Inl CheckpointMissing)
       | Some old \<Rightarrow>
           if \<not> in_review (br_state old) \<and> br_state old \<noteq> ''completed'' then give (Inl CheckpointMissing)
           else if br_manifest_hash old \<noteq> br_manifest_hash r \<or> br_manifest_hash r \<noteq> bo_hash bo r
           then give (Inl (Refused ManifestChanged))
           else if br_state old = ''completed'' then give (Inr ())
           else then_do (obtain_plan env bo a r) (\<lambda>plan.
             then_do (clean_items env bo a (cp_manifest plan) [] (cp_items plan)) (\<lambda>_.
               confirm_record env a r)))"

section \<open>The outcome of a bootstrap\<close>

datatype ('o, 'd, 'e) dm_op =
    DmApply "('o, 'd, 'e) dm_env" "'o gval Change list" Position
  | DmSave "('o, 'd, 'e) dm_env" Position
  | DmRecord "('o, 'd, 'e) dm_env" BootstrapRecord
  | DmFinalize "('o, 'd, 'e) dm_env" BootstrapRecord
  | DmAbort "('o, 'd, 'e) dm_env"

fun dm_op_exec :: "'d boot_env \<Rightarrow> applier \<Rightarrow> 'd dm_db \<Rightarrow> ('o, 'd, 'e) dm_op \<Rightarrow> 'd dm_db" where
  "dm_op_exec bo a s (DmApply env changes p) = snd (dm_Apply env a changes p s)"
| "dm_op_exec bo a s (DmSave env p) = snd (dm_SaveCheckpoint env a p s)"
| "dm_op_exec bo a s (DmRecord env r) = snd (dm_SaveBootstrapRecord env bo a r s)"
| "dm_op_exec bo a s (DmFinalize env r) = snd (dm_FinalizeBootstrap env bo a r s)"
| "dm_op_exec bo a s (DmAbort env) = snd (dm_MarkBootstrapAborted env a s)"

definition decided :: "applier \<Rightarrow> 'd dm_db \<Rightarrow> string option" where
  "decided a s = (case dm_ckpts s (a_job a) of
     None \<Rightarrow> None
   | Some row \<Rightarrow> if ck_state row = ''completed'' \<or> ck_state row = ''aborted'' then Some (ck_state row) else None)"

lemma decided_Some:
  "decided a s = Some st \<longleftrightarrow> (\<exists>row. dm_ckpts s (a_job a) = Some row \<and> ck_state row = st \<and> (st = ''completed'' \<or> st = ''aborted''))"
  by (auto simp: decided_def split: option.splits if_splits)

lemma dm_with_tx_cases:
  assumes "dm_with_tx env body s = (r, s')"
  obtains (kept) e where "r = Inl e" "s' = s" | (made) "body s = Inr s'" "is_ok r \<or> fd_commit (dm_faults env) \<noteq> None"
proof (cases "bind_res (dm_ok env CallBegin) (\<lambda>_. body s)")
  case (Inl e)
  then show thesis using assms by (intro kept) (auto simp: dm_with_tx_def)
next
  case (Inr s1)
  then have "body s = Inr s1" by (auto simp: bind_res_Inr_iff)
  then show thesis
    using assms Inr kept made by (auto simp: dm_with_tx_def split: option.splits prod.splits if_splits)
qed

lemma dm_SaveCheckpoint_cases:
  assumes "dm_SaveCheckpoint env a p s = (r, s')"
  obtains (kept) e where "r = Inl e" "s' = s"
    | (made) row where "s' = s\<lparr>dm_ckpts := (dm_ckpts s)(a_job a \<mapsto> put_position p row)\<rparr>" "ck_state row = ''completed''"
        "dm_ckpts s (a_job a) = Some row \<or> dm_ckpts s (a_job a) = None"
proof -
  from assms have "dm_with_tx env (\<lambda>s. bind_res (dm_saveCheckpointTx env a p (dm_ckpts s)) (\<lambda>m. Inr (s\<lparr>dm_ckpts := m\<rparr>))) s = (r, s')"
    by (simp add: dm_SaveCheckpoint_def)
  then show thesis
    by (cases rule: dm_with_tx_cases) (auto simp: bind_res_Inr_iff elim!: dm_saveCheckpointTx_Inr intro: kept made)
qed

text \<open>The three commands that write the record leave a decided bootstrap as it is.\<close>

lemma Load_Inr_Some:
  "dm_LoadBootstrapRecord env a s = Inr (Some r) \<Longrightarrow> \<exists>row. dm_ckpts s (a_job a) = Some row \<and> r = record_of row"
  by (auto simp: dm_LoadBootstrapRecord_def bind_res_Inr_iff split: option.splits if_splits)

lemma Load_Inr_None: "dm_LoadBootstrapRecord env a s = Inr None \<Longrightarrow> dm_ckpts s (a_job a) = None"
  by (auto simp: dm_LoadBootstrapRecord_def bind_res_Inr_iff split: option.splits if_splits)

lemma record_of_simps [simp]:
  "br_state (record_of row) = ck_state row" "br_manifest_hash (record_of row) = ck_hash row"
  by (simp_all add: record_of_def)

lemma admit_decided:
  "br_state old = ''completed'' \<or> br_state old = ''aborted'' \<Longrightarrow> admit_record (Some old) r \<noteq> Inr False"
  by (auto simp: admit_record_def)

lemma decided_record:
  fixes env :: "('o, 'd, 'e) dm_env"
  assumes "decided a s = Some st"
  shows "snd (dm_SaveBootstrapRecord env bo a r s) = s"
proof (cases "dm_LoadBootstrapRecord env a s")
  case (Inr stored)
  then obtain old where old: "stored = Some old" "br_state old = ''completed'' \<or> br_state old = ''aborted''"
    using assms by (cases stored) (auto simp: decided_Some dest: Load_Inr_None Load_Inr_Some)
  show ?thesis
  proof (cases "admit_record stored r :: 'e cdc_error + bool")
    case (Inr skip)
    then have "skip" using admit_decided [OF old(2), of r] old(1) by (cases skip) auto
    then show ?thesis using Inr \<open>dm_LoadBootstrapRecord env a s = Inr stored\<close>
      by (simp add: dm_SaveBootstrapRecord_def)
  qed (use Inr in \<open>simp add: dm_SaveBootstrapRecord_def\<close>)
qed (simp add: dm_SaveBootstrapRecord_def)

lemma decided_finalize: "decided a s = Some st \<Longrightarrow> snd (dm_FinalizeBootstrap env bo a r s) = s"
  by (auto simp: decided_Some dm_FinalizeBootstrap_def then_do_def give_def in_review_def
      dest!: Load_Inr_Some split: sum.splits option.splits if_splits prod.splits)

lemma decided_apply: "decided a s = Some st \<Longrightarrow> decided a (snd (dm_Apply env a changes p s)) = Some st"
proof -
  assume st: "decided a s = Some st"
  obtain r s' c where on: "dm_Apply_on env a changes p None s = (r, s', c)" by (rule prod_cases3)
  from on have "decided a s' = Some st"
  proof (cases rule: dm_Apply_on_cases)
    case (written q tx m)
    from written(3) obtain row where "m = (dm_ckpts s)(a_job a \<mapsto> put_position p row)" "ck_state row = ''completed''"
      "dm_ckpts s (a_job a) = Some row \<or> dm_ckpts s (a_job a) = None" by (rule dm_saveCheckpointTx_Inr)
    then show ?thesis using st written(4) by (auto simp: decided_Some)
  qed (use st in simp_all)
  then show ?thesis using on by (simp add: dm_Apply_def)
qed

lemma decided_save: "decided a s = Some st \<Longrightarrow> decided a (snd (dm_SaveCheckpoint env a p s)) = Some st"
proof -
  assume st: "decided a s = Some st"
  obtain r s' where sv: "dm_SaveCheckpoint env a p s = (r, s')" by (rule prod.exhaust)
  then show ?thesis
    by (cases rule: dm_SaveCheckpoint_cases) (use st sv in \<open>auto simp: decided_Some\<close>)
qed

lemma decided_exec: "decided a s = Some st \<Longrightarrow> decided a (dm_op_exec bo a s op) = Some st"
  by (cases op)
    (simp_all add: decided_apply decided_save decided_record decided_finalize,
     auto simp: decided_Some dm_MarkBootstrapAborted_def split: sum.splits)

interpretation dm_bootstrap: stop_once "dm_op_exec bo a" "decided a" "\<lambda>op. False" for bo a
  by unfold_locales (rule decided_exec)

text \<open>On DaMeng a bootstrap's outcome is final against every operation, saving the record again included:
  once the checkpoint row is completed or aborted, no sequence of applied transactions, saved checkpoints,
  saved records, confirmations and abort requests, whatever fails, changes its state.\<close>

theorem dameng_bootstrap_final:
  assumes "dm_boot_state a s = Some st" and "st = ''completed'' \<or> st = ''aborted''"
  shows "dm_boot_state a (foldl (dm_op_exec bo a) s ops) = Some st"
proof -
  have "decided a s = Some st" using assms by (auto simp: decided_Some dm_boot_state_def)
  then have "decided a (foldl (dm_op_exec bo a) s ops) = Some st"
    using dm_bootstrap.decided_run [of a s st ops] by (simp add: list_all_iff)
  then show ?thesis by (auto simp: decided_Some dm_boot_state_def)
qed

definition dm_demo_boot :: "string list boot_env" where
  "dm_demo_boot = \<lparr>bo_object_id = (\<lambda>schema t con d. if con = [] \<and> t = ''BAD'' \<and> list_all (\<lambda>q. \<not> has_prefix q ''DROP'') d then Some 5 else None),
     bo_foreign_keys = (\<lambda>_ _. []), bo_hash = (\<lambda>_. ''h'')\<rparr>"

definition dm_demo_row_db :: "string \<Rightarrow> string list dm_db" where
  "dm_demo_row_db st = \<lparr>dm_ckpts = [''job'' \<mapsto> dm_default_row\<lparr>ck_state := st, ck_hash := ''h''\<rparr>], dm_content = []\<rparr>"

theorem dameng_bootstrap_final_witness:
  "dm_boot_state demo_applier (foldl (dm_op_exec dm_demo_boot demo_applier) (dm_demo_row_db ''aborted'')
     [DmApply dm_demo_env dm_demo_changes zero_position, DmAbort dm_demo_env]) = Some ''aborted''"
  by (rule dameng_bootstrap_final) (simp_all add: dm_demo_row_db_def dm_boot_state_def demo_applier_def)

section \<open>Resuming an interrupted clean-up\<close>

abbreviation item_id :: "'d boot_env \<Rightarrow> applier \<Rightarrow> 'd \<Rightarrow> damengCleanupItem \<Rightarrow> int option" where
  "item_id bo a d it \<equiv> bo_object_id bo (a_schema a) (ci_table it) (ci_constraint it) d"

abbreviation item_key :: "damengCleanupItem \<Rightarrow> string \<times> string" where
  "item_key it \<equiv> (ci_table it, ci_constraint it)"

abbreviation foreign_keys :: "'d boot_env \<Rightarrow> applier \<Rightarrow> 'd \<Rightarrow> (string \<times> string \<times> string) set" where
  "foreign_keys bo a d \<equiv> set (bo_foreign_keys bo (a_schema a) d)"

text \<open>No object and no foreign key of \<open>d'\<close> is new.\<close>

definition shrinks :: "'d boot_env \<Rightarrow> applier \<Rightarrow> 'd \<Rightarrow> 'd \<Rightarrow> bool" where
  "shrinks bo a d d' \<longleftrightarrow> (\<forall>it. item_id bo a d' it = None \<or> item_id bo a d' it = item_id bo a d it) \<and>
     foreign_keys bo a d' \<subseteq> foreign_keys bo a d"

text \<open>A table to be dropped that a foreign key of the schema still references.\<close>

definition blocked :: "'d boot_env \<Rightarrow> applier \<Rightarrow> 'd \<Rightarrow> damengCleanupItem \<Rightarrow> bool" where
  "blocked bo a d it \<longleftrightarrow> ci_constraint it = [] \<and> (\<exists>t con. (t, con, ci_table it) \<in> foreign_keys bo a d)"

text \<open>What is assumed of the server: the foreign keys it lists are objects of their tables; a DROP TABLE is
  refused while a foreign key references the table; any other DROP of an object that exists succeeds, removes
  it and creates nothing.\<close>

definition drops_unreferenced :: "('o, 'd, 'e) dm_env \<Rightarrow> 'd boot_env \<Rightarrow> applier \<Rightarrow> bool" where
  "drops_unreferenced env bo a \<longleftrightarrow>
     (\<forall>d t con ref. (t, con, ref) \<in> foreign_keys bo a d \<longrightarrow> con \<noteq> [] \<and> bo_object_id bo (a_schema a) t con d \<noteq> None) \<and>
     (\<forall>it d. item_id bo a d it \<noteq> None \<longrightarrow>
        (if blocked bo a d it then \<exists>e. dm_exec env None (drop_statement a it) [] d = Inl e
         else \<exists>k d'. dm_exec env None (drop_statement a it) [] d = Inr (k, d') \<and> item_id bo a d' it = None \<and> shrinks bo a d d'))"

lemma fk_object:
  "drops_unreferenced env bo a \<Longrightarrow> (t, con, ref) \<in> foreign_keys bo a d \<Longrightarrow> con \<noteq> [] \<and> bo_object_id bo (a_schema a) t con d \<noteq> None"
  unfolding drops_unreferenced_def by blast

definition dm_under :: "('o, 'd, 'e) dm_env \<Rightarrow> ('o, 'd, 'e) dm_faults \<Rightarrow> ('o, 'd, 'e) dm_env" where
  "dm_under env w = env\<lparr>dm_faults := w\<rparr>"

lemma drops_unreferenced_under [simp]:
  "drops_unreferenced (dm_under env w) bo a = drops_unreferenced env bo a"
  "drops_unreferenced (dm_calm env) bo a = drops_unreferenced env bo a"
  by (simp_all add: drops_unreferenced_def dm_under_def)

text \<open>In a plan every foreign key that references a table to be dropped comes before the table.\<close>

fun constraints_first :: "'d boot_env \<Rightarrow> applier \<Rightarrow> 'd \<Rightarrow> (string \<times> string) set \<Rightarrow> damengCleanupItem list \<Rightarrow> bool" where
  "constraints_first bo a d before [] = True"
| "constraints_first bo a d before (it # its) =
     ((ci_constraint it = [] \<longrightarrow> (\<forall>(t, con, ref)\<in>foreign_keys bo a d. ref = ci_table it \<longrightarrow> (t, con) \<in> before)) \<and>
      constraints_first bo a d (insert (item_key it) before) its)"

lemma constraints_first_append:
  "constraints_first bo a d B (xs @ ys) \<longleftrightarrow> constraints_first bo a d B xs \<and> constraints_first bo a d (B \<union> item_key ` set xs) ys"
  by (induction xs arbitrary: B) (auto simp: Un_commute)

lemma constraints_first_shrinks:
  "shrinks bo a d d' \<Longrightarrow> constraints_first bo a d B its \<Longrightarrow> constraints_first bo a d' B its"
  by (induction its arbitrary: B) (auto simp: shrinks_def)

lemma constraints_first_constraints:
  "list_all (\<lambda>it. ci_constraint it \<noteq> []) its \<Longrightarrow> constraints_first bo a d B its"
  by (induction its arbitrary: B) auto

lemma constraints_first_tables:
  "\<forall>it\<in>set its. \<forall>(t, con, ref)\<in>foreign_keys bo a d. ref = ci_table it \<longrightarrow> (t, con) \<in> B \<Longrightarrow> constraints_first bo a d B its"
proof (induction its arbitrary: B)
  case (Cons it its)
  have "constraints_first bo a d (insert (item_key it) B) its"
    by (rule Cons.IH) (use Cons.prems in fastforce)
  then show ?case using Cons.prems by simp
qed simp

text \<open>Every object of a plan is gone, or still to be dropped and the one that was planned.\<close>

definition item_current :: "'d boot_env \<Rightarrow> applier \<Rightarrow> 'd \<Rightarrow> damengCleanupItem \<Rightarrow> bool" where
  "item_current bo a d it \<longleftrightarrow> item_id bo a d it = None \<or> (\<not> ci_done it \<and> item_id bo a d it = Some (ci_object_id it))"

definition item_gone :: "'d boot_env \<Rightarrow> applier \<Rightarrow> 'd \<Rightarrow> damengCleanupItem \<Rightarrow> bool" where
  "item_gone bo a d it \<longleftrightarrow> ci_done it \<and> item_id bo a d it = None"

definition cleaning :: "'d boot_env \<Rightarrow> applier \<Rightarrow> BootstrapRecord \<Rightarrow> damengCleanupItem list \<Rightarrow> 'd dm_db \<Rightarrow> bool" where
  "cleaning bo a r items s \<longleftrightarrow> (\<exists>row. dm_ckpts s (a_job a) = Some row \<and> ck_hash row = br_manifest_hash r \<and>
     0 \<le> ck_position row \<and> ck_position row \<le> 2 ^ 32 - 1 \<and> in_review (ck_state row) \<and>
     ck_plan row = Some \<lparr>cp_manifest = br_manifest_hash r, cp_items = items\<rparr> \<and>
     list_all (item_current bo a (dm_content s)) items \<and> constraints_first bo a (dm_content s) {} items)"

text \<open>No foreign key into a table the clean-up drops comes from outside the tables of the job.\<close>

definition references_inside :: "'d boot_env \<Rightarrow> applier \<Rightarrow> BootstrapRecord \<Rightarrow> 'd \<Rightarrow> bool" where
  "references_inside bo a r d \<longleftrightarrow>
     (\<forall>(t, con, ref)\<in>foreign_keys bo a d. \<forall>issue\<in>set (br_excluded r).
        ownsBootstrapTable issue \<and> ref = dm_name a (bi_table issue) \<longrightarrow>
        t \<in> dm_name a ` set (br_effective r) \<or>
        (\<exists>own\<in>set (br_excluded r). ownsBootstrapTable own \<and> t = dm_name a (bi_table own)))"

definition resumable :: "'d boot_env \<Rightarrow> applier \<Rightarrow> BootstrapRecord \<Rightarrow> 'd dm_db \<Rightarrow> bool" where
  "resumable bo a r s \<longleftrightarrow> (\<exists>row. dm_ckpts s (a_job a) = Some row \<and> ck_hash row = br_manifest_hash r \<and>
     0 \<le> ck_position row \<and> ck_position row \<le> 2 ^ 32 - 1 \<and>
     (if ck_state row = ''completed''
      then \<exists>plan. ck_plan row = Some plan \<and> list_all (item_gone bo a (dm_content s)) (cp_items plan)
      else in_review (ck_state row) \<and>
        (case ck_plan row of
           None \<Rightarrow> references_inside bo a r (dm_content s)
         | Some plan \<Rightarrow> cp_manifest plan = br_manifest_hash r \<and> list_all (item_current bo a (dm_content s)) (cp_items plan) \<and>
             constraints_first bo a (dm_content s) {} (cp_items plan))))"

definition valid_exclusions :: "applier \<Rightarrow> BootstrapRecord \<Rightarrow> bool" where
  "valid_exclusions a r \<longleftrightarrow> distinct (map (\<lambda>issue. dm_name a (bi_table issue)) (br_excluded r)) \<and> list_all (\<lambda>issue. dm_name a (bi_table issue) \<notin> dm_name a ` set (br_effective r) \<and>
     dm_name a (bi_table issue) \<noteq> to_upper CheckpointTableName) (br_excluded r)"

lemma in_review_not_completed: "in_review st \<Longrightarrow> st \<noteq> ''completed''"
  by (auto simp: in_review_def)

lemma cleaning_resumable: "cleaning bo a r items s \<Longrightarrow> resumable bo a r s"
  unfolding cleaning_def resumable_def by (elim exE conjE) (simp add: in_review_not_completed)

lemma item_current_shrinks: "shrinks bo a d d' \<Longrightarrow> item_current bo a d it \<Longrightarrow> item_current bo a d' it"
  unfolding shrinks_def item_current_def by (metis option.distinct(1))

lemma unblocked:
  assumes "drops_unreferenced env bo a" "cleaning bo a r (before @ it # its) s" "list_all ci_done before"
  shows "\<not> blocked bo a (dm_content s) it"
proof
  assume "blocked bo a (dm_content s) it"
  then obtain t con where fk: "ci_constraint it = []" "(t, con, ci_table it) \<in> foreign_keys bo a (dm_content s)"
    by (auto simp: blocked_def)
  have "list_all (item_current bo a (dm_content s)) before" "constraints_first bo a (dm_content s) {} (before @ it # its)"
    using assms(2) by (auto simp: cleaning_def)
  moreover from this(2) fk have "(t, con) \<in> item_key ` set before" by (auto simp: constraints_first_append)
  ultimately have "bo_object_id bo (a_schema a) t con (dm_content s) = None"
    using assms(3) by (auto simp: list_all_iff item_current_def)
  then show False using fk_object [OF assms(1) fk(2)] by simp
qed

lemma shrinks_refl [simp]: "shrinks bo a d d"
  by (simp add: shrinks_def)

lemma dm_ok_no_faults [simp]: "dm_faults env = no_dm_faults \<Longrightarrow> dm_ok env c = Inr ()"
  by (simp add: dm_ok_def)

lemma drop_item_state:
  assumes law: "drops_unreferenced env bo a" and it: "item_current bo a (dm_content s) it" "\<not> ci_done it"
    and free: "\<not> blocked bo a (dm_content s) it"
    and step: "drop_item env bo a it s = (q, s')"
  shows "dm_ckpts s' = dm_ckpts s \<and> shrinks bo a (dm_content s) (dm_content s') \<and>
    (is_ok q \<longrightarrow> item_id bo a (dm_content s') it = None) \<and> (dm_faults env = no_dm_faults \<longrightarrow> q = Inr ())"
proof (cases "item_id bo a (dm_content s) it")
  case None
  then show ?thesis using step
    by (cases "dm_ok env (CallObjectId 1 (ci_table it) (ci_constraint it))") (auto simp: drop_item_def then_do_def give_def)
next
  case (Some n)
  then have n: "n = ci_object_id it" using it by (simp add: item_current_def)
  obtain k d' where d': "dm_exec env None (drop_statement a it) [] (dm_content s) = Inr (k, d')"
    "item_id bo a d' it = None" "shrinks bo a (dm_content s) d'"
    using law Some free unfolding drops_unreferenced_def by (metis option.distinct(1))
  show ?thesis
  proof (cases "dm_ok env (CallObjectId 1 (ci_table it) (ci_constraint it))")
    case (Inr u)
    then have "exec_ddl env (drop_statement a it) s = (q, s')"
      using step Some n by (simp add: drop_item_def then_do_def give_def)
    then show ?thesis using d' by (auto simp: exec_ddl_def split: option.splits prod.splits if_splits)
  next
    case (Inl e)
    then have "q = Inl e" "s' = s" using step by (simp_all add: drop_item_def then_do_def give_def)
    then show ?thesis using Inl by (cases "dm_faults env = no_dm_faults") simp_all
  qed
qed

lemma clean_items_state:
  assumes law: "drops_unreferenced env bo a"
    and "cleaning bo a r (before @ its) s" "list_all ci_done before"
    and "clean_items env bo a (br_manifest_hash r) before its s = (q, s')"
  shows "resumable bo a r s' \<and> (is_ok q \<longrightarrow> (\<exists>items. cleaning bo a r items s' \<and> list_all ci_done items)) \<and>
    (dm_faults env = no_dm_faults \<longrightarrow> q = Inr ())"
  using assms(2-4)
proof (induction its arbitrary: before s)
  case Nil
  then show ?case by (auto simp: give_def intro: cleaning_resumable)
next
  case (Cons it its)
  show ?case
  proof (cases "ci_done it")
    case True
    then show ?thesis using Cons.IH [of "before @ [it]" s] Cons.prems by simp
  next
    case False
    let ?it = "it\<lparr>ci_done := True\<rparr>"
    let ?plan = "\<lparr>cp_manifest = br_manifest_hash r, cp_items = before @ [?it] @ its\<rparr>"
    have cur: "item_current bo a (dm_content s) it" using Cons.prems(1) by (auto simp: cleaning_def)
    obtain q1 s1 where drop: "drop_item env bo a it s = (q1, s1)" by (rule prod.exhaust)
    note D = drop_item_state [OF law cur False unblocked [OF law Cons.prems(1,2)] drop]
    have c1: "cleaning bo a r (before @ it # its) s1"
      using Cons.prems(1) D by (auto simp: cleaning_def list_all_iff intro: item_current_shrinks constraints_first_shrinks)
    show ?thesis
    proof (cases q1)
      case (Inl e)
      then show ?thesis
        using Cons.prems(3) False drop D c1 by (auto simp: then_do_def intro: cleaning_resumable)
    next
      case (Inr u)
      obtain q2 s2 where sv: "saveCleanupPlan env a (Suc (length before)) ?plan s1 = (q2, s2)" by (rule prod.exhaust)
      have gone: "item_current bo a (dm_content s1) ?it" using D Inr by (simp add: item_current_def)
      obtain row where row: "dm_ckpts s1 (a_job a) = Some row" "in_review (ck_state row)"
        using c1 by (auto simp: cleaning_def)
      show ?thesis
      proof (cases "dm_ok env (CallSavePlan (Suc (length before)))")
        case fault: (Inl e)
        then have "q2 = Inl e" "s2 = s1" using sv by (simp_all add: saveCleanupPlan_def)
        then have "q = Inl e" "s' = s1" using Cons.prems(3) False drop Inr sv by (simp_all add: then_do_def)
        then show ?thesis
          using cleaning_resumable [OF c1] fault by (cases "dm_faults env = no_dm_faults") simp_all
      next
        case ok: (Inr v)
        then have s2: "q2 = Inr ()" "s2 = s1\<lparr>dm_ckpts := (dm_ckpts s1)(a_job a \<mapsto> row\<lparr>ck_plan := Some ?plan\<rparr>)\<rparr>"
          using sv row by (auto simp: saveCleanupPlan_def)
        have "cleaning bo a r ((before @ [?it]) @ its) s2"
          using c1 gone row unfolding s2(2) by (auto simp: cleaning_def constraints_first_append)
        moreover have "list_all ci_done (before @ [?it])" using Cons.prems(2) by simp
        moreover have "clean_items env bo a (br_manifest_hash r) (before @ [?it]) its s2 = (q, s')"
          using Cons.prems(3) False drop Inr sv s2(1) by (simp add: then_do_def)
        ultimately show ?thesis by (rule Cons.IH)
      qed
    qed
  qed
qed

lemma plan_items_sound:
  "plan_items env bo a d seen cs = Inr items \<Longrightarrow> it \<in> set items \<Longrightarrow>
   \<not> ci_done it \<and> item_id bo a d it = Some (ci_object_id it) \<and> (ci_table it, ci_constraint it) \<in> set cs"
proof (induction cs arbitrary: seen items)
  case (Cons c cs)
  obtain t con where c: "c = (t, con)" by (cases c)
  show ?case
  proof (cases "c \<in> set seen")
    case True
    then show ?thesis using Cons by (auto simp: c)
  next
    case False
    then obtain rest where rest: "plan_items env bo a d (c # seen) cs = Inr rest"
      "items = (case bo_object_id bo (a_schema a) t con d of None \<Rightarrow> rest
         | Some n \<Rightarrow> \<lparr>ci_table = t, ci_constraint = con, ci_object_id = n, ci_done = False\<rparr> # rest)"
      using Cons.prems(1) by (auto simp: c bind_res_Inr_iff split: option.splits)
    show ?thesis
      using Cons.prems(2) rest(2) Cons.IH [OF rest(1)] by (auto simp: c split: option.splits)
  qed
qed simp

lemma plan_items_no_faults:
  "dm_faults env = no_dm_faults \<Longrightarrow> \<exists>items. plan_items env bo a d seen cs = Inr items"
proof (induction cs arbitrary: seen)
  case (Cons c cs)
  then show ?case
    by (cases c; cases "bo_object_id bo (a_schema a) (fst c) (snd c) d") (auto simp: bind_res_Inr_iff)
qed simp

lemma excluded_map_ok:
  "list_all (\<lambda>issue. dm_name a (bi_table issue) \<notin> set effective \<and> dm_name a (bi_table issue) \<noteq> to_upper CheckpointTableName) issues \<Longrightarrow>
   \<exists>m'. excluded_map a effective issues m = Inr m'"
  by (induction issues arbitrary: m) (auto simp: Let_def)

lemma plan_current:
  assumes "planBootstrapCleanup env bo a r d = Inr plan"
  shows "cp_manifest plan = br_manifest_hash r \<and> list_all (item_current bo a d) (cp_items plan)"
  using assms
  by (auto simp: planBootstrapCleanup_def Let_def bind_res_Inr_iff list_all_iff item_current_def dest: plan_items_sound)

lemma plan_items_append:
  "plan_items env bo a d seen (xs @ ys) = Inr items \<Longrightarrow>
   \<exists>i1 i2 seen'. items = i1 @ i2 \<and> plan_items env bo a d seen xs = Inr i1 \<and> plan_items env bo a d seen' ys = Inr i2"
proof (induction xs arbitrary: seen items)
  case (Cons c cs)
  obtain t con where c: "c = (t, con)" by (cases c)
  show ?case
  proof (cases "c \<in> set seen")
    case True
    then show ?thesis using Cons by (simp add: c)
  next
    case False
    then obtain rest where rest: "plan_items env bo a d (c # seen) (cs @ ys) = Inr rest" "dm_ok env (CallObjectId 0 t con) = Inr ()"
      "items = (case bo_object_id bo (a_schema a) t con d of None \<Rightarrow> rest
         | Some n \<Rightarrow> \<lparr>ci_table = t, ci_constraint = con, ci_object_id = n, ci_done = False\<rparr> # rest)"
      using Cons.prems by (auto simp: c bind_res_Inr_iff split: option.splits)
    from Cons.IH [OF rest(1)] obtain i1 i2 seen' where "rest = i1 @ i2" "plan_items env bo a d (c # seen) cs = Inr i1"
      "plan_items env bo a d seen' ys = Inr i2" by blast
    then show ?thesis using rest(2,3) False by (auto simp: c bind_res_Inr_iff split: option.splits)
  qed
qed auto

lemma plan_items_complete:
  "plan_items env bo a d seen cs = Inr items \<Longrightarrow> (t, con) \<in> set cs \<Longrightarrow> (t, con) \<notin> set seen \<Longrightarrow>
   bo_object_id bo (a_schema a) t con d \<noteq> None \<Longrightarrow> (t, con) \<in> item_key ` set items"
proof (induction cs arbitrary: seen items)
  case (Cons c cs)
  obtain t' con' where c: "c = (t', con')" by (cases c)
  show ?case
  proof (cases "c \<in> set seen")
    case True
    then show ?thesis using Cons by (auto simp: c)
  next
    case False
    then obtain rest where rest: "plan_items env bo a d (c # seen) cs = Inr rest"
      "items = (case bo_object_id bo (a_schema a) t' con' d of None \<Rightarrow> rest
         | Some n \<Rightarrow> \<lparr>ci_table = t', ci_constraint = con', ci_object_id = n, ci_done = False\<rparr> # rest)"
      using Cons.prems(1) by (auto simp: c bind_res_Inr_iff split: option.splits)
    show ?thesis
    proof (cases "(t, con) = c")
      case True
      then show ?thesis using rest(2) Cons.prems(4) by (auto simp: c)
    next
      case other: False
      then have "(t, con) \<in> item_key ` set rest" using Cons.IH [OF rest(1)] Cons.prems by (auto simp: c)
      then show ?thesis using rest(2) by (auto split: option.splits)
    qed
  qed
qed simp

lemma excluded_map_other:
  "excluded_map a effective issues m = Inr m' \<Longrightarrow> name \<notin> (\<lambda>issue. dm_name a (bi_table issue)) ` set issues \<Longrightarrow> m' name = m name"
  by (induction issues arbitrary: m) (auto simp: Let_def split: if_splits)

lemma excluded_map_lookup:
  "excluded_map a effective issues m = (Inr m' :: 'e cdc_error + (string \<rightharpoonup> BootstrapIssue)) \<Longrightarrow> distinct (map (\<lambda>issue. dm_name a (bi_table issue)) issues) \<Longrightarrow>
   issue \<in> set issues \<Longrightarrow> m' (dm_name a (bi_table issue)) = Some issue"
proof (induction issues arbitrary: m)
  case (Cons i issues)
  let ?m = "m(dm_name a (bi_table i) \<mapsto> i)"
  have rest: "excluded_map a effective issues ?m = (Inr m' :: 'e cdc_error + (string \<rightharpoonup> BootstrapIssue))" using Cons.prems(1) by (simp add: Let_def split: if_splits)
  show ?case
  proof (cases "issue = i")
    case True
    then show ?thesis using excluded_map_other [OF rest, of "dm_name a (bi_table i)"] Cons.prems(2) by simp
  next
    case False
    then show ?thesis using Cons.IH [OF rest] Cons.prems(2,3) by simp
  qed
qed simp

lemma plan_ordered:
  fixes env :: "('o, 'd, 'e) dm_env"
  assumes law: "drops_unreferenced env bo a" and "planBootstrapCleanup env bo a r d = Inr plan"
    and "valid_exclusions a r" "references_inside bo a r d"
  shows "constraints_first bo a d {} (cp_items plan)"
proof -
  let ?effective = "map (dm_name a) (br_effective r)"
  obtain excluded where ex: "excluded_map a ?effective (br_excluded r) Map.empty = (Inr excluded :: 'e cdc_error + _)"
    and items: "plan_items env bo a d []
        (map (\<lambda>(t, con, ref). (t, con)) (filter (foreign_key_candidate ?effective excluded) (bo_foreign_keys bo (a_schema a) d)) @
         map (\<lambda>issue. (dm_name a (bi_table issue), [])) (filter ownsBootstrapTable (br_excluded r))) = Inr (cp_items plan)"
    using assms(2) by (auto simp: planBootstrapCleanup_def Let_def bind_res_Inr_iff)
  from plan_items_append [OF items] obtain i1 i2 seen where i: "cp_items plan = i1 @ i2"
    "plan_items env bo a d [] (map (\<lambda>(t, con, ref). (t, con)) (filter (foreign_key_candidate ?effective excluded) (bo_foreign_keys bo (a_schema a) d))) = Inr i1"
    "plan_items env bo a d seen (map (\<lambda>issue. (dm_name a (bi_table issue), [])) (filter ownsBootstrapTable (br_excluded r))) = Inr i2"
    by blast
  have look: "excluded (dm_name a (bi_table issue)) = Some issue" if "issue \<in> set (br_excluded r)" for issue
    using excluded_map_lookup [OF ex _ that] assms(3) by (simp add: valid_exclusions_def)
  have "list_all (\<lambda>it. ci_constraint it \<noteq> []) i1"
    using plan_items_sound [OF i(2)] fk_object [OF law, where d = d] by (fastforce simp: list_all_iff)
  moreover have "(t, con) \<in> item_key ` set i1" if it: "it \<in> set i2" and fk: "(t, con, ref) \<in> foreign_keys bo a d" "ref = ci_table it" for it t con ref
  proof -
    from plan_items_sound [OF i(3) it] obtain issue where issue: "issue \<in> set (br_excluded r)" "ownsBootstrapTable issue"
      "ref = dm_name a (bi_table issue)" using fk(2) by auto
    with fk(1) assms(4) have "t \<in> set ?effective \<or> (\<exists>own\<in>set (br_excluded r). ownsBootstrapTable own \<and> t = dm_name a (bi_table own))"
      by (fastforce simp: references_inside_def)
    then have "foreign_key_candidate ?effective excluded (t, con, ref)"
      using look issue by (auto simp: foreign_key_candidate_def)
    with fk(1) show ?thesis
      using fk_object [OF law fk(1)] by (intro plan_items_complete [OF i(2)]) force+
  qed
  ultimately show ?thesis
    unfolding i(1) constraints_first_append
    by (intro conjI constraints_first_constraints constraints_first_tables) fastforce+
qed

lemma plan_no_faults:
  fixes env :: "('o, 'd, 'e) dm_env"
  assumes "dm_faults env = no_dm_faults" "valid_exclusions a r"
  shows "\<exists>plan. planBootstrapCleanup env bo a r d = Inr plan"
proof -
  obtain m where m: "excluded_map a (map (dm_name a) (br_effective r)) (br_excluded r) Map.empty = (Inr m :: 'e cdc_error + _)"
    using excluded_map_ok [of a "map (dm_name a) (br_effective r)" "br_excluded r" Map.empty] assms(2)
    by (auto simp: valid_exclusions_def)
  show ?thesis
    using assms(1) m plan_items_no_faults [OF assms(1)]
    by (auto simp: planBootstrapCleanup_def Let_def bind_res_Inr_iff)
qed

lemma obtain_plan_state:
  assumes "resumable bo a r s" "dm_ckpts s (a_job a) = Some row" "in_review (ck_state row)"
    and law: "drops_unreferenced env bo a" and ex: "valid_exclusions a r"
    and step: "obtain_plan env bo a r s = (q, s')"
  shows "resumable bo a r s' \<and>
    (\<forall>plan. q = Inr plan \<longrightarrow> cp_manifest plan = br_manifest_hash r \<and> cleaning bo a r (cp_items plan) s') \<and>
    (dm_faults env = no_dm_faults \<longrightarrow> is_ok q)"
proof (cases "dm_ok env CallLoadPlan")
  case (Inl e)
  then have "q = Inl e" "s' = s" using step by (simp_all add: obtain_plan_def then_do_def)
  then show ?thesis using assms(1) Inl by (cases "dm_faults env = no_dm_faults") simp_all
next
  case load: (Inr u)
  note R = assms(1) [unfolded resumable_def assms(2)]
  show ?thesis
  proof (cases "ck_plan row")
    case (Some plan)
    then have m: "cp_manifest plan = br_manifest_hash r" "cleaning bo a r (cp_items plan) s"
      using R assms(2,3) in_review_not_completed [OF assms(3)] by (auto simp: cleaning_def)
    then have "q = Inr plan" "s' = s" using step load Some assms(2) by (simp_all add: obtain_plan_def then_do_def give_def)
    then show ?thesis using assms(1) m by simp
  next
    case None
    show ?thesis
    proof (cases "planBootstrapCleanup env bo a r (dm_content s)")
      case (Inl e)
      then have "q = Inl e" "s' = s" using step load None assms(2) by (simp_all add: obtain_plan_def then_do_def)
      then show ?thesis using assms(1) Inl ex plan_no_faults [of env a r bo "dm_content s"] by auto
    next
      case (Inr plan)
      have "references_inside bo a r (dm_content s)"
        using R None assms(3) in_review_not_completed [OF assms(3)] by simp
      then have order: "constraints_first bo a (dm_content s) {} (cp_items plan)"
        by (rule plan_ordered [OF law Inr ex])
      note P = plan_current [OF Inr]
      show ?thesis
      proof (cases "dm_ok env (CallSavePlan 0)")
        case fault: (Inl e)
        then have "q = Inl e" "s' = s"
          using step load None assms(2) Inr by (simp_all add: obtain_plan_def then_do_def saveCleanupPlan_def)
        then show ?thesis using assms(1) fault by (cases "dm_faults env = no_dm_faults") simp_all
      next
        case ok: (Inr v)
        then have s': "q = Inr plan" "s' = s\<lparr>dm_ckpts := (dm_ckpts s)(a_job a \<mapsto> row\<lparr>ck_plan := Some plan\<rparr>)\<rparr>"
          using step load None assms(2,3) Inr by (simp_all add: obtain_plan_def then_do_def saveCleanupPlan_def give_def)
        have "cleaning bo a r (cp_items plan) s'"
          using R P order assms(3) unfolding s'(2) by (cases plan) (auto simp: cleaning_def)
        then show ?thesis using P s'(1) cleaning_resumable by auto
      qed
    qed
  qed
qed

lemma confirm_record_state:
  assumes "cleaning bo a r items s" "list_all ci_done items" "confirm_record env a r s = (q, s')"
  shows "resumable bo a r s' \<and> (dm_faults env = no_dm_faults \<longrightarrow> q = Inr () \<and> dm_boot_state a s' = Some ''completed'')"
proof -
  obtain row where row: "dm_ckpts s (a_job a) = Some row" "in_review (ck_state row)" "ck_hash row = br_manifest_hash r"
    "ck_plan row = Some \<lparr>cp_manifest = br_manifest_hash r, cp_items = items\<rparr>" "list_all (item_gone bo a (dm_content s)) items"
    using assms(1,2) by (auto simp: cleaning_def list_all_iff item_gone_def item_current_def)
  let ?s = "s\<lparr>dm_ckpts := (dm_ckpts s)(a_job a \<mapsto> put_record (r\<lparr>br_state := ''completed''\<rparr>) row)\<rparr>"
  have done_ok: "resumable bo a r ?s" "dm_boot_state a ?s = Some ''completed''"
    using row uint_bounded [of "Pos (br_position r)"] by (auto simp: resumable_def put_record_def dm_boot_state_def)
  from assms(3) [unfolded confirm_record_def] show ?thesis
  proof (cases rule: dm_with_tx_cases)
    case (kept e)
    then show ?thesis
      using cleaning_resumable [OF assms(1)] assms(3) row(1,2)
      by (auto simp: confirm_record_def dm_with_tx_def bind_res_Inr_iff split: option.splits)
  next
    case made
    then have "s' = ?s" using row(1,2) by (auto simp: bind_res_Inr_iff)
    then show ?thesis using done_ok made(2) by (cases q) auto
  qed
qed

lemma dm_FinalizeBootstrap_state:
  assumes law: "drops_unreferenced env bo a" and ex: "valid_exclusions a r" and res: "resumable bo a r s"
    and step: "dm_FinalizeBootstrap env bo a r s = (q, s')"
  shows "resumable bo a r s' \<and>
    (dm_faults env = no_dm_faults \<and> bo_hash bo r = br_manifest_hash r \<longrightarrow>
       q = Inr () \<and> dm_boot_state a s' = Some ''completed'')"
proof -
  obtain row where row: "dm_ckpts s (a_job a) = Some row" "ck_hash row = br_manifest_hash r"
    "0 \<le> ck_position row" "ck_position row \<le> 2 ^ 32 - 1" "ck_state row = ''completed'' \<or> in_review (ck_state row)"
    using res by (auto simp: resumable_def split: if_splits)
  have load: "dm_LoadBootstrapRecord env a s = Inr (Some (record_of row))" if "dm_ok env CallLoadRecord = Inr ()"
    using row that by (simp add: dm_LoadBootstrapRecord_def)
  consider (early) e where "q = Inl e" "s' = s" "dm_faults env \<noteq> no_dm_faults \<or> bo_hash bo r \<noteq> br_manifest_hash r"
    | (already) "q = Inr ()" "s' = s" "ck_state row = ''completed''"
    | (run) "in_review (ck_state row)" "then_do (obtain_plan env bo a r) (\<lambda>plan.
             then_do (clean_items env bo a (cp_manifest plan) [] (cp_items plan)) (\<lambda>_.
               confirm_record env a r)) s = (q, s')"
  proof (cases "dm_ok env CallLoadRecord")
    case (Inl e)
    then have "q = Inl e" "s' = s" using step by (simp_all add: dm_FinalizeBootstrap_def dm_LoadBootstrapRecord_def then_do_def)
    then show ?thesis using Inl early by (cases "dm_faults env = no_dm_faults") simp_all
  next
    case (Inr u)
    then show ?thesis
      using step load row(2,5) early already run
      by (auto simp: dm_FinalizeBootstrap_def then_do_def [of "\<lambda>s. (dm_LoadBootstrapRecord env a s, s)"] give_def
          dest: in_review_not_completed split: if_splits)
  qed
  then show ?thesis
  proof cases
    case already
    then show ?thesis using res row(1) by (simp add: dm_boot_state_def)
  next
    case run
    obtain q1 s1 where 1: "obtain_plan env bo a r s = (q1, s1)" by (rule prod.exhaust)
    note P = obtain_plan_state [OF res row(1) run(1) law ex 1]
    show ?thesis
    proof (cases q1)
      case (Inl e)
      then show ?thesis using run(2) 1 P by (auto simp: then_do_def)
    next
      case (Inr plan)
      with P have plan: "cp_manifest plan = br_manifest_hash r" "cleaning bo a r ([] @ cp_items plan) s1" by auto
      obtain q2 s2 where 2: "clean_items env bo a (br_manifest_hash r) [] (cp_items plan) s1 = (q2, s2)" by (rule prod.exhaust)
      note C = clean_items_state [OF law plan(2) _ 2, simplified]
      show ?thesis
      proof (cases q2)
        case (Inl e)
        then show ?thesis using run(2) 1 \<open>q1 = Inr plan\<close> plan(1) 2 C by (auto simp: then_do_def)
      next
        case (Inr u)
        then obtain items where items: "cleaning bo a r items s2" "list_all ci_done items" using C by auto
        have "confirm_record env a r s2 = (q, s')"
          using run(2) 1 \<open>q1 = Inr plan\<close> plan(1) 2 Inr by (simp add: then_do_def)
        then show ?thesis using confirm_record_state [OF items] by blast
      qed
    qed
  qed (use res in auto)
qed

lemma excluded_map_sound:
  "excluded_map a effective issues m = Inr m' \<Longrightarrow> m' name = Some issue \<Longrightarrow>
   m name = Some issue \<or> (issue \<in> set issues \<and> dm_name a (bi_table issue) = name)"
  by (induction issues arbitrary: m) (fastforce simp: Let_def split: if_splits)+

lemma excluded_map_disjoint:
  "excluded_map a effective issues m = Inr m' \<Longrightarrow> issue \<in> set issues \<Longrightarrow>
   dm_name a (bi_table issue) \<notin> set effective \<and> dm_name a (bi_table issue) \<noteq> to_upper CheckpointTableName"
  by (induction issues arbitrary: m) (auto simp: Let_def split: if_splits)

section \<open>Properties of the clean-up\<close>

text \<open>C32: A clean-up plan only ever destroys what the review excluded. Every planned step names an object that
  exists, by its identity; a planned table is an excluded table that the bootstrap itself created (never an
  effective table, never the checkpoint table), and a planned constraint is a foreign key into an excluded
  table from a table of this job.\<close>

theorem dameng_cleanup_plan_sound:
  fixes env :: "('o, 'd, 'e) dm_env"
  assumes "planBootstrapCleanup env bo a r d = Inr plan" and "it \<in> set (cp_items plan)"
  shows "item_id bo a d it = Some (ci_object_id it) \<and> \<not> ci_done it \<and>
    ((ci_constraint it = [] \<and> (\<exists>issue\<in>set (br_excluded r). ownsBootstrapTable issue \<and>
        ci_table it = dm_name a (bi_table issue) \<and> ci_table it \<notin> dm_name a ` set (br_effective r) \<and>
        ci_table it \<noteq> to_upper CheckpointTableName)) \<or>
     (\<exists>issue\<in>set (br_excluded r). (ci_table it, ci_constraint it, dm_name a (bi_table issue)) \<in> set (bo_foreign_keys bo (a_schema a) d) \<and>
        (ci_table it \<in> dm_name a ` set (br_effective r) \<or>
         (\<exists>own\<in>set (br_excluded r). ownsBootstrapTable own \<and> ci_table it = dm_name a (bi_table own)))))"
proof -
  let ?effective = "map (dm_name a) (br_effective r)"
  obtain excluded where ex: "excluded_map a ?effective (br_excluded r) Map.empty = (Inr excluded :: 'e cdc_error + _)"
    and items: "plan_items env bo a d []
        (map (\<lambda>(t, con, ref). (t, con)) (filter (foreign_key_candidate ?effective excluded) (bo_foreign_keys bo (a_schema a) d)) @
         map (\<lambda>issue. (dm_name a (bi_table issue), [])) (filter ownsBootstrapTable (br_excluded r))) = Inr (cp_items plan)"
    using assms(1) by (auto simp: planBootstrapCleanup_def Let_def bind_res_Inr_iff)
  note I = plan_items_sound [OF items assms(2)]
  have E: "issue \<in> set (br_excluded r) \<and> dm_name a (bi_table issue) = name" if "excluded name = Some issue" for name issue
    using excluded_map_sound [OF ex that] by simp
  consider (fk) ref where "(ci_table it, ci_constraint it, ref) \<in> set (bo_foreign_keys bo (a_schema a) d)"
      "foreign_key_candidate ?effective excluded (ci_table it, ci_constraint it, ref)"
    | (table) issue where "issue \<in> set (br_excluded r)" "ownsBootstrapTable issue"
        "ci_table it = dm_name a (bi_table issue)" "ci_constraint it = []"
    using I by auto
  then show ?thesis
  proof cases
    case fk
    then obtain issue where issue: "issue \<in> set (br_excluded r)" "dm_name a (bi_table issue) = ref"
      using E by (auto simp: foreign_key_candidate_def)
    have "ci_table it \<in> dm_name a ` set (br_effective r) \<or>
        (\<exists>own\<in>set (br_excluded r). ownsBootstrapTable own \<and> ci_table it = dm_name a (bi_table own))"
      using fk(2) E [of "ci_table it"] by (auto simp: foreign_key_candidate_def split: option.splits)
    then show ?thesis using I fk(1) issue by blast
  next
    case table
    then show ?thesis using I excluded_map_disjoint [OF ex table(1)] by auto
  qed
qed

definition dm_demo_record :: BootstrapRecord where
  "dm_demo_record = \<lparr>br_state = ''review_pending'', br_position = zero_position, br_effective = [''t''],
     br_excluded = [\<lparr>bi_table = ''bad'', bi_stage = ''data'', bi_error = [], bi_ddl = []\<rparr>], br_manifest_hash = ''h'',
     br_failed = [], br_report_version = 1, br_locator_version = 1, br_locators = []\<rparr>"

lemma dm_demo_plan:
  "planBootstrapCleanup dm_demo_env dm_demo_boot demo_applier dm_demo_record [] =
     Inr \<lparr>cp_manifest = ''h'', cp_items = [\<lparr>ci_table = ''BAD'', ci_constraint = [], ci_object_id = 5, ci_done = False\<rparr>]\<rparr>"
  by code_simp

theorem dameng_cleanup_plan_sound_witness:
  "item_id dm_demo_boot demo_applier [] \<lparr>ci_table = ''BAD'', ci_constraint = [], ci_object_id = 5, ci_done = False\<rparr> = Some 5"
  using dameng_cleanup_plan_sound [OF dm_demo_plan] by simp

text \<open>C4: An interrupted clean-up always finishes. After any number of confirmations broken off by any fault (a
  statement refused, a DROP whose answer was lost, a plan not saved, a commit lost), the next one without a
  fault succeeds: the bootstrap is completed and every object of the frozen plan is gone. The server refuses to
  drop a table while a foreign key of the schema references it, drops any other object that exists when asked,
  and creates none by it; so the constraints have to go first, and the plan has them first. What is asked of the
  target is that the foreign keys into the tables to be dropped come from tables of the job (when the plan is still
  to be made) or are in the frozen plan before the table they reference; that no planned object was replaced; and
  that the exclusions name different target tables, none of them effective or the checkpoint table.\<close>

theorem dameng_finalize_resumes:
  assumes "drops_unreferenced env bo a" and "resumable bo a r s"
    and "valid_exclusions a r" and "bo_hash bo r = br_manifest_hash r"
  shows "\<exists>s' row plan. dm_FinalizeBootstrap (dm_calm env) bo a r
      (foldl (\<lambda>s w. snd (dm_FinalizeBootstrap (dm_under env w) bo a r s)) s broken) = (Inr (), s') \<and>
    dm_ckpts s' (a_job a) = Some row \<and> ck_state row = ''completed'' \<and> ck_plan row = Some plan \<and>
    list_all (item_gone bo a (dm_content s')) (cp_items plan)"
proof -
  have keep: "resumable bo a r (foldl (\<lambda>s w. snd (dm_FinalizeBootstrap (dm_under env w) bo a r s)) s broken)"
    using assms(2)
  proof (induction broken arbitrary: s)
    case (Cons w ws)
    have "resumable bo a r (snd (dm_FinalizeBootstrap (dm_under env w) bo a r s))"
      using dm_FinalizeBootstrap_state [of "dm_under env w" bo a r s] assms(1,3) Cons.prems
      by (metis drops_unreferenced_under(1) prod.collapse)
    then show ?case using Cons.IH by simp
  qed simp
  let ?s = "foldl (\<lambda>s w. snd (dm_FinalizeBootstrap (dm_under env w) bo a r s)) s broken"
  obtain q s' where fin: "dm_FinalizeBootstrap (dm_calm env) bo a r ?s = (q, s')" by (rule prod.exhaust)
  have "resumable bo a r s'" "q = Inr ()" "dm_boot_state a s' = Some ''completed''"
    using dm_FinalizeBootstrap_state [OF _ assms(3) keep fin] assms by simp_all
  then show ?thesis
    unfolding fin by (auto simp: resumable_def dm_boot_state_def)
qed

text \<open>A target where the effective table T references the excluded table BAD: the statements executed so far are its
  content, and DROP TABLE is refused as long as the constraint has not been dropped.\<close>

definition dm_ref_boot :: "string list boot_env" where
  "dm_ref_boot = \<lparr>bo_object_id = (\<lambda>schema t con d.
       if con = [] \<and> t = ''BAD'' \<and> list_all (\<lambda>q. \<not> has_prefix q ''DROP'') d then Some 5
       else if con = ''FK1'' \<and> t = ''T'' \<and> list_all (\<lambda>q. \<not> has_prefix q ''ALTER'') d then Some 6 else None),
     bo_foreign_keys = (\<lambda>_ d. if list_all (\<lambda>q. \<not> has_prefix q ''ALTER'') d then [(''T'', ''FK1'', ''BAD'')] else []),
     bo_hash = (\<lambda>_. ''h'')\<rparr>"

definition dm_ref_env :: "(int, string list, unit) dm_env" where
  "dm_ref_env = dm_demo_env\<lparr>dm_exec := (\<lambda>sess sql vals d.
     if has_prefix sql ''DROP'' \<and> list_all (\<lambda>q. \<not> has_prefix q ''ALTER'') d then Inl () else Inr (Inr 1, sql # d))\<rparr>"

lemma dm_ref_drops: "drops_unreferenced dm_ref_env dm_ref_boot demo_applier"
  by (auto simp: drops_unreferenced_def dm_ref_env_def dm_ref_boot_def drop_statement_def shrinks_def blocked_def has_prefix_def
      split: if_splits)

definition dm_demo_lost :: "(int, string list, unit) dm_faults" where
  "dm_demo_lost = no_dm_faults\<lparr>fd_ddl := \<lambda>_. Some ((), True)\<rparr>"

definition dm_ref_finished :: "string list dm_db" where
  "dm_ref_finished = snd (dm_FinalizeBootstrap (dm_calm dm_ref_env) dm_ref_boot demo_applier dm_demo_record
     (snd (dm_FinalizeBootstrap (dm_under dm_ref_env dm_demo_lost) dm_ref_boot demo_applier dm_demo_record
       (dm_demo_row_db ''review_pending''))))"

theorem dameng_finalize_resumes_witness:
  "(\<exists>row plan. dm_ckpts dm_ref_finished (a_job demo_applier) = Some row \<and> ck_state row = ''completed'' \<and> ck_plan row = Some plan \<and>
      list_all (item_gone dm_ref_boot demo_applier (dm_content dm_ref_finished)) (cp_items plan)) \<and>
   map (takeWhile (\<lambda>c. c \<noteq> CHR '' '')) (dm_content dm_ref_finished) = [''DROP'', ''ALTER'']"
proof
  have res: "resumable dm_ref_boot demo_applier dm_demo_record (dm_demo_row_db ''review_pending'')"
    unfolding resumable_def dm_demo_row_db_def dm_demo_record_def references_inside_def
    by (simp add: demo_applier_def in_review_def dm_default_row_def default_row_def ckpt_row.extend_def dm_ref_boot_def dm_name_def)
      code_simp
  have "valid_exclusions demo_applier dm_demo_record" by code_simp
  from dameng_finalize_resumes [OF dm_ref_drops res this, of "[dm_demo_lost]"]
  show "\<exists>row plan. dm_ckpts dm_ref_finished (a_job demo_applier) = Some row \<and> ck_state row = ''completed'' \<and> ck_plan row = Some plan \<and>
      list_all (item_gone dm_ref_boot demo_applier (dm_content dm_ref_finished)) (cp_items plan)"
    by (auto simp: dm_ref_finished_def dm_ref_boot_def dm_demo_record_def)
  show "map (takeWhile (\<lambda>c. c \<noteq> CHR '' '')) (dm_content dm_ref_finished) = [''DROP'', ''ALTER'']"
    by code_simp
qed

end
