(* ===== verification/CdcPosition.thy ===== *)
theory CdcPosition
  imports CdcTypes
begin

text \<open>
  Positions of the source log and their comparison (\<^verbatim>\<open>runner.go\<close>: \<open>PositionReached\<close>,
  \<open>PositionEquivalent\<close>, \<open>binlogIndex\<close>, \<open>formatSID\<close>, \<open>mergeGTID\<close>, \<open>addStats\<close>). The GTID sets of
  the package \<^verbatim>\<open>go-mysql\<close> are not part of the repository: \<open>'g\<close> is their type and the record
  \<open>gtid_lib\<close> their operations, a parameter of every definition that uses them.
\<close>

record 'g gtid_lib =
  ParseGTIDSet :: "string \<Rightarrow> 'g option"
  Contain :: "'g \<Rightarrow> 'g \<Rightarrow> bool"
  EqualSet :: "'g \<Rightarrow> 'g \<Rightarrow> bool"
  UpdateSet :: "'g \<Rightarrow> string \<Rightarrow> 'g option"
  SetString :: "'g \<Rightarrow> string"

text \<open>\<open>strconv.ParseUint(s, 10, 64)\<close>: digits only, no sign.\<close>

definition parse_uint64 :: "string \<Rightarrow> nat option" where
  "parse_uint64 s = (case parse_nat s of None \<Rightarrow> None | Some n \<Rightarrow> if n < 2 ^ 64 then Some n else None)"

definition binlogIndex :: "string \<Rightarrow> nat option" where
  "binlogIndex file =
     (case str_last_index file ''.'' of
        None \<Rightarrow> None
      | Some i \<Rightarrow> parse_uint64 (drop (Suc i) file))"

definition PositionReached :: "'g gtid_lib \<Rightarrow> Position \<Rightarrow> Position \<Rightarrow> bool" where
  "PositionReached lib applied requested =
     (if GTID requested \<noteq> [] \<and> GTID applied \<noteq> []
      then (case (ParseGTIDSet lib (GTID applied), ParseGTIDSet lib (GTID requested)) of
              (Some a, Some b) \<Rightarrow> Contain lib a b
            | _ \<Rightarrow> False)
      else if File requested = [] then True
      else if File applied = File requested then Pos requested \<le> Pos applied
      else (case (binlogIndex (File applied), binlogIndex (File requested)) of
              (Some ai, Some bi) \<Rightarrow> bi < ai
            | _ \<Rightarrow> str_less (File requested) (File applied)))"

definition PositionEquivalent :: "'g gtid_lib \<Rightarrow> Position \<Rightarrow> Position \<Rightarrow> bool" where
  "PositionEquivalent lib a b =
     (if File a \<noteq> [] \<and> File b \<noteq> [] \<and> (File a \<noteq> File b \<or> Pos a \<noteq> Pos b) then False
      else if GTID a \<noteq> [] \<and> GTID b \<noteq> []
      then (case (ParseGTIDSet lib (GTID a), ParseGTIDSet lib (GTID b)) of
              (Some x, Some y) \<Rightarrow> EqualSet lib x y
            | _ \<Rightarrow> False)
      else if File a = [] \<or> File b = [] then False
      else File a = File b \<and> Pos a = Pos b)"

definition hex_digit :: "nat \<Rightarrow> char" where
  "hex_digit d = (if d < 10 then char_of (48 + d) else char_of (87 + d))"

definition hex_encode :: "8 word list \<Rightarrow> string" where
  "hex_encode bs = concat (map (\<lambda>b. [hex_digit (unat b div 16), hex_digit (unat b mod 16)]) bs)"

definition formatSID :: "8 word list \<Rightarrow> string" where
  "formatSID sid =
     (let h = hex_encode sid in
      if length h \<noteq> 32 then h
      else take 8 h @ ''-'' @ take 4 (drop 8 h) @ ''-'' @ take 4 (drop 12 h) @ ''-'' @
           take 4 (drop 16 h) @ ''-'' @ drop 20 h)"

definition mergeGTID :: "'g gtid_lib \<Rightarrow> string \<Rightarrow> string \<Rightarrow> string" where
  "mergeGTID lib s one =
     (if one = [] then s
      else if s = [] then one
      else (case ParseGTIDSet lib s of
              None \<Rightarrow> s
            | Some g \<Rightarrow> (case UpdateSet lib g one of None \<Rightarrow> s | Some g' \<Rightarrow> SetString lib g')))"

definition addStats :: "Stats \<Rightarrow> Stats \<Rightarrow> Stats" where
  "addStats a b = a\<lparr>Inserts := i64 (Inserts a + Inserts b), Updates := i64 (Updates a + Updates b),
     Deletes := i64 (Deletes a + Deletes b), Skipped := i64 (Skipped a + Skipped b),
     Warnings := i64 (Warnings a + Warnings b), st_position := st_position b,
     LastEventAt := LastEventAt b\<rparr>"

section \<open>Order of file positions\<close>

lemma str_last_index_dot:
  "CHR ''.'' \<notin> set ds \<Longrightarrow> str_last_index (base @ CHR ''.'' # ds) ''.'' = Some (length base)"
proof (induction base)
  case Nil
  have "str_last_index ds ''.'' = None" if "CHR ''.'' \<notin> set ds" for ds
    using that by (induction ds) (auto simp: has_prefix_def)
  with Nil show ?case by simp
qed simp

lemma binlogIndex_name:
  assumes "list_all is_digit ds" "ds \<noteq> []" "digits_val 0 ds < 2 ^ 64"
  shows "binlogIndex (base @ ''.'' @ ds) = Some (digits_val 0 ds)"
proof -
  have "CHR ''.'' \<notin> set ds" using assms(1) by (auto simp: list_all_iff is_digit_def)
  then show ?thesis
    using assms by (simp add: binlogIndex_def str_last_index_dot parse_uint64_def parse_nat_def)
qed

lemma PositionReached_refl:
  "GTID p = [] \<Longrightarrow> PositionReached lib p p"
  by (simp add: PositionReached_def)

lemma PositionReached_numbered:
  assumes "list_all is_digit ds" "ds \<noteq> []" "digits_val 0 ds < 2 ^ 64"
    and "list_all is_digit es" "es \<noteq> []" "digits_val 0 es < 2 ^ 64"
    and "digits_val 0 ds = digits_val 0 es \<longrightarrow> ds = es"
  shows "PositionReached lib \<lparr>File = base @ ''.'' @ ds, Pos = p, GTID = g\<rparr>
           \<lparr>File = base @ ''.'' @ es, Pos = q, GTID = []\<rparr> \<longleftrightarrow>
         digits_val 0 es < digits_val 0 ds \<or> (digits_val 0 es = digits_val 0 ds \<and> q \<le> p)"
  using assms binlogIndex_name [of ds base] binlogIndex_name [of es base]
  by (auto simp: PositionReached_def)

section \<open>Names of binary log files\<close>

text \<open>MySQL numbers its log files with at least six digits.\<close>

definition pad_number :: "nat \<Rightarrow> string" where
  "pad_number n = replicate (6 - length (nat_digits n)) (CHR ''0'') @ nat_digits n"

definition log_position :: "string \<Rightarrow> nat \<Rightarrow> 32 word \<Rightarrow> Position" where
  "log_position base n p = \<lparr>File = base @ ''.'' @ pad_number n, Pos = p, GTID = []\<rparr>"

lemma digits_val_zeros [simp]: "digits_val 0 (replicate k (CHR ''0'') @ s) = digits_val 0 s"
  by (induction k) (simp_all add: digit_val_def)

lemma pad_number_props:
  "list_all is_digit (pad_number n)" "pad_number n \<noteq> []" "digits_val 0 (pad_number n) = n"
  by (simp_all add: pad_number_def nat_digits_all_digits is_digit_def list_all_iff [of is_digit "replicate _ _"])

lemma PositionReached_log:
  assumes "m < 2 ^ 64" "n < 2 ^ 64"
  shows "PositionReached lib (log_position base m p) (log_position base n q) \<longleftrightarrow> n < m \<or> (n = m \<and> q \<le> p)"
  unfolding log_position_def
  using PositionReached_numbered [of "pad_number m" "pad_number n" lib base p "[]" q] assms pad_number_props
  by auto

text \<open>Without GTIDs, positions in the numbered files of one binary log are compared by file number
  and then by offset, so a roll-over of the number's width (\<open>999999\<close> to \<open>1000000\<close>) keeps the order.\<close>

theorem PositionReached_file_order:
  assumes "list_all is_digit ds" "ds \<noteq> []" "digits_val 0 ds < 2 ^ 64"
    and "list_all is_digit es" "es \<noteq> []" "digits_val 0 es < 2 ^ 64"
    and "digits_val 0 ds = digits_val 0 es \<longrightarrow> ds = es"
  shows "PositionReached lib \<lparr>File = base @ ''.'' @ ds, Pos = p, GTID = g\<rparr>
           \<lparr>File = base @ ''.'' @ es, Pos = q, GTID = []\<rparr> \<longleftrightarrow>
         digits_val 0 es < digits_val 0 ds \<or> (digits_val 0 es = digits_val 0 ds \<and> q \<le> p)"
  using assms by (rule PositionReached_numbered)

theorem PositionReached_file_order_witness:
  "PositionReached \<lparr>ParseGTIDSet = \<lambda>_. None, Contain = \<lambda>_ (_ :: unit). False, EqualSet = \<lambda>_ _. False,
       UpdateSet = \<lambda>_ _. None, SetString = \<lambda>_. []\<rparr>
     \<lparr>File = ''mysql-bin'' @ ''.'' @ ''1000000'', Pos = 4, GTID = []\<rparr>
     \<lparr>File = ''mysql-bin'' @ ''.'' @ ''999999'', Pos = 1000, GTID = []\<rparr> \<longleftrightarrow>
   digits_val 0 ''999999'' < digits_val 0 ''1000000'' \<or>
   (digits_val 0 ''999999'' = digits_val 0 ''1000000'' \<and> (1000 :: 32 word) \<le> 4)"
  by (rule PositionReached_file_order) (simp_all add: is_digit_def digit_val_def)

end
