(* ===== verification/CdcTarget.thy ===== *)
theory CdcTarget
  imports CdcPostgres
begin

text \<open>
  The contract between the runner and a target applier (the Go interface \<open>targetApplier\<close>): applying
  a transaction is all or nothing and moves the checkpoint together with the data. What the runner
  derives from it is proved once in the locale; the PostgreSQL applier's model is an instance.
\<close>

locale target_applier =
  fixes app :: "'w \<Rightarrow> 'c list \<Rightarrow> Position \<Rightarrow> 's \<Rightarrow> ('e + Stats) \<times> 's"
    and ckpt :: "'s \<Rightarrow> Position option"
    and data :: "'s \<Rightarrow> 'd"
    and eff :: "'c list \<Rightarrow> 'd \<Rightarrow> 'd option"
  assumes app_law:
    "app w cs p s = (r, s') \<Longrightarrow>
     (s' = s \<and> \<not> is_ok r) \<or> (eff cs (data s) = Some (data s') \<and> ckpt s' = Some p)"
    and app_position: "app w cs p s = (Inr st, s') \<Longrightarrow> st_position st = p"
begin

lemma app_ok: "app w cs p s = (Inr st, s') \<Longrightarrow> eff cs (data s) = Some (data s') \<and> ckpt s' = Some p"
  using app_law by fastforce

lemma app_err: "app w cs p s = (Inl e, s') \<Longrightarrow> s' = s \<or> (eff cs (data s) = Some (data s') \<and> ckpt s' = Some p)"
  using app_law by fastforce

end

text \<open>The effect of a list of transactions on the tables.\<close>

fun effects :: "('c list \<Rightarrow> 'd \<Rightarrow> 'd option) \<Rightarrow> ('c list \<times> Position) list \<Rightarrow> 'd \<Rightarrow> 'd option" where
  "effects eff [] d = Some d"
| "effects eff ((cs, p) # txs) d = (case eff cs d of None \<Rightarrow> None | Some d' \<Rightarrow> effects eff txs d')"

lemma effects_append:
  "effects eff (xs @ ys) d = (case effects eff xs d of None \<Rightarrow> None | Some d' \<Rightarrow> effects eff ys d')"
  by (induction xs arbitrary: d) (auto split: option.splits)

text \<open>The PostgreSQL applier under given faults.\<close>

definition under :: "('v, 'd, 'e) pg_env \<Rightarrow> ('v, 'd, 'e) faults \<Rightarrow> ('v, 'd, 'e) pg_env" where
  "under env w = env\<lparr>env_faults := w\<rparr>"

lemma calm_under [simp]: "calm (under env w) = calm env"
  by (simp add: calm_def under_def)

lemma tx_effect_under [simp]: "tx_effect (under env w) = tx_effect env"
  by (intro ext) (simp only: tx_effect_def calm_under)

lemma Apply_law:
  assumes "Apply env a cs p s = (r, s')"
  shows "(s' = s \<and> \<not> is_ok r) \<or>
    (tx_effect env a cs (content s) = Some (content s') \<and> checkpoint_of a s' = Some p)"
proof -
  from assms have "with_tx env (apply_body env a cs p) s = (r, s')" by (simp add: Apply_def)
  then show ?thesis
    by (cases rule: with_tx_cases) (auto dest: apply_body_effect)
qed

lemma Apply_position: "Apply env a cs p s = (Inr st, s') \<Longrightarrow> st_position st = p"
  unfolding Apply_def by (drule with_tx_Inr) (rule apply_body_effect(3))

interpretation postgres: target_applier "\<lambda>w. Apply (under env w) a" "checkpoint_of a" content "tx_effect env a"
  for env a
  by unfold_locales (auto dest: Apply_law Apply_position)

end
