(* ===== verification/CdcRunner.thy ===== *)
theory CdcRunner
  imports CdcPosition CdcLocators CdcTarget
begin

text \<open>
  The replication loop (\<^verbatim>\<open>runner.go\<close>, \<open>Runner.Run\<close>). The state is what the Go function keeps in its
  local variables, plus the hooks called so far, the applier's own state and, as a history variable,
  the transactions applied. One iteration of the loop is \<open>run_step\<close>, from a \<open>tick\<close>: what the
  outside answers during the iteration (the next event or error of the stream, whether the job's context
  is cancelled, the source's current position, the pending cutover boundary, which timers are due). The
  normalisation of DaMeng timestamps and JSON against the source is a parameter.
\<close>

section \<open>Events and environment\<close>

datatype rows_kind = RowsInsert | RowsDelete | RowsUpdate | RowsUnknown

datatype 'v event =
    RotateEvent string "64 word"
  | GTIDEvent "8 word list" int
  | RowsEvent string string rows_kind "'v list list"
  | XIDEvent "string option"
  | QueryEvent string string
  | OtherEvent

record 'v binlog_event =
  ev_LogPos :: "32 word"
  ev_Timestamp :: "32 word"
  ev_Event :: "'v event"

record 'e clock =
  ck_head_due :: bool
  ck_current :: "'e + Position"
  ck_stats_due :: bool
  ck_since :: int
  ck_boundary :: "Position option"

record ('v, 'e, 'w) tick =
  tk_world :: 'w
  tk_event :: "'e + 'v binlog_event"
  tk_cancelled :: bool
  tk_commit :: "'e clock"
  tk_tail_due :: bool
  tk_tail :: "'e clock"

datatype 'e run_error =
    TargetError "'e cdc_error"
  | SourceError 'e
  | MetaError meta_error
  | CutoverReady
  | DDLPause
  | Cancelled
  | BadLocatorVersion int
  | NoLocatorVersion
  | NoStart
  | BadStartGTID string

text \<open>
  The interface \<open>targetApplier\<close>, as far as the runner uses it. The first argument is what happens
  to the call outside the process (for PostgreSQL: the faults of the connection); every tick has its own.
\<close>

record ('v, 's, 'e, 'w) target_ops =
  t_triggers :: "'w \<Rightarrow> TableInfo list \<Rightarrow> 's \<Rightarrow> 'e cdc_error option"
  t_load_record :: "'w \<Rightarrow> 's \<Rightarrow> 'e cdc_error + BootstrapRecord option"
  t_save_record :: "'w \<Rightarrow> BootstrapRecord \<Rightarrow> 's \<Rightarrow> ('e cdc_error + unit) \<times> 's"
  t_load :: "'w \<Rightarrow> 's \<Rightarrow> 'e cdc_error + Position option"
  t_save :: "'w \<Rightarrow> Position \<Rightarrow> 's \<Rightarrow> ('e cdc_error + unit) \<times> 's"
  t_apply :: "'w \<Rightarrow> 'v Change list \<Rightarrow> Position \<Rightarrow> 's \<Rightarrow> ('e cdc_error + Stats) \<times> 's"

record ('v, 's, 'e, 'g, 'w) run_ctx =
  rc_cfg :: Config
  rc_hooks :: Hooks
  rc_tables :: "TableInfo list"
  rc_gtid :: "'g gtid_lib"
  rc_ops :: "('v, 's, 'e, 'w) target_ops"
  rc_normalize :: "'v Change list \<Rightarrow> 'e + 'v Change list"

record ('v, 's) run_state =
  r_pos :: Position
  r_applied :: Position
  r_use_gtid :: bool
  r_current_gtid :: string
  r_changes :: "'v Change list"
  r_totals :: Stats
  r_head :: Position
  r_graceful :: bool
  r_last_status :: string
  r_published :: bool
  r_hooks :: "hook_call list"
  r_target :: 's
  r_history :: "('v Change list \<times> Position) list"

section \<open>Publishing\<close>

definition emit_status :: "('v, 's, 'e, 'g, 'w) run_ctx \<Rightarrow> string \<Rightarrow> ('v, 's) run_state \<Rightarrow> ('v, 's) run_state" where
  "emit_status rc status st =
     (if has_status (rc_hooks rc) \<and> status \<noteq> r_last_status st
      then st\<lparr>r_hooks := r_hooks st @ [HookStatus status status], r_last_status := status\<rparr> else st)"

definition emit_stats :: "('v, 's, 'e, 'g, 'w) run_ctx \<Rightarrow> bool \<Rightarrow> ('v, 's) run_state \<Rightarrow> ('v, 's) run_state" where
  "emit_stats rc due st =
     (if has_stats (rc_hooks rc) \<and> (due \<or> \<not> r_published st)
      then st\<lparr>r_hooks := r_hooks st @ [HookStats (r_totals st)], r_published := True\<rparr> else st)"

definition report_position :: "('v, 's) run_state \<Rightarrow> ('v, 's) run_state" where
  "report_position st = st\<lparr>r_totals := (r_totals st)\<lparr>st_position := r_applied st, SourceHead := r_head st\<rparr>\<rparr>"

text \<open>\<open>totals.Position, totals.SourceHead = applied, head; emitStats(true)\<close>, before an error return.\<close>

definition report_failure :: "('v, 's, 'e, 'g, 'w) run_ctx \<Rightarrow> ('v, 's) run_state \<Rightarrow> ('v, 's) run_state" where
  "report_failure rc st = emit_stats rc True (report_position st)"

definition refresh_totals :: "('v, 's, 'e, 'g, 'w) run_ctx \<Rightarrow> 'e clock \<Rightarrow> ('v, 's) run_state \<Rightarrow> ('v, 's) run_state" where
  "refresh_totals rc cl st =
     (let st1 = report_position st;
          caught = PositionReached (rc_gtid rc) (r_applied st) (r_head st);
          lag = (if caught then 0
                 else if LastEventAt (r_totals st1) \<noteq> None then max 0 (ck_since cl)
                 else LagSeconds (r_totals st1))
      in st1\<lparr>r_totals := (r_totals st1)\<lparr>CaughtUp := caught, LagSeconds := lag\<rparr>\<rparr>)"

definition publish ::
  "('v, 's, 'e, 'g, 'w) run_ctx \<Rightarrow> 'e clock \<Rightarrow> int option \<Rightarrow> bool \<Rightarrow> ('v, 's) run_state
     \<Rightarrow> 'e run_error option \<times> ('v, 's) run_state" where
  "publish rc cl eventTime force st =
     (let st1 = (case eventTime of None \<Rightarrow> st
                 | Some t \<Rightarrow> st\<lparr>r_totals := (r_totals st)\<lparr>LastEventAt := Some t\<rparr>\<rparr>)
      in case (if force \<or> ck_head_due cl then ck_current cl else Inr (r_head st1)) of
           Inl e \<Rightarrow> (Some (SourceError e), st1)
         | Inr latest \<Rightarrow>
             let st2 = refresh_totals rc cl (st1\<lparr>r_head := latest\<rparr>) in
             (case ck_boundary cl of
                Some boundary \<Rightarrow>
                  let reached = PositionReached (rc_gtid rc) (r_applied st2) boundary;
                      st3 = emit_stats rc (ck_stats_due cl \<or> force \<or> r_graceful st2 \<or> reached) st2;
                      st4 = emit_status rc ''cutting_over'' st3
                  in (if reached then Some CutoverReady else None, st4)
              | None \<Rightarrow>
                  let st3 = emit_stats rc (ck_stats_due cl \<or> force \<or> r_graceful st2) st2
                  in (None, emit_status rc (if CaughtUp (r_totals st3) then ''running'' else ''catching_up'') st3)))"

section \<open>Committing a source transaction\<close>

definition report_conflict :: "('v, 's, 'e, 'g, 'w) run_ctx \<Rightarrow> 'e cdc_error \<Rightarrow> ('v, 's) run_state \<Rightarrow> ('v, 's) run_state" where
  "report_conflict rc e st =
     (case as_conflict e of
        Some (table, action, hash) \<Rightarrow>
          if has_conflict (rc_hooks rc)
          then st\<lparr>r_hooks := r_hooks st @ [HookConflict \<lparr>rc_table = table, rc_action = action,
                 rc_position = r_pos st, rc_hash = hash\<rparr>]\<rparr>
          else st
      | None \<Rightarrow> st)"

definition normalize_changes :: "('v, 's, 'e, 'g, 'w) run_ctx \<Rightarrow> 'v Change list \<Rightarrow> 'e + 'v Change list" where
  "normalize_changes rc cs = (if TargetDBType (rc_cfg rc) = ''dameng'' then rc_normalize rc cs else Inr cs)"

text \<open>The first half of \<open>commit\<close>: skip what the checkpoint already covers, apply the rest.\<close>

definition apply_pending ::
  "('v, 's, 'e, 'g, 'w) run_ctx \<Rightarrow> 'w \<Rightarrow> ('v, 's) run_state \<Rightarrow> 'e run_error option \<times> ('v, 's) run_state" where
  "apply_pending rc w st =
     (if PositionReached (rc_gtid rc) (r_applied st) (r_pos st) then (None, st\<lparr>r_changes := []\<rparr>)
      else (case normalize_changes rc (r_changes st) of
              Inl e \<Rightarrow> (Some (SourceError e), report_failure rc st)
            | Inr cs \<Rightarrow>
                (case t_apply (rc_ops rc) w cs (r_pos st) (r_target st) of
                   (Inl e, s') \<Rightarrow>
                     (Some (TargetError e), report_failure rc (report_conflict rc e (st\<lparr>r_changes := cs, r_target := s'\<rparr>)))
                 | (Inr stats, s') \<Rightarrow>
                     (None, st\<lparr>r_changes := [], r_totals := addStats (r_totals st) stats, r_applied := r_pos st,
                               r_target := s', r_history := r_history st @ [(cs, r_pos st)]\<rparr>))))"

definition commit ::
  "('v, 's, 'e, 'g, 'w) run_ctx \<Rightarrow> 'w \<Rightarrow> 'e clock \<Rightarrow> bool \<Rightarrow> int option \<Rightarrow> ('v, 's) run_state
     \<Rightarrow> 'e run_error option \<times> ('v, 's) run_state" where
  "commit rc w cl cancelled eventTime st =
     (case apply_pending rc w st of
        (Some e, st1) \<Rightarrow> (Some e, st1)
      | (None, st1) \<Rightarrow>
          (case publish rc cl eventTime False st1 of
             (Some e, st2) \<Rightarrow> (Some e, report_failure rc st2)
           | (None, st2) \<Rightarrow> (if r_graceful st2 \<and> cancelled then Some Cancelled else None, st2)))"

section \<open>Events\<close>

definition ddl_words :: "string list" where
  "ddl_words = [''CREATE'', ''ALTER'', ''DROP'', ''RENAME'', ''TRUNCATE'']"

definition ddlPrefix :: "string \<Rightarrow> bool" where
  "ddlPrefix q =
     (let s = dropWhile is_re_space q in
      list_ex (\<lambda>w. has_prefix (to_upper s) w \<and> (case drop (length w) s of [] \<Rightarrow> False | c # cs \<Rightarrow> is_re_space c))
        ddl_words)"

definition event_time :: "32 word \<Rightarrow> int option" where
  "event_time ts = (if 0 < ts then Some (uint ts) else None)"

fun update_pairs :: "TableInfo \<Rightarrow> 'v list list \<Rightarrow> 'v Change list" where
  "update_pairs t (b # a # rows) = \<lparr>Action = ''update'', Table = t, Before = b, After = a\<rparr> # update_pairs t rows"
| "update_pairs t _ = []"

definition row_changes :: "TableInfo \<Rightarrow> rows_kind \<Rightarrow> 'v list list \<Rightarrow> 'v Change list" where
  "row_changes t k rows =
     (case k of
        RowsInsert \<Rightarrow> map (\<lambda>row. \<lparr>Action = ''insert'', Table = t, Before = [], After = row\<rparr>) rows
      | RowsDelete \<Rightarrow> map (\<lambda>row. \<lparr>Action = ''delete'', Table = t, Before = row, After = []\<rparr>) rows
      | RowsUpdate \<Rightarrow> update_pairs t rows
      | RowsUnknown \<Rightarrow> [])"

text \<open>What a case of the switch does to the loop: fall through to the tail, continue, or return.\<close>

datatype 'e flow = Fall | Continue | Return "'e run_error"

definition flow_of :: "'e run_error option \<Rightarrow> 'e flow" where
  "flow_of r = (case r of None \<Rightarrow> Fall | Some e \<Rightarrow> Return e)"

definition merge_position :: "('v, 's, 'e, 'g, 'w) run_ctx \<Rightarrow> ('v, 's) run_state \<Rightarrow> ('v, 's) run_state" where
  "merge_position rc st =
     (if r_use_gtid st
      then st\<lparr>r_pos := (r_pos st)\<lparr>GTID := mergeGTID (rc_gtid rc) (GTID (r_pos st)) (r_current_gtid st)\<rparr>\<rparr>
      else st)"

definition xid_position :: "('v, 's, 'e, 'g, 'w) run_ctx \<Rightarrow> string option \<Rightarrow> ('v, 's) run_state \<Rightarrow> ('v, 's) run_state" where
  "xid_position rc gset st =
     (case gset of
        Some g \<Rightarrow> if r_use_gtid st then st\<lparr>r_pos := (r_pos st)\<lparr>GTID := g\<rparr>\<rparr> else st
      | None \<Rightarrow> if r_current_gtid st \<noteq> [] then merge_position rc st else st)"

definition query_event ::
  "('v, 's, 'e, 'g, 'w) run_ctx \<Rightarrow> ('v, 'e, 'w) tick \<Rightarrow> 32 word \<Rightarrow> string \<Rightarrow> string \<Rightarrow> ('v, 's) run_state
     \<Rightarrow> 'e flow \<times> ('v, 's) run_state" where
  "query_event rc tk ts schema text st =
     (let query = trim_space text; upper = to_upper query; db = SourceDatabase (rc_cfg rc) in
      if ddlPrefix query \<and> (schema = db \<or> str_contains query db)
      then
        let st1 = merge_position rc st;
            st2 = (if has_ddl (rc_hooks rc)
                   then (let s = report_failure rc st1 in s\<lparr>r_hooks := r_hooks s @ [HookDDL query (r_pos s)]\<rparr>)
                   else st1)
        in (Return DDLPause, st2)
      else if upper = ''BEGIN'' \<or> has_prefix upper ''SAVEPOINT'' \<or> has_prefix upper ''XA ''
      then (Fall, st)
      else
        let st1 = (if upper = ''ROLLBACK'' then st\<lparr>r_changes := []\<rparr> else st) in
        if upper = ''COMMIT'' \<or> upper = ''ROLLBACK'' \<or> r_changes st1 = []
        then (let (r, st2) = commit rc (tk_world tk) (tk_commit tk) (tk_cancelled tk) (event_time ts) (merge_position rc st1)
              in (flow_of r, st2))
        else (Fall, st1))"

definition handle_event ::
  "('v, 's, 'e, 'g, 'w) run_ctx \<Rightarrow> ('v, 'e, 'w) tick \<Rightarrow> 'v binlog_event \<Rightarrow> ('v, 's) run_state \<Rightarrow> 'e flow \<times> ('v, 's) run_state" where
  "handle_event rc tk ev st0 =
     (let st = (if 0 < ev_LogPos ev then st0\<lparr>r_pos := (r_pos st0)\<lparr>Pos := ev_LogPos ev\<rparr>\<rparr> else st0) in
      case ev_Event ev of
        RotateEvent name p \<Rightarrow> (Fall, st\<lparr>r_pos := (r_pos st)\<lparr>File := name, Pos := ucast p\<rparr>\<rparr>)
      | GTIDEvent sid gno \<Rightarrow>
          let next = formatSID sid @ '':'' @ itoa gno;
              st1 = (if next = r_current_gtid st \<and> r_changes st \<noteq> [] then st\<lparr>r_changes := []\<rparr> else st)
          in (Fall, st1\<lparr>r_current_gtid := next\<rparr>)
      | RowsEvent schema table kind rows \<Rightarrow>
          if schema \<noteq> SourceDatabase (rc_cfg rc) then (Continue, st)
          else (case tableMap (rc_tables rc) table of
                  None \<Rightarrow> (Continue, st)
                | Some t \<Rightarrow> (Fall, st\<lparr>r_changes := r_changes st @ row_changes t kind rows\<rparr>))
      | XIDEvent gset \<Rightarrow>
          let (r, st1) = commit rc (tk_world tk) (tk_commit tk) (tk_cancelled tk) (event_time (ev_Timestamp ev)) (xid_position rc gset st)
          in (flow_of r, st1)
      | QueryEvent schema text \<Rightarrow> query_event rc tk (ev_Timestamp ev) schema text st
      | OtherEvent \<Rightarrow> (Fall, st))"

definition run_tail ::
  "('v, 's, 'e, 'g, 'w) run_ctx \<Rightarrow> ('v, 'e, 'w) tick \<Rightarrow> ('v, 's) run_state \<Rightarrow> 'e run_error option \<times> ('v, 's) run_state" where
  "run_tail rc tk st =
     (if tk_tail_due tk
      then (case publish rc (tk_tail tk) None True st of
              (Some e, st1) \<Rightarrow> (Some e, report_failure rc st1)
            | (None, st1) \<Rightarrow> (None, st1))
      else (None, st))"

text \<open>One iteration; \<open>None\<close>: the loop goes on.\<close>

definition run_step ::
  "('v, 's, 'e, 'g, 'w) run_ctx \<Rightarrow> ('v, 'e, 'w) tick \<Rightarrow> ('v, 's) run_state \<Rightarrow> 'e run_error option \<times> ('v, 's) run_state" where
  "run_step rc tk st =
     (case tk_event tk of
        Inl e \<Rightarrow>
          if tk_cancelled tk \<and> \<not> r_graceful st \<and> r_changes st \<noteq> [] then (None, st\<lparr>r_graceful := True\<rparr>)
          else (Some (if tk_cancelled tk then Cancelled else SourceError e), report_failure rc st)
      | Inr ev \<Rightarrow>
          (case handle_event rc tk ev st of
             (Return e, st1) \<Rightarrow> (Some e, st1)
           | (Continue, st1) \<Rightarrow> (None, st1)
           | (Fall, st1) \<Rightarrow> run_tail rc tk st1))"

fun run_loop ::
  "('v, 's, 'e, 'g, 'w) run_ctx \<Rightarrow> ('v, 'e, 'w) tick list \<Rightarrow> ('v, 's) run_state \<Rightarrow> 'e run_error option \<times> ('v, 's) run_state" where
  "run_loop rc [] st = (None, st)"
| "run_loop rc (tk # tks) st =
     (case run_step rc tk st of
        (Some e, st1) \<Rightarrow> (Some e, st1)
      | (None, st1) \<Rightarrow> run_loop rc tks st1)"

section \<open>Starting\<close>

text \<open>
  The locators: replayed from the checkpoint's record, or from the job's configuration, which is then
  saved as the first record. \<open>hash\<close> is \<open>HashBootstrapManifest\<close>. An error carries the target's state.
\<close>

definition init_locators ::
  "Config \<Rightarrow> (BootstrapRecord \<Rightarrow> string) \<Rightarrow> ('v, 's, 'e, 'w) target_ops \<Rightarrow> 'w \<Rightarrow> TableInfo list \<Rightarrow> 's
     \<Rightarrow> ('e run_error \<times> 's) + TableInfo list \<times> 's" where
  "init_locators cfg hash ops w tables s =
     (case t_load_record ops w s of
        Inl e \<Rightarrow> Inl (TargetError e, s)
      | Inr (Some record) \<Rightarrow>
          if br_locator_version record \<noteq> LocatorStrategyVersion
          then Inl (BadLocatorVersion (br_locator_version record), s)
          else (case ApplyLocatorStrategies tables (br_locators record) of
                  Inl e \<Rightarrow> Inl (MetaError e, s)
                | Inr ts \<Rightarrow> Inr (ts, s))
      | Inr None \<Rightarrow>
          if cfg_locator_version cfg \<noteq> LocatorStrategyVersion then Inl (NoLocatorVersion, s)
          else (case ApplyLocatorStrategies tables (cfg_locators cfg) of
                  Inl e \<Rightarrow> Inl (MetaError e, s)
                | Inr ts \<Rightarrow>
                    let record = \<lparr>br_state = ''completed'', br_position = Start cfg,
                          br_effective = tableNames ts, br_excluded = cfg_exclusions cfg,
                          br_manifest_hash = cfg_manifest_hash cfg, br_failed = [], br_report_version = 0,
                          br_locator_version = LocatorStrategyVersion, br_locators = cfg_locators cfg\<rparr>;
                        record' = (if br_manifest_hash record = []
                                   then record\<lparr>br_manifest_hash := hash record\<rparr> else record)
                    in (case t_save_record ops w record' s of
                          (Inl e, s') \<Rightarrow> Inl (TargetError e, s')
                        | (Inr u, s') \<Rightarrow> Inr (ts, s'))))"

definition init_position ::
  "Config \<Rightarrow> ('v, 's, 'e, 'w) target_ops \<Rightarrow> 'w \<Rightarrow> 's \<Rightarrow> ('e run_error \<times> 's) + Position \<times> 's" where
  "init_position cfg ops w s =
     (case t_load ops w s of
        Inl e \<Rightarrow> Inl (TargetError e, s)
      | Inr cp \<Rightarrow>
          let start = (case cp of None \<Rightarrow> Start cfg | Some p \<Rightarrow> p) in
          if GTID start = [] \<and> File start = [] then Inl (NoStart, s)
          else if cp \<noteq> None then Inr (start, s)
          else (case t_save ops w start s of
                  (Inl e, s') \<Rightarrow> Inl (TargetError e, s')
                | (Inr u, s') \<Rightarrow> Inr (start, s')))"

definition initial_state :: "('v, 's, 'e, 'g, 'w) run_ctx \<Rightarrow> Position \<Rightarrow> Position \<Rightarrow> 's \<Rightarrow> ('v, 's) run_state" where
  "initial_state rc start head s =
     \<lparr>r_pos = start, r_applied = start, r_use_gtid = (GTID start \<noteq> []), r_current_gtid = GTID start,
      r_changes = [], r_totals = zero_stats\<lparr>st_position := start\<rparr>, r_head = head, r_graceful = False,
      r_last_status = [], r_published = False,
      r_hooks = (if has_status (rc_hooks rc) then [HookStatus ''initializing'' ''initializing''] else []),
      r_target = s, r_history = []\<rparr>"

text \<open>
  \<open>Run\<close>: \<open>rc\<close> carries the tables as loaded, \<open>current\<close> the first read of the source's position. The
  result is the error \<open>Run\<close> returns (\<open>None\<close> while it is still looping) and the target's state.
\<close>

definition run ::
  "('v, 's, 'e, 'g, 'w) run_ctx \<Rightarrow> 'w \<Rightarrow> (BootstrapRecord \<Rightarrow> string) \<Rightarrow> 'e + Position \<Rightarrow> 'e clock \<Rightarrow> ('v, 'e, 'w) tick list \<Rightarrow> 's
     \<Rightarrow> 'e run_error option \<times> 's" where
  "run rc w hash current cl tks s =
     (case t_triggers (rc_ops rc) w (rc_tables rc) s of
        Some e \<Rightarrow> (Some (TargetError e), s)
      | None \<Rightarrow>
          (case init_locators (rc_cfg rc) hash (rc_ops rc) w (rc_tables rc) s of
             Inl (e, s1) \<Rightarrow> (Some e, s1)
           | Inr (ts, s1) \<Rightarrow>
               (case init_position (rc_cfg rc) (rc_ops rc) w s1 of
                  Inl (e, s2) \<Rightarrow> (Some e, s2)
                | Inr (start, s2) \<Rightarrow>
                    if GTID start \<noteq> [] \<and> ParseGTIDSet (rc_gtid rc) (GTID start) = None
                    then (Some (BadStartGTID (GTID start)), s2)
                    else (case current of
                            Inl e \<Rightarrow> (Some (SourceError e), s2)
                          | Inr head \<Rightarrow>
                              let rc' = rc\<lparr>rc_tables := ts\<rparr> in
                              (case publish rc' cl None False (initial_state rc' start head s2) of
                                 (Some e, st) \<Rightarrow> (Some e, r_target st)
                               | (None, st) \<Rightarrow>
                                   (let (r, st') = run_loop rc' tks st in (r, r_target st')))))))"

end
