(* ===== verification/CdcReplication.thy ===== *)
theory CdcReplication
  imports CdcRunner "HOL-Library.Sublist"
begin

text \<open>
  Correctness of the replication loop. A reader cuts the delivered events into the source's transactions,
  without looking at the target: each is what the row events since the end of the previous one say about
  the selected tables. What is in the target at any moment, over any number of runs, crashes, lost commits
  and restarts, is then the result of the delivered transactions that the checkpoint did not yet cover, in
  order, each once and with none left out, and the checkpoint is the position of the last of them. Proved
  in a locale over the interface of the target applier and instantiated with the two appliers.
\<close>

section \<open>The transactions of a stream of events\<close>

text \<open>
  What a reader of the stream knows: the position, whether positions carry GTID sets, the GTID of the open
  transaction and its changes so far.
\<close>

record 'v reader =
  rd_pos :: Position
  rd_use_gtid :: bool
  rd_gtid :: string
  rd_changes :: "'v Change list"

definition reader_at :: "Position \<Rightarrow> 'v reader" where
  "reader_at p = \<lparr>rd_pos = p, rd_use_gtid = (GTID p \<noteq> []), rd_gtid = GTID p, rd_changes = []\<rparr>"

text \<open>The changes of a rows event: those of the source database's selected tables.\<close>

definition selected_changes ::
  "('v, 's, 'e, 'g, 'w) run_ctx \<Rightarrow> string \<Rightarrow> string \<Rightarrow> rows_kind \<Rightarrow> 'v list list \<Rightarrow> 'v Change list" where
  "selected_changes rc schema table kind rows =
     (if schema \<noteq> SourceDatabase (rc_cfg rc) then []
      else (case tableMap (rc_tables rc) table of None \<Rightarrow> [] | Some t \<Rightarrow> row_changes t kind rows))"

fun move_to :: "32 word \<Rightarrow> Position \<Rightarrow> Position" where
  "move_to lp p = (if 0 < lp then p\<lparr>Pos := lp\<rparr> else p)"

definition with_gtid :: "('v, 's, 'e, 'g, 'w) run_ctx \<Rightarrow> 'v reader \<Rightarrow> Position" where
  "with_gtid rc rd =
     (if rd_use_gtid rd then (rd_pos rd)\<lparr>GTID := mergeGTID (rc_gtid rc) (GTID (rd_pos rd)) (rd_gtid rd)\<rparr> else rd_pos rd)"

text \<open>What an event is to the reader: nothing to report, the end of a transaction, or a change of the schema,
  where reading stops.\<close>

datatype 'v reading = Goes "'v reader" | Ends "'v reader" "'v Change list" Position | Stops

definition ends_at :: "'v Change list \<Rightarrow> Position \<Rightarrow> 'v reader \<Rightarrow> 'v reading" where
  "ends_at cs p rd = Ends (rd\<lparr>rd_pos := p, rd_changes := []\<rparr>) cs p"

definition read_statement ::
  "('v, 's, 'e, 'g, 'w) run_ctx \<Rightarrow> string \<Rightarrow> string \<Rightarrow> 'v reader \<Rightarrow> 'v reading" where
  "read_statement rc schema text rd =
     (let query = trim_space text; upper = to_upper query; db = SourceDatabase (rc_cfg rc);
          cs = (if upper = ''ROLLBACK'' then [] else rd_changes rd) in
      if ddlPrefix query \<and> (schema = db \<or> str_contains query db) then Stops
      else if upper = ''BEGIN'' \<or> has_prefix upper ''SAVEPOINT'' \<or> has_prefix upper ''XA '' then Goes rd
      else if upper \<in> {''COMMIT'', ''ROLLBACK''} \<or> cs = [] then ends_at cs (with_gtid rc rd) rd
      else Goes rd)"

definition read_event :: "('v, 's, 'e, 'g, 'w) run_ctx \<Rightarrow> 'v binlog_event \<Rightarrow> 'v reader \<Rightarrow> 'v reading" where
  "read_event rc ev rd0 =
     (let rd = rd0\<lparr>rd_pos := move_to (ev_LogPos ev) (rd_pos rd0)\<rparr> in
      case ev_Event ev of
        RotateEvent name p \<Rightarrow> Goes (rd\<lparr>rd_pos := (rd_pos rd)\<lparr>File := name, Pos := ucast p\<rparr>\<rparr>)
      | GTIDEvent sid gno \<Rightarrow>
          (let gtid = formatSID sid @ '':'' @ itoa gno in
           Goes (rd\<lparr>rd_gtid := gtid, rd_changes := (if gtid = rd_gtid rd then [] else rd_changes rd)\<rparr>))
      | RowsEvent schema table kind rows \<Rightarrow>
          Goes (rd\<lparr>rd_changes := rd_changes rd @ selected_changes rc schema table kind rows\<rparr>)
      | XIDEvent gset \<Rightarrow>
          ends_at (rd_changes rd)
            (case gset of
               Some g \<Rightarrow> if rd_use_gtid rd then (rd_pos rd)\<lparr>GTID := g\<rparr> else rd_pos rd
             | None \<Rightarrow> if rd_gtid rd \<noteq> [] then with_gtid rc rd else rd_pos rd) rd
      | QueryEvent schema text \<Rightarrow> read_statement rc schema text rd
      | OtherEvent \<Rightarrow> Goes rd)"

fun source_txs ::
  "('v, 's, 'e, 'g, 'w) run_ctx \<Rightarrow> 'v reader \<Rightarrow> 'v binlog_event list \<Rightarrow> ('v Change list \<times> Position) list" where
  "source_txs rc rd [] = []"
| "source_txs rc rd (ev # evs) =
     (case read_event rc ev rd of
        Goes rd' \<Rightarrow> source_txs rc rd' evs
      | Ends rd' cs p \<Rightarrow> (cs, p) # source_txs rc rd' evs
      | Stops \<Rightarrow> [])"

text \<open>Of the transactions read, those that are due at a target whose checkpoint is \<open>a\<close>, as the target gets them.\<close>

fun due_txs ::
  "('v, 's, 'e, 'g, 'w) run_ctx \<Rightarrow> Position \<Rightarrow> ('v Change list \<times> Position) list \<Rightarrow> ('v Change list \<times> Position) list" where
  "due_txs rc a [] = []"
| "due_txs rc a ((cs, p) # txs) =
     (if PositionReached (rc_gtid rc) a p then due_txs rc a txs
      else (case normalize_changes rc cs of
              Inl e \<Rightarrow> []
            | Inr cs' \<Rightarrow> (cs', p) # due_txs rc p txs))"

text \<open>The events a run of the loop is given.\<close>

definition delivered :: "('v, 'e, 'w) tick list \<Rightarrow> 'v binlog_event list" where
  "delivered tks = concat (map (\<lambda>tk. case tk_event tk of Inl e \<Rightarrow> [] | Inr ev \<Rightarrow> [ev]) tks)"

lemma delivered_simps [simp]:
  "delivered [] = []"
  "delivered (tk # tks) = (case tk_event tk of Inl e \<Rightarrow> delivered tks | Inr ev \<Rightarrow> ev # delivered tks)"
  by (auto simp: delivered_def split: sum.splits)

section \<open>The contract of a target\<close>

fun advances :: "'g gtid_lib \<Rightarrow> Position \<Rightarrow> Position list \<Rightarrow> bool" where
  "advances lib a [] = True"
| "advances lib a (p # ps) = (\<not> PositionReached lib a p \<and> advances lib p ps)"

lemma advances_append:
  "advances lib a (ps @ qs) \<longleftrightarrow> advances lib a ps \<and> advances lib (last (a # ps)) qs"
  by (induction ps arbitrary: a) auto

text \<open>\<open>txs\<close> is what has happened to a target whose checkpoint was \<open>a\<close> and whose tables were \<open>d\<close>.\<close>

definition replicated ::
  "'g gtid_lib \<Rightarrow> ('s \<Rightarrow> Position option) \<Rightarrow> ('s \<Rightarrow> 'd) \<Rightarrow> ('c list \<Rightarrow> 'd \<Rightarrow> 'd option) \<Rightarrow> Position \<Rightarrow> 'd \<Rightarrow> 's
     \<Rightarrow> ('c list \<times> Position) list \<Rightarrow> bool" where
  "replicated lib ckpt data eff a d s txs \<longleftrightarrow>
     effects eff txs d = Some (data s) \<and> advances lib a (map snd txs) \<and>
     ckpt s = Some (last (a # map snd txs))"

lemma replicated_trans:
  assumes "replicated lib ckpt data eff a d s txs"
    and "replicated lib ckpt data eff (last (a # map snd txs)) (data s) s' txs'"
  shows "replicated lib ckpt data eff a d s' (txs @ txs')"
proof -
  have "last (a # map snd (txs @ txs')) = last (last (a # map snd txs) # map snd txs')" by simp
  with assms show ?thesis
    unfolding replicated_def by (auto simp: effects_append advances_append)
qed

locale replication_target = target_applier "t_apply T" ckpt data eff
  for T :: "('v, 's, 'e, 'w) target_ops"
    and ckpt :: "'s \<Rightarrow> Position option" and data :: "'s \<Rightarrow> 'd"
    and eff :: "'v Change list \<Rightarrow> 'd \<Rightarrow> 'd option" +
  assumes load_record_none: "t_load_record T w s = Inr None \<Longrightarrow> ckpt s = None"
    and load_law: "t_load T w s = Inr cp \<Longrightarrow> cp = ckpt s"
    and save_law: "t_save T w p s = (r, s') \<Longrightarrow> data s' = data s \<and> (s' = s \<and> \<not> is_ok r \<or> ckpt s' = Some p)"
    and save_record_law: "t_save_record T w rec s = (r, s') \<Longrightarrow> ckpt s = None \<Longrightarrow>
      data s' = data s \<and> (s' = s \<and> \<not> is_ok r \<or> ckpt s' = Some (br_position rec))"

section \<open>The loop reads what the reader reads\<close>

definition core :: "('v, 's) run_state \<Rightarrow> 's \<times> Position \<times> ('v Change list \<times> Position) list" where
  "core st = (r_target st, r_applied st, r_history st)"

definition reader_of :: "('v, 's) run_state \<Rightarrow> 'v reader" where
  "reader_of st = \<lparr>rd_pos = r_pos st, rd_use_gtid = r_use_gtid st, rd_gtid = r_current_gtid st,
     rd_changes = r_changes st\<rparr>"

lemma reader_of_sel [simp]:
  "rd_pos (reader_of st) = r_pos st" "rd_use_gtid (reader_of st) = r_use_gtid st"
  "rd_gtid (reader_of st) = r_current_gtid st" "rd_changes (reader_of st) = r_changes st"
  by (simp_all add: reader_of_def)

lemma emit_core [simp]:
  "core (emit_status rc status st) = core st" "core (emit_stats rc due st) = core st"
  "core (report_position st) = core st" "core (report_failure rc st) = core st"
  "core (refresh_totals rc cl st) = core st" "core (merge_position rc st) = core st"
  "core (xid_position rc gset st) = core st"
  by (auto simp: core_def emit_status_def emit_stats_def report_position_def report_failure_def
      refresh_totals_def merge_position_def xid_position_def Let_def split: option.splits)

lemma emit_reader [simp]:
  "reader_of (emit_status rc status st) = reader_of st" "reader_of (emit_stats rc due st) = reader_of st"
  "reader_of (report_position st) = reader_of st" "reader_of (report_failure rc st) = reader_of st"
  "reader_of (refresh_totals rc cl st) = reader_of st"
  by (auto simp: reader_of_def emit_status_def emit_stats_def report_position_def report_failure_def
      refresh_totals_def Let_def)

lemma core_update [simp]:
  "core (st\<lparr>r_pos := p\<rparr>) = core st" "core (st\<lparr>r_changes := cs\<rparr>) = core st"
  "core (st\<lparr>r_current_gtid := g\<rparr>) = core st" "core (st\<lparr>r_head := p\<rparr>) = core st"
  "core (st\<lparr>r_totals := t\<rparr>) = core st" "core (st\<lparr>r_hooks := h\<rparr>) = core st"
  "core (st\<lparr>r_graceful := b\<rparr>) = core st"
  by (simp_all add: core_def)

lemma core_conflict [simp]: "core (report_conflict rc e st) = core st"
  by (auto simp: core_def report_conflict_def split: option.splits)

lemma reader_update [simp]:
  "reader_of (st\<lparr>r_pos := p\<rparr>) = (reader_of st)\<lparr>rd_pos := p\<rparr>"
  "reader_of (st\<lparr>r_changes := cs\<rparr>) = (reader_of st)\<lparr>rd_changes := cs\<rparr>"
  "reader_of (st\<lparr>r_current_gtid := g\<rparr>) = (reader_of st)\<lparr>rd_gtid := g\<rparr>"
  "reader_of (st\<lparr>r_head := p\<rparr>) = reader_of st" "reader_of (st\<lparr>r_totals := t\<rparr>) = reader_of st"
  "reader_of (st\<lparr>r_hooks := h\<rparr>) = reader_of st" "reader_of (st\<lparr>r_graceful := b\<rparr>) = reader_of st"
  by (simp_all add: reader_of_def)

lemma reader_same [simp]: "(reader_of st)\<lparr>rd_changes := r_changes st\<rparr> = reader_of st"
  by (simp add: reader_of_def)

lemma merge_reader [simp]: "reader_of (merge_position rc st) = (reader_of st)\<lparr>rd_pos := with_gtid rc (reader_of st)\<rparr>"
  by (auto simp: merge_position_def with_gtid_def reader_of_def)

lemma xid_reader [simp]:
  "reader_of (xid_position rc gset st) = (reader_of st)\<lparr>rd_pos := (case gset of
     Some g \<Rightarrow> if r_use_gtid st then (r_pos st)\<lparr>GTID := g\<rparr> else r_pos st
   | None \<Rightarrow> if r_current_gtid st \<noteq> [] then with_gtid rc (reader_of st) else r_pos st)\<rparr>"
  unfolding xid_position_def by (cases gset) (auto simp: reader_of_def [of st])

lemma publish_keeps: "publish rc cl t force st = (r, st') \<Longrightarrow> core st' = core st \<and> reader_of st' = reader_of st"
  by (auto simp: publish_def Let_def split: option.splits sum.splits if_splits)

lemma run_tail_keeps: "run_tail rc tk st = (r, st') \<Longrightarrow> core st' = core st \<and> reader_of st' = reader_of st"
  by (auto simp: run_tail_def split: if_splits prod.splits option.splits dest: publish_keeps)

lemma commit_parts:
  assumes "commit rc w cl cancelled t st = (r, st')"
  obtains r1 st1 where "apply_pending rc w st = (r1, st1)" "core st' = core st1" "reader_of st' = reader_of st1"
    "r1 \<noteq> None \<longrightarrow> r \<noteq> None"
  using assms
  by (auto simp: commit_def split: prod.splits option.splits dest: publish_keeps)

lemma apply_pending_reader:
  "apply_pending rc w st = (None, st') \<Longrightarrow> reader_of st' = (reader_of st)\<lparr>rd_changes := []\<rparr>"
  by (auto simp: apply_pending_def reader_of_def split: if_splits sum.splits prod.splits)

text \<open>
  What a case of the loop's switch does, against what the event is to the reader: only at the end of a
  transaction is anything applied, and that is \<open>apply_pending\<close> with the transaction's changes and position.
\<close>

fun matches ::
  "('v, 's, 'e, 'g, 'w) run_ctx \<Rightarrow> 'w \<Rightarrow> ('v, 's) run_state \<Rightarrow> 'e flow \<Rightarrow> ('v, 's) run_state \<Rightarrow> 'v reading \<Rightarrow> bool" where
  "matches rc w st fl st' (Goes rd) \<longleftrightarrow> core st' = core st \<and> reader_of st' = rd \<and> (fl = Fall \<or> fl = Continue)"
| "matches rc w st fl st' Stops \<longleftrightarrow> core st' = core st \<and> (\<exists>e. fl = Return e)"
| "matches rc w st fl st' (Ends rd cs p) \<longleftrightarrow>
     (\<exists>st0 r st1. core st0 = core st \<and> r_changes st0 = cs \<and> r_pos st0 = p \<and>
        apply_pending rc w st0 = (r, st1) \<and> core st' = core st1 \<and>
        (if r = None then reader_of st' = rd else \<exists>e. fl = Return e))"

lemma commit_matches:
  assumes "commit rc w cl cancelled t st0 = (r, st')" "core st0 = core st"
    and "reader_of st0 = rd\<lparr>rd_pos := p, rd_changes := cs\<rparr>"
  shows "matches rc w st (flow_of r) st' (ends_at cs p rd)"
proof -
  from assms(1) obtain r1 st1 where
    *: "apply_pending rc w st0 = (r1, st1)" "core st' = core st1" "reader_of st' = reader_of st1" "r1 \<noteq> None \<longrightarrow> r \<noteq> None"
    by (rule commit_parts)
  have "rd_changes (reader_of st0) = cs" "rd_pos (reader_of st0) = p" unfolding assms(3) by simp_all
  then have "r_changes st0 = cs" "r_pos st0 = p" by simp_all
  moreover have "if r1 = None then reader_of st' = rd\<lparr>rd_pos := p, rd_changes := []\<rparr> else \<exists>e. flow_of r = Return e"
    using * assms(3) apply_pending_reader [of rc w st0 st1] by (auto simp: flow_of_def)
  ultimately show ?thesis using *(1,2) assms(2) unfolding ends_at_def matches.simps
    by (intro exI [of _ st0] exI [of _ r1] exI [of _ st1] conjI)
qed

lemma query_matches:
  assumes "query_event rc tk ts schema text st = (fl, st')"
  shows "matches rc (tk_world tk) st fl st' (read_statement rc schema text (reader_of st))"
proof -
  define query where "query = trim_space text"
  define st1 where "st1 = (if to_upper query = ''ROLLBACK'' then st\<lparr>r_changes := []\<rparr> else st)"
  define cs where "cs = (if to_upper query = ''ROLLBACK'' then [] else r_changes st)"
  have st1: "core st1 = core st" "r_changes st1 = cs" "reader_of st1 = (reader_of st)\<lparr>rd_changes := cs\<rparr>"
    by (simp_all add: st1_def cs_def)
  have gtid: "with_gtid rc ((reader_of st)\<lparr>rd_changes := cs\<rparr>) = with_gtid rc (reader_of st)"
    by (simp add: with_gtid_def)
  note Q = assms [unfolded query_event_def Let_def, folded query_def, folded st1_def]
  note S = read_statement_def [of rc schema "text" "reader_of st", unfolded Let_def reader_of_sel, folded query_def, folded cs_def]
  consider (ddl) "ddlPrefix query" "schema = SourceDatabase (rc_cfg rc) \<or> str_contains query (SourceDatabase (rc_cfg rc))"
    | (opens) "\<not> (ddlPrefix query \<and> (schema = SourceDatabase (rc_cfg rc) \<or> str_contains query (SourceDatabase (rc_cfg rc))))"
        "to_upper query = ''BEGIN'' \<or> has_prefix (to_upper query) ''SAVEPOINT'' \<or> has_prefix (to_upper query) ''XA ''"
    | (ends) "\<not> (ddlPrefix query \<and> (schema = SourceDatabase (rc_cfg rc) \<or> str_contains query (SourceDatabase (rc_cfg rc))))"
        "\<not> (to_upper query = ''BEGIN'' \<or> has_prefix (to_upper query) ''SAVEPOINT'' \<or> has_prefix (to_upper query) ''XA '')"
        "to_upper query = ''COMMIT'' \<or> to_upper query = ''ROLLBACK'' \<or> cs = []"
    | (other) "\<not> (ddlPrefix query \<and> (schema = SourceDatabase (rc_cfg rc) \<or> str_contains query (SourceDatabase (rc_cfg rc))))"
        "\<not> (to_upper query = ''BEGIN'' \<or> has_prefix (to_upper query) ''SAVEPOINT'' \<or> has_prefix (to_upper query) ''XA '')"
        "\<not> (to_upper query = ''COMMIT'' \<or> to_upper query = ''ROLLBACK'' \<or> cs = [])"
    by blast
  then show ?thesis
  proof cases
    case ddl
    then show ?thesis using Q by (auto simp: S split: if_splits)
  next
    case opens
    then show ?thesis using Q by (auto simp: S)
  next
    case ends
    then obtain r where c: "commit rc (tk_world tk) (tk_commit tk) (tk_cancelled tk) (event_time ts) (merge_position rc st1) = (r, st')"
      "fl = flow_of r"
      using Q st1(2) by (auto split: prod.splits)
    have "read_statement rc schema text (reader_of st) = ends_at cs (with_gtid rc (reader_of st)) (reader_of st)"
      using ends by (auto simp: S)
    moreover have "reader_of (merge_position rc st1) = (reader_of st)\<lparr>rd_pos := with_gtid rc (reader_of st), rd_changes := cs\<rparr>"
      by (simp only: merge_reader st1(3) gtid) (simp add: reader_of_def)
    ultimately show ?thesis using commit_matches [OF c(1)] st1(1) c(2) by simp
  next
    case other
    then have "st1 = st" "cs = r_changes st" by (simp_all add: st1_def cs_def)
    then show ?thesis using Q other st1(2) unfolding S by auto
  qed
qed

lemma handle_matches:
  assumes "handle_event rc tk ev st = (fl, st')"
  shows "matches rc (tk_world tk) st fl st' (read_event rc ev (reader_of st))"
proof -
  define st2 where "st2 = (if 0 < ev_LogPos ev then st\<lparr>r_pos := (r_pos st)\<lparr>Pos := ev_LogPos ev\<rparr>\<rparr> else st)"
  have st2: "core st2 = core st" "(reader_of st)\<lparr>rd_pos := move_to (ev_LogPos ev) (r_pos st)\<rparr> = reader_of st2"
    by (simp_all add: st2_def)
  note H = assms [unfolded handle_event_def, folded st2_def]
  note R = read_event_def [of rc ev "reader_of st", unfolded reader_of_sel st2(2) Let_def, unfolded reader_of_sel]
  have move: "matches rc (tk_world tk) st fl st' x = matches rc (tk_world tk) st2 fl st' x" for x
    using st2(1) by (cases x) simp_all
  show ?thesis
  proof (cases "ev_Event ev")
    case (XIDEvent gset)
    then obtain r where c: "commit rc (tk_world tk) (tk_commit tk) (tk_cancelled tk)
        (event_time (ev_Timestamp ev)) (xid_position rc gset st2) = (r, st')" "fl = flow_of r"
      using H by (auto simp: Let_def split: prod.splits)
    have "reader_of (xid_position rc gset st2) = (reader_of st2)\<lparr>rd_pos := (case gset of
        Some g \<Rightarrow> if r_use_gtid st2 then (r_pos st2)\<lparr>GTID := g\<rparr> else r_pos st2
      | None \<Rightarrow> if r_current_gtid st2 \<noteq> [] then with_gtid rc (reader_of st2) else r_pos st2), rd_changes := r_changes st2\<rparr>"
      by (simp only: xid_reader) (simp add: reader_of_def)
    then have "matches rc (tk_world tk) st (flow_of r) st' (ends_at (r_changes st2) (case gset of
        Some g \<Rightarrow> if r_use_gtid st2 then (r_pos st2)\<lparr>GTID := g\<rparr> else r_pos st2
      | None \<Rightarrow> if r_current_gtid st2 \<noteq> [] then with_gtid rc (reader_of st2) else r_pos st2) (reader_of st2))"
      by (intro commit_matches [OF c(1)]) (simp_all add: st2(1))
    then show ?thesis using XIDEvent c(2) by (simp add: R Let_def)
  next
    case (QueryEvent schema stmt)
    then have "query_event rc tk (ev_Timestamp ev) schema stmt st2 = (fl, st')" using H by (simp add: Let_def)
    from query_matches [OF this] show ?thesis using QueryEvent by (simp add: R Let_def move)
  next
    case (RowsEvent schema table kind rows)
    then show ?thesis using H st2(1)
      by (auto simp: R Let_def selected_changes_def split: if_splits option.splits)
  qed (use H st2(1) in \<open>auto simp: R Let_def split: if_splits\<close>)
qed

section \<open>The loop keeps the chain\<close>

lemma due_txs_one:
  "normalize_changes rc cs = Inr cs' \<Longrightarrow> due_txs rc a ((cs, p) # txs) =
     due_txs rc a [(cs, p)] @ due_txs rc (last (a # map snd (due_txs rc a [(cs, p)]))) txs"
  by simp

context replication_target
begin

abbreviation rep :: "'g gtid_lib \<Rightarrow> Position \<Rightarrow> 'd \<Rightarrow> 's \<Rightarrow> ('v Change list \<times> Position) list \<Rightarrow> bool" where
  "rep lib \<equiv> replicated lib ckpt data eff"

lemma rep_refl: "ckpt s = Some a \<Longrightarrow> rep lib a (data s) s []"
  by (simp add: replicated_def)

text \<open>One transaction: applied if it is due, and then the loop goes on; or refused, and then it may have been
  applied all the same, but the loop ends.\<close>

lemma apply_pending_rep:
  assumes ops: "rc_ops rc = T" and inv: "ckpt (r_target st) = Some (r_applied st)"
    and step: "apply_pending rc w st = (r, st')"
  defines "tx \<equiv> due_txs rc (r_applied st) [(r_changes st, r_pos st)]"
  shows "if r = None
    then rep (rc_gtid rc) (r_applied st) (data (r_target st)) (r_target st') tx \<and>
      r_applied st' = last (r_applied st # map snd tx) \<and> r_history st' = r_history st @ tx \<and>
      (PositionReached (rc_gtid rc) (r_applied st) (r_pos st) \<or> (\<exists>cs. normalize_changes rc (r_changes st) = Inr cs))
    else rep (rc_gtid rc) (r_applied st) (data (r_target st)) (r_target st') [] \<or>
      rep (rc_gtid rc) (r_applied st) (data (r_target st)) (r_target st') tx"
proof (cases "PositionReached (rc_gtid rc) (r_applied st) (r_pos st)")
  case True
  with step have "r = None" "r_target st' = r_target st" "r_applied st' = r_applied st" "r_history st' = r_history st"
    by (auto simp: apply_pending_def)
  then show ?thesis using True rep_refl [OF inv] by (simp add: tx_def)
next
  case new: False
  show ?thesis
  proof (cases "normalize_changes rc (r_changes st)")
    case (Inl e)
    with new step have "core st' = core st" "r \<noteq> None" by (auto simp: apply_pending_def)
    then show ?thesis using rep_refl [OF inv] by (auto simp: core_def)
  next
    case (Inr cs)
    obtain q s' where q: "t_apply T w cs (r_pos st) (r_target st) = (q, s')"
      by (cases "t_apply T w cs (r_pos st) (r_target st)") auto
    have tx: "tx = [(cs, r_pos st)]" using new Inr by (simp add: tx_def)
    have one: "rep (rc_gtid rc) (r_applied st) (data (r_target st)) s' tx"
      if "eff cs (data (r_target st)) = Some (data s')" "ckpt s' = Some (r_pos st)"
      using that new by (simp add: replicated_def tx)
    show ?thesis
    proof (cases q)
      case (Inl e)
      have "core st' = core (st\<lparr>r_changes := cs, r_target := s'\<rparr>)" and r: "r \<noteq> None"
        using step new q Inl Inr ops by (auto simp: apply_pending_def)
      then have st': "r_target st' = s'" by (simp add: core_def)
      from app_err [OF q [unfolded Inl]] one rep_refl [OF inv]
      have "rep (rc_gtid rc) (r_applied st) (data (r_target st)) s' [] \<or>
        rep (rc_gtid rc) (r_applied st) (data (r_target st)) s' tx" by auto
      then show ?thesis using r st' by auto
    next
      case (Inr stats)
      then have "r = None" "r_target st' = s'" "r_applied st' = r_pos st"
        "r_history st' = r_history st @ [(cs, r_pos st)]"
        using step new q \<open>normalize_changes rc (r_changes st) = Inr cs\<close> ops
        by (auto simp: apply_pending_def)
      then show ?thesis using one app_ok [OF q [unfolded Inr]] \<open>normalize_changes rc (r_changes st) = Inr cs\<close>
        by (simp add: tx)
    qed
  qed
qed

text \<open>The loop: what it has applied is what was due of the transactions read so far, a prefix of the stream's;
  while it goes on, of all of them.\<close>

lemma run_loop_rep:
  assumes ops: "rc_ops rc = T"
  shows "ckpt (r_target st) = Some (r_applied st) \<Longrightarrow> run_loop rc tks st = (r, st') \<Longrightarrow>
    \<exists>txs. prefix txs (source_txs rc (reader_of st) (delivered tks)) \<and>
      rep (rc_gtid rc) (r_applied st) (data (r_target st)) (r_target st') (due_txs rc (r_applied st) txs) \<and>
      (r = None \<longrightarrow> txs = source_txs rc (reader_of st) (delivered tks))"
proof (induction tks arbitrary: st)
  case Nil
  then show ?case using rep_refl by auto
next
  case (Cons tk tks)
  note inv = Cons.prems(1)
  obtain r1 st1 where step: "run_step rc tk st = (r1, st1)" by (cases "run_step rc tk st") auto
  have none: "rep (rc_gtid rc) (r_applied st) (data (r_target st)) (r_target st1) []" if "core st1 = core st"
    using rep_refl [OF inv] that by (simp add: core_def)
  have stop: ?case if "r1 \<noteq> None" "prefix txs (source_txs rc (reader_of st) (delivered (tk # tks)))"
    "rep (rc_gtid rc) (r_applied st) (data (r_target st)) (r_target st1) (due_txs rc (r_applied st) txs)" for txs
    using that step Cons.prems(2) by auto
  have stay: ?case if "core st1 = core st" "r1 \<noteq> None"
    using stop [of "[]"] none that by simp
  have goes: ?case if same: "core st1 = core st" and r1: "r1 = None"
    and src: "source_txs rc (reader_of st) (delivered (tk # tks)) = source_txs rc (reader_of st1) (delivered tks)"
  proof -
    have "r_applied st1 = r_applied st" "r_target st1 = r_target st" using same by (simp_all add: core_def)
    then show ?thesis using Cons.IH [of st1] Cons.prems step r1 unfolding src by auto
  qed
  show ?case
  proof (cases "tk_event tk")
    case (Inl e)
    show ?thesis
    proof (cases r1)
      case None
      then show ?thesis using step Inl by (intro goes) (auto simp: run_step_def split: if_splits)
    next
      case (Some e)
      then show ?thesis using step Inl by (intro stay) (auto simp: run_step_def split: if_splits)
    qed
  next
    case ev: (Inr ev)
    obtain fl st2 where h: "handle_event rc tk ev st = (fl, st2)"
      by (cases "handle_event rc tk ev st") auto
    have fl: "core st1 = core st2" "reader_of st1 = reader_of st2" "(\<exists>e. fl = Return e) \<longrightarrow> r1 \<noteq> None"
      using step ev h by (auto simp: run_step_def split: flow.splits dest: run_tail_keeps)
    note m = handle_matches [OF h]
    show ?thesis
    proof (cases "read_event rc ev (reader_of st)")
      case (Goes rd)
      then have "core st1 = core st" "reader_of st1 = rd" using m fl by simp_all
      then show ?thesis using ev Goes goes stay by (cases r1) simp_all
    next
      case Stops
      then show ?thesis using m fl by (intro stay) auto
    next
      case (Ends rd cs p)
      with m obtain st0 q st3 where st0: "core st0 = core st" "r_changes st0 = cs" "r_pos st0 = p"
        and app: "apply_pending rc (tk_world tk) st0 = (q, st3)" "core st2 = core st3"
        and q: "if q = None then reader_of st2 = rd else \<exists>e. fl = Return e" by auto
      have same: "r_applied st0 = r_applied st" "r_target st0 = r_target st"
        "r_applied st3 = r_applied st1" "r_target st3 = r_target st1"
        using st0(1) app(2) fl(1) by (simp_all add: core_def)
      define tx where "tx = due_txs rc (r_applied st) [(cs, p)]"
      have src: "source_txs rc (reader_of st) (delivered (tk # tks)) = (cs, p) # source_txs rc rd (delivered tks)"
        using ev Ends by simp
      have "ckpt (r_target st0) = Some (r_applied st0)" using inv same by simp
      note one = apply_pending_rep [OF ops this app(1), unfolded st0(2,3) same, folded tx_def]
      show ?thesis
      proof (cases q)
        case (Some e)
        then have r1: "r1 \<noteq> None" using q fl(3) by auto
        from one Some consider "rep (rc_gtid rc) (r_applied st) (data (r_target st)) (r_target st1) []"
          | "rep (rc_gtid rc) (r_applied st) (data (r_target st)) (r_target st1) tx" by auto
        then show ?thesis
        proof cases
          case 1
          then show ?thesis using stop [of "[]"] r1 by simp
        next
          case 2
          then show ?thesis using stop [of "[(cs, p)]"] r1 src by (simp add: tx_def)
        qed
      next
        case None
        then have step1: "rep (rc_gtid rc) (r_applied st) (data (r_target st)) (r_target st1) tx"
          "r_applied st1 = last (r_applied st # map snd tx)"
          and norm: "PositionReached (rc_gtid rc) (r_applied st) p \<or> (\<exists>cs'. normalize_changes rc cs = Inr cs')"
          using one by auto
        have split: "due_txs rc (r_applied st) ((cs, p) # txs) = tx @ due_txs rc (r_applied st1) txs" for txs
          using norm step1(2) by (auto simp: tx_def)
        show ?thesis
        proof (cases r1)
          case (Some e)
          then show ?thesis using stop [of "[(cs, p)]"] src step1(1) by (simp add: tx_def)
        next
          case r1: None
          have "ckpt (r_target st1) = Some (r_applied st1)" using step1 by (simp add: replicated_def)
          moreover have "run_loop rc tks st1 = (r, st')" using Cons.prems(2) step r1 by simp
          moreover have "reader_of st1 = rd" using q None fl(2) by simp
          ultimately obtain txs where txs: "prefix txs (source_txs rc rd (delivered tks))"
            "rep (rc_gtid rc) (r_applied st1) (data (r_target st1)) (r_target st') (due_txs rc (r_applied st1) txs)"
            "r = None \<longrightarrow> txs = source_txs rc rd (delivered tks)"
            using Cons.IH [of st1] by auto
          have "rep (rc_gtid rc) (r_applied st) (data (r_target st)) (r_target st') (due_txs rc (r_applied st) ((cs, p) # txs))"
            unfolding split using replicated_trans [OF step1(1)] txs(2) step1(2) by simp
          then show ?thesis using txs src by (intro exI [of _ "(cs, p) # txs"]) simp
        qed
      qed
    qed
  qed
qed

end

section \<open>Runs and restarts\<close>

record ('v, 's, 'e, 'g, 'w) run_input =
  ri_ctx :: "('v, 's, 'e, 'g, 'w) run_ctx"
  ri_world :: 'w
  ri_hash :: "BootstrapRecord \<Rightarrow> string"
  ri_current :: "'e + Position"
  ri_clock :: "'e clock"
  ri_ticks :: "('v, 'e, 'w) tick list"

text \<open>
  The target after one run; a list of ticks that ends without an error is a process that was killed
  there. Then what a series of runs leaves.
\<close>

definition restart :: "'s \<Rightarrow> ('v, 's, 'e, 'g, 'w) run_input \<Rightarrow> 's" where
  "restart s i = snd (run (ri_ctx i) (ri_world i) (ri_hash i) (ri_current i) (ri_clock i) (ri_ticks i) s)"

definition restarts :: "('v, 's, 'e, 'g, 'w) run_input list \<Rightarrow> 's \<Rightarrow> 's" where
  "restarts is s = foldl restart s is"

text \<open>
  What a run whose start finds the checkpoint \<open>a\<close> has read of its stream when it ends: nothing when it ends
  before the loop, else the first transactions of the events delivered, the tables with the locators of the
  record or the configuration. And the transactions a series of runs has applied: of what each run has read,
  what is due after the run before.
\<close>

definition read_in :: "('v, 's, 'e, 'g, 'w) run_input \<Rightarrow> Position \<Rightarrow> ('v Change list \<times> Position) list \<Rightarrow> bool" where
  "read_in i a txs \<longleftrightarrow> txs = [] \<or>
     (\<exists>locators ts. ApplyLocatorStrategies (rc_tables (ri_ctx i)) locators = Inr ts \<and>
        prefix txs (source_txs (ri_ctx i\<lparr>rc_tables := ts\<rparr>) (reader_at a) (delivered (ri_ticks i))))"

fun chained :: "('v, 's, 'e, 'g, 'w) run_input list \<Rightarrow> Position \<Rightarrow> ('v Change list \<times> Position) list \<Rightarrow> bool" where
  "chained [] a txs \<longleftrightarrow> txs = []"
| "chained (i # is) a txs \<longleftrightarrow>
     (\<exists>seen rest. read_in i a seen \<and> txs = due_txs (ri_ctx i) a seen @ rest \<and>
        chained is (last (a # map snd (due_txs (ri_ctx i) a seen))) rest)"

context replication_target
begin

lemma init_locators_tables:
  "init_locators cfg hash T w tables s = Inr (ts, s1) \<Longrightarrow> \<exists>locators. ApplyLocatorStrategies tables locators = Inr ts"
  by (auto simp: init_locators_def Let_def split: sum.splits option.splits prod.splits if_splits)

lemma init_locators_rep:
  assumes "init_locators cfg hash T w ts s = x" "s1 = (case x of Inl (e, s1) \<Rightarrow> s1 | Inr (ts', s1) \<Rightarrow> s1)"
  shows "data s1 = data s \<and> (s1 = s \<or> (ckpt s = None \<and> ckpt s1 = Some (Start cfg)))"
proof (cases "t_load_record T w s")
  case (Inl e)
  then show ?thesis using assms by (auto simp: init_locators_def)
next
  case (Inr orec)
  show ?thesis
  proof (cases orec)
    case (Some rec)
    then show ?thesis using assms Inr by (auto simp: init_locators_def split: sum.splits if_splits)
  next
    case None
    then have fresh: "ckpt s = None" using Inr load_record_none by simp
    have "s1 = s \<or> (\<exists>rec r. br_position rec = Start cfg \<and> t_save_record T w rec s = (r, s1))"
      using assms None Inr
      by (auto simp: init_locators_def Let_def split: sum.splits prod.splits if_splits)
    then show ?thesis using fresh save_record_law by fastforce
  qed
qed

lemma init_position_rep:
  assumes "init_position cfg T w s = x"
  shows "case x of
      Inl (e, s1) \<Rightarrow> data s1 = data s \<and> (s1 = s \<or> (ckpt s = None \<and> ckpt s1 = Some (Start cfg)))
    | Inr (start, s1) \<Rightarrow> data s1 = data s \<and> ckpt s1 = Some start \<and>
        (ckpt s = Some start \<or> (ckpt s = None \<and> start = Start cfg))"
proof (cases "t_load T w s")
  case (Inl e)
  then show ?thesis using assms by (auto simp: init_position_def)
next
  case (Inr cp)
  then have cp: "cp = ckpt s" by (rule load_law)
  obtain r s1 where save: "t_save T w (Start cfg) s = (r, s1)" by (cases "t_save T w (Start cfg) s") auto
  show ?thesis
    using assms Inr cp save save_law [OF save]
    by (cases r; cases cp) (auto simp: init_position_def Let_def split: if_splits)
qed

text \<open>The position a run starts from.\<close>

definition base :: "Config \<Rightarrow> 's \<Rightarrow> Position" where
  "base cfg s = (case ckpt s of Some a \<Rightarrow> a | None \<Rightarrow> Start cfg)"

definition untouched :: "'s \<Rightarrow> 's \<Rightarrow> bool" where
  "untouched s s' \<longleftrightarrow> ckpt s' = ckpt s \<and> data s' = data s"

lemma rep_start: "data s' = data s \<Longrightarrow> ckpt s' = Some a \<Longrightarrow> rep lib a (data s) s' []"
  by (simp add: replicated_def)

lemma due_txs_tables [simp]: "due_txs (rc\<lparr>rc_tables := ts\<rparr>) a txs = due_txs rc a txs"
  by (induction txs arbitrary: a) (auto simp: normalize_changes_def split: sum.splits)

lemma reader_of_initial: "reader_of (initial_state rc start head s) = reader_at start"
  by (simp add: reader_of_def reader_at_def initial_state_def)

text \<open>A run: it has not got as far as the loop, or the loop has run from the target's checkpoint.\<close>

lemma run_rep:
  assumes ops: "rc_ops rc = T" and run: "run rc w hash cur cl tks s = (r, s')"
  obtains
    (early) "r \<noteq> None" "untouched s s' \<or> rep (rc_gtid rc) (base (rc_cfg rc) s) (data s) s' []"
  | (loop) locators ts txs where
      "ApplyLocatorStrategies (rc_tables rc) locators = Inr ts"
      "\<exists>s1. init_locators (rc_cfg rc) hash T w (rc_tables rc) s = Inr (ts, s1)"
      "prefix txs (source_txs (rc\<lparr>rc_tables := ts\<rparr>) (reader_at (base (rc_cfg rc) s)) (delivered tks))"
      "rep (rc_gtid rc) (base (rc_cfg rc) s) (data s) s' (due_txs rc (base (rc_cfg rc) s) txs)"
      "r = None \<longrightarrow> txs = source_txs (rc\<lparr>rc_tables := ts\<rparr>) (reader_at (base (rc_cfg rc) s)) (delivered tks)"
proof (cases "t_triggers T w (rc_tables rc) s")
  case (Some e)
  then show thesis using run ops by (intro early) (auto simp: run_def untouched_def)
next
  case None
  define x where "x = init_locators (rc_cfg rc) hash T w (rc_tables rc) s"
  define s1 where "s1 = (case x of Inl (e, s1) \<Rightarrow> s1 | Inr (ts, s1) \<Rightarrow> s1)"
  have s1: "data s1 = data s \<and> (s1 = s \<or> (ckpt s = None \<and> ckpt s1 = Some (Start (rc_cfg rc))))"
    by (rule init_locators_rep [OF x_def [symmetric] s1_def])
  then have base1: "untouched s s1 \<or> rep (rc_gtid rc) (base (rc_cfg rc) s) (data s) s1 []"
    by (auto simp: untouched_def base_def intro: rep_start)
  show thesis
  proof (cases x)
    case (Inl es)
    then have "s' = s1" "r \<noteq> None" using run None ops x_def s1_def by (auto simp: run_def split: prod.splits)
    then show thesis using base1 early by blast
  next
    case (Inr tss)
    then obtain ts where ts: "init_locators (rc_cfg rc) hash T w (rc_tables rc) s = Inr (ts, s1)"
      using x_def s1_def by (cases tss) auto
    define y where "y = init_position (rc_cfg rc) T w s1"
    note Y = init_position_rep [OF y_def [symmetric]]
    show thesis
    proof (cases y)
      case (Inl es)
      then have "s' = snd es" "r \<noteq> None" using run None ops ts y_def by (auto simp: run_def split: prod.splits)
      moreover from this have "untouched s s' \<or> rep (rc_gtid rc) (base (rc_cfg rc) s) (data s) s' []"
        using Y Inl s1 rep_start [of s' s "Start (rc_cfg rc)" "rc_gtid rc"]
        by (cases es) (auto simp: untouched_def base_def)
      ultimately show thesis using early by blast
    next
      case (Inr ps)
      then obtain start s2 where ps: "y = Inr (start, s2)" by (cases ps) auto
      have s2: "data s2 = data s" "ckpt s2 = Some start" "start = base (rc_cfg rc) s"
        using Y ps s1 by (auto simp: base_def)
      have stop: thesis if "s' = s2" "r \<noteq> None"
      proof (rule early [OF that(2)])
        show "untouched s s' \<or> rep (rc_gtid rc) (base (rc_cfg rc) s) (data s) s' []"
          using rep_start [OF s2(1,2), of "rc_gtid rc"] s2(3) that(1) by simp
      qed
      have init: "init_position (rc_cfg rc) T w s1 = Inr (start, s2)" using ps y_def by simp
      show thesis
      proof (cases "(GTID start \<noteq> [] \<and> ParseGTIDSet (rc_gtid rc) (GTID start) = None) \<or> (\<exists>e. cur = Inl e)")
        case True
        then show thesis using run None ops ts init by (intro stop) (auto simp: run_def split: if_splits)
      next
        case False
        then obtain head where head: "cur = Inr head" by (cases cur) auto
        let ?rc = "rc\<lparr>rc_tables := ts\<rparr>"
        let ?st0 = "initial_state ?rc start head s2"
        obtain r0 st1 where pub: "publish ?rc cl None False ?st0 = (r0, st1)"
          by (cases "publish ?rc cl None False ?st0") auto
        then have st1: "r_target st1 = s2" "r_applied st1 = start" "reader_of st1 = reader_at start"
          using publish_keeps [OF pub] reader_of_initial [of ?rc start head s2]
          by (simp_all add: core_def initial_state_def)
        obtain r2 st2 where ran: "run_loop ?rc tks st1 = (r2, st2)" by (cases "run_loop ?rc tks st1") auto
        from run_loop_rep [of ?rc st1 tks r2 st2] ops s2 st1 ran obtain txs where txs:
          "prefix txs (source_txs ?rc (reader_at (base (rc_cfg rc) s)) (delivered tks))"
          "rep (rc_gtid rc) (base (rc_cfg rc) s) (data s) (r_target st2) (due_txs rc (base (rc_cfg rc) s) txs)"
          "r2 = None \<longrightarrow> txs = source_txs ?rc (reader_at (base (rc_cfg rc) s)) (delivered tks)"
          by auto
        have "s' = s2 \<and> r \<noteq> None \<or> s' = r_target st2 \<and> r = r2"
          using run None ops ts init False head pub ran st1
          by (auto simp: run_def split: option.splits)
        then show thesis
        proof
          assume "s' = r_target st2 \<and> r = r2"
          then show thesis using txs init_locators_tables [OF ts] ts by (auto intro: loop)
        next
          assume "s' = s2 \<and> r \<noteq> None"
          then show thesis by (elim conjE) (rule stop)
        qed
      qed
    qed
  qed
qed

lemma restart_rep:
  assumes "ckpt s = Some a" "rc_ops (ri_ctx i) = T"
  shows "\<exists>txs. read_in i a txs \<and> rep (rc_gtid (ri_ctx i)) a (data s) (restart s i) (due_txs (ri_ctx i) a txs)"
proof -
  obtain r s' where run: "run (ri_ctx i) (ri_world i) (ri_hash i) (ri_current i) (ri_clock i) (ri_ticks i) s = (r, s')"
    by (rule prod.exhaust)
  have a: "base (rc_cfg (ri_ctx i)) s = a" using assms(1) by (simp add: base_def)
  have s': "restart s i = s'" using run by (simp add: restart_def)
  from assms(2) run show ?thesis
  proof (cases rule: run_rep)
    case early
    then have "rep (rc_gtid (ri_ctx i)) a (data s) s' []"
      using assms(1) a by (auto simp: untouched_def intro: rep_start)
    then show ?thesis unfolding s' by (intro exI [of _ "[]"]) (simp add: read_in_def)
  next
    case (loop locators ts txs)
    then show ?thesis unfolding s' a by (intro exI [of _ txs]) (auto simp: read_in_def)
  qed
qed

lemma restarts_rep:
  assumes "ckpt s = Some a" "list_all (\<lambda>i. rc_ops (ri_ctx i) = T \<and> rc_gtid (ri_ctx i) = lib) is"
  shows "\<exists>txs. rep lib a (data s) (restarts is s) txs \<and> chained is a txs"
  using assms
proof (induction "is" arbitrary: s a)
  case Nil
  then show ?case using rep_refl by (auto simp: restarts_def)
next
  case (Cons i rest)
  let ?s1 = "restart s i"
  obtain seen where seen: "read_in i a seen" and txs: "rep lib a (data s) ?s1 (due_txs (ri_ctx i) a seen)"
    using restart_rep [OF Cons.prems(1), of i] Cons.prems(2) by auto
  then have "ckpt ?s1 = Some (last (a # map snd (due_txs (ri_ctx i) a seen)))" by (simp add: replicated_def)
  then obtain txs' where txs': "rep lib (last (a # map snd (due_txs (ri_ctx i) a seen))) (data ?s1) (restarts rest ?s1) txs'"
    "chained rest (last (a # map snd (due_txs (ri_ctx i) a seen))) txs'"
    using Cons.IH [of ?s1] Cons.prems(2) by (auto simp: restarts_def)
  have "rep lib a (data s) (restarts rest ?s1) (due_txs (ri_ctx i) a seen @ txs')"
    using txs txs'(1) by (rule replicated_trans)
  moreover have "chained (i # rest) a (due_txs (ri_ctx i) a seen @ txs')"
    unfolding chained.simps using seen txs'(2) by blast
  moreover have "restarts (i # rest) s = restarts rest ?s1" by (simp add: restarts_def)
  ultimately show ?case unfolding \<open>restarts (i # rest) s = restarts rest ?s1\<close> by blast
qed

text \<open>A run that is still going has applied everything that was due of what it has been given.\<close>

lemma going_rep:
  assumes "rc_ops rc = T" "ckpt s = Some a" "run rc w hash cur cl tks s = (None, s')"
  shows "\<exists>ts s1. init_locators (rc_cfg rc) hash T w (rc_tables rc) s = Inr (ts, s1) \<and>
    rep (rc_gtid rc) a (data s) s' (due_txs rc a (source_txs (rc\<lparr>rc_tables := ts\<rparr>) (reader_at a) (delivered tks)))"
proof -
  have "base (rc_cfg rc) s = a" using assms(2) by (simp add: base_def)
  with assms(1,3) show ?thesis by (cases rule: run_rep) auto
qed

end

end
