(* ===== verification/CdcBootstrapStore.thy ===== *)
theory CdcBootstrapStore
  imports CdcPostgres CdcRegistry
begin

text \<open>
  The bootstrap record's life in the checkpoint table (\<^verbatim>\<open>postgres.go\<close>): finalising a snapshot
  (dropping the excluded tables and the foreign keys into them in the same transaction as the
  confirmation), marking it aborted, and moving the target's sequences past the copied rows. The record
  \<open>catalog\<close> holds the answers of the target's system catalog.
\<close>

record ('v, 'd, 'e) catalog =
  cat_text :: "string \<Rightarrow> 'v"
  cat_foreign_keys :: "string \<Rightarrow> string \<Rightarrow> 'd \<Rightarrow> 'e + (string \<times> string) list"
  cat_serial :: "string \<Rightarrow> string \<Rightarrow> 'd \<Rightarrow> 'e + string option"
  cat_sequence :: "string \<Rightarrow> string \<Rightarrow> 'd \<Rightarrow> 'e + bool"

section \<open>Finalising a bootstrap\<close>

fun drop_constraints ::
  "('v, 'd, 'e) pg_env \<Rightarrow> applier \<Rightarrow> string list \<Rightarrow> (string \<times> string) list \<Rightarrow> 'd \<Rightarrow> 'e cdc_error + 'd" where
  "drop_constraints env a effective [] d = Inr d"
| "drop_constraints env a effective ((table, con) # items) d =
     (if table \<notin> set effective then drop_constraints env a effective items d
      else bind_res (exec_stmt env (''ALTER TABLE '' @ quoteIdent (a_schema a) @ ''.'' @ quoteIdent table @
                       '' DROP CONSTRAINT '' @ quoteIdent con) [] d)
             (\<lambda>(n, d'). drop_constraints env a effective items d'))"

definition dropForeignKeysReferencing ::
  "('v, 'd, 'e) pg_env \<Rightarrow> ('v, 'd, 'e) catalog \<Rightarrow> applier \<Rightarrow> string \<Rightarrow> string list \<Rightarrow> 'd \<Rightarrow> 'e cdc_error + 'd" where
  "dropForeignKeysReferencing env cat a excluded effective d =
     (case cat_foreign_keys cat (a_schema a) (applier_name a excluded) d of
        Inl e \<Rightarrow> Inl (Driver e)
      | Inr items \<Rightarrow> drop_constraints env a effective items d)"

fun drop_excluded ::
  "('v, 'd, 'e) pg_env \<Rightarrow> ('v, 'd, 'e) catalog \<Rightarrow> applier \<Rightarrow> string list \<Rightarrow> BootstrapIssue list \<Rightarrow> string list
     \<Rightarrow> 'd \<Rightarrow> 'e cdc_error + 'd" where
  "drop_excluded env cat a effective [] dropped d = Inr d"
| "drop_excluded env cat a effective (issue # issues) dropped d =
     (if bi_table issue \<in> set dropped then drop_excluded env cat a effective issues dropped d
      else bind_res (dropForeignKeysReferencing env cat a (bi_table issue) effective d) (\<lambda>d1.
        if bi_stage issue = ''schema''
        then drop_excluded env cat a effective issues (bi_table issue # dropped) d1
        else bind_res (exec_stmt env (''DROP TABLE IF EXISTS '' @ qualified_name a (bi_table issue) @ '' CASCADE'') [] d1)
               (\<lambda>(n, d2). drop_excluded env cat a effective issues (bi_table issue # dropped) d2)))"

definition confirmable :: "string \<Rightarrow> bool" where
  "confirmable st \<longleftrightarrow> st \<in> set [''snapshot_in_progress'', ''review_pending'', ''completed'']"

definition confirm_row :: "BootstrapRecord \<Rightarrow> ckpt_row \<Rightarrow> ckpt_row" where
  "confirm_row r row = row\<lparr>ck_state := ''completed'', ck_effective := br_effective r,
     ck_excluded := br_excluded r, ck_hash := br_manifest_hash r, ck_failed := br_failed r,
     ck_report := br_report_version r, ck_locator_version := br_locator_version r,
     ck_locators := br_locators r\<rparr>"

definition finalize_body ::
  "('v, 'd, 'e) pg_env \<Rightarrow> ('v, 'd, 'e) catalog \<Rightarrow> applier \<Rightarrow> BootstrapRecord \<Rightarrow> 'd db \<Rightarrow> 'e cdc_error + unit \<times> 'd db" where
  "finalize_body env cat a r s =
     bind_res (drop_excluded env cat a (map (applier_name a) (br_effective r)) (br_excluded r) [] (content s))
       (\<lambda>d. case f_upsert (env_faults env) of
          Some e \<Rightarrow> Inl (Driver e)
        | None \<Rightarrow>
            (case ckpts s (a_job a) of
               Some row \<Rightarrow>
                 if confirmable (ck_state row)
                 then Inr ((), s\<lparr>content := d, ckpts := (ckpts s)(a_job a \<mapsto> confirm_row r row)\<rparr>)
                 else Inl CheckpointMissing
             | None \<Rightarrow> Inl CheckpointMissing))"

definition FinalizeBootstrap ::
  "('v, 'd, 'e) pg_env \<Rightarrow> ('v, 'd, 'e) catalog \<Rightarrow> applier \<Rightarrow> BootstrapRecord \<Rightarrow> 'd db \<Rightarrow> ('e cdc_error + unit) \<times> 'd db" where
  "FinalizeBootstrap env cat a r s = with_tx env (finalize_body env cat a r) s"

definition MarkBootstrapAborted ::
  "('v, 'd, 'e) pg_env \<Rightarrow> applier \<Rightarrow> 'd db \<Rightarrow> ('e cdc_error + unit) \<times> 'd db" where
  "MarkBootstrapAborted env a s =
     (case f_upsert (env_faults env) of
        Some e \<Rightarrow> (Inl (Driver e), s)
      | None \<Rightarrow>
          (case ckpts s (a_job a) of
             Some row \<Rightarrow>
               if ck_state row \<noteq> ''completed''
               then (Inr (), s\<lparr>ckpts := (ckpts s)(a_job a \<mapsto> row\<lparr>ck_state := ''aborted''\<rparr>)\<rparr>)
               else (Inl CheckpointMissing, s)
           | None \<Rightarrow> (Inl CheckpointMissing, s)))"

section \<open>Sequences\<close>

definition sequenceCandidate :: "applier \<Rightarrow> TableInfo \<Rightarrow> nat \<Rightarrow> string \<times> string" where
  "sequenceCandidate a t i =
     (let table = applier_name a (Name t); column = applier_name a (Columns t ! i)
      in (''seq_'' @ table @ ''_'' @ column, column))"

definition resolveSequence ::
  "('v, 'd, 'e) catalog \<Rightarrow> applier \<Rightarrow> TableInfo \<Rightarrow> nat \<Rightarrow> 'd \<Rightarrow> 'e cdc_error + string" where
  "resolveSequence cat a t i d =
     (if i \<ge> length (Columns t) then Inl Panic
      else
        let (candidate, column) = sequenceCandidate a t i;
            targetTable = qualifiedIdent (a_schema a) (applier_name a (Name t));
            qualifiedCandidate = qualifiedIdent (a_schema a) candidate;
            fallback = (case cat_sequence cat (a_schema a) candidate d of
                Inl e \<Rightarrow> Inl (Driver e)
              | Inr False \<Rightarrow> Inl (SequenceMissing (Name t) (Columns t ! i) qualifiedCandidate)
              | Inr True \<Rightarrow> Inr qualifiedCandidate)
        in case cat_serial cat targetTable column d of
             Inr (Some owned) \<Rightarrow> if owned \<noteq> [] then Inr owned else fallback
           | _ \<Rightarrow> fallback)"

definition sync_one ::
  "('v, 'd, 'e) pg_env \<Rightarrow> ('v, 'd, 'e) catalog \<Rightarrow> applier \<Rightarrow> TableInfo \<Rightarrow> int \<Rightarrow> 'd \<Rightarrow> 'e cdc_error + 'd" where
  "sync_one env cat a t idx d =
     (if idx < 0 then Inl Panic
      else bind_res (resolveSequence cat a t (nat idx) d) (\<lambda>seq.
        bind_res (exec_stmt env (''SELECT setval($1::regclass, COALESCE((SELECT MAX('' @
            quoteIdent (applier_name a (Columns t ! nat idx)) @ '') FROM '' @ qualified_name a (Name t) @
            ''), 0) + 1, false)'') [cat_text cat seq] d) (\<lambda>(n, d'). Inr d')))"

text \<open>The nested loop: the tables' content at the first error, and the error.\<close>

fun sync_columns ::
  "('v, 'd, 'e) pg_env \<Rightarrow> ('v, 'd, 'e) catalog \<Rightarrow> applier \<Rightarrow> (TableInfo \<times> int) list \<Rightarrow> 'd \<Rightarrow> 'e cdc_error option \<times> 'd" where
  "sync_columns env cat a [] d = (None, d)"
| "sync_columns env cat a ((t, idx) # rest) d =
     (case sync_one env cat a t idx d of
        Inl e \<Rightarrow> (Some e, d)
      | Inr d' \<Rightarrow> sync_columns env cat a rest d')"

definition SyncSequences ::
  "('v, 'd, 'e) pg_env \<Rightarrow> ('v, 'd, 'e) catalog \<Rightarrow> applier \<Rightarrow> TableInfo list \<Rightarrow> 'd \<Rightarrow> 'e cdc_error option \<times> 'd" where
  "SyncSequences env cat a tables d =
     sync_columns env cat a (concat (map (\<lambda>t. map (Pair t) (AutoIncrement t)) tables)) d"

section \<open>The life of a bootstrap record\<close>

text \<open>The operations of one job on its database after the bootstrap record has been saved.\<close>

datatype ('v, 'd, 'e) boot_op =
    BootApply "('v, 'd, 'e) pg_env" "'v Change list" Position
  | BootSave "('v, 'd, 'e) pg_env" Position
  | BootFinalize "('v, 'd, 'e) pg_env" "('v, 'd, 'e) catalog" BootstrapRecord
  | BootAbort "('v, 'd, 'e) pg_env"

fun boot_exec :: "applier \<Rightarrow> 'd db \<Rightarrow> ('v, 'd, 'e) boot_op \<Rightarrow> 'd db" where
  "boot_exec a s (BootApply env changes p) = snd (Apply env a changes p s)"
| "boot_exec a s (BootSave env p) = snd (SaveCheckpoint env a p s)"
| "boot_exec a s (BootFinalize env cat r) = snd (FinalizeBootstrap env cat a r s)"
| "boot_exec a s (BootAbort env) = snd (MarkBootstrapAborted env a s)"

definition boot_state :: "applier \<Rightarrow> 'd db \<Rightarrow> string option" where
  "boot_state a s = map_option ck_state (ckpts s (a_job a))"

lemma with_tx_snd: "snd (with_tx env body s) = s \<or> (\<exists>r. body s = Inr (r, snd (with_tx env body s)))"
  by (auto simp: with_tx_def split: option.splits sum.splits prod.splits)

lemma boot_state_upsert:
  "boot_state a (s\<lparr>content := d, ckpts := upsert_position (a_job a) p m\<rparr>) =
     Some (case m (a_job a) of None \<Rightarrow> ''completed'' | Some r \<Rightarrow> ck_state r)"
  "boot_state a (s\<lparr>ckpts := upsert_position (a_job a) p m\<rparr>) =
     Some (case m (a_job a) of None \<Rightarrow> ''completed'' | Some r \<Rightarrow> ck_state r)"
  by (auto simp: boot_state_def upsert_position_def Let_def default_row_def split: option.splits)

lemma boot_state_Apply:
  assumes "boot_state a s = Some st"
  shows "boot_state a (snd (Apply env a changes p s)) = Some st"
proof -
  let ?s' = "snd (Apply env a changes p s)"
  have "?s' = s \<or> (\<exists>r. apply_body env a changes p s = Inr (r, ?s'))"
    unfolding Apply_def by (rule with_tx_snd)
  then show ?thesis
  proof
    assume "\<exists>r. apply_body env a changes p s = Inr (r, ?s')"
    then obtain d where "?s' = s\<lparr>content := d, ckpts := upsert_position (a_job a) p (ckpts s)\<rparr>"
      by (blast elim: apply_body_Inr)
    then show ?thesis using assms by (simp add: boot_state_upsert) (auto simp: boot_state_def)
  qed (use assms in simp)
qed

lemma boot_state_Save:
  assumes "boot_state a s = Some st"
  shows "boot_state a (snd (SaveCheckpoint env a p s)) = Some st"
proof -
  let ?s' = "snd (SaveCheckpoint env a p s)"
  have "?s' = s \<or> ?s' = s\<lparr>ckpts := upsert_position (a_job a) p (ckpts s)\<rparr>"
    using with_tx_snd [of env "\<lambda>s. bind_res (saveCheckpointTx env a p s) (\<lambda>s'. Inr ((), s'))" s]
    by (auto simp: SaveCheckpoint_def saveCheckpointTx_def split: option.splits)
  then show ?thesis
  proof
    assume *: "?s' = s\<lparr>ckpts := upsert_position (a_job a) p (ckpts s)\<rparr>"
    show ?thesis unfolding * boot_state_upsert using assms by (auto simp: boot_state_def)
  qed (use assms in simp)
qed

lemma finalize_body_state:
  assumes "finalize_body env cat a r s = Inr (u, s')" "boot_state a s = Some st"
  shows "confirmable st \<and> boot_state a s' = Some ''completed''"
  using assms
  by (auto simp: finalize_body_def boot_state_def bind_res_Inr_iff confirm_row_def
      split: option.splits if_splits)

lemma boot_state_Finalize:
  assumes "boot_state a s = Some st"
  shows "boot_state a (snd (FinalizeBootstrap env cat a r s)) = Some st \<or>
    (confirmable st \<and> boot_state a (snd (FinalizeBootstrap env cat a r s)) = Some ''completed'')"
  using with_tx_snd [of env "finalize_body env cat a r" s] assms
  by (auto simp: FinalizeBootstrap_def dest: finalize_body_state)

lemma boot_state_Abort:
  assumes "boot_state a s = Some st"
  shows "boot_state a (snd (MarkBootstrapAborted env a s)) =
    Some st \<or> (st \<noteq> ''completed'' \<and> boot_state a (snd (MarkBootstrapAborted env a s)) = Some ''aborted'')"
  using assms by (auto simp: MarkBootstrapAborted_def boot_state_def split: option.splits)

text \<open>The outcome, once there is one: the contract \<open>stop_once\<close> of a decision that no operation changes.\<close>

definition boot_outcome :: "applier \<Rightarrow> 'd db \<Rightarrow> string option" where
  "boot_outcome a s =
     (case boot_state a s of
        None \<Rightarrow> None
      | Some st \<Rightarrow> if st = ''completed'' \<or> st = ''aborted'' then Some st else None)"

lemma boot_outcome_Some:
  "boot_outcome a s = Some st \<longleftrightarrow> boot_state a s = Some st \<and> (st = ''completed'' \<or> st = ''aborted'')"
  by (auto simp: boot_outcome_def split: option.splits if_splits)

lemma boot_outcome_exec:
  assumes "boot_outcome a s = Some st"
  shows "boot_outcome a (boot_exec a s op) = Some st"
proof -
  from assms have st: "boot_state a s = Some st" "st = ''completed'' \<or> st = ''aborted''"
    by (simp_all add: boot_outcome_Some)
  have "boot_state a (boot_exec a s op) = Some st"
  proof (cases op)
    case (BootFinalize env cat r)
    then show ?thesis using st boot_state_Finalize [of a s st env cat r] by (auto simp: confirmable_def)
  next
    case (BootAbort env)
    then show ?thesis using st boot_state_Abort [of a s st env] by auto
  qed (use st(1) in \<open>simp_all add: boot_state_Apply boot_state_Save\<close>)
  with st(2) show ?thesis by (simp add: boot_outcome_Some)
qed

interpretation bootstrap: stop_once "boot_exec a" "boot_outcome a" "\<lambda>op. False" for a
  by unfold_locales (rule boot_outcome_exec)

text \<open>C31: The outcome of a bootstrap is final: once the checkpoint row is completed or aborted, no sequence
  of applied transactions, saved checkpoints, confirmations and abort requests changes its state; in
  particular an aborted snapshot can never be confirmed and a confirmed one never aborted.\<close>

theorem bootstrap_outcome_final:
  assumes "boot_state a s = Some st" and "st = ''completed'' \<or> st = ''aborted''"
  shows "boot_state a (foldl (boot_exec a) s ops) = Some st"
  using bootstrap.decided_run [of a s st ops] assms by (simp add: boot_outcome_Some list_all_iff)

definition demo_row_db :: "string \<Rightarrow> string list db" where
  "demo_row_db st = \<lparr>ckpts = [''job'' \<mapsto> default_row\<lparr>ck_state := st\<rparr>], content = []\<rparr>"

theorem bootstrap_outcome_final_witness:
  "boot_state demo_applier (foldl (boot_exec demo_applier) (demo_row_db ''completed'')
     [BootApply demo_env demo_changes zero_position, BootAbort demo_env]) = Some ''completed''"
  by (rule bootstrap_outcome_final) (simp_all add: demo_row_db_def boot_state_def demo_applier_def)

text \<open>The bootstrap record is read back as it was saved: every field, the 32-bit offset included, for
  every job and whatever the table held before.\<close>

theorem SaveBootstrapRecord_roundtrip:
  assumes "SaveBootstrapRecord env a r s = (Inr (), s')"
  shows "LoadBootstrapRecord a s' = Some r \<and>
    (\<forall>b. a_job b \<noteq> a_job a \<longrightarrow> LoadBootstrapRecord b s' = LoadBootstrapRecord b s)"
  using assms
  by (cases r; cases "br_position r")
    (auto simp: SaveBootstrapRecord_def LoadBootstrapRecord_def split: option.splits)

definition demo_record :: BootstrapRecord where
  "demo_record = \<lparr>br_state = ''review_pending'', br_position = \<lparr>File = ''b.01'', Pos = - 1, GTID = []\<rparr>,
     br_effective = [''t''], br_excluded = [], br_manifest_hash = ''h'', br_failed = [],
     br_report_version = 1, br_locator_version = 1, br_locators = []\<rparr>"

theorem SaveBootstrapRecord_roundtrip_witness:
  "LoadBootstrapRecord demo_applier (snd (SaveBootstrapRecord demo_env demo_applier demo_record demo_db)) =
     Some demo_record \<and>
   LoadBootstrapRecord (demo_applier\<lparr>a_job := ''other''\<rparr>)
       (snd (SaveBootstrapRecord demo_env demo_applier demo_record demo_db)) = None"
proof -
  obtain r s' where *: "SaveBootstrapRecord demo_env demo_applier demo_record demo_db = (r, s')"
    by (rule prod.exhaust)
  then have "r = Inr ()" by (auto simp: SaveBootstrapRecord_def demo_env_def no_faults_def)
  with * SaveBootstrapRecord_roundtrip [of demo_env demo_applier demo_record demo_db s']
  show ?thesis by (simp add: demo_applier_def demo_db_def LoadBootstrapRecord_def [of _ "\<lparr>ckpts = _, content = _\<rparr>"])
qed

end
