(* ===== verification/CdcExactlyOnce.thy ===== *)
theory CdcExactlyOnce
  imports CdcReplication CdcBootstrapStore
begin

text \<open>
  The replication guarantees of the PostgreSQL applier under the runner: the chain of transactions over
  restarts, at-most-once application, and completeness on a stream of transactions.
\<close>

section \<open>The PostgreSQL applier as a target\<close>

definition pg_target ::
  "('v, 'd, 'e) pg_env \<Rightarrow> applier \<Rightarrow> ('v, 'd db, 'e, ('v, 'd, 'e) faults) target_ops" where
  "pg_target env a = \<lparr>
     t_triggers = (\<lambda>w ts s. checkTargetBusinessTriggers (under env w) a ts (content s)),
     t_load_record = (\<lambda>w s. case f_query w of Some e \<Rightarrow> Inl (Driver e) | None \<Rightarrow> Inr (LoadBootstrapRecord a s)),
     t_save_record = (\<lambda>w. SaveBootstrapRecord (under env w) a),
     t_load = (\<lambda>w s. case f_query w of Some e \<Rightarrow> Inl (Driver e) | None \<Rightarrow> LoadCheckpoint a s),
     t_save = (\<lambda>w. SaveCheckpoint (under env w) a),
     t_apply = (\<lambda>w. Apply (under env w) a)\<rparr>"

lemma LoadCheckpoint_of: "LoadCheckpoint a s = Inr cp \<Longrightarrow> cp = checkpoint_of a s"
  by (auto simp: LoadCheckpoint_def checkpoint_of_def split: option.splits if_splits)

lemma SaveCheckpoint_law:
  assumes "SaveCheckpoint env a p s = (r, s')"
  shows "content s' = content s \<and> (s' = s \<and> \<not> is_ok r \<or> checkpoint_of a s' = Some p)"
proof -
  from assms have "with_tx env (\<lambda>s. bind_res (saveCheckpointTx env a p s) (\<lambda>s'. Inr ((), s'))) s = (r, s')"
    by (simp add: SaveCheckpoint_def)
  then show ?thesis
  proof (cases rule: with_tx_cases)
    case (durable u)
    then have "s' = s\<lparr>ckpts := upsert_position (a_job a) p (ckpts s)\<rparr>"
      by (auto simp: saveCheckpointTx_def split: option.splits)
    then show ?thesis by simp
  qed simp
qed

lemma SaveBootstrapRecord_law:
  assumes "SaveBootstrapRecord env a r s = (q, s')"
  shows "content s' = content s \<and> (s' = s \<and> \<not> is_ok q \<or> checkpoint_of a s' = Some (br_position r))"
  using assms
  by (cases "br_position r")
    (auto simp: SaveBootstrapRecord_def checkpoint_of_def LoadBootstrapRecord_def split: option.splits)

interpretation pg: replication_target "pg_target env a" "checkpoint_of a" content "tx_effect env a" for env a
proof
  fix w cs p s r s'
  assume "t_apply (pg_target env a) w cs p s = (r, s')"
  then show "s' = s \<and> \<not> is_ok r \<or>
    tx_effect env a cs (content s) = Some (content s') \<and> checkpoint_of a s' = Some p"
    using postgres.app_law [of env w a] by (simp add: pg_target_def)
qed (auto simp: pg_target_def checkpoint_of_def [of a] dest!: Apply_position LoadCheckpoint_of SaveCheckpoint_law
    SaveBootstrapRecord_law split: option.splits)

section \<open>At most once\<close>

lemma advances_sorted:
  assumes "advances lib (log_position base m p) (map (\<lambda>(n, q). log_position base n q) xs)"
    and "list_all (\<lambda>(n, q). n < 2 ^ 64) ((m, p) # xs)"
  shows "sorted_wrt (\<lambda>(m, p) (n, q). m < n \<or> (m = n \<and> p < q)) ((m, p) # xs)"
  using assms
proof (induction xs arbitrary: m p)
  case (Cons x xs)
  obtain n q where x: "x = (n, q)" by (cases x) auto
  have lt: "m < n \<or> (m = n \<and> p < q)"
    using Cons.prems x PositionReached_log [of m n lib base p q] by auto
  moreover have rest: "sorted_wrt (\<lambda>(m, p) (n, q). m < n \<or> (m = n \<and> p < q)) ((n, q) # xs)"
    using Cons.IH [of n q] Cons.prems x by simp
  moreover have "\<forall>(k, r)\<in>set xs. m < k \<or> (m = k \<and> p < r)"
  proof
    fix y assume y: "y \<in> set xs"
    obtain k r where kr: "y = (k, r)" by (cases y) auto
    then have "n < k \<or> (n = k \<and> q < r)" using rest y by auto
    then show "case y of (k, r) \<Rightarrow> m < k \<or> (m = k \<and> p < r)" using lt kr by auto
  qed
  ultimately show ?case using x by auto
qed simp

lemma sorted_keys_distinct:
  "sorted_wrt (\<lambda>(m :: nat, p :: 32 word) (n, q). m < n \<or> (m = n \<and> p < q)) xs \<Longrightarrow> distinct xs"
  by (induction xs) auto

section \<open>Transactions of a log file\<close>

text \<open>A transaction as the log writes it: its row events, each with its end offset, and the XID event with the
  transaction's end offset.\<close>

type_synonym 'v row_event = "string \<times> string \<times> rows_kind \<times> 'v list list \<times> 32 word"

definition log_event :: "'v event \<Rightarrow> 32 word \<Rightarrow> 'v binlog_event" where
  "log_event ev lp = \<lparr>ev_LogPos = lp, ev_Timestamp = 0, ev_Event = ev\<rparr>"

fun row_log :: "'v row_event \<Rightarrow> 'v binlog_event" where
  "row_log (schema, table, kind, rows, lp) = log_event (RowsEvent schema table kind rows) lp"

definition tx_log :: "'v row_event list \<times> 32 word \<Rightarrow> 'v binlog_event list" where
  "tx_log tx = map row_log (fst tx) @ [log_event (XIDEvent None) (snd tx)]"

fun event_changes :: "('v, 's, 'e, 'g, 'w) run_ctx \<Rightarrow> 'v row_event \<Rightarrow> 'v Change list" where
  "event_changes rc (schema, table, kind, rows, lp) = selected_changes rc schema table kind rows"

definition tx_changes :: "('v, 's, 'e, 'g, 'w) run_ctx \<Rightarrow> 'v row_event list \<Rightarrow> 'v Change list" where
  "tx_changes rc evs = concat (map (event_changes rc) evs)"

definition file_position :: "string \<Rightarrow> 32 word \<Rightarrow> Position" where
  "file_position f q = \<lparr>File = f, Pos = q, GTID = []\<rparr>"

definition file_at :: "string \<Rightarrow> 'v reader \<Rightarrow> bool" where
  "file_at f rd \<longleftrightarrow> (\<exists>q. rd_pos rd = file_position f q) \<and> \<not> rd_use_gtid rd \<and> rd_gtid rd = []"

lemma move_to_file [simp]: "\<exists>r. move_to lp (file_position f q) = file_position f r"
  by (simp add: file_position_def)

lemma read_rows:
  assumes "file_at f rd"
  shows "\<exists>rd'. source_txs rc rd (map row_log evs @ rest) = source_txs rc rd' rest \<and> file_at f rd' \<and>
    rd_changes rd' = rd_changes rd @ tx_changes rc evs"
  using assms
proof (induction evs arbitrary: rd)
  case (Cons ev evs)
  obtain schema table kind rows lp where ev: "ev = (schema, table, kind, rows, lp)" by (cases ev) auto
  let ?rd = "rd\<lparr>rd_pos := move_to lp (rd_pos rd), rd_changes := rd_changes rd @ event_changes rc ev\<rparr>"
  have "file_at f ?rd" using Cons.prems move_to_file [of lp f] by (auto simp: file_at_def simp del: move_to.simps)
  from Cons.IH [OF this] show ?case
    by (simp add: ev log_event_def read_event_def tx_changes_def del: move_to.simps)
next
  case Nil
  then show ?case by (intro exI [of _ rd]) (simp add: tx_changes_def)
qed

text \<open>The reader finds exactly the transactions that were written.\<close>

lemma read_transactions:
  assumes "file_at f rd" "rd_changes rd = []" "\<forall>tx\<in>set txs. 0 < snd tx"
  shows "source_txs rc rd (concat (map tx_log txs)) = map (\<lambda>(evs, q). (tx_changes rc evs, file_position f q)) txs"
  using assms
proof (induction txs arbitrary: rd)
  case (Cons tx txs)
  obtain evs q where tx: "tx = (evs, q)" by (cases tx)
  let ?rest = "log_event (XIDEvent None) q # concat (map tx_log txs)"
  obtain rd' where rd': "source_txs rc rd (map row_log evs @ ?rest) = source_txs rc rd' ?rest" "file_at f rd'"
    "rd_changes rd' = tx_changes rc evs"
    using read_rows [OF Cons.prems(1), of rc evs ?rest] Cons.prems(2) by auto
  let ?rd = "rd'\<lparr>rd_pos := file_position f q, rd_changes := []\<rparr>"
  have "0 < q" using Cons.prems(3) tx by simp
  then have read: "read_event rc (log_event (XIDEvent None) q) rd' = Ends ?rd (tx_changes rc evs) (file_position f q)"
    using rd'(2,3) by (auto simp: read_event_def log_event_def ends_at_def file_at_def file_position_def)
  have "file_at f ?rd" using rd'(2) by (simp add: file_at_def file_position_def)
  then have "source_txs rc ?rd (concat (map tx_log txs)) = map (\<lambda>(evs, q). (tx_changes rc evs, file_position f q)) txs"
    using Cons.IH [of ?rd] Cons.prems(3) by simp
  moreover have "concat (map tx_log (tx # txs)) = map row_log evs @ ?rest" by (simp add: tx tx_log_def)
  ultimately show ?case using rd'(1) read by (simp add: tx)
qed simp

text \<open>Those that end after everything before them: a transaction delivered again is left out.\<close>

fun later_txs :: "32 word \<Rightarrow> ('v row_event list \<times> 32 word) list \<Rightarrow> ('v row_event list \<times> 32 word) list" where
  "later_txs p [] = []"
| "later_txs p ((evs, q) # txs) = (if q \<le> p then later_txs p txs else (evs, q) # later_txs q txs)"

lemma PositionReached_file:
  "f \<noteq> [] \<Longrightarrow> PositionReached lib (file_position f p) (file_position f q) \<longleftrightarrow> q \<le> p"
  by (auto simp: PositionReached_def file_position_def)

lemma due_transactions:
  assumes "f \<noteq> []" "TargetDBType (rc_cfg rc) \<noteq> ''dameng''"
  shows "due_txs rc (file_position f p) (map (\<lambda>(evs, q). (tx_changes rc' evs, file_position f q)) txs) =
    map (\<lambda>(evs, q). (tx_changes rc' evs, file_position f q)) (later_txs p txs)"
  using assms
  by (induction txs arbitrary: p) (auto simp: PositionReached_file normalize_changes_def)

section \<open>A run of the model\<close>

definition demo_hooks :: Hooks where
  "demo_hooks = \<lparr>has_status = True, has_stats = True, has_ddl = True, has_conflict = True\<rparr>"

definition demo_gtid :: "unit gtid_lib" where
  "demo_gtid = \<lparr>ParseGTIDSet = \<lambda>_. None, Contain = \<lambda>_ _. False, EqualSet = \<lambda>_ _. False,
     UpdateSet = \<lambda>_ _. None, SetString = \<lambda>_. []\<rparr>"

definition demo_ctx :: "(int, string list db, unit, unit, (int, string list, unit) faults) run_ctx" where
  "demo_ctx = \<lparr>rc_cfg = demo_config, rc_hooks = demo_hooks, rc_tables = [demo_table], rc_gtid = demo_gtid,
     rc_ops = pg_target demo_env demo_applier, rc_normalize = Inr\<rparr>"

definition quiet_clock :: "'e clock" where
  "quiet_clock = \<lparr>ck_head_due = False, ck_current = Inr zero_position, ck_stats_due = False, ck_since = 0,
     ck_boundary = None\<rparr>"

definition event_tick :: "'w \<Rightarrow> 'v binlog_event \<Rightarrow> ('v, 'e, 'w) tick" where
  "event_tick w ev = \<lparr>tk_world = w, tk_event = Inr ev, tk_cancelled = False, tk_commit = quiet_clock,
     tk_tail_due = False, tk_tail = quiet_clock\<rparr>"

lemma delivered_ticks [simp]: "delivered (map (event_tick w) evs @ tks) = evs @ delivered tks"
  by (induction evs) (simp_all add: event_tick_def)

text \<open>Two transactions of the log; in the first run the connection is lost while the first one commits, in the
  second both are delivered from the start of the file.\<close>

definition demo_txs :: "(int row_event list \<times> 32 word) list" where
  "demo_txs = [([(''d'', ''T'', RowsInsert, [[1, 2]], 50)], 60), ([(''d'', ''T'', RowsDelete, [[1, 2]], 80)], 90)]"

definition lost_commit :: "('v, 'd, unit) faults" where
  "lost_commit = no_faults\<lparr>f_commit := Some ((), True)\<rparr>"

definition demo_input :: "(int, string list, unit) faults \<Rightarrow>
    (int, string list db, unit, unit, (int, string list, unit) faults) run_input" where
  "demo_input w = \<lparr>ri_ctx = demo_ctx, ri_world = no_faults, ri_hash = (\<lambda>_. ''h''), ri_current = Inr zero_position,
     ri_clock = quiet_clock, ri_ticks = map (event_tick w) (concat (map tx_log demo_txs))\<rparr>"

definition demo_started :: "string list db" where
  "demo_started = demo_db\<lparr>ckpts := [''job'' \<mapsto> default_row\<lparr>ck_file := ''b.000001'', ck_locator_version := 1,
     ck_locators := [\<lparr>ls_table = ''T'', ls_strategy = LocatorPrimaryKey, ls_index = ''PRIMARY'', ls_columns = [''id'']\<rparr>]\<rparr>]\<rparr>"

text \<open>How many rows the statements have inserted and deleted.\<close>

definition statements :: "string list db \<Rightarrow> nat \<times> nat" where
  "statements s = (length (filter (\<lambda>sql. has_prefix sql ''INSERT'') (content s)),
     length (filter (\<lambda>sql. has_prefix sql ''DELETE'') (content s)))"

lemma demo_started_checkpoint:
  "checkpoint_of demo_applier demo_started = Some (log_position ''b'' 1 4)"
  by (simp add: checkpoint_of_def LoadBootstrapRecord_def demo_started_def demo_applier_def default_row_def
      log_position_def pad_number_def) code_simp

section \<open>Properties\<close>

text \<open>C1: Replication with the PostgreSQL applier is one chain of source transactions, whatever happens. From a
  target with a checkpoint, after any number of runs, each ended by an error, a stop, a cutover, a crash at any
  point or not at all, with any faults of the connections (a commit whose answer was lost included), there is a
  list of transactions that makes the original tables what they are now, the checkpoint is the position of its
  last one, and the list is what was delivered: run by run, the transactions that the run's events hold (each
  the changes of the selected tables between two ends of transactions), up to some point of the stream, less
  those that the checkpoint had already reached; none before that point is left out, merged or applied twice.\<close>

theorem replication_chain:
  assumes "checkpoint_of a s = Some p0"
    and "list_all (\<lambda>i. rc_ops (ri_ctx i) = pg_target env a \<and> rc_gtid (ri_ctx i) = lib) runs"
  shows "\<exists>txs. replicated lib (checkpoint_of a) content (tx_effect env a) p0 (content s) (restarts runs s) txs \<and>
    chained runs p0 txs"
  using assms by (rule pg.restarts_rep)

theorem replication_chain_witness:
  "(\<exists>txs. replicated demo_gtid (checkpoint_of demo_applier) content (tx_effect demo_env demo_applier)
      (log_position ''b'' 1 4) (content demo_started)
      (restarts [demo_input lost_commit, demo_input no_faults] demo_started) txs \<and>
    chained [demo_input lost_commit, demo_input no_faults] (log_position ''b'' 1 4) txs) \<and>
   statements (restarts [demo_input lost_commit] demo_started) = (1, 0) \<and>
   statements (restarts [demo_input lost_commit, demo_input no_faults] demo_started) = (1, 1)"
proof (intro conjI)
  show "\<exists>txs. replicated demo_gtid (checkpoint_of demo_applier) content (tx_effect demo_env demo_applier)
      (log_position ''b'' 1 4) (content demo_started)
      (restarts [demo_input lost_commit, demo_input no_faults] demo_started) txs \<and>
    chained [demo_input lost_commit, demo_input no_faults] (log_position ''b'' 1 4) txs"
    by (rule replication_chain) (simp_all add: demo_started_checkpoint demo_input_def demo_ctx_def)
  show "statements (restarts [demo_input lost_commit] demo_started) = (1, 0)" by code_simp
  show "statements (restarts [demo_input lost_commit, demo_input no_faults] demo_started) = (1, 1)" by code_simp
qed

text \<open>With file positions every transaction of the log is applied at most once over all runs: when the
  transactions that made the target end at positions in the numbered files of one log, they are in the
  order of the log, so their end positions are distinct and all after the initial checkpoint.\<close>

theorem at_most_once:
  assumes "checkpoint_of a s = Some (log_position base m p)"
    and "list_all (\<lambda>i. rc_ops (ri_ctx i) = pg_target env a \<and> rc_gtid (ri_ctx i) = lib) runs"
  shows "\<exists>txs. effects (tx_effect env a) txs (content s) = Some (content (restarts runs s)) \<and>
    (\<forall>xs. map snd txs = map (\<lambda>(n, q). log_position base n q) xs \<and> list_all (\<lambda>(n, q). n < 2 ^ 64) ((m, p) # xs) \<longrightarrow>
      sorted_wrt (\<lambda>(m, p) (n, q). m < n \<or> (m = n \<and> p < q)) ((m, p) # xs) \<and> distinct ((m, p) # xs))"
proof -
  from pg.restarts_rep [OF assms] obtain txs where
    txs: "replicated lib (checkpoint_of a) content (tx_effect env a) (log_position base m p) (content s) (restarts runs s) txs"
    by blast
  have order: "sorted_wrt (\<lambda>(m, p) (n, q). m < n \<or> (m = n \<and> p < q)) ((m, p) # xs) \<and> distinct ((m, p) # xs)"
    if "map snd txs = map (\<lambda>(n, q). log_position base n q) xs" "list_all (\<lambda>(n, q). n < 2 ^ 64) ((m, p) # xs)" for xs
  proof -
    have "advances lib (log_position base m p) (map (\<lambda>(n, q). log_position base n q) xs)"
      using txs that(1) by (simp add: replicated_def)
    then have sorted: "sorted_wrt (\<lambda>(m, p) (n, q). m < n \<or> (m = n \<and> p < q)) ((m, p) # xs)"
      using that(2) by (rule advances_sorted)
    then show ?thesis using sorted_keys_distinct [OF sorted] by blast
  qed
  from txs have "effects (tx_effect env a) txs (content s) = Some (content (restarts runs s))"
    by (simp add: replicated_def)
  then show ?thesis using order by blast
qed

theorem at_most_once_witness:
  "\<exists>txs. effects (tx_effect demo_env demo_applier) txs (content demo_started) =
       Some (content (restarts [demo_input no_faults] demo_started)) \<and>
    (\<forall>xs. map snd txs = map (\<lambda>(n, q). log_position ''b'' n q) xs \<and> list_all (\<lambda>(n, q). n < 2 ^ 64) ((1, 4) # xs) \<longrightarrow>
      sorted_wrt (\<lambda>(m, p) (n, q). m < n \<or> (m = n \<and> p < q)) ((1, 4) # xs) \<and> distinct ((1, 4) # xs))"
  by (rule at_most_once [of _ _ _ _ _ _ demo_gtid])
    (simp_all add: demo_started_checkpoint demo_input_def demo_ctx_def)

text \<open>C2: Completeness. A run on the PostgreSQL target that is still going, from a target whose checkpoint is
  \<open>p0\<close>, has applied every transaction of the events delivered to it that its checkpoint had not reached, each
  with exactly its changes to the selected tables (which carry the locators the run started with), in order and
  once: the tables are what these transactions make of the tables at the start, and the checkpoint is the
  position of the last of them. This holds for file and for GTID positions, with any timers due, with
  failing reads of the stream in between, and with transactions delivered again anywhere in the stream. (A run
  that has returned an error has applied the same up to some point: the property above.)\<close>

theorem stream_applied_exactly:
  assumes "checkpoint_of a s = Some p0" and "rc_ops rc = pg_target env a"
    and "run rc w hash cur cl tks s = (None, s')"
  shows "\<exists>ts s1 txs. init_locators (rc_cfg rc) hash (pg_target env a) w (rc_tables rc) s = Inr (ts, s1) \<and>
    txs = due_txs rc p0 (source_txs (rc\<lparr>rc_tables := ts\<rparr>) (reader_at p0) (delivered tks)) \<and>
    effects (tx_effect env a) txs (content s) = Some (content s') \<and>
    checkpoint_of a s' = Some (last (p0 # map snd txs))"
  using pg.going_rep [OF assms(2,1,3)] unfolding replicated_def by blast

theorem stream_applied_exactly_witness:
  "\<exists>s' ts s1 txs. init_locators (rc_cfg demo_ctx) (\<lambda>_. ''h'') (pg_target demo_env demo_applier) no_faults (rc_tables demo_ctx) demo_started =
      Inr (ts, s1) \<and>
    txs = due_txs demo_ctx (log_position ''b'' 1 4) (source_txs (demo_ctx\<lparr>rc_tables := ts\<rparr>) (reader_at (log_position ''b'' 1 4))
      (tx_log (hd demo_txs))) \<and>
    effects (tx_effect demo_env demo_applier) txs (content demo_started) = Some (content s') \<and>
    checkpoint_of demo_applier s' = Some (last (log_position ''b'' 1 4 # map snd txs)) \<and> statements s' = (1, 0)"
proof -
  let ?ticks = "map (event_tick no_faults) (tx_log (hd demo_txs))"
  have "case run demo_ctx no_faults (\<lambda>_. ''h'') (Inr zero_position) quiet_clock ?ticks demo_started of
      (None, s) \<Rightarrow> statements s = (1, 0) | (Some e, s) \<Rightarrow> False"
    by code_simp
  then obtain s' where run: "run demo_ctx no_faults (\<lambda>_. ''h'') (Inr zero_position) quiet_clock ?ticks demo_started = (None, s')"
    "statements s' = (1, 0)" by (auto split: prod.splits option.splits)
  have "rc_ops demo_ctx = pg_target demo_env demo_applier" by (simp add: demo_ctx_def)
  note applied = stream_applied_exactly [OF demo_started_checkpoint this run(1)]
  have "delivered ?ticks = tx_log (hd demo_txs)"
    using delivered_ticks [of no_faults "tx_log (hd demo_txs)" "[]"] by simp
  from applied [unfolded this] run(2) show ?thesis by blast
qed

text \<open>For a log file written transaction by transaction, and a target that is not DaMeng: exactly the
  transactions that end after the checkpoint, and after those before them, are applied.\<close>

theorem file_applied_exactly:
  assumes "checkpoint_of a s = Some (file_position f p)" and "rc_ops rc = pg_target env a"
    and "run rc w hash cur cl tks s = (None, s')"
    and "delivered tks = concat (map tx_log txs)" "\<forall>tx\<in>set txs. 0 < snd tx" "f \<noteq> []" "TargetDBType (rc_cfg rc) \<noteq> ''dameng''"
  shows "\<exists>ts. effects (tx_effect env a)
      (map (\<lambda>(evs, q). (tx_changes (rc\<lparr>rc_tables := ts\<rparr>) evs, file_position f q)) (later_txs p txs)) (content s) = Some (content s')"
proof -
  have start: "file_at f (reader_at (file_position f p))" "rd_changes (reader_at (file_position f p)) = []"
    by (auto simp: file_at_def reader_at_def file_position_def)
  show ?thesis
    using pg.going_rep [OF assms(2,1,3)] unfolding replicated_def assms(4) read_transactions [OF start assms(5)]
      due_transactions [OF assms(6,7)] by blast
qed

end
