(* ===== verification/CdcDamengReplication.thy ===== *)
theory CdcDamengReplication
  imports CdcDamengBootstrap CdcExactlyOnce
begin

text \<open>
  The DaMeng applier under the runner: an instance of the same two contracts as the PostgreSQL applier
  (\<open>target_applier\<close>, \<open>replication_target\<close>), and so the same guarantee over restarts; and the check of
  the target's identity counters before a cutover (\<^verbatim>\<open>dameng_identity.go\<close>).
\<close>

section \<open>The DaMeng applier as a target\<close>

definition dm_target ::
  "('o, 'd, 'e) dm_env \<Rightarrow> 'd boot_env \<Rightarrow> applier \<Rightarrow> ('o gval, 'd dm_db, 'e, ('o, 'd, 'e) dm_faults) target_ops" where
  "dm_target env bo a = \<lparr>
     t_triggers = (\<lambda>w ts s. checkDamengBusinessTriggers (dm_under env w) a ts (dm_content s)),
     t_load_record = (\<lambda>w s. dm_LoadBootstrapRecord (dm_under env w) a s),
     t_save_record = (\<lambda>w. dm_SaveBootstrapRecord (dm_under env w) bo a),
     t_load = (\<lambda>w s. dm_LoadCheckpoint (dm_under env w) a s),
     t_save = (\<lambda>w. dm_SaveCheckpoint (dm_under env w) a),
     t_apply = (\<lambda>w. dm_Apply (dm_under env w) a)\<rparr>"

lemma dm_calm_under [simp]: "dm_calm (dm_under env w) = dm_calm env"
  by (simp add: dm_calm_def dm_under_def)

lemma dm_effect_under [simp]: "dm_effect (dm_under env w) = dm_effect env"
  by (intro ext) (simp only: dm_effect_def dm_calm_under)

lemma dm_Load_checkpoint: "dm_LoadCheckpoint env a s = Inr cp \<Longrightarrow> cp = dm_checkpoint_of a s"
  by (auto simp: dm_LoadCheckpoint_def dm_LoadBootstrapRecord_def dm_checkpoint_of_def bind_res_Inr_iff
      split: option.splits if_splits)

lemma dm_SaveCheckpoint_law:
  assumes "dm_SaveCheckpoint env a p s = (r, s')"
  shows "dm_content s' = dm_content s \<and> (s' = s \<and> \<not> is_ok r \<or> dm_checkpoint_of a s' = Some p)"
  using assms by (cases rule: dm_SaveCheckpoint_cases) (auto simp: dm_checkpoint_of_def)

lemma put_record_position: "br_position (record_of (put_record r row)) = br_position r"
  by (cases "br_position r") (simp add: record_of_def put_record_def)

lemma record_of_plan: "record_of (row\<lparr>ck_plan := x\<rparr>) = record_of row"
  by (simp add: record_of_def)

lemma write_record_fresh:
  "write_record env a r plan s = Inr s' \<Longrightarrow> dm_content s' = dm_content s \<and> dm_checkpoint_of a s' = Some (br_position r)"
  by (auto simp: write_record_def bind_res_Inr_iff dm_checkpoint_of_def put_record_position record_of_plan
      split: option.splits)

lemma dm_SaveBootstrapRecord_law:
  assumes "dm_SaveBootstrapRecord env bo a r s = (q, s')" "dm_checkpoint_of a s = None"
  shows "dm_content s' = dm_content s \<and> (s' = s \<and> \<not> is_ok q \<or> dm_checkpoint_of a s' = Some (br_position r))"
proof -
  have "stored = None" if "dm_LoadBootstrapRecord env a s = Inr stored" for stored
    using that assms(2) by (cases stored) (auto dest: Load_Inr_Some simp: dm_checkpoint_of_def)
  then consider e where "q = Inl e" "s' = s" | plan where "dm_with_tx env (write_record env a r plan) s = (q, s')"
    using assms(1)
    by (auto simp: dm_SaveBootstrapRecord_def admit_record_def bind_res_Inr_iff split: sum.splits option.splits if_splits)
  then show ?thesis
  proof cases
    case (2 plan)
    then show ?thesis by (cases rule: dm_with_tx_cases) (auto dest: write_record_fresh)
  qed simp
qed

interpretation dameng: replication_target "dm_target env bo a" "dm_checkpoint_of a" dm_content "dm_effect env a" for env bo a
proof
  fix w cs p s r s'
  assume "t_apply (dm_target env bo a) w cs p s = (r, s')"
  then have "dm_Apply (dm_under env w) a cs p s = (r, s')" by (simp add: dm_target_def)
  then show "s' = s \<and> \<not> is_ok r \<or>
    dm_effect env a cs (dm_content s) = Some (dm_content s') \<and> dm_checkpoint_of a s' = Some p"
    using dm_Apply_law [of "dm_under env w"] by fastforce
qed (auto simp: dm_target_def dm_checkpoint_of_def [of a] dest!: dm_Apply_position dm_Load_checkpoint dm_SaveCheckpoint_law
    dm_SaveBootstrapRecord_law Load_Inr_None)

definition dm_demo_ctx :: "(int gval, string list dm_db, unit, unit, (int, string list, unit) dm_faults) run_ctx" where
  "dm_demo_ctx = \<lparr>rc_cfg = demo_config\<lparr>TargetDBType := ''dameng''\<rparr>, rc_hooks = demo_hooks, rc_tables = [demo_table],
     rc_gtid = demo_gtid, rc_ops = dm_target dm_demo_env dm_demo_boot demo_applier, rc_normalize = Inr\<rparr>"

definition dm_demo_txs :: "(int gval row_event list \<times> 32 word) list" where
  "dm_demo_txs = [([(''d'', ''T'', RowsInsert, [[GOther 1, GOther 2]], 50)], 60),
     ([(''d'', ''T'', RowsInsert, [[GOther 2, GOther 2]], 80)], 90)]"

definition dm_lost_commit :: "(int, string list, unit) dm_faults" where
  "dm_lost_commit = no_dm_faults\<lparr>fd_commit := Some ((), True)\<rparr>"

definition dm_demo_input ::
  "(int, string list, unit) dm_faults \<Rightarrow> (int gval, string list dm_db, unit, unit, (int, string list, unit) dm_faults) run_input" where
  "dm_demo_input w = \<lparr>ri_ctx = dm_demo_ctx, ri_world = no_dm_faults, ri_hash = (\<lambda>_. ''h''), ri_current = Inr zero_position,
     ri_clock = quiet_clock, ri_ticks = map (event_tick w) (concat (map tx_log dm_demo_txs))\<rparr>"

definition dm_demo_started :: "string list dm_db" where
  "dm_demo_started = \<lparr>dm_ckpts = [''job'' \<mapsto> dm_default_row\<lparr>ck_state := ''completed'', ck_file := ''b'', ck_locator_version := 1,
     ck_locators := [\<lparr>ls_table = ''T'', ls_strategy = LocatorPrimaryKey, ls_index = ''PRIMARY'', ls_columns = [''id'']\<rparr>]\<rparr>],
     dm_content = []\<rparr>"

definition dm_inserts :: "string list dm_db \<Rightarrow> nat" where
  "dm_inserts s = length (filter (\<lambda>sql. has_prefix sql ''INSERT'') (dm_content s))"

lemma dm_demo_started_checkpoint:
  "dm_checkpoint_of demo_applier dm_demo_started = Some (file_position ''b'' 4)"
  by (simp add: dm_checkpoint_of_def dm_demo_started_def demo_applier_def record_of_def dm_default_row_def default_row_def
      ckpt_row.extend_def file_position_def)

text \<open>C3: Replication into DaMeng is one chain too: from a target with a checkpoint, after any number of runs
  ended in any way, with any faults, there is a list of transactions that makes the original tables what they are
  now, the checkpoint is the position of its last one, and the list is what was delivered: run by run, the
  transactions that the run's events hold, normalised as the runner does for DaMeng,
  up to some point of the stream, less those that the checkpoint had already reached; none before that point is
  left out, merged or applied twice.\<close>

theorem dameng_replication_chain:
  assumes "dm_checkpoint_of a s = Some p0"
    and "list_all (\<lambda>i. rc_ops (ri_ctx i) = dm_target env bo a \<and> rc_gtid (ri_ctx i) = lib) runs"
  shows "\<exists>txs. replicated lib (dm_checkpoint_of a) dm_content (dm_effect env a) p0 (dm_content s) (restarts runs s) txs \<and>
    chained runs p0 txs"
  using assms by (rule dameng.restarts_rep)

theorem dameng_replication_chain_witness:
  "(\<exists>txs. replicated demo_gtid (dm_checkpoint_of demo_applier) dm_content (dm_effect dm_demo_env demo_applier)
      (file_position ''b'' 4) (dm_content dm_demo_started)
      (restarts [dm_demo_input dm_lost_commit, dm_demo_input no_dm_faults] dm_demo_started) txs \<and>
    chained [dm_demo_input dm_lost_commit, dm_demo_input no_dm_faults] (file_position ''b'' 4) txs) \<and>
   dm_inserts (restarts [dm_demo_input dm_lost_commit] dm_demo_started) = 1 \<and>
   dm_inserts (restarts [dm_demo_input dm_lost_commit, dm_demo_input no_dm_faults] dm_demo_started) = 2"
proof (intro conjI)
  show "\<exists>txs. replicated demo_gtid (dm_checkpoint_of demo_applier) dm_content (dm_effect dm_demo_env demo_applier)
      (file_position ''b'' 4) (dm_content dm_demo_started)
      (restarts [dm_demo_input dm_lost_commit, dm_demo_input no_dm_faults] dm_demo_started) txs \<and>
    chained [dm_demo_input dm_lost_commit, dm_demo_input no_dm_faults] (file_position ''b'' 4) txs"
    by (rule dameng_replication_chain) (simp_all add: dm_demo_started_checkpoint dm_demo_input_def dm_demo_ctx_def)
  show "dm_inserts (restarts [dm_demo_input dm_lost_commit] dm_demo_started) = 1" by code_simp
  show "dm_inserts (restarts [dm_demo_input dm_lost_commit, dm_demo_input no_dm_faults] dm_demo_started) = 2" by code_simp
qed

text \<open>And it is complete: a run that is still going has applied everything delivered that was due.\<close>

theorem dameng_stream_applied:
  assumes "dm_checkpoint_of a s = Some p0" and "rc_ops rc = dm_target env bo a"
    and "run rc w hash cur cl tks s = (None, s')"
  shows "\<exists>ts s1. init_locators (rc_cfg rc) hash (dm_target env bo a) w (rc_tables rc) s = Inr (ts, s1) \<and>
    replicated (rc_gtid rc) (dm_checkpoint_of a) dm_content (dm_effect env a) p0 (dm_content s) s'
      (due_txs rc p0 (source_txs (rc\<lparr>rc_tables := ts\<rparr>) (reader_at p0) (delivered tks)))"
  using dameng.going_rep [OF assms(2,1,3)] .

end
