(* ===== verification/CdcDamengIdentity.thy ===== *)
theory CdcDamengIdentity
  imports CdcDameng
begin

text \<open>
  The identity counters of a DaMeng target before a cutover (\<^verbatim>\<open>dameng_identity.go\<close>,
  \<open>SyncSequences\<close> of \<^verbatim>\<open>dameng.go\<close>). A counter is not moved but checked: the next value it may
  give must fit the type and lie beyond the data and the source's counter. Numbers come as decimal texts and
  are read without bound (\<open>big.Int\<close>). The record \<open>id_env\<close> holds the answers of source and target.
\<close>

definition type_maximum :: "string \<Rightarrow> int option" where
  "type_maximum dt =
     (let t = to_upper (trim_space dt) in
      if t = ''INT'' \<or> t = ''INTEGER'' then Some (2 ^ 31 - 1)
      else if t = ''BIGINT'' then Some (2 ^ 63 - 1 - 1) else None)"

definition ambiguous_counter :: "int \<Rightarrow> int \<Rightarrow> int option \<Rightarrow> bool" where
  "ambiguous_counter seed current maximum \<longleftrightarrow>
     current = seed \<and> (case maximum of None \<Rightarrow> True | Some m \<Rightarrow> m < seed)"

definition check_counter ::
  "string \<Rightarrow> int \<Rightarrow> int \<Rightarrow> int \<Rightarrow> int option \<Rightarrow> string option \<Rightarrow> identity_problem option" where
  "check_counter dt seed current step maximum source_next =
     (let upper = current + step;
          ambiguous = ambiguous_counter seed current maximum;
          lower = (if ambiguous then seed else upper)
      in case (case type_maximum dt of None \<Rightarrow> None | Some bound \<Rightarrow> if upper > bound then Some (BeyondTypeMaximum upper bound) else None) of
           Some e \<Rightarrow> Some e
         | None \<Rightarrow>
        (case (case maximum of None \<Rightarrow> None | Some m \<Rightarrow> if lower \<le> m then Some (NotBeyondData lower m) else None) of
           Some e \<Rightarrow> Some e
         | None \<Rightarrow>
        (case source_next of
           None \<Rightarrow> None
         | Some t \<Rightarrow> (case parse_big t of
             None \<Rightarrow> Some (BadSourceNext t)
           | Some minimum \<Rightarrow> if lower < minimum then Some (BelowSourceNext lower minimum ambiguous) else None))))"

definition validateDamengIdentityNext ::
  "dm_column \<Rightarrow> string \<Rightarrow> string \<Rightarrow> string \<Rightarrow> string option \<Rightarrow> string option \<Rightarrow> identity_problem option" where
  "validateDamengIdentityNext column seed_text current_text step_text maximum source_next =
     (case parse_big seed_text of
        None \<Rightarrow> Some (BadSeed seed_text)
      | Some seed \<Rightarrow>
     (case parse_big current_text of
        None \<Rightarrow> Some (BadCurrent current_text)
      | Some current \<Rightarrow>
     (case parse_big step_text of
        None \<Rightarrow> Some (BadStep step_text)
      | Some step \<Rightarrow>
          if step \<le> 0 then Some (BadStep step_text)
          else (case maximum of
                  None \<Rightarrow> check_counter (tc_data_type column) seed current step None source_next
                | Some m \<Rightarrow> (case parse_big m of
                    None \<Rightarrow> Some (BadMaximum m)
                  | Some v \<Rightarrow> check_counter (tc_data_type column) seed current step (Some v) source_next)))))"

section \<open>All identity columns of the selected tables\<close>

record ('d, 'e) id_env =
  id_has_source :: bool
  id_source_next :: "string \<Rightarrow> 'e + string option"
  id_counters :: "string \<Rightarrow> 'd \<Rightarrow> 'e + string \<times> string \<times> string"
  id_maximum :: "string \<Rightarrow> string \<Rightarrow> 'd \<Rightarrow> 'e + string option"

definition driver_res :: "'e + 'a \<Rightarrow> 'e cdc_error + 'a" where
  "driver_res r = (case r of Inl e \<Rightarrow> Inl (Driver e) | Inr x \<Rightarrow> Inr x)"

fun check_auto_columns :: "applier \<Rightarrow> TableInfo \<Rightarrow> dm_table \<Rightarrow> int list \<Rightarrow> 'e cdc_error + unit" where
  "check_auto_columns a t target [] = Inr ()"
| "check_auto_columns a t target (i # is) =
     (if i < 0 \<or> i \<ge> int (length (Columns t)) then Inl (Refused (BadAutoColumn (Name t)))
      else if list_ex (\<lambda>c. tc_name c = dm_name a (Columns t ! nat i) \<and> tc_identity c = ''YES'') (dt_columns target)
      then check_auto_columns a t target is
      else Inl (Refused (IdentityMissing (Name t) (Columns t ! nat i))))"

definition check_identity_column ::
  "('d, 'e) id_env \<Rightarrow> applier \<Rightarrow> TableInfo \<Rightarrow> dm_column \<Rightarrow> 'd \<Rightarrow> 'e cdc_error + unit" where
  "check_identity_column ie a t column d =
     bind_res (if id_has_source ie then driver_res (id_source_next ie (Name t)) else Inr None) (\<lambda>source_next.
       bind_res (driver_res (id_counters ie (dm_qualified a (Name t)) d)) (\<lambda>(seed, current, step).
         bind_res (driver_res (id_maximum ie (quoteIdent (tc_name column)) (dm_qualified a (Name t)) d)) (\<lambda>maximum.
           case validateDamengIdentityNext column seed current step maximum source_next of
             None \<Rightarrow> Inr ()
           | Some e \<Rightarrow> Inl (Refused (IdentityUnsafe (Name t) e)))))"

fun check_identity_columns ::
  "('d, 'e) id_env \<Rightarrow> applier \<Rightarrow> TableInfo \<Rightarrow> dm_column list \<Rightarrow> 'd \<Rightarrow> 'e cdc_error + unit" where
  "check_identity_columns ie a t [] d = Inr ()"
| "check_identity_columns ie a t (c # cs) d =
     (if tc_identity c \<noteq> ''YES'' then check_identity_columns ie a t cs d
      else bind_res (check_identity_column ie a t c d) (\<lambda>_. check_identity_columns ie a t cs d))"

fun check_identity_tables ::
  "('d, 'e) id_env \<Rightarrow> applier \<Rightarrow> dm_table list \<Rightarrow> TableInfo list \<Rightarrow> 'd \<Rightarrow> 'e cdc_error + unit" where
  "check_identity_tables ie a meta [] d = Inr ()"
| "check_identity_tables ie a meta (t # ts) d =
     (case find_dm_table (dm_name a (Name t)) meta of
        None \<Rightarrow> Inl (Refused (TargetTableMissing (Name t)))
      | Some target \<Rightarrow>
          bind_res (check_auto_columns a t target (AutoIncrement t)) (\<lambda>_.
            bind_res (check_identity_columns ie a t (dt_columns target) d) (\<lambda>_.
              check_identity_tables ie a meta ts d)))"

definition dm_SyncSequences ::
  "('o, 'd, 'e) dm_env \<Rightarrow> ('d, 'e) id_env \<Rightarrow> applier \<Rightarrow> TableInfo list \<Rightarrow> 'd \<Rightarrow> 'e cdc_error + unit" where
  "dm_SyncSequences env ie a tables d =
     bind_res (load_metadata env a d) (\<lambda>meta. check_identity_tables ie a meta tables d)"

section \<open>Properties\<close>

text \<open>
  The values a counter may give next. IDENT_CURRENT is the seed both before the first value is given and
  after the first value was given and its row is gone.
\<close>

definition possible_next :: "int \<Rightarrow> int \<Rightarrow> int \<Rightarrow> int option \<Rightarrow> int set" where
  "possible_next seed current step maximum =
     {current + step} \<union> (if ambiguous_counter seed current maximum then {seed} else {})"

lemma check_counter_None:
  assumes "check_counter dt seed current step maximum source_next = None" "0 < step"
    and "n \<in> possible_next seed current step maximum"
  shows "(\<forall>bound. type_maximum dt = Some bound \<longrightarrow> n \<le> bound) \<and> (\<forall>m. maximum = Some m \<longrightarrow> m < n) \<and>
    (\<forall>t. source_next = Some t \<longrightarrow> (\<exists>v. parse_big t = Some v \<and> v \<le> n))"
  using assms
  by (auto simp: check_counter_def possible_next_def Let_def ambiguous_counter_def
      split: option.splits if_splits)

text \<open>Every identity column of a selected table that the check has passed.\<close>

lemma check_identity_columns_ok:
  "check_identity_columns ie a t cs d = Inr () \<Longrightarrow> c \<in> set cs \<Longrightarrow> tc_identity c = ''YES'' \<Longrightarrow>
   check_identity_column ie a t c d = Inr ()"
  by (induction cs) (auto simp: bind_res_Inr_iff split: if_splits)

lemma check_identity_tables_ok:
  "check_identity_tables ie a meta ts d = Inr () \<Longrightarrow> t \<in> set ts \<Longrightarrow>
   \<exists>target. find_dm_table (dm_name a (Name t)) meta = Some target \<and>
     check_auto_columns a t target (AutoIncrement t) = (Inr () :: 'e cdc_error + unit) \<and>
     check_identity_columns ie a t (dt_columns target) d = (Inr () :: 'e cdc_error + unit)"
  for ie :: "('d, 'e) id_env"
  by (induction ts) (auto simp: bind_res_Inr_iff split: option.splits)

lemma check_auto_columns_ok:
  "check_auto_columns a t target is = (Inr () :: 'e cdc_error + unit) \<Longrightarrow> i \<in> set is \<Longrightarrow>
   0 \<le> i \<and> i < int (length (Columns t)) \<and>
   (\<exists>c\<in>set (dt_columns target). tc_name c = dm_name a (Columns t ! nat i) \<and> tc_identity c = ''YES'')"
  by (induction "is") (auto simp: list_ex_iff split: if_splits)

lemma validate_None:
  assumes "validateDamengIdentityNext c seed current step maximum source_next = None"
  obtains s u p m where "parse_big seed = Some s" "parse_big current = Some u" "parse_big step = Some p" "0 < p"
    "(maximum = None \<and> m = None) \<or> (\<exists>x v. maximum = Some x \<and> parse_big x = Some v \<and> m = Some v)"
    "check_counter (tc_data_type c) s u p m source_next = None"
  using assms unfolding validateDamengIdentityNext_def
  by (cases "parse_big seed"; cases "parse_big current"; cases "parse_big step"; cases maximum)
    (auto split: if_splits option.splits)

text \<open>C33: A cutover to DaMeng never leaves a counter that could collide. When the identity check accepts the
  selected tables, every table exists at the target; every auto-increment column the source names for it is one of
  its columns and is, under its name in the target, an identity column there; and whatever value the counter of a
  target identity column gives next, that value is at most the bound of the column's type (INT, INTEGER or BIGINT),
  is beyond the largest value in the table, and is not below the next value the source gives for it.\<close>

theorem dameng_counters_safe:
  fixes ie :: "('d, 'e) id_env"
  assumes "check_identity_tables ie a meta tables d = Inr ()" and "t \<in> set tables"
  shows "\<exists>target. find_dm_table (dm_name a (Name t)) meta = Some target \<and>
    (\<forall>i\<in>set (AutoIncrement t). 0 \<le> i \<and> i < int (length (Columns t)) \<and>
      (\<exists>c\<in>set (dt_columns target). tc_name c = dm_name a (Columns t ! nat i) \<and> tc_identity c = ''YES'')) \<and>
    (\<forall>c\<in>set (dt_columns target). tc_identity c = ''YES'' \<longrightarrow>
      (\<exists>seed current step s u p maximum.
         id_counters ie (dm_qualified a (Name t)) d = Inr (seed, current, step) \<and>
         parse_big seed = Some s \<and> parse_big current = Some u \<and> parse_big step = Some p \<and> 0 < p \<and>
         id_maximum ie (quoteIdent (tc_name c)) (dm_qualified a (Name t)) d = Inr maximum \<and>
         (\<forall>n\<in>possible_next s u p (case maximum of None \<Rightarrow> None | Some x \<Rightarrow> parse_big x).
            (\<forall>bound. type_maximum (tc_data_type c) = Some bound \<longrightarrow> n \<le> bound) \<and>
            (\<forall>x. maximum = Some x \<longrightarrow> (\<exists>v. parse_big x = Some v \<and> v < n)) \<and>
            (\<forall>x. id_has_source ie \<and> id_source_next ie (Name t) = Inr (Some x) \<longrightarrow>
               (\<exists>v. parse_big x = Some v \<and> v \<le> n)))))"
proof -
  from check_identity_tables_ok [OF assms] obtain target where target:
    "find_dm_table (dm_name a (Name t)) meta = Some target"
    "check_identity_columns ie a t (dt_columns target) d = (Inr () :: 'e cdc_error + unit)"
    "check_auto_columns a t target (AutoIncrement t) = (Inr () :: 'e cdc_error + unit)" by blast
  have "\<exists>seed current step s u p maximum.
         id_counters ie (dm_qualified a (Name t)) d = Inr (seed, current, step) \<and>
         parse_big seed = Some s \<and> parse_big current = Some u \<and> parse_big step = Some p \<and> 0 < p \<and>
         id_maximum ie (quoteIdent (tc_name c)) (dm_qualified a (Name t)) d = Inr maximum \<and>
         (\<forall>n\<in>possible_next s u p (case maximum of None \<Rightarrow> None | Some x \<Rightarrow> parse_big x).
            (\<forall>bound. type_maximum (tc_data_type c) = Some bound \<longrightarrow> n \<le> bound) \<and>
            (\<forall>x. maximum = Some x \<longrightarrow> (\<exists>v. parse_big x = Some v \<and> v < n)) \<and>
            (\<forall>x. id_has_source ie \<and> id_source_next ie (Name t) = Inr (Some x) \<longrightarrow>
               (\<exists>v. parse_big x = Some v \<and> v \<le> n)))"
    if c: "c \<in> set (dt_columns target)" "tc_identity c = ''YES''" for c
  proof -
    obtain src seed current step maximum where *:
      "(if id_has_source ie then driver_res (id_source_next ie (Name t)) else Inr None) = (Inr src :: 'e cdc_error + _)"
      "id_counters ie (dm_qualified a (Name t)) d = Inr (seed, current, step)"
      "id_maximum ie (quoteIdent (tc_name c)) (dm_qualified a (Name t)) d = Inr maximum"
      "validateDamengIdentityNext c seed current step maximum src = None"
      using check_identity_columns_ok [OF target(2) c]
      by (auto simp: check_identity_column_def bind_res_Inr_iff driver_res_def split: option.splits sum.splits)
    from *(4) obtain s u p m where v: "parse_big seed = Some s" "parse_big current = Some u" "parse_big step = Some p" "0 < p"
      "(maximum = None \<and> m = None) \<or> (\<exists>x v. maximum = Some x \<and> parse_big x = Some v \<and> m = Some v)"
      "check_counter (tc_data_type c) s u p m src = None" by (rule validate_None)
    have m: "(case maximum of None \<Rightarrow> None | Some x \<Rightarrow> parse_big x) = m" using v(5) by auto
    have src: "src = Some x" if "id_has_source ie" "id_source_next ie (Name t) = Inr (Some x)" for x
      using *(1) that by (simp add: driver_res_def)
    have "(\<forall>bound. type_maximum (tc_data_type c) = Some bound \<longrightarrow> n \<le> bound) \<and>
            (\<forall>x. maximum = Some x \<longrightarrow> (\<exists>v. parse_big x = Some v \<and> v < n)) \<and>
            (\<forall>x. id_has_source ie \<and> id_source_next ie (Name t) = Inr (Some x) \<longrightarrow>
               (\<exists>v. parse_big x = Some v \<and> v \<le> n))"
      if "n \<in> possible_next s u p m" for n
      using check_counter_None [OF v(6,4) that] v(5) src by fastforce
    then show ?thesis using *(2,3) v(1-4) m by blast
  qed
  then show ?thesis using target(1) check_auto_columns_ok [OF target(3)] by blast
qed

text \<open>
  A table whose counter has the seed 41 and the current value 41, whose largest value is 40 and whose source is at
  41: nobody can tell whether the counter gives 41 or 42 next, and both are safe.
\<close>

definition id_demo_env :: "(string list, unit) id_env" where
  "id_demo_env = \<lparr>id_has_source = True, id_source_next = (\<lambda>_. Inr (Some ''41'')),
     id_counters = (\<lambda>_ _. Inr (''41'', ''41'', ''1'')), id_maximum = (\<lambda>_ _ _. Inr (Some ''40''))\<rparr>"

definition id_demo_meta :: "dm_table list" where
  "id_demo_meta = [\<lparr>dt_name = ''T'', dt_columns = [\<lparr>tc_name = ''ID'', tc_nullable = ''NO'', tc_default = None,
     tc_identity = ''YES'', tc_data_type = ''INT''\<rparr>], dt_unique = []\<rparr>]"

theorem dameng_counters_safe_witness:
  "(\<exists>c\<in>set (dt_columns (hd id_demo_meta)). tc_name c = ''ID'' \<and> tc_identity c = ''YES'') \<and>
   possible_next 41 41 1 (Some 40) = {41, 42} \<and>
   list_all (\<lambda>n. n \<in> possible_next 41 41 1 (Some 40) \<and> n \<le> 2147483647 \<and> 40 < n \<and> 41 \<le> n) [41, 42]"
proof -
  let ?t = "demo_table\<lparr>AutoIncrement := [0]\<rparr>"
  have next_values: "possible_next 41 41 1 (Some 40) = {41, 42}"
    by (auto simp: possible_next_def ambiguous_counter_def)
  have numbers: "parse_big ''41'' = Some 41" "parse_big ''1'' = Some 1" "parse_big ''40'' = Some 40"
    by code_simp+
  have bound: "type_maximum ''INT'' = Some 2147483647"
    by code_simp
  have found: "find_dm_table (dm_name demo_applier (Name ?t)) id_demo_meta = Some (hd id_demo_meta)"
    "dm_name demo_applier (Columns ?t ! nat 0) = ''ID''"
    by code_simp+
  have "check_identity_tables id_demo_env demo_applier id_demo_meta [?t] [] = Inr ()"
    by code_simp
  from dameng_counters_safe [OF this, of ?t] found
  have safe: "(\<forall>i\<in>set (AutoIncrement ?t). \<exists>c\<in>set (dt_columns (hd id_demo_meta)).
      tc_name c = dm_name demo_applier (Columns ?t ! nat i) \<and> tc_identity c = ''YES'')"
    "\<forall>n\<in>possible_next 41 41 1 (Some 40). (\<forall>b. type_maximum ''INT'' = Some b \<longrightarrow> n \<le> b) \<and> 40 < n \<and> 41 \<le> n"
    using numbers by (auto simp: id_demo_env_def id_demo_meta_def)
  from safe(1) found(2) have "\<exists>c\<in>set (dt_columns (hd id_demo_meta)). tc_name c = ''ID'' \<and> tc_identity c = ''YES''"
    by simp
  moreover from safe(2) have "list_all (\<lambda>n. n \<in> possible_next 41 41 1 (Some 40) \<and> n \<le> 2147483647 \<and> 40 < n \<and> 41 \<le> n) [41, 42]"
    by (simp add: next_values bound)
  ultimately show ?thesis using next_values by blast
qed

end
