(* ===== verification/MergeHeap.thy ===== *)
theory MergeHeap
  imports GoPrelude "HOL-Library.Multiset"
begin

text \<open>
  The records of the external sort (\<^verbatim>\<open>validation/sort.go\<close>) with their order, and the heap its
  merge uses: Go's \<open>container/heap\<close> over \<open>mergeHeap\<close>, an array with the sift-up and sift-down
  loops of the standard library. The interface of a priority queue is a locale; the array is its instance.
  A \<open>[32]byte\<close> is a string of bytes.
\<close>

section \<open>Records\<close>

datatype rec = Rec (rec_key: string) (rec_row: string)

text \<open>\<open>bytes.Compare\<close>.\<close>

definition bytes_compare :: "string \<Rightarrow> string \<Rightarrow> int" where
  "bytes_compare a b = (if str_less a b then - 1 else if a = b then 0 else 1)"

definition compareRecord :: "rec \<Rightarrow> rec \<Rightarrow> int" where
  "compareRecord a b =
     (let c = bytes_compare (rec_key a) (rec_key b) in
      if c \<noteq> 0 then c else bytes_compare (rec_row a) (rec_row b))"

instantiation rec :: linorder
begin

definition less_eq_rec :: "rec \<Rightarrow> rec \<Rightarrow> bool" where
  "less_eq_rec a b = (compareRecord a b \<le> 0)"

definition less_rec :: "rec \<Rightarrow> rec \<Rightarrow> bool" where
  "less_rec a b = (compareRecord a b < 0)"

lemma compareRecord_less: "compareRecord a b < 0 \<longleftrightarrow>
    str_less (rec_key a) (rec_key b) \<or> (rec_key a = rec_key b \<and> str_less (rec_row a) (rec_row b))"
  by (auto simp: compareRecord_def bytes_compare_def Let_def)

lemma compareRecord_le: "compareRecord a b \<le> 0 \<longleftrightarrow> compareRecord a b < 0 \<or> a = b"
  by (cases a; cases b) (auto simp: compareRecord_def bytes_compare_def Let_def)

instance
proof
  fix x y z :: rec
  show "(x < y) = (x \<le> y \<and> \<not> y \<le> x)"
    unfolding less_eq_rec_def less_rec_def compareRecord_le compareRecord_less
    using str_less_asym by (cases x; cases y) (auto; blast)
  show "x \<le> x" by (simp add: less_eq_rec_def compareRecord_le)
  show "x \<le> y \<Longrightarrow> y \<le> z \<Longrightarrow> x \<le> z"
    unfolding less_eq_rec_def compareRecord_le compareRecord_less
    using str_less_trans by (cases x; cases y; cases z) (auto; blast)
  show "x \<le> y \<Longrightarrow> y \<le> x \<Longrightarrow> x = y"
    unfolding less_eq_rec_def compareRecord_le compareRecord_less
    using str_less_asym by (cases x; cases y) (auto; blast)
  show "x \<le> y \<or> y \<le> x"
    unfolding less_eq_rec_def compareRecord_le compareRecord_less
    using str_less_total by (cases x; cases y) (auto; blast)
qed

end

section \<open>The interface of a priority queue\<close>

locale min_queue =
  fixes push :: "'a \<Rightarrow> 'q \<Rightarrow> 'q"
    and pop :: "'q \<Rightarrow> 'a \<times> 'q"
    and items :: "'q \<Rightarrow> 'a multiset"
    and ok :: "'q \<Rightarrow> bool"
    and val :: "'a \<Rightarrow> 'b :: linorder"
  assumes push_ok: "ok q \<Longrightarrow> ok (push x q)"
    and push_items: "ok q \<Longrightarrow> items (push x q) = add_mset x (items q)"
    and pop_ok: "ok q \<Longrightarrow> items q \<noteq> {#} \<Longrightarrow> pop q = (x, q') \<Longrightarrow> ok q'"
    and pop_items: "ok q \<Longrightarrow> items q \<noteq> {#} \<Longrightarrow> pop q = (x, q') \<Longrightarrow> items q = add_mset x (items q')"
    and pop_min: "ok q \<Longrightarrow> items q \<noteq> {#} \<Longrightarrow> pop q = (x, q') \<Longrightarrow> y \<in># items q \<Longrightarrow> val x \<le> val y"

section \<open>Go's heap\<close>

record merge_item =
  mi_value :: rec
  mi_reader :: nat

text \<open>\<open>mergeHeap.Less\<close> and \<open>mergeHeap.Swap\<close>.\<close>

definition heap_Less :: "merge_item list \<Rightarrow> nat \<Rightarrow> nat \<Rightarrow> bool" where
  "heap_Less h i j \<longleftrightarrow> compareRecord (mi_value (h ! i)) (mi_value (h ! j)) < 0"

definition heap_Swap :: "merge_item list \<Rightarrow> nat \<Rightarrow> nat \<Rightarrow> merge_item list" where
  "heap_Swap h i j = h[i := h ! j, j := h ! i]"

text \<open>\<open>heap.up\<close>; Go's \<open>(j - 1) / 2\<close> is 0 for \<open>j = 0\<close>.\<close>

function heap_up :: "merge_item list \<Rightarrow> nat \<Rightarrow> merge_item list" where
  "heap_up h j =
     (let i = (j - 1) div 2 in
      if i = j \<or> \<not> heap_Less h j i then h else heap_up (heap_Swap h i j) i)"
  by pat_completeness auto
termination by (relation "measure snd") auto

declare heap_up.simps [simp del]

text \<open>\<open>heap.down(h, i, n)\<close>.\<close>

function heap_down :: "merge_item list \<Rightarrow> nat \<Rightarrow> nat \<Rightarrow> merge_item list" where
  "heap_down h i n =
     (let j1 = 2 * i + 1 in
      if j1 \<ge> n then h
      else
        let j = (if j1 + 1 < n \<and> heap_Less h (j1 + 1) j1 then j1 + 1 else j1) in
        if \<not> heap_Less h j i then h else heap_down (heap_Swap h i j) j n)"
  by pat_completeness auto
termination by (relation "measure (\<lambda>(h, i, n). n - i)") (auto simp: Let_def)

declare heap_down.simps [simp del]

definition heap_Push :: "merge_item \<Rightarrow> merge_item list \<Rightarrow> merge_item list" where
  "heap_Push x h = heap_up (h @ [x]) (length h)"

definition heap_Pop :: "merge_item list \<Rightarrow> merge_item \<times> merge_item list" where
  "heap_Pop h =
     (let n = length h - 1;
          h1 = heap_down (heap_Swap h 0 n) 0 n
      in (h1 ! n, take n h1))"

section \<open>Correctness of the heap\<close>

abbreviation hv :: "merge_item list \<Rightarrow> nat \<Rightarrow> rec" where
  "hv h i \<equiv> mi_value (h ! i)"

definition parent :: "nat \<Rightarrow> nat" where
  "parent i = (i - 1) div 2"

lemma parent_less: "0 < i \<Longrightarrow> parent i < i"
  by (simp add: parent_def)

lemma parent_children: "0 < k \<Longrightarrow> parent k = i \<longleftrightarrow> k = 2 * i + 1 \<or> k = 2 * i + 2"
  by (auto simp: parent_def)

definition heap_ok :: "merge_item list \<Rightarrow> nat \<Rightarrow> bool" where
  "heap_ok h n \<longleftrightarrow> (\<forall>k<n. 0 < k \<longrightarrow> hv h (parent k) \<le> hv h k)"

definition up_ok :: "merge_item list \<Rightarrow> nat \<Rightarrow> bool" where
  "up_ok h j \<longleftrightarrow> (\<forall>k<length h. 0 < k \<and> k \<noteq> j \<longrightarrow> hv h (parent k) \<le> hv h k) \<and>
     (\<forall>k<length h. 0 < k \<and> 0 < j \<and> parent k = j \<longrightarrow> hv h (parent j) \<le> hv h k)"

definition down_ok :: "merge_item list \<Rightarrow> nat \<Rightarrow> nat \<Rightarrow> bool" where
  "down_ok h i n \<longleftrightarrow> (\<forall>k<n. 0 < k \<and> parent k \<noteq> i \<longrightarrow> hv h (parent k) \<le> hv h k) \<and>
     (\<forall>k<n. 0 < k \<and> 0 < i \<and> parent k = i \<longrightarrow> hv h (parent i) \<le> hv h k)"

lemma heap_Less_iff: "heap_Less h i j \<longleftrightarrow> hv h i < hv h j"
  by (simp add: heap_Less_def less_rec_def)

lemma length_heap_Swap [simp]: "length (heap_Swap h i j) = length h"
  by (simp add: heap_Swap_def)

lemma heap_Swap_nth:
  assumes "i < length h" "j < length h"
  shows "heap_Swap h i j ! k = (if k = j then h ! i else if k = i then h ! j else h ! k)"
  using assms by (auto simp: heap_Swap_def nth_list_update)

lemma mset_heap_Swap: "i < length h \<Longrightarrow> j < length h \<Longrightarrow> mset (heap_Swap h i j) = mset h"
  by (simp add: heap_Swap_def mset_swap)

lemma length_heap_up [simp]: "length (heap_up h j) = length h"
proof (induction h j rule: heap_up.induct)
  case (1 h j)
  then show ?case by (subst heap_up.simps) (simp add: Let_def)
qed

lemma length_heap_down [simp]: "length (heap_down h i n) = length h"
proof (induction h i n rule: heap_down.induct)
  case (1 h i n)
  then show ?case by (subst heap_down.simps) (simp add: Let_def)
qed

lemma mset_heap_up: "j < length h \<Longrightarrow> mset (heap_up h j) = mset h"
proof (induction h j rule: heap_up.induct)
  case (1 h j)
  let ?i = "(j - 1) div 2"
  show ?case
  proof (cases "?i = j \<or> \<not> heap_Less h j ?i")
    case True
    then show ?thesis by (subst heap_up.simps) (simp add: Let_def)
  next
    case False
    moreover have "?i < length h" using 1(2) by simp
    ultimately show ?thesis
      using 1 by (subst heap_up.simps) (simp add: Let_def mset_heap_Swap)
  qed
qed

lemma up_ok_Swap:
  assumes ok: "up_ok h j" and j: "0 < j" "j < length h" and less: "hv h j < hv h (parent j)"
  shows "up_ok (heap_Swap h (parent j) j) (parent j)"
proof -
  let ?i = "parent j" and ?h = "heap_Swap h (parent j) j"
  have i: "?i < j" using j(1) by (rule parent_less)
  then have nth: "\<And>k. ?h ! k = (if k = j then h ! ?i else if k = ?i then h ! j else h ! k)"
    using j by (simp add: heap_Swap_nth)
  have edge: "\<And>k. k < length h \<Longrightarrow> 0 < k \<Longrightarrow> k \<noteq> j \<Longrightarrow> hv h (parent k) \<le> hv h k"
    and below: "\<And>k. k < length h \<Longrightarrow> 0 < k \<Longrightarrow> parent k = j \<Longrightarrow> hv h ?i \<le> hv h k"
    using ok j(1) by (auto simp: up_ok_def)
  have "hv ?h (parent k) \<le> hv ?h k" if k: "k < length h" "0 < k" "k \<noteq> ?i" for k
  proof -
    have "parent k \<noteq> k" using parent_less [OF k(2)] by simp
    then consider "k = j" | "k \<noteq> j" "parent k = ?i" | "k \<noteq> j" "parent k = j" | "k \<noteq> j" "parent k \<noteq> ?i" "parent k \<noteq> j"
      by blast
    then show ?thesis
      using edge [OF k(1,2)] below [OF k(1,2)] less i k(3)
      by cases (auto simp: nth)
  qed
  moreover have "hv ?h (parent ?i) \<le> hv ?h k" if k: "k < length h" "0 < k" "0 < ?i" "parent k = ?i" for k
  proof -
    have p: "parent ?i < ?i" using k(3) by (rule parent_less)
    have "hv h (parent ?i) \<le> hv h ?i" using edge [of ?i] i j k(3) by simp
    moreover have "k \<noteq> j \<Longrightarrow> hv h ?i \<le> hv h k" using edge [of k] k by simp
    moreover have "k \<noteq> ?i" using parent_less [OF k(2)] k(4) by simp
    ultimately show ?thesis using p i by (auto simp: nth)
  qed
  ultimately show ?thesis by (simp add: up_ok_def)
qed

lemma heap_up_ok: "up_ok h j \<Longrightarrow> j < length h \<Longrightarrow> heap_ok (heap_up h j) (length h)"
proof (induction h j rule: heap_up.induct)
  case (1 h j)
  let ?i = "(j - 1) div 2"
  show ?case
  proof (cases "?i = j \<or> \<not> heap_Less h j ?i")
    case True
    have "heap_ok h (length h)"
      unfolding heap_ok_def
    proof (intro allI impI)
      fix k assume k: "k < length h" "0 < k"
      show "hv h (parent k) \<le> hv h k"
      proof (cases "k = j")
        case True
        then have "?i \<noteq> j" using k by simp
        with \<open>?i = j \<or> \<not> heap_Less h j ?i\<close> True show ?thesis by (simp add: heap_Less_iff parent_def)
      next
        case False
        then show ?thesis using 1(2) k by (simp add: up_ok_def)
      qed
    qed
    then show ?thesis using True by (subst heap_up.simps) (simp add: Let_def)
  next
    case False
    then have j: "0 < j" and less: "hv h j < hv h (parent j)"
      by (auto simp: heap_Less_iff parent_def)
    have sw: "heap_Swap h ?i j = heap_Swap h (parent j) j" by (simp add: parent_def)
    have "up_ok (heap_Swap h ?i j) ?i"
      using up_ok_Swap [OF 1(2) j 1(3) less] by (simp add: parent_def)
    then have "heap_ok (heap_up (heap_Swap h ?i j) ?i) (length (heap_Swap h ?i j))"
      using 1(1) [OF refl] False 1(3) by simp
    then show ?thesis using False by (subst heap_up.simps) (simp add: Let_def)
  qed
qed

lemma mset_heap_down: "i < n \<Longrightarrow> n \<le> length h \<Longrightarrow> mset (take n (heap_down h i n)) = mset (take n h) \<and>
    drop n (heap_down h i n) = drop n h"
proof (induction h i n rule: heap_down.induct)
  case (1 h i n)
  define j where "j = (if 2 * i + 1 + 1 < n \<and> heap_Less h (2 * i + 1 + 1) (2 * i + 1) then 2 * i + 1 + 1 else 2 * i + 1)"
  show ?case
  proof (cases "2 * i + 1 \<ge> n \<or> \<not> heap_Less h j i")
    case True
    then have "heap_down h i n = h" by (subst heap_down.simps) (auto simp: Let_def j_def)
    then show ?thesis by simp
  next
    case False
    then have jn: "j < n" by (auto simp: j_def)
    have eq: "heap_down h i n = heap_down (heap_Swap h i j) j n"
      using False by (subst heap_down.simps) (auto simp: Let_def j_def)
    have IH: "mset (take n (heap_down (heap_Swap h i j) j n)) = mset (take n (heap_Swap h i j)) \<and>
      drop n (heap_down (heap_Swap h i j) j n) = drop n (heap_Swap h i j)"
      using 1(1) [OF refl _ j_def] False jn 1(3) by simp
    have "take n (heap_Swap h i j) = heap_Swap (take n h) i j"
      using 1(2) jn by (simp add: heap_Swap_def take_update_swap nth_take)
    then have "mset (take n (heap_Swap h i j)) = mset (take n h)"
      using 1(2,3) jn by (simp add: mset_heap_Swap)
    moreover have "drop n (heap_Swap h i j) = drop n h"
      using 1(2) jn by (simp add: heap_Swap_def)
    ultimately show ?thesis using IH eq by simp
  qed
qed

lemma down_ok_Swap:
  assumes ok: "down_ok h i n" and n: "n \<le> length h" and j: "j < n" "parent j = i" "0 < j"
    and less: "hv h j < hv h i"
    and least: "\<And>k. k < n \<Longrightarrow> 0 < k \<Longrightarrow> parent k = i \<Longrightarrow> hv h j \<le> hv h k"
  shows "down_ok (heap_Swap h i j) j n"
proof -
  let ?h = "heap_Swap h i j"
  have i: "i < j" using parent_less [OF j(3)] j(2) by simp
  then have nth: "\<And>k. ?h ! k = (if k = j then h ! i else if k = i then h ! j else h ! k)"
    using j n by (simp add: heap_Swap_nth)
  have edge: "\<And>k. k < n \<Longrightarrow> 0 < k \<Longrightarrow> parent k \<noteq> i \<Longrightarrow> hv h (parent k) \<le> hv h k"
    and below: "\<And>k. k < n \<Longrightarrow> 0 < k \<Longrightarrow> 0 < i \<Longrightarrow> parent k = i \<Longrightarrow> hv h (parent i) \<le> hv h k"
    using ok by (auto simp: down_ok_def)
  have "hv ?h (parent k) \<le> hv ?h k" if k: "k < n" "0 < k" "parent k \<noteq> j" for k
  proof -
    have pk: "parent k \<noteq> k" using parent_less [OF k(2)] by simp
    consider "k = j" | "k = i" | "k \<noteq> j" "k \<noteq> i" "parent k = i" | "k \<noteq> j" "k \<noteq> i" "parent k \<noteq> i" by blast
    then show ?thesis
    proof cases
      case 1
      then show ?thesis using less j(2) i by (simp add: nth)
    next
      case 2
      then have "hv h (parent i) \<le> hv h j" using below [OF j(1,3)] j(2) k(2) by simp
      then show ?thesis using 2 pk k(3) i by (simp add: nth)
    next
      case 3
      then show ?thesis using least [OF k(1,2)] i by (simp add: nth)
    next
      case 4
      then show ?thesis using edge [OF k(1,2)] k(3) by (simp add: nth)
    qed
  qed
  moreover have "hv ?h (parent j) \<le> hv ?h k" if k: "k < n" "0 < k" "parent k = j" for k
  proof -
    have "k \<noteq> j" "k \<noteq> i" using parent_less [OF k(2)] k(3) i by auto
    then show ?thesis using edge [OF k(1,2)] k(3) i j(2) by (simp add: nth)
  qed
  ultimately show ?thesis by (simp add: down_ok_def)
qed

lemma heap_down_ok: "down_ok h i n \<Longrightarrow> n \<le> length h \<Longrightarrow> heap_ok (heap_down h i n) n"
proof (induction h i n rule: heap_down.induct)
  case (1 h i n)
  define j where "j = (if 2 * i + 1 + 1 < n \<and> heap_Less h (2 * i + 1 + 1) (2 * i + 1) then 2 * i + 1 + 1 else 2 * i + 1)"
  have child: "parent k = i \<longleftrightarrow> k = 2 * i + 1 \<or> k = 2 * i + 1 + 1" if "0 < k" for k
    using parent_children [OF that] by auto
  show ?case
  proof (cases "2 * i + 1 \<ge> n \<or> \<not> heap_Less h j i")
    case True
    then have eq: "heap_down h i n = h" by (subst heap_down.simps) (auto simp: Let_def j_def)
    have "heap_ok h n"
      unfolding heap_ok_def
    proof (intro allI impI)
      fix k assume k: "k < n" "0 < k"
      show "hv h (parent k) \<le> hv h k"
      proof (cases "parent k = i")
        case True
        then have "k = 2 * i + 1 \<or> k = 2 * i + 1 + 1" using child k by simp
        moreover have "\<not> heap_Less h j i"
          using \<open>2 * i + 1 \<ge> n \<or> \<not> heap_Less h j i\<close> calculation k by linarith
        ultimately show ?thesis using True k by (auto simp: j_def heap_Less_iff split: if_splits)
      next
        case False
        then show ?thesis using 1(2) k by (simp add: down_ok_def)
      qed
    qed
    then show ?thesis using eq by simp
  next
    case False
    then have jn: "j < n" "0 < j" "parent j = i" using child by (auto simp: j_def)
    have eq: "heap_down h i n = heap_down (heap_Swap h i j) j n"
      using False by (subst heap_down.simps) (auto simp: Let_def j_def)
    have "down_ok (heap_Swap h i j) j n"
    proof (rule down_ok_Swap [OF 1(2,3) jn(1,3,2)])
      show "hv h j < hv h i" using False by (simp add: heap_Less_iff)
      fix k assume "k < n" "0 < k" "parent k = i"
      then show "hv h j \<le> hv h k" using child by (auto simp: j_def heap_Less_iff)
    qed
    then show ?thesis using 1(1) [OF refl _ j_def] False 1(3) eq by simp
  qed
qed

lemma heap_ok_root: "heap_ok h n \<Longrightarrow> k < n \<Longrightarrow> hv h 0 \<le> hv h k"
proof (induction k rule: less_induct)
  case (less k)
  show ?case
  proof (cases "k = 0")
    case False
    then have "hv h 0 \<le> hv h (parent k)" using less parent_less [of k] by simp
    also have "\<dots> \<le> hv h k" using less(2,3) False by (simp add: heap_ok_def)
    finally show ?thesis .
  qed simp
qed

definition is_heap :: "merge_item list \<Rightarrow> bool" where
  "is_heap h \<longleftrightarrow> heap_ok h (length h)"

lemma heap_Push_ok:
  assumes "is_heap h"
  shows "is_heap (heap_Push x h)" "mset (heap_Push x h) = add_mset x (mset h)"
proof -
  have "up_ok (h @ [x]) (length h)"
  proof -
    have "hv (h @ [x]) (parent k) \<le> hv (h @ [x]) k" if "k < length h" "0 < k" for k
      using assms that parent_less [OF that(2)] by (simp add: is_heap_def heap_ok_def nth_append)
    moreover have "parent k \<noteq> length h" if "k < Suc (length h)" "0 < k" for k
      using parent_less [OF that(2)] that(1) by linarith
    ultimately show ?thesis by (auto simp: up_ok_def less_Suc_eq)
  qed
  then show "is_heap (heap_Push x h)"
    using heap_up_ok [of "h @ [x]" "length h"] by (simp add: is_heap_def heap_Push_def)
  show "mset (heap_Push x h) = add_mset x (mset h)" by (simp add: heap_Push_def mset_heap_up)
qed

lemma heap_Pop_ok:
  assumes "is_heap h" "h \<noteq> []" "heap_Pop h = (x, h')"
  shows "is_heap h'" "mset h = add_mset x (mset h')" "\<And>y. y \<in> set h \<Longrightarrow> mi_value x \<le> mi_value y"
proof -
  define n where "n = length h - 1"
  have n: "n < length h" "length h = Suc n" using assms(2) by (auto simp: n_def)
  let ?s = "heap_Swap h 0 n" and ?d = "heap_down (heap_Swap h 0 n) 0 n"
  have x: "x = ?d ! n" and h': "h' = take n ?d"
    using assms(3) by (auto simp: heap_Pop_def Let_def n_def)
  have down: "down_ok ?s 0 n"
    unfolding down_ok_def
  proof (intro conjI allI impI; elim conjE)
    fix k assume k: "k < n" "0 < k" "parent k \<noteq> 0"
    then have "parent k < n" using parent_less [of k] by simp
    then show "hv ?s (parent k) \<le> hv ?s k"
      using k n assms(1) by (simp add: heap_Swap_nth is_heap_def heap_ok_def)
  qed simp
  have ok: "heap_ok ?d n" using heap_down_ok [OF down] n by simp
  show "is_heap h'"
    unfolding is_heap_def heap_ok_def
  proof (intro allI impI)
    fix k assume k: "k < length h'" "0 < k"
    then have "k < n" by (simp add: h')
    then have "parent k < n" using parent_less [OF k(2)] by simp
    then show "hv h' (parent k) \<le> hv h' k" using ok k \<open>k < n\<close> by (simp add: h' heap_ok_def)
  qed
  have last: "drop n ?d = drop n ?s \<and> mset (take n ?d) = mset (take n ?s)"
  proof (cases "n = 0")
    case True
    then have "?d = ?s" by (subst heap_down.simps) simp
    then show ?thesis by simp
  next
    case False
    then show ?thesis using mset_heap_down [of 0 n ?s] n by simp
  qed
  have "?d ! n = hd (drop n ?d)" using n by (simp add: hd_drop_conv_nth)
  also have "\<dots> = hd (drop n ?s)" using last by simp
  also have "\<dots> = ?s ! n" using n by (simp add: hd_drop_conv_nth)
  also have "\<dots> = h ! 0" using n by (simp add: heap_Swap_nth)
  finally have x0: "x = h ! 0" using x by simp
  have d: "drop n ?d = [x]"
    using n x by (simp add: Cons_nth_drop_Suc [symmetric])
  have "mset h = mset ?d"
  proof -
    have "mset ?d = mset (take n ?d) + mset (drop n ?d)" by (metis append_take_drop_id mset_append)
    also have "\<dots> = mset (take n ?s) + mset (drop n ?s)" using last by simp
    also have "\<dots> = mset ?s" by (metis append_take_drop_id mset_append)
    also have "\<dots> = mset h" using n by (simp add: mset_heap_Swap)
    finally show ?thesis by simp
  qed
  also have "\<dots> = mset (take n ?d) + mset (drop n ?d)" by (metis append_take_drop_id mset_append)
  finally show "mset h = add_mset x (mset h')" by (simp add: h' d)
  show "mi_value x \<le> mi_value y" if "y \<in> set h" for y
    using that heap_ok_root [of h "length h"] assms(1) by (auto simp: x0 is_heap_def in_set_conv_nth)
qed

interpretation heap: min_queue heap_Push heap_Pop mset is_heap mi_value
proof
  fix q x q' y
  assume "is_heap q" "mset q \<noteq> {#}" "heap_Pop q = (x, q')" "y \<in># mset q"
  then show "mi_value x \<le> mi_value y" by (intro heap_Pop_ok(3) [of q x q']) simp_all
qed (use heap_Push_ok heap_Pop_ok(1,2) in auto)

end
