(* ===== verification/ExternalSort.thy ===== *)
theory ExternalSort
  imports MergeHeap
begin

text \<open>
  The external merge sort (\<^verbatim>\<open>validation/sort.go\<close>): records are buffered, sorted runs are
  written to files, and the runs are merged, a bounded number at a time, until one is left. A file is
  represented by the records it holds; reading a file back is a property below. A cancelled context or an I/O error
  ends the Go functions with that error; the model is the execution without one.
\<close>

section \<open>Files of records\<close>

definition recordBytes :: nat where "recordBytes = 64"

text \<open>\<open>writeRecord\<close> and \<open>readRecord\<close>: \<open>None\<close> is the end of the file (or a truncated record).\<close>

definition writeRecord :: "rec \<Rightarrow> string" where
  "writeRecord r = rec_key r @ rec_row r"

definition readRecord :: "string \<Rightarrow> (rec \<times> string) option" where
  "readRecord bytes =
     (if length bytes < recordBytes then None
      else Some (Rec (take 32 bytes) (take 32 (drop 32 bytes)), drop recordBytes bytes))"

function read_all :: "string \<Rightarrow> rec list" where
  "read_all bytes = (case readRecord bytes of None \<Rightarrow> [] | Some (r, rest) \<Rightarrow> r # read_all rest)"
  by pat_completeness auto
termination by (relation "measure length") (auto simp: readRecord_def recordBytes_def split: if_splits)

declare read_all.simps [simp del]

definition rec_wf :: "rec \<Rightarrow> bool" where
  "rec_wf r \<longleftrightarrow> length (rec_key r) = 32 \<and> length (rec_row r) = 32"

section \<open>Merging runs\<close>

text \<open>Opening the runs: the first record of each goes to the heap, the rest stays in its reader.\<close>

fun open_runs :: "rec list list \<Rightarrow> nat \<Rightarrow> merge_item list \<Rightarrow> merge_item list \<times> rec list list" where
  "open_runs [] i h = (h, [])"
| "open_runs ([] # rs) i h = (let (h', rest) = open_runs rs (Suc i) h in (h', [] # rest))"
| "open_runs ((v # vs) # rs) i h =
     (let (h', rest) = open_runs rs (Suc i) (heap_Push \<lparr>mi_value = v, mi_reader = i\<rparr> h) in (h', vs # rest))"

text \<open>What is left in a reader; an index out of range does not occur (the heap holds only readers' numbers).\<close>

definition reader :: "rec list list \<Rightarrow> nat \<Rightarrow> rec list" where
  "reader rs i = (if i < length rs then rs ! i else [])"

lemma length_heap_Pop: "h \<noteq> [] \<Longrightarrow> heap_Pop h = (x, h') \<Longrightarrow> Suc (length h') = length h"
  by (auto simp: heap_Pop_def Let_def)

lemma length_heap_Push [simp]: "length (heap_Push x h) = Suc (length h)"
  by (simp add: heap_Push_def)

lemma sum_update:
  "i < length rs \<Longrightarrow> rs ! i = v # vs \<Longrightarrow> Suc (sum_list (map length (rs[i := vs]))) = sum_list (map length rs)"
proof (induction rs arbitrary: i)
  case (Cons r rs)
  then show ?case by (cases i) auto
qed simp

function merge_loop :: "merge_item list \<Rightarrow> rec list list \<Rightarrow> rec list" where
  "merge_loop h rs =
     (if h = [] then []
      else
        let (item, h1) = heap_Pop h in
        mi_value item #
          (case reader rs (mi_reader item) of
             [] \<Rightarrow> merge_loop h1 rs
           | v # vs \<Rightarrow> merge_loop (heap_Push \<lparr>mi_value = v, mi_reader = mi_reader item\<rparr> h1)
                         (rs[mi_reader item := vs])))"
  by pat_completeness auto
termination
proof (relation "measure (\<lambda>(h, rs). length h + sum_list (map length rs))", goal_cases)
  case 1
  show ?case by simp
next
  case (2 h rs x item h1)
  then show ?case using length_heap_Pop [of h item h1] by simp
next
  case (3 h rs x item h1 v vs)
  then have "mi_reader item < length rs" "rs ! mi_reader item = v # vs"
    by (auto simp: reader_def split: if_splits)
  then show ?case using 3 length_heap_Pop [of h item h1] sum_update [of "mi_reader item" rs v vs] by simp
qed

declare merge_loop.simps [simp del]

definition mergeRuns :: "rec list list \<Rightarrow> rec list" where
  "mergeRuns runs = (let (h, rest) = open_runs runs 0 [] in merge_loop h rest)"

section \<open>The sorter\<close>

record sorter =
  s_buffer :: "rec list"
  s_runs :: "rec list list"
  s_capacity :: nat
  s_fanIn :: nat

definition newSorter :: "int \<Rightarrow> int \<Rightarrow> sorter" where
  "newSorter capacity fanIn = \<lparr>s_buffer = [], s_runs = [],
     s_capacity = (if capacity < 1 then 1 else nat capacity),
     s_fanIn = (if fanIn < 2 then 2 else nat fanIn)\<rparr>"

definition sorter_flush :: "sorter \<Rightarrow> sorter" where
  "sorter_flush s =
     (if s_buffer s = [] then s else s\<lparr>s_runs := s_runs s @ [sort (s_buffer s)], s_buffer := []\<rparr>)"

definition sorter_add :: "sorter \<Rightarrow> rec \<Rightarrow> sorter" where
  "sorter_add s r =
     (let s1 = s\<lparr>s_buffer := s_buffer s @ [r]\<rparr> in
      if length (s_buffer s1) = s_capacity s1 then sorter_flush s1 else s1)"

text \<open>One pass over the runs, \<open>fanIn\<close> at a time; a group of one is kept as it is.\<close>

function merge_pass :: "nat \<Rightarrow> rec list list \<Rightarrow> rec list list" where
  "merge_pass fanIn runs =
     (if runs = [] \<or> fanIn = 0 then []
      else
        let group = take fanIn runs in
        (if length group = 1 then hd group else mergeRuns group) # merge_pass fanIn (drop fanIn runs))"
  by pat_completeness auto
termination by (relation "measure (\<lambda>(f, runs). length runs)") auto

declare merge_pass.simps [simp del]

text \<open>The passes until one run is left. With a fan-in of one the loop would never end: \<open>None\<close>.\<close>

partial_function (option) merge_all :: "nat \<Rightarrow> rec list list \<Rightarrow> rec list list option" where
  "merge_all fanIn runs =
     (if 1 < length runs then merge_all fanIn (merge_pass fanIn runs) else Some runs)"

declare merge_all.simps [code]

definition sorter_finish :: "sorter \<Rightarrow> (rec list \<times> sorter) option" where
  "sorter_finish s =
     (let s1 = sorter_flush s;
          runs = (if s_runs s1 = [] then [[]] else s_runs s1)
      in case merge_all (s_fanIn s1) runs of
           None \<Rightarrow> None
         | Some out \<Rightarrow> Some (hd out, s1\<lparr>s_runs := [], s_buffer := []\<rparr>))"

text \<open>Adding the records of a scan one by one, then finishing.\<close>

definition sort_scan :: "sorter \<Rightarrow> rec list \<Rightarrow> (rec list \<times> sorter) option" where
  "sort_scan s rs = sorter_finish (foldl sorter_add s rs)"

section \<open>Correctness of a merge\<close>

definition runs_mset :: "rec list list \<Rightarrow> rec multiset" where
  "runs_mset rs = sum_list (map mset rs)"

lemma runs_mset_simps [simp]:
  "runs_mset [] = {#}" "runs_mset (r # rs) = mset r + runs_mset rs"
  "runs_mset (rs @ ss) = runs_mset rs + runs_mset ss"
  by (simp_all add: runs_mset_def)

lemma runs_mset_update:
  "i < length rs \<Longrightarrow> rs ! i = v # vs \<Longrightarrow> runs_mset rs = add_mset v (runs_mset (rs[i := vs]))"
proof (induction rs arbitrary: i)
  case (Cons r rs)
  then show ?case by (cases i) auto
qed simp

lemma in_runs_mset_set: "y \<in># runs_mset rs \<longleftrightarrow> (\<exists>r\<in>set rs. y \<in> set r)"
  by (induction rs) auto

lemma in_runs_mset: "y \<in># runs_mset rs \<longleftrightarrow> (\<exists>i<length rs. y \<in> set (rs ! i))"
  unfolding in_runs_mset_set by (metis in_set_conv_nth)

text \<open>The heap holds, for every reader with records left, an item of that reader not greater than them.\<close>

definition merge_inv :: "merge_item list \<Rightarrow> rec list list \<Rightarrow> bool" where
  "merge_inv h rs \<longleftrightarrow> is_heap h \<and> (\<forall>r\<in>set rs. sorted r) \<and>
     (\<forall>i<length rs. rs ! i \<noteq> [] \<longrightarrow> (\<exists>it\<in>set h. mi_reader it = i \<and> mi_value it \<le> hd (rs ! i)))"

lemma sorted_hd_le: "sorted xs \<Longrightarrow> y \<in> set xs \<Longrightarrow> hd xs \<le> y"
  by (cases xs) auto

lemma merge_min:
  assumes inv: "merge_inv h rs" and pop: "heap_Pop h = (x, h')" "h \<noteq> []"
    and y: "y \<in># image_mset mi_value (mset h) + runs_mset rs"
  shows "mi_value x \<le> y"
proof -
  have heap: "mi_value x \<le> mi_value it" if "it \<in> set h" for it
    using heap.pop_min [of h x h' it] inv pop that by (simp add: merge_inv_def)
  show ?thesis
  proof (cases "y \<in># runs_mset rs")
    case True
    then obtain i where i: "i < length rs" "y \<in> set (rs ! i)" by (auto simp: in_runs_mset)
    then have "rs ! i \<noteq> []" by auto
    then obtain it where it: "it \<in> set h" "mi_value it \<le> hd (rs ! i)"
      using inv i(1) by (auto simp: merge_inv_def)
    moreover have "hd (rs ! i) \<le> y" using inv i by (auto simp: merge_inv_def intro: sorted_hd_le)
    ultimately show ?thesis using heap [OF it(1)] by order
  next
    case False
    then show ?thesis using y heap by auto
  qed
qed

lemma merge_step_inv:
  assumes inv: "merge_inv h rs" and pop: "heap_Pop h = (x, h')" "h \<noteq> []"
  shows "reader rs (mi_reader x) = [] \<Longrightarrow> merge_inv h' rs"
    and "reader rs (mi_reader x) = v # vs \<Longrightarrow>
      merge_inv (heap_Push \<lparr>mi_value = v, mi_reader = mi_reader x\<rparr> h') (rs[mi_reader x := vs])"
proof -
  have h': "is_heap h'" "mset h = add_mset x (mset h')"
    using heap.pop_ok [of h x h'] heap.pop_items [of h x h'] inv pop by (simp_all add: merge_inv_def)
  have set_h: "set h = insert x (set h')" using h'(2) by (metis set_mset_add_mset_insert set_mset_mset)
  show "merge_inv h' rs" if empty: "reader rs (mi_reader x) = []"
    unfolding merge_inv_def
  proof (intro conjI allI impI)
    show "is_heap h'" by (rule h'(1))
    show "\<forall>r\<in>set rs. sorted r" using inv by (simp add: merge_inv_def)
    fix i assume i: "i < length rs" "rs ! i \<noteq> []"
    then obtain it where it: "it \<in> set h" "mi_reader it = i" "mi_value it \<le> hd (rs ! i)"
      using inv by (auto simp: merge_inv_def)
    then have "it \<noteq> x" using empty i by (auto simp: reader_def)
    then show "\<exists>it\<in>set h'. mi_reader it = i \<and> mi_value it \<le> hd (rs ! i)" using it set_h by auto
  qed
  let ?r = "mi_reader x"
  let ?new = "\<lparr>mi_value = v, mi_reader = ?r\<rparr>"
  show "merge_inv (heap_Push ?new h') (rs[?r := vs])" if rest: "reader rs ?r = v # vs"
    unfolding merge_inv_def
  proof (intro conjI allI impI ballI)
    have r: "?r < length rs" "rs ! ?r = v # vs" using rest by (auto simp: reader_def split: if_splits)
    then have sorted_r: "sorted (v # vs)" using inv by (metis merge_inv_def nth_mem)
    show "is_heap (heap_Push ?new h')" using h'(1) by (rule heap.push_ok)
    have set_p: "set (heap_Push ?new h') = insert ?new (set h')"
      using heap.push_items [OF h'(1), of ?new] by (metis set_mset_add_mset_insert set_mset_mset)
    show "sorted q" if "q \<in> set (rs[?r := vs])" for q
      using that inv sorted_r set_update_subset_insert [of rs ?r vs] by (auto simp: merge_inv_def)
    fix i assume i: "i < length (rs[?r := vs])" "rs[?r := vs] ! i \<noteq> []"
    show "\<exists>it\<in>set (heap_Push ?new h'). mi_reader it = i \<and> mi_value it \<le> hd (rs[?r := vs] ! i)"
    proof (cases "i = ?r")
      case True
      then have "v \<le> hd vs" using i sorted_r r by (cases vs) auto
      then show ?thesis using True r set_p by simp
    next
      case False
      then obtain it where it: "it \<in> set h" "mi_reader it = i" "mi_value it \<le> hd (rs ! i)"
        using inv i by (auto simp: merge_inv_def)
      then have "it \<in> set h'" using set_h False by auto
      then show ?thesis using it False set_p by auto
    qed
  qed
qed

lemma merge_loop_correct:
  "merge_inv h rs \<Longrightarrow> h \<noteq> [] \<or> runs_mset rs = {#} \<Longrightarrow>
   sorted (merge_loop h rs) \<and> mset (merge_loop h rs) = image_mset mi_value (mset h) + runs_mset rs"
proof (induction h rs rule: merge_loop.induct)
  case (1 h rs)
  show ?case
  proof (cases "h = []")
    case True
    then show ?thesis using 1(4) by (simp add: merge_loop.simps)
  next
    case False
    obtain x h' where pop: "heap_Pop h = (x, h')" by (cases "heap_Pop h") auto
    have mset_h: "mset h = add_mset x (mset h')"
      using heap.pop_items [of h x h'] 1(3) pop False by (simp add: merge_inv_def)
    define out where "out = (case reader rs (mi_reader x) of
        [] \<Rightarrow> merge_loop h' rs
      | v # vs \<Rightarrow> merge_loop (heap_Push \<lparr>mi_value = v, mi_reader = mi_reader x\<rparr> h') (rs[mi_reader x := vs]))"
    have eq: "merge_loop h rs = mi_value x # out"
      using False pop by (subst merge_loop.simps) (simp add: out_def)
    have out: "sorted out \<and> mset out = image_mset mi_value (mset h') + runs_mset rs"
    proof (cases "reader rs (mi_reader x)")
      case Nil
      have inv: "merge_inv h' rs" by (rule merge_step_inv(1) [OF 1(3) pop False Nil])
      have "h' \<noteq> [] \<or> runs_mset rs = {#}"
      proof (rule ccontr)
        assume "\<not> ?thesis"
        then obtain y where "h' = []" "y \<in># runs_mset rs" by auto
        then show False using inv by (auto simp: merge_inv_def in_runs_mset)
      qed
      then show ?thesis using 1(1) [OF False refl pop [symmetric] Nil] inv Nil by (simp add: out_def)
    next
      case (Cons v vs)
      then have r: "mi_reader x < length rs" "rs ! mi_reader x = v # vs"
        by (auto simp: reader_def split: if_splits)
      let ?h2 = "heap_Push \<lparr>mi_value = v, mi_reader = mi_reader x\<rparr> h'"
      have inv: "merge_inv ?h2 (rs[mi_reader x := vs])" by (rule merge_step_inv(2) [OF 1(3) pop False Cons])
      have "is_heap h'" using heap.pop_ok [of h x h'] 1(3) pop False by (simp add: merge_inv_def)
      then have m2: "mset ?h2 = add_mset \<lparr>mi_value = v, mi_reader = mi_reader x\<rparr> (mset h')"
        by (rule heap.push_items)
      then have "?h2 \<noteq> []" by auto
      then have "sorted (merge_loop ?h2 (rs[mi_reader x := vs])) \<and> mset (merge_loop ?h2 (rs[mi_reader x := vs])) =
          image_mset mi_value (mset ?h2) + runs_mset (rs[mi_reader x := vs])"
        using 1(2) [OF False refl pop [symmetric] Cons] inv by simp
      then show ?thesis using Cons m2 runs_mset_update [OF r] by (simp add: out_def)
    qed
    have "\<forall>y\<in>set out. mi_value x \<le> y"
    proof
      fix y assume "y \<in> set out"
      then have "y \<in># image_mset mi_value (mset h) + runs_mset rs"
        using out mset_h by (metis set_mset_mset image_mset_add_mset union_mset_add_mset_left insert_iff set_mset_add_mset_insert)
      with merge_min [OF 1(3) pop False] show "mi_value x \<le> y" by blast
    qed
    then show ?thesis using eq out mset_h by simp
  qed
qed

lemma open_runs_length: "open_runs rs i h = (h', rest) \<Longrightarrow> length rest = length rs"
  by (induction rs i h arbitrary: h' rest rule: open_runs.induct) (auto split: prod.splits)

lemma open_runs_keeps:
  "open_runs rs i h = (h', rest) \<Longrightarrow> is_heap h \<Longrightarrow> is_heap h' \<and> set h \<subseteq> set h' \<and>
   image_mset mi_value (mset h') + runs_mset rest = image_mset mi_value (mset h) + runs_mset rs"
proof (induction rs i h arbitrary: h' rest rule: open_runs.induct)
  case (2 rs i h)
  then show ?case by (auto split: prod.splits)
next
  case (3 v vs rs i h)
  let ?p = "heap_Push \<lparr>mi_value = v, mi_reader = i\<rparr> h"
  obtain h2 rest2 where rec: "open_runs rs (Suc i) ?p = (h2, rest2)" by (cases "open_runs rs (Suc i) ?p") auto
  have p: "is_heap ?p" "mset ?p = add_mset \<lparr>mi_value = v, mi_reader = i\<rparr> (mset h)"
    using heap.push_ok heap.push_items 3(3) by auto
  have "set h \<subseteq> set ?p" using p(2) by (metis set_mset_add_mset_insert set_mset_mset subset_insertI)
  then show ?case using 3(1) [OF rec p(1)] 3(2) rec p(2) by auto
qed simp

lemma open_runs_items:
  "open_runs rs i h = (h', rest) \<Longrightarrow> is_heap h \<Longrightarrow> k < length rs \<Longrightarrow> \<forall>r\<in>set rs. sorted r \<Longrightarrow> rest ! k \<noteq> [] \<Longrightarrow>
   \<exists>it\<in>set h'. mi_reader it = i + k \<and> mi_value it \<le> hd (rest ! k)"
proof (induction rs i h arbitrary: h' rest k rule: open_runs.induct)
  case (2 rs i h)
  then obtain rest2 where rec: "open_runs rs (Suc i) h = (h', rest2)" "rest = [] # rest2"
    by (auto split: prod.splits)
  show ?case
  proof (cases k)
    case (Suc k')
    then show ?thesis using 2(1) [OF rec(1) 2(3), of k'] 2(4-6) rec(2) by simp
  qed (use 2(6) rec(2) in simp)
next
  case (3 v vs rs i h)
  let ?p = "heap_Push \<lparr>mi_value = v, mi_reader = i\<rparr> h"
  obtain rest2 where rec: "open_runs rs (Suc i) ?p = (h', rest2)" "rest = vs # rest2"
    using 3(2) by (auto split: prod.splits)
  have p: "is_heap ?p" "mset ?p = add_mset \<lparr>mi_value = v, mi_reader = i\<rparr> (mset h)"
    using heap.push_ok heap.push_items 3(3) by auto
  show ?case
  proof (cases k)
    case 0
    have "\<lparr>mi_value = v, mi_reader = i\<rparr> \<in> set ?p" using p(2) by (metis set_mset_mset union_single_eq_member)
    then have "\<lparr>mi_value = v, mi_reader = i\<rparr> \<in> set h'" using open_runs_keeps [OF rec(1) p(1)] by blast
    moreover have "v \<le> hd vs" using 3(5,6) 0 rec(2) by (cases vs) auto
    ultimately show ?thesis using 0 rec(2) by (intro bexI [of _ "\<lparr>mi_value = v, mi_reader = i\<rparr>"]) simp_all
  next
    case (Suc k')
    then show ?thesis using 3(1) [OF rec(1) p(1), of k'] 3(4-6) rec(2) by simp
  qed
qed simp

lemma is_heap_Nil [simp]: "is_heap []"
  by (simp add: is_heap_def heap_ok_def)

lemma open_runs_sorted: "open_runs rs i h = (h', rest) \<Longrightarrow> \<forall>r\<in>set rs. sorted r \<Longrightarrow> \<forall>r\<in>set rest. sorted r"
  by (induction rs i h arbitrary: h' rest rule: open_runs.induct) (auto split: prod.splits)

lemma mergeRuns_correct:
  assumes "\<forall>r\<in>set runs. sorted r"
  shows "sorted (mergeRuns runs) \<and> mset (mergeRuns runs) = runs_mset runs"
proof -
  obtain h rest where open_eq: "open_runs runs 0 [] = (h, rest)" by (cases "open_runs runs 0 []") auto
  have keep: "is_heap h" "image_mset mi_value (mset h) + runs_mset rest = runs_mset runs"
    using open_runs_keeps [OF open_eq] by auto
  have items: "\<exists>it\<in>set h. mi_reader it = k \<and> mi_value it \<le> hd (rest ! k)" if "k < length rest" "rest ! k \<noteq> []" for k
    using open_runs_items [OF open_eq, of k] that assms open_runs_length [OF open_eq] by simp
  have inv: "merge_inv h rest"
    unfolding merge_inv_def using keep(1) items open_runs_sorted [OF open_eq assms] by blast
  have "h \<noteq> [] \<or> runs_mset rest = {#}"
  proof (rule ccontr)
    assume "\<not> ?thesis"
    then obtain y where "h = []" "y \<in># runs_mset rest" by auto
    then obtain i where "i < length rest" "rest ! i \<noteq> []" by (force simp: in_runs_mset)
    then show False using items \<open>h = []\<close> by fastforce
  qed
  then show ?thesis using merge_loop_correct [OF inv] keep(2) open_eq by (simp add: mergeRuns_def)
qed

section \<open>Correctness of the passes\<close>

lemma merge_pass_length: "2 \<le> fanIn \<Longrightarrow> 2 * length (merge_pass fanIn runs) \<le> length runs + 1"
proof (induction fanIn runs rule: merge_pass.induct)
  case (1 fanIn runs)
  show ?case
  proof (cases "runs = []")
    case True
    then show ?thesis by (simp add: merge_pass.simps)
  next
    case False
    then have eq: "length (merge_pass fanIn runs) = Suc (length (merge_pass fanIn (drop fanIn runs)))"
      using 1(2) by (subst merge_pass.simps) (simp add: Let_def)
    have IH: "2 * length (merge_pass fanIn (drop fanIn runs)) \<le> length runs - fanIn + 1"
      using 1(1) [OF _ refl] False 1(2) by simp
    show ?thesis
    proof (cases "length runs \<le> fanIn")
      case True
      then have "drop fanIn runs = []" by simp
      then show ?thesis using eq False by (cases runs) (auto simp: merge_pass.simps)
    next
      case False
      then show ?thesis using eq IH 1(2) by linarith
    qed
  qed
qed

lemma runs_mset_split: "runs_mset (take n rs) + runs_mset (drop n rs) = runs_mset rs"
  by (metis append_take_drop_id runs_mset_simps(3))

lemma merge_pass_correct:
  "0 < fanIn \<Longrightarrow> \<forall>r\<in>set runs. sorted r \<Longrightarrow>
   (\<forall>r\<in>set (merge_pass fanIn runs). sorted r) \<and> runs_mset (merge_pass fanIn runs) = runs_mset runs \<and>
   (runs \<noteq> [] \<longrightarrow> merge_pass fanIn runs \<noteq> [])"
proof (induction fanIn runs rule: merge_pass.induct)
  case (1 fanIn runs)
  show ?case
  proof (cases "runs = []")
    case True
    then show ?thesis by (simp add: merge_pass.simps)
  next
    case False
    let ?g = "take fanIn runs"
    define out where "out = (if length ?g = 1 then hd ?g else mergeRuns ?g)"
    have eq: "merge_pass fanIn runs = out # merge_pass fanIn (drop fanIn runs)"
      using False 1(2) by (subst merge_pass.simps) (simp add: Let_def out_def)
    have g: "\<forall>r\<in>set ?g. sorted r" using 1(3) by (meson in_set_takeD)
    have "sorted out \<and> mset out = runs_mset ?g"
    proof (cases "length ?g = 1")
      case True
      then obtain r where "?g = [r]" by (metis One_nat_def length_0_conv length_Suc_conv)
      then show ?thesis using g True by (simp add: out_def)
    next
      case False
      then show ?thesis using mergeRuns_correct [OF g] by (simp add: out_def)
    qed
    moreover have "\<forall>r\<in>set (drop fanIn runs). sorted r" using 1(3) by (meson in_set_dropD)
    ultimately show ?thesis
      using 1(1) [OF _ refl] 1(2) False eq runs_mset_split [of fanIn runs] by auto
  qed
qed

lemma merge_all_correct:
  assumes "2 \<le> fanIn" "runs \<noteq> []" "\<forall>r\<in>set runs. sorted r"
  shows "\<exists>r. merge_all fanIn runs = Some [r] \<and> sorted r \<and> mset r = runs_mset runs"
  using assms
proof (induction "length runs" arbitrary: runs rule: less_induct)
  case less
  show ?case
  proof (cases "1 < length runs")
    case False
    then obtain r where "runs = [r]" using less(3) by (metis One_nat_def Suc_lessI length_0_conv length_Suc_conv length_greater_0_conv)
    then show ?thesis using less(4) by (subst merge_all.simps) simp
  next
    case True
    let ?next = "merge_pass fanIn runs"
    have "length ?next < length runs" using merge_pass_length [OF less(2), of runs] True by linarith
    then obtain r where "merge_all fanIn ?next = Some [r] \<and> sorted r \<and> mset r = runs_mset ?next"
      using less(1) [of ?next] less(2-4) merge_pass_correct [of fanIn runs] by auto
    then show ?thesis
      using True less(2,4) merge_pass_correct [of fanIn runs] by (subst merge_all.simps) simp
  qed
qed

section \<open>Correctness of the sorter\<close>

text \<open>Between scans the sorter is clean: its buffer and its runs are empty.\<close>

definition sorter_clean :: "sorter \<Rightarrow> bool" where
  "sorter_clean s \<longleftrightarrow> s_buffer s = [] \<and> s_runs s = [] \<and> 2 \<le> s_fanIn s"

definition sorter_inv :: "sorter \<Rightarrow> rec multiset \<Rightarrow> bool" where
  "sorter_inv s m \<longleftrightarrow> 2 \<le> s_fanIn s \<and> (\<forall>r\<in>set (s_runs s). sorted r) \<and>
     m = mset (s_buffer s) + runs_mset (s_runs s)"

lemma sorter_flush_inv: "sorter_inv s m \<Longrightarrow> sorter_inv (sorter_flush s) m \<and> s_buffer (sorter_flush s) = []"
  by (auto simp: sorter_inv_def sorter_flush_def)

lemma sorter_add_inv: "sorter_inv s m \<Longrightarrow> sorter_inv (sorter_add s r) (add_mset r m)"
proof -
  assume "sorter_inv s m"
  then have "sorter_inv (s\<lparr>s_buffer := s_buffer s @ [r]\<rparr>) (add_mset r m)" by (simp add: sorter_inv_def)
  then show ?thesis using sorter_flush_inv by (simp add: sorter_add_def Let_def)
qed

lemma sorter_adds_inv: "sorter_inv s m \<Longrightarrow> sorter_inv (foldl sorter_add s rs) (m + mset rs)"
proof (induction rs arbitrary: s m)
  case (Cons r rs)
  then show ?case using Cons.IH [OF sorter_add_inv [OF Cons.prems, of r]] by simp
qed simp

lemma sort_scan_inv:
  assumes "sorter_inv s m"
  shows "\<exists>out s'. sort_scan s rs = Some (out, s') \<and> sorted out \<and> mset out = m + mset rs \<and> sorter_clean s'"
proof -
  have inv: "sorter_inv (foldl sorter_add s rs) (m + mset rs)" by (rule sorter_adds_inv [OF assms])
  define s1 where "s1 = sorter_flush (foldl sorter_add s rs)"
  have s1: "sorter_inv s1 (m + mset rs)" "s_buffer s1 = []"
    unfolding s1_def using sorter_flush_inv [OF inv] by auto
  define runs where "runs = (if s_runs s1 = [] then [[]] else s_runs s1)"
  have runs: "runs \<noteq> []" "\<forall>r\<in>set runs. sorted r" "runs_mset runs = m + mset rs"
    using s1 by (auto simp: runs_def sorter_inv_def)
  obtain r where r: "merge_all (s_fanIn s1) runs = Some [r]" "sorted r" "mset r = m + mset rs"
    using merge_all_correct [OF _ runs(1,2)] s1(1) runs(3) by (auto simp: sorter_inv_def)
  have "sort_scan s rs = Some (r, s1\<lparr>s_runs := [], s_buffer := []\<rparr>)"
    using r(1) unfolding sort_scan_def sorter_finish_def Let_def s1_def [symmetric] runs_def [symmetric] by simp
  then show ?thesis using r s1(1) by (simp add: sorter_clean_def sorter_inv_def)
qed

lemma sort_scan_correct:
  assumes "sorter_clean s"
  shows "\<exists>s'. sort_scan s rs = Some (sort rs, s') \<and> sorter_clean s'"
proof -
  have "sorter_inv s {#}" using assms by (simp add: sorter_clean_def sorter_inv_def)
  from sort_scan_inv [OF this, of rs] show ?thesis by (metis add_0 properties_for_sort)
qed

lemma newSorter_clean [simp]: "sorter_clean (newSorter capacity fanIn)"
  by (auto simp: sorter_clean_def newSorter_def)

section \<open>Properties\<close>

text \<open>C27: The external sort always ends and yields the sorted scan, whatever its memory and fan-in settings (zero
  and negative ones included), and the sorter is then ready for the next scan: sorting the source and
  then the target with the same sorter gives both sorted.\<close>

theorem external_sort_correct:
  "\<exists>s1 s2. sort_scan (newSorter capacity fanIn) rs = Some (sort rs, s1) \<and>
     sort_scan s1 rs' = Some (sort rs', s2)"
proof -
  obtain s1 where 1: "sort_scan (newSorter capacity fanIn) rs = Some (sort rs, s1)" "sorter_clean s1"
    using sort_scan_correct [OF newSorter_clean] by blast
  then show ?thesis using sort_scan_correct [OF 1(2), of rs'] by blast
qed

text \<open>A run file is read back as it was written, record by record, and a file has no trailing bytes.\<close>

theorem record_file_roundtrip:
  assumes "list_all rec_wf rs"
  shows "read_all (concat (map writeRecord rs)) = rs"
  using assms
proof (induction rs)
  case Nil
  show ?case by (subst read_all.simps) (simp add: readRecord_def recordBytes_def)
next
  case (Cons r rs)
  then have wf: "length (rec_key r) = 32" "length (rec_row r) = 32" by (simp_all add: rec_wf_def)
  then have "readRecord (concat (map writeRecord (r # rs))) = Some (r, concat (map writeRecord rs))"
    by (simp add: readRecord_def writeRecord_def recordBytes_def)
  then show ?case using Cons by (subst read_all.simps) simp
qed

theorem record_file_roundtrip_witness:
  "read_all (concat (map writeRecord [Rec (replicate 32 (CHR ''a'')) (replicate 32 (CHR ''b'')),
      Rec (replicate 32 (CHR ''c'')) (replicate 32 (CHR ''d''))])) =
   [Rec (replicate 32 (CHR ''a'')) (replicate 32 (CHR ''b'')),
    Rec (replicate 32 (CHR ''c'')) (replicate 32 (CHR ''d''))]"
  by (rule record_file_roundtrip) (simp add: rec_wf_def)

text \<open>Merging sorted runs with the heap gives the sorted union of the runs.\<close>

theorem mergeRuns_sorted_union:
  assumes "\<forall>r\<in>set runs. sorted r"
  shows "sorted (mergeRuns runs) \<and> mset (mergeRuns runs) = sum_list (map mset runs)"
  using mergeRuns_correct [OF assms] by (simp add: runs_mset_def)

theorem mergeRuns_sorted_union_witness:
  "sorted (mergeRuns [[Rec ''a'' ''x'', Rec ''c'' ''x''], [Rec ''b'' ''y'']]) \<and>
   mset (mergeRuns [[Rec ''a'' ''x'', Rec ''c'' ''x''], [Rec ''b'' ''y'']]) =
   sum_list (map mset [[Rec ''a'' ''x'', Rec ''c'' ''x''], [Rec ''b'' ''y'']])"
  by (rule mergeRuns_sorted_union)
    (simp add: less_eq_rec_def compareRecord_def bytes_compare_def)

end
