(* ===== verification/Validation.thy ===== *)
theory Validation
  imports ExternalSort
begin

text \<open>
  The complete, order-independent comparison of a source and a target table
  (\<^verbatim>\<open>validation/validate.go\<close>, \<^verbatim>\<open>types.go\<close>, \<^verbatim>\<open>append.go\<close>): metadata checks, row
  fingerprints, the merge comparison of two sorted files of fingerprints, and the status reported. The
  canonical encoding of a value (\<^verbatim>\<open>canonical.go\<close>) and SHA-256 are parameters; an encoding error carries whether it is an
  \<open>UnsupportedError\<close>; a row value is \<open>'v\<close> and
  NULL is \<open>None\<close>. Row counts are exact integers: a file of 64-byte records never holds \<open>2 ^ 63\<close> of them.
\<close>

section \<open>Types\<close>

record Column =
  col_Name :: string
  col_DatabaseType :: string
  col_Kind :: string
  col_Precision :: int
  col_Scale :: int
  col_Length :: int
  col_FloatBits :: int
  col_TimePrecision :: int

record Table =
  tbl_Columns :: "Column list"
  tbl_PrimaryKey :: "string list"

record ValidationPlan =
  SourceTable :: string
  TargetTable :: string
  SourceColumns :: "Column list"
  TargetColumns :: "Column list"
  plan_PrimaryKey :: "string list option"

datatype difference_kind = Missing | Extra | Changed | DuplicateKey

record sample_ref =
  sr_kind :: difference_kind
  sr_source :: "rec option"
  sr_target :: "rec option"

record TableResult =
  tr_Status :: string
  tr_SourceRows :: int
  tr_TargetRows :: int
  tr_MissingRows :: int
  tr_ExtraRows :: int
  tr_ChangedRows :: int
  tr_DuplicateKeys :: int
  tr_Samples :: "sample_ref list"

datatype validation_error =
    ColumnCountChanged
  | DuplicateActualColumn
  | DuplicateMappedColumn string
  | ColumnChanged string
  | PrimaryKeyChanged
  | DuplicateKeyColumn string
  | KeyColumnMissing string
  | MappedColumnMissing string
  | NoComparableColumns
  | UnsupportedKind string
  | RowWidth
  | NullKey string
  | BadValue string bool
  | BaselineReleased
  | PlanDiffers
  | BaselineIncomplete

section \<open>Metadata\<close>

text \<open>\<open>columnMap\<close>: the last column of a name.\<close>

definition columnMap :: "Column list \<Rightarrow> string \<Rightarrow> Column option" where
  "columnMap cols n = List.find (\<lambda>c. col_Name c = n) (rev cols)"

fun check_columns :: "Column list \<Rightarrow> string list \<Rightarrow> Column list \<Rightarrow> validation_error option" where
  "check_columns actual seen [] = None"
| "check_columns actual seen (c # cs) =
     (if col_Name c \<in> set seen then Some (DuplicateMappedColumn (col_Name c))
      else if columnMap actual (col_Name c) \<noteq> Some c then Some (ColumnChanged (col_Name c))
      else check_columns actual (col_Name c # seen) cs)"

definition checkMetadata :: "Table \<Rightarrow> Column list \<Rightarrow> string list \<Rightarrow> bool \<Rightarrow> validation_error option" where
  "checkMetadata actual expected pk checkPK =
     (if length (tbl_Columns actual) \<noteq> length expected then Some ColumnCountChanged
      else if \<not> distinct (map col_Name (tbl_Columns actual)) then Some DuplicateActualColumn
      else (case check_columns (tbl_Columns actual) [] expected of
              Some e \<Rightarrow> Some e
            | None \<Rightarrow> if checkPK \<and> tbl_PrimaryKey actual \<noteq> pk then Some PrimaryKeyChanged else None))"

fun primary_indices :: "Column list \<Rightarrow> string list \<Rightarrow> string list \<Rightarrow> validation_error + nat list" where
  "primary_indices cols seen [] = Inr []"
| "primary_indices cols seen (n # ns) =
     (if n \<in> set seen then Inl (DuplicateKeyColumn n)
      else (case find_index (map col_Name cols) n of
              None \<Rightarrow> Inl (KeyColumnMissing n)
            | Some i \<Rightarrow> bind_res (primary_indices cols (n # seen) ns) (\<lambda>is. Inr (i # is))))"

definition primaryIndices :: "Column list \<Rightarrow> string list \<Rightarrow> validation_error + nat list" where
  "primaryIndices cols names = primary_indices cols [] names"

section \<open>Fingerprints\<close>

record 'v digests =
  dg_sha256 :: "string \<Rightarrow> string"
  dg_canonical :: "'v option \<Rightarrow> Column \<Rightarrow> Column \<Rightarrow> bool + string"

definition content_tag :: string where "content_tag = ''dbgold-content-v1'' @ [CHR 0x00]"
definition key_tag :: string where "key_tag = ''dbgold-key-v1'' @ [CHR 0x00]"

fun row_cells :: "'v digests \<Rightarrow> 'v option list \<Rightarrow> Column list \<Rightarrow> Column list \<Rightarrow> validation_error + string list" where
  "row_cells dg (v # vs) (l # ls) (n # ns) =
     (case dg_canonical dg v l n of
        Inl uns \<Rightarrow> Inl (BadValue (col_Name l) uns)
      | Inr b \<Rightarrow> bind_res (row_cells dg vs ls ns) (\<lambda>cells. Inr (dg_sha256 dg b # cells)))"
| "row_cells dg _ _ _ = Inr []"

definition rowRecord ::
  "'v digests \<Rightarrow> 'v option list \<Rightarrow> Column list \<Rightarrow> Column list \<Rightarrow> nat list \<Rightarrow> validation_error + rec" where
  "rowRecord dg row logical native keys =
     (if length row \<noteq> length logical then Inl RowWidth
      else bind_res (row_cells dg row logical native) (\<lambda>cells.
        let r = dg_sha256 dg (content_tag @ concat cells) in
        if keys = [] then Inr (Rec r r)
        else (case List.find (\<lambda>i. row ! i = None) keys of
                Some i \<Rightarrow> Inl (NullKey (col_Name (logical ! i)))
              | None \<Rightarrow> Inr (Rec (dg_sha256 dg (key_tag @ concat (map (\<lambda>i. cells ! i) keys))) r))))"

fun scan_records ::
  "'v digests \<Rightarrow> 'v option list list \<Rightarrow> Column list \<Rightarrow> Column list \<Rightarrow> nat list \<Rightarrow> validation_error + rec list" where
  "scan_records dg [] logical native keys = Inr []"
| "scan_records dg (row # rows) logical native keys =
     bind_res (rowRecord dg row logical native keys) (\<lambda>r.
       bind_res (scan_records dg rows logical native keys) (\<lambda>rs. Inr (r # rs)))"

text \<open>\<open>scanSorted\<close>: the number of rows and the sorted file; the sorter is reused for the next scan.\<close>

definition scanSorted ::
  "'v digests \<Rightarrow> 'v option list list \<Rightarrow> Column list \<Rightarrow> Column list \<Rightarrow> nat list \<Rightarrow> sorter
     \<Rightarrow> validation_error + (int \<times> rec list \<times> sorter) option" where
  "scanSorted dg rows logical native keys s =
     bind_res (scan_records dg rows logical native keys) (\<lambda>rs.
       Inr (map_option (\<lambda>(file, s'). (int (length rs), file, s')) (sort_scan s rs)))"

section \<open>Groups of equal keys\<close>

record record_group =
  g_first :: rec
  g_count :: int
  g_digest :: string

text \<open>\<open>groupReader.next\<close> on the records left in the file.\<close>

function groups_of :: "(string \<Rightarrow> string) \<Rightarrow> rec list \<Rightarrow> record_group list" where
  "groups_of sha [] = []"
| "groups_of sha (r # rs) =
     (let same = takeWhile (\<lambda>x. rec_key x = rec_key r) rs;
          rest = dropWhile (\<lambda>x. rec_key x = rec_key r) rs
      in \<lparr>g_first = r, g_count = 1 + int (length same), g_digest = sha (concat (map rec_row (r # same)))\<rparr>
           # groups_of sha rest)"
  by pat_completeness auto
termination by (relation "measure (\<lambda>(sha, rs). length rs)") (auto simp: le_imp_less_Suc length_dropWhile_le)

section \<open>Comparing two files\<close>

definition maxSamples :: nat where "maxSamples = 20"

record cmp_state =
  cs_missing :: int
  cs_extra :: int
  cs_changed :: int
  cs_duplicate :: int
  cs_refs :: "sample_ref list"

definition cmp_zero :: cmp_state where
  "cmp_zero = \<lparr>cs_missing = 0, cs_extra = 0, cs_changed = 0, cs_duplicate = 0, cs_refs = []\<rparr>"

definition add_ref :: "difference_kind \<Rightarrow> rec option \<Rightarrow> rec option \<Rightarrow> cmp_state \<Rightarrow> cmp_state" where
  "add_ref k src dst st =
     (if maxSamples \<le> length (cs_refs st) then st
      else st\<lparr>cs_refs := cs_refs st @ [\<lparr>sr_kind = k, sr_source = src, sr_target = dst\<rparr>]\<rparr>)"

definition source_only :: "bool \<Rightarrow> record_group \<Rightarrow> cmp_state \<Rightarrow> cmp_state" where
  "source_only hasKey a st =
     (let st1 = add_ref Missing (Some (g_first a)) None (st\<lparr>cs_missing := cs_missing st + g_count a\<rparr>) in
      if hasKey \<and> g_count a > 1
      then add_ref DuplicateKey (Some (g_first a)) None (st1\<lparr>cs_duplicate := cs_duplicate st1 + 1\<rparr>) else st1)"

definition target_only :: "bool \<Rightarrow> record_group \<Rightarrow> cmp_state \<Rightarrow> cmp_state" where
  "target_only hasKey b st =
     (let st1 = add_ref Extra None (Some (g_first b)) (st\<lparr>cs_extra := cs_extra st + g_count b\<rparr>) in
      if hasKey \<and> g_count b > 1
      then add_ref DuplicateKey None (Some (g_first b)) (st1\<lparr>cs_duplicate := cs_duplicate st1 + 1\<rparr>) else st1)"

definition same_key :: "bool \<Rightarrow> record_group \<Rightarrow> record_group \<Rightarrow> cmp_state \<Rightarrow> cmp_state" where
  "same_key hasKey a b st =
     (if hasKey then
        let st1 =
          (if g_count a > 1 \<or> g_count b > 1
           then add_ref DuplicateKey (Some (g_first a)) (Some (g_first b)) (st\<lparr>cs_duplicate := cs_duplicate st + 1\<rparr>)
           else if g_digest a \<noteq> g_digest b
           then add_ref Changed (Some (g_first a)) (Some (g_first b)) (st\<lparr>cs_changed := cs_changed st + 1\<rparr>)
           else st)
        in if g_count a > g_count b then st1\<lparr>cs_missing := cs_missing st1 + (g_count a - g_count b)\<rparr>
           else if g_count b > g_count a then st1\<lparr>cs_extra := cs_extra st1 + (g_count b - g_count a)\<rparr>
           else st1
      else if g_count a > g_count b
      then add_ref Missing (Some (g_first a)) None (st\<lparr>cs_missing := cs_missing st + (g_count a - g_count b)\<rparr>)
      else if g_count b > g_count a
      then add_ref Extra None (Some (g_first b)) (st\<lparr>cs_extra := cs_extra st + (g_count b - g_count a)\<rparr>)
      else st)"

fun compare_groups :: "bool \<Rightarrow> record_group list \<Rightarrow> record_group list \<Rightarrow> cmp_state \<Rightarrow> cmp_state" where
  "compare_groups hasKey [] [] st = st"
| "compare_groups hasKey (a # as) [] st = compare_groups hasKey as [] (source_only hasKey a st)"
| "compare_groups hasKey [] (b # bs) st = compare_groups hasKey [] bs (target_only hasKey b st)"
| "compare_groups hasKey (a # as) (b # bs) st =
     (let cmp = bytes_compare (rec_key (g_first a)) (rec_key (g_first b)) in
      if cmp < 0 then compare_groups hasKey as (b # bs) (source_only hasKey a st)
      else if cmp > 0 then compare_groups hasKey (a # as) bs (target_only hasKey b st)
      else compare_groups hasKey as bs (same_key hasKey a b st))"

definition compareFiles :: "(string \<Rightarrow> string) \<Rightarrow> rec list \<Rightarrow> rec list \<Rightarrow> bool \<Rightarrow> cmp_state" where
  "compareFiles sha source target hasKey =
     compare_groups hasKey (groups_of sha source) (groups_of sha target) cmp_zero"

section \<open>Validating a table\<close>

text \<open>What the two databases answer during a validation: metadata and rows, the rows again for samples of the differences
  (which may fail), then metadata again.\<close>

record 'v tables =
  vt_source :: Table
  vt_target :: Table
  vt_source_rows :: "'v option list list"
  vt_target_rows :: "'v option list list"
  vt_source_after :: Table
  vt_target_after :: Table
  vt_samples :: "validation_error option"

definition is_unsupported :: "validation_error \<Rightarrow> bool" where
  "is_unsupported e \<longleftrightarrow>
     (case e of BadValue c u \<Rightarrow> u | BaselineReleased \<Rightarrow> False | PlanDiffers \<Rightarrow> False | BaselineIncomplete \<Rightarrow> False | _ \<Rightarrow> True)"

fun bind_targets :: "Column list \<Rightarrow> Column list \<Rightarrow> validation_error + Column list" where
  "bind_targets tcols [] = Inr []"
| "bind_targets tcols (c # cs) =
     (case columnMap tcols (col_Name c) of
        None \<Rightarrow> Inl (MappedColumnMissing (col_Name c))
      | Some t \<Rightarrow> bind_res (bind_targets tcols cs) (\<lambda>ts. Inr (t # ts)))"

text \<open>The columns and the key of the plan, taken from the metadata where the plan leaves them open.\<close>

definition complete_plan ::
  "ValidationPlan \<Rightarrow> Table \<Rightarrow> Table \<Rightarrow> validation_error + Column list \<times> Column list \<times> string list" where
  "complete_plan p sm tm =
     (let src = (if SourceColumns p = [] then tbl_Columns sm else SourceColumns p);
          pk = (case plan_PrimaryKey p of
                  Some k \<Rightarrow> k
                | None \<Rightarrow> if SourceColumns p = [] then tbl_PrimaryKey sm else [])
      in bind_res (if TargetColumns p = [] then bind_targets (tbl_Columns tm) src else Inr (TargetColumns p))
           (\<lambda>dst. if src = [] \<or> length src \<noteq> length dst then Inl NoComparableColumns else Inr (src, dst, pk)))"

definition comparable_kind :: "Column \<Rightarrow> bool" where
  "comparable_kind c \<longleftrightarrow> col_Kind c \<noteq> ''unsupported'' \<and> col_Kind c \<noteq> []"

definition check_opt :: "validation_error option \<Rightarrow> 'a \<Rightarrow> validation_error + 'a" where
  "check_opt e x = (case e of Some err \<Rightarrow> Inl err | None \<Rightarrow> Inr x)"

definition validate_tables ::
  "'v digests \<Rightarrow> int \<Rightarrow> int \<Rightarrow> ValidationPlan \<Rightarrow> 'v tables \<Rightarrow> validation_error + TableResult option" where
  "validate_tables dg records fanIn p vt =
     bind_res (complete_plan p (vt_source vt) (vt_target vt)) (\<lambda>(src, dst, pk).
     bind_res (check_opt (checkMetadata (vt_source vt) src pk True) ()) (\<lambda>_.
     bind_res (check_opt (checkMetadata (vt_target vt) dst [] False) ()) (\<lambda>_.
     bind_res (primaryIndices src pk) (\<lambda>keys.
     bind_res (case List.find (\<lambda>(c, t). \<not> comparable_kind c \<or> \<not> comparable_kind t) (zip src dst) of
                 Some (c, t) \<Rightarrow> Inl (UnsupportedKind (col_Name c)) | None \<Rightarrow> Inr ()) (\<lambda>_.
     bind_res (scanSorted dg (vt_source_rows vt) src src keys (newSorter records fanIn)) (\<lambda>r1.
     case r1 of None \<Rightarrow> Inr None | Some (n1, file1, s1) \<Rightarrow>
     bind_res (scanSorted dg (vt_target_rows vt) src dst keys s1) (\<lambda>r2.
     case r2 of None \<Rightarrow> Inr None | Some (n2, file2, s2) \<Rightarrow>
     let cs = compareFiles (dg_sha256 dg) file1 file2 (keys \<noteq> []) in
     bind_res (check_opt (if cs_refs cs = [] then None else vt_samples vt) ()) (\<lambda>_.
     bind_res (check_opt (checkMetadata (vt_source_after vt) src pk True) ()) (\<lambda>_.
     bind_res (check_opt (checkMetadata (vt_target_after vt) dst (tbl_PrimaryKey (vt_target vt)) True) ()) (\<lambda>_.
       Inr (Some \<lparr>tr_Status = (if cs_missing cs + cs_extra cs + cs_changed cs + cs_duplicate cs > 0
                              then ''mismatch'' else ''passed''),
          tr_SourceRows = n1, tr_TargetRows = n2, tr_MissingRows = cs_missing cs, tr_ExtraRows = cs_extra cs,
          tr_ChangedRows = cs_changed cs, tr_DuplicateKeys = cs_duplicate cs, tr_Samples = cs_refs cs\<rparr>)))))))))))"

text \<open>The status reported; a failed validation never reports \<open>passed\<close>. (\<open>None\<close>: the sort would not end.)\<close>

definition validate_status :: "validation_error + TableResult option \<Rightarrow> string" where
  "validate_status r =
     (case r of
        Inl e \<Rightarrow> if is_unsupported e then ''unsupported'' else ''error''
      | Inr None \<Rightarrow> ''incomplete''
      | Inr (Some res) \<Rightarrow> tr_Status res)"

section \<open>Reports\<close>

record Report =
  rp_Status :: string
  rp_Tables :: "TableResult list"

definition HasFailures :: "Report \<Rightarrow> bool" where
  "HasFailures r \<longleftrightarrow> rp_Status r \<noteq> ''passed'' \<or> list_ex (\<lambda>t. tr_Status t \<noteq> ''passed'') (rp_Tables r)"

definition Finalize :: "Report \<Rightarrow> Report" where
  "Finalize r = r\<lparr>rp_Status :=
     (case List.find (\<lambda>t. tr_Status t \<noteq> ''passed'') (rp_Tables r) of None \<Rightarrow> ''passed'' | Some t \<Rightarrow> tr_Status t)\<rparr>"

section \<open>Appending to a non-empty target\<close>

record baseline =
  bl_rows :: int
  bl_file :: "rec list"
  bl_plan :: ValidationPlan
  bl_metadata :: Table
  bl_closed :: bool

text \<open>Releasing a baseline removes its directory; when that fails it stays usable.\<close>

definition Close_baseline :: "bool \<Rightarrow> baseline \<Rightarrow> baseline" where
  "Close_baseline removed b = (if bl_closed b \<or> \<not> removed then b else b\<lparr>bl_closed := True\<rparr>)"

definition opt_list :: "'a list option \<Rightarrow> 'a list" where
  "opt_list x = (case x of None \<Rightarrow> [] | Some xs \<Rightarrow> xs)"

definition captureAppendBaseline ::
  "'v digests \<Rightarrow> int \<Rightarrow> int \<Rightarrow> ValidationPlan \<Rightarrow> Table \<Rightarrow> 'v option list list \<Rightarrow> Table
     \<Rightarrow> validation_error + baseline option" where
  "captureAppendBaseline dg records fanIn p tm rows after =
     (if SourceColumns p = [] \<or> length (SourceColumns p) \<noteq> length (TargetColumns p) then Inl NoComparableColumns
      else
        bind_res (case List.find (\<lambda>(c, t). \<not> comparable_kind c \<or> \<not> comparable_kind t)
                         (zip (SourceColumns p) (TargetColumns p)) of
                    Some (c, t) \<Rightarrow> Inl (UnsupportedKind (col_Name c)) | None \<Rightarrow> Inr ()) (\<lambda>_.
        bind_res (check_opt (checkMetadata tm (TargetColumns p) [] False) ()) (\<lambda>_.
        bind_res (scanSorted dg rows (SourceColumns p) (TargetColumns p) [] (newSorter records fanIn)) (\<lambda>r.
        case r of None \<Rightarrow> Inr None | Some (n, file, s) \<Rightarrow>
        bind_res (check_opt (checkMetadata after (tbl_Columns tm) (tbl_PrimaryKey tm) True) ()) (\<lambda>_.
          Inr (Some \<lparr>bl_rows = n, bl_file = file, bl_plan = p, bl_metadata = tm, bl_closed = False\<rparr>))))))"

definition append_check :: "ValidationPlan \<Rightarrow> baseline \<Rightarrow> Table \<Rightarrow> Table \<Rightarrow> validation_error option" where
  "append_check p b sm tm =
     (case checkMetadata sm (SourceColumns p) (opt_list (plan_PrimaryKey p)) True of
        Some e \<Rightarrow> Some e
      | None \<Rightarrow> checkMetadata tm (tbl_Columns (bl_metadata b)) (tbl_PrimaryKey (bl_metadata b)) True)"

definition same_plan :: "ValidationPlan \<Rightarrow> ValidationPlan \<Rightarrow> bool" where
  "same_plan p q \<longleftrightarrow> SourceTable p = SourceTable q \<and> TargetTable p = TargetTable q \<and>
     SourceColumns p = SourceColumns q \<and> TargetColumns p = TargetColumns q \<and>
     opt_list (plan_PrimaryKey p) = opt_list (plan_PrimaryKey q)"

definition validateAppend ::
  "'v digests \<Rightarrow> int \<Rightarrow> int \<Rightarrow> ValidationPlan \<Rightarrow> baseline \<Rightarrow> 'v tables \<Rightarrow> validation_error + TableResult option" where
  "validateAppend dg records fanIn p b vt =
     (if bl_closed b then Inl BaselineReleased
      else if \<not> same_plan p (bl_plan b) then Inl PlanDiffers
      else
        bind_res (check_opt (append_check p b (vt_source vt) (vt_target vt)) ()) (\<lambda>_.
        let s0 = foldl sorter_add (newSorter records fanIn) (bl_file b) in
        if int (length (bl_file b)) \<noteq> bl_rows b then Inl BaselineIncomplete
        else
          bind_res (scanSorted dg (vt_source_rows vt) (SourceColumns p) (SourceColumns p) [] s0) (\<lambda>r1.
          case r1 of None \<Rightarrow> Inr None | Some (n1, expected, s1) \<Rightarrow>
          bind_res (scanSorted dg (vt_target_rows vt) (SourceColumns p) (TargetColumns p) [] s1) (\<lambda>r2.
          case r2 of None \<Rightarrow> Inr None | Some (n2, actual, s2) \<Rightarrow>
          let cs = compareFiles (dg_sha256 dg) expected actual False in
          bind_res (check_opt (append_check p b (vt_source_after vt) (vt_target_after vt)) ()) (\<lambda>_.
            Inr (Some \<lparr>tr_Status = (if cs_missing cs \<noteq> 0 \<or> cs_extra cs \<noteq> 0 then ''mismatch'' else ''passed''),
              tr_SourceRows = n1, tr_TargetRows = n2 - bl_rows b, tr_MissingRows = cs_missing cs,
              tr_ExtraRows = cs_extra cs, tr_ChangedRows = cs_changed cs, tr_DuplicateKeys = cs_duplicate cs,
              tr_Samples = cs_refs cs\<rparr>))))))"

section \<open>The records behind the groups\<close>

lemma bytes_compare_rec:
  "bytes_compare (rec_key a) (rec_key b) < 0 \<Longrightarrow> a < b"
  by (auto simp: bytes_compare_def less_rec_def compareRecord_less split: if_splits)

lemma bytes_compare_cases:
  "bytes_compare a b < 0 \<longleftrightarrow> str_less a b" "0 < bytes_compare a b \<longleftrightarrow> str_less b a" "bytes_compare a b = 0 \<longleftrightarrow> a = b"
  using str_less_total [of a b] str_less_asym [of a b] by (auto simp: bytes_compare_def)

lemma rec_le_key: "a \<le> b \<Longrightarrow> rec_key a = rec_key b \<or> str_less (rec_key a) (rec_key b)"
  by (cases a; cases b) (auto simp: less_eq_rec_def compareRecord_le compareRecord_less)

lemma sorted_dropWhile_key:
  assumes "sorted (r # rs)" "x \<in> set (dropWhile (\<lambda>x. rec_key x = rec_key r) rs)"
  shows "str_less (rec_key r) (rec_key x)"
  using assms
proof (induction rs)
  case (Cons y rs)
  show ?case
  proof (cases "rec_key y = rec_key r")
    case True
    then show ?thesis using Cons by auto
  next
    case False
    have "r \<le> y" "y \<le> x" using Cons.prems False by auto
    then have "str_less (rec_key r) (rec_key y)" "rec_key y = rec_key x \<or> str_less (rec_key y) (rec_key x)"
      using rec_le_key False by metis+
    then show ?thesis using str_less_trans by metis
  qed
qed simp

lemma sorted_dropWhile: "sorted xs \<Longrightarrow> sorted (dropWhile P xs)"
  by (metis dropWhile_eq_drop sorted_wrt_drop)

text \<open>The keys of the groups of a sorted file increase strictly.\<close>

definition keys_increasing :: "record_group list \<Rightarrow> bool" where
  "keys_increasing gs \<longleftrightarrow> sorted_wrt (\<lambda>a b. str_less (rec_key (g_first a)) (rec_key (g_first b))) gs"

lemma groups_of_first: "g \<in> set (groups_of sha rs) \<Longrightarrow> g_first g \<in> set rs \<and> 0 < g_count g"
proof (induction sha rs rule: groups_of.induct)
  case (2 sha r rs)
  then show ?case by (auto simp: Let_def dest: set_dropWhileD)
qed simp

lemma groups_of_increasing: "sorted rs \<Longrightarrow> keys_increasing (groups_of sha rs)"
proof (induction sha rs rule: groups_of.induct)
  case (2 sha r rs)
  let ?rest = "dropWhile (\<lambda>x. rec_key x = rec_key r) rs"
  have "sorted ?rest" using 2(2) by (simp add: sorted_dropWhile)
  then have "keys_increasing (groups_of sha ?rest)" using 2(1) [OF refl refl] by simp
  moreover have "str_less (rec_key r) (rec_key (g_first g))" if "g \<in> set (groups_of sha ?rest)" for g
    using sorted_dropWhile_key [OF 2(2)] groups_of_first [OF that] by blast
  ultimately show ?case by (simp add: keys_increasing_def Let_def)
qed (simp add: keys_increasing_def)

section \<open>Comparison without a key: multiset difference\<close>

text \<open>Without a key a record's key is its row hash, so a group stands for copies of one record.\<close>

definition self_keyed :: "rec \<Rightarrow> bool" where
  "self_keyed r \<longleftrightarrow> rec_key r = rec_row r"

definition group_mset :: "record_group list \<Rightarrow> rec multiset" where
  "group_mset gs = sum_list (map (\<lambda>g. replicate_mset (nat (g_count g)) (g_first g)) gs)"

lemma group_mset_simps [simp]:
  "group_mset [] = {#}"
  "group_mset (g # gs) = replicate_mset (nat (g_count g)) (g_first g) + group_mset gs"
  by (simp_all add: group_mset_def)

lemma group_mset_groups_of:
  "list_all self_keyed rs \<Longrightarrow> group_mset (groups_of sha rs) = mset rs"
proof (induction sha rs rule: groups_of.induct)
  case (2 sha r rs)
  let ?P = "\<lambda>x. rec_key x = rec_key r"
  have same: "x = r" if "x \<in> set (takeWhile ?P rs)" for x
  proof -
    have "self_keyed x" "rec_key x = rec_key r" "self_keyed r"
      using that 2(2) by (auto simp: list_all_iff dest: set_takeWhileD)
    then show ?thesis by (cases x; cases r) (simp add: self_keyed_def)
  qed
  have "takeWhile ?P rs = replicate (length (takeWhile ?P rs)) r"
    using same by (simp add: replicate_length_same)
  then have take: "mset (takeWhile ?P rs) = replicate_mset (length (takeWhile ?P rs)) r"
    by (metis mset_replicate)
  have "list_all self_keyed (dropWhile ?P rs)"
    using 2(2) by (auto simp: list_all_iff dest: set_dropWhileD)
  then have drop: "group_mset (groups_of sha (dropWhile ?P rs)) = mset (dropWhile ?P rs)"
    using 2(1) [OF refl refl] by simp
  have nat_len: "nat (1 + int (length (takeWhile ?P rs))) = Suc (length (takeWhile ?P rs))" by simp
  have "mset rs = mset (takeWhile ?P rs) + mset (dropWhile ?P rs)"
    by (metis mset_append takeWhile_dropWhile_id)
  then show ?case using take drop nat_len by (simp add: Let_def)
qed simp

lemma self_keyed_groups: "list_all self_keyed rs \<Longrightarrow> g \<in> set (groups_of sha rs) \<Longrightarrow> self_keyed (g_first g)"
  using groups_of_first by (fastforce simp: list_all_iff)

lemma add_ref_counts [simp]:
  "cs_missing (add_ref k s d st) = cs_missing st" "cs_extra (add_ref k s d st) = cs_extra st"
  "cs_changed (add_ref k s d st) = cs_changed st" "cs_duplicate (add_ref k s d st) = cs_duplicate st"
  by (simp_all add: add_ref_def)

lemma not_in_group_mset: "\<forall>g\<in>set gs. str_less (rec_key r) (rec_key (g_first g)) \<Longrightarrow> r \<notin># group_mset gs"
proof (induction gs)
  case (Cons g gs)
  then have "r \<noteq> g_first g" by auto
  with Cons show ?case by (auto split: if_splits)
qed simp

lemma diff_new: "r \<notin># B \<Longrightarrow> replicate_mset c r + A - B = replicate_mset c r + (A - B)"
  by (rule multiset_eqI) (auto simp: not_in_iff)

lemma diff_old: "r \<notin># A \<Longrightarrow> A - (replicate_mset d r + B) = A - B"
  by (rule multiset_eqI) (auto simp: not_in_iff)

lemma diff_both:
  "r \<notin># A \<Longrightarrow> r \<notin># B \<Longrightarrow>
   replicate_mset c r + A - (replicate_mset d r + B) = replicate_mset (c - d) r + (A - B)"
  by (rule multiset_eqI) (auto simp: not_in_iff)

definition sound_groups :: "record_group list \<Rightarrow> bool" where
  "sound_groups gs \<longleftrightarrow> keys_increasing gs \<and> (\<forall>g\<in>set gs. 0 < g_count g)"

lemma sound_groups_Cons:
  "sound_groups (g # gs) \<longleftrightarrow> 0 < g_count g \<and> sound_groups gs \<and>
     (\<forall>h\<in>set gs. str_less (rec_key (g_first g)) (rec_key (g_first h)))"
  by (auto simp: sound_groups_def keys_increasing_def)

lemma sound_groups_of: "sorted rs \<Longrightarrow> sound_groups (groups_of sha rs)"
  using groups_of_increasing groups_of_first by (auto simp: sound_groups_def)

lemma key_before_all:
  assumes "sound_groups (b # bs)" "str_less k (rec_key (g_first b))"
  shows "\<forall>g\<in>set (b # bs). str_less k (rec_key (g_first g))"
  using assms str_less_trans by (auto simp: sound_groups_Cons)

lemma compare_nokey:
  assumes "sound_groups as" "sound_groups bs"
    and "\<forall>g\<in>set as. self_keyed (g_first g)" "\<forall>g\<in>set bs. self_keyed (g_first g)"
  shows "cs_missing (compare_groups False as bs st) = cs_missing st + int (size (group_mset as - group_mset bs)) \<and>
    cs_extra (compare_groups False as bs st) = cs_extra st + int (size (group_mset bs - group_mset as)) \<and>
    cs_changed (compare_groups False as bs st) = cs_changed st \<and>
    cs_duplicate (compare_groups False as bs st) = cs_duplicate st"
  using assms
proof (induction False as bs st rule: compare_groups.induct)
  case (2 a as st)
  then show ?case by (simp add: source_only_def sound_groups_Cons)
next
  case (3 b bs st)
  then show ?case by (simp add: target_only_def sound_groups_Cons)
next
  case (4 a as b bs st)
  let ?cmp = "bytes_compare (rec_key (g_first a)) (rec_key (g_first b))"
  have pos: "0 < g_count a" "0 < g_count b" using 4(4,5) by (simp_all add: sound_groups_Cons)
  consider "?cmp < 0" | "0 < ?cmp" | "?cmp = 0" by linarith
  then show ?case
  proof cases
    case 1
    then have "g_first a \<notin># group_mset (b # bs)"
      using key_before_all [OF 4(5)] not_in_group_mset by (simp add: bytes_compare_cases del: group_mset_simps)
    then have m: "group_mset (a # as) - group_mset (b # bs) =
          replicate_mset (nat (g_count a)) (g_first a) + (group_mset as - group_mset (b # bs))"
      and e: "group_mset (b # bs) - group_mset (a # as) = group_mset (b # bs) - group_mset as"
      by (simp_all only: group_mset_simps(2) [of a as] diff_new diff_old simp_thms)
    show ?thesis
      using 4(1) [OF refl 1] 4(4-7) 1 pos unfolding m e
      by (simp add: source_only_def sound_groups_Cons del: group_mset_simps)
  next
    case 2
    then have "g_first b \<notin># group_mset (a # as)"
      using key_before_all [OF 4(4)] not_in_group_mset by (simp add: bytes_compare_cases del: group_mset_simps)
    then have m: "group_mset (b # bs) - group_mset (a # as) =
          replicate_mset (nat (g_count b)) (g_first b) + (group_mset bs - group_mset (a # as))"
      and e: "group_mset (a # as) - group_mset (b # bs) = group_mset (a # as) - group_mset bs"
      by (simp_all only: group_mset_simps(2) [of b bs] diff_new diff_old simp_thms)
    show ?thesis
      using 4(2) [OF refl _ 2] 4(4-7) 2 pos unfolding m e
      by (simp add: target_only_def sound_groups_Cons del: group_mset_simps)
  next
    case 3
    then have "rec_key (g_first a) = rec_key (g_first b)" by (simp add: bytes_compare_cases)
    moreover have "self_keyed (g_first a)" "self_keyed (g_first b)" using 4(6,7) by simp_all
    ultimately have first: "g_first a = g_first b"
      by (cases "g_first a"; cases "g_first b") (simp add: self_keyed_def)
    have "g_first a \<notin># group_mset as" "g_first a \<notin># group_mset bs"
      using 4(4,5) first not_in_group_mset by (auto simp: sound_groups_Cons)
    then have m: "group_mset (a # as) - group_mset (b # bs) =
          replicate_mset (nat (g_count a) - nat (g_count b)) (g_first a) + (group_mset as - group_mset bs)"
      and e: "group_mset (b # bs) - group_mset (a # as) =
          replicate_mset (nat (g_count b) - nat (g_count a)) (g_first a) + (group_mset bs - group_mset as)"
      using first by (simp_all add: diff_both)
    show ?thesis
      using 4(3) [OF refl] 4(4-7) 3 pos unfolding m e
      by (simp add: same_key_def sound_groups_Cons nat_diff_distrib' del: group_mset_simps)
  qed
qed simp

section \<open>Comparison with a key\<close>

definition cs_total :: "cmp_state \<Rightarrow> int" where
  "cs_total st = cs_missing st + cs_extra st + cs_changed st + cs_duplicate st"

lemma cs_total_zero [simp]: "cs_total cmp_zero = 0"
  by (simp add: cs_total_def cmp_zero_def)

definition group_match :: "record_group \<Rightarrow> record_group \<Rightarrow> bool" where
  "group_match a b \<longleftrightarrow> rec_key (g_first a) = rec_key (g_first b) \<and> g_count a = 1 \<and> g_count b = 1 \<and>
     g_digest a = g_digest b"

lemma one_sided_total:
  "0 < g_count a \<Longrightarrow> cs_total st < cs_total (source_only True a st)"
  "0 < g_count a \<Longrightarrow> cs_total st < cs_total (target_only True a st)"
  by (auto simp: cs_total_def source_only_def target_only_def Let_def)

lemma same_key_total:
  assumes "0 < g_count a" "0 < g_count b" "rec_key (g_first a) = rec_key (g_first b)"
  shows "cs_total st \<le> cs_total (same_key True a b st)"
    "cs_total (same_key True a b st) = cs_total st \<longleftrightarrow> group_match a b"
  using assms by (auto simp: cs_total_def same_key_def group_match_def Let_def)

lemma compare_keyed:
  assumes "\<forall>g\<in>set as. 0 < g_count g" "\<forall>g\<in>set bs. 0 < g_count g"
  shows "cs_total st \<le> cs_total (compare_groups True as bs st) \<and>
    (cs_total (compare_groups True as bs st) = cs_total st \<longleftrightarrow> list_all2 group_match as bs)"
  using assms
proof (induction True as bs st rule: compare_groups.induct)
  case (2 a as st)
  then show ?case using one_sided_total(1) [of a st] by (auto simp: list_all2_Nil2)
next
  case (3 b bs st)
  then show ?case using one_sided_total(2) [of b st] by auto
next
  case (4 a as b bs st)
  let ?cmp = "bytes_compare (rec_key (g_first a)) (rec_key (g_first b))"
  consider "?cmp < 0" | "0 < ?cmp" | "?cmp = 0" by linarith
  then show ?case
  proof cases
    case 1
    then have "\<not> group_match a b" using str_less_irrefl by (auto simp: bytes_compare_cases group_match_def)
    then show ?thesis using 4(1) [OF refl 1] 4(4,5) 1 one_sided_total(1) [of a st] by auto
  next
    case 2
    then have "\<not> group_match a b" using str_less_irrefl by (auto simp: bytes_compare_cases group_match_def)
    then show ?thesis using 4(2) [OF refl _ 2] 4(4,5) 2 one_sided_total(2) [of b st] by auto
  next
    case 3
    then have k: "rec_key (g_first a) = rec_key (g_first b)" by (simp add: bytes_compare_cases)
    show ?thesis using 4(3) [OF refl] 4(4,5) 3 same_key_total [OF _ _ k, of st] by auto
  qed
qed simp

lemma groups_single:
  "\<forall>g\<in>set (groups_of sha rs). g_count g = 1 \<Longrightarrow>
   map g_first (groups_of sha rs) = rs \<and> (\<forall>g\<in>set (groups_of sha rs). g_digest g = sha (rec_row (g_first g)))"
proof (induction sha rs rule: groups_of.induct)
  case (2 sha r rs)
  let ?P = "\<lambda>x. rec_key x = rec_key r"
  have "takeWhile ?P rs = []" using 2(2) by (simp add: Let_def)
  then have "dropWhile ?P rs = rs" by (metis append_Nil takeWhile_dropWhile_id)
  with 2 \<open>takeWhile ?P rs = []\<close> show ?case by (simp add: Let_def)
qed simp

lemma groups_distinct:
  "distinct (map rec_key rs) \<Longrightarrow>
   groups_of sha rs = map (\<lambda>r. \<lparr>g_first = r, g_count = 1, g_digest = sha (rec_row r)\<rparr>) rs"
proof (induction sha rs rule: groups_of.induct)
  case (2 sha r rs)
  let ?P = "\<lambda>x. rec_key x = rec_key r"
  have "takeWhile ?P rs = [] \<and> dropWhile ?P rs = rs"
    using 2(2) by (cases rs) auto
  then show ?case using 2 by (simp add: Let_def)
qed simp

lemma sorted_distinct_keys:
  assumes "sorted rs" "\<forall>g\<in>set (groups_of sha rs). g_count g = 1"
  shows "distinct (map rec_key rs)"
proof -
  have inc: "sorted_wrt (\<lambda>a b. str_less (rec_key (g_first a)) (rec_key (g_first b))) (groups_of sha rs)"
    using groups_of_increasing [OF assms(1)] by (simp add: keys_increasing_def)
  have "sorted_wrt str_less (map rec_key (map g_first (groups_of sha rs)))"
    using inc by (simp add: sorted_wrt_map)
  then have sorted_keys: "sorted_wrt str_less (map rec_key rs)" using groups_single [OF assms(2)] by simp
  have "sorted_wrt str_less ks \<Longrightarrow> distinct ks" for ks
    by (induction ks) auto
  then show ?thesis using sorted_keys by blast
qed

lemma keyed_equal:
  assumes "sorted src" "sorted dst" "inj_on sha (rec_row ` (set src \<union> set dst))"
  shows "cs_total (compareFiles sha src dst True) = 0 \<longleftrightarrow> src = dst \<and> distinct (map rec_key src)"
proof -
  have "cs_total (compareFiles sha src dst True) = 0 \<longleftrightarrow> list_all2 group_match (groups_of sha src) (groups_of sha dst)"
    using compare_keyed [of "groups_of sha src" "groups_of sha dst" cmp_zero] groups_of_first
    by (auto simp: compareFiles_def)
  also have "\<dots> \<longleftrightarrow> src = dst \<and> distinct (map rec_key src)"
  proof
    assume m: "list_all2 group_match (groups_of sha src) (groups_of sha dst)"
    then have one: "\<forall>g\<in>set (groups_of sha src). g_count g = 1" "\<forall>g\<in>set (groups_of sha dst). g_count g = 1"
      by (auto simp: group_match_def list_all2_conv_all_nth in_set_conv_nth)
    note S = groups_single [OF one(1)] and D = groups_single [OF one(2)]
    have "list_all2 (\<lambda>a b. g_first a = g_first b) (groups_of sha src) (groups_of sha dst)"
      using m
    proof (rule list.rel_mono_strong)
      fix a b assume ab: "a \<in> set (groups_of sha src)" "b \<in> set (groups_of sha dst)" "group_match a b"
      then have "sha (rec_row (g_first a)) = sha (rec_row (g_first b))"
        using S D by (simp add: group_match_def)
      moreover have "g_first a \<in> set src" "g_first b \<in> set dst" using ab groups_of_first by blast+
      ultimately have "rec_row (g_first a) = rec_row (g_first b)" using assms(3) by (auto dest: inj_onD)
      then show "g_first a = g_first b" using ab(3) by (cases "g_first a"; cases "g_first b") (simp add: group_match_def)
    qed
    then have "map g_first (groups_of sha src) = map g_first (groups_of sha dst)"
      by (simp add: list_all2_conv_all_nth list_eq_iff_nth_eq)
    then show "src = dst \<and> distinct (map rec_key src)"
      using S D sorted_distinct_keys [OF assms(1) one(1)] by simp
  next
    assume "src = dst \<and> distinct (map rec_key src)"
    then show "list_all2 group_match (groups_of sha src) (groups_of sha dst)"
      by (auto simp: groups_distinct group_match_def list_all2_conv_all_nth)
  qed
  finally show ?thesis .
qed

lemma nokey_equal:
  assumes "sorted src" "sorted dst" "list_all self_keyed src" "list_all self_keyed dst"
  shows "cs_missing (compareFiles sha src dst False) = int (size (mset src - mset dst)) \<and>
    cs_extra (compareFiles sha src dst False) = int (size (mset dst - mset src)) \<and>
    cs_changed (compareFiles sha src dst False) = 0 \<and> cs_duplicate (compareFiles sha src dst False) = 0"
proof -
  have "\<forall>g\<in>set (groups_of sha src). self_keyed (g_first g)" "\<forall>g\<in>set (groups_of sha dst). self_keyed (g_first g)"
    using assms(3,4) self_keyed_groups by blast+
  from compare_nokey [OF sound_groups_of [OF assms(1)] sound_groups_of [OF assms(2)] this, of cmp_zero]
  show ?thesis using assms(3,4) by (simp add: compareFiles_def group_mset_groups_of cmp_zero_def)
qed

lemma nokey_total:
  assumes "sorted src" "sorted dst" "list_all self_keyed src" "list_all self_keyed dst"
  shows "cs_total (compareFiles sha src dst False) = 0 \<longleftrightarrow> src = dst"
proof -
  have "cs_total (compareFiles sha src dst False) = 0 \<longleftrightarrow> mset src - mset dst = {#} \<and> mset dst - mset src = {#}"
    using nokey_equal [OF assms, of sha] by (simp add: cs_total_def flip: of_nat_add)
  also have "\<dots> \<longleftrightarrow> mset src = mset dst"
    by (metis Diff_eq_empty_iff_mset subset_mset.eq_iff)
  also have "\<dots> \<longleftrightarrow> src = dst" using assms(1,2) by (metis properties_for_sort)
  finally show ?thesis .
qed

section \<open>From the verdict to the rows\<close>

fun canonical_row :: "'v digests \<Rightarrow> 'v option list \<Rightarrow> Column list \<Rightarrow> Column list \<Rightarrow> string list" where
  "canonical_row dg (v # vs) (l # ls) (n # ns) =
     (case dg_canonical dg v l n of Inl u \<Rightarrow> [] | Inr b \<Rightarrow> b # canonical_row dg vs ls ns)"
| "canonical_row dg _ _ _ = []"

definition row_hash :: "'v digests \<Rightarrow> string list \<Rightarrow> string" where
  "row_hash dg bs = dg_sha256 dg (content_tag @ concat (map (dg_sha256 dg) bs))"

lemma row_cells_canonical:
  "row_cells dg row ls ns = Inr cells \<Longrightarrow> cells = map (dg_sha256 dg) (canonical_row dg row ls ns)"
  by (induction dg row ls ns arbitrary: cells rule: row_cells.induct)
    (auto simp: bind_res_Inr_iff split: sum.splits)

lemma rowRecord_row:
  assumes "rowRecord dg row ls ns keys = Inr r"
  shows "rec_row r = row_hash dg (canonical_row dg row ls ns) \<and> (keys = [] \<longrightarrow> self_keyed r)"
  using assms
  by (auto simp: rowRecord_def bind_res_Inr_iff row_hash_def self_keyed_def Let_def
      split: if_splits option.splits dest!: row_cells_canonical)

lemma scan_records_rows:
  "scan_records dg rows ls ns keys = Inr rs \<Longrightarrow>
   map rec_row rs = map (\<lambda>row. row_hash dg (canonical_row dg row ls ns)) rows \<and>
   (keys = [] \<longrightarrow> list_all self_keyed rs)"
  by (induction rows arbitrary: rs) (auto simp: bind_res_Inr_iff dest: rowRecord_row)

lemma scanSorted_clean:
  assumes "sorter_clean s" "scanSorted dg rows ls ns keys s = Inr r"
  shows "\<exists>rs s'. scan_records dg rows ls ns keys = Inr rs \<and> r = Some (int (length rs), sort rs, s') \<and> sorter_clean s'"
proof -
  from assms(2) obtain rs where rs: "scan_records dg rows ls ns keys = Inr rs"
    and r: "r = map_option (\<lambda>(file, s'). (int (length rs), file, s')) (sort_scan s rs)"
    by (auto simp: scanSorted_def bind_res_Inr_iff)
  then show ?thesis using sort_scan_correct [OF assms(1), of rs] by auto
qed

lemma validate_tables_Some:
  assumes "validate_tables dg records fanIn p vt = Inr (Some res)"
  obtains src dst pk keys rs1 rs2 where
    "complete_plan p (vt_source vt) (vt_target vt) = Inr (src, dst, pk)"
    "primaryIndices src pk = Inr keys"
    "checkMetadata (vt_source_after vt) src pk True = None"
    "scan_records dg (vt_source_rows vt) src src keys = Inr rs1"
    "scan_records dg (vt_target_rows vt) src dst keys = Inr rs2"
    "tr_Status res = (if cs_total (compareFiles (dg_sha256 dg) (sort rs1) (sort rs2) (keys \<noteq> [])) > 0
       then ''mismatch'' else ''passed'')"
    "tr_SourceRows res = int (length rs1)" "tr_TargetRows res = int (length rs2)"
proof -
  note [simp] = bind_res_Inr_iff check_opt_def
  from assms obtain src dst pk keys r1 where
    1: "complete_plan p (vt_source vt) (vt_target vt) = Inr (src, dst, pk)" "primaryIndices src pk = Inr keys"
      "scanSorted dg (vt_source_rows vt) src src keys (newSorter records fanIn) = Inr r1"
    and rest: "(case r1 of None \<Rightarrow> Inr None | Some (n1, file1, s1) \<Rightarrow>
     bind_res (scanSorted dg (vt_target_rows vt) src dst keys s1) (\<lambda>r2.
     case r2 of None \<Rightarrow> Inr None | Some (n2, file2, s2) \<Rightarrow>
     let cs = compareFiles (dg_sha256 dg) file1 file2 (keys \<noteq> []) in
     bind_res (check_opt (if cs_refs cs = [] then None else vt_samples vt) ()) (\<lambda>_.
     bind_res (check_opt (checkMetadata (vt_source_after vt) src pk True) ()) (\<lambda>_.
     bind_res (check_opt (checkMetadata (vt_target_after vt) dst (tbl_PrimaryKey (vt_target vt)) True) ()) (\<lambda>_.
       Inr (Some \<lparr>tr_Status = (if cs_missing cs + cs_extra cs + cs_changed cs + cs_duplicate cs > 0
                              then ''mismatch'' else ''passed''),
          tr_SourceRows = n1, tr_TargetRows = n2, tr_MissingRows = cs_missing cs, tr_ExtraRows = cs_extra cs,
          tr_ChangedRows = cs_changed cs, tr_DuplicateKeys = cs_duplicate cs, tr_Samples = cs_refs cs\<rparr>)))))) =
      Inr (Some res)"
    unfolding validate_tables_def by (auto simp del: check_opt_def)
  from scanSorted_clean [OF newSorter_clean 1(3)] obtain rs1 s1 where
    2: "scan_records dg (vt_source_rows vt) src src keys = Inr rs1" "r1 = Some (int (length rs1), sort rs1, s1)" "sorter_clean s1"
    by blast
  from rest obtain r2 where r2: "scanSorted dg (vt_target_rows vt) src dst keys s1 = Inr r2"
    unfolding 2(2) by auto
  from scanSorted_clean [OF 2(3) r2] obtain rs2 s2 where
    3: "scan_records dg (vt_target_rows vt) src dst keys = Inr rs2" "r2 = Some (int (length rs2), sort rs2, s2)"
    by blast
  show thesis
    using rest unfolding 2(2)
    by (intro that [OF 1(1,2) _ 2(1) 3(1)])
      (auto simp: r2 3(2) Let_def cs_total_def split: option.splits)
qed

lemma captureAppendBaseline_Some:
  assumes "captureAppendBaseline dg records fanIn p tm rows after = Inr (Some b)"
  shows "\<exists>rs. scan_records dg rows (SourceColumns p) (TargetColumns p) [] = Inr rs \<and>
    bl_rows b = int (length rs) \<and> bl_file b = sort rs"
proof -
  from assms obtain r where
    scan: "scanSorted dg rows (SourceColumns p) (TargetColumns p) [] (newSorter records fanIn) = Inr r" and
    rest: "(case r of None \<Rightarrow> Inr None | Some (n, file, s) \<Rightarrow>
        bind_res (check_opt (checkMetadata after (tbl_Columns tm) (tbl_PrimaryKey tm) True) ()) (\<lambda>_.
          Inr (Some \<lparr>bl_rows = n, bl_file = file, bl_plan = p, bl_metadata = tm, bl_closed = False\<rparr>))) = Inr (Some b)"
    by (auto simp: captureAppendBaseline_def bind_res_Inr_iff split: if_splits)
  from scanSorted_clean [OF newSorter_clean scan] obtain rs s1 where
    "scan_records dg rows (SourceColumns p) (TargetColumns p) [] = Inr rs" "r = Some (int (length rs), sort rs, s1)"
    by blast
  with rest show ?thesis by (auto simp: bind_res_Inr_iff)
qed

lemma scanSorted_after_add:
  assumes "sorter_inv s m" "scanSorted dg rows ls ns keys s = Inr r"
  shows "\<exists>rs out s'. scan_records dg rows ls ns keys = Inr rs \<and> r = Some (int (length rs), out, s') \<and>
    sorted out \<and> mset out = m + mset rs \<and> sorter_clean s'"
proof -
  from assms(2) obtain rs where rs: "scan_records dg rows ls ns keys = Inr rs"
    and r: "r = map_option (\<lambda>(file, s'). (int (length rs), file, s')) (sort_scan s rs)"
    by (auto simp: scanSorted_def bind_res_Inr_iff)
  then show ?thesis using sort_scan_inv [OF assms(1), of rs] by auto
qed

lemma validateAppend_Some:
  assumes "validateAppend dg records fanIn p b vt = Inr (Some res)"
  shows "\<exists>rs1 rs2 expected. scan_records dg (vt_source_rows vt) (SourceColumns p) (SourceColumns p) [] = Inr rs1 \<and>
    scan_records dg (vt_target_rows vt) (SourceColumns p) (TargetColumns p) [] = Inr rs2 \<and>
    sorted expected \<and> mset expected = mset (bl_file b) + mset rs1 \<and>
    tr_TargetRows res = int (length rs2) - bl_rows b \<and>
    tr_MissingRows res = cs_missing (compareFiles (dg_sha256 dg) expected (sort rs2) False) \<and>
    tr_ExtraRows res = cs_extra (compareFiles (dg_sha256 dg) expected (sort rs2) False) \<and>
    tr_Status res = (if tr_MissingRows res \<noteq> 0 \<or> tr_ExtraRows res \<noteq> 0 then ''mismatch'' else ''passed'')"
proof -
  define s0 where "s0 = foldl sorter_add (newSorter records fanIn) (bl_file b)"
  have clean: "sorter_inv (newSorter records fanIn) {#}"
    using newSorter_clean [of records fanIn] by (simp add: sorter_inv_def sorter_clean_def)
  have inv: "sorter_inv s0 (mset (bl_file b))" using sorter_adds_inv [OF clean, of "bl_file b"] by (simp add: s0_def)
  define rest where "rest = (\<lambda>r1. case r1 of None \<Rightarrow> Inr None | Some (n1, expected, s1) \<Rightarrow>
          bind_res (scanSorted dg (vt_target_rows vt) (SourceColumns p) (TargetColumns p) [] s1) (\<lambda>r2.
          case r2 of None \<Rightarrow> Inr None | Some (n2, actual, s2) \<Rightarrow>
          let cs = compareFiles (dg_sha256 dg) expected actual False in
          bind_res (check_opt (append_check p b (vt_source_after vt) (vt_target_after vt)) ()) (\<lambda>_.
            Inr (Some \<lparr>tr_Status = (if cs_missing cs \<noteq> 0 \<or> cs_extra cs \<noteq> 0 then ''mismatch'' else ''passed''),
              tr_SourceRows = n1, tr_TargetRows = n2 - bl_rows b, tr_MissingRows = cs_missing cs,
              tr_ExtraRows = cs_extra cs, tr_ChangedRows = cs_changed cs, tr_DuplicateKeys = cs_duplicate cs,
              tr_Samples = cs_refs cs\<rparr>))))"
  have "validateAppend dg records fanIn p b vt =
     (if bl_closed b then Inl BaselineReleased
      else if \<not> same_plan p (bl_plan b) then Inl PlanDiffers
      else
        bind_res (check_opt (append_check p b (vt_source vt) (vt_target vt)) ()) (\<lambda>_.
        if int (length (bl_file b)) \<noteq> bl_rows b then Inl BaselineIncomplete
        else bind_res (scanSorted dg (vt_source_rows vt) (SourceColumns p) (SourceColumns p) [] s0) rest))"
    unfolding validateAppend_def rest_def s0_def Let_def by (rule refl)
  with assms obtain r1 where
    scan1: "scanSorted dg (vt_source_rows vt) (SourceColumns p) (SourceColumns p) [] s0 = Inr r1" and
    rest: "rest r1 = Inr (Some res)"
    by (auto simp: bind_res_Inr_iff split: if_splits)
  from scanSorted_after_add [OF inv scan1] obtain rs1 expected s1 where
    1: "scan_records dg (vt_source_rows vt) (SourceColumns p) (SourceColumns p) [] = Inr rs1"
      "r1 = Some (int (length rs1), expected, s1)" "sorted expected" "mset expected = mset (bl_file b) + mset rs1"
      "sorter_clean s1"
    by blast
  from rest obtain r2 where r2: "scanSorted dg (vt_target_rows vt) (SourceColumns p) (TargetColumns p) [] s1 = Inr r2"
    unfolding 1(2) rest_def by (auto simp: bind_res_Inr_iff)
  from scanSorted_clean [OF 1(5) r2] obtain rs2 s2 where
    2: "scan_records dg (vt_target_rows vt) (SourceColumns p) (TargetColumns p) [] = Inr rs2"
      "r2 = Some (int (length rs2), sort rs2, s2)"
    by blast
  show ?thesis
    using rest 1(3,4) unfolding 1(2) rest_def
    by (intro exI [of _ rs1] exI [of _ rs2] exI [of _ expected])
      (auto simp: r2 1(1) 2 Let_def bind_res_Inr_iff)
qed

section \<open>Properties\<close>

text \<open>The canonical rows of the two tables of a plan, and the assumption that their SHA-256 fingerprints do
  not collide (for the rows of these two tables only).\<close>

definition source_rows :: "'v digests \<Rightarrow> Column list \<Rightarrow> 'v tables \<Rightarrow> string list list" where
  "source_rows dg src vt = map (\<lambda>row. canonical_row dg row src src) (vt_source_rows vt)"

definition target_rows :: "'v digests \<Rightarrow> Column list \<Rightarrow> Column list \<Rightarrow> 'v tables \<Rightarrow> string list list" where
  "target_rows dg src dst vt = map (\<lambda>row. canonical_row dg row src dst) (vt_target_rows vt)"

definition collision_free :: "'v digests \<Rightarrow> string list set \<Rightarrow> bool" where
  "collision_free dg R \<longleftrightarrow> inj_on (row_hash dg) R \<and> inj_on (dg_sha256 dg) (row_hash dg ` R)"

lemma image_mset_inj:
  assumes "inj_on f (set_mset M \<union> set_mset N)" "image_mset f M = image_mset f N"
  shows "M = N"
proof -
  have "image_mset (inv_into (set_mset M \<union> set_mset N) f) (image_mset f M) = M"
    using assms(1) by (simp add: image_mset.compositionality comp_def inv_into_f_f cong: image_mset_cong)
  moreover have "image_mset (inv_into (set_mset M \<union> set_mset N) f) (image_mset f N) = N"
    using assms(1) by (simp add: image_mset.compositionality comp_def inv_into_f_f cong: image_mset_cong)
  ultimately show ?thesis using assms(2) by metis
qed

lemma sorted_files_equal: "sort rs1 = sort rs2 \<Longrightarrow> mset rs1 = (mset rs2 :: rec multiset)"
  by (metis mset_sort)

text \<open>C26: A validation that reports \<open>passed\<close> has seen equal tables: unless two of the tables' rows have the
  same SHA-256 fingerprint, the multisets of canonical rows of source and target are equal, so no row is
  missing, extra, changed or repeated a different number of times, in whatever order they were scanned.\<close>

theorem validation_passed_sound:
  assumes "validate_tables dg records fanIn p vt = Inr (Some res)" and "tr_Status res = ''passed''"
    and "complete_plan p (vt_source vt) (vt_target vt) = Inr (src, dst, pk)"
    and "collision_free dg (set (source_rows dg src vt) \<union> set (target_rows dg src dst vt))"
  shows "mset (source_rows dg src vt) = mset (target_rows dg src dst vt)"
proof -
  from assms(1) obtain src' dst' pk' keys rs1 rs2 where v:
    "complete_plan p (vt_source vt) (vt_target vt) = Inr (src', dst', pk')"
    "scan_records dg (vt_source_rows vt) src' src' keys = Inr rs1"
    "scan_records dg (vt_target_rows vt) src' dst' keys = Inr rs2"
    "tr_Status res = (if cs_total (compareFiles (dg_sha256 dg) (sort rs1) (sort rs2) (keys \<noteq> [])) > 0
       then ''mismatch'' else ''passed'')"
    by (rule validate_tables_Some)
  have eq: "src' = src" "dst' = dst" using v(1) assms(3) by simp_all
  let ?R = "set (source_rows dg src vt) \<union> set (target_rows dg src dst vt)"
  have rows1: "map rec_row rs1 = map (row_hash dg) (source_rows dg src vt)" "keys = [] \<longrightarrow> list_all self_keyed rs1"
    and rows2: "map rec_row rs2 = map (row_hash dg) (target_rows dg src dst vt)" "keys = [] \<longrightarrow> list_all self_keyed rs2"
    using scan_records_rows [OF v(2)] scan_records_rows [OF v(3)] eq
    by (simp_all add: source_rows_def target_rows_def comp_def)
  have zero: "\<not> cs_total (compareFiles (dg_sha256 dg) (sort rs1) (sort rs2) (keys \<noteq> [])) > 0"
    using v(4) assms(2) by (auto split: if_splits)
  have "sort rs1 = sort rs2"
  proof (cases "keys = []")
    case True
    have k: "list_all self_keyed (sort rs1)" "list_all self_keyed (sort rs2)"
      using rows1(2) rows2(2) True by (simp_all add: list_all_iff)
    have "0 \<le> cs_total (compareFiles (dg_sha256 dg) (sort rs1) (sort rs2) False)"
      using nokey_equal [OF _ _ k, of "dg_sha256 dg"] by (simp add: cs_total_def)
    then show ?thesis using nokey_total [OF _ _ k, of "dg_sha256 dg"] zero True by simp
  next
    case False
    have "rec_row ` (set rs1 \<union> set rs2) = row_hash dg ` ?R"
      using arg_cong [OF rows1(1), of set] arg_cong [OF rows2(1), of set] by (simp add: image_Un image_image)
    then have inj: "inj_on (dg_sha256 dg) (rec_row ` (set (sort rs1) \<union> set (sort rs2)))"
      using assms(4) by (simp add: collision_free_def)
    have "0 \<le> cs_total (compareFiles (dg_sha256 dg) (sort rs1) (sort rs2) True)"
      using compare_keyed [of "groups_of (dg_sha256 dg) (sort rs1)" "groups_of (dg_sha256 dg) (sort rs2)" cmp_zero]
        groups_of_first by (fastforce simp: compareFiles_def)
    then show ?thesis using keyed_equal [OF _ _ inj] zero False by simp
  qed
  then have "mset rs1 = mset rs2" by (rule sorted_files_equal)
  then have "mset (map rec_row rs1) = mset (map rec_row rs2)" by (simp only: mset_map)
  then have "image_mset (row_hash dg) (mset (source_rows dg src vt)) = image_mset (row_hash dg) (mset (target_rows dg src dst vt))"
    using rows1(1) rows2(1) by simp
  moreover have "inj_on (row_hash dg) (set_mset (mset (source_rows dg src vt)) \<union> set_mset (mset (target_rows dg src dst vt)))"
    using assms(4) by (simp add: collision_free_def)
  ultimately show ?thesis by (intro image_mset_inj [of "row_hash dg"])
qed

text \<open>A table of one integer column without a key, holding two rows that the two sides return in different order.\<close>

definition sample_digests :: "string digests" where
  "sample_digests = \<lparr>dg_sha256 = (\<lambda>s. s), dg_canonical = (\<lambda>v l n. Inr (case v of None \<Rightarrow> ''N'' | Some s \<Rightarrow> CHR ''V'' # s))\<rparr>"

definition sample_column :: Column where
  "sample_column = \<lparr>col_Name = ''id'', col_DatabaseType = ''int'', col_Kind = ''integer'', col_Precision = 0, col_Scale = 0,
     col_Length = 0, col_FloatBits = 0, col_TimePrecision = 0\<rparr>"

definition sample_plan :: ValidationPlan where
  "sample_plan = \<lparr>SourceTable = ''s'', TargetTable = ''t'', SourceColumns = [sample_column], TargetColumns = [sample_column],
     plan_PrimaryKey = None\<rparr>"

definition sample_tables :: "string tables" where
  "sample_tables = (let t = \<lparr>tbl_Columns = [sample_column], tbl_PrimaryKey = []\<rparr> in
     \<lparr>vt_source = t, vt_target = t, vt_source_rows = [[Some ''1''], [Some ''2''], [None]],
      vt_target_rows = [[None], [Some ''2''], [Some ''1'']], vt_source_after = t, vt_target_after = t, vt_samples = None\<rparr>)"

lemmas sample_defs = sample_digests_def sample_column_def sample_plan_def sample_tables_def

theorem validation_passed_sound_witness:
  "mset (source_rows sample_digests [sample_column] sample_tables) =
   mset (target_rows sample_digests [sample_column] [sample_column] sample_tables)"
proof (rule validation_passed_sound)
  show "validate_tables sample_digests 2 2 sample_plan sample_tables = Inr (Some
     \<lparr>tr_Status = ''passed'', tr_SourceRows = 3, tr_TargetRows = 3, tr_MissingRows = 0, tr_ExtraRows = 0,
      tr_ChangedRows = 0, tr_DuplicateKeys = 0, tr_Samples = []\<rparr>)"
    by code_simp
  show "complete_plan sample_plan (vt_source sample_tables) (vt_target sample_tables) =
      Inr ([sample_column], [sample_column], [])"
    by code_simp
  show "collision_free sample_digests (set (source_rows sample_digests [sample_column] sample_tables) \<union>
      set (target_rows sample_digests [sample_column] [sample_column] sample_tables))"
    by (simp add: collision_free_def source_rows_def target_rows_def row_hash_def inj_on_def sample_defs Let_def)
qed simp

text \<open>Comparing two sorted files of fingerprints without a key counts exactly the multiset differences.\<close>

theorem compare_counts_differences:
  assumes "list_all self_keyed src" and "list_all self_keyed dst"
  shows "cs_missing (compareFiles sha (sort src) (sort dst) False) = int (size (mset src - mset dst)) \<and>
    cs_extra (compareFiles sha (sort src) (sort dst) False) = int (size (mset dst - mset src)) \<and>
    cs_changed (compareFiles sha (sort src) (sort dst) False) = 0"
  using nokey_equal [of "sort src" "sort dst" sha] assms by (simp add: list_all_iff)

theorem compare_counts_differences_witness:
  "cs_missing (compareFiles (\<lambda>s. s) (sort [Rec ''a'' ''a'', Rec ''b'' ''b'']) (sort [Rec ''b'' ''b'']) False) =
     int (size (mset [Rec ''a'' ''a'', Rec ''b'' ''b''] - mset [Rec ''b'' ''b''])) \<and>
   cs_extra (compareFiles (\<lambda>s. s) (sort [Rec ''a'' ''a'', Rec ''b'' ''b'']) (sort [Rec ''b'' ''b'']) False) =
     int (size (mset [Rec ''b'' ''b''] - mset [Rec ''a'' ''a'', Rec ''b'' ''b''])) \<and>
   cs_changed (compareFiles (\<lambda>s. s) (sort [Rec ''a'' ''a'', Rec ''b'' ''b'']) (sort [Rec ''b'' ''b'']) False) = 0"
  by (rule compare_counts_differences) (simp_all add: self_keyed_def)

text \<open>C36: An append validation that reports \<open>passed\<close> has seen exactly the append: unless fingerprints collide, the
  rows of the target are the rows the baseline was captured from together with the rows of the source, as
  multisets, so every old row is unchanged and every source row has arrived once.\<close>

theorem append_passed_sound:
  assumes "captureAppendBaseline dg records fanIn p tm old after = Inr (Some b)"
    and "validateAppend dg records' fanIn' p b vt = Inr (Some res)" and "tr_Status res = ''passed''"
    and "collision_free dg (set (map (\<lambda>row. canonical_row dg row (SourceColumns p) (TargetColumns p)) old) \<union>
      set (source_rows dg (SourceColumns p) vt) \<union> set (target_rows dg (SourceColumns p) (TargetColumns p) vt))"
  shows "mset (target_rows dg (SourceColumns p) (TargetColumns p) vt) =
    mset (map (\<lambda>row. canonical_row dg row (SourceColumns p) (TargetColumns p)) old) +
    mset (source_rows dg (SourceColumns p) vt)"
proof -
  let ?old = "map (\<lambda>row. canonical_row dg row (SourceColumns p) (TargetColumns p)) old"
  let ?src = "source_rows dg (SourceColumns p) vt"
  let ?dst = "target_rows dg (SourceColumns p) (TargetColumns p) vt"
  obtain rs0 where b: "scan_records dg old (SourceColumns p) (TargetColumns p) [] = Inr rs0" "bl_file b = sort rs0"
    using captureAppendBaseline_Some [OF assms(1)] by blast
  obtain rs1 rs2 expected where v:
    "scan_records dg (vt_source_rows vt) (SourceColumns p) (SourceColumns p) [] = Inr rs1"
    "scan_records dg (vt_target_rows vt) (SourceColumns p) (TargetColumns p) [] = Inr rs2"
    "sorted expected" "mset expected = mset rs0 + mset rs1"
    "cs_missing (compareFiles (dg_sha256 dg) expected (sort rs2) False) = 0"
    "cs_extra (compareFiles (dg_sha256 dg) expected (sort rs2) False) = 0"
    using validateAppend_Some [OF assms(2)] assms(3) b(2) by (auto split: if_splits)
  have rows: "map rec_row rs0 = map (row_hash dg) ?old" "map rec_row rs1 = map (row_hash dg) ?src"
      "map rec_row rs2 = map (row_hash dg) ?dst"
    and keyed: "list_all self_keyed rs0" "list_all self_keyed rs1" "list_all self_keyed rs2"
    using scan_records_rows [OF b(1)] scan_records_rows [OF v(1)] scan_records_rows [OF v(2)]
    by (simp_all add: source_rows_def target_rows_def comp_def)
  have "set expected = set rs0 \<union> set rs1" using v(4) by (metis set_mset_mset set_mset_union)
  then have k: "list_all self_keyed expected" "list_all self_keyed (sort rs2)" using keyed by (auto simp: list_all_iff)
  have "cs_total (compareFiles (dg_sha256 dg) expected (sort rs2) False) = 0"
    using nokey_equal [OF v(3) _ k, of "dg_sha256 dg"] v(5,6) by (simp add: cs_total_def)
  then have "mset rs2 = mset rs0 + mset rs1"
    using nokey_total [OF v(3) _ k, of "dg_sha256 dg"] v(4) by simp
  then have "mset (map rec_row rs2) = mset (map rec_row rs0) + mset (map rec_row rs1)" by (simp only: mset_map image_mset_union)
  then have "image_mset (row_hash dg) (mset ?dst) = image_mset (row_hash dg) (mset ?old + mset ?src)"
    unfolding rows by (simp only: mset_map image_mset_union)
  moreover have "inj_on (row_hash dg) (set_mset (mset ?dst) \<union> set_mset (mset ?old + mset ?src))"
    using assms(4) by (simp add: collision_free_def Un_ac)
  ultimately show ?thesis by (intro image_mset_inj [of "row_hash dg"])
qed

theorem append_passed_sound_witness:
  "mset (target_rows sample_digests (SourceColumns sample_plan) (TargetColumns sample_plan) sample_tables) =
    mset (map (\<lambda>row. canonical_row sample_digests row (SourceColumns sample_plan) (TargetColumns sample_plan)) [[None]]) +
    mset (source_rows sample_digests (SourceColumns sample_plan) (sample_tables\<lparr>vt_source_rows := [[Some ''1''], [Some ''2'']]\<rparr>))"
proof -
  let ?vt = "sample_tables\<lparr>vt_source_rows := [[Some ''1''], [Some ''2'']]\<rparr>"
  let ?t = "\<lparr>tbl_Columns = [sample_column], tbl_PrimaryKey = []\<rparr>"
  have "mset (target_rows sample_digests (SourceColumns sample_plan) (TargetColumns sample_plan) ?vt) =
    mset (map (\<lambda>row. canonical_row sample_digests row (SourceColumns sample_plan) (TargetColumns sample_plan)) [[None]]) +
    mset (source_rows sample_digests (SourceColumns sample_plan) ?vt)"
  proof (rule append_passed_sound)
    show "captureAppendBaseline sample_digests 2 2 sample_plan ?t [[None]] ?t = Inr (Some
        \<lparr>bl_rows = 1, bl_file = [Rec (content_tag @ ''N'') (content_tag @ ''N'')], bl_plan = sample_plan, bl_metadata = ?t, bl_closed = False\<rparr>)"
      by code_simp
    show "validateAppend sample_digests 2 2 sample_plan
        \<lparr>bl_rows = 1, bl_file = [Rec (content_tag @ ''N'') (content_tag @ ''N'')], bl_plan = sample_plan, bl_metadata = ?t, bl_closed = False\<rparr> ?vt =
      Inr (Some \<lparr>tr_Status = ''passed'', tr_SourceRows = 2, tr_TargetRows = 2, tr_MissingRows = 0, tr_ExtraRows = 0,
        tr_ChangedRows = 0, tr_DuplicateKeys = 0, tr_Samples = []\<rparr>)"
      by code_simp
  qed (simp_all add: collision_free_def source_rows_def target_rows_def row_hash_def inj_on_def sample_defs Let_def)
  then show ?thesis by (simp add: target_rows_def)
qed

text \<open>A report is clean exactly when every table passed, and its status is otherwise that of the first
  table that did not.\<close>

theorem report_status:
  "(HasFailures (Finalize r) \<longleftrightarrow> (\<exists>t\<in>set (rp_Tables r). tr_Status t \<noteq> ''passed'')) \<and>
   (rp_Status (Finalize r) = ''passed'' \<longleftrightarrow> \<not> HasFailures (Finalize r))"
proof (cases "List.find (\<lambda>t. tr_Status t \<noteq> ''passed'') (rp_Tables r)")
  case None
  then have "\<forall>t\<in>set (rp_Tables r). tr_Status t = ''passed''" by (auto simp: find_None_iff)
  with None show ?thesis by (simp add: HasFailures_def Finalize_def list_ex_iff)
next
  case (Some t)
  then have "t \<in> set (rp_Tables r)" "tr_Status t \<noteq> ''passed''" by (auto simp: find_Some_iff)
  with Some show ?thesis by (auto simp: HasFailures_def Finalize_def list_ex_iff)
qed

end
