(* ===== verification/TypeColumns.thy ===== *)
theory TypeColumns
  imports GoPrelude
begin

text \<open>
  What the type mappings of \<^verbatim>\<open>datamigrate/typemap\<close> share: the column metadata of
  \<^verbatim>\<open>source/interface.go\<close>, type text with sizes, and the floating point rules of
  \<^verbatim>\<open>floating.go\<close>. Go's \<open>int64\<close> fields are integers. Fields that only name the column,
  order it or carry its default and comment are left out where no mapping reads them. Letters are ASCII.
\<close>

section \<open>Columns\<close>

record IdentityInfo =
  id_Seed :: int
  id_Increment :: int

record ColumnInfo =
  ci_OracleMySQLAutoType :: string
  ci_PGMySQLLongText :: bool
  ci_IdentityInfo :: "IdentityInfo option"
  ci_Name :: string
  ci_DataType :: string
  ci_Length :: int
  ci_DataLength :: int
  ci_CharUsed :: string
  ci_Precision :: int
  ci_Scale :: int
  ci_IsNullable :: bool
  ci_Extra :: string
  ci_TypeKind :: string
  ci_TypeSchema :: string
  ci_FormattedType :: string
  ci_DateTimePrecision :: int
  ci_Identity :: string
  ci_Generated :: string
  ci_DamengFloatStorage :: string

text \<open>The zero value of Go's struct, for concrete columns.\<close>

definition zero_column :: ColumnInfo where
  "zero_column = \<lparr>ci_OracleMySQLAutoType = [], ci_PGMySQLLongText = False, ci_IdentityInfo = None, ci_Name = [],
     ci_DataType = [], ci_Length = 0, ci_DataLength = 0, ci_CharUsed = [], ci_Precision = 0, ci_Scale = 0, ci_IsNullable = False, ci_Extra = [],
     ci_TypeKind = [], ci_TypeSchema = [], ci_FormattedType = [], ci_DateTimePrecision = 0, ci_Identity = [],
     ci_Generated = [], ci_DamengFloatStorage = []\<rparr>"

section \<open>Type text\<close>

text \<open>\<open>fmt.Sprintf\<close> with one and two sizes: \<open>name(n)\<close>, \<open>name(n unit)\<close> and \<open>name(n,m)\<close>.\<close>

definition sized_type :: "string \<Rightarrow> int \<Rightarrow> string" where
  "sized_type name n = name @ ''('' @ itoa n @ '')''"

definition unit_type :: "string \<Rightarrow> int \<Rightarrow> string \<Rightarrow> string" where
  "unit_type name n unit = name @ ''('' @ itoa n @ '' '' @ unit @ '')''"

definition scaled_type :: "string \<Rightarrow> int \<Rightarrow> int \<Rightarrow> string" where
  "scaled_type name n m = name @ ''('' @ itoa n @ '','' @ itoa m @ '')''"

definition lower_type :: "ColumnInfo \<Rightarrow> string" where
  "lower_type c = to_lower (trim_space (ci_DataType c))"

definition upper_type :: "ColumnInfo \<Rightarrow> string" where
  "upper_type c = to_upper (trim_space (ci_DataType c))"

text \<open>\<open>oscar.go\<close>: \<open>sized\<close> and \<open>decimalType\<close>.\<close>

definition sized :: "string \<Rightarrow> int \<Rightarrow> int \<Rightarrow> string" where
  "sized name n fallback = sized_type name (if n \<le> 0 then fallback else n)"

definition decimalType :: "ColumnInfo \<Rightarrow> string" where
  "decimalType c =
     (if ci_Precision c > 0 then scaled_type ''DECIMAL'' (ci_Precision c) (ci_Scale c) else ''DECIMAL'')"

text \<open>The character types of the PostgreSQL family: national characters win over character lengths.\<close>

definition pg_char :: "string \<Rightarrow> bool \<Rightarrow> bool \<Rightarrow> ColumnInfo \<Rightarrow> string" where
  "pg_char name charInLength useNvarchar2 c =
     (if useNvarchar2 then sized_type ''nvarchar2'' (ci_Length c)
      else if charInLength then unit_type name (ci_Length c) ''char''
      else sized_type name (ci_Length c))"

section \<open>Limits of MySQL\<close>

definition mysqlVarcharMaxChars :: int where "mysqlVarcharMaxChars = 16000"
definition mysqlCharMaxChars :: int where "mysqlCharMaxChars = 255"

definition at_least_one :: "int \<Rightarrow> int" where "at_least_one n = (if n \<le> 0 then 1 else n)"

definition mysql_char :: "ColumnInfo \<Rightarrow> string" where
  "mysql_char c =
     (let n = at_least_one (ci_Length c) in
      if n > mysqlCharMaxChars then sized_type ''varchar'' n else sized_type ''char'' n)"

definition mysql_varchar :: "ColumnInfo \<Rightarrow> string" where
  "mysql_varchar c =
     (let n = at_least_one (ci_Length c) in
      if n > mysqlVarcharMaxChars then ''text'' else sized_type ''varchar'' n)"

section \<open>Floating point\<close>

definition singlePrecisionFloat :: "int \<Rightarrow> bool" where
  "singlePrecisionFloat precision \<longleftrightarrow> precision > 0 \<and> precision \<le> 24"

definition damengBinaryFloatType :: "ColumnInfo \<Rightarrow> string \<Rightarrow> string \<Rightarrow> string option" where
  "damengBinaryFloatType c realType doubleType =
     (if ci_DamengFloatStorage c = ''real'' then Some realType
      else if ci_DamengFloatStorage c = ''double'' then Some doubleType
      else None)"

text \<open>
  The declaration \<open>COLUMN_TYPE\<close> of a MySQL floating point column, \<open>mysqlFloatDeclaration\<close>: a keyword, an
  optional size \<open>(m)\<close> or \<open>(m,d)\<close>, then modifiers. Every choice of the regular expression is decided by the next
  character, so a deterministic reader gives its first match.
\<close>

definition read_word :: "string \<Rightarrow> string \<Rightarrow> string option" where
  "read_word w s = (if has_prefix (to_lower s) w then Some (drop (length w) s) else None)"

definition skip_spaces :: "string \<Rightarrow> string" where "skip_spaces s = dropWhile is_re_space s"

definition read_keyword :: "string \<Rightarrow> (string \<times> string) option" where
  "read_keyword s =
     (case read_word ''float'' s of
        Some r \<Rightarrow> Some (''float'', r)
      | None \<Rightarrow>
          case read_word ''double'' s of
            Some r \<Rightarrow>
              (if r \<noteq> [] \<and> is_re_space (hd r)
               then (case read_word ''precision'' (skip_spaces r) of
                       Some r' \<Rightarrow> Some (''double precision'', r') | None \<Rightarrow> Some (''double'', r))
               else Some (''double'', r))
          | None \<Rightarrow> map_option (\<lambda>r. (''real'', r)) (read_word ''real'' s))"

text \<open>The optional sizes: the texts of the two numbers (\<open>[]\<close>: absent).\<close>

definition read_sizes :: "string \<Rightarrow> (string \<times> string \<times> string) option" where
  "read_sizes s =
     (case skip_spaces s of
        [] \<Rightarrow> Some ([], [], s)
      | c # cs \<Rightarrow>
          if c \<noteq> CHR ''('' then Some ([], [], s)
          else
            let s1 = skip_spaces cs; m = takeWhile is_digit s1; s2 = skip_spaces (dropWhile is_digit s1) in
            if m = [] \<or> s2 = [] then None
            else if hd s2 = CHR '')'' then Some (m, [], tl s2)
            else if hd s2 = CHR '','' then
              let s3 = skip_spaces (tl s2); d = takeWhile is_digit s3; s4 = skip_spaces (dropWhile is_digit s3) in
              if d = [] \<or> s4 = [] \<or> hd s4 \<noteq> CHR '')'' then None else Some (m, d, tl s4)
            else None)"

text \<open>The modifiers must be separated by white space and fill the rest.\<close>

definition read_modifiers :: "string \<Rightarrow> string list option" where
  "read_modifiers s =
     (let ws = str_fields (to_lower s) in
      if (s = [] \<or> is_re_space (hd s)) \<and> list_all (\<lambda>c. is_space c \<longrightarrow> is_re_space c) s \<and>
         list_all (\<lambda>w. w \<in> {''unsigned'', ''zerofill''}) ws
      then Some ws else None)"

definition mysqlFloatDeclaration :: "string \<Rightarrow> (string \<times> string \<times> string \<times> string list) option" where
  "mysqlFloatDeclaration s =
     Option.bind (read_keyword (skip_spaces s)) (\<lambda>(kw, s1).
     Option.bind (read_sizes s1) (\<lambda>(m, d, s2).
     map_option (\<lambda>ws. (kw, m, d, ws)) (read_modifiers s2)))"

fun add_modifiers :: "string list \<Rightarrow> string list \<Rightarrow> string \<Rightarrow> string \<Rightarrow> string" where
  "add_modifiers seen [] base result = result"
| "add_modifiers seen (w # ws) base result =
     (if w \<in> set seen then base else add_modifiers (w # seen) ws base (result @ '' '' @ w))"

text \<open>The size kept from the declaration: \<open>None\<close> falls back to the bare type.\<close>

definition float_size :: "string \<Rightarrow> string \<Rightarrow> string \<Rightarrow> string \<Rightarrow> string option" where
  "float_size base declared m d =
     (if m = [] then Some base
      else (case parse_int 64 m of
              None \<Rightarrow> None
            | Some precision \<Rightarrow>
                if d \<noteq> [] then
                  (case parse_int 64 d of
                     None \<Rightarrow> None
                   | Some scale \<Rightarrow>
                       if precision < 1 \<or> precision > 255 \<or> scale > 30 \<or> scale > precision then None
                       else Some (scaled_type base precision scale))
                else if declared \<noteq> ''float'' \<or> precision > 53 \<or> (precision \<le> 24) \<noteq> (base = ''float'') then None
                else Some base))"

definition mysqlFloatingDeclaration :: "ColumnInfo \<Rightarrow> string" where
  "mysqlFloatingDeclaration c =
     (let base = (if equal_fold (trim_space (ci_DataType c)) ''float'' then ''float'' else ''double'') in
      case mysqlFloatDeclaration (ci_FormattedType c) of
        None \<Rightarrow> base
      | Some (declared, m, d, ws) \<Rightarrow>
          if (declared = ''float'' \<and> base \<noteq> ''float'' \<and> (m = [] \<or> d \<noteq> [])) \<or>
             (has_prefix declared ''double'' \<and> base \<noteq> ''double'') then base
          else (case float_size base declared m d of
                  None \<Rightarrow> base
                | Some result \<Rightarrow> add_modifiers [] ws base result))"

text \<open>\<open>mysqlNativeBitType\<close>: the digits of \<open>bit(n)\<close>.\<close>

definition mysqlNativeBitType :: "string \<Rightarrow> string option" where
  "mysqlNativeBitType s =
     (case read_word ''bit('' s of
        None \<Rightarrow> None
      | Some r \<Rightarrow>
          let ds = takeWhile is_digit r in
          if ds \<noteq> [] \<and> dropWhile is_digit r = '')'' then Some ds else None)"

section \<open>Case trees\<close>

text \<open>
  A mapping is a tree of tests on the name of the type and on its sizes. To show that every text it returns satisfies a
  predicate, the tests on names are dropped and the tests on numbers are kept.
\<close>

definition every :: "(string \<Rightarrow> bool) \<Rightarrow> 'e + string \<Rightarrow> bool" where
  "every P r = (case r of Inl _ \<Rightarrow> True | Inr t \<Rightarrow> P t)"

lemma every_simps [simp]: "every P (Inl e)" "every P (Inr t) = P t"
  by (simp_all add: every_def)

lemma every_leaf: "every P (Inl e)" "P t \<Longrightarrow> every P (Inr t)"
  by simp_all

lemma everyD: "every P r \<Longrightarrow> r = Inr t \<Longrightarrow> P t"
  by simp

lemma every_name:
  fixes dt :: string
  shows "every P x \<Longrightarrow> every P y \<Longrightarrow> every P (if dt \<in> S then x else y)"
    "every P x \<Longrightarrow> every P y \<Longrightarrow> every P (if dt = w then x else y)"
    "every P (Inr u) \<Longrightarrow> every P (Inr v) \<Longrightarrow> every P (Inr (if dt \<in> S then u else v))"
    "every P (Inr u) \<Longrightarrow> every P (Inr v) \<Longrightarrow> every P (Inr (if dt = w then u else v))"
  by simp_all

lemma every_known:
  fixes dt :: string
  shows "(dt \<in> S \<Longrightarrow> every P (Inr u)) \<Longrightarrow> every P (Inr v) \<Longrightarrow> every P (Inr (if dt \<in> S then u else v))"
    "(dt = w \<Longrightarrow> every P (Inr u)) \<Longrightarrow> every P (Inr v) \<Longrightarrow> every P (Inr (if dt = w then u else v))"
  by simp_all

lemma both_empty_if:
  "(u = []) = (u' = []) \<Longrightarrow> (v = []) = (v' = []) \<Longrightarrow> ((if b then u else v) = []) = ((if b then u' else v') = [])"
  by simp

lemma every_test:
  "(b \<Longrightarrow> every P x) \<Longrightarrow> (\<not> b \<Longrightarrow> every P y) \<Longrightarrow> every P (if b then x else y)"
  "(b \<Longrightarrow> every P (Inr u)) \<Longrightarrow> (\<not> b \<Longrightarrow> every P (Inr v)) \<Longrightarrow> every P (Inr (if b then u else v))"
  by simp_all

end
