(* ===== verification/TypeFromMysql.thy ===== *)
theory TypeFromMysql
  imports Complex_Main TypeColumns
begin

text \<open>
  The type mappings of MySQL columns: \<^verbatim>\<open>typemap/mysql_pg.go\<close>, \<^verbatim>\<open>mysql_oracle.go\<close>,
  \<^verbatim>\<open>mysql_sqlserver.go\<close>, \<^verbatim>\<open>mysql_mysql.go\<close>, \<^verbatim>\<open>mysql_dameng.go\<close> and the MySQL part of
  \<^verbatim>\<open>oscar.go\<close>. The checked mappings return an error where Go does; its text is left out.
\<close>

section \<open>The mappings\<close>

definition MySQLToPG :: "ColumnInfo \<Rightarrow> bool \<Rightarrow> bool \<Rightarrow> string" where
  "MySQLToPG col charInLength useNvarchar2 =
     (let dt = lower_type col in
      if dt \<in> {''tinyint'', ''smallint'', ''mediumint'', ''int''} then ''int''
      else if dt = ''bigint'' then ''bigint''
      else if dt = ''float'' then ''real''
      else if dt \<in> {''double'', ''double precision'', ''real''} then ''double precision''
      else if dt \<in> {''decimal'', ''numeric''} then
        (if ci_Precision col > 0 then scaled_type ''decimal'' (ci_Precision col) (ci_Scale col) else ''decimal'')
      else if dt = ''char'' then pg_char ''char'' charInLength useNvarchar2 col
      else if dt = ''varchar'' then pg_char ''varchar'' charInLength useNvarchar2 col
      else if dt \<in> {''tinytext'', ''text'', ''mediumtext'', ''longtext''} then ''text''
      else if dt \<in> {''datetime'', ''timestamp''} then ''timestamp without time zone''
      else if dt = ''date'' then ''date''
      else if dt = ''time'' then ''time''
      else if dt \<in> {''tinyblob'', ''blob'', ''mediumblob'', ''longblob'', ''binary'', ''varbinary''} then ''bytea''
      else if dt = ''json'' then ''jsonb''
      else if dt = ''enum'' then ''varchar(255)''
      else if dt = ''set'' then ''text''
      else if dt = ''year'' then ''int''
      else if dt = ''bit'' then ''bit''
      else dt)"

datatype type_error =
    MissingLength
  | BitsOutOfRange
  | DecimalOutOfRange
  | TimePrecisionInvalid
  | LengthOutOfRange
  | UnsupportedType
  | UserDefinedType
  | GeneratedColumn
  | IdentityInvalid

text \<open>
  The decimal digits of an unsigned number of \<open>b\<close> bits: Go's \<open>math.Ceil(b * math.Log10(2))\<close> for \<open>1 \<le> b \<le> 64\<close>,
  where the floating point product is never close to an integer; \<open>bit_digits_log\<close> below is the equation over the reals.
\<close>

definition bit_digits :: "int \<Rightarrow> int" where
  "bit_digits b = int (length (nat_digits (2 ^ nat b - 1)))"

definition oracle_integer :: "int \<Rightarrow> type_error + string" where
  "oracle_integer p = Inr (scaled_type ''NUMBER'' p 0)"

definition oracle_text :: "ColumnInfo \<Rightarrow> bool \<Rightarrow> int \<Rightarrow> int \<Rightarrow> bool \<Rightarrow> type_error + string" where
  "oracle_text c national charBytes ncharBytes fixed =
     (if ci_Length c \<le> 0 then Inl MissingLength
      else
        let width = (if national then max ncharBytes 1 else max charBytes 1);
            limit = (if national then 4000 else if fixed then 2000 else 4000);
            name = (if national then ''NVARCHAR2'' else if fixed then ''CHAR'' else ''VARCHAR2'')
        in if ci_Length c > limit div width then Inr (if national then ''NCLOB'' else ''CLOB'')
           else if national then Inr (sized_type name (ci_Length c))
           else Inr (unit_type name (ci_Length c) ''CHAR''))"

definition OracleType :: "ColumnInfo \<Rightarrow> bool \<Rightarrow> int \<Rightarrow> int \<Rightarrow> type_error + string" where
  "OracleType c national charBytes ncharBytes =
     (let dt = lower_type c in
      if dt = ''tinyint'' then oracle_integer 3
      else if dt = ''smallint'' then oracle_integer 5
      else if dt = ''mediumint'' then oracle_integer 8
      else if dt \<in> {''int'', ''integer''} then oracle_integer 10
      else if dt = ''bigint'' then oracle_integer 20
      else if dt \<in> {''bool'', ''boolean''} then oracle_integer 1
      else if dt = ''bit'' then
        let bits = at_least_one (ci_Precision c) in
        if bits > 64 then Inl BitsOutOfRange else oracle_integer (bit_digits bits)
      else if dt \<in> {''decimal'', ''numeric''} then
        if ci_Precision c < 1 \<or> ci_Precision c > 38 \<or> ci_Scale c < 0 \<or> ci_Scale c > ci_Precision c
        then Inl DecimalOutOfRange
        else Inr (scaled_type ''NUMBER'' (ci_Precision c) (ci_Scale c))
      else if dt = ''float'' then Inr ''BINARY_FLOAT''
      else if dt \<in> {''double'', ''double precision'', ''real''} then Inr ''BINARY_DOUBLE''
      else if dt = ''char'' then oracle_text c national charBytes ncharBytes True
      else if dt \<in> {''varchar'', ''enum'', ''set''} then oracle_text c national charBytes ncharBytes False
      else if dt \<in> {''tinytext'', ''text'', ''mediumtext'', ''longtext'', ''json''} then Inr ''CLOB''
      else if dt = ''date'' then Inr ''DATE''
      else if dt \<in> {''datetime'', ''timestamp''} then
        if ci_DateTimePrecision c < 0 \<or> ci_DateTimePrecision c > 6 then Inl TimePrecisionInvalid
        else Inr (sized_type ''TIMESTAMP'' (ci_DateTimePrecision c))
      else if dt = ''time'' then Inr ''VARCHAR2(32 CHAR)''
      else if dt = ''year'' then oracle_integer 4
      else if dt \<in> {''binary'', ''varbinary'', ''tinyblob'', ''blob'', ''mediumblob'', ''longblob'', ''geometry'',
          ''point'', ''linestring'', ''polygon'', ''multipoint'', ''multilinestring'', ''multipolygon'',
          ''geometrycollection''} then Inr ''BLOB''
      else Inl UnsupportedType)"

text \<open>The value and the error of Go's pair: the mapping without a check keeps the empty text of an error.\<close>

definition type_or_empty :: "type_error + string \<Rightarrow> string" where
  "type_or_empty r = (case r of Inl e \<Rightarrow> [] | Inr t \<Rightarrow> t)"

definition MySQLToOracle :: "ColumnInfo \<Rightarrow> bool \<Rightarrow> bool \<Rightarrow> string" where
  "MySQLToOracle c charInLength national = type_or_empty (OracleType c national 4 4)"

definition unsigned_type :: "ColumnInfo \<Rightarrow> bool" where
  "unsigned_type c = str_contains (to_lower (ci_FormattedType c)) ''unsigned''"

definition SQLServerType :: "ColumnInfo \<Rightarrow> type_error + string" where
  "SQLServerType c =
     (let dt = lower_type c; unsigned = unsigned_type c in
      if dt = ''tinyint'' then Inr (if unsigned then ''TINYINT'' else ''SMALLINT'')
      else if dt = ''smallint'' then Inr (if unsigned then ''INT'' else ''SMALLINT'')
      else if dt = ''mediumint'' then Inr ''INT''
      else if dt \<in> {''int'', ''integer''} then Inr (if unsigned then ''BIGINT'' else ''INT'')
      else if dt = ''bigint'' then Inr (if unsigned then ''DECIMAL(20,0)'' else ''BIGINT'')
      else if dt \<in> {''bool'', ''boolean''} then Inr ''SMALLINT''
      else if dt = ''year'' then Inr ''SMALLINT''
      else if dt = ''bit'' then
        if ci_Precision c \<le> 1 then Inr ''BIT''
        else if ci_Precision c \<le> 64 then Inr ''DECIMAL(20,0)''
        else Inl UnsupportedType
      else if dt \<in> {''decimal'', ''numeric''} then
        if ci_Precision c > 0 \<and> ci_Precision c \<le> 38 \<and> ci_Scale c \<ge> 0 \<and> ci_Scale c \<le> ci_Precision c
        then Inr (scaled_type ''DECIMAL'' (ci_Precision c) (ci_Scale c))
        else Inl UnsupportedType
      else if dt = ''float'' then Inr ''REAL''
      else if dt \<in> {''double'', ''double precision'', ''real''} then Inr ''FLOAT(53)''
      else if dt \<in> {''char'', ''varchar''} then
        if ci_Length c > 0 then
          if ci_Length c \<le> 2000 then Inr (sized_type ''NVARCHAR'' (ci_Length c * 2)) else Inr ''NVARCHAR(MAX)''
        else Inl UnsupportedType
      else if dt \<in> {''tinytext'', ''text'', ''mediumtext'', ''longtext''} then Inr ''NVARCHAR(MAX)''
      else if dt \<in> {''binary'', ''varbinary''} then
        if ci_Length c > 0 then
          if ci_Length c \<le> 8000 then Inr (sized_type ''VARBINARY'' (ci_Length c)) else Inr ''VARBINARY(MAX)''
        else Inl UnsupportedType
      else if dt \<in> {''tinyblob'', ''blob'', ''mediumblob'', ''longblob''} then Inr ''VARBINARY(MAX)''
      else if dt = ''date'' then Inr ''DATE''
      else if dt \<in> {''datetime'', ''timestamp'', ''time''} then
        if ci_DateTimePrecision c \<ge> 0 \<and> ci_DateTimePrecision c \<le> 6
        then Inr (sized_type (if equal_fold (ci_DataType c) ''time'' then ''TIME'' else ''DATETIME2'')
                (ci_DateTimePrecision c))
        else Inl UnsupportedType
      else Inl UnsupportedType)"

definition MySQLToSQLServer :: "ColumnInfo \<Rightarrow> bool \<Rightarrow> bool \<Rightarrow> string" where
  "MySQLToSQLServer c charInLength useNvarchar2 = type_or_empty (SQLServerType c)"

text \<open>The size of a bit column: the declaration, else the precision, else the length.\<close>

definition mysql_bit :: "ColumnInfo \<Rightarrow> string" where
  "mysql_bit col =
     (case Option.bind (mysqlNativeBitType (trim_space (ci_FormattedType col))) (parse_int 64) of
        Some n \<Rightarrow> if n \<ge> 1 \<and> n \<le> 64 then sized_type ''bit'' n
                  else if ci_Precision col \<ge> 1 \<and> ci_Precision col \<le> 64 then sized_type ''bit'' (ci_Precision col)
                  else if ci_Length col > 0 then sized_type ''bit'' (ci_Length col) else ''bit''
      | None \<Rightarrow> if ci_Precision col \<ge> 1 \<and> ci_Precision col \<le> 64 then sized_type ''bit'' (ci_Precision col)
                else if ci_Length col > 0 then sized_type ''bit'' (ci_Length col) else ''bit'')"

definition MySQLToMySQL :: "ColumnInfo \<Rightarrow> bool \<Rightarrow> bool \<Rightarrow> string" where
  "MySQLToMySQL col charInLength useNvarchar2 =
     (let dt = lower_type col in
      if dt \<in> {''tinyint'', ''smallint'', ''mediumint'', ''int'', ''integer'', ''bigint''} then
        (if dt = ''integer'' then ''int'' else dt)
      else if dt \<in> {''float'', ''double'', ''double precision'', ''real''} then mysqlFloatingDeclaration col
      else if dt \<in> {''decimal'', ''numeric''} then
        (if ci_Precision col > 0 then scaled_type ''decimal'' (ci_Precision col) (ci_Scale col) else ''decimal'')
      else if dt = ''char'' then mysql_char col
      else if dt = ''varchar'' then mysql_varchar col
      else if dt \<in> {''tinytext'', ''text'', ''mediumtext'', ''longtext''} then dt
      else if dt \<in> {''tinyblob'', ''blob'', ''mediumblob'', ''longblob''} then dt
      else if dt \<in> {''binary'', ''varbinary''} then sized_type dt (at_least_one (ci_Length col))
      else if dt = ''date'' then ''date''
      else if dt = ''time'' then ''time''
      else if dt \<in> {''datetime'', ''timestamp''} then ''datetime(6)''
      else if dt = ''year'' then ''int''
      else if dt = ''json'' then ''json''
      else if dt = ''bit'' then mysql_bit col
      else if dt \<in> {''enum'', ''set''} then ''varchar(255)''
      else if dt \<in> {''geometry'', ''point'', ''linestring'', ''polygon''} then ''longtext''
      else dt)"

text \<open>A number is limited to 38 digits: its integer digits are kept first, then as much of the scale as fits.\<close>

definition dameng_number :: "int \<Rightarrow> int \<Rightarrow> int \<times> int" where
  "dameng_number p s =
     (let integerDigits = i64 (p - s);
          precision = min p 38;
          availableScale = max 0 (i64 (precision - integerDigits))
      in (precision, min s availableScale))"

definition MySQLToDameng :: "ColumnInfo \<Rightarrow> bool \<Rightarrow> bool \<Rightarrow> string" where
  "MySQLToDameng col charInLength useNvarchar2 =
     (let dt = lower_type col; n = max (ci_Length col) 1 in
      if dt = ''tinyint'' then ''TINYINT''
      else if dt = ''smallint'' then ''SMALLINT''
      else if dt = ''mediumint'' then ''INT''
      else if dt \<in> {''int'', ''integer''} then ''INT''
      else if dt = ''bigint'' then ''BIGINT''
      else if dt \<in> {''decimal'', ''numeric''} then
        (if ci_Precision col > 0
         then let (precision, scale) = dameng_number (ci_Precision col) (ci_Scale col)
              in scaled_type ''NUMBER'' precision scale
         else ''NUMBER'')
      else if dt = ''float'' then ''REAL''
      else if dt \<in> {''double'', ''double precision'', ''real''} then ''DOUBLE''
      else if dt = ''char'' then
        (if useNvarchar2 then sized_type ''NVARCHAR2'' n
         else if charInLength then unit_type ''CHAR'' n ''CHAR'' else sized_type ''CHAR'' n)
      else if dt = ''varchar'' then
        (if useNvarchar2 then sized_type ''NVARCHAR2'' n
         else if charInLength then unit_type ''VARCHAR2'' n ''CHAR'' else sized_type ''VARCHAR2'' n)
      else if dt = ''tinytext'' then ''VARCHAR2(4000)''
      else if dt \<in> {''text'', ''mediumtext'', ''longtext''} then ''TEXT''
      else if dt = ''json'' then ''CLOB''
      else if dt = ''date'' then ''DATE''
      else if dt \<in> {''datetime'', ''timestamp''} then ''TIMESTAMP''
      else if dt = ''time'' then ''TIME''
      else if dt = ''year'' then ''NUMBER(4)''
      else if dt \<in> {''tinyblob'', ''blob'', ''mediumblob'', ''longblob'', ''binary'', ''varbinary''} then ''BLOB''
      else if dt = ''bit'' then ''NUMBER(1)''
      else if dt = ''enum'' then ''VARCHAR2(255)''
      else if dt = ''set'' then ''VARCHAR2(1024)''
      else to_upper dt)"

text \<open>The bits of a MySQL column for Oscar: the declaration wins over the precision, the length comes last.\<close>

definition oscar_bits :: "ColumnInfo \<Rightarrow> int" where
  "oscar_bits col =
     (let bits = (case Option.bind (mysqlNativeBitType (trim_space (ci_FormattedType col))) (parse_int 64) of
                    Some n \<Rightarrow> if n \<ge> 1 \<and> n \<le> 64 then n else ci_Precision col
                  | None \<Rightarrow> ci_Precision col)
      in if bits \<le> 0 then ci_Length col else bits)"

definition MySQLToOscar :: "ColumnInfo \<Rightarrow> bool \<Rightarrow> bool \<Rightarrow> string" where
  "MySQLToOscar col charInLength useNvarchar2 =
     (let dt = lower_type col in
      if dt \<in> {''tinyint'', ''smallint''} then ''SMALLINT''
      else if dt \<in> {''mediumint'', ''int'', ''integer'', ''year''} then ''INTEGER''
      else if dt = ''bigint'' then ''BIGINT''
      else if dt \<in> {''decimal'', ''numeric''} then decimalType col
      else if dt = ''float'' then ''REAL''
      else if dt \<in> {''double'', ''double precision'', ''real''} then ''DOUBLE PRECISION''
      else if dt = ''char'' then
        (if useNvarchar2 then sized ''NVARCHAR2'' (ci_Length col) 1 else sized ''CHAR'' (ci_Length col) 1)
      else if dt \<in> {''varchar'', ''enum''} then
        (if ci_Length col > 8000 then ''CLOB''
         else if useNvarchar2 then sized ''NVARCHAR2'' (ci_Length col) 255 else sized ''VARCHAR'' (ci_Length col) 255)
      else if dt \<in> {''tinytext'', ''text'', ''mediumtext'', ''longtext'', ''json'', ''xml'', ''set'', ''geometry''}
      then ''CLOB''
      else if dt \<in> {''tinyblob'', ''blob'', ''mediumblob'', ''longblob''} then ''BLOB''
      else if dt \<in> {''binary'', ''varbinary''} then
        (if ci_Length col > 0 then sized ''VARBINARY'' (ci_Length col) 255 else ''BLOB'')
      else if dt = ''bit'' then (if oscar_bits col = 64 then ''DECIMAL(20,0)'' else ''BIGINT'')
      else if dt \<in> {''boolean'', ''bool''} then ''BOOLEAN''
      else if dt = ''date'' then ''DATE''
      else if dt = ''time'' then ''TIME''
      else if dt \<in> {''datetime'', ''timestamp''} then ''TIMESTAMP''
      else to_upper dt)"

section \<open>Integer columns\<close>

text \<open>The values of a MySQL integer column; \<open>None\<close> for the other types. A boolean holds the two truth values.\<close>

definition mysql_integers :: "ColumnInfo \<Rightarrow> (int \<times> int) option" where
  "mysql_integers c =
     (let dt = lower_type c; unsigned = unsigned_type c; range = (\<lambda>bits.
            if unsigned then Some (0, 2 ^ bits - 1) else Some (- (2 ^ (bits - 1)), 2 ^ (bits - 1) - 1)) in
      if dt = ''tinyint'' then range (8 :: nat)
      else if dt = ''smallint'' then range 16
      else if dt = ''mediumint'' then range 24
      else if dt \<in> {''int'', ''integer''} then range 32
      else if dt = ''bigint'' then range 64
      else if dt \<in> {''bool'', ''boolean''} then Some (0, 1)
      else if dt = ''year'' then Some (0, 2155)
      else if dt = ''bit'' \<and> ci_Precision c \<le> 64 then Some (0, 2 ^ nat (at_least_one (ci_Precision c)) - 1)
      else None)"

lemma mysql_integers_cases:
  assumes "mysql_integers c = Some r"
  obtains "lower_type c = ''tinyint''" | "lower_type c = ''smallint''" | "lower_type c = ''mediumint''"
    | "lower_type c = ''int''" | "lower_type c = ''integer''" | "lower_type c = ''bigint''"
    | "lower_type c = ''bool''" | "lower_type c = ''boolean''" | "lower_type c = ''year''"
    | "lower_type c = ''bit''" "ci_Precision c \<le> 64"
  using assms unfolding mysql_integers_def Let_def
  by (auto split: if_splits)

definition sqlserver_integers :: "string \<Rightarrow> (int \<times> int) option" where
  "sqlserver_integers t =
     (if t = ''BIT'' then Some (0, 1)
      else if t = ''TINYINT'' then Some (0, 255)
      else if t = ''SMALLINT'' then Some (- (2 ^ 15), 2 ^ 15 - 1)
      else if t = ''INT'' then Some (- (2 ^ 31), 2 ^ 31 - 1)
      else if t = ''BIGINT'' then Some (- (2 ^ 63), 2 ^ 63 - 1)
      else if t = ''DECIMAL(20,0)'' then Some (- (10 ^ 20 - 1), 10 ^ 20 - 1)
      else None)"

text \<open>The length of a decimal numeral bounds its value.\<close>

lemma nat_digits_length: "n < 10 ^ length (nat_digits n) \<and> (0 < n \<longrightarrow> 10 ^ (length (nat_digits n) - 1) \<le> n)"
proof (induction n rule: nat_digits.induct)
  case (1 n)
  show ?case
  proof (cases "n < 10")
    case True
    then show ?thesis by (simp add: nat_digits.simps)
  next
    case False
    let ?k = "length (nat_digits (n div 10))"
    have len: "length (nat_digits n) = Suc ?k" using False by (subst nat_digits.simps) simp
    have IH: "n div 10 < 10 ^ ?k" "10 ^ (?k - 1) \<le> n div 10" using 1 False by auto
    have k: "0 < ?k" by (subst nat_digits.simps) simp
    have "n < 10 * 10 ^ ?k" using IH(1) by (simp add: div_less_iff_less_mult mult.commute)
    moreover have "10 * 10 ^ (?k - 1) \<le> n" using IH(2) by (simp add: less_eq_div_iff_mult_less_eq mult.commute)
    moreover have "10 * 10 ^ (?k - 1) = (10 :: nat) ^ ?k" using k by (cases ?k) simp_all
    ultimately show ?thesis using len by simp
  qed
qed

lemma nat_digits_short:
  assumes "0 < n" "n < 10 ^ m"
  shows "length (nat_digits n) \<le> m"
proof (rule ccontr)
  assume "\<not> length (nat_digits n) \<le> m"
  then have "(10 :: nat) ^ m \<le> 10 ^ (length (nat_digits n) - 1)" by (intro power_increasing) auto
  then show False using nat_digits_length [of n] assms by linarith
qed

lemma bit_digits_range:
  assumes "1 \<le> b" "b \<le> 64"
  shows "1 \<le> bit_digits b" "bit_digits b \<le> 20"
proof -
  have "(2 :: nat) ^ 1 \<le> 2 ^ nat b" "(2 :: nat) ^ nat b \<le> 2 ^ 64"
    using assms by (intro power_increasing; simp)+
  then have n: "0 < 2 ^ nat b - (1 :: nat)" "2 ^ nat b - 1 < (10 :: nat) ^ 20" by simp_all
  show "bit_digits b \<le> 20" using nat_digits_short [OF n] by (simp add: bit_digits_def)
  have "nat_digits (2 ^ nat b - 1) \<noteq> []" by (subst nat_digits.simps) simp
  then show "1 \<le> bit_digits b" by (simp add: bit_digits_def Suc_le_eq)
qed

lemma bit_digits_bound: "1 \<le> b \<Longrightarrow> 2 ^ nat b - 1 < (10 :: int) ^ nat (bit_digits b)"
proof -
  let ?n = "2 ^ nat b - 1 :: nat"
  have "int ?n < int (10 ^ length (nat_digits ?n))" using nat_digits_length [of ?n] by (simp only: of_nat_less_iff)
  then show ?thesis by (simp add: bit_digits_def of_nat_diff)
qed

text \<open>The definition agrees with the logarithm of the source.\<close>

lemma bit_digits_log:
  assumes "1 \<le> b"
  shows "bit_digits b = \<lceil>real_of_int b * log 10 2\<rceil>"
proof -
  define n where "n = (2 ^ nat b - 1 :: nat)"
  define k where "k = length (nat_digits n)"
  have two: "(2 :: nat) ^ 1 \<le> 2 ^ nat b" using assms by (intro power_increasing) simp_all
  then have n: "0 < n" "n + 1 = 2 ^ nat b" by (auto simp: n_def)
  have b: "n < 10 ^ k" "10 ^ (k - 1) \<le> n" using nat_digits_length [of n] n(1) by (auto simp: k_def)
  have k: "0 < k" using b(1) n(1) by (cases k) auto
  have pw: "real (2 ^ nat b) = 2 powr real_of_int b" using assms by (simp add: powr_real_of_int)
  have "2 ^ nat b \<le> (10 :: nat) ^ k" using b(1) n(2) by linarith
  then have "real (2 ^ nat b) \<le> real (10 ^ k)" by (simp only: of_nat_le_iff)
  then have "2 powr real_of_int b \<le> 10 powr real k" by (simp add: pw [symmetric] powr_realpow)
  then have "log 10 (2 powr real_of_int b) \<le> real k"
    by (subst log_le_iff) simp_all
  then have up: "real_of_int b * log 10 2 \<le> real k" by (simp add: log_powr)
  have "(10 :: nat) ^ (k - 1) < 2 ^ nat b" using b(2) n(2) by linarith
  then have "real (10 ^ (k - 1)) < real (2 ^ nat b)" by (simp only: of_nat_less_iff)
  then have "10 powr real (k - 1) < 2 powr real_of_int b" by (simp add: pw [symmetric] powr_realpow)
  then have "real (k - 1) < log 10 (2 powr real_of_int b)"
    by (subst less_log_iff) simp_all
  then have low: "real k - 1 < real_of_int b * log 10 2" using k by (simp add: log_powr of_nat_diff)
  have "\<lceil>real_of_int b * log 10 2\<rceil> = int k" using up low by (intro ceiling_unique) simp_all
  then show ?thesis by (simp add: bit_digits_def n_def k_def)
qed

section \<open>Properties\<close>

text \<open>SQL Server columns created for MySQL integers hold every value of the source column: whatever the type, its
  sign and the number of bits.\<close>

theorem sqlserver_integers_fit:
  assumes "mysql_integers c = Some (lo, hi)"
  shows "\<exists>t a b. SQLServerType c = Inr t \<and> sqlserver_integers t = Some (a, b) \<and> a \<le> lo \<and> hi \<le> b"
  using assms
proof (cases rule: mysql_integers_cases)
  case 10
  then have r: "lo = 0" "hi = 2 ^ nat (at_least_one (ci_Precision c)) - 1" using assms by (simp_all add: mysql_integers_def)
  show ?thesis
  proof (cases "ci_Precision c \<le> 1")
    case True
    then have "at_least_one (ci_Precision c) = 1" by (simp add: at_least_one_def)
    then show ?thesis using 10 r True by (simp add: SQLServerType_def sqlserver_integers_def)
  next
    case False
    then have "(2 :: int) ^ nat (at_least_one (ci_Precision c)) \<le> 2 ^ 64"
      using 10(2) by (intro power_increasing) (auto simp: at_least_one_def)
    then show ?thesis using 10 r False by (simp add: SQLServerType_def sqlserver_integers_def)
  qed
qed (use assms in \<open>auto simp: mysql_integers_def SQLServerType_def sqlserver_integers_def Let_def split: if_splits\<close>)

theorem sqlserver_integers_fit_witness:
  "\<exists>t a b. SQLServerType (zero_column\<lparr>ci_DataType := '' BigInt'', ci_FormattedType := ''bigint(20) UNSIGNED''\<rparr>) = Inr t \<and>
     sqlserver_integers t = Some (a, b) \<and> a \<le> 0 \<and> 2 ^ 64 - 1 \<le> b"
  by (rule sqlserver_integers_fit) code_simp

text \<open>Oracle columns created for MySQL integers hold every value of the source column: the mapping never fails for
  them and the digits of the NUMBER suffice.\<close>

theorem oracle_integers_fit:
  assumes "mysql_integers c = Some (lo, hi)" and "lo \<le> v" and "v \<le> hi"
  shows "\<exists>p. OracleType c national charBytes ncharBytes = Inr (scaled_type ''NUMBER'' p 0) \<and> 1 \<le> p \<and> p \<le> 38 \<and>
    \<bar>v\<bar> < 10 ^ nat p"
  using assms(1)
proof (cases rule: mysql_integers_cases)
  case 10
  let ?b = "at_least_one (ci_Precision c)"
  have b: "1 \<le> ?b" "?b \<le> 64" using 10(2) by (auto simp: at_least_one_def)
  have v: "0 \<le> v" "v \<le> 2 ^ nat ?b - 1" using assms 10 by (simp_all add: mysql_integers_def)
  have "v < 10 ^ nat (bit_digits ?b)" using bit_digits_bound [OF b(1)] v(2) by linarith
  moreover have "1 \<le> bit_digits ?b" "bit_digits ?b \<le> 38" using bit_digits_range [OF b] by simp_all
  ultimately show ?thesis using 10(1) b v(1) by (auto simp: OracleType_def oracle_integer_def Let_def)
qed (use assms(2,3) assms(1) in \<open>auto simp: mysql_integers_def OracleType_def oracle_integer_def Let_def split: if_splits\<close>)

theorem oracle_integers_fit_witness:
  "\<exists>p. OracleType (zero_column\<lparr>ci_DataType := ''bit'', ci_Precision := 64\<rparr>) False 4 4 = Inr (scaled_type ''NUMBER'' p 0) \<and>
     1 \<le> p \<and> p \<le> 38 \<and> \<bar>2 ^ 64 - 1 :: int\<bar> < 10 ^ nat p"
  by (rule oracle_integers_fit [of _ 0 "2 ^ 64 - 1"]) code_simp+

text \<open>A MySQL decimal of any size becomes a DaMeng number of at most 38 digits that keeps the integer digits of the
  source (all of them up to 38), gives up scale only beyond 38 digits, and no more of it than needed.\<close>

theorem dameng_decimal_keeps_integers:
  assumes "lower_type c \<in> {''decimal'', ''numeric''}" and "0 < ci_Precision c" and "in_i64 (ci_Precision c)"
    and "0 \<le> ci_Scale c" and "ci_Scale c \<le> ci_Precision c"
  shows "\<exists>P S. MySQLToDameng c charInLength useNvarchar2 = scaled_type ''NUMBER'' P S \<and> P = min (ci_Precision c) 38 \<and>
    0 \<le> S \<and> S \<le> ci_Scale c \<and> min (ci_Precision c - ci_Scale c) 38 \<le> P - S \<and>
    S = (if ci_Precision c \<le> 38 then ci_Scale c else max 0 (38 - (ci_Precision c - ci_Scale c)))"
proof -
  let ?p = "ci_Precision c" and ?s = "ci_Scale c"
  have wrap: "i64 (?p - ?s) = ?p - ?s" "i64 (min ?p 38 - (?p - ?s)) = min ?p 38 - (?p - ?s)"
    using assms(2-5) by (auto intro!: i64_id simp: in_i64_def i64_min_def i64_max_def)
  have "MySQLToDameng c charInLength useNvarchar2 =
      scaled_type ''NUMBER'' (fst (dameng_number ?p ?s)) (snd (dameng_number ?p ?s))"
    using assms(1,2) by (auto simp: MySQLToDameng_def Let_def split: prod.splits)
  moreover have "dameng_number ?p ?s = (min ?p 38, min ?s (max 0 (min ?p 38 - (?p - ?s))))"
    by (simp add: dameng_number_def wrap Let_def)
  ultimately show ?thesis using assms(2,4,5) by (intro exI conjI) auto
qed

theorem dameng_decimal_keeps_integers_witness:
  "\<exists>P S. MySQLToDameng (zero_column\<lparr>ci_DataType := ''decimal'', ci_Precision := 65, ci_Scale := 30\<rparr>) False False =
     scaled_type ''NUMBER'' P S \<and> P = min 65 38 \<and> 0 \<le> S \<and> S \<le> 30 \<and> min (65 - 30) 38 \<le> P - S \<and>
     S = (if (65 :: int) \<le> 38 then 30 else max 0 (38 - (65 - 30)))"
  using dameng_decimal_keeps_integers [of "zero_column\<lparr>ci_DataType := ''decimal'', ci_Precision := 65, ci_Scale := 30\<rparr>" False False]
  by (simp add: lower_type_def trim_space_def to_lower_def lower_char_def is_space_def in_i64_def i64_min_def i64_max_def)

text \<open>The other mappings ignore the sign: an unsigned integer column becomes a signed one of the same width.\<close>

lemma unsigned_integers_narrowed:
  fixes c :: ColumnInfo
  defines "c \<equiv> zero_column\<lparr>ci_DataType := ''int'', ci_FormattedType := ''int(10) unsigned''\<rparr>"
  shows "mysql_integers c = Some (0, 2 ^ 32 - 1)" "MySQLToPG c False False = ''int''" "MySQLToDameng c False False = ''INT''"
    "MySQLToOscar c False False = ''INTEGER''" "MySQLToMySQL c False False = ''int''"
  unfolding c_def by code_simp+

lemma bit_width_dropped:
  fixes c :: ColumnInfo
  defines "c \<equiv> zero_column\<lparr>ci_DataType := ''bit'', ci_Precision := 8, ci_FormattedType := ''bit(8)''\<rparr>"
  shows "mysql_integers c = Some (0, 255)" "MySQLToPG c False False = ''bit''" "MySQLToDameng c False False = ''NUMBER(1)''"
  unfolding c_def by code_simp+

end
