(* ===== verification/TypeFromOthers.thy ===== *)
theory TypeFromOthers
  imports TypeFromMysql
begin

text \<open>
  The type mappings of PostgreSQL, DaMeng and SQL Server columns: \<^verbatim>\<open>typemap/pg_mysql.go\<close>,
  \<^verbatim>\<open>pg_dameng.go\<close>, \<^verbatim>\<open>dameng_pg.go\<close>, \<^verbatim>\<open>dameng_mysql.go\<close>,
  \<^verbatim>\<open>sqlserver_pg.go\<close>, \<^verbatim>\<open>sqlserver_mysql.go\<close>, \<^verbatim>\<open>sqlserver_dameng.go\<close> and their part of
  \<^verbatim>\<open>oscar.go\<close>.
\<close>

section \<open>PostgreSQL sources\<close>

definition PGToMySQLChecked :: "ColumnInfo \<Rightarrow> type_error + string" where
  "PGToMySQLChecked c =
     (if ci_TypeKind c \<noteq> [] \<and> ci_TypeKind c \<noteq> ''b'' then Inl UserDefinedType
      else if ci_TypeSchema c \<noteq> [] \<and> ci_TypeSchema c \<noteq> ''pg_catalog'' \<and> ci_TypeSchema c \<noteq> ''sys_catalog''
      then Inl UserDefinedType
      else if ci_Generated c \<noteq> [] then Inl GeneratedColumn
      else
        let dt = to_lower (ci_DataType c) in
        if dt \<in> {''int2'', ''smallint''} then Inr ''SMALLINT''
        else if dt \<in> {''int4'', ''integer'', ''int''} then Inr ''INT''
        else if dt \<in> {''int8'', ''bigint''} then Inr ''BIGINT''
        else if dt \<in> {''float4'', ''real''} then Inr ''FLOAT''
        else if dt \<in> {''float8'', ''double precision''} then Inr ''DOUBLE''
        else if dt \<in> {''numeric'', ''decimal''} then
          if ci_Precision c \<le> 0 \<or> ci_Precision c > 65 \<or> ci_Scale c < 0 \<or> ci_Scale c > 30 \<or> ci_Scale c > ci_Precision c
          then Inl DecimalOutOfRange
          else Inr (scaled_type ''DECIMAL'' (ci_Precision c) (ci_Scale c))
        else if dt \<in> {''bool'', ''boolean''} then Inr ''TINYINT(1)''
        else if dt = ''bit'' then
          if ci_Length c < 1 \<or> ci_Length c > 64 then Inl BitsOutOfRange else Inr (sized_type ''BIT'' (ci_Length c))
        else if dt = ''uuid'' then Inr ''CHAR(36)''
        else if dt = ''bytea'' then Inr ''LONGBLOB''
        else if dt = ''text'' then Inr ''LONGTEXT''
        else if dt \<in> {''varchar'', ''character varying''} then
          if ci_Length c \<le> 0 then Inr ''LONGTEXT''
          else if ci_Length c > 65535 then Inl LengthOutOfRange
          else if ci_PGMySQLLongText c then Inr ''LONGTEXT''
          else Inr (sized_type ''VARCHAR'' (ci_Length c))
        else if dt \<in> {''bpchar'', ''char'', ''character''} then
          if at_least_one (ci_Length c) > 255 then Inl LengthOutOfRange
          else Inr (sized_type ''CHAR'' (at_least_one (ci_Length c)))
        else if dt \<in> {''json'', ''jsonb''} then Inr ''JSON''
        else if dt = ''date'' then Inr ''DATE''
        else if dt \<in> {''time'', ''timestamp'', ''timestamptz''} then
          if ci_DateTimePrecision c < 0 \<or> ci_DateTimePrecision c > 6 then Inl TimePrecisionInvalid
          else if equal_fold (ci_DataType c) ''timestamptz'' then Inr ''DATETIME(6)''
          else if ci_DataType c = ''time'' then Inr (sized_type ''TIME'' (ci_DateTimePrecision c))
          else Inr (sized_type ''DATETIME'' (ci_DateTimePrecision c))
        else Inl UnsupportedType)"

definition PGToMySQL :: "ColumnInfo \<Rightarrow> bool \<Rightarrow> bool \<Rightarrow> string" where
  "PGToMySQL c charInLength useNvarchar2 = type_or_empty (PGToMySQLChecked c)"

definition charLen :: "int \<Rightarrow> int" where
  "charLen n = (if n \<le> 0 then 1 else n)"

definition PGToDameng :: "ColumnInfo \<Rightarrow> bool \<Rightarrow> bool \<Rightarrow> string" where
  "PGToDameng col charInLength useNvarchar2 =
     (let dt = lower_type col in
      if dt \<in> {''int2'', ''smallint''} then ''SMALLINT''
      else if dt \<in> {''int4'', ''integer'', ''int''} then ''INT''
      else if dt \<in> {''int8'', ''bigint''} then ''BIGINT''
      else if dt \<in> {''numeric'', ''decimal''} then
        (if ci_Precision col > 0 then scaled_type ''NUMBER'' (ci_Precision col) (ci_Scale col) else ''NUMBER'')
      else if dt = ''money'' then ''NUMBER(19,4)''
      else if dt \<in> {''float4'', ''real''} then ''REAL''
      else if dt \<in> {''float8'', ''double precision''} then ''DOUBLE''
      else if dt \<in> {''bool'', ''boolean''} then ''NUMBER(1)''
      else if dt \<in> {''bpchar'', ''char'', ''character''} then
        (if useNvarchar2 then sized_type ''NVARCHAR2'' (charLen (ci_Length col))
         else if charInLength then unit_type ''CHAR'' (charLen (ci_Length col)) ''CHAR''
         else sized_type ''CHAR'' (charLen (ci_Length col)))
      else if dt \<in> {''varchar'', ''character varying''} then
        (if ci_Length col \<le> 0 then ''TEXT''
         else if useNvarchar2 then sized_type ''NVARCHAR2'' (ci_Length col)
         else if charInLength then unit_type ''VARCHAR2'' (ci_Length col) ''CHAR''
         else sized_type ''VARCHAR2'' (ci_Length col))
      else if dt = ''name'' then ''VARCHAR2(128)''
      else if dt \<in> {''text'', ''json'', ''jsonb'', ''xml''} then ''TEXT''
      else if dt = ''uuid'' then ''VARCHAR2(36)''
      else if dt \<in> {''inet'', ''cidr''} then ''VARCHAR2(43)''
      else if dt \<in> {''macaddr'', ''macaddr8''} then ''VARCHAR2(23)''
      else if dt \<in> {''bit'', ''varbit''} then ''VARCHAR2(64)''
      else if dt = ''bytea'' then ''BLOB''
      else if dt = ''date'' then ''DATE''
      else if dt \<in> {''time'', ''timetz''} then ''TIME''
      else if dt \<in> {''timestamp'', ''timestamptz'', ''datetime''} then ''TIMESTAMP''
      else if dt = ''interval'' then ''VARCHAR2(64)''
      else ''TEXT'')"

section \<open>DaMeng sources\<close>

definition DaMengToPG :: "ColumnInfo \<Rightarrow> bool \<Rightarrow> bool \<Rightarrow> string" where
  "DaMengToPG col charInLength useNvarchar2 =
     (let dt = lower_type col;
          decimal = (if ci_Precision col > 0 then scaled_type ''decimal'' (ci_Precision col) (ci_Scale col) else ''decimal'')
      in
      if dt \<in> {''tinyint'', ''byte''} then ''smallint''
      else if dt = ''smallint'' then ''smallint''
      else if dt \<in> {''int'', ''integer'', ''mediumint''} then ''int''
      else if dt = ''bigint'' then ''bigint''
      else if dt = ''real'' then
        (case damengBinaryFloatType col ''real'' ''double precision'' of Some mapped \<Rightarrow> mapped | None \<Rightarrow> ''real'')
      else if dt \<in> {''float'', ''double'', ''double precision''} then
        (case damengBinaryFloatType col ''real'' ''double precision'' of Some mapped \<Rightarrow> mapped | None \<Rightarrow> decimal)
      else if dt \<in> {''numeric'', ''number'', ''decimal''} then decimal
      else if dt \<in> {''char'', ''character''} then pg_char ''char'' charInLength useNvarchar2 col
      else if dt \<in> {''varchar'', ''varchar2''} then pg_char ''varchar'' charInLength useNvarchar2 col
      else if dt \<in> {''clob'', ''text'', ''longvarchar''} then ''text''
      else if dt \<in> {''binary'', ''varbinary''} then ''bytea''
      else if dt \<in> {''blob'', ''image'', ''longvarbinary'', ''bfile''} then ''bytea''
      else if dt = ''date'' then ''date''
      else if dt = ''time'' then ''time''
      else if dt \<in> {''timestamp'', ''datetime''} then ''timestamp without time zone''
      else if dt \<in> {''bit'', ''boolean''} then ''smallint''
      else if dt = ''interval year to month'' then ''interval''
      else if dt = ''interval day to second'' then ''interval''
      else dt)"

definition DaMengToMySQL :: "ColumnInfo \<Rightarrow> bool \<Rightarrow> bool \<Rightarrow> string" where
  "DaMengToMySQL col charInLength useNvarchar2 =
     (let dt = lower_type col in
      if dt \<in> {''tinyint'', ''byte''} then ''smallint''
      else if dt = ''smallint'' then ''smallint''
      else if dt \<in> {''int'', ''integer'', ''mediumint''} then ''int''
      else if dt = ''bigint'' then ''bigint''
      else if dt = ''real'' then
        (case damengBinaryFloatType col ''float'' ''double'' of Some mapped \<Rightarrow> mapped | None \<Rightarrow> ''float'')
      else if dt \<in> {''float'', ''double'', ''double precision''} then
        (case damengBinaryFloatType col ''float'' ''double'' of
           Some mapped \<Rightarrow> mapped
         | None \<Rightarrow> if ci_Precision col > 0 then scaled_type ''decimal'' (ci_Precision col) (ci_Scale col) else ''double'')
      else if dt \<in> {''numeric'', ''number'', ''decimal''} then
        (if ci_Precision col > 0
         then scaled_type ''decimal'' (ci_Precision col) (if ci_Scale col < 0 then 0 else ci_Scale col)
         else ''decimal'')
      else if dt \<in> {''char'', ''character''} then mysql_char col
      else if dt \<in> {''varchar'', ''varchar2''} then mysql_varchar col
      else if dt \<in> {''clob'', ''text'', ''longvarchar''} then ''longtext''
      else if dt \<in> {''binary'', ''varbinary''} then sized_type dt (at_least_one (ci_Length col))
      else if dt \<in> {''blob'', ''image'', ''longvarbinary'', ''bfile''} then ''longblob''
      else if dt = ''date'' then ''date''
      else if dt = ''time'' then ''time''
      else if dt \<in> {''timestamp'', ''datetime''} then ''datetime(6)''
      else if dt \<in> {''bit'', ''boolean''} then ''tinyint(1)''
      else if dt \<in> {''interval year to month'', ''interval day to second''} then ''varchar(50)''
      else dt)"

definition DaMengToOscar :: "ColumnInfo \<Rightarrow> bool \<Rightarrow> bool \<Rightarrow> string" where
  "DaMengToOscar col charInLength useNvarchar2 =
     (let dt = lower_type col in
      if dt \<in> {''tinyint'', ''byte'', ''smallint''} then ''SMALLINT''
      else if dt \<in> {''int'', ''integer'', ''mediumint''} then ''INTEGER''
      else if dt = ''bigint'' then ''BIGINT''
      else if dt \<in> {''numeric'', ''number'', ''decimal''} then decimalType col
      else if dt \<in> {''float'', ''double'', ''double precision''} then
        (case damengBinaryFloatType col ''REAL'' ''DOUBLE PRECISION'' of Some mapped \<Rightarrow> mapped | None \<Rightarrow> decimalType col)
      else if dt = ''real'' then
        (case damengBinaryFloatType col ''REAL'' ''DOUBLE PRECISION'' of Some mapped \<Rightarrow> mapped | None \<Rightarrow> ''REAL'')
      else if dt \<in> {''char'', ''character'', ''nchar''} then
        (if useNvarchar2 \<or> dt = ''nchar'' then sized ''NVARCHAR2'' (ci_Length col) 1 else sized ''CHAR'' (ci_Length col) 1)
      else if dt \<in> {''varchar'', ''varchar2'', ''nvarchar2''} then
        (if useNvarchar2 \<or> dt = ''nvarchar2'' then sized ''NVARCHAR2'' (ci_Length col) 255
         else sized ''VARCHAR'' (ci_Length col) 255)
      else if dt \<in> {''clob'', ''text'', ''longvarchar'', ''xml'', ''xmltype'', ''geometry''} then ''CLOB''
      else if dt \<in> {''blob'', ''image'', ''longvarbinary'', ''bfile''} then ''BLOB''
      else if dt \<in> {''binary'', ''varbinary''} then
        (if ci_Length col > 0 then sized ''VARBINARY'' (ci_Length col) 255 else ''BLOB'')
      else if dt = ''date'' then ''DATE''
      else if dt = ''time'' then ''TIME''
      else if dt \<in> {''timestamp'', ''datetime''} then ''TIMESTAMP''
      else if dt \<in> {''bit'', ''boolean''} then ''BOOLEAN''
      else to_upper dt)"

section \<open>SQL Server sources\<close>

definition SQLServerToPG :: "ColumnInfo \<Rightarrow> bool \<Rightarrow> bool \<Rightarrow> string" where
  "SQLServerToPG col charInLength useNvarchar2 =
     (let dt = lower_type col in
      if dt \<in> {''tinyint'', ''smallint'', ''mediumint'', ''int''} then ''int''
      else if dt = ''bigint'' then ''bigint''
      else if dt \<in> {''varchar'', ''nvarchar''} then
        (if ci_Length col = - 1 then ''text'' else pg_char ''varchar'' charInLength useNvarchar2 col)
      else if dt \<in> {''char'', ''nchar''} then pg_char ''char'' charInLength useNvarchar2 col
      else if dt \<in> {''text'', ''ntext''} then ''text''
      else if dt \<in> {''varbinary'', ''binary'', ''image''} then ''bytea''
      else if dt = ''bit'' then ''smallint''
      else if dt = ''uniqueidentifier'' then ''char(36)''
      else if dt \<in> {''smalldatetime'', ''datetime'', ''datetime2''} then ''timestamp without time zone''
      else if dt = ''date'' then ''date''
      else if dt = ''time'' then ''time''
      else if dt = ''timestamp'' then ''bytea''
      else if dt \<in> {''numeric'', ''decimal''} then
        (if ci_Precision col > 0 then scaled_type ''decimal'' (ci_Precision col) (ci_Scale col) else ''decimal'')
      else if dt = ''money'' then ''decimal(19,4)''
      else if dt = ''smallmoney'' then ''decimal(10,4)''
      else if dt = ''real'' then ''real''
      else if dt = ''float'' then (if singlePrecisionFloat (ci_Precision col) then ''real'' else ''double precision'')
      else if dt = ''xml'' then ''text''
      else if dt \<in> {''geography'', ''geometry''} then ''text''
      else if dt = ''hierarchyid'' then ''text''
      else dt)"

definition SQLServerToMySQL :: "ColumnInfo \<Rightarrow> bool \<Rightarrow> bool \<Rightarrow> string" where
  "SQLServerToMySQL col charInLength useNvarchar2 =
     (let dt = lower_type col in
      if dt \<in> {''tinyint'', ''smallint''} then ''smallint''
      else if dt \<in> {''mediumint'', ''int''} then ''int''
      else if dt = ''bigint'' then ''bigint''
      else if dt \<in> {''varchar'', ''nvarchar''} then (if ci_Length col = - 1 then ''longtext'' else mysql_varchar col)
      else if dt \<in> {''char'', ''nchar''} then mysql_char col
      else if dt \<in> {''text'', ''ntext''} then ''longtext''
      else if dt \<in> {''varbinary'', ''binary'', ''image''} then
        (if dt = ''image'' \<or> ci_Length col = - 1 then ''longblob'' else sized_type dt (at_least_one (ci_Length col)))
      else if dt = ''bit'' then ''tinyint(1)''
      else if dt = ''uniqueidentifier'' then ''char(36)''
      else if dt \<in> {''smalldatetime'', ''datetime'', ''datetime2''} then ''datetime(6)''
      else if dt = ''date'' then ''date''
      else if dt = ''time'' then ''time''
      else if dt = ''datetimeoffset'' then ''datetime(6)''
      else if dt = ''timestamp'' then ''varbinary(8)''
      else if dt \<in> {''numeric'', ''decimal''} then
        (if ci_Precision col > 0 then scaled_type ''decimal'' (ci_Precision col) (ci_Scale col) else ''decimal'')
      else if dt = ''money'' then ''decimal(19,4)''
      else if dt = ''smallmoney'' then ''decimal(10,4)''
      else if dt = ''real'' then ''float''
      else if dt = ''float'' then (if singlePrecisionFloat (ci_Precision col) then ''float'' else ''double'')
      else if dt = ''xml'' then ''longtext''
      else if dt \<in> {''geography'', ''geometry'', ''hierarchyid''} then ''longtext''
      else dt)"

definition SQLServerToOscar :: "ColumnInfo \<Rightarrow> bool \<Rightarrow> bool \<Rightarrow> string" where
  "SQLServerToOscar col charInLength useNvarchar2 =
     (let dt = lower_type col in
      if dt \<in> {''tinyint'', ''smallint''} then ''SMALLINT''
      else if dt \<in> {''int'', ''integer''} then ''INTEGER''
      else if dt = ''bigint'' then ''BIGINT''
      else if dt \<in> {''numeric'', ''decimal''} then decimalType col
      else if dt = ''money'' then ''DECIMAL(19,4)''
      else if dt = ''smallmoney'' then ''DECIMAL(10,4)''
      else if dt = ''real'' then ''REAL''
      else if dt = ''float'' then (if singlePrecisionFloat (ci_Precision col) then ''REAL'' else ''DOUBLE PRECISION'')
      else if dt \<in> {''char'', ''nchar''} then
        (if useNvarchar2 \<or> dt = ''nchar'' then sized ''NVARCHAR2'' (ci_Length col) 1 else sized ''CHAR'' (ci_Length col) 1)
      else if dt \<in> {''varchar'', ''nvarchar''} then
        (if ci_Length col = - 1 then ''CLOB''
         else if useNvarchar2 \<or> dt = ''nvarchar'' then sized ''NVARCHAR2'' (ci_Length col) 255
         else sized ''VARCHAR'' (ci_Length col) 255)
      else if dt \<in> {''text'', ''ntext'', ''xml'', ''geography'', ''geometry'', ''hierarchyid''} then ''CLOB''
      else if dt \<in> {''binary'', ''varbinary''} then
        (if ci_Length col > 0 \<and> ci_Length col \<noteq> - 1 then sized ''VARBINARY'' (ci_Length col) 255 else ''BLOB'')
      else if dt \<in> {''image'', ''timestamp'', ''rowversion''} then ''BLOB''
      else if dt = ''bit'' then ''BOOLEAN''
      else if dt = ''uniqueidentifier'' then ''VARCHAR(36)''
      else if dt = ''date'' then ''DATE''
      else if dt = ''time'' then ''TIME''
      else if dt \<in> {''smalldatetime'', ''datetime'', ''datetime2'', ''datetimeoffset''} then ''TIMESTAMP''
      else to_upper dt)"

definition SQLServerToDameng :: "ColumnInfo \<Rightarrow> bool \<Rightarrow> bool \<Rightarrow> string" where
  "SQLServerToDameng c charLength national =
     (let dt = lower_type c in
      if dt \<in> {''tinyint'', ''smallint''} then (if ci_IdentityInfo c \<noteq> None then ''INT'' else ''SMALLINT'')
      else if dt = ''int'' then ''INT''
      else if dt = ''bigint'' then ''BIGINT''
      else if dt = ''bit'' then ''NUMBER(1)''
      else if dt \<in> {''decimal'', ''numeric''} then scaled_type ''NUMBER'' (ci_Precision c) (ci_Scale c)
      else if dt = ''money'' then ''NUMBER(19,4)''
      else if dt = ''smallmoney'' then ''NUMBER(10,4)''
      else if dt = ''real'' then ''REAL''
      else if dt = ''float'' then (if singlePrecisionFloat (ci_Precision c) then ''REAL'' else ''DOUBLE'')
      else if dt \<in> {''char'', ''nchar'', ''varchar'', ''nvarchar''} then
        (if ci_Length c = - 1 then ''CLOB''
         else if national then sized_type ''NVARCHAR2'' (ci_Length c)
         else
           let kind = (if equal_fold (ci_DataType c) ''char'' \<or> equal_fold (ci_DataType c) ''nchar''
                       then ''CHAR'' else ''VARCHAR2'')
           in if charLength then unit_type kind (ci_Length c) ''CHAR'' else sized_type kind (ci_Length c))
      else if dt \<in> {''text'', ''ntext'', ''xml''} then ''CLOB''
      else if dt \<in> {''binary'', ''varbinary'', ''image''} then ''BLOB''
      else if dt \<in> {''timestamp'', ''rowversion''} then ''VARBINARY(8)''
      else if dt = ''uniqueidentifier'' then ''VARCHAR2(36)''
      else if dt = ''date'' then ''DATE''
      else if dt = ''smalldatetime'' then ''TIMESTAMP(0)''
      else if dt = ''datetime'' then ''TIMESTAMP(3)''
      else if dt = ''datetime2'' then sized_type ''TIMESTAMP'' (ci_DateTimePrecision c)
      else if dt = ''datetimeoffset'' then sized_type ''TIMESTAMP'' (ci_DateTimePrecision c) @ '' WITH TIME ZONE''
      else if dt = ''time'' then sized_type ''TIME'' (ci_DateTimePrecision c)
      else [])"

definition sizes_ok :: "ColumnInfo \<Rightarrow> type_error + unit" where
  "sizes_ok c =
     (let dt = lower_type c in
      if dt \<in> {''decimal'', ''numeric''} then
        if ci_Precision c < 1 \<or> ci_Precision c > 38 \<or> ci_Scale c < 0 \<or> ci_Scale c > ci_Precision c
        then Inl DecimalOutOfRange else Inr ()
      else if dt \<in> {''char'', ''nchar'', ''varchar'', ''nvarchar''} then
        if ci_Length c \<noteq> - 1 \<and> (ci_Length c < 1 \<or> ci_Length c > 8000) then Inl LengthOutOfRange else Inr ()
      else if dt \<in> {''datetime2'', ''datetimeoffset'', ''time''} then
        if ci_DateTimePrecision c < 0 \<or> ci_DateTimePrecision c > 6 then Inl TimePrecisionInvalid else Inr ()
      else Inr ())"

definition ValidateSQLServerDamengColumn :: "ColumnInfo \<Rightarrow> type_error + unit" where
  "ValidateSQLServerDamengColumn c =
     (if ci_Generated c \<noteq> [] then Inl GeneratedColumn
      else if ci_TypeKind c \<noteq> [] then Inl UserDefinedType
      else if SQLServerToDameng c False False = [] then Inl UnsupportedType
      else bind_res (sizes_ok c) (\<lambda>_.
        if ci_Extra c = ''auto_increment'' \<and> ci_IdentityInfo c = None then Inl IdentityInvalid
        else
          (case ci_IdentityInfo c of
             None \<Rightarrow> Inr ()
           | Some i \<Rightarrow>
               if lower_type c \<notin> {''tinyint'', ''smallint'', ''int'', ''bigint''} then Inl IdentityInvalid
               else if id_Increment i = 0 then Inl IdentityInvalid
               else Inr ())))"

section \<open>Well-formed types\<close>

text \<open>The column types of MySQL and of DaMeng that the checked mappings may produce, with the limits of the servers.\<close>

inductive mysql_type :: "string \<Rightarrow> bool" where
  plain: "t \<in> {''SMALLINT'', ''INT'', ''BIGINT'', ''FLOAT'', ''DOUBLE'', ''TINYINT(1)'', ''CHAR(36)'', ''LONGBLOB'',
    ''LONGTEXT'', ''JSON'', ''DATE'', ''DATETIME(6)''} \<Longrightarrow> mysql_type t"
| decimal: "1 \<le> p \<Longrightarrow> p \<le> 65 \<Longrightarrow> 0 \<le> s \<Longrightarrow> s \<le> 30 \<Longrightarrow> s \<le> p \<Longrightarrow> mysql_type (scaled_type ''DECIMAL'' p s)"
| bit: "1 \<le> n \<Longrightarrow> n \<le> 64 \<Longrightarrow> mysql_type (sized_type ''BIT'' n)"
| varchar: "1 \<le> n \<Longrightarrow> n \<le> 65535 \<Longrightarrow> mysql_type (sized_type ''VARCHAR'' n)"
| char: "1 \<le> n \<Longrightarrow> n \<le> 255 \<Longrightarrow> mysql_type (sized_type ''CHAR'' n)"
| time: "0 \<le> n \<Longrightarrow> n \<le> 6 \<Longrightarrow> t \<in> {''TIME'', ''DATETIME''} \<Longrightarrow> mysql_type (sized_type t n)"

inductive dameng_type :: "string \<Rightarrow> bool" where
  plain: "t \<in> {''SMALLINT'', ''INT'', ''BIGINT'', ''NUMBER'', ''NUMBER(1)'', ''NUMBER(19,4)'', ''NUMBER(10,4)'',
    ''NUMBER(38,0)'', ''REAL'', ''DOUBLE'', ''FLOAT'', ''CLOB'', ''TEXT'', ''BLOB'', ''BFILE'', ''LONGVARBINARY'',
    ''XMLTYPE'', ''SYSGEO2.ST_GEOMETRY'', ''BINARY(18)'', ''VARBINARY(4000)'', ''VARBINARY(8)'', ''VARCHAR2(36)'',
    ''DATE'', ''TIMESTAMP(0)'', ''TIMESTAMP(3)''} \<Longrightarrow> dameng_type t"
| number: "1 \<le> p \<Longrightarrow> p \<le> 38 \<Longrightarrow> 0 \<le> s \<Longrightarrow> s \<le> p \<Longrightarrow> dameng_type (scaled_type ''NUMBER'' p s)"
| float: "1 \<le> p \<Longrightarrow> p \<le> 126 \<Longrightarrow> dameng_type (sized_type ''FLOAT'' p)"
| chars: "t \<in> {''CHAR'', ''NCHAR'', ''VARCHAR2'', ''NVARCHAR'', ''NVARCHAR2''} \<Longrightarrow> 1 \<le> n \<Longrightarrow> n \<le> 32767 \<Longrightarrow>
    dameng_type (unit_type t n ''CHAR'')"
| bytes: "t \<in> {''CHAR'', ''VARCHAR2'', ''NVARCHAR2'', ''VARBINARY''} \<Longrightarrow> 1 \<le> n \<Longrightarrow> n \<le> 32767 \<Longrightarrow>
    dameng_type (sized_type t n)"
| timestamp: "0 \<le> p \<Longrightarrow> p \<le> 9 \<Longrightarrow> q \<in> {[], '' WITH TIME ZONE''} \<Longrightarrow> dameng_type (sized_type ''TIMESTAMP'' p @ q)"
| time: "0 \<le> p \<Longrightarrow> p \<le> 6 \<Longrightarrow> dameng_type (sized_type ''TIME'' p)"
| year_interval: "1 \<le> p \<Longrightarrow> p \<le> 9 \<Longrightarrow> dameng_type (sized_type ''INTERVAL YEAR'' p @ '' TO MONTH'')"
| day_interval: "1 \<le> p \<Longrightarrow> p \<le> 9 \<Longrightarrow> 0 \<le> s \<Longrightarrow> s \<le> 6 \<Longrightarrow>
    dameng_type (sized_type ''INTERVAL DAY'' p @ sized_type '' TO SECOND'' s)"
| spatial: "has_prefix t ''SYSGEO2.ST_'' \<Longrightarrow> dameng_type t"

section \<open>Properties\<close>

text \<open>Whatever the checked PostgreSQL to MySQL mapping accepts becomes a column type MySQL accepts: decimals within
  65 digits and scale 30, bits within 64, characters and fractional seconds within their limits. Everything else is an
  error before the target is touched.\<close>

theorem PGToMySQLChecked_wf:
  assumes "PGToMySQLChecked c = Inr t"
  shows "mysql_type t"
proof (rule everyD [OF _ assms])
  show "every mysql_type (PGToMySQLChecked c)"
    unfolding PGToMySQLChecked_def Let_def at_least_one_def
    by (rule every_name | rule every_test | rule every_leaf(1)
        | (rule every_leaf(2), rule mysql_type.intros(2-); simp; fail)
        | (rule every_leaf(2), rule mysql_type.plain, simp; fail))+
qed

theorem PGToMySQLChecked_wf_witness: "mysql_type (scaled_type ''DECIMAL'' 12 3)"
  by (rule PGToMySQLChecked_wf [of "zero_column\<lparr>ci_DataType := ''Numeric'', ci_Precision := 12, ci_Scale := 3\<rparr>"]) code_simp

definition sqlserver_dameng_names :: "string list" where
  "sqlserver_dameng_names = [''tinyint'', ''smallint'', ''int'', ''bigint'', ''bit'', ''decimal'', ''numeric'', ''money'',
     ''smallmoney'', ''real'', ''float'', ''char'', ''nchar'', ''varchar'', ''nvarchar'', ''text'', ''ntext'', ''xml'',
     ''binary'', ''varbinary'', ''image'', ''timestamp'', ''rowversion'', ''uniqueidentifier'', ''date'', ''smalldatetime'',
     ''datetime'', ''datetime2'', ''datetimeoffset'', ''time'']"

lemma SQLServerToDameng_unknown: "lower_type c \<notin> set sqlserver_dameng_names \<Longrightarrow> SQLServerToDameng c charLength national = []"
  by (simp add: SQLServerToDameng_def sqlserver_dameng_names_def)

lemma dameng_plain:
  "dameng_type ''SMALLINT''" "dameng_type ''INT''" "dameng_type ''BIGINT''" "dameng_type ''NUMBER''"
  "dameng_type ''NUMBER(1)''" "dameng_type ''NUMBER(19,4)''" "dameng_type ''NUMBER(10,4)''" "dameng_type ''NUMBER(38,0)''"
  "dameng_type ''REAL''" "dameng_type ''DOUBLE''" "dameng_type ''FLOAT''" "dameng_type ''CLOB''"
  "dameng_type ''TEXT''" "dameng_type ''BLOB''" "dameng_type ''BFILE''" "dameng_type ''LONGVARBINARY''"
  "dameng_type ''XMLTYPE''" "dameng_type ''SYSGEO2.ST_GEOMETRY''" "dameng_type ''BINARY(18)''" "dameng_type ''VARBINARY(4000)''"
  "dameng_type ''VARBINARY(8)''" "dameng_type ''VARCHAR2(36)''" "dameng_type ''DATE''" "dameng_type ''TIMESTAMP(0)''"
  "dameng_type ''TIMESTAMP(3)''"
  by (rule dameng_type.plain, simp)+

lemma sized_dameng: "t \<in> {''CHAR'', ''VARCHAR2'', ''NVARCHAR2''} \<Longrightarrow> 1 \<le> n \<and> n \<le> 8000 \<Longrightarrow>
    dameng_type (sized_type t n) \<and> dameng_type (unit_type t n ''CHAR'')"
  by (auto intro!: dameng_type.bytes dameng_type.chars)

text \<open>A SQL Server column that passes the check before a DaMeng migration has a well-formed DaMeng type, for every
  setting of the character options: the mapping never falls through to the empty text and every size is within the
  target's limits.\<close>

theorem ValidateSQLServerDamengColumn_wf:
  assumes "ValidateSQLServerDamengColumn c = Inr ()"
  shows "dameng_type (SQLServerToDameng c charLength national)"
proof -
  from assms have sizes: "sizes_ok c = Inr ()" and known: "SQLServerToDameng c False False \<noteq> []"
    by (auto simp: ValidateSQLServerDamengColumn_def bind_res_Inr_iff split: if_splits)
  have number: "dameng_type (scaled_type ''NUMBER'' (ci_Precision c) (ci_Scale c))"
    if "lower_type c \<in> {''decimal'', ''numeric''}"
    using that sizes by (auto simp: sizes_ok_def split: if_splits intro!: dameng_type.number)
  have "1 \<le> ci_Length c \<and> ci_Length c \<le> 8000"
    if "lower_type c \<in> {''char'', ''nchar'', ''varchar'', ''nvarchar''}" "ci_Length c \<noteq> - 1"
    using that sizes by (auto simp: sizes_ok_def split: if_splits)
  then have chars: "dameng_type (sized_type t (ci_Length c))" "dameng_type (unit_type t (ci_Length c) ''CHAR'')"
    if "lower_type c \<in> {''char'', ''nchar'', ''varchar'', ''nvarchar''}" "ci_Length c \<noteq> - 1"
      "t \<in> {''CHAR'', ''VARCHAR2'', ''NVARCHAR2''}" for t
    using that sized_dameng by blast+
  have "0 \<le> ci_DateTimePrecision c \<and> ci_DateTimePrecision c \<le> 6"
    if "lower_type c \<in> {''datetime2'', ''datetimeoffset'', ''time''}"
    using that sizes by (auto simp: sizes_ok_def split: if_splits)
  then have times: "dameng_type (sized_type ''TIME'' (ci_DateTimePrecision c))"
      "q \<in> {[], '' WITH TIME ZONE''} \<Longrightarrow> dameng_type (sized_type ''TIMESTAMP'' (ci_DateTimePrecision c) @ q)"
    if "lower_type c \<in> {''datetime2'', ''datetimeoffset'', ''time''}" for q
    using that by (auto intro!: dameng_type.time dameng_type.timestamp)
  have "lower_type c \<in> set sqlserver_dameng_names" using known SQLServerToDameng_unknown by blast
  then show ?thesis
    unfolding sqlserver_dameng_names_def
    by (simp only: set_simps insert_iff empty_iff, elim disjE)
      (simp_all add: SQLServerToDameng_def Let_def dameng_plain number chars times times(2) [where q = "[]", simplified])
qed

theorem ValidateSQLServerDamengColumn_wf_witness:
  "dameng_type (SQLServerToDameng (zero_column\<lparr>ci_DataType := ''nvarchar'', ci_Length := 80\<rparr>) True False)"
  by (rule ValidateSQLServerDamengColumn_wf) code_simp

end
