(* ===== verification/TypeFromOracle.thy ===== *)
theory TypeFromOracle
  imports TypeFromOthers
begin

text \<open>
  The type mappings of Oracle columns: \<^verbatim>\<open>typemap/oracle_pg.go\<close>, \<^verbatim>\<open>oracle_mysql.go\<close>,
  \<^verbatim>\<open>oracle_dameng.go\<close> with its validator, and the Oracle part of \<^verbatim>\<open>oscar.go\<close>.
\<close>

section \<open>Type names with sizes\<close>

text \<open>The name before the first parenthesis.\<close>

definition oracle_base :: "ColumnInfo \<Rightarrow> string" where
  "oracle_base c =
     (let dt = upper_type c in
      case str_index dt ''('' of None \<Rightarrow> dt | Some i \<Rightarrow> trim_space (take i dt))"

text \<open>
  \<open>oracleDamengSizes\<close> at the head of a text: the matched text and the rest. Inside the parentheses a number, then
  optionally a comma and a signed number.
\<close>

definition read_number :: "string \<Rightarrow> (string \<times> string) option" where
  "read_number s =
     (let ds = takeWhile is_digit s in if ds = [] then None else Some (ds, dropWhile is_digit s))"

definition skip_sign :: "string \<Rightarrow> string" where
  "skip_sign s = (case s of [] \<Rightarrow> [] | c # cs \<Rightarrow> if c = CHR ''+'' \<or> c = CHR ''-'' then cs else s)"

definition sizes_rest :: "string \<Rightarrow> string option" where
  "sizes_rest s =
     (case s of
        [] \<Rightarrow> None
      | c # cs \<Rightarrow>
          if c \<noteq> CHR ''('' then None
          else
            Option.bind (read_number (skip_spaces cs)) (\<lambda>(n, s1).
            case skip_spaces s1 of
              [] \<Rightarrow> None
            | d # ds \<Rightarrow>
                if d = CHR '')'' then Some ds
                else if d = CHR '','' then
                  Option.bind (read_number (skip_sign (skip_spaces ds))) (\<lambda>(m, s2).
                  case skip_spaces s2 of [] \<Rightarrow> None | e # es \<Rightarrow> if e = CHR '')'' then Some es else None)
                else None))"

text \<open>\<open>FindAllString\<close> and \<open>ReplaceAllString(_, "")\<close>; the fuel is the length, each step consumes a character.\<close>

fun all_sizes :: "nat \<Rightarrow> string \<Rightarrow> string list" where
  "all_sizes n [] = []"
| "all_sizes 0 (c # cs) = []"
| "all_sizes (Suc n) (c # cs) =
     (case sizes_rest (c # cs) of
        None \<Rightarrow> all_sizes n cs
      | Some rest \<Rightarrow> take (length (c # cs) - length rest) (c # cs) # all_sizes n rest)"

fun without_sizes :: "nat \<Rightarrow> string \<Rightarrow> string" where
  "without_sizes n [] = []"
| "without_sizes 0 (c # cs) = []"
| "without_sizes (Suc n) (c # cs) =
     (case sizes_rest (c # cs) of
        None \<Rightarrow> c # without_sizes n cs
      | Some rest \<Rightarrow> without_sizes n rest)"

definition find_sizes :: "string \<Rightarrow> string list" where
  "find_sizes s = all_sizes (length s) s"

text \<open>The number in a matched text. \<open>strconv.ParseInt\<close> with its error ignored: zero, or the nearest bound of \<open>int64\<close>.\<close>

definition parse_clamped :: "string \<Rightarrow> int" where
  "parse_clamped s =
     (case parse_big s of None \<Rightarrow> 0 | Some n \<Rightarrow> max i64_min (min i64_max n))"

definition size_value :: "string \<Rightarrow> int" where
  "size_value m = parse_clamped (trim_space (take (length m - 2) (drop 1 m)))"

definition OracleDamengSourceType :: "ColumnInfo \<Rightarrow> string" where
  "OracleDamengSourceType c =
     (if ci_TypeSchema c \<noteq> [] then ci_TypeSchema c @ ''.'' @ ci_DataType c else ci_DataType c)"

definition OracleDamengBaseType :: "string \<Rightarrow> string" where
  "OracleDamengBaseType s =
     (let u = to_upper (trim_space s) in str_join '' '' (str_fields (without_sizes (length u) u)))"

definition OracleDamengTimestampPrecision :: "ColumnInfo \<Rightarrow> int" where
  "OracleDamengTimestampPrecision c =
     (case find_sizes (ci_DataType c) of m # ms \<Rightarrow> size_value m | [] \<Rightarrow> ci_DateTimePrecision c)"

definition OracleDamengIntervalPrecisions :: "ColumnInfo \<Rightarrow> int \<times> int" where
  "OracleDamengIntervalPrecisions c =
     (let p = (if ci_Precision c = 0 then 2 else ci_Precision c); s = ci_Scale c in
      case find_sizes (ci_DataType c) of
        [] \<Rightarrow> (p, s)
      | [m] \<Rightarrow> (size_value m, s)
      | m # m' # ms \<Rightarrow> (size_value m, size_value m'))"

definition is_upper :: "char \<Rightarrow> bool" where
  "is_upper c \<longleftrightarrow> 65 \<le> (of_char c :: nat) \<and> (of_char c :: nat) \<le> 90"

definition oracleDamengSpatialType :: "string \<Rightarrow> bool" where
  "oracleDamengSpatialType s \<longleftrightarrow>
     has_prefix s ''SYSGEO.ST_'' \<and>
     (case drop 10 s of
        [] \<Rightarrow> False
      | c # cs \<Rightarrow> is_upper c \<and> list_all (\<lambda>d. is_upper d \<or> is_digit d \<or> d = CHR ''_'') cs)"

section \<open>The mappings\<close>

definition oracle_char_names :: "string list" where
  "oracle_char_names = [''CHAR'', ''CHARACTER'', ''VARCHAR'', ''VARCHAR2'', ''CHAR VARYING'', ''CHARACTER VARYING'', ''NCHAR'',
     ''NATIONAL CHAR'', ''NATIONAL CHARACTER'', ''NVARCHAR2'', ''NCHAR VARYING'', ''NATIONAL CHAR VARYING'',
     ''NATIONAL CHARACTER VARYING'']"

definition oracle_dameng_char :: "string \<Rightarrow> ColumnInfo \<Rightarrow> bool \<Rightarrow> bool \<Rightarrow> string" where
  "oracle_dameng_char base c charLength national =
     (let kind = (if base = ''CHAR'' \<or> base = ''CHARACTER'' then ''CHAR'' else ''VARCHAR2'') in
      if national then unit_type ''NVARCHAR'' (ci_Length c) ''CHAR''
      else if base \<in> {''NCHAR'', ''NATIONAL CHAR'', ''NATIONAL CHARACTER''} then unit_type ''NCHAR'' (ci_Length c) ''CHAR''
      else if base \<in> {''NVARCHAR2'', ''NCHAR VARYING'', ''NATIONAL CHAR VARYING'', ''NATIONAL CHARACTER VARYING''}
      then unit_type ''NVARCHAR'' (ci_Length c) ''CHAR''
      else if charLength \<or> equal_fold (ci_CharUsed c) ''C'' then unit_type kind (ci_Length c) ''CHAR''
      else sized_type kind (if ci_DataLength c > 0 then ci_DataLength c else ci_Length c))"

definition raw_length :: "ColumnInfo \<Rightarrow> int" where
  "raw_length c = (if ci_DataLength c = 0 then ci_Length c else ci_DataLength c)"

definition OracleToDameng :: "ColumnInfo \<Rightarrow> bool \<Rightarrow> bool \<Rightarrow> string" where
  "OracleToDameng c charLength national =
     (let base = OracleDamengBaseType (OracleDamengSourceType c) in
      if oracleDamengSpatialType base then ''SYSGEO2.'' @ trim_prefix base ''SYSGEO.''
      else if base \<in> {''NUMBER'', ''NUMERIC'', ''DECIMAL'', ''DEC''} then
        (if ci_Precision c > 0 then scaled_type ''NUMBER'' (ci_Precision c) (ci_Scale c) else ''NUMBER'')
      else if base \<in> {''FLOAT'', ''REAL'', ''DOUBLE PRECISION''} then
        let p = (case find_sizes (ci_DataType c) of m # ms \<Rightarrow> size_value m | [] \<Rightarrow> ci_Precision c) in
        if p \<ge> 1 \<and> p \<le> 126 then sized_type ''FLOAT'' p else ''FLOAT''
      else if base \<in> {''INTEGER'', ''INT'', ''SMALLINT''} then ''NUMBER(38,0)''
      else if base = ''BINARY_FLOAT'' then ''REAL''
      else if base = ''BINARY_DOUBLE'' then ''DOUBLE''
      else if base \<in> set oracle_char_names then oracle_dameng_char base c charLength national
      else if base \<in> {''CLOB'', ''NCLOB''} then ''CLOB''
      else if base = ''LONG'' then ''TEXT''
      else if base = ''LONG RAW'' then ''LONGVARBINARY''
      else if base = ''BLOB'' then ''BLOB''
      else if base = ''BFILE'' then ''BFILE''
      else if base \<in> {''XMLTYPE'', ''SYS.XMLTYPE''} then ''XMLTYPE''
      else if base \<in> {''SDE.ST_GEOMETRY'', ''MDSYS.SDO_GEOMETRY'', ''SDO_GEOMETRY''} then ''SYSGEO2.ST_GEOMETRY''
      else if base = ''ROWID'' then ''BINARY(18)''
      else if base = ''UROWID'' then ''VARBINARY(4000)''
      else if base = ''RAW'' then sized_type ''VARBINARY'' (raw_length c)
      else if base = ''DATE'' then ''TIMESTAMP(0)''
      else if base \<in> {''TIMESTAMP'', ''TIMESTAMP WITH TIME ZONE'', ''TIMESTAMP WITH LOCAL TIME ZONE''} then
        let qualifier = (if base = ''TIMESTAMP WITH LOCAL TIME ZONE'' then '' WITH TIME ZONE''
                         else trim_prefix base ''TIMESTAMP'')
        in sized_type ''TIMESTAMP'' (OracleDamengTimestampPrecision c) @ qualifier
      else if base = ''INTERVAL YEAR TO MONTH'' then
        sized_type ''INTERVAL YEAR'' (fst (OracleDamengIntervalPrecisions c)) @ '' TO MONTH''
      else if base = ''INTERVAL DAY TO SECOND'' then
        sized_type ''INTERVAL DAY'' (fst (OracleDamengIntervalPrecisions c)) @
        sized_type '' TO SECOND'' (snd (OracleDamengIntervalPrecisions c))
      else [])"

definition oracle_user_type_ok :: "ColumnInfo \<Rightarrow> bool" where
  "oracle_user_type_ok c \<longleftrightarrow>
     (let t = OracleDamengSourceType c in
      (t \<in> {''SYS.XMLTYPE'', ''MDSYS.SDO_GEOMETRY'', ''SDE.ST_GEOMETRY''} \<or> oracleDamengSpatialType t) \<and>
      \<not> (ci_TypeKind c \<noteq> [] \<and> ci_TypeKind c \<noteq> ''user_defined''))"

definition oracle_sizes_ok :: "ColumnInfo \<Rightarrow> type_error + unit" where
  "oracle_sizes_ok c =
     (let base = OracleDamengBaseType (ci_DataType c) in
      if base \<in> {''NUMBER'', ''NUMERIC'', ''DECIMAL'', ''DEC''} then
        if ci_Precision c < 0 \<or> ci_Precision c > 38 \<or> ci_Scale c < 0 \<or>
           ci_Precision c > 0 \<and> ci_Scale c > ci_Precision c \<or> ci_Precision c = 0 \<and> ci_Scale c \<noteq> 0
        then Inl DecimalOutOfRange else Inr ()
      else if base \<in> set oracle_char_names then
        if ci_Length c < 1 \<or> ci_Length c > 32767 \<or> ci_DataLength c > 32767 then Inl LengthOutOfRange else Inr ()
      else if base = ''RAW'' then
        if raw_length c < 1 \<or> raw_length c > 32767 then Inl LengthOutOfRange else Inr ()
      else if base \<in> {''TIMESTAMP'', ''TIMESTAMP WITH TIME ZONE'', ''TIMESTAMP WITH LOCAL TIME ZONE''} then
        if OracleDamengTimestampPrecision c < 0 \<or> OracleDamengTimestampPrecision c > 9
        then Inl TimePrecisionInvalid else Inr ()
      else if base \<in> {''INTERVAL YEAR TO MONTH'', ''INTERVAL DAY TO SECOND''} then
        let (p, s) = OracleDamengIntervalPrecisions c in
        if p < 1 \<or> p > 9 \<or> s < 0 \<or> s > 6 then Inl TimePrecisionInvalid else Inr ()
      else Inr ())"

definition ValidateOracleDamengColumn :: "ColumnInfo \<Rightarrow> type_error + unit" where
  "ValidateOracleDamengColumn c =
     (if ci_Generated c \<noteq> [] then Inl GeneratedColumn
      else if (ci_TypeKind c \<noteq> [] \<or> ci_TypeSchema c \<noteq> []) \<and> \<not> oracle_user_type_ok c then Inl UserDefinedType
      else if ci_Identity c \<noteq> [] \<and> \<not> equal_fold (trim_space (ci_Identity c)) ''BY DEFAULT ON NULL'' then Inl IdentityInvalid
      else if OracleToDameng c False False = [] then Inl UnsupportedType
      else oracle_sizes_ok c)"

text \<open>An integer \<open>NUMBER(p,0)\<close> takes the narrowest integer type, beyond 18 digits a decimal.\<close>

definition OracleToPG :: "ColumnInfo \<Rightarrow> bool \<Rightarrow> bool \<Rightarrow> string" where
  "OracleToPG col charInLength useNvarchar2 =
     (let base = oracle_base col in
      if base \<in> {''NUMBER'', ''NUMERIC'', ''DECIMAL''} then
        (if ci_Precision col > 0 \<and> ci_Scale col = 0 then
           (if ci_Precision col \<le> 4 then ''smallint''
            else if ci_Precision col \<le> 9 then ''int''
            else if ci_Precision col \<le> 18 then ''bigint''
            else scaled_type ''decimal'' (ci_Precision col) 0)
         else if ci_Precision col > 0 then scaled_type ''decimal'' (ci_Precision col) (ci_Scale col)
         else ''decimal'')
      else if base \<in> {''FLOAT'', ''DOUBLE PRECISION''} then ''decimal''
      else if base = ''BINARY_DOUBLE'' then ''double precision''
      else if base \<in> {''BINARY_FLOAT'', ''REAL''} then ''real''
      else if base \<in> {''SMALLINT'', ''INTEGER'', ''INT''} then ''int''
      else if base \<in> {''CHAR'', ''NCHAR'', ''CHARACTER''} then pg_char ''char'' charInLength useNvarchar2 col
      else if base \<in> {''VARCHAR2'', ''NVARCHAR2'', ''VARCHAR''} then pg_char ''varchar'' charInLength useNvarchar2 col
      else if base \<in> {''CLOB'', ''NCLOB'', ''LONG''} then ''text''
      else if base \<in> {''BLOB'', ''RAW'', ''LONG RAW''} then ''bytea''
      else if base = ''DATE'' then ''timestamp without time zone''
      else if base = ''TIMESTAMP'' then ''timestamp without time zone''
      else if base \<in> {''TIMESTAMP WITH TIME ZONE'', ''TIMESTAMP WITH LOCAL TIME ZONE''} then ''timestamptz''
      else if base = ''INTERVAL YEAR TO MONTH'' then ''interval''
      else if base = ''INTERVAL DAY TO SECOND'' then ''interval''
      else if base = ''BOOLEAN'' then ''boolean''
      else if base = ''XMLTYPE'' then ''text''
      else to_lower (upper_type col))"

definition OracleToMySQL :: "ColumnInfo \<Rightarrow> bool \<Rightarrow> bool \<Rightarrow> string" where
  "OracleToMySQL col charInLength useNvarchar2 =
     (let base = oracle_base col in
      if ci_OracleMySQLAutoType col \<noteq> [] then ci_OracleMySQLAutoType col
      else if has_prefix base ''INTERVAL'' then ''varchar(50)''
      else if has_prefix base ''TIMESTAMP'' then ''datetime(6)''
      else if base \<in> {''NUMBER'', ''NUMERIC'', ''DECIMAL''} then
        (if ci_Precision col > 0 \<and> ci_Scale col = 0 then
           (if ci_Precision col \<le> 4 then ''smallint''
            else if ci_Precision col \<le> 9 then ''int''
            else if ci_Precision col \<le> 18 then ''bigint''
            else scaled_type ''decimal'' (ci_Precision col) 0)
         else if ci_Precision col > 0 then
           scaled_type ''decimal'' (if ci_Precision col > 65 then 65 else ci_Precision col)
             (let scale = (if ci_Scale col < 0 then 0 else ci_Scale col) in if scale > 30 then 30 else scale)
         else ''double'')
      else if base \<in> {''FLOAT'', ''DOUBLE PRECISION'', ''BINARY_DOUBLE''} then ''double''
      else if base \<in> {''BINARY_FLOAT'', ''REAL''} then ''float''
      else if base \<in> {''INTEGER'', ''INT'', ''SMALLINT''} then ''int''
      else if base \<in> {''CHAR'', ''NCHAR'', ''CHARACTER''} then mysql_char col
      else if base \<in> {''VARCHAR2'', ''NVARCHAR2'', ''VARCHAR''} then mysql_varchar col
      else if base \<in> {''UROWID'', ''ROWID''} then sized_type ''varchar'' (if ci_Length col \<le> 0 then 100 else ci_Length col)
      else if base \<in> {''CLOB'', ''NCLOB'', ''LONG''} then ''longtext''
      else if base \<in> {''BLOB'', ''RAW'', ''LONG RAW''} then ''longblob''
      else if base = ''DATE'' then ''datetime''
      else if base = ''BOOLEAN'' then ''tinyint(1)''
      else if base = ''XMLTYPE'' then ''longtext''
      else to_lower (upper_type col))"

definition OracleToOscar :: "ColumnInfo \<Rightarrow> bool \<Rightarrow> bool \<Rightarrow> string" where
  "OracleToOscar col charInLength useNvarchar2 =
     (let base = oracle_base col in
      if base \<in> {''NUMBER'', ''NUMERIC'', ''DECIMAL''} then
        (if ci_Precision col > 0 \<and> ci_Scale col = 0 \<and> ci_Precision col \<le> 18 then
           (if ci_Precision col \<le> 4 then ''SMALLINT'' else if ci_Precision col \<le> 9 then ''INTEGER'' else ''BIGINT'')
         else decimalType col)
      else if base \<in> {''FLOAT'', ''DOUBLE PRECISION''} then ''DECIMAL''
      else if base = ''BINARY_DOUBLE'' then ''DOUBLE PRECISION''
      else if base \<in> {''BINARY_FLOAT'', ''REAL''} then ''REAL''
      else if base = ''SMALLINT'' then ''SMALLINT''
      else if base \<in> {''INTEGER'', ''INT''} then ''INTEGER''
      else if base \<in> {''CHAR'', ''NCHAR'', ''CHARACTER''} then
        (if useNvarchar2 \<or> base = ''NCHAR'' then sized ''NVARCHAR2'' (ci_Length col) 1 else sized ''CHAR'' (ci_Length col) 1)
      else if base \<in> {''VARCHAR'', ''VARCHAR2'', ''NVARCHAR2''} then
        (if useNvarchar2 \<or> base = ''NVARCHAR2'' then sized ''NVARCHAR2'' (ci_Length col) 255
         else sized ''VARCHAR'' (ci_Length col) 255)
      else if base \<in> {''CLOB'', ''NCLOB'', ''LONG'', ''XMLTYPE''} then ''CLOB''
      else if base \<in> {''BLOB'', ''RAW'', ''LONG RAW'', ''BFILE''} then ''BLOB''
      else if base \<in> {''DATE'', ''TIMESTAMP'', ''TIMESTAMP WITH TIME ZONE'', ''TIMESTAMP WITH LOCAL TIME ZONE''}
      then ''TIMESTAMP''
      else if base = ''BOOLEAN'' then ''BOOLEAN''
      else upper_type col)"

section \<open>Integers\<close>

text \<open>The integers a column of a target type holds.\<close>

inductive holds_integer :: "string \<Rightarrow> int \<Rightarrow> bool" where
  small: "t \<in> {''smallint'', ''SMALLINT''} \<Longrightarrow> - (2 ^ 15) \<le> v \<Longrightarrow> v < 2 ^ 15 \<Longrightarrow> holds_integer t v"
| int: "t \<in> {''int'', ''INTEGER''} \<Longrightarrow> - (2 ^ 31) \<le> v \<Longrightarrow> v < 2 ^ 31 \<Longrightarrow> holds_integer t v"
| big: "t \<in> {''bigint'', ''BIGINT''} \<Longrightarrow> - (2 ^ 63) \<le> v \<Longrightarrow> v < 2 ^ 63 \<Longrightarrow> holds_integer t v"
| decimal: "t \<in> {''decimal'', ''DECIMAL''} \<Longrightarrow> \<bar>v\<bar> < 10 ^ nat p \<Longrightarrow> holds_integer (scaled_type t p 0) v"

lemma digits_bound:
  assumes "\<bar>v\<bar> < 10 ^ nat p" "p \<le> m" "0 < p"
  shows "\<bar>v\<bar> < (10 :: int) ^ nat m"
proof -
  have "(10 :: int) ^ nat p \<le> 10 ^ nat m" using assms(2,3) by (intro power_increasing) simp_all
  with assms(1) show ?thesis by linarith
qed

definition number_names :: "string set" where "number_names = {''NUMBER'', ''NUMERIC'', ''DECIMAL''}"

lemma number_mappings:
  assumes "oracle_base c \<in> number_names" "0 < ci_Precision c" "ci_Scale c = 0" "ci_OracleMySQLAutoType c = []"
  shows "OracleToPG c x y = (if ci_Precision c \<le> 4 then ''smallint'' else if ci_Precision c \<le> 9 then ''int''
       else if ci_Precision c \<le> 18 then ''bigint'' else scaled_type ''decimal'' (ci_Precision c) 0)"
    "OracleToMySQL c x y = OracleToPG c x y"
    "OracleToOscar c x y = (if ci_Precision c \<le> 4 then ''SMALLINT'' else if ci_Precision c \<le> 9 then ''INTEGER''
       else if ci_Precision c \<le> 18 then ''BIGINT'' else scaled_type ''DECIMAL'' (ci_Precision c) 0)"
proof -
  have base: "oracle_base c \<in> {''NUMBER'', ''NUMERIC'', ''DECIMAL''}"
    using assms(1) by (simp only: number_names_def)
  have not: "\<not> has_prefix (oracle_base c) ''INTERVAL''" "\<not> has_prefix (oracle_base c) ''TIMESTAMP''"
    using base by (auto simp: has_prefix_def)
  show pg: "OracleToPG c x y = (if ci_Precision c \<le> 4 then ''smallint'' else if ci_Precision c \<le> 9 then ''int''
       else if ci_Precision c \<le> 18 then ''bigint'' else scaled_type ''decimal'' (ci_Precision c) 0)"
    unfolding OracleToPG_def Let_def if_P [OF base] using assms(2,3) by simp
  show "OracleToMySQL c x y = OracleToPG c x y"
    unfolding pg OracleToMySQL_def Let_def if_P [OF base] using assms not by simp
  show "OracleToOscar c x y = (if ci_Precision c \<le> 4 then ''SMALLINT'' else if ci_Precision c \<le> 9 then ''INTEGER''
       else if ci_Precision c \<le> 18 then ''BIGINT'' else scaled_type ''DECIMAL'' (ci_Precision c) 0)"
    unfolding OracleToOscar_def Let_def if_P [OF base] decimalType_def using assms(2,3) by simp
qed

section \<open>Properties\<close>

text \<open>Every integer of an Oracle \<open>NUMBER(p,0)\<close> column (p digits) fits the column that PostgreSQL, MySQL or Oscar
  get for it: the classes of 4, 9 and 18 digits never cut the range of the integer type chosen.\<close>

theorem oracle_number_fits:
  assumes "oracle_base c \<in> number_names" and "0 < ci_Precision c" and "ci_Scale c = 0"
    and "ci_OracleMySQLAutoType c = []" and "\<bar>v\<bar> < 10 ^ nat (ci_Precision c)"
  shows "holds_integer (OracleToPG c x y) v \<and> holds_integer (OracleToMySQL c x y) v \<and> holds_integer (OracleToOscar c x y) v"
proof -
  note bound = digits_bound [OF assms(5) _ assms(2)]
  have small: "- (2 ^ 15) \<le> v \<and> v < 2 ^ 15" if "ci_Precision c \<le> 4" using bound [OF that] by (auto simp: abs_less_iff)
  have int: "- (2 ^ 31) \<le> v \<and> v < 2 ^ 31" if "ci_Precision c \<le> 9" using bound [OF that] by (auto simp: abs_less_iff)
  have big: "- (2 ^ 63) \<le> v \<and> v < 2 ^ 63" if "ci_Precision c \<le> 18" using bound [OF that] by (auto simp: abs_less_iff)
  show ?thesis
    unfolding number_mappings [OF assms(1-4)]
    using small int big assms(5) by (auto intro: holds_integer.intros)
qed

theorem oracle_number_fits_witness:
  "holds_integer (OracleToPG (zero_column\<lparr>ci_DataType := ''number(18)'', ci_Precision := 18\<rparr>) False False) (10 ^ 18 - 1) \<and>
   holds_integer (OracleToMySQL (zero_column\<lparr>ci_DataType := ''number(18)'', ci_Precision := 18\<rparr>) False False) (10 ^ 18 - 1) \<and>
   holds_integer (OracleToOscar (zero_column\<lparr>ci_DataType := ''number(18)'', ci_Precision := 18\<rparr>) False False) (10 ^ 18 - 1)"
  by (rule oracle_number_fits) code_simp+

text \<open>Three texts the mappings get wrong: a time zone and an interval after a size are not recognised, and a scale beyond
  the precision (or a negative one) is passed on to MySQL.\<close>

lemma oracle_pg_divergences:
  "OracleToPG (zero_column\<lparr>ci_DataType := ''TIMESTAMP(6) WITH TIME ZONE''\<rparr>) False False = ''timestamp without time zone''"
  "OracleToPG (zero_column\<lparr>ci_DataType := ''INTERVAL YEAR(2) TO MONTH''\<rparr>) False False = ''interval year(2) to month''"
  by code_simp+

lemma oracle_mysql_scale:
  "OracleToMySQL (zero_column\<lparr>ci_DataType := ''NUMBER'', ci_Precision := 2, ci_Scale := 5\<rparr>) False False = ''decimal(2,5)''"
  "OracleToMySQL (zero_column\<lparr>ci_DataType := ''NUMBER'', ci_Precision := 5, ci_Scale := -2\<rparr>) False False = ''decimal(5,0)''"
  by code_simp+

section \<open>DaMeng\<close>

lemma without_sizes_plain: "list_all (\<lambda>c. c \<noteq> CHR ''('') s \<Longrightarrow> length s \<le> n \<Longrightarrow> without_sizes n s = s"
  by (induction n s rule: without_sizes.induct) (auto simp: sizes_rest_def)

lemma fields_plain: "list_all (\<lambda>c. \<not> is_space c) s \<Longrightarrow> rev acc @ s \<noteq> [] \<Longrightarrow> str_fields_aux acc s = [rev acc @ s]"
  by (induction acc s rule: str_fields_aux.induct) auto

lemma trim_plain: "list_all (\<lambda>c. \<not> is_space c) s \<Longrightarrow> trim_space s = s"
proof -
  assume s: "list_all (\<lambda>c. \<not> is_space c) s"
  have "dropWhile is_space t = t" if "list_all (\<lambda>c. \<not> is_space c) t" for t using that by (cases t) auto
  then show ?thesis using s by (simp add: trim_space_def)
qed

lemma spatial_form:
  assumes "oracleDamengSpatialType t"
  obtains r where "t = ''SYSGEO.ST_'' @ r" "list_all (\<lambda>d. is_upper d \<or> is_digit d \<or> d = CHR ''_'') r"
proof -
  let ?r = "drop (length ''SYSGEO.ST_'') t"
  have "take (length ''SYSGEO.ST_'') t = ''SYSGEO.ST_''"
    using assms unfolding oracleDamengSpatialType_def has_prefix_def by (rule conjunct1)
  then have "t = ''SYSGEO.ST_'' @ ?r" using append_take_drop_id [of "length ''SYSGEO.ST_''" t] by (simp only:)
  then obtain r where r: "t = ''SYSGEO.ST_'' @ r" by (rule exE [OF exI])
  have "list_all (\<lambda>d. is_upper d \<or> is_digit d \<or> d = CHR ''_'') r"
    using assms by (auto simp: r oracleDamengSpatialType_def split: list.splits)
  with r show thesis by (rule that)
qed

lemma spatial_chars:
  assumes "oracleDamengSpatialType t"
  shows "list_all (\<lambda>c. \<not> is_space c \<and> c \<noteq> CHR ''('' \<and> upper_char c = c) t \<and> t \<noteq> []"
proof -
  have char: "\<not> is_space c \<and> c \<noteq> CHR ''('' \<and> upper_char c = c" if "is_upper c \<or> is_digit c \<or> c = CHR ''_''" for c
    using that by (auto simp: is_upper_def is_digit_def is_space_def upper_char_def Let_def)
  obtain r where "t = ''SYSGEO.ST_'' @ r" "list_all (\<lambda>d. is_upper d \<or> is_digit d \<or> d = CHR ''_'') r"
    by (rule spatial_form [OF assms])
  moreover from this(2) have "list_all (\<lambda>c. \<not> is_space c \<and> c \<noteq> CHR ''('' \<and> upper_char c = c) r"
    using char by (auto simp: list_all_iff)
  moreover have "list_all (\<lambda>c. \<not> is_space c \<and> c \<noteq> CHR ''('' \<and> upper_char c = c) ''SYSGEO.ST_''" by code_simp
  ultimately show ?thesis by (simp only: list_all_append) simp
qed

lemma spatial_base: "oracleDamengSpatialType t \<Longrightarrow> OracleDamengBaseType t = t"
proof -
  assume "oracleDamengSpatialType t"
  then have c: "list_all (\<lambda>c. \<not> is_space c) t" "list_all (\<lambda>c. c \<noteq> CHR ''('') t" "to_upper t = t" "t \<noteq> []"
    using spatial_chars [of t] by (auto simp: list_all_iff to_upper_def intro!: map_idI)
  then show ?thesis
    using fields_plain [of t "[]"]
    by (simp add: OracleDamengBaseType_def Let_def trim_plain without_sizes_plain str_fields_def)
qed

lemma spatial_dameng: "oracleDamengSpatialType t \<Longrightarrow> dameng_type (''SYSGEO2.'' @ trim_prefix t ''SYSGEO.'')"
proof -
  assume "oracleDamengSpatialType t"
  then obtain r where "t = ''SYSGEO.ST_'' @ r" by (rule spatial_form)
  then have "trim_prefix t ''SYSGEO.'' = ''ST_'' @ r" by (simp add: trim_prefix_def has_prefix_def)
  then show ?thesis by (intro dameng_type.spatial) (simp add: has_prefix_def)
qed

lemma OracleToDameng_empty: "(OracleToDameng c x y = []) = (OracleToDameng c False False = [])"
  unfolding OracleToDameng_def Let_def
  by (rule both_empty_if | rule refl | simp add: oracle_dameng_char_def sized_type_def unit_type_def Let_def)+

text \<open>Within the sizes the validator accepts, every type the mapping knows is well-formed.\<close>

lemma OracleToDameng_sized:
  assumes "oracle_sizes_ok c = Inr ()" and "OracleDamengBaseType (OracleDamengSourceType c) = OracleDamengBaseType (ci_DataType c)"
  shows "OracleToDameng c x y = [] \<or> dameng_type (OracleToDameng c x y)"
proof -
  let ?base = "OracleDamengBaseType (ci_DataType c)"
  have number: "dameng_type (scaled_type ''NUMBER'' (ci_Precision c) (ci_Scale c))"
    if "?base \<in> {''NUMBER'', ''NUMERIC'', ''DECIMAL'', ''DEC''}" "ci_Precision c > 0"
    using that assms(1) by (auto simp: oracle_sizes_ok_def split: if_splits intro!: dameng_type.number)
  have chars: "dameng_type (oracle_dameng_char ?base c x y)" if "?base \<in> set oracle_char_names"
  proof -
    have "?base \<notin> {''NUMBER'', ''NUMERIC'', ''DECIMAL'', ''DEC''}" using that by (auto simp: oracle_char_names_def)
    then have "1 \<le> ci_Length c" "ci_Length c \<le> 32767" "ci_DataLength c \<le> 32767"
      using that assms(1) by (auto simp: oracle_sizes_ok_def split: if_splits)
    then show ?thesis
      by (auto simp: oracle_dameng_char_def Let_def intro!: dameng_type.chars dameng_type.bytes)
  qed
  have raw: "dameng_type (sized_type ''VARBINARY'' (raw_length c))" if "?base = ''RAW''"
    using that assms(1) by (auto simp: oracle_sizes_ok_def oracle_char_names_def split: if_splits intro!: dameng_type.bytes)
  have "0 \<le> OracleDamengTimestampPrecision c \<and> OracleDamengTimestampPrecision c \<le> 9"
    if "?base \<in> {''TIMESTAMP'', ''TIMESTAMP WITH TIME ZONE'', ''TIMESTAMP WITH LOCAL TIME ZONE''}"
    using that
    by (elim insertE emptyE; use assms(1) in \<open>simp add: oracle_sizes_ok_def oracle_char_names_def split: if_splits\<close>)
  then have stamp: "dameng_type (sized_type ''TIMESTAMP'' (OracleDamengTimestampPrecision c) @ q)"
    if "?base \<in> {''TIMESTAMP'', ''TIMESTAMP WITH TIME ZONE'', ''TIMESTAMP WITH LOCAL TIME ZONE''}" "q \<in> {[], '' WITH TIME ZONE''}" for q
    using that by (intro dameng_type.timestamp) blast+
  have interval: "1 \<le> fst (OracleDamengIntervalPrecisions c) \<and> fst (OracleDamengIntervalPrecisions c) \<le> 9 \<and>
      0 \<le> snd (OracleDamengIntervalPrecisions c) \<and> snd (OracleDamengIntervalPrecisions c) \<le> 6"
    if "?base \<in> {''INTERVAL YEAR TO MONTH'', ''INTERVAL DAY TO SECOND''}"
    using that
    by (elim insertE emptyE; use assms(1) in \<open>cases "OracleDamengIntervalPrecisions c";
        simp add: oracle_sizes_ok_def oracle_char_names_def split: if_splits\<close>)
  have "every (\<lambda>t. t = [] \<or> dameng_type t) (Inr (OracleToDameng c x y) :: type_error + string)"
    unfolding OracleToDameng_def Let_def assms(2)
    by (rule every_known | rule every_test
        | (rule every_leaf(2), rule disjI1, rule refl)
        | (rule every_leaf(2), rule disjI2, rule spatial_dameng, assumption)
        | (rule every_leaf(2), rule disjI2, rule number, assumption, assumption)
        | (rule every_leaf(2), rule disjI2, rule chars, assumption)
        | (rule every_leaf(2), rule disjI2, rule raw, assumption)
        | (rule every_leaf(2), rule disjI2, rule dameng_plain)
        | (rule every_leaf(2), rule disjI2, rule dameng_type.float; simp)
        | (rule every_leaf(2), rule disjI2, rule stamp, assumption, force simp: trim_prefix_def has_prefix_def)
        | (rule every_leaf(2), rule disjI2, rule dameng_type.year_interval dameng_type.day_interval; simp add: interval))+
  then show ?thesis by simp
qed

text \<open>C40: An Oracle column that passes the check before a DaMeng migration is not generated; either its type is built in,
  or it is one of XMLTYPE, SDO_GEOMETRY, SDE's ST_GEOMETRY and the SYSGEO.ST_ types and not of another kind than
  ''user_defined''; an identity column is BY DEFAULT ON NULL. And its DaMeng type is well-formed (sizes
  within the target's limits, never the empty text), for every setting of the character options.\<close>

theorem ValidateOracleDamengColumn_wf:
  assumes "ValidateOracleDamengColumn c = Inr ()"
  shows "ci_Generated c = [] \<and>
    (ci_TypeKind c = [] \<and> ci_TypeSchema c = [] \<or>
     ci_TypeKind c \<in> {[], ''user_defined''} \<and>
     (OracleDamengSourceType c \<in> {''SYS.XMLTYPE'', ''MDSYS.SDO_GEOMETRY'', ''SDE.ST_GEOMETRY''} \<or>
      oracleDamengSpatialType (OracleDamengSourceType c))) \<and>
    (ci_Identity c = [] \<or> equal_fold (trim_space (ci_Identity c)) ''BY DEFAULT ON NULL'') \<and>
    dameng_type (OracleToDameng c charLength national)"
proof -
  from assms have sizes: "oracle_sizes_ok c = Inr ()" and known: "OracleToDameng c charLength national \<noteq> []"
    and user: "ci_TypeKind c = [] \<and> ci_TypeSchema c = [] \<or> oracle_user_type_ok c"
    and rest: "ci_Generated c = []" "ci_Identity c = [] \<or> equal_fold (trim_space (ci_Identity c)) ''BY DEFAULT ON NULL''"
    using OracleToDameng_empty [of c charLength national] by (auto simp: ValidateOracleDamengColumn_def split: if_splits)
  have "dameng_type (OracleToDameng c charLength national)"
  proof (cases "ci_TypeSchema c = []")
    case True
    then have "OracleDamengSourceType c = ci_DataType c" by (simp add: OracleDamengSourceType_def)
    then show ?thesis using OracleToDameng_sized [OF sizes] known by metis
  next
    case False
    let ?t = "OracleDamengSourceType c"
    have "?t \<in> {''SYS.XMLTYPE'', ''MDSYS.SDO_GEOMETRY'', ''SDE.ST_GEOMETRY''} \<or> oracleDamengSpatialType ?t"
      using user False by (auto simp: oracle_user_type_ok_def Let_def)
    then consider (spatial) "oracleDamengSpatialType ?t" | (xml) "?t = ''SYS.XMLTYPE''"
      | (mdsys) "?t = ''MDSYS.SDO_GEOMETRY''" | (sde) "?t = ''SDE.ST_GEOMETRY''" by auto
    then show ?thesis
    proof cases
      case spatial
      then show ?thesis using spatial_base [OF spatial] spatial_dameng [OF spatial] by (simp add: OracleToDameng_def)
    next
      case xml
      have "OracleDamengBaseType ''SYS.XMLTYPE'' = ''SYS.XMLTYPE''" by code_simp
      then show ?thesis
        using xml by (simp add: OracleToDameng_def oracleDamengSpatialType_def has_prefix_def oracle_char_names_def dameng_plain)
    next
      case mdsys
      have "OracleDamengBaseType ''MDSYS.SDO_GEOMETRY'' = ''MDSYS.SDO_GEOMETRY''" by code_simp
      then show ?thesis
        using mdsys by (simp add: OracleToDameng_def oracleDamengSpatialType_def has_prefix_def oracle_char_names_def dameng_plain)
    next
      case sde
      have "OracleDamengBaseType ''SDE.ST_GEOMETRY'' = ''SDE.ST_GEOMETRY''" by code_simp
      then show ?thesis
        using sde by (simp add: OracleToDameng_def oracleDamengSpatialType_def has_prefix_def oracle_char_names_def dameng_plain)
    qed
  qed
  with user rest show ?thesis by (auto simp: oracle_user_type_ok_def Let_def)
qed

theorem ValidateOracleDamengColumn_wf_witness:
  "dameng_type (OracleToDameng (zero_column\<lparr>ci_DataType := ''timestamp (6) with local time zone''\<rparr>) True False) \<and>
   dameng_type (OracleToDameng (zero_column\<lparr>ci_DataType := ''ST_POINT'', ci_TypeSchema := ''SYSGEO'',
     ci_TypeKind := ''user_defined''\<rparr>) True False)"
proof -
  have "ValidateOracleDamengColumn (zero_column\<lparr>ci_DataType := ''timestamp (6) with local time zone''\<rparr>) = Inr ()"
    "ValidateOracleDamengColumn (zero_column\<lparr>ci_DataType := ''ST_POINT'', ci_TypeSchema := ''SYSGEO'',
       ci_TypeKind := ''user_defined''\<rparr>) = Inr ()"
    by code_simp+
  from this [THEN ValidateOracleDamengColumn_wf] show ?thesis by blast
qed

end
