(* ===== verification/TypeRegistry.thy ===== *)
theory TypeRegistry
  imports "HOL-Library.Multiset" TypeFromOracle
begin

text \<open>
  The registry of type mappings (\<^verbatim>\<open>typemap/registry.go\<close>) and the registrations of the
  \<open>init\<close> functions of every file of the package. Go runs the \<open>init\<close> functions in the order in which the
  files are given to the compiler; the registry does not depend on it.
\<close>

type_synonym mapper = "ColumnInfo \<Rightarrow> bool \<Rightarrow> bool \<Rightarrow> string"
type_synonym type_registry = "string \<Rightarrow> mapper option"

definition registry_key :: "string \<Rightarrow> string \<Rightarrow> string" where
  "registry_key srcType dstType = srcType @ ''_'' @ dstType"

definition register_mapper :: "string \<Rightarrow> string \<Rightarrow> mapper \<Rightarrow> type_registry \<Rightarrow> type_registry" where
  "register_mapper srcType dstType m reg = reg(registry_key srcType dstType \<mapsto> m)"

definition get_mapper :: "type_registry \<Rightarrow> string \<Rightarrow> string \<Rightarrow> mapper option" where
  "get_mapper reg srcType dstType = reg (registry_key srcType dstType)"

text \<open>The PostgreSQL family, in the order of the files.\<close>

definition pg_family :: "string list" where
  "pg_family = [''postgres'', ''gaussdb'', ''seabox'', ''highgo'', ''vastbase'', ''gbase'', ''kingbase'']"

definition registrations :: "(string \<times> string \<times> mapper) list" where
  "registrations =
     (''dameng'', ''mysql'', DaMengToMySQL) #
     map (\<lambda>d. (''dameng'', d, DaMengToPG)) pg_family @
     (''mysql'', ''dameng'', MySQLToDameng) #
     (''mysql'', ''mysql'', MySQLToMySQL) #
     (''mysql'', ''oracle'', MySQLToOracle) #
     map (\<lambda>d. (''mysql'', d, MySQLToPG)) pg_family @
     (''mysql'', ''sqlserver'', MySQLToSQLServer) #
     (''oracle'', ''dameng'', OracleToDameng) #
     (''oracle'', ''mysql'', OracleToMySQL) #
     map (\<lambda>d. (''oracle'', d, OracleToPG)) pg_family @
     (''mysql'', ''oscar'', MySQLToOscar) #
     (''sqlserver'', ''oscar'', SQLServerToOscar) #
     (''oracle'', ''oscar'', OracleToOscar) #
     (''dameng'', ''oscar'', DaMengToOscar) #
     (''postgres'', ''dameng'', PGToDameng) #
     map (\<lambda>s. (s, ''mysql'', PGToMySQL)) pg_family @
     (''sqlserver'', ''dameng'', SQLServerToDameng) #
     (''sqlserver'', ''mysql'', SQLServerToMySQL) #
     map (\<lambda>d. (''sqlserver'', d, SQLServerToPG)) pg_family"

definition run_inits :: "(string \<times> string \<times> mapper) list \<Rightarrow> type_registry" where
  "run_inits rs = foldl (\<lambda>reg (s, d, m). register_mapper s d m reg) Map.empty rs"

lemma run_inits_map_of:
  "foldl (\<lambda>reg (s, d, m). register_mapper s d m reg) reg rs =
   reg ++ map_of (rev (map (\<lambda>(s, d, m). (registry_key s d, m)) rs))"
proof (induction rs arbitrary: reg)
  case (Cons r rs)
  obtain s d m where r: "r = (s, d, m)" by (cases r) auto
  show ?case unfolding r by (simp add: Cons.IH) (simp only: register_mapper_def map_add_assoc [symmetric] map_add_upd map_add_empty)
qed simp

lemma run_inits_distinct:
  assumes "distinct (map (\<lambda>(s, d, m). registry_key s d) rs)"
  shows "run_inits rs k = Some m \<longleftrightarrow> (\<exists>s d. (s, d, m) \<in> set rs \<and> k = registry_key s d)"
proof -
  let ?xs = "map (\<lambda>(s, d, m). (registry_key s d, m)) rs"
  have "map fst (rev ?xs) = rev (map (\<lambda>(s, d, m). registry_key s d) rs)"
    by (simp add: rev_map comp_def case_prod_unfold)
  then have "distinct (map fst (rev ?xs))" using assms by simp
  then have "map_of (rev ?xs) k = Some m \<longleftrightarrow> (k, m) \<in> set (rev ?xs)" by (rule map_of_eq_Some_iff)
  moreover have "(k, m) \<in> set (rev ?xs) \<longleftrightarrow> (\<exists>s d. (s, d, m) \<in> set rs \<and> k = registry_key s d)"
    by (auto simp: image_iff Bex_def; metis case_prod_conv)
  ultimately show ?thesis by (simp add: run_inits_def run_inits_map_of)
qed

lemma registrations_distinct: "distinct (map (\<lambda>(s, d, m). registry_key s d) registrations)"
  by (simp add: registrations_def pg_family_def registry_key_def)

text \<open>The registry is the same whatever the order in which the init functions of the package run, since no two of them
  register the same pair of databases: every registered mapping is found under its pair, and nothing else is.\<close>

theorem registry_order_independent:
  assumes "mset rs = mset registrations"
  shows "run_inits rs = run_inits registrations \<and>
    (get_mapper (run_inits rs) s d = Some m) = (\<exists>s' d'. (s', d', m) \<in> set registrations \<and> registry_key s d = registry_key s' d')"
proof -
  have set_eq: "set rs = set registrations" using assms by (rule mset_eq_setD)
  have "mset (map (\<lambda>(s, d, m). registry_key s d) rs) = mset (map (\<lambda>(s, d, m). registry_key s d) registrations)"
    using assms by (simp only: mset_map)
  then have dist: "distinct (map (\<lambda>(s, d, m). registry_key s d) rs)"
    using registrations_distinct mset_eq_imp_distinct_iff by blast
  have "(run_inits rs k = Some m) = (run_inits registrations k = Some m)" for k m
    by (simp only: run_inits_distinct [OF dist] run_inits_distinct [OF registrations_distinct] set_eq)
  then have "run_inits rs k = run_inits registrations k" for k
    by (metis option.exhaust)
  then show ?thesis
    using run_inits_distinct [OF registrations_distinct, of "registry_key s d" m] by (auto simp: get_mapper_def)
qed

theorem registry_order_independent_witness:
  "run_inits (rev registrations) = run_inits registrations \<and>
   (get_mapper (run_inits (rev registrations)) ''oracle'' ''oscar'' = Some OracleToOscar) =
   (\<exists>s' d'. (s', d', OracleToOscar) \<in> set registrations \<and> registry_key ''oracle'' ''oscar'' = registry_key s' d')"
  by (rule registry_order_independent) simp

text \<open>No two pairs of database names share a key as long as the names hold no underscore: a lookup cannot return the
  mapping of another pair.\<close>

lemma registry_key_injective:
  assumes "CHR ''_'' \<notin> set s" and "CHR ''_'' \<notin> set s'" and "get_mapper (register_mapper s d m Map.empty) s' d' = Some m'"
  shows "s' = s \<and> d' = d \<and> m' = m"
proof -
  have key: "s' @ ''_'' @ d' = s @ ''_'' @ d" "m' = m"
    using assms(3) by (auto simp: get_mapper_def register_mapper_def registry_key_def split: if_splits)
  have "takeWhile (\<lambda>c. c \<noteq> CHR ''_'') (s' @ ''_'' @ d') = s'" "takeWhile (\<lambda>c. c \<noteq> CHR ''_'') (s @ ''_'' @ d) = s"
    using assms(1,2) by (subst takeWhile_append2; force)+
  then show ?thesis using key by auto
qed

end
