(* ===== verification/MigrationState.thy ===== *)
theory MigrationState
  imports GoPrelude
begin

text \<open>
  Failures of tables and what they block (\<^verbatim>\<open>migration_state.go\<close>,
  \<^verbatim>\<open>migration_target_dependencies.go\<close>): the failure of a source table recorded once, the
  objects of the repair ledger that must not run because something they depend on has failed, and the
  target tables that must not be rebuilt because a retained table still refers to them. A Go map that is
  iterated is an association list with distinct keys, in the order the iteration delivers; an error value
  is its text.
\<close>

section \<open>Data\<close>

record migration_failure =
  mf_stage :: string
  mf_err :: string

type_synonym object_ref = "string \<times> string \<times> string"

record table_state =
  ts_failures :: "(string \<times> migration_failure) list"
  ts_objects :: "object_ref \<rightharpoonup> string"

record naming =
  nm_upper :: bool
  nm_lower :: bool

definition objName :: "naming \<Rightarrow> string \<Rightarrow> string" where
  "objName nm s = (if nm_upper nm then to_upper s else if nm_lower nm then to_lower s else s)"

datatype object_error =
    OwnFailure string
  | DependencyFailed string
  | DependencyNotMigrated

record repair_unit =
  u_status :: string
  u_error :: "object_error option"

record repair_object =
  o_id :: string
  o_kind :: string
  o_table :: string
  o_source_name :: string
  o_source_table :: string
  o_fk_ref :: "string option"
  o_status :: string
  o_error :: "object_error option"
  o_units :: "repair_unit list"
  o_deps :: "string list"
  o_data_status :: string

section \<open>Recording failures\<close>

definition blockMigrationObject :: "object_ref \<Rightarrow> string option \<Rightarrow> table_state \<Rightarrow> table_state" where
  "blockMigrationObject ref err ts =
     (case err of None \<Rightarrow> ts | Some e \<Rightarrow> ts\<lparr>ts_objects := (ts_objects ts)(ref \<mapsto> e)\<rparr>)"

definition blockMigrationTable :: "string \<Rightarrow> string \<Rightarrow> string option \<Rightarrow> table_state \<Rightarrow> table_state" where
  "blockMigrationTable table stage err ts =
     (case err of
        None \<Rightarrow> ts
      | Some e \<Rightarrow>
          if table = [] \<or> table \<in> set (map fst (ts_failures ts)) then ts
          else ts\<lparr>ts_failures := ts_failures ts @ [(table, \<lparr>mf_stage = stage, mf_err = e\<rparr>)]\<rparr>)"

definition migrationTableError :: "table_state \<Rightarrow> string \<Rightarrow> string option" where
  "migrationTableError ts table = map_option mf_err (map_of (ts_failures ts) table)"

definition migrationTableBlocked :: "table_state \<Rightarrow> string \<Rightarrow> bool" where
  "migrationTableBlocked ts table \<longleftrightarrow> migrationTableError ts table \<noteq> None"

record partition_result =
  pr_target :: string
  pr_error :: string
  pr_blocked :: bool

datatype target_failure = TableFailed string | PartitionFailed string string

definition migrationTargetTableError ::
  "naming \<Rightarrow> table_state \<Rightarrow> (string \<times> partition_result) list \<Rightarrow> string \<Rightarrow> target_failure option" where
  "migrationTargetTableError nm ts partitions target =
     (case List.find (\<lambda>(table, f). objName nm table = target) (ts_failures ts) of
        Some (table, f) \<Rightarrow> Some (TableFailed (mf_err f))
      | None \<Rightarrow>
          (case List.find (\<lambda>(name, p). pr_blocked p \<and> (objName nm name = target \<or> pr_target p = target)) partitions of
             Some (name, p) \<Rightarrow> Some (PartitionFailed name (pr_error p))
           | None \<Rightarrow> None))"

section \<open>Reconciling the ledger\<close>

text \<open>Two failed tables may fold to one target name: the last one of the iteration stays.\<close>

definition failed_target :: "naming \<Rightarrow> table_state \<Rightarrow> string \<rightharpoonup> migration_failure" where
  "failed_target nm ts = foldl (\<lambda>m (table, f). m(objName nm table \<mapsto> f)) Map.empty (ts_failures ts)"

definition or_else :: "'a option \<Rightarrow> 'a option \<Rightarrow> 'a option" where
  "or_else a b = (case a of None \<Rightarrow> b | Some x \<Rightarrow> Some x)"

definition object_failure :: "naming \<Rightarrow> table_state \<Rightarrow> repair_object \<Rightarrow> migration_failure option" where
  "object_failure nm ts ob =
     or_else (map_of (ts_failures ts) (o_source_table ob))
       (or_else (if o_kind ob = ''table'' \<or> o_kind ob = ''data'' then map_of (ts_failures ts) (o_source_name ob) else None)
         (or_else (failed_target nm ts (o_table ob))
           (case o_fk_ref ob of None \<Rightarrow> None | Some ref \<Rightarrow> failed_target nm ts ref)))"

definition block_units :: "object_error \<Rightarrow> repair_unit list \<Rightarrow> repair_unit list" where
  "block_units e us =
     map (\<lambda>u. if u_status u = ''pending'' then u\<lparr>u_status := ''blocked'', u_error := Some e\<rparr> else u) us"

definition block_object :: "object_error \<Rightarrow> repair_object \<Rightarrow> repair_object" where
  "block_object e ob = ob\<lparr>o_status := ''blocked'', o_error := Some e, o_units := block_units e (o_units ob)\<rparr>"

definition reconcile_table :: "migration_failure \<Rightarrow> repair_object \<Rightarrow> repair_object" where
  "reconcile_table f ob =
     (if mf_stage f = ''data'' \<or> mf_stage f = ''validation''
      then (if o_data_status ob \<noteq> ''not_required'' then ob\<lparr>o_data_status := ''failed''\<rparr> else ob)
      else
        let ob' = (if o_status ob = ''pending'' then ob\<lparr>o_status := ''failed'', o_error := Some (OwnFailure (mf_err f))\<rparr> else ob)
        in if o_data_status ob' \<noteq> ''not_required'' then ob'\<lparr>o_data_status := ''blocked''\<rparr> else ob')"

definition reconcile_object :: "naming \<Rightarrow> table_state \<Rightarrow> repair_object \<Rightarrow> repair_object" where
  "reconcile_object nm ts ob =
     (if o_kind ob = ''table''
      then (case object_failure nm ts ob of None \<Rightarrow> ob | Some f \<Rightarrow> reconcile_table f ob)
      else
        (case (case ts_objects ts (o_kind ob, o_source_table ob, o_source_name ob) of
                 Some e \<Rightarrow> Some e | None \<Rightarrow> map_option mf_err (object_failure nm ts ob)) of
           None \<Rightarrow> ob
         | Some e \<Rightarrow>
             if o_status ob = ''pending'' \<or> o_status ob = ''blocked'' then block_object (DependencyFailed e) ob else ob))"

text \<open>One round over the dependencies: statuses are those at the start of the round, of the last object
  with an id.\<close>

definition states :: "repair_object list \<Rightarrow> string \<rightharpoonup> string" where
  "states objs = map_of (rev (map (\<lambda>ob. (o_id ob, o_status ob)) objs))"

definition dependency_missing :: "(string \<rightharpoonup> string) \<Rightarrow> string \<Rightarrow> bool" where
  "dependency_missing st dep \<longleftrightarrow> (case st dep of None \<Rightarrow> False | Some s \<Rightarrow> s \<noteq> [] \<and> s \<noteq> ''succeeded'')"

definition dependency_step :: "(string \<rightharpoonup> string) \<Rightarrow> repair_object \<Rightarrow> repair_object" where
  "dependency_step st ob =
     (if o_status ob = ''pending'' \<and> list_ex (dependency_missing st) (o_deps ob)
      then block_object DependencyNotMigrated ob else ob)"

definition dependency_round :: "repair_object list \<Rightarrow> repair_object list" where
  "dependency_round objs = map (dependency_step (states objs)) objs"

definition pending_count :: "repair_object list \<Rightarrow> nat" where
  "pending_count objs = length (filter (\<lambda>ob. o_status ob = ''pending'') objs)"

definition round_changes :: "repair_object list \<Rightarrow> bool" where
  "round_changes objs \<longleftrightarrow>
     list_ex (\<lambda>ob. o_status ob = ''pending'' \<and> list_ex (dependency_missing (states objs)) (o_deps ob)) objs"

lemma block_object_simps [simp]:
  "o_status (block_object e ob) = ''blocked''" "o_id (block_object e ob) = o_id ob" "o_deps (block_object e ob) = o_deps ob"
  by (simp_all add: block_object_def)

lemma dependency_step_status:
  "o_status (dependency_step st ob) = ''pending'' \<longleftrightarrow> o_status ob = ''pending'' \<and> \<not> list_ex (dependency_missing st) (o_deps ob)"
  by (auto simp: dependency_step_def)

lemma pending_count_round:
  assumes "round_changes objs"
  shows "pending_count (dependency_round objs) < pending_count objs"
proof -
  have le: "pending_count (map (dependency_step st) os) \<le> pending_count os" for st os
    by (induction os) (auto simp: pending_count_def dependency_step_status)
  have "pending_count (map (dependency_step st) os) < pending_count os"
    if "list_ex (\<lambda>ob. o_status ob = ''pending'' \<and> list_ex (dependency_missing st) (o_deps ob)) os" for st os
    using that
  proof (induction os)
    case (Cons ob os)
    then show ?case using le [of st os] by (auto simp: pending_count_def dependency_step_status)
  qed simp
  then show ?thesis using assms by (simp add: dependency_round_def round_changes_def)
qed

function dependency_loop :: "repair_object list \<Rightarrow> repair_object list" where
  "dependency_loop objs = (if round_changes objs then dependency_loop (dependency_round objs) else dependency_round objs)"
  by auto
termination
  by (relation "measure pending_count") (simp_all add: pending_count_round)

declare dependency_loop.simps [simp del]

definition reconcileMigrationFailures :: "naming \<Rightarrow> table_state \<Rightarrow> repair_object list \<Rightarrow> repair_object list" where
  "reconcileMigrationFailures nm ts objs = dependency_loop (map (reconcile_object nm ts) objs)"

section \<open>Tables that must not be rebuilt\<close>

record relation =
  rl_schema :: string
  rl_table :: string
  rl_name :: string
  rl_ref_schema :: string
  rl_ref_table :: string

record dependency_snapshot =
  sn_schema :: string
  sn_fold :: bool
  sn_relations :: "relation list"

text \<open>What the sweep works on: the scope with the target name of every table, the retained and the completed
  tables.\<close>

record sweep_scope =
  sc_scope :: "string list"
  sc_target :: "string \<Rightarrow> string"
  sc_retained :: "string \<Rightarrow> bool"
  sc_completed :: "string \<Rightarrow> bool"

definition protect_scope ::
  "naming \<Rightarrow> table_state \<Rightarrow> string list \<Rightarrow> (string \<times> partition_result) list \<Rightarrow> (string \<Rightarrow> bool) \<Rightarrow> sweep_scope" where
  "protect_scope nm ts tables partitions completed =
     (let held = filter (\<lambda>(name, p). pr_blocked p) partitions in
      \<lparr>sc_scope = tables @ filter (\<lambda>t. t \<notin> set tables) (map fst held),
       sc_target = (\<lambda>t. case map_of held t of
           Some p \<Rightarrow> if pr_target p \<noteq> [] then pr_target p else objName nm t | None \<Rightarrow> objName nm t),
       sc_retained = (\<lambda>t. map_of held t \<noteq> None \<or> (t \<in> set tables \<and> migrationTableBlocked ts t)),
       sc_completed = completed\<rparr>)"

definition fold_key :: "dependency_snapshot \<Rightarrow> string \<Rightarrow> string" where
  "fold_key sn s = (if sn_fold sn then to_lower s else s)"

definition named :: "dependency_snapshot \<Rightarrow> sweep_scope \<Rightarrow> string \<Rightarrow> string list" where
  "named sn sc key = filter (\<lambda>t. fold_key sn (sc_target sc t) = key) (sc_scope sc)"

definition child_rebuilt :: "dependency_snapshot \<Rightarrow> sweep_scope \<Rightarrow> table_state \<Rightarrow> relation \<Rightarrow> bool" where
  "child_rebuilt sn sc ts dep \<longleftrightarrow>
     fold_key sn (rl_schema dep) = fold_key sn (sn_schema sn) \<and> named sn sc (fold_key sn (rl_table dep)) \<noteq> [] \<and>
     list_all (\<lambda>child. \<not> sc_retained sc child \<and> \<not> migrationTableBlocked ts child) (named sn sc (fold_key sn (rl_table dep)))"

text \<open>The error text names the child table and the constraint.\<close>

definition protect_message :: "relation \<Rightarrow> string" where
  "protect_message dep = rl_schema dep @ ''.'' @ rl_table dep @ '' '' @ rl_name dep"

fun block_parents ::
  "sweep_scope \<Rightarrow> relation \<Rightarrow> string list \<Rightarrow> table_state \<times> string list \<times> bool \<Rightarrow> table_state \<times> string list \<times> bool" where
  "block_parents sc dep [] st = st"
| "block_parents sc dep (parent # ps) (ts, items, changed) =
     (if sc_completed sc parent \<or> sc_retained sc parent \<or> migrationTableBlocked ts parent
      then block_parents sc dep ps (ts, items, changed)
      else block_parents sc dep ps
             (blockMigrationTable parent ''dependency'' (Some (protect_message dep)) ts, items @ [parent], True))"

definition sweep_relation ::
  "dependency_snapshot \<Rightarrow> sweep_scope \<Rightarrow> relation \<Rightarrow> table_state \<times> string list \<times> bool \<Rightarrow> table_state \<times> string list \<times> bool" where
  "sweep_relation sn sc dep st =
     (if fold_key sn (rl_ref_schema dep) \<noteq> fold_key sn (sn_schema sn) then st
      else
        let parents = named sn sc (fold_key sn (rl_ref_table dep)) in
        if parents = [] \<or> child_rebuilt sn sc (fst st) dep then st else block_parents sc dep parents st)"

definition sweep :: "dependency_snapshot \<Rightarrow> sweep_scope \<Rightarrow> table_state \<times> string list \<Rightarrow> table_state \<times> string list \<times> bool" where
  "sweep sn sc st = foldl (\<lambda>st dep. sweep_relation sn sc dep st) (fst st, snd st, False) (sn_relations sn)"

partial_function (option) sweep_loop ::
  "dependency_snapshot \<Rightarrow> sweep_scope \<Rightarrow> table_state \<times> string list \<Rightarrow> (table_state \<times> string list) option" where
  "sweep_loop sn sc st =
     (case sweep sn sc st of (ts, items, changed) \<Rightarrow>
        if changed then sweep_loop sn sc (ts, items) else Some (ts, items))"

declare sweep_loop.simps [code]

datatype protect_problem = InspectFailed string | NoSchema | IncompleteRelation

definition relation_complete :: "relation \<Rightarrow> bool" where
  "relation_complete dep \<longleftrightarrow> rl_schema dep \<noteq> [] \<and> rl_table dep \<noteq> [] \<and> rl_name dep \<noteq> [] \<and>
     rl_ref_schema dep \<noteq> [] \<and> rl_ref_table dep \<noteq> []"

text \<open>
  \<open>protectRetainedMigrationTables\<close>: the result is the state and the tables it reports as skipped, or the
  problem that stops the task. \<open>None\<close> would be a sweep that never ends. \<open>data_only\<close> is a task that
  rebuilds no table, \<open>snapshot\<close> the answer of the target's catalog.
\<close>

definition protectRetainedMigrationTables ::
  "bool \<Rightarrow> string + dependency_snapshot \<Rightarrow> sweep_scope \<Rightarrow> table_state \<Rightarrow> (protect_problem + table_state \<times> string list) option" where
  "protectRetainedMigrationTables data_only snapshot sc ts =
     (if data_only \<or> \<not> list_ex (sc_retained sc) (sc_scope sc) \<or>
         \<not> list_ex (\<lambda>t. \<not> sc_retained sc t \<and> \<not> sc_completed sc t) (sc_scope sc)
      then Some (Inr (ts, []))
      else (case snapshot of
              Inl e \<Rightarrow> Some (Inl (InspectFailed e))
            | Inr sn \<Rightarrow>
                if sn_schema sn = [] then Some (Inl NoSchema)
                else if \<not> list_all relation_complete (sn_relations sn) then Some (Inl IncompleteRelation)
                else map_option Inr (sweep_loop sn sc (ts, []))))"

section \<open>Facts\<close>

definition last_with :: "repair_object list \<Rightarrow> string \<Rightarrow> repair_object option" where
  "last_with objs dep = map_of (rev (map (\<lambda>ob. (o_id ob, ob)) objs)) dep"

lemma states_last: "states objs dep = map_option o_status (last_with objs dep)"
  unfolding states_def last_with_def by (induction objs rule: rev_induct) auto

lemma dependency_step_id [simp]: "o_id (dependency_step st ob) = o_id ob" "o_deps (dependency_step st ob) = o_deps ob"
  by (simp_all add: dependency_step_def)

lemma last_with_map: "last_with (map (dependency_step st) objs) dep = map_option (dependency_step st) (last_with objs dep)"
  unfolding last_with_def by (induction objs rule: rev_induct) auto

text \<open>A round never makes a succeeded dependency fail, so what it leaves pending stays pending.\<close>

lemma dependency_missing_round:
  assumes "\<not> dependency_missing (states objs) dep"
  shows "\<not> dependency_missing (states (dependency_round objs)) dep"
proof (cases "last_with objs dep")
  case (Some ob)
  then have "o_status ob \<noteq> ''pending''" using assms by (auto simp: dependency_missing_def states_last)
  then have "dependency_step (states objs) ob = ob" by (simp add: dependency_step_def)
  then show ?thesis using assms Some by (simp add: dependency_missing_def states_last dependency_round_def last_with_map)
qed (simp add: dependency_missing_def states_last dependency_round_def last_with_map)

lemma round_settles: "\<not> round_changes (dependency_round objs)"
proof
  assume "round_changes (dependency_round objs)"
  then obtain ob where ob: "o_status (dependency_step (states objs) ob) = ''pending''"
    "list_ex (dependency_missing (states (dependency_round objs))) (o_deps ob)"
    by (auto simp: round_changes_def list_ex_iff dependency_round_def)
  then show False
    using dependency_missing_round [of objs] by (auto simp: dependency_step_status list_ex_iff)
qed

lemma round_unchanged: "\<not> round_changes objs \<Longrightarrow> dependency_round objs = objs"
  unfolding dependency_round_def by (rule map_idI) (auto simp: round_changes_def list_ex_iff dependency_step_def)

lemma dependency_loop_round: "dependency_loop objs = dependency_round objs"
proof (cases "round_changes objs")
  case True
  then have "dependency_loop objs = dependency_loop (dependency_round objs)" by (subst dependency_loop.simps) simp
  also have "\<dots> = dependency_round (dependency_round objs)"
    using round_settles [of objs] by (subst dependency_loop.simps) simp
  finally show ?thesis using round_unchanged [OF round_settles] by simp
qed (subst dependency_loop.simps, simp)

definition blocked_set :: "table_state \<Rightarrow> string set" where
  "blocked_set ts = set (map fst (ts_failures ts))"

lemma blocked_iff: "migrationTableBlocked ts t \<longleftrightarrow> t \<in> blocked_set ts"
  by (simp add: migrationTableBlocked_def migrationTableError_def blocked_set_def map_of_eq_None_iff)

lemma block_table_set:
  "t \<noteq> [] \<Longrightarrow> blocked_set (blockMigrationTable t stage (Some e) ts) = insert t (blocked_set ts)"
  by (auto simp: blockMigrationTable_def blocked_set_def)

definition rebuildable :: "sweep_scope \<Rightarrow> string \<Rightarrow> bool" where
  "rebuildable sc t \<longleftrightarrow> \<not> sc_completed sc t \<and> \<not> sc_retained sc t"

lemma block_parents_result:
  assumes "[] \<notin> set ps" "block_parents sc dep ps (ts, items, ch) = (ts', items', ch')"
  shows "blocked_set ts' = blocked_set ts \<union> {p \<in> set ps. rebuildable sc p} \<and>
    (ch' \<longleftrightarrow> ch \<or> (\<exists>p\<in>set ps. rebuildable sc p \<and> p \<notin> blocked_set ts)) \<and> (\<not> ch' \<longrightarrow> ts' = ts)"
  using assms
proof (induction ps arbitrary: ts items ch)
  case (Cons p ps)
  show ?case
  proof (cases "rebuildable sc p \<and> p \<notin> blocked_set ts")
    case True
    then have "block_parents sc dep ps
        (blockMigrationTable p ''dependency'' (Some (protect_message dep)) ts, items @ [p], True) = (ts', items', ch')"
      using Cons.prems(2) by (simp add: rebuildable_def blocked_iff)
    from Cons.IH [OF _ this] Cons.prems(1) show ?thesis
      using True block_table_set [of p "''dependency''" "protect_message dep" ts] by auto
  next
    case False
    then have "block_parents sc dep ps (ts, items, ch) = (ts', items', ch')"
      using Cons.prems(2) by (auto simp: rebuildable_def blocked_iff split: if_splits)
    from Cons.IH [OF _ this] Cons.prems(1) False show ?thesis by auto
  qed
qed simp

text \<open>A foreign key that lets its parent be rebuilt: no parent is rebuilt, or the child is.\<close>

definition dependency_safe :: "dependency_snapshot \<Rightarrow> sweep_scope \<Rightarrow> table_state \<Rightarrow> relation \<Rightarrow> bool" where
  "dependency_safe sn sc ts dep \<longleftrightarrow>
     fold_key sn (rl_ref_schema dep) \<noteq> fold_key sn (sn_schema sn) \<or> child_rebuilt sn sc ts dep \<or>
     list_all (\<lambda>p. \<not> rebuildable sc p \<or> migrationTableBlocked ts p) (named sn sc (fold_key sn (rl_ref_table dep)))"

lemma named_scope: "set (named sn sc k) \<subseteq> set (sc_scope sc)"
  by (auto simp: named_def)

lemma sweep_relation_result:
  assumes "[] \<notin> set (sc_scope sc)" "sweep_relation sn sc dep (ts, items, ch) = (ts', items', ch')"
  shows "blocked_set ts \<subseteq> blocked_set ts' \<and> blocked_set ts' \<subseteq> blocked_set ts \<union> set (sc_scope sc) \<and>
    (ch \<longrightarrow> ch') \<and> (ch' \<longrightarrow> ch \<or> blocked_set ts \<noteq> blocked_set ts') \<and> (\<not> ch' \<longrightarrow> ts' = ts \<and> dependency_safe sn sc ts dep)"
proof -
  let ?ps = "named sn sc (fold_key sn (rl_ref_table dep))"
  have ne: "[] \<notin> set ?ps" using assms(1) named_scope by blast
  show ?thesis
  proof (cases "fold_key sn (rl_ref_schema dep) \<noteq> fold_key sn (sn_schema sn) \<or> ?ps = [] \<or> child_rebuilt sn sc ts dep")
    case True
    then show ?thesis using assms(2)
      by (auto simp: sweep_relation_def Let_def dependency_safe_def split: if_splits)
  next
    case False
    then have "block_parents sc dep ?ps (ts, items, ch) = (ts', items', ch')"
      using assms(2) by (simp add: sweep_relation_def Let_def)
    from block_parents_result [OF ne this] show ?thesis
      using named_scope [of sn sc "fold_key sn (rl_ref_table dep)"]
      by (auto simp: dependency_safe_def list_all_iff blocked_iff)
  qed
qed

lemma sweep_fold_result:
  assumes "[] \<notin> set (sc_scope sc)"
    and "foldl (\<lambda>st dep. sweep_relation sn sc dep st) (ts, items, ch) deps = (ts', items', ch')"
  shows "blocked_set ts \<subseteq> blocked_set ts' \<and> blocked_set ts' \<subseteq> blocked_set ts \<union> set (sc_scope sc) \<and>
    (ch \<longrightarrow> ch') \<and> (ch' \<longrightarrow> ch \<or> blocked_set ts \<noteq> blocked_set ts') \<and>
    (\<not> ch' \<longrightarrow> ts' = ts \<and> list_all (dependency_safe sn sc ts) deps)"
  using assms(2)
proof (induction deps arbitrary: ts items ch)
  case (Cons dep deps)
  obtain ts1 items1 ch1 where one: "sweep_relation sn sc dep (ts, items, ch) = (ts1, items1, ch1)" by (rule prod_cases3)
  then have "foldl (\<lambda>st dep. sweep_relation sn sc dep st) (ts1, items1, ch1) deps = (ts', items', ch')"
    using Cons.prems by simp
  from Cons.IH [OF this] sweep_relation_result [OF assms(1) one] show ?case by auto
qed simp

lemma sweep_loop_ends:
  assumes "[] \<notin> set (sc_scope sc)"
  shows "\<exists>ts' items'. sweep_loop sn sc (ts, items) = Some (ts', items') \<and> blocked_set ts \<subseteq> blocked_set ts' \<and>
    blocked_set ts' \<subseteq> blocked_set ts \<union> set (sc_scope sc) \<and> list_all (dependency_safe sn sc ts') (sn_relations sn)"
proof (induction "card (set (sc_scope sc) - blocked_set ts)" arbitrary: ts items rule: less_induct)
  case less
  obtain ts1 items1 ch1 where one: "sweep sn sc (ts, items) = (ts1, items1, ch1)" by (rule prod_cases3)
  note R = sweep_fold_result [OF assms one [unfolded sweep_def fst_conv snd_conv]]
  show ?case
  proof (cases ch1)
    case False
    then show ?thesis using R one by (subst sweep_loop.simps) auto
  next
    case True
    then have "set (sc_scope sc) - blocked_set ts1 \<subset> set (sc_scope sc) - blocked_set ts" using R by blast
    then have "card (set (sc_scope sc) - blocked_set ts1) < card (set (sc_scope sc) - blocked_set ts)"
      by (rule psubset_card_mono [rotated]) simp
    from less [OF this, of items1] obtain ts' items' where fin:
      "sweep_loop sn sc (ts1, items1) = Some (ts', items')" "blocked_set ts1 \<subseteq> blocked_set ts'"
      "blocked_set ts' \<subseteq> blocked_set ts1 \<union> set (sc_scope sc)" "list_all (dependency_safe sn sc ts') (sn_relations sn)"
      by blast
    have "sweep_loop sn sc (ts, items) = Some (ts', items')" using one True fin(1) by (subst sweep_loop.simps) simp
    then show ?thesis using R fin(2-4) by blast
  qed
qed

lemma reconcile_object_kept:
  assumes "o_status ob \<noteq> ''pending''" "o_status ob \<noteq> ''blocked''"
  shows "o_status (reconcile_object nm ts ob) = o_status ob" "o_error (reconcile_object nm ts ob) = o_error ob"
    "o_units (reconcile_object nm ts ob) = o_units ob"
  unfolding reconcile_object_def reconcile_table_def Let_def using assms by (simp_all split: option.split)

section \<open>Properties\<close>

text \<open>C21: Reconciling the ledger after a failed migration settles in one round: the loop to a fixed point is one
  pass over the dependencies, after which no object that could still be run depends on anything that has
  not succeeded; and the outcome of an object that was executed (neither pending nor blocked) is never
  rewritten.\<close>

theorem reconcile_settles:
  "reconcileMigrationFailures nm ts objs = dependency_round (map (reconcile_object nm ts) objs) \<and>
   \<not> round_changes (reconcileMigrationFailures nm ts objs) \<and>
   list_all2 (\<lambda>ob ob'. o_status ob = ''pending'' \<or> o_status ob = ''blocked'' \<or>
      (o_status ob' = o_status ob \<and> o_error ob' = o_error ob \<and> o_units ob' = o_units ob))
     objs (reconcileMigrationFailures nm ts objs)"
proof -
  have "o_status ob = ''pending'' \<or> o_status ob = ''blocked'' \<or>
      (o_status (dependency_step st (reconcile_object nm ts ob)) = o_status ob \<and>
       o_error (dependency_step st (reconcile_object nm ts ob)) = o_error ob \<and>
       o_units (dependency_step st (reconcile_object nm ts ob)) = o_units ob)" for st ob
    using reconcile_object_kept [of ob nm ts] by (auto simp: dependency_step_def)
  then show ?thesis
    using round_settles
    by (simp add: reconcileMigrationFailures_def dependency_loop_round list_all2_conv_all_nth)
      (simp add: dependency_round_def)
qed

text \<open>C20: Before target tables are dropped and rebuilt, the search for tables that retained ones still refer to
  always ends, and afterwards no foreign key of the target can be left dangling: for every key into a table
  of the scope that will be rebuilt, the table that holds the key is rebuilt as well. Tables already blocked
  stay blocked and only tables of the scope are added.\<close>

theorem protect_leaves_no_dangling_key:
  assumes "[] \<notin> set (sc_scope sc)" and "list_ex (sc_retained sc) (sc_scope sc)"
    and "list_ex (\<lambda>t. \<not> sc_retained sc t \<and> \<not> sc_completed sc t) (sc_scope sc)"
    and "sn_schema sn \<noteq> []" and "list_all relation_complete (sn_relations sn)"
  shows "\<exists>ts' items. protectRetainedMigrationTables False (Inr sn) sc ts = Some (Inr (ts', items)) \<and>
    list_all (dependency_safe sn sc ts') (sn_relations sn) \<and>
    blocked_set ts \<subseteq> blocked_set ts' \<and> blocked_set ts' \<subseteq> blocked_set ts \<union> set (sc_scope sc)"
  using sweep_loop_ends [OF assms(1), of sn ts "[]"] assms(2-5)
  by (auto simp: protectRetainedMigrationTables_def)

definition demo_scope :: sweep_scope where
  "demo_scope = protect_scope \<lparr>nm_upper = False, nm_lower = True\<rparr>
     \<lparr>ts_failures = [(''Orders'', \<lparr>mf_stage = ''schema'', mf_err = ''e''\<rparr>)], ts_objects = Map.empty\<rparr>
     [''Orders'', ''Customers'', ''Items''] [] (\<lambda>_. False)"

definition demo_snapshot :: dependency_snapshot where
  "demo_snapshot = \<lparr>sn_schema = ''public'', sn_fold = True,
     sn_relations = [\<lparr>rl_schema = ''public'', rl_table = ''customers'', rl_name = ''fk2'', rl_ref_schema = ''public'', rl_ref_table = ''items''\<rparr>,
       \<lparr>rl_schema = ''public'', rl_table = ''orders'', rl_name = ''fk1'', rl_ref_schema = ''public'', rl_ref_table = ''customers''\<rparr>]\<rparr>"

theorem protect_leaves_no_dangling_key_witness:
  "\<exists>ts' items. protectRetainedMigrationTables False (Inr demo_snapshot) demo_scope
      \<lparr>ts_failures = [(''Orders'', \<lparr>mf_stage = ''schema'', mf_err = ''e''\<rparr>)], ts_objects = Map.empty\<rparr> = Some (Inr (ts', items)) \<and>
    list_all (dependency_safe demo_snapshot demo_scope ts') (sn_relations demo_snapshot)"
proof -
  have *: "[] \<notin> set (sc_scope demo_scope)" "list_ex (sc_retained demo_scope) (sc_scope demo_scope)"
    "list_ex (\<lambda>t. \<not> sc_retained demo_scope t \<and> \<not> sc_completed demo_scope t) (sc_scope demo_scope)"
    "sn_schema demo_snapshot \<noteq> []" "list_all relation_complete (sn_relations demo_snapshot)"
    by code_simp+
  from protect_leaves_no_dangling_key [OF *] show ?thesis by blast
qed

end
