(* ===== verification/SqlTokens.thy ===== *)
theory SqlTokens
  imports GoPrelude
begin

text \<open>
  The SQL lexer (\<^verbatim>\<open>sqlsyntax/tokens.go\<close>) that every converter of expressions starts from. The input
  is the rest of the string instead of an index into it; the text of a token is the prefix it consumed. A
  rune beyond ASCII is classified by package \<^verbatim>\<open>unicode\<close>: the argument \<open>uni\<close> gives its class and the number of
  bytes that follow its first one. The numbers accepted are those of \<^verbatim>\<open>strconv.ParseFloat\<close>, its range check
  included.
\<close>

section \<open>Runes\<close>

record rune_info =
  ru_space :: bool
  ru_letter :: bool
  ru_digit :: bool
  ru_more :: nat

definition is_ascii :: "char \<Rightarrow> bool" where
  "is_ascii c \<longleftrightarrow> (of_char c :: nat) < 128"

definition is_letter :: "char \<Rightarrow> bool" where
  "is_letter c \<longleftrightarrow> (let n = (of_char c :: nat) in (65 \<le> n \<and> n \<le> 90) \<or> (97 \<le> n \<and> n \<le> 122))"

definition rune_at :: "(string \<Rightarrow> rune_info) \<Rightarrow> string \<Rightarrow> rune_info" where
  "rune_at uni s =
     (if is_ascii (hd s)
      then \<lparr>ru_space = is_space (hd s), ru_letter = is_letter (hd s), ru_digit = is_digit (hd s), ru_more = 0\<rparr>
      else uni s)"

section \<open>Tokens\<close>

datatype token_kind = TString | TQuoted | TIdent | TNumber | TPunct

record token =
  tk_kind :: token_kind
  tk_text :: string
  tk_value :: string

definition token_is :: "token \<Rightarrow> string \<Rightarrow> bool" where
  "token_is t s \<longleftrightarrow> tk_kind t \<noteq> TString \<and> tk_kind t \<noteq> TQuoted \<and> equal_fold (tk_text t) s"

datatype lex_error =
    UnclosedComment | UnclosedEscape | BadEscape | UnclosedQuote | BadNumber string | BadSymbol

text \<open>After the opening \<^verbatim>\<open>/*\<close> of a comment; comments nest.\<close>

fun skip_comment :: "nat \<Rightarrow> string \<Rightarrow> string option" where
  "skip_comment 0 s = Some s"
| "skip_comment (Suc d) [] = None"
| "skip_comment (Suc d) [c] = None"
| "skip_comment (Suc d) (c # e # s) =
     (if c = CHR ''/'' \<and> e = CHR ''*'' then skip_comment (Suc (Suc d)) s
      else if c = CHR ''*'' \<and> e = CHR ''/'' then skip_comment d s
      else skip_comment (Suc d) (e # s))"

definition escape_char :: "char \<Rightarrow> char option" where
  "escape_char c =
     (if c = CHR ''n'' then Some (CHR 0x0A) else if c = CHR ''r'' then Some (CHR 0x0D)
      else if c = CHR ''t'' then Some (CHR 0x09) else if c = CHR ''b'' then Some (CHR 0x08)
      else if c = CHR ''f'' then Some (CHR 0x0C)
      else if c = CHR 0x5C \<or> c = CHR 0x27 then Some c else None)"

text \<open>After the opening quote: the value of the literal and what follows it.\<close>

fun quoted_body :: "char \<Rightarrow> bool \<Rightarrow> string \<Rightarrow> lex_error + string \<times> string" where
  "quoted_body q esc [] = Inl UnclosedQuote"
| "quoted_body q esc [c] =
     (if c = q then Inr ([], []) else if esc \<and> c = CHR 0x5C then Inl UnclosedEscape else Inl UnclosedQuote)"
| "quoted_body q esc (c # e # s) =
     (if c = q then
        (if e = q then bind_res (quoted_body q esc s) (\<lambda>(v, rest). Inr (q # v, rest)) else Inr ([], e # s))
      else if esc \<and> c = CHR 0x5C then
        (case escape_char e of
           None \<Rightarrow> Inl BadEscape
         | Some x \<Rightarrow> bind_res (quoted_body q esc s) (\<lambda>(v, rest). Inr (x # v, rest)))
      else bind_res (quoted_body q esc (e # s)) (\<lambda>(v, rest). Inr (c # v, rest)))"

fun ident_rest :: "(string \<Rightarrow> rune_info) \<Rightarrow> string \<Rightarrow> string" where
  "ident_rest uni [] = []"
| "ident_rest uni (c # s) =
     (let r = rune_at uni (c # s) in
      if ru_letter r \<or> ru_digit r \<or> c = CHR ''_'' \<or> c = CHR ''$'' then ident_rest uni (drop (ru_more r) s)
      else c # s)"

definition is_exp :: "char \<Rightarrow> bool" where
  "is_exp c \<longleftrightarrow> c = CHR ''e'' \<or> c = CHR ''E''"

definition is_sign :: "char \<Rightarrow> bool" where
  "is_sign c \<longleftrightarrow> c = CHR ''+'' \<or> c = CHR ''-''"

definition skip_if :: "(char \<Rightarrow> bool) \<Rightarrow> string \<Rightarrow> string" where
  "skip_if P s = (case s of [] \<Rightarrow> [] | c # cs \<Rightarrow> if P c then cs else s)"

definition number_rest :: "string \<Rightarrow> string" where
  "number_rest s =
     (let r = dropWhile (\<lambda>c. is_digit c \<or> c = CHR ''.'') s in
      case r of
        [] \<Rightarrow> []
      | c # cs \<Rightarrow> if is_exp c then dropWhile is_digit (skip_if is_sign cs) else r)"

text \<open>\<open>strconv.ParseFloat(v, 64)\<close> on the text of a number: one point at most, a digit, digits after the
  exponent mark, and a value below the point from which rounding gives an infinity. Go stops to add
  digits to the exponent when it has reached ten thousand.\<close>

fun exponent_val :: "nat \<Rightarrow> string \<Rightarrow> nat" where
  "exponent_val e [] = e"
| "exponent_val e (c # cs) = exponent_val (if e < 10000 then 10 * e + digit_val c else e) cs"

definition float_in_range :: "nat \<Rightarrow> int \<Rightarrow> bool" where
  "float_in_range m e \<longleftrightarrow>
     (if 0 \<le> e then int m * 10 ^ nat e < 2 ^ 1024 - 2 ^ 970 else int m < (2 ^ 1024 - 2 ^ 970) * 10 ^ nat (- e))"

definition parse_float_ok :: "string \<Rightarrow> bool" where
  "parse_float_ok v \<longleftrightarrow>
     (let m = takeWhile (\<lambda>c. is_digit c \<or> c = CHR ''.'') v;
          r = drop (length m) v;
          es = skip_if is_sign (tl r);
          e = (if r = [] then 0
               else if tl r \<noteq> [] \<and> hd (tl r) = CHR ''-'' then - int (exponent_val 0 es) else int (exponent_val 0 es));
          point = length (filter (\<lambda>c. c = CHR ''.'') m);
          frac = length (filter is_digit (dropWhile is_digit m))
      in point \<le> 1 \<and> list_ex is_digit m \<and>
         (r = [] \<or> (is_exp (hd r) \<and> es \<noteq> [] \<and> list_all is_digit es)) \<and>
         float_in_range (digits_val 0 (filter is_digit m)) (e - int frac))"

definition operators :: string where
  "operators = ''(),.=<>!+-*;:%''"

definition op_text :: "string \<Rightarrow> string" where
  "op_text s = (if take 2 s \<in> set [''::'', ''<='', ''>='', ''<>'', ''!=''] then take 2 s else take 1 s)"

definition consumed :: "string \<Rightarrow> string \<Rightarrow> string" where
  "consumed s rest = take (length s - length rest) s"

text \<open>One token, for a string that starts with neither a space nor a comment, and what follows it.\<close>

definition next_token :: "(string \<Rightarrow> rune_info) \<Rightarrow> string \<Rightarrow> lex_error + token \<times> string" where
  "next_token uni s =
     (let c = hd s; r = rune_at uni s; escaped = (is_exp c \<and> take 1 (tl s) = [CHR 0x27]) in
      if c = CHR 0x27 \<or> c = CHR 0x22 \<or> c = CHR 0x60 \<or> escaped then
        let q = (if escaped then CHR 0x27 else c) in
        bind_res (quoted_body q escaped (drop (if escaped then 2 else 1) s)) (\<lambda>(v, rest).
          Inr (\<lparr>tk_kind = if q = CHR 0x22 \<or> q = CHR 0x60 then TQuoted else TString,
                tk_text = consumed s rest, tk_value = v\<rparr>, rest))
      else if ru_letter r \<or> c = CHR ''_'' then
        let rest = ident_rest uni (drop (ru_more r) (tl s)); v = consumed s rest in
        Inr (\<lparr>tk_kind = TIdent, tk_text = v, tk_value = to_lower v\<rparr>, rest)
      else if is_digit c \<or> (c = CHR ''.'' \<and> list_ex is_digit (take 1 (tl s))) then
        let rest = number_rest (tl s); v = consumed s rest in
        if parse_float_ok v then Inr (\<lparr>tk_kind = TNumber, tk_text = v, tk_value = v\<rparr>, rest) else Inl (BadNumber v)
      else if c \<in> set operators then
        Inr (\<lparr>tk_kind = TPunct, tk_text = op_text s, tk_value = op_text s\<rparr>, drop (length (op_text s)) s)
      else Inl BadSymbol)"

subsection \<open>What is left is shorter\<close>

lemma skip_comment_length: "skip_comment d s = Some rest \<Longrightarrow> length rest \<le> length s"
  by (induction d s rule: skip_comment.induct) (auto split: if_splits)

lemma quoted_body_length: "quoted_body q esc s = Inr (v, rest) \<Longrightarrow> length rest < length s"
  by (induction q esc s arbitrary: v rest rule: quoted_body.induct)
    (fastforce simp: bind_res_Inr_iff split: if_splits option.splits)+

lemma ident_rest_length: "length (ident_rest uni s) \<le> length s"
  by (induction uni s rule: ident_rest.induct) (auto simp: Let_def intro: le_trans)

lemma length_skip_if: "length (skip_if P s) \<le> length s"
  by (auto simp: skip_if_def split: list.split)

lemma number_rest_length: "length (number_rest s) \<le> length s"
proof (cases "dropWhile (\<lambda>c. is_digit c \<or> c = CHR ''.'') s")
  case (Cons c cs)
  have "length (c # cs) \<le> length s" using length_dropWhile_le [of "\<lambda>c. is_digit c \<or> c = CHR ''.''" s] by (simp add: Cons)
  moreover have "length (dropWhile is_digit (skip_if is_sign cs)) \<le> length cs"
    using length_dropWhile_le [of is_digit "skip_if is_sign cs"] length_skip_if [of is_sign cs] by linarith
  ultimately show ?thesis by (simp add: number_rest_def Cons)
next
  case Nil
  then show ?thesis unfolding number_rest_def Let_def Nil by simp
qed

lemma op_text_nonempty: "s \<noteq> [] \<Longrightarrow> op_text s \<noteq> []"
  by (cases s) (auto simp: op_text_def)

lemma next_token_length:
  assumes "s \<noteq> []" "next_token uni s = Inr (t, rest)"
  shows "length rest < length s"
proof -
  let ?esc = "is_exp (hd s) \<and> take 1 (tl s) = [CHR 0x27]"
  let ?quoted = "hd s = CHR 0x27 \<or> hd s = CHR 0x22 \<or> hd s = CHR 0x60 \<or> ?esc"
  let ?q = "if ?esc then CHR 0x27 else hd s"
  let ?body = "drop (if ?esc then 2 else 1) s"
  show ?thesis
  proof (cases ?quoted)
    case True
    from assms(2) have "bind_res (quoted_body ?q ?esc ?body) (\<lambda>(v, rest).
        Inr (\<lparr>tk_kind = if ?q = CHR 0x22 \<or> ?q = CHR 0x60 then TQuoted else TString,
              tk_text = consumed s rest, tk_value = v\<rparr>, rest)) = Inr (t, rest)"
      unfolding next_token_def Let_def if_P [OF True] .
    then obtain x where x: "quoted_body ?q ?esc ?body = Inr x" "snd x = rest"
      unfolding bind_res_Inr_iff by (elim exE conjE) (simp add: case_prod_beta)
    then have "quoted_body ?q ?esc ?body = Inr (fst x, rest)" by (metis prod.collapse)
    from quoted_body_length [OF this] show ?thesis by simp
  next
    case False
    have tl: "length (tl s) < length s" using assms(1) by simp
    have "length (drop (length (op_text s)) s) < length s" using op_text_nonempty [OF assms(1)] assms(1) by simp
    moreover have "length (ident_rest uni (drop (ru_more (rune_at uni s)) (tl s))) < length s"
      using ident_rest_length [of uni "drop (ru_more (rune_at uni s)) (tl s)"] tl by simp
    moreover have "length (number_rest (tl s)) < length s" using number_rest_length [of "tl s"] tl by simp
    moreover have "rest = ident_rest uni (drop (ru_more (rune_at uni s)) (tl s)) \<or> rest = number_rest (tl s) \<or>
        rest = drop (length (op_text s)) s"
      using assms(2) unfolding next_token_def Let_def if_not_P [OF False] by (simp split: if_splits)
    ultimately show ?thesis by (elim disjE) simp_all
  qed
qed

section \<open>The lexer\<close>

lemma dropWhile_shorter: "s \<noteq> [] \<Longrightarrow> P (hd s) \<Longrightarrow> length (dropWhile P s) < length s"
  by (cases s) (auto simp: length_dropWhile_le less_Suc_eq_le)

function lex :: "(string \<Rightarrow> rune_info) \<Rightarrow> string \<Rightarrow> lex_error + token list" where
  "lex uni s =
     (if s = [] then Inr []
      else if ru_space (rune_at uni s) then lex uni (drop (ru_more (rune_at uni s)) (tl s))
      else if has_prefix s ''--'' then lex uni (dropWhile (\<lambda>c. c \<noteq> CHR 0x0A) s)
      else if has_prefix s ''/*'' then
        (case skip_comment 1 (drop 2 s) of None \<Rightarrow> Inl UnclosedComment | Some rest \<Rightarrow> lex uni rest)
      else
        (case next_token uni s of
           Inl e \<Rightarrow> Inl e
         | Inr (t, rest) \<Rightarrow> bind_res (lex uni rest) (\<lambda>ts. Inr (t # ts))))"
  by auto

termination
proof (relation "measure (\<lambda>(uni, s). length s)", goal_cases)
  case (2 uni s)
  then show ?case by (cases s) auto
next
  case (3 uni s)
  then have "hd s \<noteq> CHR 0x0A" by (cases s) auto
  with 3 show ?case by (auto intro: dropWhile_shorter)
next
  case (4 uni s rest)
  then have "length rest \<le> length (drop 2 s)" by (auto dest: skip_comment_length)
  with 4 show ?case by (cases s) auto
next
  case (5 uni s b t rest)
  then have "next_token uni s = Inr (t, rest)" by simp
  from next_token_length [OF 5(1) this] show ?case by simp
qed simp

declare lex.simps [simp del]

definition QuoteString :: "string \<Rightarrow> string" where
  "QuoteString s = [CHR 0x27] @ replace_all s [CHR 0x27] [CHR 0x27, CHR 0x27] @ [CHR 0x27]"

definition QuoteIdent :: "string \<Rightarrow> string" where
  "QuoteIdent s = [CHR 0x60] @ replace_all s [CHR 0x60] [CHR 0x60, CHR 0x60] @ [CHR 0x60]"

section \<open>Quoting and lexing\<close>

lemma replace_quote: "replace_all s [q] [q, q] = concat (map (\<lambda>c. if c = q then [q, q] else [c]) s)"
  by (induction s) (auto simp: has_prefix_def)

lemma quoted_body_doubled:
  assumes "take 1 rest \<noteq> [q]"
  shows "quoted_body q False (concat (map (\<lambda>c. if c = q then [q, q] else [c]) v) @ q # rest) = Inr (v, rest)"
proof (induction v)
  case Nil
  then show ?case using assms by (cases rest) auto
next
  case (Cons c v)
  show ?case
  proof (cases "c = q")
    case False
    obtain e s where es: "concat (map (\<lambda>c. if c = q then [q, q] else [c]) v) @ q # rest = e # s"
      by (cases "concat (map (\<lambda>c. if c = q then [q, q] else [c]) v) @ q # rest") auto
    with Cons False show ?thesis by simp
  qed (use Cons in simp)
qed

lemma next_token_quoted:
  assumes "take 1 rest \<noteq> [q]" and "q = CHR 0x27 \<or> q = CHR 0x22 \<or> q = CHR 0x60"
  shows "next_token uni ([q] @ replace_all v [q] [q, q] @ [q] @ rest) =
    Inr (\<lparr>tk_kind = if q = CHR 0x27 then TString else TQuoted, tk_text = [q] @ replace_all v [q] [q, q] @ [q], tk_value = v\<rparr>, rest)"
proof -
  have "\<not> is_exp q" using assms(2) by (auto simp: is_exp_def)
  moreover have "consumed ([q] @ replace_all v [q] [q, q] @ [q] @ rest) rest = [q] @ replace_all v [q] [q, q] @ [q]"
    by (simp add: consumed_def)
  ultimately show ?thesis
    using assms(2) quoted_body_doubled [OF assms(1), of v]
    by (auto simp: next_token_def Let_def replace_quote)
qed

lemma lex_quoted:
  assumes "take 1 rest \<noteq> [q]" and "q = CHR 0x27 \<or> q = CHR 0x22 \<or> q = CHR 0x60"
  shows "lex uni ([q] @ replace_all v [q] [q, q] @ [q] @ rest) =
    bind_res (lex uni rest) (\<lambda>ts. Inr (\<lparr>tk_kind = if q = CHR 0x27 then TString else TQuoted,
      tk_text = [q] @ replace_all v [q] [q, q] @ [q], tk_value = v\<rparr> # ts))"
proof -
  have "is_ascii q" "\<not> is_space q" using assms(2) by (auto simp: is_ascii_def is_space_def)
  then have "\<not> ru_space (rune_at uni (q # w))" for w by (simp add: rune_at_def)
  moreover have "q \<noteq> CHR ''-''" "q \<noteq> CHR ''/''" using assms(2) by auto
  ultimately show ?thesis
    using next_token_quoted [OF assms, of uni v] by (subst lex.simps) simp
qed

section \<open>Properties\<close>

definition string_token :: "string \<Rightarrow> token" where
  "string_token v = \<lparr>tk_kind = TString, tk_text = QuoteString v, tk_value = v\<rparr>"

definition ident_token :: "string \<Rightarrow> token" where
  "ident_token v = \<lparr>tk_kind = TQuoted, tk_text = QuoteIdent v, tk_value = v\<rparr>"

text \<open>A quoted string or identifier is read back by the lexer as exactly one token that carries the original
  text, whatever the text contains, unless the same quote follows it: what comes after is lexed as if it
  stood alone, so no value can end its quotes early.\<close>

theorem quoting_is_lexed_back:
  assumes "take 1 rest \<noteq> [CHR 0x27]" and "take 1 rest \<noteq> [CHR 0x60]"
  shows "lex uni (QuoteString v @ rest) = bind_res (lex uni rest) (\<lambda>ts. Inr (string_token v # ts)) \<and>
    lex uni (QuoteIdent v @ rest) = bind_res (lex uni rest) (\<lambda>ts. Inr (ident_token v # ts))"
  using lex_quoted [OF assms(1), of uni v] lex_quoted [OF assms(2), of uni v]
  by (simp add: QuoteString_def QuoteIdent_def string_token_def ident_token_def)

definition no_runes :: "string \<Rightarrow> rune_info" where
  "no_runes s = \<lparr>ru_space = False, ru_letter = False, ru_digit = False, ru_more = 0\<rparr>"

theorem quoting_is_lexed_back_witness:
  "lex no_runes (QuoteString [CHR ''a'', CHR 0x27, CHR '';''] @ ''::text'') =
    Inr [string_token [CHR ''a'', CHR 0x27, CHR '';''], \<lparr>tk_kind = TPunct, tk_text = ''::'', tk_value = ''::''\<rparr>,
      \<lparr>tk_kind = TIdent, tk_text = ''text'', tk_value = ''text''\<rparr>]"
proof -
  have "lex no_runes ''::text'' = Inr [\<lparr>tk_kind = TPunct, tk_text = ''::'', tk_value = ''::''\<rparr>,
      \<lparr>tk_kind = TIdent, tk_text = ''text'', tk_value = ''text''\<rparr>]"
    by code_simp
  then show ?thesis
    using quoting_is_lexed_back [of "''::text''" no_runes "[CHR ''a'', CHR 0x27, CHR '';'']"] by simp
qed

lemma lex_number: "lex no_runes ''1.5e3 /* a /* b */ */ DIV x_1 -- c'' = Inr
   [\<lparr>tk_kind = TNumber, tk_text = ''1.5e3'', tk_value = ''1.5e3''\<rparr>, \<lparr>tk_kind = TIdent, tk_text = ''DIV'', tk_value = ''div''\<rparr>,
    \<lparr>tk_kind = TIdent, tk_text = ''x_1'', tk_value = ''x_1''\<rparr>]"
  by code_simp

end
