(* ===== verification/PartitionTypes.thy ===== *)
theory PartitionTypes
  imports TypeColumns
begin

text \<open>
  The logical topology of a partitioned table (\<^verbatim>\<open>source/partition.go\<close>), the options of the compiler
  (\<^verbatim>\<open>partition/types.go\<close>), and what all its parts share: methods, canonical boundary values, names and
  literals (\<^verbatim>\<open>partition/canonical.go\<close>, \<^verbatim>\<open>partition/compile.go\<close>). A Go struct that contains itself through a
  slice is split into its own fields (a record) and its children (a datatype). Decimal numbers belong to
  \<^verbatim>\<open>shopspring/decimal\<close>: the argument \<open>dec\<close> parses and prints one. Dates and times are those of
  \<^verbatim>\<open>time.Parse\<close> with the layouts the code names.
\<close>

section \<open>Topology\<close>

record partition_value =
  pv_kind :: string
  pv_text :: string

record partition_key =
  pk_column :: string
  pk_expression :: string
  pk_data_type :: string
  pk_collation :: string

record partition_interval =
  iv_unit :: string
  iv_amount :: string
  iv_transition :: partition_value

record partition_info =
  pi_schema :: string
  pi_name :: string
  pi_ordinal :: int
  pi_lower :: "partition_value list"
  pi_upper :: "partition_value list"
  pi_values :: "partition_value list list"
  pi_default :: bool
  pi_lower_inclusive :: bool
  pi_upper_inclusive :: bool
  pi_modulus :: int
  pi_remainder :: int
  pi_is_interval :: bool

record spec_info =
  si_method :: string
  si_keys :: "partition_key list"
  si_automatic :: string
  si_interval :: "partition_interval option"
  si_algorithm :: string
  si_row_movement :: string
  si_source_ddl :: string
  si_unsupported :: string

datatype partition_spec = Spec (spec_of: spec_info) (parts_of: "partition list")
  and partition = Part (part_of: partition_info) (sub_of: "partition_spec option")

section \<open>Compiler options\<close>

record profile =
  pf_product :: string
  pf_version :: string
  pf_mode :: string
  pf_features :: "string set"

record options =
  op_source :: string
  op_target :: string
  op_schema :: string
  op_name :: "string \<Rightarrow> string"
  op_column_name :: "string \<Rightarrow> string"

record leaf_mapping =
  lm_source_schema :: string
  lm_source_name :: string
  lm_target_schema :: string
  lm_target_name :: string
  lm_ordinal :: int

definition LeafKey :: "string \<Rightarrow> string \<Rightarrow> string" where
  "LeafKey schema name = (if schema = [] then name else schema @ ''.'' @ name)"

text \<open>\<open>LeafNames\<close>: the keys of the leaves, depth first.\<close>

fun LeafNames :: "partition_spec \<Rightarrow> string list" and leaf_names_of :: "partition \<Rightarrow> string list" where
  "LeafNames (Spec si ps) = concat (map leaf_names_of ps)"
| "leaf_names_of (Part p None) = [LeafKey (pi_schema p) (pi_name p)]"
| "leaf_names_of (Part p (Some s)) = LeafNames s"

definition method_of :: "string \<Rightarrow> string" where
  "method_of s = to_upper (str_join '' '' (str_fields s))"

definition baseMethod :: "string \<Rightarrow> string" where
  "baseMethod s =
     (let b = trim_suffix (method_of s) '' COLUMNS'' in
      if b = ''LINEAR HASH'' then ''HASH'' else if b = ''LINEAR KEY'' then ''KEY'' else b)"

section \<open>Dates and times\<close>

definition digits_at :: "string \<Rightarrow> nat \<Rightarrow> nat \<Rightarrow> bool" where
  "digits_at s i n \<longleftrightarrow> length (take n (drop i s)) = n \<and> list_all is_digit (take n (drop i s))"

definition num_at :: "string \<Rightarrow> nat \<Rightarrow> nat \<Rightarrow> nat" where
  "num_at s i n = digits_val 0 (take n (drop i s))"

definition days_in :: "nat \<Rightarrow> nat \<Rightarrow> nat" where
  "days_in m y =
     (if m = 2 then (if y mod 4 = 0 \<and> (y mod 100 \<noteq> 0 \<or> y mod 400 = 0) then 29 else 28)
      else if m \<in> set [4, 6, 9, 11] then 30 else 31)"

text \<open>The layout \<^verbatim>\<open>2006-01-02\<close> at the start of a string.\<close>

definition date_prefix :: "string \<Rightarrow> bool" where
  "date_prefix s \<longleftrightarrow>
     digits_at s 0 4 \<and> take 1 (drop 4 s) = ''-'' \<and> digits_at s 5 2 \<and> take 1 (drop 7 s) = ''-'' \<and> digits_at s 8 2 \<and>
     1 \<le> num_at s 5 2 \<and> num_at s 5 2 \<le> 12 \<and> 1 \<le> num_at s 8 2 \<and> num_at s 8 2 \<le> days_in (num_at s 5 2) (num_at s 0 4)"

definition canonical_date :: "string \<Rightarrow> string option" where
  "canonical_date s = (if date_prefix s \<and> length s = 10 then Some s else None)"

text \<open>The layout \<^verbatim>\<open>15:04:05.999999999\<close>: one or two digits of the hour, any number of fraction digits after a
  point or a comma, of which nine count; printed with two digits and without trailing zeros.\<close>

definition strip_zeros :: "string \<Rightarrow> string" where
  "strip_zeros s = rev (dropWhile (\<lambda>c. c = CHR ''0'') (rev s))"

definition canonical_fraction :: "string \<Rightarrow> string option" where
  "canonical_fraction s =
     (if s = [] then Some []
      else if hd s \<in> set ''.,'' \<and> tl s \<noteq> [] \<and> list_all is_digit (tl s) then
        (let f = strip_zeros (take 9 (tl s)) in Some (if f = [] then [] else CHR ''.'' # f))
      else None)"

definition canonical_clock :: "string \<Rightarrow> string option" where
  "canonical_clock s =
     (let two = digits_at s 0 2;
          hour = (if two then take 2 s else CHR ''0'' # take 1 s);
          rest = drop (if two then 2 else 1) s
      in if digits_at s 0 1 \<and> digits_val 0 hour < 24 \<and> take 1 rest = '':'' \<and> digits_at rest 1 2 \<and> num_at rest 1 2 < 60 \<and>
            take 1 (drop 3 rest) = '':'' \<and> digits_at rest 4 2 \<and> num_at rest 4 2 < 60
         then map_option (\<lambda>f. hour @ take 6 rest @ f) (canonical_fraction (drop 6 rest)) else None)"

definition canonical_timestamp :: "string \<Rightarrow> string option" where
  "canonical_timestamp s =
     (if \<not> date_prefix s then None
      else
        let rest = drop 10 s;
            clock = (if take 1 rest = '' '' then canonical_clock (dropWhile (\<lambda>c. c = CHR '' '') rest)
                     else if take 1 rest = ''T'' then canonical_clock (tl rest) else None)
        in map_option (\<lambda>c. take 10 s @ '' '' @ c) clock)"

section \<open>Canonical values\<close>

datatype partition_error =
    BadBoundNumber string
  | BadBoundDate string
  | BadBoundTimestamp string
  | UnknownBoundKind string
  | NullRangeBound
  | RangeWidth
  | EmptyList
  | ListWidth
  | BadHash
  | BadName string
  | BadLiteral
  | Rejected string

definition canonicalValue :: "(string \<Rightarrow> string option) \<Rightarrow> partition_value \<Rightarrow> partition_error + partition_value" where
  "canonicalValue dec v =
     (let k = to_lower (trim_space (pv_kind v)); t = pv_text v in
      if k = ''number'' then
        (case dec t of None \<Rightarrow> Inl (BadBoundNumber t) | Some n \<Rightarrow> Inr \<lparr>pv_kind = k, pv_text = n\<rparr>)
      else if k = ''date'' then
        (case canonical_date t of None \<Rightarrow> Inl (BadBoundDate t) | Some d \<Rightarrow> Inr \<lparr>pv_kind = k, pv_text = d\<rparr>)
      else if k = ''timestamp'' then
        (case canonical_timestamp t of None \<Rightarrow> Inl (BadBoundTimestamp t) | Some d \<Rightarrow> Inr \<lparr>pv_kind = k, pv_text = d\<rparr>)
      else if k = ''string'' then Inr \<lparr>pv_kind = k, pv_text = t\<rparr>
      else if k = ''null'' \<or> k = ''minvalue'' \<or> k = ''maxvalue'' then Inr \<lparr>pv_kind = k, pv_text = []\<rparr>
      else Inl (UnknownBoundKind k))"

fun sameValues :: "(string \<Rightarrow> string option) \<Rightarrow> partition_value list \<Rightarrow> partition_value list \<Rightarrow> bool" where
  "sameValues dec [] [] = True"
| "sameValues dec (a # as) (b # bs) =
     ((case (canonicalValue dec a, canonicalValue dec b) of (Inr x, Inr y) \<Rightarrow> x = y | _ \<Rightarrow> False) \<and> sameValues dec as bs)"
| "sameValues dec _ _ = False"

definition allKind :: "partition_value list \<Rightarrow> string \<Rightarrow> bool" where
  "allKind vs kind \<longleftrightarrow> vs \<noteq> [] \<and> list_all (\<lambda>v. equal_fold (pv_kind v) kind) vs"

section \<open>Names\<close>

definition cont :: "nat \<Rightarrow> bool" where
  "cont b \<longleftrightarrow> 0x80 \<le> b \<and> b \<le> 0xBF"

text \<open>\<open>utf8.ValidString\<close>.\<close>

fun valid_utf8 :: "nat list \<Rightarrow> bool" where
  "valid_utf8 [] = True"
| "valid_utf8 (a # s) =
     (if a < 0x80 then valid_utf8 s
      else
        case s of
          [] \<Rightarrow> False
        | b # s \<Rightarrow>
            if 0xC2 \<le> a \<and> a \<le> 0xDF then cont b \<and> valid_utf8 s
            else
              case s of
                [] \<Rightarrow> False
              | c # s \<Rightarrow>
                  if a = 0xE0 then 0xA0 \<le> b \<and> cont b \<and> cont c \<and> valid_utf8 s
                  else if a = 0xED then 0x80 \<le> b \<and> b \<le> 0x9F \<and> cont c \<and> valid_utf8 s
                  else if 0xE1 \<le> a \<and> a \<le> 0xEF then cont b \<and> cont c \<and> valid_utf8 s
                  else
                    case s of
                      [] \<Rightarrow> False
                    | d # s \<Rightarrow>
                        ((a = 0xF0 \<and> 0x90 \<le> b \<and> cont b) \<or> (0xF1 \<le> a \<and> a \<le> 0xF3 \<and> cont b) \<or>
                         (a = 0xF4 \<and> 0x80 \<le> b \<and> b \<le> 0x8F)) \<and> cont c \<and> cont d \<and> valid_utf8 s)"

definition name_limit :: "string \<Rightarrow> nat" where
  "name_limit target =
     (if target = ''mysql'' then 64
      else if target \<in> set [''postgres'', ''gaussdb'', ''highgo'', ''vastbase'', ''gbase'', ''seabox'', ''kingbase''] then 63
      else if target = ''oracle'' then 30 else 128)"

definition name_ok :: "string \<Rightarrow> string \<Rightarrow> bool" where
  "name_ok target name \<longleftrightarrow>
     name \<noteq> [] \<and> valid_utf8 (map of_char name) \<and>
     \<not> list_ex (\<lambda>c. c = CHR 0x00 \<or> c = CHR 0x0D \<or> c = CHR 0x0A) name \<and> length name \<le> name_limit target"

definition validateName :: "options \<Rightarrow> string \<Rightarrow> partition_error + unit" where
  "validateName opt name = (if name_ok (op_target opt) name then Inr () else Inl (BadName name))"

section \<open>SQL text\<close>

definition quote_with :: "char \<Rightarrow> char \<Rightarrow> string \<Rightarrow> string" where
  "quote_with l r s = [l] @ replace_all s [r] [r, r] @ [r]"

definition sql_quote :: "string \<Rightarrow> string \<Rightarrow> string" where
  "sql_quote target s =
     (if target = ''mysql'' then quote_with (CHR 0x60) (CHR 0x60) s
      else if target = ''sqlserver'' then quote_with (CHR ''['') (CHR '']'') s
      else quote_with (CHR 0x22) (CHR 0x22) s)"

definition qualified_sql :: "string \<Rightarrow> string \<Rightarrow> string \<Rightarrow> string" where
  "qualified_sql target schema name =
     (if schema = [] then sql_quote target name else sql_quote target schema @ ''.'' @ sql_quote target name)"

text \<open>The regular expression \<open>sqlNumber\<close>: a sign, digits with a point inside, after or before them, an
  exponent.\<close>

definition sql_number :: "string \<Rightarrow> bool" where
  "sql_number s \<longleftrightarrow>
     (let u = (if s \<noteq> [] \<and> hd s \<in> set ''+-'' then tl s else s);
          whole = takeWhile is_digit u;
          r1 = dropWhile is_digit u;
          frac = (if r1 \<noteq> [] \<and> hd r1 = CHR ''.'' then takeWhile is_digit (tl r1) else []);
          r2 = (if r1 \<noteq> [] \<and> hd r1 = CHR ''.'' then dropWhile is_digit (tl r1) else r1);
          r3 = (if r2 \<noteq> [] then tl r2 else []);
          ex = (if r3 \<noteq> [] \<and> hd r3 \<in> set ''+-'' then tl r3 else r3)
      in (whole \<noteq> [] \<or> frac \<noteq> []) \<and> (r2 = [] \<or> (hd r2 \<in> set ''eE'' \<and> ex \<noteq> [] \<and> list_all is_digit ex)))"

definition value_text :: "string \<Rightarrow> partition_value \<Rightarrow> partition_error + string" where
  "value_text target v =
     (let k = pv_kind v; t = pv_text v in
      if k = ''number'' then (if sql_number t then Inr t else Inl BadLiteral)
      else if k = ''null'' then Inr ''NULL''
      else if k = ''minvalue'' then Inr ''MINVALUE''
      else if k = ''maxvalue'' then Inr ''MAXVALUE''
      else if k = ''string'' \<or> k = ''date'' \<or> k = ''timestamp'' then
        (if CHR 0x00 \<in> set t then Inl BadLiteral
         else if target = ''mysql'' \<and> CHR 0x5C \<in> set t then Inl BadLiteral
         else
           let literal = quote_with (CHR 0x27) (CHR 0x27) t; plain = (target = ''mysql'' \<or> target = ''sqlserver'') in
           Inr (if k = ''date'' \<and> \<not> plain then ''DATE '' @ literal
                else if k = ''timestamp'' \<and> \<not> plain then ''TIMESTAMP '' @ literal
                else if target = ''sqlserver'' \<and> k = ''string'' then ''N'' @ literal
                else literal))
      else Inl BadLiteral)"

definition sql_value :: "(string \<Rightarrow> string option) \<Rightarrow> string \<Rightarrow> partition_value \<Rightarrow> partition_error + string" where
  "sql_value dec target v = bind_res (canonicalValue dec v) (value_text target)"

definition sql_tuple :: "(string \<Rightarrow> string option) \<Rightarrow> string \<Rightarrow> partition_value list \<Rightarrow> partition_error + string" where
  "sql_tuple dec target vs = bind_res (map_res (sql_value dec target) vs) (\<lambda>ss. Inr (str_join '','' ss))"

definition key_list :: "string \<Rightarrow> partition_key list \<Rightarrow> string" where
  "key_list target ks =
     str_join '','' (map (\<lambda>k. if pk_column k \<noteq> [] then sql_quote target (pk_column k) else pk_expression k) ks)"

section \<open>Checks of one partition\<close>

definition check_bound :: "(string \<Rightarrow> string option) \<Rightarrow> partition_value \<Rightarrow> partition_error + unit" where
  "check_bound dec v = bind_res (canonicalValue dec v) (\<lambda>_. Inr ())"

definition check_range_bound :: "(string \<Rightarrow> string option) \<Rightarrow> partition_value \<Rightarrow> partition_error + unit" where
  "check_range_bound dec v = (if equal_fold (pv_kind v) ''null'' then Inl NullRangeBound else check_bound dec v)"

fun each_res :: "('a \<Rightarrow> 'e + unit) \<Rightarrow> 'a list \<Rightarrow> 'e + unit" where
  "each_res f [] = Inr ()"
| "each_res f (x # xs) = bind_res (f x) (\<lambda>_. each_res f xs)"

definition validateValues ::
  "(string \<Rightarrow> string option) \<Rightarrow> partition_info \<Rightarrow> string \<Rightarrow> nat \<Rightarrow> partition_error + unit" where
  "validateValues dec p b n =
     (if pi_default p then Inr ()
      else if b = ''RANGE'' then
        (if length (pi_lower p) \<noteq> n \<or> length (pi_upper p) \<noteq> n then Inl RangeWidth
         else each_res (check_range_bound dec) (pi_lower p @ pi_upper p))
      else if b = ''LIST'' then
        (if pi_values p = [] then Inl EmptyList
         else each_res (\<lambda>vs. if length vs \<noteq> n then Inl ListWidth else each_res (check_bound dec) vs) (pi_values p))
      else if b = ''HASH'' \<and> (pi_modulus p \<le> 0 \<or> pi_remainder p < 0 \<or> pi_modulus p \<le> pi_remainder p) then Inl BadHash
      else Inr ())"

section \<open>Facts\<close>

lemma each_res_Inr: "each_res f xs = Inr () \<longleftrightarrow> list_all (\<lambda>x. f x = Inr ()) xs"
  by (induction xs) (auto simp: bind_res_Inr_iff)

lemma sameValues_iff:
  "sameValues dec as bs \<longleftrightarrow>
     list_all2 (\<lambda>a b. is_ok (canonicalValue dec a) \<and> canonicalValue dec a = canonicalValue dec b) as bs"
  by (induction dec as bs rule: sameValues.induct) (auto split: sum.splits)

section \<open>Canonical values are fixed points\<close>

lemma take_drop_append: "i + n \<le> length u \<Longrightarrow> take n (drop i (u @ v)) = take n (drop i u)"
  by simp

lemma digits_at_append: "i + n \<le> length u \<Longrightarrow> digits_at (u @ v) i n = digits_at u i n"
  by (simp add: digits_at_def)

lemma num_at_append: "i + n \<le> length u \<Longrightarrow> num_at (u @ v) i n = num_at u i n"
  by (simp add: num_at_def)

lemma digits_at_length: "digits_at s i n \<Longrightarrow> 0 < n \<Longrightarrow> i + n \<le> length s"
  by (auto simp: digits_at_def)

lemma date_prefix_length: "date_prefix s \<Longrightarrow> 10 \<le> length s"
  unfolding date_prefix_def using digits_at_length [of s 8 2] by simp

lemma date_prefix_append: "10 \<le> length u \<Longrightarrow> date_prefix (u @ v) = date_prefix u"
  by (simp add: date_prefix_def digits_at_append num_at_append)

lemma date_prefix_take: "date_prefix s \<Longrightarrow> date_prefix (take 10 s @ v)"
  using date_prefix_append [of "take 10 s" "drop 10 s"] date_prefix_append [of "take 10 s" v] date_prefix_length [of s] by simp

lemma strip_zeros_prefix: "\<exists>z. s = strip_zeros s @ z"
proof -
  have "rev s = takeWhile (\<lambda>c. c = CHR ''0'') (rev s) @ dropWhile (\<lambda>c. c = CHR ''0'') (rev s)" by simp
  then have "s = strip_zeros s @ rev (takeWhile (\<lambda>c. c = CHR ''0'') (rev s))"
    by (metis rev_append rev_rev_ident strip_zeros_def)
  then show ?thesis ..
qed

lemma strip_zeros_idem: "strip_zeros (strip_zeros s) = strip_zeros s"
proof -
  have "dropWhile P (dropWhile P t) = dropWhile P t" for P and t :: string by (induction t) auto
  then show ?thesis by (simp add: strip_zeros_def)
qed

lemma canonical_fraction_idem:
  assumes "canonical_fraction s = Some f"
  shows "canonical_fraction f = Some f"
proof (cases "f = []")
  case False
  from assms False have f: "f = CHR ''.'' # strip_zeros (take 9 (tl s))" "strip_zeros (take 9 (tl s)) \<noteq> []"
      and digits: "list_all is_digit (tl s)"
    by (auto simp: canonical_fraction_def Let_def split: if_splits)
  let ?g = "strip_zeros (take 9 (tl s))"
  obtain z where z: "take 9 (tl s) = ?g @ z" using strip_zeros_prefix by blast
  have "length (?g @ z) \<le> 9" unfolding z [symmetric] by simp
  then have "length ?g \<le> 9" by simp
  moreover have "list_all is_digit (?g @ z)"
    unfolding z [symmetric] using digits by (auto simp: list_all_iff dest: in_set_takeD)
  then have "list_all is_digit ?g" by simp
  ultimately show ?thesis using f by (simp add: canonical_fraction_def strip_zeros_idem)
qed (simp add: canonical_fraction_def)

lemma two_digits:
  assumes "digits_at s 0 1" "hour = (if digits_at s 0 2 then take 2 s else CHR ''0'' # take 1 s)"
  shows "length hour = 2" "list_all is_digit hour"
proof -
  have "1 \<le> length s" using digits_at_length [OF assms(1)] by simp
  then have "length (take 1 s) = 1" by simp
  moreover have "digits_at s 0 2 \<Longrightarrow> length (take 2 s) = 2" by (simp add: digits_at_def)
  ultimately show "length hour = 2" using assms(2) by (simp split: if_splits)
  show "list_all is_digit hour"
    using assms by (auto simp: digits_at_def is_digit_def split: if_splits)
qed

lemma canonical_clock_result:
  assumes "canonical_clock s = Some c"
  shows "canonical_clock c = Some c" "c \<noteq> [] \<and> is_digit (hd c)"
proof -
  define hour rest where hr: "hour = (if digits_at s 0 2 then take 2 s else CHR ''0'' # take 1 s)"
    "rest = drop (if digits_at s 0 2 then 2 else 1) s"
  from assms obtain f where ok: "digits_at s 0 1" "digits_val 0 hour < 24" "take 1 rest = '':''" "digits_at rest 1 2"
      "num_at rest 1 2 < 60" "take 1 (drop 3 rest) = '':''" "digits_at rest 4 2" "num_at rest 4 2 < 60"
      and c: "canonical_fraction (drop 6 rest) = Some f" "c = hour @ take 6 rest @ f"
    by (auto simp: canonical_clock_def Let_def hr split: if_splits)
  note hour = two_digits [OF ok(1) hr(1)]
  have len: "6 \<le> length rest" using digits_at_length [OF ok(7)] by simp
  obtain u d where u: "rest = u @ d" "length u = 6"
    using len by (intro that [of "take 6 rest" "drop 6 rest"]) simp_all
  have two: "digits_at c 0 2" "digits_at c 0 1"
    using hour by (simp_all add: digits_at_def c(2)) (cases hour; simp)
  have parts: "take 2 c = hour" "drop 2 c = u @ f" "c = hour @ u @ f" using hour(1) u by (simp_all add: c(2))
  have U: "take 1 u = '':''" "digits_at u 1 2" "num_at u 1 2 < 60" "take 1 (drop 3 u) = '':''" "digits_at u 4 2" "num_at u 4 2 < 60"
    using ok(3-8) u by (simp_all add: digits_at_append num_at_append)
  have "take 1 (u @ f) = '':''" "take 1 (drop 3 (u @ f)) = '':''" "drop 6 (u @ f) = f" "take 6 (u @ f) = u"
    using U u(2) by simp_all
  moreover have "digits_at (u @ f) 1 2" "num_at (u @ f) 1 2 < 60" "digits_at (u @ f) 4 2" "num_at (u @ f) 4 2 < 60"
    using U u(2) by (simp_all add: digits_at_append num_at_append)
  ultimately show "canonical_clock c = Some c"
    unfolding canonical_clock_def Let_def if_P [OF two(1)] parts(1,2)
    using two(2) ok(2) canonical_fraction_idem [OF c(1)] by (simp add: parts(3))
  show "c \<noteq> [] \<and> is_digit (hd c)" using hour by (cases hour) (auto simp: c(2))
qed

lemma canonical_timestamp_idem:
  assumes "canonical_timestamp s = Some t"
  shows "canonical_timestamp t = Some t"
proof -
  from assms obtain c w where w: "date_prefix s" "canonical_clock w = Some c" "t = take 10 s @ '' '' @ c"
    by (auto simp: canonical_timestamp_def Let_def split: if_splits)
  note C = canonical_clock_result [OF w(2)]
  have "hd c \<noteq> CHR '' ''" using C(2) by (auto simp: is_digit_def)
  then have "dropWhile (\<lambda>x. x = CHR '' '') c = c" using C(2) by (cases c) auto
  moreover have "length (take 10 s) = 10" using date_prefix_length [OF w(1)] by simp
  ultimately show ?thesis
    using date_prefix_take [OF w(1), of "'' '' @ c"] C(1) by (simp add: canonical_timestamp_def w(3))
qed

lemma kind_names:
  "to_lower (trim_space ''number'') = ''number''" "to_lower (trim_space ''date'') = ''date''"
  "to_lower (trim_space ''timestamp'') = ''timestamp''" "to_lower (trim_space ''string'') = ''string''"
  "to_lower (trim_space ''null'') = ''null''" "to_lower (trim_space ''minvalue'') = ''minvalue''"
  "to_lower (trim_space ''maxvalue'') = ''maxvalue''"
  by code_simp+

lemma canonical_date_idem: "canonical_date s = Some t \<Longrightarrow> t = s"
  by (simp add: canonical_date_def split: if_splits)

text \<open>Bringing a boundary value into canonical form is idempotent: a canonical value is its own canonical
  form, so values that were normalised when a plan was frozen compare equal to those read back later. The
  decimal package is assumed to print a number it parses back to the same text.\<close>

theorem canonicalValue_idempotent:
  assumes "\<And>t n. dec t = Some n \<Longrightarrow> dec n = Some n" and "canonicalValue dec v = Inr w"
  shows "canonicalValue dec w = Inr w"
proof -
  define k where "k = to_lower (trim_space (pv_kind v))"
  note B = assms(2) [unfolded canonicalValue_def Let_def, folded k_def]
  consider (number) "k = ''number''" | (date) "k = ''date''" | (time) "k = ''timestamp''" | (str) "k = ''string''"
    | (bound) "k \<in> set [''null'', ''minvalue'', ''maxvalue'']"
    using B by (auto split: if_splits)
  then show ?thesis
  proof cases
    case number
    with B obtain n where "dec (pv_text v) = Some n" "w = \<lparr>pv_kind = k, pv_text = n\<rparr>" by (auto split: option.splits)
    then show ?thesis using assms(1) number by (simp add: canonicalValue_def kind_names)
  next
    case date
    with B obtain n where "canonical_date (pv_text v) = Some n" "w = \<lparr>pv_kind = k, pv_text = n\<rparr>"
      by (auto split: option.splits)
    then show ?thesis using date canonical_date_idem [of "pv_text v" n] by (simp add: canonicalValue_def kind_names)
  next
    case time
    with B obtain n where "canonical_timestamp (pv_text v) = Some n" "w = \<lparr>pv_kind = k, pv_text = n\<rparr>"
      by (auto split: option.splits)
    then show ?thesis using time canonical_timestamp_idem [of "pv_text v" n] by (simp add: canonicalValue_def kind_names)
  next
    case str
    with B show ?thesis by (auto simp: canonicalValue_def kind_names)
  next
    case bound
    with B show ?thesis by (auto simp: canonicalValue_def kind_names)
  qed
qed

theorem canonicalValue_idempotent_witness:
  "canonicalValue (\<lambda>t. map_option itoa (parse_big t)) \<lparr>pv_kind = ''number'', pv_text = itoa 42\<rparr> =
     Inr \<lparr>pv_kind = ''number'', pv_text = itoa 42\<rparr> \<and>
   canonicalValue (\<lambda>t. map_option itoa (parse_big t)) \<lparr>pv_kind = '' Timestamp'', pv_text = ''2024-02-29T7:05:09,1200''\<rparr> =
     Inr \<lparr>pv_kind = ''timestamp'', pv_text = ''2024-02-29 07:05:09.12''\<rparr>"
proof -
  have *: "map_option itoa (parse_big n) = Some n" if "map_option itoa (parse_big t) = Some n" for t n
    using that by auto
  have "canonicalValue (\<lambda>t. map_option itoa (parse_big t)) \<lparr>pv_kind = ''number'', pv_text = itoa 42\<rparr> =
     Inr \<lparr>pv_kind = ''number'', pv_text = itoa 42\<rparr>"
    by (rule canonicalValue_idempotent [OF *, where v = "\<lparr>pv_kind = '' NUMBER '', pv_text = ''+042''\<rparr>"]) (assumption, code_simp)
  moreover have "canonicalValue (\<lambda>t. map_option itoa (parse_big t)) \<lparr>pv_kind = '' Timestamp'', pv_text = ''2024-02-29T7:05:09,1200''\<rparr> =
     Inr \<lparr>pv_kind = ''timestamp'', pv_text = ''2024-02-29 07:05:09.12''\<rparr>"
    by code_simp
  ultimately show ?thesis ..
qed

end
