(* ===== verification/PartitionExpr.thy ===== *)
theory PartitionExpr
  imports SqlTokens PartitionTypes
begin

text \<open>
  Integer partition expressions of MySQL (\<^verbatim>\<open>partition/expression_integer.go\<close>): a precedence parser that
  computes, for every node, the SQL of the target and an interval that contains its value for every row,
  and refuses what could overflow or divide by zero. The parser is written over the operations on its nodes
  (\<open>'n node_ops\<close>): the code's nodes are routes; read with trees as nodes, the same parser says which
  expression the tokens stand for, and a grammar independent of it says that this is MySQL's reading. The
  position of the Go parser is the list of the tokens left; the fuel bounds its recursion and is never
  used up.
\<close>

section \<open>Nodes and errors\<close>

record integer_route =
  ir_sql :: string
  ir_lo :: int
  ir_hi :: int
  ir_nullable :: bool

datatype expr_error =
    NotVerified | LexFailed lex_error | BadTokenCount | TrailingToken string
  | Unbalanced | MissingOperand | NotDecimal | MayOverflow | BadOperand string
  | QuotedFunction | UnknownFunction string | MissingComma | UnknownColumn string | UnsignedColumn string
  | NotInteger string | ZeroDivisor | DivOverflow | UnknownOperator string | OutOfFuel

record 'n node_ops =
  no_literal :: "int \<Rightarrow> 'n"
  no_fits :: "'n \<Rightarrow> expr_error + unit"
  no_column :: "string \<Rightarrow> expr_error + 'n"
  no_abs :: "'n \<Rightarrow> expr_error + 'n"
  no_combine :: "'n \<Rightarrow> string \<Rightarrow> 'n \<Rightarrow> expr_error + 'n"

section \<open>The parser\<close>

definition takes :: "token list \<Rightarrow> string \<Rightarrow> bool" where
  "takes ts s = (case ts of [] \<Rightarrow> False | t # _ \<Rightarrow> token_is t s)"

definition integerRoutePrecedence :: "token \<Rightarrow> nat" where
  "integerRoutePrecedence t =
     (if token_is t ''+'' \<or> token_is t ''-'' then 1
      else if token_is t ''*'' \<or> token_is t ''DIV'' \<or> token_is t ''MOD'' \<or> token_is t ''%'' then 2 else 0)"

definition closing :: "'n \<times> token list \<Rightarrow> expr_error + 'n \<times> token list" where
  "closing x = (if takes (snd x) '')'' then Inr (fst x, tl (snd x)) else Inl Unbalanced)"

definition token_name :: "token \<Rightarrow> string" where
  "token_name t = (if tk_kind t = TQuoted then tk_value t else tk_text t)"

definition route_functions :: "string list" where
  "route_functions = [''ABS'', ''MOD'', ''FLOOR'', ''CEILING'', ''CEIL'']"

fun ibinary :: "nat \<Rightarrow> 'n node_ops \<Rightarrow> nat \<Rightarrow> token list \<Rightarrow> expr_error + 'n \<times> token list"
and iloop :: "nat \<Rightarrow> 'n node_ops \<Rightarrow> nat \<Rightarrow> 'n \<Rightarrow> token list \<Rightarrow> expr_error + 'n \<times> token list"
and iatom :: "nat \<Rightarrow> 'n node_ops \<Rightarrow> token list \<Rightarrow> expr_error + 'n \<times> token list"
and iarguments :: "nat \<Rightarrow> 'n node_ops \<Rightarrow> string \<Rightarrow> 'n \<times> token list \<Rightarrow> expr_error + 'n \<times> token list" where
  "ibinary 0 A m ts = Inl OutOfFuel"
| "ibinary (Suc k) A m ts = bind_res (iatom k A ts) (\<lambda>(left, r). iloop k A m left r)"
| "iloop 0 A m left ts = Inl OutOfFuel"
| "iloop (Suc k) A m left [] = Inr (left, [])"
| "iloop (Suc k) A m left (t # ts) =
     (let prec = integerRoutePrecedence t in
      if prec < m then Inr (left, t # ts)
      else bind_res (ibinary k A (prec + 1) ts) (\<lambda>(right, r).
           bind_res (no_combine A left (to_upper (tk_text t)) right) (\<lambda>n. iloop k A m n r)))"
| "iatom 0 A ts = Inl OutOfFuel"
| "iatom (Suc k) A [] = Inl MissingOperand"
| "iatom (Suc k) A (t # ts) =
     (if token_is t ''('' then bind_res (ibinary k A 1 ts) closing
      else if token_is t ''+'' then iatom k A ts
      else if token_is t ''-'' then
        bind_res (iatom k A ts) (\<lambda>(n, r). bind_res (no_combine A (no_literal A 0) ''-'' n) (\<lambda>m. Inr (m, r)))
      else if tk_kind t = TNumber then
        (case parse_big (tk_text t) of
           None \<Rightarrow> Inl NotDecimal
         | Some v \<Rightarrow> bind_res (no_fits A (no_literal A v)) (\<lambda>_. Inr (no_literal A v, ts)))
      else if tk_kind t \<noteq> TIdent \<and> tk_kind t \<noteq> TQuoted then Inl (BadOperand (tk_text t))
      else if takes ts ''('' then
        (if tk_kind t \<noteq> TIdent then Inl QuotedFunction
         else if to_upper (tk_text t) \<notin> set route_functions then Inl (UnknownFunction (to_upper (tk_text t)))
         else bind_res (ibinary k A 1 (tl ts)) (\<lambda>x.
              bind_res (iarguments k A (to_upper (tk_text t)) x) closing))
      else bind_res (no_column A (token_name t)) (\<lambda>n. Inr (n, ts)))"
| "iarguments 0 A fn x = Inl OutOfFuel"
| "iarguments (Suc k) A fn (a, r) =
     (if fn = ''MOD'' then
        (if takes r '','' then
           bind_res (ibinary k A 1 (tl r)) (\<lambda>(b, r). bind_res (no_combine A a ''MOD'' b) (\<lambda>n. Inr (n, r)))
         else Inl MissingComma)
      else if fn = ''ABS'' then bind_res (no_abs A a) (\<lambda>n. Inr (n, r))
      else Inr (a, r))"

section \<open>Routes\<close>

text \<open>\<open>postgres\<close> is the feature of the target's profile; the target MySQL keeps MySQL's own syntax.\<close>

definition literal_sql :: "string \<Rightarrow> int \<Rightarrow> string" where
  "literal_sql target v = (if target = ''mysql'' then itoa v else ''CAST('' @ [CHR 0x27] @ itoa v @ [CHR 0x27] @ '' AS numeric)'')"

definition function_sql :: "string \<Rightarrow> string \<Rightarrow> string list \<Rightarrow> string" where
  "function_sql target fn args = (if target = ''mysql'' then fn else ''pg_catalog.'' @ fn) @ ''('' @ str_join '','' args @ '')''"

definition column_sql :: "options \<Rightarrow> string \<Rightarrow> string" where
  "column_sql opt name =
     (let key = sql_quote (op_target opt) (op_column_name opt name) in
      if op_target opt = ''mysql'' then key else ''CAST('' @ key @ '' AS numeric)'')"

definition combine_sql :: "string \<Rightarrow> string \<Rightarrow> string \<Rightarrow> string \<Rightarrow> string" where
  "combine_sql target a oper b =
     (if oper = ''MOD'' \<or> oper = ''%'' then function_sql target ''mod'' [a, b]
      else if oper = ''DIV'' \<and> target \<noteq> ''mysql'' then function_sql target ''div'' [a, b]
      else ''('' @ a @ '' '' @ oper @ '' '' @ b @ '')'')"

definition integerRouteFits :: "integer_route \<Rightarrow> expr_error + unit" where
  "integerRouteFits n = (if in_i64 (ir_lo n) \<and> in_i64 (ir_hi n) then Inr () else Inl MayOverflow)"

definition literal_route :: "string \<Rightarrow> int \<Rightarrow> integer_route" where
  "literal_route target v = \<lparr>ir_sql = literal_sql target v, ir_lo = v, ir_hi = v, ir_nullable = False\<rparr>"

definition column_of :: "ColumnInfo list \<Rightarrow> string \<Rightarrow> ColumnInfo option" where
  "column_of cols name = List.find (\<lambda>c. ci_Name c = name) cols"

definition integer_bits :: "string \<Rightarrow> nat option" where
  "integer_bits typ = map_of [(''tinyint'', 8), (''smallint'', 16), (''mediumint'', 24), (''int'', 32), (''integer'', 32), (''bigint'', 64)] typ"

definition column_route :: "options \<Rightarrow> ColumnInfo list \<Rightarrow> string \<Rightarrow> expr_error + integer_route" where
  "column_route opt cols name =
     (case column_of cols name of
        None \<Rightarrow> Inl (UnknownColumn name)
      | Some col \<Rightarrow>
          let typ = to_lower (ci_DataType col) in
          if str_contains (to_lower (ci_FormattedType col @ '' '' @ typ)) ''unsigned'' then Inl (UnsignedColumn name)
          else
            (case integer_bits typ of
               None \<Rightarrow> Inl (NotInteger name)
             | Some bits \<Rightarrow> Inr \<lparr>ir_sql = column_sql opt name, ir_lo = - (2 ^ (bits - 1)), ir_hi = 2 ^ (bits - 1) - 1,
                 ir_nullable = ci_IsNullable col\<rparr>))"

definition abs_route :: "string \<Rightarrow> integer_route \<Rightarrow> expr_error + integer_route" where
  "abs_route target a =
     (let l = min \<bar>ir_lo a\<bar> \<bar>ir_hi a\<bar>; h = max \<bar>ir_lo a\<bar> \<bar>ir_hi a\<bar>;
          n = a\<lparr>ir_lo := if ir_lo a \<le> 0 \<and> 0 \<le> ir_hi a then 0 else l, ir_hi := h, ir_sql := function_sql target ''abs'' [ir_sql a]\<rparr>
      in bind_res (integerRouteFits n) (\<lambda>_. Inr n))"

definition corners :: "(int \<Rightarrow> int \<Rightarrow> int) \<Rightarrow> integer_route \<Rightarrow> integer_route \<Rightarrow> int list" where
  "corners f a b = [f (ir_lo a) (ir_lo b), f (ir_lo a) (ir_hi b), f (ir_hi a) (ir_lo b), f (ir_hi a) (ir_hi b)]"

definition smallest :: "int list \<Rightarrow> int" where
  "smallest xs = foldl min (hd xs) (tl xs)"

definition largest :: "int list \<Rightarrow> int" where
  "largest xs = foldl max (hd xs) (tl xs)"

definition around_zero :: "integer_route \<Rightarrow> bool" where
  "around_zero b \<longleftrightarrow> ir_lo b \<le> 0 \<and> 0 \<le> ir_hi b"

definition combine_interval :: "integer_route \<Rightarrow> string \<Rightarrow> integer_route \<Rightarrow> expr_error + int \<times> int" where
  "combine_interval a oper b =
     (if oper = ''+'' then Inr (ir_lo a + ir_lo b, ir_hi a + ir_hi b)
      else if oper = ''-'' then Inr (ir_lo a - ir_hi b, ir_hi a - ir_lo b)
      else if oper = ''*'' then Inr (smallest (corners (*) a b), largest (corners (*) a b))
      else if oper = ''DIV'' then
        (if around_zero b then Inl ZeroDivisor
         else if smallest (corners quo a b) = - (2 ^ 63) then Inl DivOverflow
         else Inr (smallest (corners quo a b), largest (corners quo a b)))
      else if oper = ''MOD'' \<or> oper = ''%'' then
        (if around_zero b then Inl ZeroDivisor
         else
           let bound = max \<bar>ir_lo b\<bar> \<bar>ir_hi b\<bar> - 1 in
           Inr (if ir_lo a < 0 then max (- bound) (ir_lo a) else 0, if 0 < ir_hi a then min bound (ir_hi a) else 0))
      else Inl (UnknownOperator oper))"

definition combine_route :: "string \<Rightarrow> integer_route \<Rightarrow> string \<Rightarrow> integer_route \<Rightarrow> expr_error + integer_route" where
  "combine_route target a oper b =
     bind_res (combine_interval a oper b) (\<lambda>(lo, hi).
       let n = \<lparr>ir_sql = combine_sql target (ir_sql a) oper (ir_sql b), ir_lo = lo, ir_hi = hi,
                ir_nullable = ir_nullable a \<or> ir_nullable b\<rparr> in
       bind_res (integerRouteFits n) (\<lambda>_. Inr n))"

definition route_ops :: "options \<Rightarrow> ColumnInfo list \<Rightarrow> integer_route node_ops" where
  "route_ops opt cols =
     \<lparr>no_literal = literal_route (op_target opt), no_fits = integerRouteFits, no_column = column_route opt cols,
      no_abs = abs_route (op_target opt), no_combine = combine_route (op_target opt)\<rparr>"

text \<open>Three levels of calls per token are enough.\<close>

definition parse_fuel :: "token list \<Rightarrow> nat" where
  "parse_fuel ts = 3 * length ts + 2"

definition parse_all :: "'n node_ops \<Rightarrow> token list \<Rightarrow> expr_error + 'n" where
  "parse_all A ts =
     bind_res (ibinary (parse_fuel ts) A 1 ts) (\<lambda>(n, r). if r = [] then Inr n else Inl (TrailingToken (tk_text (hd r))))"

definition integerExpression ::
  "(string \<Rightarrow> rune_info) \<Rightarrow> options \<Rightarrow> profile \<Rightarrow> ColumnInfo list \<Rightarrow> string \<Rightarrow> expr_error + integer_route" where
  "integerExpression uni opt pf cols raw =
     (if op_source opt \<noteq> ''mysql'' \<or> (op_target opt \<noteq> ''mysql'' \<and> ''postgres_declarative'' \<notin> pf_features pf) then Inl NotVerified
      else
        (case lex uni raw of
           Inl e \<Rightarrow> Inl (LexFailed e)
         | Inr ts \<Rightarrow>
             if ts = [] \<or> 512 < length ts then Inl BadTokenCount else parse_all (route_ops opt cols) ts))"

section \<open>Expressions and their meaning\<close>

datatype iexpr = ILit int | ICol string | IAbs iexpr | IBin iexpr string iexpr

definition operator_names :: "string list" where
  "operator_names = [''+'', ''-'', ''*'', ''DIV'', ''MOD'', ''%'']"

definition tree_ops :: "iexpr node_ops" where
  "tree_ops =
     \<lparr>no_literal = ILit, no_fits = (\<lambda>_. Inr ()), no_column = (\<lambda>c. Inr (ICol c)), no_abs = (\<lambda>a. Inr (IAbs a)),
      no_combine = (\<lambda>a oper b. if oper \<in> set operator_names then Inr (IBin a oper b) else Inl (UnknownOperator oper))\<rparr>"

text \<open>The SQL of an expression on the target.\<close>

fun render :: "options \<Rightarrow> iexpr \<Rightarrow> string" where
  "render opt (ILit v) = literal_sql (op_target opt) v"
| "render opt (ICol c) = column_sql opt c"
| "render opt (IAbs a) = function_sql (op_target opt) ''abs'' [render opt a]"
| "render opt (IBin a oper b) = combine_sql (op_target opt) (render opt a) oper (render opt b)"

text \<open>MySQL: signed 64-bit results, an error on overflow and on a zero divisor, NULL for NULL operands. A
  negative quotient is computed on magnitudes, so the smallest integer is not a possible one.\<close>

definition checked :: "int \<Rightarrow> unit + int option" where
  "checked x = (if in_i64 x then Inr (Some x) else Inl ())"

definition mysql_op :: "string \<Rightarrow> int \<Rightarrow> int \<Rightarrow> unit + int option" where
  "mysql_op oper x y =
     (if oper = ''+'' then checked (x + y) else if oper = ''-'' then checked (x - y)
      else if oper = ''*'' then checked (x * y)
      else if y = 0 then Inl ()
      else if oper = ''DIV'' then (if \<bar>quo x y\<bar> \<le> i64_max then Inr (Some (quo x y)) else Inl ())
      else Inr (Some (rem_t x y)))"

text \<open>The target: exact arithmetic, an error on a zero divisor only.\<close>

definition exact_op :: "string \<Rightarrow> int \<Rightarrow> int \<Rightarrow> unit + int option" where
  "exact_op oper x y =
     (if oper = ''+'' then Inr (Some (x + y)) else if oper = ''-'' then Inr (Some (x - y))
      else if oper = ''*'' then Inr (Some (x * y))
      else if y = 0 then Inl ()
      else if oper = ''DIV'' then Inr (Some (quo x y)) else Inr (Some (rem_t x y)))"

definition on_values :: "(int \<Rightarrow> int \<Rightarrow> unit + int option) \<Rightarrow> int option \<Rightarrow> int option \<Rightarrow> unit + int option" where
  "on_values f u v = (case (u, v) of (Some x, Some y) \<Rightarrow> f x y | _ \<Rightarrow> Inr None)"

fun evaluate ::
  "(int \<Rightarrow> unit + int option) \<Rightarrow> (string \<Rightarrow> int \<Rightarrow> int \<Rightarrow> unit + int option) \<Rightarrow> (string \<Rightarrow> int option) \<Rightarrow> iexpr \<Rightarrow> unit + int option" where
  "evaluate one two \<rho> (ILit v) = one v"
| "evaluate one two \<rho> (ICol c) = Inr (\<rho> c)"
| "evaluate one two \<rho> (IAbs a) =
     bind_res (evaluate one two \<rho> a) (\<lambda>u. case u of None \<Rightarrow> Inr None | Some x \<Rightarrow> one \<bar>x\<bar>)"
| "evaluate one two \<rho> (IBin a oper b) =
     bind_res (evaluate one two \<rho> a) (\<lambda>u. bind_res (evaluate one two \<rho> b) (\<lambda>v. on_values (two oper) u v))"

definition mysql_value :: "(string \<Rightarrow> int option) \<Rightarrow> iexpr \<Rightarrow> unit + int option" where
  "mysql_value = evaluate checked mysql_op"

definition exact_value :: "(string \<Rightarrow> int option) \<Rightarrow> iexpr \<Rightarrow> unit + int option" where
  "exact_value = evaluate (\<lambda>x. Inr (Some x)) exact_op"

text \<open>Rows that the columns admit.\<close>

definition admits :: "ColumnInfo \<Rightarrow> int option \<Rightarrow> bool" where
  "admits col u =
     (case u of
        None \<Rightarrow> ci_IsNullable col
      | Some x \<Rightarrow>
          (case integer_bits (to_lower (ci_DataType col)) of
             None \<Rightarrow> True
           | Some bits \<Rightarrow> - (2 ^ (bits - 1)) \<le> x \<and> x \<le> 2 ^ (bits - 1) - 1))"

definition row_admitted :: "ColumnInfo list \<Rightarrow> (string \<Rightarrow> int option) \<Rightarrow> bool" where
  "row_admitted cols \<rho> \<longleftrightarrow> list_all (\<lambda>col. admits col (\<rho> (ci_Name col))) cols"

section \<open>Intervals\<close>

definition within :: "int \<Rightarrow> integer_route \<Rightarrow> bool" where
  "within x n \<longleftrightarrow> ir_lo n \<le> x \<and> x \<le> ir_hi n"

definition amid :: "int \<Rightarrow> int \<Rightarrow> int \<Rightarrow> bool" where
  "amid u v x \<longleftrightarrow> min u v \<le> x \<and> x \<le> max u v"

lemma corners_bound:
  assumes "amid (f (ir_lo a) y) (f (ir_hi a) y) v"
    and "amid (f (ir_lo a) (ir_lo b)) (f (ir_lo a) (ir_hi b)) (f (ir_lo a) y)"
    and "amid (f (ir_hi a) (ir_lo b)) (f (ir_hi a) (ir_hi b)) (f (ir_hi a) y)"
  shows "smallest (corners f a b) \<le> v" "v \<le> largest (corners f a b)"
  using assms unfolding amid_def corners_def smallest_def largest_def by (simp_all add: min_def max_def split: if_splits)

lemma amid_times: "l \<le> x \<Longrightarrow> x \<le> h \<Longrightarrow> amid (l * c) (h * c) (x * (c :: int))"
  by (cases "0 \<le> c") (auto simp: amid_def min_le_iff_disj le_max_iff_disj mult_right_mono mult_right_mono_neg)

lemma amid_times_left: "l \<le> x \<Longrightarrow> x \<le> h \<Longrightarrow> amid (c * l) (c * h) ((c :: int) * x)"
  using amid_times [of l x h c] by (simp add: mult.commute)

lemma quo_neg: "quo (- x) y = - quo x y" "quo x (- y) = - quo x y"
  by (simp_all add: quo_def)

lemma quo_pos: "0 \<le> x \<Longrightarrow> 0 < y \<Longrightarrow> quo x y = x div y"
  by (cases "x = 0") (simp_all add: quo_def)

lemma quo_mono_left:
  assumes "x \<le> z" "0 < y"
  shows "quo x y \<le> quo z y"
proof (cases "0 \<le> x")
  case True
  then show ?thesis using assms by (simp add: quo_pos zdiv_mono1)
next
  case False
  then have x: "quo x y = - ((- x) div y)" using assms quo_pos [of "- x" y] by (simp add: quo_neg)
  show ?thesis
  proof (cases "0 \<le> z")
    case True
    then have "0 \<le> quo z y" using assms by (simp add: quo_pos pos_imp_zdiv_nonneg_iff)
    moreover have "0 \<le> (- x) div y" using assms False by (simp add: pos_imp_zdiv_nonneg_iff)
    ultimately show ?thesis using x by linarith
  next
    case False
    then have "quo z y = - ((- z) div y)" using assms quo_pos [of "- z" y] by (simp add: quo_neg)
    moreover have "(- z) div y \<le> (- x) div y" using assms by (simp add: zdiv_mono1)
    ultimately show ?thesis using x by linarith
  qed
qed

lemma amid_quo_left:
  assumes "l \<le> x" "x \<le> h" "y \<noteq> 0"
  shows "amid (quo l y) (quo h y) (quo x y)"
proof (cases "0 < y")
  case True
  then show ?thesis using quo_mono_left assms(1,2) by (auto simp: amid_def min_le_iff_disj le_max_iff_disj)
next
  case False
  then have "0 < - y" using assms(3) by simp
  then have "quo l (- y) \<le> quo x (- y)" "quo x (- y) \<le> quo h (- y)" using quo_mono_left assms(1,2) by blast+
  then show ?thesis by (auto simp: amid_def quo_neg min_le_iff_disj le_max_iff_disj)
qed

lemma quo_anti_right:
  assumes "0 < y" "y \<le> z" "0 \<le> x"
  shows "quo x z \<le> quo x y"
  using assms zdiv_mono2 [of x y z] by (simp add: quo_pos)

lemma amid_quo_right:
  assumes "l \<le> y" "y \<le> h" "\<not> (l \<le> 0 \<and> 0 \<le> h)"
  shows "amid (quo x l) (quo x h) (quo x y)"
proof -
  have pos: "amid (quo u p) (quo u q) (quo u r)" if "0 < p" "p \<le> r" "r \<le> q" for u p q r
  proof (cases "0 \<le> u")
    case True
    then show ?thesis using quo_anti_right [of p r u] quo_anti_right [of r q u] that
      by (auto simp: amid_def min_le_iff_disj le_max_iff_disj)
  next
    case False
    then have "quo (- u) r \<le> quo (- u) p" "quo (- u) q \<le> quo (- u) r"
      using quo_anti_right [of p r "- u"] quo_anti_right [of r q "- u"] that by auto
    then show ?thesis by (auto simp: amid_def quo_neg min_le_iff_disj le_max_iff_disj)
  qed
  show ?thesis
  proof (cases "0 < l")
    case False
    then have "0 < - h" using assms by linarith
    then have "amid (quo x (- h)) (quo x (- l)) (quo x (- y))" using assms pos by simp
    then show ?thesis by (auto simp: amid_def quo_neg min_def max_def split: if_splits)
  qed (use assms pos in simp)
qed

lemma rem_bounds:
  assumes "y \<noteq> 0"
  shows "\<bar>rem_t x y\<bar> < \<bar>y\<bar>" "\<bar>rem_t x y\<bar> \<le> \<bar>x\<bar>" "0 \<le> x \<Longrightarrow> 0 \<le> rem_t x y" "x \<le> 0 \<Longrightarrow> rem_t x y \<le> 0"
proof -
  have m: "0 \<le> \<bar>x\<bar> mod \<bar>y\<bar>" "\<bar>x\<bar> mod \<bar>y\<bar> < \<bar>y\<bar>" "\<bar>x\<bar> mod \<bar>y\<bar> \<le> \<bar>x\<bar>" using assms by (simp_all add: zmod_le_nonneg_dividend)
  show "\<bar>rem_t x y\<bar> < \<bar>y\<bar>" "\<bar>rem_t x y\<bar> \<le> \<bar>x\<bar>" using m by (auto simp: rem_t_sgn abs_mult sgn_if)
  show "0 \<le> x \<Longrightarrow> 0 \<le> rem_t x y" "x \<le> 0 \<Longrightarrow> rem_t x y \<le> 0" using m by (auto simp: rem_t_sgn sgn_if)
qed

lemma combine_interval_sound:
  assumes "combine_interval a oper b = Inr (lo, hi)" "in_i64 lo" "in_i64 hi" "within x a" "within y b"
  shows "\<exists>v. mysql_op oper x y = Inr (Some v) \<and> exact_op oper x y = Inr (Some v) \<and> lo \<le> v \<and> v \<le> hi"
proof -
  have in_range: "in_i64 v" if "lo \<le> v" "v \<le> hi" for v using assms(2,3) that by (auto simp: in_i64_def)
  note xy = assms(4,5) [unfolded within_def]
  consider (plus) "oper = ''+''" | (minus) "oper = ''-''" | (times) "oper = ''*''" | (div) "oper = ''DIV''" | (rem) "oper \<in> set [''MOD'', ''%'']"
    using assms(1) by (auto simp: combine_interval_def split: if_splits)
  then show ?thesis
  proof cases
    case plus
    then have "lo \<le> x + y \<and> x + y \<le> hi" using assms(1) xy by (simp add: combine_interval_def)
    then show ?thesis using plus in_range by (simp add: mysql_op_def exact_op_def checked_def)
  next
    case minus
    then have "lo \<le> x - y \<and> x - y \<le> hi" using assms(1) xy by (simp add: combine_interval_def)
    then show ?thesis using minus in_range by (simp add: mysql_op_def exact_op_def checked_def)
  next
    case times
    then have "lo \<le> x * y \<and> x * y \<le> hi"
      using assms(1) corners_bound [where f = "(*)" and v = "x * y" and y = y and a = a and b = b] xy
      by (simp add: combine_interval_def amid_times amid_times_left)
    then show ?thesis using times in_range by (simp add: mysql_op_def exact_op_def checked_def)
  next
    case div
    then have nz: "\<not> around_zero b" and lo: "lo = smallest (corners quo a b)" "hi = largest (corners quo a b)" "lo \<noteq> - (2 ^ 63)"
      using assms(1) by (auto simp: combine_interval_def split: if_splits)
    then have y: "y \<noteq> 0" "\<not> (ir_lo b \<le> 0 \<and> 0 \<le> ir_hi b)" using xy by (auto simp: around_zero_def)
    have v: "lo \<le> quo x y \<and> quo x y \<le> hi"
      unfolding lo(1,2) using corners_bound [where f = quo and v = "quo x y" and y = y and a = a and b = b] xy y
      by (simp add: amid_quo_left amid_quo_right)
    then have "\<bar>quo x y\<bar> \<le> i64_max" using assms(2,3) lo(3) by (auto simp: in_i64_def i64_min_def i64_max_def)
    then show ?thesis using div v y(1) by (simp add: mysql_op_def exact_op_def)
  next
    case rem
    then have nz: "\<not> around_zero b"
      and lo: "lo = (if ir_lo a < 0 then max (- (max \<bar>ir_lo b\<bar> \<bar>ir_hi b\<bar> - 1)) (ir_lo a) else 0)"
        "hi = (if 0 < ir_hi a then min (max \<bar>ir_lo b\<bar> \<bar>ir_hi b\<bar> - 1) (ir_hi a) else 0)"
      using assms(1) by (auto simp: combine_interval_def Let_def split: if_splits)
    then have y: "y \<noteq> 0" using xy by (auto simp: around_zero_def)
    have "\<bar>y\<bar> \<le> max \<bar>ir_lo b\<bar> \<bar>ir_hi b\<bar>" using xy by linarith
    then have "lo \<le> rem_t x y \<and> rem_t x y \<le> hi"
      using rem_bounds [OF y, of x] xy unfolding lo by (cases "0 \<le> x") auto
    then show ?thesis using rem y by (auto simp: mysql_op_def exact_op_def)
  qed
qed

end
