(* ===== verification/PartitionExprSound.thy ===== *)
theory PartitionExprSound
  imports PartitionExpr
begin

text \<open>
  What the parser of integer expressions guarantees: its fuel is never used up, its trees are those of a
  grammar with MySQL's precedences, and the route of an accepted expression is the target's SQL of that
  tree, with a value that MySQL and the target agree on for every row the columns admit.
\<close>

section \<open>Fuel\<close>

definition fuel_free :: "'n node_ops \<Rightarrow> bool" where
  "fuel_free A \<longleftrightarrow> (\<forall>n. no_fits A n \<noteq> Inl OutOfFuel) \<and> (\<forall>c. no_column A c \<noteq> Inl OutOfFuel) \<and>
     (\<forall>n. no_abs A n \<noteq> Inl OutOfFuel) \<and> (\<forall>a oper b. no_combine A a oper b \<noteq> Inl OutOfFuel)"

text \<open>A result that did not run out of fuel below the bound and consumed at least \<open>d\<close> tokens.\<close>

definition settled :: "nat \<Rightarrow> nat \<Rightarrow> nat \<Rightarrow> nat \<Rightarrow> expr_error + 'n \<times> token list \<Rightarrow> bool" where
  "settled k bound d L q \<longleftrightarrow> (q = Inl OutOfFuel \<longrightarrow> k < bound) \<and> (\<forall>n r. q = Inr (n, r) \<longrightarrow> length r + d \<le> L)"

lemma settled_step:
  "settled k b d L q \<Longrightarrow> b < b' \<Longrightarrow> L + d' \<le> L' + d \<Longrightarrow> settled (Suc k) b' d' L' q"
  by (fastforce simp: settled_def)

lemma settled_bind:
  assumes "settled k b d L q" "b < b'"
    and "\<And>n r. length r + d \<le> L \<Longrightarrow> settled (Suc k) b' d' L' (g (n, r))"
  shows "settled (Suc k) b' d' L' (bind_res q g)"
proof (cases q)
  case (Inr x)
  obtain n r where x: "x = (n, r)" by (cases x)
  then have "length r + d \<le> L" using assms(1) Inr by (simp add: settled_def)
  then show ?thesis using assms(3) by (simp add: Inr x)
qed (use assms(1,2) in \<open>auto simp: settled_def\<close>)

lemma settled_op:
  "q \<noteq> Inl OutOfFuel \<Longrightarrow> (\<And>n. q = Inr n \<Longrightarrow> settled k b d L (g n)) \<Longrightarrow> settled k b d L (bind_res q g)"
  by (cases q) (auto simp: settled_def)

lemma settled_error: "e \<noteq> OutOfFuel \<Longrightarrow> settled k b d L (Inl e)"
  by (simp add: settled_def)

lemma settled_done: "length r + d \<le> L \<Longrightarrow> settled k b d L (Inr (n, r))"
  by (simp add: settled_def)

lemma settled_closing: "length r + d \<le> L + 1 \<Longrightarrow> settled k b d L (closing (n, r))"
  by (cases r) (auto simp: settled_def closing_def takes_def)

lemma closing_iff: "closing (n, r') = Inr (m, r) \<longleftrightarrow> m = n \<and> takes r' '')'' \<and> r = tl r'"
  by (auto simp: closing_def)

lemma takes_Cons: "takes r s \<longleftrightarrow> (\<exists>t r'. r = t # r' \<and> token_is t s)"
  by (cases r) (auto simp: takes_def)

lemma parser_settled:
  assumes "fuel_free A"
  shows "settled k (3 * length ts + 2) 1 (length ts) (ibinary k A m ts)"
    and "settled k (3 * length ts + 1) 0 (length ts) (iloop k A m left ts)"
    and "settled k (3 * length ts + 1) 1 (length ts) (iatom k A ts)"
    and "settled k (3 * length ts + 1) 0 (length ts) (iarguments k A fn (a, ts))"
proof (induction k arbitrary: m ts left fn a)
  case (Suc k)
  have free: "no_fits A n \<noteq> Inl OutOfFuel" "no_column A c \<noteq> Inl OutOfFuel" "no_abs A n \<noteq> Inl OutOfFuel"
    "no_combine A n oper n' \<noteq> Inl OutOfFuel" for n c oper n'
    using assms by (simp_all add: fuel_free_def)
  note sub = settled_bind [OF Suc(1)] settled_bind [OF Suc(3)] settled_bind [OF Suc(4)]
  {
    case 1
    show ?case
      unfolding ibinary.simps by (rule sub) (auto intro: settled_step [OF Suc(2)])
  next
    case 2
    show ?case
    proof (cases ts)
      case (Cons t us)
      show ?thesis
        unfolding Cons iloop.simps Let_def
        by (auto intro!: settled_done sub(1) settled_op [OF free(4)] intro: settled_step [OF Suc(2)])
    qed (simp add: settled_done)
  next
    case 3
    show ?case
    proof (cases ts)
      case (Cons t us)
      have call: "settled (Suc k) (3 * length ts + 1) 1 (length ts)
          (bind_res (ibinary k A 1 (tl us)) (\<lambda>x. bind_res (iarguments k A fn' x) closing))" if "takes us ''(''" for fn'
        using that unfolding takes_Cons
        by (auto simp: Cons intro!: sub settled_closing)
      show ?thesis
        unfolding Cons iatom.simps
        using call [unfolded Cons]
        by (auto intro!: sub settled_closing settled_error settled_done settled_op [OF free(1)] settled_op [OF free(2)] settled_op [OF free(4)]
            intro: settled_step [OF Suc(3)] split: option.split)
    qed (simp add: settled_error)
  next
    case 4
    show ?case
      unfolding iarguments.simps
      by (auto simp: takes_Cons intro!: sub(1) settled_error settled_done settled_op [OF free(3)] settled_op [OF free(4)])
  }
qed (simp_all add: settled_def)

section \<open>One parser, two kinds of nodes\<close>

text \<open>When the nodes of \<open>A\<close> are related to those of \<open>B\<close> and every accepted operation of \<open>A\<close> has a related one of
  \<open>B\<close>, an input that \<open>A\<close> accepts is parsed by \<open>B\<close> to a related node, with the same tokens left.\<close>

locale node_simulation =
  fixes A :: "'n node_ops" and B :: "'m node_ops" and R :: "'n \<Rightarrow> 'm \<Rightarrow> bool"
  assumes literal: "no_fits A (no_literal A v) = Inr () \<Longrightarrow>
      no_fits B (no_literal B v) = Inr () \<and> R (no_literal A v) (no_literal B v)"
    and zero: "R (no_literal A 0) (no_literal B 0)"
    and column: "no_column A c = Inr n \<Longrightarrow> \<exists>m. no_column B c = Inr m \<and> R n m"
    and magnitude: "R a b \<Longrightarrow> no_abs A a = Inr n \<Longrightarrow> \<exists>m. no_abs B b = Inr m \<and> R n m"
    and combination: "R a b \<Longrightarrow> R a' b' \<Longrightarrow> no_combine A a oper a' = Inr n \<Longrightarrow>
      \<exists>m. no_combine B b oper b' = Inr m \<and> R n m"
begin

lemma parser_simulation:
  shows "ibinary k A p ts = Inr (n, r) \<Longrightarrow> \<exists>m. ibinary k B p ts = Inr (m, r) \<and> R n m"
    and "iloop k A p a ts = Inr (n, r) \<Longrightarrow> R a b \<Longrightarrow> \<exists>m. iloop k B p b ts = Inr (m, r) \<and> R n m"
    and "iatom k A ts = Inr (n, r) \<Longrightarrow> \<exists>m. iatom k B ts = Inr (m, r) \<and> R n m"
    and "iarguments k A fn (a, ts) = Inr (n, r) \<Longrightarrow> R a b \<Longrightarrow> \<exists>m. iarguments k B fn (b, ts) = Inr (m, r) \<and> R n m"
proof (induction k arbitrary: p ts a b n r fn)
  case (Suc k)
  {
    case 1
    then obtain a r' where "iatom k A ts = Inr (a, r')" "iloop k A p a r' = Inr (n, r)"
      by (auto simp: bind_res_Inr_iff)
    then show ?case using Suc(3) [of ts a r'] Suc(2) [of p a r' n r] by fastforce
  next
    case (2 p ts a b n r)
    show ?case
    proof (cases ts)
      case (Cons t us)
      show ?thesis
      proof (cases "integerRoutePrecedence t < p")
        case False
        with 2 obtain a' r' n' where s: "ibinary k A (integerRoutePrecedence t + 1) us = Inr (a', r')"
            "no_combine A a (to_upper (tk_text t)) a' = Inr n'" "iloop k A p n' r' = Inr (n, r)"
          by (auto simp: Cons Let_def bind_res_Inr_iff)
        obtain b' where b': "ibinary k B (integerRoutePrecedence t + 1) us = Inr (b', r')" "R a' b'"
          using Suc(1) [OF s(1)] by blast
        obtain m' where m': "no_combine B b (to_upper (tk_text t)) b' = Inr m'" "R n' m'"
          using combination [OF 2(2) b'(2) s(2)] by blast
        show ?thesis using Suc(2) [OF s(3) m'(2)] b'(1) m'(1) False by (auto simp: Cons Let_def)
      qed (use 2 Cons in auto)
    qed (use 2 in auto)
  next
    case (3 ts n r)
    show ?case
    proof (cases ts)
      case (Cons t us)
      consider (paren) "token_is t ''(''" | (plus) "\<not> token_is t ''(''" "token_is t ''+''"
        | (minus) "\<not> token_is t ''(''" "\<not> token_is t ''+''" "token_is t ''-''"
        | (operand) "\<not> token_is t ''(''" "\<not> token_is t ''+''" "\<not> token_is t ''-''" by blast
      then show ?thesis
      proof cases
        case paren
        with 3 obtain r' where s: "ibinary k A 1 us = Inr (n, r')" "takes r' '')''" "r = tl r'"
          by (auto simp: Cons bind_res_Inr_iff closing_iff)
        from Suc(1) [OF s(1)] paren s(2,3) show ?thesis by (auto simp: Cons closing_iff)
      next
        case plus
        with 3 Suc(3) [of us n r] show ?thesis by (simp add: Cons)
      next
        case minus
        with 3 obtain a where s: "iatom k A us = Inr (a, r)" "no_combine A (no_literal A 0) ''-'' a = Inr n"
          by (auto simp: Cons bind_res_Inr_iff)
        obtain b where b: "iatom k B us = Inr (b, r)" "R a b" using Suc(3) [OF s(1)] by blast
        from combination [OF zero b(2) s(2)] b(1) minus show ?thesis by (auto simp: Cons)
      next
        case operand
        show ?thesis
        proof (cases "tk_kind t = TNumber")
          case True
          have *: "iatom (Suc k) A ts = (case parse_big (tk_text t) of None \<Rightarrow> Inl NotDecimal
              | Some v \<Rightarrow> bind_res (no_fits A (no_literal A v)) (\<lambda>_. Inr (no_literal A v, us)))"
            using operand True by (simp add: Cons)
          then obtain v where p: "parse_big (tk_text t) = Some v" using 3 by (cases "parse_big (tk_text t)") simp_all
          then have v: "no_fits A (no_literal A v) = Inr ()" "n = no_literal A v" "r = us"
            using 3 unfolding * by (auto simp add: bind_res_Inr_iff)
          have "iatom (Suc k) B ts = Inr (no_literal B v, r)"
            using operand True p v(3) literal [OF v(1)] by (simp add: Cons)
          then show ?thesis using literal [OF v(1)] v(2) by blast
        next
          case False
          then have kind: "tk_kind t = TIdent \<or> tk_kind t = TQuoted" using 3 operand by (simp add: Cons split: if_splits)
          show ?thesis
          proof (cases "takes us ''(''")
            case True
            with 3 operand False kind have fn: "tk_kind t = TIdent" "to_upper (tk_text t) \<in> set route_functions"
              by (auto simp: Cons split: if_splits)
            with 3 operand False True obtain a r1 r2 where s: "ibinary k A 1 (tl us) = Inr (a, r1)"
                "iarguments k A (to_upper (tk_text t)) (a, r1) = Inr (n, r2)" "takes r2 '')''" "r = tl r2"
              by (auto simp: Cons bind_res_Inr_iff closing_iff)
            obtain b where b: "ibinary k B 1 (tl us) = Inr (b, r1)" "R a b" using Suc(1) [OF s(1)] by blast
            from Suc(4) [OF s(2) b(2)] b(1) s(3,4) fn operand False True show ?thesis
              by (auto simp: Cons closing_iff)
          next
            case no_call: False
            with 3 operand False kind have "no_column A (token_name t) = Inr n" "r = us"
              by (auto simp: Cons bind_res_Inr_iff)
            with column [of "token_name t" n] operand False kind no_call show ?thesis by (auto simp: Cons)
          qed
        qed
      qed
    qed (use 3 in simp)
  next
    case (4 ts a b n r fn)
    consider (md) "fn = ''MOD''" | (abs) "fn = ''ABS''" | (other) "fn \<noteq> ''MOD''" "fn \<noteq> ''ABS''" by blast
    then show ?case
    proof cases
      case md
      with 4 obtain a' r' where s: "takes ts '',''" "ibinary k A 1 (tl ts) = Inr (a', r)" "no_combine A a ''MOD'' a' = Inr n"
        by (auto simp: bind_res_Inr_iff split: if_splits)
      obtain b' where b': "ibinary k B 1 (tl ts) = Inr (b', r)" "R a' b'" using Suc(1) [OF s(2)] by blast
      obtain m where "no_combine B b ''MOD'' b' = Inr m" "R n m" using combination [OF 4(2) b'(2) s(3)] by blast
      then show ?thesis using md s(1) b'(1) by auto
    next
      case abs
      with 4 have "no_abs A a = Inr n" "r = ts" by (auto simp: bind_res_Inr_iff)
      then show ?thesis using magnitude [OF 4(2)] abs by fastforce
    qed (use 4 in auto)
  }
qed simp_all

end

section \<open>The grammar\<close>

text \<open>Sums of products of operands, both left-associative, as in MySQL: level 1, 2 and 3.\<close>

inductive derives :: "nat \<Rightarrow> token list \<Rightarrow> iexpr \<Rightarrow> bool" where
  sum: "derives 1 us a \<Longrightarrow> derives 2 vs b \<Longrightarrow> token_is t ''+'' \<or> token_is t ''-'' \<Longrightarrow>
    derives 1 (us @ t # vs) (IBin a (to_upper (tk_text t)) b)"
| product: "derives 2 us a \<Longrightarrow> derives 3 vs b \<Longrightarrow>
    token_is t ''*'' \<or> token_is t ''DIV'' \<or> token_is t ''MOD'' \<or> token_is t ''%'' \<Longrightarrow>
    derives 2 (us @ t # vs) (IBin a (to_upper (tk_text t)) b)"
| sum_of_one: "derives 2 us a \<Longrightarrow> derives 1 us a"
| product_of_one: "derives 3 us a \<Longrightarrow> derives 2 us a"
| parentheses: "derives 1 us a \<Longrightarrow> token_is t ''('' \<Longrightarrow> token_is t' '')'' \<Longrightarrow> derives 3 (t # us @ [t']) a"
| positive: "derives 3 us a \<Longrightarrow> token_is t ''+'' \<Longrightarrow> derives 3 (t # us) a"
| negative: "derives 3 us a \<Longrightarrow> token_is t ''-'' \<Longrightarrow> derives 3 (t # us) (IBin (ILit 0) ''-'' a)"
| number: "tk_kind t = TNumber \<Longrightarrow> parse_big (tk_text t) = Some v \<Longrightarrow> derives 3 [t] (ILit v)"
| column: "tk_kind t = TIdent \<or> tk_kind t = TQuoted \<Longrightarrow> derives 3 [t] (ICol (token_name t))"
| absolute: "derives 1 us a \<Longrightarrow> tk_kind f = TIdent \<Longrightarrow> to_upper (tk_text f) = ''ABS'' \<Longrightarrow> token_is t ''('' \<Longrightarrow>
    token_is t' '')'' \<Longrightarrow> derives 3 (f # t # us @ [t']) (IAbs a)"
| rounding: "derives 1 us a \<Longrightarrow> tk_kind f = TIdent \<Longrightarrow> to_upper (tk_text f) \<in> set [''FLOOR'', ''CEILING'', ''CEIL''] \<Longrightarrow>
    token_is t ''('' \<Longrightarrow> token_is t' '')'' \<Longrightarrow> derives 3 (f # t # us @ [t']) a"
| modulo: "derives 1 us a \<Longrightarrow> derives 1 vs b \<Longrightarrow> tk_kind f = TIdent \<Longrightarrow> to_upper (tk_text f) = ''MOD'' \<Longrightarrow> token_is t ''('' \<Longrightarrow>
    token_is s '','' \<Longrightarrow> token_is t' '')'' \<Longrightarrow> derives 3 (f # t # us @ s # vs @ [t']) (IBin a ''MOD'' b)"

definition next_prec :: "token list \<Rightarrow> nat" where
  "next_prec ts = (case ts of [] \<Rightarrow> 0 | t # _ \<Rightarrow> integerRoutePrecedence t)"

lemma precedence_cases:
  "integerRoutePrecedence t \<le> 2"
  "integerRoutePrecedence t = 1 \<Longrightarrow> token_is t ''+'' \<or> token_is t ''-''"
  "integerRoutePrecedence t = 2 \<Longrightarrow> token_is t ''*'' \<or> token_is t ''DIV'' \<or> token_is t ''MOD'' \<or> token_is t ''%''"
  by (auto simp: integerRoutePrecedence_def split: if_splits)

lemma derives_lower:
  assumes "derives c us a" "m \<le> c" "m \<in> {1, 2, 3}" "c \<in> {1, 2, 3}"
  shows "derives m us a"
proof -
  consider "m = c" | "m = 1" "c = 2" | "m = 1" "c = 3" | "m = 2" "c = 3" using assms(2-4) by auto
  then show ?thesis
    using assms(1) sum_of_one [of us a] product_of_one [of us a] by cases simp_all
qed

lemma derives_operation:
  assumes "derives p us a" "derives (p + 1) vs b" "p = integerRoutePrecedence t" "p \<noteq> 0"
  shows "derives p (us @ t # vs) (IBin a (to_upper (tk_text t)) b)"
proof -
  consider "p = 1" | "p = 2" using precedence_cases(1) [of t] assms(3,4) by linarith
  then show ?thesis
  proof cases
    case 1
    then have "derives 1 us a" "derives 2 vs b" using assms(1,2) by (simp_all add: numeral_2_eq_2)
    then show ?thesis using sum precedence_cases(2) [of t] assms(3) 1 by simp
  next
    case 2
    then have "derives 2 us a" "derives 3 vs b" using assms(1,2) by (simp_all add: numeral_3_eq_3)
    then show ?thesis using product precedence_cases(3) [of t] assms(3) 2 by simp
  qed
qed

lemma tree_combine: "no_combine tree_ops a oper b = Inr n \<Longrightarrow> n = IBin a oper b"
  by (simp add: tree_ops_def split: if_splits)

lemma tree_simps: "no_literal tree_ops v = ILit v" "no_fits tree_ops n = Inr ()" "no_column tree_ops c = Inr (ICol c)"
    "no_abs tree_ops n = Inr (IAbs n)"
  by (simp_all add: tree_ops_def)

text \<open>What a parse consumed, with the operator that follows it.\<close>

definition parsed :: "nat \<Rightarrow> token list \<Rightarrow> iexpr \<Rightarrow> token list \<Rightarrow> bool" where
  "parsed m ts e r \<longleftrightarrow> (\<exists>us. ts = us @ r \<and> derives m us e)"

lemma parsed_lower: "parsed c ts e r \<Longrightarrow> m \<le> c \<Longrightarrow> m \<in> {1, 2, 3} \<Longrightarrow> c \<in> {1, 2, 3} \<Longrightarrow> parsed m ts e r"
  unfolding parsed_def using derives_lower by blast

lemma next_prec_le: "next_prec r \<le> 2"
  using precedence_cases(1) by (auto simp: next_prec_def split: list.split)

text \<open>The arguments after the first one of a function call.\<close>

definition called :: "string \<Rightarrow> iexpr \<Rightarrow> token list \<Rightarrow> iexpr \<Rightarrow> token list \<Rightarrow> bool" where
  "called fn a ts n r \<longleftrightarrow>
     (fn = ''MOD'' \<and> (\<exists>s vs b. token_is s '','' \<and> ts = s # vs @ r \<and> derives 1 vs b \<and> n = IBin a ''MOD'' b)) \<or>
     (fn = ''ABS'' \<and> n = IAbs a \<and> r = ts) \<or> (fn \<noteq> ''MOD'' \<and> fn \<noteq> ''ABS'' \<and> n = a \<and> r = ts)"

lemma called_derives:
  assumes "derives 1 us a" "called (to_upper (tk_text f)) a (vs @ t' # r) n (t' # r)" "tk_kind f = TIdent"
    "to_upper (tk_text f) \<in> set route_functions" "token_is t ''(''" "token_is t' '')''"
  shows "derives 3 (f # t # us @ vs @ [t']) n"
  using assms(2) unfolding called_def
proof (elim disjE conjE exE)
  fix s ws b
  assume "to_upper (tk_text f) = ''MOD''" "token_is s '',''" "vs @ t' # r = s # ws @ t' # r" "derives 1 ws b" "n = IBin a ''MOD'' b"
  then show ?thesis using modulo [OF assms(1) _ assms(3) _ assms(5) _ assms(6)] by simp
next
  assume "to_upper (tk_text f) = ''ABS''" "n = IAbs a" "t' # r = vs @ t' # r"
  then show ?thesis using absolute [OF assms(1,3) _ assms(5,6)] by simp
next
  assume "to_upper (tk_text f) \<noteq> ''MOD''" "to_upper (tk_text f) \<noteq> ''ABS''" "n = a" "t' # r = vs @ t' # r"
  then show ?thesis using rounding [OF assms(1,3) _ assms(5,6)] assms(4) by (auto simp: route_functions_def)
qed

text \<open>The loop gets the operand before it as what was parsed of a longer list of tokens.\<close>

lemma parser_derives:
  shows "ibinary k tree_ops m ts = Inr (e, r) \<Longrightarrow> m \<in> {1, 2, 3} \<Longrightarrow> parsed m ts e r \<and> next_prec r < m"
    and "iloop k tree_ops m left us = Inr (e, r) \<Longrightarrow> m \<in> {1, 2, 3} \<Longrightarrow> c \<in> {1, 2, 3} \<Longrightarrow> m \<le> c \<Longrightarrow> next_prec us \<le> c \<Longrightarrow>
      parsed c ts left us \<Longrightarrow> parsed m ts e r \<and> next_prec r < m"
    and "iatom k tree_ops ts = Inr (e, r) \<Longrightarrow> parsed 3 ts e r"
    and "iarguments k tree_ops fn (a, ts) = Inr (e, r) \<Longrightarrow> called fn a ts e r"
proof (induction k arbitrary: m ts e r left us c fn a)
  case (Suc k)
  {
    case (1 m ts e r)
    then obtain a r' where s: "iatom k tree_ops ts = Inr (a, r')" "iloop k tree_ops m a r' = Inr (e, r)"
      by (auto simp: bind_res_Inr_iff)
    have "next_prec r' \<le> 3" using next_prec_le [of r'] by simp
    then show ?case using Suc(2) [OF s(2) 1(2) _ _ _ Suc(3) [OF s(1)]] 1(2) by auto
  next
    case (2 m ts e r left us c)
    have m: "0 < m" using 2(2) by auto
    show ?case
    proof (cases us)
      case Nil
      then show ?thesis using 2 m parsed_lower [OF 2(6) 2(4,2,3)] by (simp add: next_prec_def)
    next
      case (Cons t us')
      define p where "p = integerRoutePrecedence t"
      show ?thesis
      proof (cases "p < m")
        case True
        then have "e = left" "r = us" using 2(1) by (auto simp: Cons p_def Let_def)
        then show ?thesis using True parsed_lower [OF 2(6) 2(4,2,3)] by (simp add: next_prec_def Cons p_def)
      next
        case False
        then obtain right r1 where s: "ibinary k tree_ops (p + 1) us' = Inr (right, r1)"
            "iloop k tree_ops m (IBin left (to_upper (tk_text t)) right) r1 = Inr (e, r)"
          using 2(1) by (auto simp: Cons p_def Let_def bind_res_Inr_iff dest: tree_combine)
        have "p \<le> 2" using precedence_cases(1) by (simp add: p_def)
        then have p: "p \<in> {1, 2, 3}" "p + 1 \<in> {1, 2, 3}" using False m by auto
        have pc: "p \<le> c" using 2(5) by (simp add: next_prec_def Cons p_def)
        from Suc(1) [OF s(1) p(2)] have r1: "parsed (p + 1) us' right r1" "next_prec r1 \<le> p" by auto
        from parsed_lower [OF 2(6) pc p(1) 2(3)] obtain vs where vs: "ts = vs @ us" "derives p vs left"
          by (auto simp: parsed_def)
        from r1(1) obtain ws where ws: "us' = ws @ r1" "derives (p + 1) ws right" by (auto simp: parsed_def)
        have "derives p (vs @ t # ws) (IBin left (to_upper (tk_text t)) right)"
          using derives_operation [OF vs(2) ws(2) p_def] p(1) by auto
        then have "parsed p ts (IBin left (to_upper (tk_text t)) right) r1"
          unfolding parsed_def by (intro exI [of _ "vs @ t # ws"]) (simp add: vs(1) Cons ws(1))
        from Suc(2) [OF s(2) 2(2) p(1) _ r1(2) this] False show ?thesis by simp
      qed
    qed
  next
    case (3 ts e r)
    show ?case
    proof (cases ts)
      case (Cons t us)
      consider (paren) "token_is t ''(''" | (plus) "\<not> token_is t ''(''" "token_is t ''+''"
        | (minus) "\<not> token_is t ''(''" "\<not> token_is t ''+''" "token_is t ''-''"
        | (operand) "\<not> token_is t ''(''" "\<not> token_is t ''+''" "\<not> token_is t ''-''" by blast
      then show ?thesis
      proof cases
        case paren
        with 3 obtain r' where s: "ibinary k tree_ops 1 us = Inr (e, r')" "takes r' '')''" "r = tl r'"
          by (auto simp: Cons bind_res_Inr_iff closing_iff)
        from Suc(1) [OF s(1)] obtain vs where "us = vs @ r'" "derives 1 vs e" by (auto simp: parsed_def)
        then show ?thesis using s(2,3) parentheses [of vs e t] paren
          by (auto simp: Cons takes_Cons parsed_def intro!: exI [of _ "t # vs @ [hd r']"])
      next
        case plus
        with 3 have "parsed 3 us e r" using Suc(3) by (simp add: Cons)
        then obtain ws where ws: "us = ws @ r" "derives 3 ws e" by (auto simp: parsed_def)
        show ?thesis unfolding parsed_def
          using positive [OF ws(2) plus(2)] by (intro exI [of _ "t # ws"]) (simp add: Cons ws(1))
      next
        case minus
        with 3 obtain a where s: "iatom k tree_ops us = Inr (a, r)" "e = IBin (ILit 0) ''-'' a"
          by (auto simp: Cons bind_res_Inr_iff tree_simps dest: tree_combine)
        from Suc(3) [OF s(1)] obtain ws where ws: "us = ws @ r" "derives 3 ws a" by (auto simp: parsed_def)
        show ?thesis unfolding parsed_def
          using negative [OF ws(2) minus(3)] by (intro exI [of _ "t # ws"]) (simp add: Cons ws(1) s(2))
      next
        case operand
        show ?thesis
        proof (cases "tk_kind t = TNumber")
          case True
          then have *: "iatom (Suc k) tree_ops ts =
              (case parse_big (tk_text t) of None \<Rightarrow> Inl NotDecimal | Some v \<Rightarrow> Inr (ILit v, us))"
            using operand by (simp add: Cons tree_simps split: option.split)
          then obtain v where "parse_big (tk_text t) = Some v" "e = ILit v" "r = us"
            using 3 by (cases "parse_big (tk_text t)") auto
          then show ?thesis using number [OF True] by (auto simp: Cons parsed_def intro!: exI [of _ "[t]"])
        next
          case False
          then have kind: "tk_kind t = TIdent \<or> tk_kind t = TQuoted" using 3 operand by (simp add: Cons split: if_splits)
          show ?thesis
          proof (cases "takes us ''(''")
            case True
            with 3 operand False kind have fn: "tk_kind t = TIdent" "to_upper (tk_text t) \<in> set route_functions"
              by (auto simp: Cons split: if_splits)
            with 3 operand False True obtain a r1 r2 where s: "ibinary k tree_ops 1 (tl us) = Inr (a, r1)"
                "iarguments k tree_ops (to_upper (tk_text t)) (a, r1) = Inr (e, r2)" "takes r2 '')''" "r = tl r2"
              by (auto simp: Cons bind_res_Inr_iff closing_iff)
            obtain o' us' where o': "us = o' # us'" "token_is o' ''(''" using True by (auto simp: takes_Cons)
            obtain t' where t': "r2 = t' # r" "token_is t' '')''" using s(3,4) by (auto simp: takes_Cons)
            from Suc(1) [OF s(1)] obtain vs where vs: "us' = vs @ r1" "derives 1 vs a" by (auto simp: parsed_def o')
            have c: "called (to_upper (tk_text t)) a r1 e (t' # r)" using Suc(4) [OF s(2)] t' by simp
            then obtain ws where ws: "r1 = ws @ t' # r" by (auto simp: called_def)
            have "derives 3 (t # o' # vs @ ws @ [t']) e"
              using called_derives [OF vs(2) c [unfolded ws] fn o'(2) t'(2)] .
            then show ?thesis unfolding parsed_def by (intro exI [of _ "t # o' # vs @ ws @ [t']"]) (simp add: Cons o'(1) vs(1) ws)
          next
            case no_call: False
            with 3 operand False kind have "e = ICol (token_name t)" "r = us"
              by (auto simp: Cons bind_res_Inr_iff tree_simps)
            then show ?thesis using column [OF kind] by (auto simp: Cons parsed_def intro!: exI [of _ "[t]"])
          qed
        qed
      qed
    qed (use 3 in simp)
  next
    case (4 ts e r fn a)
    show ?case
    proof (cases "fn = ''MOD''")
      case True
      then obtain b where s: "takes ts '',''" "ibinary k tree_ops 1 (tl ts) = Inr (b, r)" "e = IBin a ''MOD'' b"
        using 4 by (auto simp: bind_res_Inr_iff split: if_splits dest: tree_combine)
      from Suc(1) [OF s(2)] obtain us where "tl ts = us @ r" "derives 1 us b" by (auto simp: parsed_def)
      then show ?thesis using s(1,3) True by (auto simp: called_def takes_Cons)
    qed (use 4 in \<open>auto simp: called_def tree_simps split: if_splits\<close>)
  }
qed simp_all

section \<open>Routes and trees\<close>

definition value_in :: "integer_route \<Rightarrow> int option \<Rightarrow> bool" where
  "value_in n u \<longleftrightarrow> (case u of None \<Rightarrow> ir_nullable n | Some x \<Rightarrow> within x n)"

definition agrees :: "ColumnInfo list \<Rightarrow> integer_route \<Rightarrow> iexpr \<Rightarrow> bool" where
  "agrees cols n e \<longleftrightarrow>
     (\<forall>\<rho>. row_admitted cols \<rho> \<longrightarrow> (\<exists>u. mysql_value \<rho> e = Inr u \<and> exact_value \<rho> e = Inr u \<and> value_in n u))"

definition denotes :: "options \<Rightarrow> ColumnInfo list \<Rightarrow> integer_route \<Rightarrow> iexpr \<Rightarrow> bool" where
  "denotes opt cols n e \<longleftrightarrow> ir_sql n = render opt e \<and> agrees cols n e"

lemma fits_iff: "integerRouteFits n = Inr () \<longleftrightarrow> in_i64 (ir_lo n) \<and> in_i64 (ir_hi n)"
  by (simp add: integerRouteFits_def)

lemma denotes_literal: "in_i64 v \<Longrightarrow> denotes opt cols (literal_route (op_target opt) v) (ILit v)"
  by (simp add: denotes_def agrees_def literal_route_def mysql_value_def exact_value_def checked_def value_in_def within_def)

lemma denotes_column:
  assumes "column_route opt cols name = Inr n"
  shows "denotes opt cols n (ICol name)"
proof -
  from assms obtain col bits where c: "column_of cols name = Some col" "integer_bits (to_lower (ci_DataType col)) = Some bits"
      "n = \<lparr>ir_sql = column_sql opt name, ir_lo = - (2 ^ (bits - 1)), ir_hi = 2 ^ (bits - 1) - 1, ir_nullable = ci_IsNullable col\<rparr>"
    by (auto simp: column_route_def Let_def split: option.splits if_splits)
  have col: "col \<in> set cols" "ci_Name col = name"
    using c(1) by (auto simp: column_of_def find_Some_iff)
  have "value_in n (\<rho> name)" if "row_admitted cols \<rho>" for \<rho>
  proof -
    have "admits col (\<rho> name)" using that col by (auto simp: row_admitted_def list_all_iff)
    then show ?thesis by (auto simp: admits_def value_in_def within_def c(2,3) split: option.splits)
  qed
  then show ?thesis by (simp add: denotes_def agrees_def mysql_value_def exact_value_def c(3))
qed

lemma denotes_abs:
  assumes "denotes opt cols a e" "abs_route (op_target opt) a = Inr n"
  shows "denotes opt cols n (IAbs e)"
proof -
  have n: "ir_sql n = function_sql (op_target opt) ''abs'' [ir_sql a]" "ir_nullable n = ir_nullable a"
      "ir_lo n = (if ir_lo a \<le> 0 \<and> 0 \<le> ir_hi a then 0 else min \<bar>ir_lo a\<bar> \<bar>ir_hi a\<bar>)" "ir_hi n = max \<bar>ir_lo a\<bar> \<bar>ir_hi a\<bar>"
      and fits: "in_i64 (ir_lo n)" "in_i64 (ir_hi n)"
    using assms(2) by (auto simp: abs_route_def Let_def bind_res_Inr_iff integerRouteFits_def split: if_splits)
  have one: "within \<bar>x\<bar> n \<and> in_i64 \<bar>x\<bar>" if "within x a" for x
  proof -
    have "within \<bar>x\<bar> n" using that n(3,4) by (auto simp: within_def min_def max_def abs_if split: if_splits)
    then show ?thesis using fits by (auto simp: within_def in_i64_def)
  qed
  show ?thesis
    unfolding denotes_def agrees_def
  proof (intro conjI allI impI)
    show "ir_sql n = render opt (IAbs e)" using assms(1) n(1) by (simp add: denotes_def)
    fix \<rho> assume "row_admitted cols \<rho>"
    then obtain u where "mysql_value \<rho> e = Inr u" "exact_value \<rho> e = Inr u" "value_in a u"
      using assms(1) by (auto simp: denotes_def agrees_def)
    then show "\<exists>u. mysql_value \<rho> (IAbs e) = Inr u \<and> exact_value \<rho> (IAbs e) = Inr u \<and> value_in n u"
      using one n(2) by (cases u) (auto simp: mysql_value_def exact_value_def value_in_def checked_def)
  qed
qed

lemma denotes_combine:
  assumes "denotes opt cols a e" "denotes opt cols b f" "combine_route (op_target opt) a oper b = Inr n"
  shows "denotes opt cols n (IBin e oper f)"
proof -
  from assms(3) obtain lo hi where ci: "combine_interval a oper b = Inr (lo, hi)" and fits: "in_i64 lo" "in_i64 hi"
      and n: "n = \<lparr>ir_sql = combine_sql (op_target opt) (ir_sql a) oper (ir_sql b), ir_lo = lo, ir_hi = hi,
                ir_nullable = ir_nullable a \<or> ir_nullable b\<rparr>"
    by (auto simp: combine_route_def Let_def bind_res_Inr_iff integerRouteFits_def split: if_splits)
  show ?thesis
    unfolding denotes_def agrees_def
  proof (intro conjI allI impI)
    show "ir_sql n = render opt (IBin e oper f)" using assms(1,2) n by (simp add: denotes_def)
    fix \<rho> assume row: "row_admitted cols \<rho>"
    obtain u where u: "mysql_value \<rho> e = Inr u" "exact_value \<rho> e = Inr u" "value_in a u"
      using assms(1) row by (auto simp: denotes_def agrees_def)
    obtain v where v: "mysql_value \<rho> f = Inr v" "exact_value \<rho> f = Inr v" "value_in b v"
      using assms(2) row by (auto simp: denotes_def agrees_def)
    show "\<exists>w. mysql_value \<rho> (IBin e oper f) = Inr w \<and> exact_value \<rho> (IBin e oper f) = Inr w \<and> value_in n w"
    proof (cases "u = None \<or> v = None")
      case True
      then show ?thesis using u v
        by (auto simp: mysql_value_def exact_value_def on_values_def value_in_def n split: option.splits)
    next
      case False
      then obtain x y where xy: "u = Some x" "v = Some y" by auto
      obtain w where "mysql_op oper x y = Inr (Some w)" "exact_op oper x y = Inr (Some w)" "lo \<le> w" "w \<le> hi"
        using combine_interval_sound [OF ci fits, of x y] u(3) v(3) by (auto simp: value_in_def xy)
      then show ?thesis using u v
        by (simp add: mysql_value_def exact_value_def on_values_def value_in_def n xy within_def)
    qed
  qed
qed

lemma combine_route_names:
  "combine_route target a oper b = Inr n \<Longrightarrow> oper \<in> set operator_names"
  by (auto simp: combine_route_def combine_interval_def operator_names_def bind_res_Inr_iff split: if_splits)

interpretation routes: node_simulation "route_ops opt cols" tree_ops "denotes opt cols" for opt cols
proof
  fix a b a' b' oper n
  assume "denotes opt cols a b" "denotes opt cols a' b'" "no_combine (route_ops opt cols) a oper a' = Inr n"
  then have "combine_route (op_target opt) a oper a' = Inr n" by (simp add: route_ops_def)
  then have "oper \<in> set operator_names" "denotes opt cols n (IBin b oper b')"
    using combine_route_names denotes_combine [OF \<open>denotes opt cols a b\<close> \<open>denotes opt cols a' b'\<close>] by blast+
  then show "\<exists>m. no_combine tree_ops b oper b' = Inr m \<and> denotes opt cols n m"
    by (simp add: tree_ops_def)
qed (auto simp: route_ops_def tree_simps fits_iff literal_route_def in_i64_def i64_min_def i64_max_def denotes_literal [unfolded literal_route_def]
    denotes_column denotes_abs)

section \<open>Properties\<close>

lemma route_ops_fuel_free: "fuel_free (route_ops opt cols)"
  by (auto simp: fuel_free_def route_ops_def integerRouteFits_def column_route_def abs_route_def combine_route_def
      combine_interval_def Let_def bind_res_def split: option.splits if_splits sum.splits)

text \<open>C39: The parser of integer expressions always ends with an answer: the fuel it is given, three calls per token,
  is never used up.\<close>

theorem integerExpression_ends: "integerExpression uni opt pf cols raw \<noteq> Inl OutOfFuel"
proof -
  have "ibinary (parse_fuel ts) (route_ops opt cols) 1 ts \<noteq> Inl OutOfFuel" for ts
    using parser_settled(1) [OF route_ops_fuel_free, of "parse_fuel ts" ts opt cols 1] by (auto simp: settled_def parse_fuel_def)
  then have "parse_all (route_ops opt cols) ts \<noteq> Inl OutOfFuel" for ts
    by (auto simp: parse_all_def bind_res_def split: sum.splits)
  then show ?thesis by (auto simp: integerExpression_def split: sum.splits)
qed

text \<open>C23: An accepted partition expression means the same on both sides. Its tokens are those of one expression of
  MySQL's grammar; the SQL sent to the target is that expression; and for every row that the columns admit,
  MySQL evaluates it without overflow or division by zero to the very value (or NULL) that the target's
  exact arithmetic gives, which lies in the computed interval, and is NULL only if the route says it may be.\<close>

theorem integerExpression_sound:
  assumes "integerExpression uni opt pf cols raw = Inr n"
  shows "\<exists>ts e. lex uni raw = Inr ts \<and> derives 1 ts e \<and> ir_sql n = render opt e \<and>
    (\<forall>\<rho>. row_admitted cols \<rho> \<longrightarrow> (\<exists>u. mysql_value \<rho> e = Inr u \<and> exact_value \<rho> e = Inr u \<and> value_in n u))"
proof -
  from assms obtain ts where ts: "lex uni raw = Inr ts" "ibinary (parse_fuel ts) (route_ops opt cols) 1 ts = Inr (n, [])"
    by (auto simp: integerExpression_def parse_all_def bind_res_Inr_iff split: if_splits sum.splits)
  obtain e where e: "ibinary (parse_fuel ts) tree_ops 1 ts = Inr (e, [])" "denotes opt cols n e"
    using routes.parser_simulation(1) [OF ts(2)] by blast
  have "derives 1 ts e" using parser_derives(1) [OF e(1)] by (simp add: parsed_def)
  then show ?thesis using ts(1) e(2) by (auto simp: denotes_def agrees_def)
qed

definition demo_column :: ColumnInfo where
  "demo_column = zero_column\<lparr>ci_Name := ''id'', ci_DataType := ''int'', ci_FormattedType := ''int(11)'', ci_IsNullable := True\<rparr>"

definition demo_options :: options where
  "demo_options = \<lparr>op_source = ''mysql'', op_target = ''postgres'', op_schema = ''public'', op_name = id, op_column_name = id\<rparr>"

definition demo_profile :: profile where
  "demo_profile = \<lparr>pf_product = ''postgres'', pf_version = ''15'', pf_mode = [], pf_features = {''postgres_declarative''}\<rparr>"

lemma demo_route:
  "integerExpression no_runes demo_options demo_profile [demo_column] ''ABS(id) MOD 7 - id DIV 3'' = Inr
     \<lparr>ir_sql = combine_sql ''postgres''
        (combine_sql ''postgres'' (function_sql ''postgres'' ''abs'' [column_sql demo_options ''id'']) ''MOD'' (literal_sql ''postgres'' 7)) ''-''
        (combine_sql ''postgres'' (column_sql demo_options ''id'') ''DIV'' (literal_sql ''postgres'' 3)),
      ir_lo = -715827882, ir_hi = 715827888, ir_nullable = True\<rparr>"
  by code_simp

theorem integerExpression_sound_witness:
  "\<exists>ts e. lex no_runes ''ABS(id) MOD 7 - id DIV 3'' = Inr ts \<and> derives 1 ts e \<and>
    (\<exists>u. mysql_value (\<lambda>_. Some (-10)) e = Inr u \<and> exact_value (\<lambda>_. Some (-10)) e = Inr u)"
proof -
  have "row_admitted [demo_column] (\<lambda>_. Some (-10))" by code_simp
  with integerExpression_sound [OF demo_route] show ?thesis by blast
qed

end
