(* ===== verification/PartitionRewrite.thy ===== *)
theory PartitionRewrite
  imports PartitionExprSound "HOL-Library.Word"
begin

text \<open>
  Rewrites of a topology that keep every row in its partition: SQL Server's RANGE LEFT over one integer column
  to half-open ranges (\<^verbatim>\<open>partition/sqlserver_range.go\<close>), and MySQL's HASH and LINEAR HASH to lists of
  remainders (\<^verbatim>\<open>partition/mysql_hash.go\<close>). A clone of a topology is the topology itself.
\<close>

unbundle bit_operations_syntax

section \<open>RANGE LEFT\<close>

datatype rewrite_error =
    NotSingleInteger
  | KeyMissing
  | NoIntegerDomain string
  | MixedBounds
  | NotExactBound
  | BoundOutside
  | BoundAtMaximum
  | HashNotSupported
  | HashExpression expr_error
  | HashKeyType string
  | HashUnsigned string
  | NoListTarget
  | NoPartitions
  | TooManyPartitions
  | HashCatalog

definition needs_conversion :: "partition_spec \<Rightarrow> bool" where
  "needs_conversion src \<longleftrightarrow> list_ex (\<lambda>p. \<not> pi_lower_inclusive (part_of p) \<or> pi_upper_inclusive (part_of p)) (parts_of src)"

definition sqlServerIntegerDomain :: "string \<Rightarrow> (int \<times> int) option" where
  "sqlServerIntegerDomain dt =
     map_of [(''tinyint'', (0, 255)), (''smallint'', (-32768, 32767)), (''int'', (-2147483648, 2147483647)),
             (''bigint'', (-9223372036854775808, 9223372036854775807))] (to_lower dt)"

definition number_value :: "int \<Rightarrow> partition_value" where
  "number_value n = \<lparr>pv_kind = ''number'', pv_text = itoa n\<rparr>"

definition sqlServerIntegerSuccessor ::
  "(string \<Rightarrow> string option) \<Rightarrow> partition_value \<Rightarrow> string \<Rightarrow> int \<Rightarrow> int \<Rightarrow> rewrite_error + partition_value" where
  "sqlServerIntegerSuccessor dec v sentinel lo hi =
     (if equal_fold (pv_kind v) sentinel then Inr \<lparr>pv_kind = sentinel, pv_text = []\<rparr>
      else
        (case canonicalValue dec v of
           Inl _ \<Rightarrow> Inl NotExactBound
         | Inr w \<Rightarrow>
             if pv_kind w \<noteq> ''number'' then Inl NotExactBound
             else
               (case parse_big (pv_text w) of
                  None \<Rightarrow> Inl BoundOutside
                | Some n \<Rightarrow>
                    if n < lo \<or> hi < n then Inl BoundOutside
                    else if n = hi then Inl BoundAtMaximum
                    else Inr (number_value (n + 1)))))"

definition half_open ::
  "(string \<Rightarrow> string option) \<Rightarrow> int \<Rightarrow> int \<Rightarrow> partition \<Rightarrow> rewrite_error + partition" where
  "half_open dec lo hi part =
     (let p = part_of part in
      if pi_default p \<or> sub_of part \<noteq> None \<or> pi_lower_inclusive p \<or> \<not> pi_upper_inclusive p \<or>
         length (pi_lower p) \<noteq> 1 \<or> length (pi_upper p) \<noteq> 1
      then Inl MixedBounds
      else
        bind_res (sqlServerIntegerSuccessor dec (hd (pi_lower p)) ''minvalue'' lo hi) (\<lambda>l.
        bind_res (sqlServerIntegerSuccessor dec (hd (pi_upper p)) ''maxvalue'' lo hi) (\<lambda>u.
        Inr (Part (p\<lparr>pi_lower := [l], pi_upper := [u], pi_lower_inclusive := True, pi_upper_inclusive := False\<rparr>) (sub_of part)))))"

definition sqlServerRangeLeft ::
  "(string \<Rightarrow> string option) \<Rightarrow> ColumnInfo list \<Rightarrow> partition_spec \<Rightarrow> rewrite_error + partition_spec option" where
  "sqlServerRangeLeft dec cols src =
     (if \<not> needs_conversion src then Inr None
      else
        (case si_keys (spec_of src) of
           [key] \<Rightarrow>
             if pk_column key = [] then Inl NotSingleInteger
             else
               (case column_of cols (pk_column key) of
                  None \<Rightarrow> Inl KeyMissing
                | Some col \<Rightarrow>
                    (case sqlServerIntegerDomain (ci_DataType col) of
                       None \<Rightarrow> Inl (NoIntegerDomain (ci_DataType col))
                     | Some (lo, hi) \<Rightarrow>
                         if pk_data_type key \<noteq> [] \<and> \<not> equal_fold (pk_data_type key) (ci_DataType col)
                         then Inl (NoIntegerDomain (ci_DataType col))
                         else bind_res (map_res (half_open dec lo hi) (parts_of src)) (\<lambda>ps. Inr (Some (Spec (spec_of src) ps)))))
         | _ \<Rightarrow> Inl NotSingleInteger))"

section \<open>HASH\<close>

text \<open>The loop \<open>for modulus < n { modulus <<= 1 }\<close>.\<close>

function double_to :: "nat \<Rightarrow> nat \<Rightarrow> nat" where
  "double_to n m = (if 0 < m \<and> m < n then double_to n (2 * m) else m)"
  by auto
termination by (relation "measure (\<lambda>(n, m). n - m)") auto

declare double_to.simps [simp del]

text \<open>The bucket of a residue: the low bits, one bit less when that is not a partition.\<close>

definition linear_bucket :: "nat \<Rightarrow> nat \<Rightarrow> int \<Rightarrow> int" where
  "linear_bucket n m r =
     (let bucket = r AND (int m - 1) in if int n \<le> bucket then r AND (int m div 2 - 1) else bucket)"

definition add_value :: "(int \<Rightarrow> int) \<Rightarrow> partition list \<Rightarrow> int \<Rightarrow> partition list" where
  "add_value bucket ps r =
     (let b = nat (bucket r); p = ps ! b in
      ps[b := Part ((part_of p)\<lparr>pi_values := pi_values (part_of p) @ [[number_value r]]\<rparr>) (sub_of p)])"

definition clear_partition :: "partition_value list list \<Rightarrow> partition \<Rightarrow> partition" where
  "clear_partition values p =
     Part ((part_of p)\<lparr>pi_modulus := 0, pi_remainder := 0, pi_lower := [], pi_upper := [],
       pi_lower_inclusive := False, pi_upper_inclusive := False, pi_values := values\<rparr>) (sub_of p)"

fun hash_partitions :: "bool \<Rightarrow> nat \<Rightarrow> nat \<Rightarrow> partition list \<Rightarrow> rewrite_error + partition list" where
  "hash_partitions linear n i [] = Inr []"
| "hash_partitions linear n i (p # ps) =
     (if pi_modulus (part_of p) \<noteq> int n \<or> pi_remainder (part_of p) \<noteq> int i \<or> pi_default (part_of p) then Inl HashCatalog
      else bind_res (hash_partitions linear n (Suc i) ps) (\<lambda>qs.
             Inr (clear_partition (if linear then [] else [[number_value (int i)]]) p # qs)))"

definition hash_types :: "string list" where
  "hash_types = [''tinyint'', ''smallint'', ''mediumint'', ''int'', ''integer'', ''bigint'']"

definition hash_key_sql ::
  "(string \<Rightarrow> rune_info) \<Rightarrow> options \<Rightarrow> profile \<Rightarrow> ColumnInfo list \<Rightarrow> partition_key \<Rightarrow> rewrite_error + string" where
  "hash_key_sql uni opt pf cols key =
     (if pk_column key = [] then
        (case integerExpression uni opt pf cols (pk_expression key) of Inl e \<Rightarrow> Inl (HashExpression e) | Inr n \<Rightarrow> Inr (ir_sql n))
      else
        (case column_of cols (pk_column key) of
           None \<Rightarrow> Inl KeyMissing
         | Some col \<Rightarrow>
             if to_lower (ci_DataType col) \<notin> set hash_types then Inl (HashKeyType (ci_Name col))
             else if str_contains (to_lower (ci_FormattedType col @ '' '' @ pk_data_type key)) ''unsigned'' then Inl (HashUnsigned (ci_Name col))
             else Inr (''CAST('' @ sql_quote (op_target opt) (op_column_name opt (ci_Name col)) @ '' AS numeric)'')))"

definition numeric_sql :: "string \<Rightarrow> string" where
  "numeric_sql n = ''CAST('' @ [CHR 0x27] @ n @ [CHR 0x27] @ '' AS numeric)''"

text \<open>
  The SQL of the list's key as a tree, one constructor per form of text that the code concatenates; a leaf is the SQL of
  the source's key.
\<close>

datatype hash_sql = KeySql string | NumberSql string | CoalesceSql hash_sql hash_sql | ModSql hash_sql hash_sql | AbsSql hash_sql

primrec hash_text :: "hash_sql \<Rightarrow> string" where
  "hash_text (KeySql s) = s"
| "hash_text (NumberSql n) = numeric_sql n"
| "hash_text (CoalesceSql a b) = ''COALESCE('' @ hash_text a @ '','' @ hash_text b @ '')''"
| "hash_text (ModSql a b) = ''pg_catalog.mod('' @ hash_text a @ '','' @ hash_text b @ '')''"
| "hash_text (AbsSql a) = ''pg_catalog.abs('' @ hash_text a @ '')''"

definition hash_expression :: "bool \<Rightarrow> nat \<Rightarrow> string \<Rightarrow> hash_sql" where
  "hash_expression linear m key =
     (let expression = ModSql (CoalesceSql (KeySql key) (NumberSql ''-9223372036854775808'')) (NumberSql (itoa (int m)))
      in if linear then expression else AbsSql expression)"

record list_rewrite =
  lw_spec :: partition_spec
  lw_keys :: "partition_key list"
  lw_rule :: string

definition mysqlHashAsList ::
  "(string \<Rightarrow> rune_info) \<Rightarrow> options \<Rightarrow> profile \<Rightarrow> ColumnInfo list \<Rightarrow> partition_spec \<Rightarrow> rewrite_error + list_rewrite" where
  "mysqlHashAsList uni opt pf cols src =
     (let si = spec_of src;
          linear = (method_of (si_method si) = ''LINEAR HASH'' \<and> si_algorithm si = ''mysql-linear-hash'')
      in if (\<not> linear \<and> (method_of (si_method si) \<noteq> ''HASH'' \<or> si_algorithm si \<noteq> ''mysql-mod'')) \<or> length (si_keys si) \<noteq> 1
         then Inl HashNotSupported
         else
           bind_res (hash_key_sql uni opt pf cols (hd (si_keys si))) (\<lambda>key.
             let n = length (parts_of src); m = (if linear then double_to n 1 else n) in
             if ''expression_keys'' \<notin> pf_features pf \<or> ''native_list'' \<notin> pf_features pf then Inl NoListTarget
             else if n = 0 then Inl NoPartitions
             else if linear \<and> 8192 < n then Inl TooManyPartitions
             else
               bind_res (hash_partitions linear n 0 (parts_of src)) (\<lambda>ps.
                 let ps' = (if linear then foldl (add_value (linear_bucket n m)) ps [1 - int m..int m - 1] else ps);
                     expr = hash_text (hash_expression linear m key)
                 in Inr \<lparr>lw_spec = Spec (si\<lparr>si_method := ''LIST'', si_algorithm := []\<rparr>) ps',
                         lw_keys = [\<lparr>pk_column = [], pk_expression = expr, pk_data_type = ''numeric'', pk_collation = []\<rparr>],
                         lw_rule = if linear then ''mysql-linear-mask-to-native-list'' else ''mysql-signed-modulo-to-native-list''\<rparr>)))"

section \<open>Which rows a partition holds\<close>

definition bound_int :: "(string \<Rightarrow> string option) \<Rightarrow> partition_value \<Rightarrow> int option" where
  "bound_int dec v =
     (case canonicalValue dec v of
        Inl _ \<Rightarrow> None
      | Inr w \<Rightarrow> if pv_kind w = ''number'' then parse_big (pv_text w) else None)"

definition above_lower :: "(string \<Rightarrow> string option) \<Rightarrow> partition_info \<Rightarrow> int \<Rightarrow> bool" where
  "above_lower dec p x \<longleftrightarrow>
     (let v = hd (pi_lower p) in
      equal_fold (pv_kind v) ''minvalue'' \<or>
      (case bound_int dec v of None \<Rightarrow> False | Some a \<Rightarrow> if pi_lower_inclusive p then a \<le> x else a < x))"

definition below_upper :: "(string \<Rightarrow> string option) \<Rightarrow> partition_info \<Rightarrow> int \<Rightarrow> bool" where
  "below_upper dec p x \<longleftrightarrow>
     (let v = hd (pi_upper p) in
      equal_fold (pv_kind v) ''maxvalue'' \<or>
      (case bound_int dec v of None \<Rightarrow> False | Some b \<Rightarrow> if pi_upper_inclusive p then x \<le> b else x < b))"

definition holds_in_range :: "(string \<Rightarrow> string option) \<Rightarrow> partition \<Rightarrow> int \<Rightarrow> bool" where
  "holds_in_range dec p x \<longleftrightarrow> above_lower dec (part_of p) x \<and> below_upper dec (part_of p) x"

definition holds_in_list :: "partition \<Rightarrow> int \<Rightarrow> bool" where
  "holds_in_list p v \<longleftrightarrow> [number_value v] \<in> set (pi_values (part_of p))"

text \<open>MySQL's own routing: the magnitude of the remainder; the masks of LINEAR HASH on the 64-bit value. NULL
  is the smallest integer.\<close>

definition hash_value :: "int option \<Rightarrow> int" where
  "hash_value u = (case u of None \<Rightarrow> i64_min | Some x \<Rightarrow> x)"

definition mysql_bucket :: "nat \<Rightarrow> int \<Rightarrow> nat" where
  "mysql_bucket n x = nat \<bar>rem_t x (int n)\<bar>"

definition mysql_linear_bucket :: "nat \<Rightarrow> int \<Rightarrow> nat" where
  "mysql_linear_bucket n x =
     (let v = double_to n 1; h = (of_int x :: 64 word); part = unat (h AND (of_nat v - 1)) in
      if n \<le> part then unat (h AND (of_nat (v div 2) - 1)) else part)"

text \<open>
  What PostgreSQL computes for the SQL of the list's key, from the values \<open>\<rho>\<close> of the SQL of the source's key: exact numeric
  arithmetic, where \<open>mod\<close> has the sign of its first argument, fails for zero, and NULL gives NULL except in COALESCE.
\<close>

primrec hash_result :: "(string \<Rightarrow> int option) \<Rightarrow> hash_sql \<Rightarrow> unit + int option" where
  "hash_result \<rho> (KeySql s) = Inr (\<rho> s)"
| "hash_result \<rho> (NumberSql n) = (case parse_big n of None \<Rightarrow> Inl () | Some x \<Rightarrow> Inr (Some x))"
| "hash_result \<rho> (CoalesceSql a b) =
     bind_res (hash_result \<rho> a) (\<lambda>u. case u of None \<Rightarrow> hash_result \<rho> b | Some x \<Rightarrow> Inr (Some x))"
| "hash_result \<rho> (ModSql a b) =
     bind_res (hash_result \<rho> a) (\<lambda>u. bind_res (hash_result \<rho> b) (\<lambda>v.
       case (u, v) of (Some x, Some y) \<Rightarrow> if y = 0 then Inl () else Inr (Some (rem_t x y)) | _ \<Rightarrow> Inr None))"
| "hash_result \<rho> (AbsSql a) = bind_res (hash_result \<rho> a) (\<lambda>u. Inr (map_option abs u))"

lemma hash_expression_result:
  "0 < m \<Longrightarrow> hash_result \<rho> (hash_expression linear m key) =
     Inr (Some (if linear then rem_t (hash_value (\<rho> key)) (int m) else \<bar>rem_t (hash_value (\<rho> key)) (int m)\<bar>))"
proof -
  have "parse_big ''-9223372036854775808'' = Some i64_min"
    by (simp add: parse_big_def parse_nat_def is_digit_def digit_val_def i64_min_def)
  then show "0 < m \<Longrightarrow> ?thesis" by (cases "\<rho> key") (simp_all add: hash_expression_def hash_value_def Let_def)
qed

section \<open>Facts about ranges\<close>

lemma equal_fold_refl: "equal_fold s s"
  by (simp add: equal_fold_def)

lemma bound_int_number:
  assumes "dec (itoa n) = Some (itoa n)"
  shows "bound_int dec (number_value n) = Some n" "\<not> equal_fold (pv_kind (number_value n)) ''minvalue''"
    "\<not> equal_fold (pv_kind (number_value n)) ''maxvalue''"
proof -
  show "bound_int dec (number_value n) = Some n"
    using assms by (simp add: bound_int_def number_value_def canonicalValue_def kind_names)
  show "\<not> equal_fold (pv_kind (number_value n)) ''minvalue''" "\<not> equal_fold (pv_kind (number_value n)) ''maxvalue''"
    by (simp_all add: number_value_def equal_fold_def) (code_simp+)
qed

lemma successor_bound:
  assumes "sqlServerIntegerSuccessor dec v sentinel lo hi = Inr w" "\<And>n. dec (itoa n) = Some (itoa n)"
    and "sentinel = ''minvalue'' \<or> sentinel = ''maxvalue''"
  shows "(equal_fold (pv_kind v) sentinel \<and> equal_fold (pv_kind w) sentinel) \<or>
    (\<not> equal_fold (pv_kind v) sentinel \<and> \<not> equal_fold (pv_kind w) sentinel \<and>
      (\<exists>n. bound_int dec v = Some n \<and> bound_int dec w = Some (n + 1)))"
proof (cases "equal_fold (pv_kind v) sentinel")
  case True
  then show ?thesis using assms(1) by (auto simp: sqlServerIntegerSuccessor_def equal_fold_refl)
next
  case False
  with assms(1) obtain w' n where "canonicalValue dec v = Inr w'" "pv_kind w' = ''number''" "parse_big (pv_text w') = Some n"
      "w = number_value (n + 1)"
    by (auto simp: sqlServerIntegerSuccessor_def split: sum.splits if_splits option.splits)
  then show ?thesis using False bound_int_number [of dec "n + 1"] assms(2) [of "n + 1"] assms(3) by (auto simp: bound_int_def)
qed

lemma half_open_same:
  assumes "half_open dec lo hi p = Inr q" "\<And>n. dec (itoa n) = Some (itoa n)"
  shows "holds_in_range dec p x \<longleftrightarrow> holds_in_range dec q x" "sub_of q = sub_of p" "pi_name (part_of q) = pi_name (part_of p)"
    "pi_lower_inclusive (part_of q)" "\<not> pi_upper_inclusive (part_of q)"
proof -
  from assms(1) obtain l u where lu: "sqlServerIntegerSuccessor dec (hd (pi_lower (part_of p))) ''minvalue'' lo hi = Inr l"
      "sqlServerIntegerSuccessor dec (hd (pi_upper (part_of p))) ''maxvalue'' lo hi = Inr u"
      "\<not> pi_lower_inclusive (part_of p)" "pi_upper_inclusive (part_of p)"
      and q: "q = Part ((part_of p)\<lparr>pi_lower := [l], pi_upper := [u], pi_lower_inclusive := True, pi_upper_inclusive := False\<rparr>) (sub_of p)"
    by (auto simp: half_open_def Let_def bind_res_Inr_iff split: if_splits)
  have "above_lower dec (part_of p) x \<longleftrightarrow> above_lower dec (part_of q) x"
    using successor_bound [OF lu(1) assms(2)] lu(3) by (auto simp: above_lower_def q)
  moreover have "below_upper dec (part_of p) x \<longleftrightarrow> below_upper dec (part_of q) x"
    using successor_bound [OF lu(2) assms(2)] lu(4) by (auto simp: below_upper_def q)
  ultimately show "holds_in_range dec p x \<longleftrightarrow> holds_in_range dec q x" by (simp add: holds_in_range_def)
qed (use assms(1) in \<open>auto simp: half_open_def Let_def bind_res_Inr_iff split: if_splits\<close>)

section \<open>Facts about buckets\<close>

lemma double_to_power:
  assumes "m = 2 ^ j" "j = 0 \<or> 2 ^ (j - 1) < n"
  shows "\<exists>k. double_to n m = 2 ^ k \<and> n \<le> 2 ^ k \<and> (k = 0 \<or> 2 ^ (k - 1) < n)"
  using assms
proof (induction n m arbitrary: j rule: double_to.induct)
  case (1 n m)
  show ?case
  proof (cases "m < n")
    case True
    then have "double_to n m = double_to n (2 * m)" using 1(2) by (subst double_to.simps) simp
    with 1(1) [of "Suc j"] True 1(2) show ?thesis by simp
  next
    case False
    then have "double_to n m = m" by (subst double_to.simps) simp
    with False 1(2,3) show ?thesis by auto
  qed
qed

lemma rem_t_cong: "rem_t x m mod m = x mod m"
  unfolding rem_t_def by (metis mod_mult_self2_is_0 mod_diff_right_eq diff_0_right mult.commute mod_mult_self1_is_0)

lemma int_mask: "r AND (2 ^ j - 1) = (r :: int) mod 2 ^ j"
  by (metis mask_eq_exp_minus_1 take_bit_eq_mask take_bit_eq_mod)

lemma linear_bucket_power:
  assumes "k = 0 \<or> 2 ^ (k - 1) < n" "0 < n"
  shows "linear_bucket n (2 ^ k) r = (if int n \<le> r mod 2 ^ k then r mod 2 ^ (k - 1) else r mod 2 ^ k)"
proof (cases k)
  case (Suc j)
  then have "(2 ^ k :: int) div 2 - 1 = 2 ^ (k - 1) - 1" by simp
  moreover have "int (2 ^ k) = 2 ^ k" by simp
  ultimately show ?thesis unfolding linear_bucket_def Let_def by (simp only: int_mask)
next
  case 0
  then show ?thesis using int_mask [of r 0] assms(2) by (simp add: linear_bucket_def)
qed

lemma linear_bucket_range:
  assumes "k = 0 \<or> 2 ^ (k - 1) < n" "0 < n"
  shows "0 \<le> linear_bucket n (2 ^ k) r" "linear_bucket n (2 ^ k) r < int n"
proof -
  have "r mod 2 ^ (k - 1) < int n" if "int n \<le> r mod 2 ^ k"
  proof (cases k)
    case (Suc j)
    have "r mod 2 ^ (k - 1) < (2 :: int) ^ (k - 1)" by simp
    also have "\<dots> < int n" using assms(1) Suc by (metis nat.simps(3) of_nat_less_iff of_nat_numeral of_nat_power)
    finally show ?thesis .
  qed (use that assms(2) in simp)
  then show "linear_bucket n (2 ^ k) r < int n" "0 \<le> linear_bucket n (2 ^ k) r"
    by (auto simp: linear_bucket_power [OF assms])
qed

lemma linear_bucket_cong:
  assumes "k = 0 \<or> 2 ^ (k - 1) < n" "0 < n" "r mod 2 ^ k = s mod 2 ^ k"
  shows "linear_bucket n (2 ^ k) r = linear_bucket n (2 ^ k) s"
proof -
  have "r mod 2 ^ (k - 1) = s mod 2 ^ (k - 1)"
  proof -
    have "(2 :: int) ^ (k - 1) dvd 2 ^ k" by (simp add: le_imp_power_dvd)
    then show ?thesis using assms(3) by (metis mod_mod_cancel)
  qed
  then show ?thesis using assms by (simp add: linear_bucket_power)
qed

lemma unat_mask:
  assumes "k \<le> 64"
  shows "int (unat ((of_int x :: 64 word) AND (of_nat (2 ^ k) - 1))) = x mod 2 ^ k"
proof -
  have "(of_int x :: 64 word) AND (of_nat (2 ^ k) - 1) = take_bit k (of_int x)"
    by (simp add: take_bit_eq_mask mask_eq_exp_minus_1)
  moreover have "uint (take_bit k (of_int x :: 64 word)) = take_bit k x"
    using assms by (simp add: unsigned_take_bit_eq unsigned_of_int take_bit_take_bit min_def)
  ultimately show ?thesis by (simp add: take_bit_eq_mod)
qed

lemma mysql_linear_power:
  assumes "double_to n 1 = 2 ^ k" "k \<le> 64" "k = 0 \<or> 2 ^ (k - 1) < n" "0 < n"
  shows "int (mysql_linear_bucket n x) = linear_bucket n (2 ^ k) x"
proof (cases k)
  case 0
  have "int (unat ((of_int x :: 64 word) AND (of_nat (2 ^ 0) - 1))) = 0" using unat_mask [of 0 x] by simp
  then show ?thesis using assms 0 by (simp add: mysql_linear_bucket_def linear_bucket_def)
next
  case (Suc j)
  then have "(2 :: nat) ^ k div 2 = 2 ^ (k - 1)" by simp
  moreover have "n \<le> unat ((of_int x :: 64 word) AND (of_nat (2 ^ k) - 1)) \<longleftrightarrow> int n \<le> x mod 2 ^ k"
    using unat_mask [OF assms(2), of x] by (metis of_nat_le_iff)
  moreover have "int (unat ((of_int x :: 64 word) AND (of_nat (2 ^ (k - 1)) - 1))) = x mod 2 ^ (k - 1)"
    using assms(2) by (intro unat_mask) simp
  ultimately show ?thesis
    using unat_mask [OF assms(2), of x]
    unfolding mysql_linear_bucket_def Let_def assms(1) linear_bucket_power [OF assms(3,4)] by simp
qed

lemma add_value_nth:
  assumes "0 \<le> bucket r" "bucket r < int (length ps)" "i < length ps"
  shows "pi_values (part_of (add_value bucket ps r ! i)) =
    pi_values (part_of (ps ! i)) @ (if bucket r = int i then [[number_value r]] else [])"
  using assms by (auto simp: add_value_def Let_def nth_list_update)

lemma add_values_nth:
  assumes "\<And>r. r \<in> set rs \<Longrightarrow> 0 \<le> bucket r \<and> bucket r < int (length ps)" "i < length ps"
  shows "length (foldl (add_value bucket) ps rs) = length ps \<and>
    pi_values (part_of (foldl (add_value bucket) ps rs ! i)) =
      pi_values (part_of (ps ! i)) @ map (\<lambda>r. [number_value r]) (filter (\<lambda>r. bucket r = int i) rs)"
  using assms(1)
proof (induction rs rule: rev_induct)
  case (snoc r rs)
  let ?qs = "foldl (add_value bucket) ps rs"
  have "length (add_value bucket ?qs r) = length ?qs" by (simp add: add_value_def Let_def)
  with snoc add_value_nth [of bucket r ?qs i] assms(2) show ?case by simp
qed simp

lemma hash_partitions_nth:
  assumes "hash_partitions linear n j ps = Inr qs"
  shows "length qs = length ps \<and> (\<forall>i<length ps. pi_values (part_of (qs ! i)) =
      (if linear then [] else [[number_value (int (i + j))]]) \<and> sub_of (qs ! i) = sub_of (ps ! i) \<and>
      pi_name (part_of (qs ! i)) = pi_name (part_of (ps ! i)))"
  using assms
proof (induction ps arbitrary: j qs)
  case (Cons p ps)
  from Cons.prems obtain rs where rs: "hash_partitions linear n (Suc j) ps = Inr rs"
      "qs = clear_partition (if linear then [] else [[number_value (int j)]]) p # rs"
    by (auto simp: bind_res_Inr_iff split: if_splits)
  from Cons.IH [OF rs(1)] show ?case
    by (auto simp: rs(2) clear_partition_def nth_Cons algebra_simps split: nat.split)
qed simp

lemma number_value_inj: "number_value a = number_value b \<longleftrightarrow> a = b"
  by (simp add: number_value_def itoa_inj)

lemma rem_t_range:
  assumes "0 < m"
  shows "1 - m \<le> rem_t x m \<and> rem_t x m \<le> m - 1"
  using rem_bounds(1) [of m x] assms by linarith

lemma mysqlHashAsList_cases:
  assumes "mysqlHashAsList uni opt pf cols src = Inr r"
    and "linear \<longleftrightarrow> method_of (si_method (spec_of src)) = ''LINEAR HASH'' \<and> si_algorithm (spec_of src) = ''mysql-linear-hash''"
    and "n = length (parts_of src)"
  obtains key qs where "hash_key_sql uni opt pf cols (hd (si_keys (spec_of src))) = Inr key"
    "0 < n" "linear \<longrightarrow> n \<le> 8192" "hash_partitions linear n 0 (parts_of src) = Inr qs"
    "parts_of (lw_spec r) = (if linear then foldl (add_value (linear_bucket n (double_to n 1))) qs [1 - int (double_to n 1)..int (double_to n 1) - 1] else qs)"
    "lw_keys r = [\<lparr>pk_column = [], pk_expression = hash_text (hash_expression linear (if linear then double_to n 1 else n) key),
       pk_data_type = ''numeric'', pk_collation = []\<rparr>]"
  using assms(1) unfolding mysqlHashAsList_def Let_def assms(2,3)
  by (fastforce simp: bind_res_Inr_iff split: if_splits)

section \<open>Properties\<close>

text \<open>C38: Turning RANGE LEFT into half-open ranges moves no row: each partition of the result keeps its name and
  holds exactly the integers the source partition held, and no bound needs a further rewrite. The decimal
  package is assumed to print an integer as its digits.\<close>

theorem sqlServerRangeLeft_same_rows:
  assumes "sqlServerRangeLeft dec cols src = Inr (Some normal)" and "\<And>n. dec (itoa n) = Some (itoa n)"
  shows "list_all2 (\<lambda>p q. (\<forall>x. holds_in_range dec p x \<longleftrightarrow> holds_in_range dec q x) \<and>
      pi_name (part_of q) = pi_name (part_of p) \<and> sub_of q = sub_of p) (parts_of src) (parts_of normal) \<and>
    \<not> needs_conversion normal"
proof -
  from assms(1) obtain lo hi where m: "map_res (half_open dec lo hi) (parts_of src) = Inr (parts_of normal)"
    by (auto simp: sqlServerRangeLeft_def bind_res_Inr_iff split: if_splits list.splits option.splits)
  then have all: "list_all2 (\<lambda>p q. half_open dec lo hi p = Inr q) (parts_of src) (parts_of normal)"
    by (simp add: map_res_Inr)
  have same: "(\<forall>x. holds_in_range dec p x \<longleftrightarrow> holds_in_range dec q x) \<and> pi_name (part_of q) = pi_name (part_of p) \<and>
      sub_of q = sub_of p" if "half_open dec lo hi p = Inr q" for p q
    using half_open_same [OF that assms(2)] by simp
  from all have "list_all2 (\<lambda>p q. (\<forall>x. holds_in_range dec p x \<longleftrightarrow> holds_in_range dec q x) \<and>
      pi_name (part_of q) = pi_name (part_of p) \<and> sub_of q = sub_of p) (parts_of src) (parts_of normal)"
    by (rule list_all2_mono) (rule same)
  moreover have "pi_lower_inclusive (part_of q) \<and> \<not> pi_upper_inclusive (part_of q)" if q: "q \<in> set (parts_of normal)" for q
  proof -
    obtain i where "i < length (parts_of normal)" "parts_of normal ! i = q" using q unfolding in_set_conv_nth by blast
    then have "half_open dec lo hi (parts_of src ! i) = Inr q" using all by (auto simp: list_all2_conv_all_nth)
    from half_open_same(4,5) [OF this assms(2)] show ?thesis ..
  qed
  ultimately show ?thesis by (auto simp: needs_conversion_def list_ex_iff)
qed

text \<open>C24: Replacing MySQL's HASH or LINEAR HASH by lists of remainders keeps every row in its bucket: the key of the result is
  the text of a tree over the SQL of the source's key, and for every value of the source's key, NULL included, PostgreSQL's value of that
  tree is listed by the partition of MySQL's bucket and by no other one, computed for LINEAR HASH with masks on
  64-bit words (NULL is MySQL's smallest integer).\<close>

theorem mysqlHashAsList_routes:
  assumes "mysqlHashAsList uni opt pf cols src = Inr r"
  shows "let linear = (method_of (si_method (spec_of src)) = ''LINEAR HASH'' \<and> si_algorithm (spec_of src) = ''mysql-linear-hash'');
      n = length (parts_of src) in
    length (parts_of (lw_spec r)) = n \<and>
    (\<exists>key e. hash_key_sql uni opt pf cols (hd (si_keys (spec_of src))) = Inr key \<and>
      lw_keys r = [\<lparr>pk_column = [], pk_expression = hash_text e, pk_data_type = ''numeric'', pk_collation = []\<rparr>] \<and>
      (\<forall>\<rho>. \<exists>v. hash_result \<rho> e = Inr (Some v) \<and>
        (\<forall>i<n. holds_in_list (parts_of (lw_spec r) ! i) v \<longleftrightarrow>
          i = (if linear then mysql_linear_bucket n (hash_value (\<rho> key)) else mysql_bucket n (hash_value (\<rho> key))))))"
proof -
  define linear where "linear \<longleftrightarrow> method_of (si_method (spec_of src)) = ''LINEAR HASH'' \<and> si_algorithm (spec_of src) = ''mysql-linear-hash''"
  define n where "n = length (parts_of src)"
  define m where "m = (if linear then double_to n 1 else n)"
  obtain key qs where key1: "hash_key_sql uni opt pf cols (hd (si_keys (spec_of src))) = Inr key"
      and q: "0 < n" "linear \<longrightarrow> n \<le> 8192" "hash_partitions linear n 0 (parts_of src) = Inr qs"
      "parts_of (lw_spec r) = (if linear then foldl (add_value (linear_bucket n (double_to n 1))) qs [1 - int (double_to n 1)..int (double_to n 1) - 1] else qs)"
      and key2: "lw_keys r = [\<lparr>pk_column = [], pk_expression = hash_text (hash_expression linear (if linear then double_to n 1 else n) key),
        pk_data_type = ''numeric'', pk_collation = []\<rparr>]"
    by (rule mysqlHashAsList_cases [OF assms linear_def n_def])
  note key = key1 key2 [folded m_def]
  note H = hash_partitions_nth [OF q(3), folded n_def]
  obtain k where k: "double_to n 1 = 2 ^ k" "n \<le> 2 ^ k" "k = 0 \<or> 2 ^ (k - 1) < n"
    using double_to_power [of 1 0 n] by auto
  have lists: "length (parts_of (lw_spec r)) = n \<and> (\<forall>i<n.
      holds_in_list (parts_of (lw_spec r) ! i) (if linear then rem_t x (int m) else \<bar>rem_t x (int m)\<bar>) \<longleftrightarrow>
        i = (if linear then mysql_linear_bucket n x else mysql_bucket n x))" for x
  proof (cases linear)
    case False
    have "holds_in_list (qs ! i) \<bar>rem_t x (int n)\<bar> \<longleftrightarrow> i = mysql_bucket n x" if "i < n" for i
      using H that False by (auto simp: holds_in_list_def number_value_inj mysql_bucket_def)
    then show ?thesis using False H q(4) by (simp add: m_def)
  next
    case True
    have "k \<le> 64"
    proof (rule ccontr)
      assume "\<not> k \<le> 64"
      then have "(2 :: nat) ^ 13 \<le> 2 ^ (k - 1)" by (intro power_increasing) simp_all
      then show False using k(3) q(2) True \<open>\<not> k \<le> 64\<close> by simp
    qed
    note range = linear_bucket_range [OF k(3) q(1)]
    have len: "length qs = n" using H by simp
    have vals: "length (parts_of (lw_spec r)) = n \<and> pi_values (part_of (parts_of (lw_spec r) ! i)) =
        map (\<lambda>v. [number_value v]) (filter (\<lambda>v. linear_bucket n (2 ^ k) v = int i) [1 - 2 ^ k..2 ^ k - 1])" if "i < n" for i
      using add_values_nth [of "[1 - 2 ^ k..2 ^ k - 1]" "linear_bucket n (2 ^ k)" qs i] range len that H True
      unfolding q(4) k(1) by simp
    have "holds_in_list (parts_of (lw_spec r) ! i) (rem_t x (2 ^ k)) \<longleftrightarrow> i = mysql_linear_bucket n x" if "i < n" for i
    proof -
      have "rem_t x (2 ^ k) mod 2 ^ k = x mod 2 ^ k" by (rule rem_t_cong)
      then have "linear_bucket n (2 ^ k) (rem_t x (2 ^ k)) = int (mysql_linear_bucket n x)"
        using linear_bucket_cong [OF k(3) q(1)] mysql_linear_power [OF k(1) \<open>k \<le> 64\<close> k(3) q(1), of x] by metis
      moreover have "rem_t x (2 ^ k) \<in> set [1 - 2 ^ k..2 ^ k - 1]" using rem_t_range [of "2 ^ k" x] by simp
      ultimately show ?thesis
        using vals [OF that] by (auto simp: holds_in_list_def number_value_inj)
    qed
    moreover have "length (parts_of (lw_spec r)) = n" using vals [OF q(1)] by simp
    moreover have "m = 2 ^ k" unfolding m_def using True k(1) by simp
    ultimately show ?thesis using True by simp
  qed
  have "0 < m" using q(1) k(1) by (simp add: m_def)
  then have "\<forall>\<rho>. \<exists>v. hash_result \<rho> (hash_expression linear m key) = Inr (Some v) \<and>
      (\<forall>i<n. holds_in_list (parts_of (lw_spec r) ! i) v \<longleftrightarrow>
        i = (if linear then mysql_linear_bucket n (hash_value (\<rho> key)) else mysql_bucket n (hash_value (\<rho> key))))"
    using lists by (simp add: hash_expression_result)
  then show ?thesis
    using lists key unfolding Let_def linear_def [symmetric] n_def [symmetric] by blast
qed

section \<open>Concrete topologies\<close>

definition plain_decimal :: "string \<Rightarrow> string option" where
  "plain_decimal t = map_option itoa (parse_big t)"

lemma plain_decimal_itoa: "plain_decimal (itoa n) = Some (itoa n)"
  by (simp add: plain_decimal_def)

definition zero_partition :: partition_info where
  "zero_partition = \<lparr>pi_schema = [], pi_name = [], pi_ordinal = 0, pi_lower = [], pi_upper = [], pi_values = [], pi_default = False,
     pi_lower_inclusive = False, pi_upper_inclusive = False, pi_modulus = 0, pi_remainder = 0, pi_is_interval = False\<rparr>"

definition zero_spec :: spec_info where
  "zero_spec = \<lparr>si_method = [], si_keys = [\<lparr>pk_column = ''id'', pk_expression = [], pk_data_type = [], pk_collation = []\<rparr>],
     si_automatic = [], si_interval = None, si_algorithm = [], si_row_movement = [], si_source_ddl = [], si_unsupported = []\<rparr>"

definition demo_left :: partition_spec where
  "demo_left = Spec (zero_spec\<lparr>si_method := ''RANGE''\<rparr>)
     [Part (zero_partition\<lparr>pi_name := ''1'', pi_lower := [\<lparr>pv_kind = ''minvalue'', pv_text = []\<rparr>], pi_upper := [number_value 10],
        pi_upper_inclusive := True\<rparr>) None,
      Part (zero_partition\<lparr>pi_name := ''2'', pi_lower := [number_value 10], pi_upper := [\<lparr>pv_kind = ''maxvalue'', pv_text = []\<rparr>],
        pi_upper_inclusive := True\<rparr>) None]"

lemma demo_left_rewritten:
  "sqlServerRangeLeft plain_decimal [demo_column] demo_left = Inr (Some (Spec (zero_spec\<lparr>si_method := ''RANGE''\<rparr>)
     [Part (zero_partition\<lparr>pi_name := ''1'', pi_lower := [\<lparr>pv_kind = ''minvalue'', pv_text = []\<rparr>], pi_upper := [number_value 11],
        pi_lower_inclusive := True\<rparr>) None,
      Part (zero_partition\<lparr>pi_name := ''2'', pi_lower := [number_value 11], pi_upper := [\<lparr>pv_kind = ''maxvalue'', pv_text = []\<rparr>],
        pi_lower_inclusive := True\<rparr>) None]))"
  by code_simp

theorem sqlServerRangeLeft_same_rows_witness:
  "\<exists>normal. sqlServerRangeLeft plain_decimal [demo_column] demo_left = Inr (Some normal) \<and>
    (holds_in_range plain_decimal (parts_of demo_left ! 1) 10 \<longleftrightarrow> holds_in_range plain_decimal (parts_of normal ! 1) 10) \<and>
    \<not> needs_conversion normal"
proof -
  have "length (parts_of demo_left) = 2" by (simp add: demo_left_def)
  with sqlServerRangeLeft_same_rows [OF demo_left_rewritten plain_decimal_itoa] demo_left_rewritten show ?thesis
    by (auto simp: list_all2_conv_all_nth)
qed

definition demo_linear :: partition_spec where
  "demo_linear = Spec (zero_spec\<lparr>si_method := ''linear hash'', si_algorithm := ''mysql-linear-hash''\<rparr>)
     (map (\<lambda>i. Part (zero_partition\<lparr>pi_name := itoa i, pi_modulus := 3, pi_remainder := i\<rparr>) None) [0, 1, 2])"

definition list_profile :: profile where
  "list_profile = demo_profile\<lparr>pf_features := set [''postgres_declarative'', ''expression_keys'', ''native_list'']\<rparr>"

theorem mysqlHashAsList_routes_witness:
  "\<exists>r e v. mysqlHashAsList no_runes demo_options list_profile [demo_column] demo_linear = Inr r \<and>
    map pk_expression (lw_keys r) = [hash_text e] \<and> hash_result (\<lambda>_. Some (-5)) e = Inr (Some v) \<and>
    holds_in_list (parts_of (lw_spec r) ! 1) v"
proof -
  have "is_ok (mysqlHashAsList no_runes demo_options list_profile [demo_column] demo_linear)" by code_simp
  then obtain r where r: "mysqlHashAsList no_runes demo_options list_profile [demo_column] demo_linear = Inr r"
    by (auto simp: is_ok_def split: sum.splits)
  have "length (parts_of demo_linear) = 3" "method_of (si_method (spec_of demo_linear)) = ''LINEAR HASH''"
    "si_algorithm (spec_of demo_linear) = ''mysql-linear-hash''" "double_to 3 1 = 2 ^ 2" "linear_bucket 3 (2 ^ 2) (-5) = 1"
    by code_simp+
  moreover from this(4,5) have "mysql_linear_bucket 3 (hash_value (Some (-5))) = 1"
    using mysql_linear_power [of 3 2 "-5"] by (simp add: hash_value_def)
  ultimately obtain key e where e: "lw_keys r = [\<lparr>pk_column = [], pk_expression = hash_text e, pk_data_type = ''numeric'', pk_collation = []\<rparr>]"
    and v: "\<And>\<rho>. \<exists>v. hash_result \<rho> e = Inr (Some v) \<and>
      (\<forall>i<3. holds_in_list (parts_of (lw_spec r) ! i) v \<longleftrightarrow> i = mysql_linear_bucket 3 (hash_value (\<rho> key)))"
    using mysqlHashAsList_routes [OF r] unfolding Let_def by auto
  obtain w where "hash_result (\<lambda>_. Some (-5)) e = Inr (Some w)" "holds_in_list (parts_of (lw_spec r) ! 1) w"
    using v [of "\<lambda>_. Some (-5)"] \<open>mysql_linear_bucket 3 (hash_value (Some (-5))) = 1\<close> by auto
  then show ?thesis using r e by auto
qed

end
