(* ===== verification/PartitionKey.thy ===== *)
theory PartitionKey
  imports PartitionRewrite
begin

text \<open>
  MySQL's KEY partitioning as lists over an expression of PostgreSQL (\<^verbatim>\<open>partition/mysql_key_pg.go\<close>, the type
  identities of \<^verbatim>\<open>partition/key_mysql.go\<close>). The SQL the code concatenates is the rendering of a tree \<open>pgx\<close>,
  one constructor per form of text; \<open>pg_value\<close> is what PostgreSQL computes for it. MySQL's byte hash is
  given on 64-bit words, as the comment of the source quotes it.
\<close>

unbundle bit_operations_syntax

section \<open>Expressions of the target\<close>

datatype pgx = Big int | Lit nat | Val string | Bin string pgx pgx | Weight pgx | Case pgb
  and pgb = When pgc pgx pgb | Else pgx
  and pgc = Cmp string pgx pgx | IsNull string

definition weights_hex :: string where
  "weights_hex = ''000102030405060708090a0b0c0d0e0f101112131415161718191a1b1c1d1e1f202122232425262728292a2b2c2d2e2f303132333435363738393a3b3c3d3e3f404142434445464748494a4b4c4d4e4f505152535455565758595a5b5c5d5e5f604142434445464748494a4b4c4d4e4f505152535455565758595a7b7c7d7e7f808182838485868788898a8b8c8d8e8f909192939495969798999a9b9c9d9e9fa0a1a2a3a4a5a6a7a8a9aaabacadaeafb0b1b2b3b4b5b6b7b8b9babbbcbdbebf414141415c5b5c434545454549494949444e4f4f4f4f5dd7d85555555959dedf414141415c5b5c434545454549494949444e4f4f4f4f5df7d85555555959deff''"

definition mysqlKeyPGInt :: "int \<Rightarrow> string" where
  "mysqlKeyPGInt n = ''CAST('' @ [CHR 0x27] @ itoa n @ [CHR 0x27] @ '' AS bigint)''"

definition mysqlKeyPGCall :: "string \<Rightarrow> string list \<Rightarrow> string" where
  "mysqlKeyPGCall name args = ''pg_catalog.'' @ name @ ''('' @ str_join '','' args @ '')''"

primrec pg_text :: "pgx \<Rightarrow> string" and pg_branches :: "pgb \<Rightarrow> string" and pg_test :: "pgc \<Rightarrow> string" where
  "pg_text (Big n) = mysqlKeyPGInt n"
| "pg_text (Lit n) = itoa (int n)"
| "pg_text (Val c) = ''CAST('' @ c @ '' AS bigint)''"
| "pg_text (Bin f a b) = mysqlKeyPGCall f [pg_text a, pg_text b]"
| "pg_text (Weight b) = ''CAST('' @ mysqlKeyPGCall ''get_byte''
     [mysqlKeyPGCall ''decode'' [[CHR 0x27] @ weights_hex @ [CHR 0x27], [CHR 0x27] @ ''hex'' @ [CHR 0x27]],
      ''CAST('' @ pg_text b @ '' AS integer)''] @ '' AS bigint)''"
| "pg_text (Case bs) = ''CASE '' @ pg_branches bs @ '' END''"
| "pg_branches (When c a bs) = ''WHEN '' @ pg_test c @ '' THEN '' @ pg_text a @ '' '' @ pg_branches bs"
| "pg_branches (Else a) = ''ELSE '' @ pg_text a"
| "pg_test (Cmp f a b) = mysqlKeyPGCall f [pg_text a, pg_text b]"
| "pg_test (IsNull c) = c @ '' IS NULL''"

section \<open>The hash expression\<close>

record pg_key =
  gk_column :: string
  gk_width :: nat
  gk_nullable :: bool
  gk_min :: int
  gk_max :: int

definition hash_step :: "pgx \<Rightarrow> pgx \<Rightarrow> pgx \<Rightarrow> pgx" where
  "hash_step h sequence weight =
     Bin ''int8and'' (Bin ''int8xor'' h (Bin ''int8pl'' (Bin ''int8mul'' (Bin ''int8pl'' (Bin ''int8and'' h (Big 63)) sequence) weight)
       (Bin ''int8shl'' h (Lit 8)))) (Big 4294967295)"

definition hash_null :: "pgx \<Rightarrow> pgx" where
  "hash_null h = Bin ''int8and'' (Bin ''int8xor'' h (Bin ''int8or'' (Bin ''int8shl'' h (Lit 1)) (Big 1))) (Big 4294967295)"

definition key_byte :: "bool \<Rightarrow> pg_key \<Rightarrow> nat \<Rightarrow> pgx" where
  "key_byte simple key i =
     (let b = Bin ''int8and'' (Bin ''int8shr'' (Val (gk_column key)) (Lit (8 * i))) (Big 255) in if simple then Weight b else b)"

definition byte_sequence :: "pgx \<Rightarrow> nat \<Rightarrow> pgx" where
  "byte_sequence sequence i = (if 0 < i then Bin ''int8pl'' sequence (Big (int (3 * i))) else sequence)"

text \<open>The hashes after the first bytes of a field.\<close>

fun prefix_hash :: "bool \<Rightarrow> pg_key \<Rightarrow> pgx \<Rightarrow> pgx \<Rightarrow> nat \<Rightarrow> pgx" where
  "prefix_hash simple key h sequence 0 = h"
| "prefix_hash simple key h sequence (Suc i) =
     hash_step (prefix_hash simple key h sequence i) (byte_sequence sequence i) (key_byte simple key i)"

definition repeat_byte :: "int \<Rightarrow> nat \<Rightarrow> int" where
  "repeat_byte b n = foldl (\<lambda>x _. push_bit 8 x OR b) 0 [0..<n]"

text \<open>The bytes from \<open>used\<close> on are all spaces.\<close>

definition spaces_from :: "pg_key \<Rightarrow> nat \<Rightarrow> pgc" where
  "spaces_from key used =
     Cmp ''int8eq'' (Bin ''int8and'' (Bin ''int8shr'' (Val (gk_column key)) (Lit (8 * used))) (Big (repeat_byte 255 (gk_width key - used))))
       (Big (repeat_byte 32 (gk_width key - used)))"

definition stripped :: "pg_key \<Rightarrow> (nat \<Rightarrow> pgx) \<Rightarrow> pgx" where
  "stripped key at = Case (foldr (\<lambda>used bs. When (spaces_from key used) (at used) bs) [0..<gk_width key] (Else (at (gk_width key))))"

definition field_hash :: "bool \<Rightarrow> pg_key \<Rightarrow> pgx \<times> pgx \<Rightarrow> pgx \<times> pgx" where
  "field_hash simple key st =
     (case st of (h, sequence) \<Rightarrow>
        let prefixes = prefix_hash simple key h sequence;
            h' = (if simple then stripped key prefixes else prefixes (gk_width key));
            used = (if simple then stripped key (\<lambda>u. Big (int u)) else Big (int (gk_width key)));
            null = (\<lambda>a b. if gk_nullable key then Case (When (IsNull (gk_column key)) a (Else b)) else b)
        in (null (hash_null h) h', Bin ''int8pl'' sequence (Bin ''int8mul'' (Big 3) (null (Big 0) used))))"

definition mysqlKeyPGHashExpression :: "bool \<Rightarrow> pg_key list \<Rightarrow> pgx" where
  "mysqlKeyPGHashExpression simple keys = fst (foldl (\<lambda>st key. field_hash simple key st) (Big 1, Big 4) keys)"

text \<open>A value outside the source's type goes to \<open>-1\<close>, which no partition lists.\<close>

definition guard_domain :: "pgx \<Rightarrow> pg_key \<Rightarrow> pgx" where
  "guard_domain e key =
     Case (When (Cmp ''int8lt'' (Val (gk_column key)) (Big (gk_min key))) (Big (-1))
       (When (Cmp ''int8gt'' (Val (gk_column key)) (Big (gk_max key))) (Big (-1)) (Else e)))"

definition key_expression :: "bool \<Rightarrow> bool \<Rightarrow> nat \<Rightarrow> pg_key list \<Rightarrow> pgx" where
  "key_expression linear simple m keys =
     (let h = mysqlKeyPGHashExpression simple keys in
      foldl guard_domain (if linear then Bin ''int8and'' h (Big (int m - 1)) else Bin ''int8mod'' h (Big (int m))) keys)"

section \<open>Type identities\<close>

definition is_lower :: "char \<Rightarrow> bool" where
  "is_lower c \<longleftrightarrow> (let n = (of_char c :: nat) in 97 \<le> n \<and> n \<le> 122)"

text \<open>A type text: its name, what stands in parentheses right after it, and the rest.\<close>

definition split_type :: "string \<Rightarrow> string \<times> string option \<times> string" where
  "split_type s =
     (let name = takeWhile is_lower s; r = dropWhile is_lower s in
      if r \<noteq> [] \<and> hd r = CHR ''('' \<and> CHR '')'' \<in> set r
      then (name, Some (takeWhile (\<lambda>c. c \<noteq> CHR '')'') (tl r)), tl (dropWhile (\<lambda>c. c \<noteq> CHR '')'') r))
      else (name, None, r))"

definition all_digits :: "string \<Rightarrow> bool" where
  "all_digits s \<longleftrightarrow> s \<noteq> [] \<and> list_all is_digit s"

definition sign_suffix :: "string \<Rightarrow> string option" where
  "sign_suffix s = map_of [([], []), ('' unsigned'', '' unsigned''), ('' zerofill'', '' unsigned zerofill''),
     ('' unsigned zerofill'', '' unsigned zerofill'')] s"

datatype key_error =
    KeyTarget | KeyMethod | KeyAlgorithm string | KeyColumns | KeyColumn string | KeyDisplayWidth | KeyLength | KeyPrecision
  | KeyType string | KeyIdentity string | KeyStorage string | KeyUnsignedInt string | KeyOrder string | KeyWidth
  | KeyDomain string | KeyPartitions | KeyTooLong | KeyCatalog

definition at_most :: "nat \<Rightarrow> string \<Rightarrow> bool" where
  "at_most m s \<longleftrightarrow> (case parse_int 64 s of None \<Rightarrow> False | Some n \<Rightarrow> 0 \<le> n \<and> n \<le> int m)"

definition comma_split :: "string \<Rightarrow> (string \<times> string) option" where
  "comma_split s =
     (let a = takeWhile (\<lambda>c. c \<noteq> CHR '','') s; b = dropWhile (\<lambda>c. c \<noteq> CHR '','') s in
      if b \<noteq> [] \<and> all_digits a \<and> all_digits (tl b) then Some (a, tl b) else None)"

definition norm_number :: "string \<Rightarrow> string" where
  "norm_number s = itoa (case parse_int 64 s of None \<Rightarrow> 0 | Some n \<Rightarrow> n)"

definition canonicalMySQLKeyType :: "string \<Rightarrow> key_error + string" where
  "canonicalMySQLKeyType raw =
     (case split_type (to_lower (str_join '' '' (str_fields raw))) of (name, args, rest) \<Rightarrow>
        if name \<in> set [''tinyint'', ''smallint'', ''mediumint'', ''int'', ''bigint''] \<and>
           (case args of None \<Rightarrow> True | Some a \<Rightarrow> all_digits a) \<and> sign_suffix rest \<noteq> None
        then (if (case args of None \<Rightarrow> True | Some a \<Rightarrow> at_most 255 a) then Inr (name @ the (sign_suffix rest)) else Inl KeyDisplayWidth)
        else
          (case args of
             None \<Rightarrow> Inl (KeyType raw)
           | Some a \<Rightarrow>
               if name \<in> set [''char'', ''varchar'', ''binary'', ''varbinary'', ''bit''] \<and> all_digits a \<and> rest = []
               then (if at_most 65535 a \<and> (name = ''bit'' \<longrightarrow> at_most 64 a \<and> \<not> at_most 0 a)
                     then Inr (name @ ''('' @ norm_number a @ '')'') else Inl KeyLength)
               else if name = ''decimal'' \<and> comma_split a \<noteq> None \<and> sign_suffix rest \<noteq> None
               then (case comma_split a of
                       None \<Rightarrow> Inl KeyPrecision
                     | Some (p, s) \<Rightarrow>
                         if at_most 65 p \<and> \<not> at_most 0 p \<and> at_most 30 s \<and> (case parse_int 64 p of None \<Rightarrow> False | Some n \<Rightarrow> at_most (nat n) s)
                         then Inr (''decimal('' @ norm_number p @ '','' @ norm_number s @ '')'' @ the (sign_suffix rest)) else Inl KeyPrecision)
               else Inl (KeyType raw)))"

section \<open>KEY as lists\<close>

record key_domain =
  kd_column :: string
  kd_data_type :: string
  kd_nullable :: bool

definition key_width :: "string \<Rightarrow> nat" where
  "key_width typ = (case map_of [(''tinyint'', 1), (''smallint'', 2), (''mediumint'', 3), (''int'', 4)] (hd (str_fields typ)) of
     None \<Rightarrow> 0 | Some w \<Rightarrow> w)"

definition add_domain :: "key_domain \<Rightarrow> key_domain list \<Rightarrow> key_error + key_domain list" where
  "add_domain d ds =
     (case List.find (\<lambda>e. kd_column e = kd_column d) ds of
        None \<Rightarrow> Inr (ds @ [d])
      | Some e \<Rightarrow> if e = d then Inr ds else Inl (KeyDomain (kd_column d)))"

definition key_field :: "options \<Rightarrow> ColumnInfo \<Rightarrow> string \<Rightarrow> pg_key" where
  "key_field opt col typ =
     (let w = key_width typ; unsigned = str_contains typ ''unsigned'' in
      \<lparr>gk_column = sql_quote (op_target opt) (op_column_name opt (ci_Name col)), gk_width = w, gk_nullable = ci_IsNullable col,
       gk_min = (if unsigned then 0 else - (2 ^ (8 * w - 1))), gk_max = (if unsigned then 2 ^ (8 * w) - 1 else 2 ^ (8 * w - 1) - 1)\<rparr>)"

text \<open>The loop over the keys; the position of the last column is one more than Go's, 0 at the start.\<close>

fun key_fields ::
  "options \<Rightarrow> ColumnInfo list \<Rightarrow> partition_key list \<Rightarrow> nat \<Rightarrow> nat \<Rightarrow> pg_key list \<Rightarrow> key_domain list \<Rightarrow>
   key_error + pg_key list \<times> key_domain list" where
  "key_fields opt cols [] bytes after ks ds = Inr (ks, ds)"
| "key_fields opt cols (key # keys) bytes after ks ds =
     (case column_of cols (pk_column key) of
        None \<Rightarrow> Inl (KeyColumn (pk_column key))
      | Some col \<Rightarrow>
          if pk_expression key \<noteq> [] \<or> ci_Generated col \<noteq> [] \<or> str_contains (to_lower (ci_Extra col)) ''generated''
          then Inl (KeyColumn (pk_column key))
          else
            bind_res (canonicalMySQLKeyType (pk_data_type key)) (\<lambda>typ.
              if canonicalMySQLKeyType (if ci_FormattedType col = [] then ci_DataType col else ci_FormattedType col) \<noteq> Inr typ \<or>
                 pk_collation key \<noteq> []
              then Inl (KeyIdentity (pk_column key))
              else if key_width typ = 0 then Inl (KeyStorage (pk_column key))
              else if key_width typ = 4 \<and> str_contains typ ''unsigned'' then Inl (KeyUnsignedInt (pk_column key))
              else
                (case find_index (map ci_Name cols) (pk_column key) of
                   None \<Rightarrow> Inl (KeyOrder (pk_column key))
                 | Some pos \<Rightarrow>
                     if pos < after then Inl (KeyOrder (pk_column key))
                     else if 4 < bytes + key_width typ then Inl KeyWidth
                     else
                       bind_res (add_domain \<lparr>kd_column = op_column_name opt (pk_column key), kd_data_type = ''integer'',
                           kd_nullable = ci_IsNullable col\<rparr> ds) (\<lambda>ds'.
                         key_fields opt cols keys (bytes + key_width typ) (Suc pos) (ks @ [key_field opt col typ]) ds'))))"

definition key_bucket :: "nat \<Rightarrow> nat \<Rightarrow> int \<Rightarrow> int" where
  "key_bucket n m r = (if int n \<le> r then r AND (int m div 2 - 1) else r)"

record key_rewrite =
  kw_spec :: partition_spec
  kw_expression :: pgx
  kw_domains :: "key_domain list"

definition mysqlKeyAsPGList ::
  "options \<Rightarrow> profile \<Rightarrow> ColumnInfo list \<Rightarrow> key_domain list \<Rightarrow> partition_spec \<Rightarrow> key_error + key_rewrite" where
  "mysqlKeyAsPGList opt pf cols ds src =
     (let si = spec_of src; m = method_of (si_method si); n = length (parts_of src) in
      if op_source opt \<noteq> ''mysql'' \<or> op_target opt \<noteq> ''postgres'' \<or>
         \<not> {''postgres_declarative'', ''expression_keys'', ''native_list''} \<subseteq> pf_features pf
      then Inl KeyTarget
      else if m \<noteq> ''KEY'' \<and> m \<noteq> ''LINEAR KEY'' then Inl KeyMethod
      else if si_algorithm si \<noteq> ''mysql-key-innodb-1:8.0.36'' \<and> si_algorithm si \<noteq> ''mysql-key-innodb-2:8.0.36''
      then Inl (KeyAlgorithm (si_algorithm si))
      else if si_keys si = [] then Inl KeyColumns
      else
        bind_res (key_fields opt cols (si_keys si) 0 0 [] ds) (\<lambda>(keys, ds').
          if n < 1 \<or> 8192 < n then Inl KeyPartitions
          else
            let linear = (m = ''LINEAR KEY''); modulus = (if linear then double_to n 1 else n);
                e = key_expression linear (si_algorithm si = ''mysql-key-innodb-2:8.0.36'') modulus keys
            in if 512 * 1024 < int (length (''('' @ pg_text e @ '')'')) then Inl KeyTooLong
               else
                 (case hash_partitions True n 0 (parts_of src) of
                    Inl _ \<Rightarrow> Inl KeyCatalog
                  | Inr ps \<Rightarrow>
                      Inr \<lparr>kw_spec = Spec (si\<lparr>si_method := ''LIST'', si_algorithm := [], si_keys := [hd (si_keys si)]\<rparr>)
                             (foldl (add_value (key_bucket n modulus)) ps [0..int modulus - 1]),
                           kw_expression = e,
                           kw_domains = sort_by (\<lambda>a b. str_less (kd_column a) (kd_column b)) ds'\<rparr>)))"

section \<open>What PostgreSQL computes\<close>

text \<open>The functions over \<^verbatim>\<open>bigint\<close>: NULL for a NULL argument, an error when a sum, a product or a remainder is not
  defined, bitwise operations on the two's complement, a left shift that wraps around.\<close>

definition pg_function :: "string \<Rightarrow> int \<Rightarrow> int \<Rightarrow> unit + int option" where
  "pg_function f x y =
     (if f = ''int8pl'' then checked (x + y)
      else if f = ''int8mul'' then checked (x * y)
      else if f = ''int8mod'' then (if y = 0 then Inl () else Inr (Some (rem_t x y)))
      else if f = ''int8and'' then Inr (Some (x AND y))
      else if f = ''int8or'' then Inr (Some (x OR y))
      else if f = ''int8xor'' then Inr (Some (x XOR y))
      else if f = ''int8shl'' then Inr (Some (i64 (push_bit (nat y) x)))
      else if f = ''int8shr'' then Inr (Some (drop_bit (nat y) x))
      else Inl ())"

definition pg_compare :: "string \<Rightarrow> int option \<Rightarrow> int option \<Rightarrow> bool" where
  "pg_compare f u v =
     (case (u, v) of
        (Some x, Some y) \<Rightarrow> if f = ''int8eq'' then x = y else if f = ''int8lt'' then x < y else if f = ''int8gt'' then y < x else False
      | _ \<Rightarrow> False)"

definition hex_digit :: "char \<Rightarrow> nat" where
  "hex_digit c = (if is_digit c then digit_val c else (of_char c :: nat) - 87) mod 16"

fun hex_bytes :: "string \<Rightarrow> int list" where
  "hex_bytes (a # b # s) = int (16 * hex_digit a + hex_digit b) # hex_bytes s"
| "hex_bytes _ = []"

definition weights :: "int list" where
  "weights = hex_bytes weights_hex"

definition weight_of :: "int \<Rightarrow> unit + int option" where
  "weight_of b = (if 0 \<le> b \<and> b < 256 then Inr (Some (weights ! nat b)) else Inl ())"

primrec pg_value :: "(string \<Rightarrow> int option) \<Rightarrow> pgx \<Rightarrow> unit + int option"
  and pg_cases :: "(string \<Rightarrow> int option) \<Rightarrow> pgb \<Rightarrow> unit + int option"
  and pg_true :: "(string \<Rightarrow> int option) \<Rightarrow> pgc \<Rightarrow> unit + bool" where
  "pg_value \<rho> (Big n) = Inr (Some n)"
| "pg_value \<rho> (Lit n) = Inr (Some (int n))"
| "pg_value \<rho> (Val c) = Inr (\<rho> c)"
| "pg_value \<rho> (Bin f a b) = bind_res (pg_value \<rho> a) (\<lambda>u. bind_res (pg_value \<rho> b) (\<lambda>v. on_values (pg_function f) u v))"
| "pg_value \<rho> (Weight b) = bind_res (pg_value \<rho> b) (\<lambda>u. case u of None \<Rightarrow> Inr None | Some x \<Rightarrow> weight_of x)"
| "pg_value \<rho> (Case bs) = pg_cases \<rho> bs"
| "pg_cases \<rho> (When c a bs) = bind_res (pg_true \<rho> c) (\<lambda>t. if t then pg_value \<rho> a else pg_cases \<rho> bs)"
| "pg_cases \<rho> (Else a) = pg_value \<rho> a"
| "pg_true \<rho> (Cmp f a b) = bind_res (pg_value \<rho> a) (\<lambda>u. bind_res (pg_value \<rho> b) (\<lambda>v. Inr (pg_compare f u v)))"
| "pg_true \<rho> (IsNull c) = Inr (\<rho> c = None)"

section \<open>MySQL's hash of the stored bytes\<close>

type_synonym hash_state = "64 word \<times> 64 word"

definition mysql_step :: "64 word \<Rightarrow> hash_state \<Rightarrow> hash_state" where
  "mysql_step b st =
     (case st of (nr1, nr2) \<Rightarrow> (nr1 XOR ((((nr1 AND 63) + nr2) * b) + push_bit 8 nr1), nr2 + 3))"

definition mysql_null :: "hash_state \<Rightarrow> hash_state" where
  "mysql_null st = (case st of (nr1, nr2) \<Rightarrow> (nr1 XOR (push_bit 1 nr1 OR 1), nr2))"

definition stored_bytes :: "nat \<Rightarrow> int \<Rightarrow> int list" where
  "stored_bytes width x = map (\<lambda>i. x div 2 ^ (8 * i) mod 256) [0..<width]"

text \<open>Algorithm 1 hashes the bytes; algorithm 2 drops the spaces at their end and hashes weights.\<close>

definition strip_spaces :: "int list \<Rightarrow> int list" where
  "strip_spaces bs = rev (dropWhile (\<lambda>b. b = 32) (rev bs))"

definition mysql_field :: "bool \<Rightarrow> nat \<Rightarrow> int option \<Rightarrow> hash_state \<Rightarrow> hash_state" where
  "mysql_field simple width u st =
     (case u of
        None \<Rightarrow> mysql_null st
      | Some x \<Rightarrow>
          (let bs = stored_bytes width x in
           foldl (\<lambda>st b. mysql_step (of_int b) st) st (if simple then map (\<lambda>b. weights ! nat b) (strip_spaces bs) else bs)))"

definition mysql_key_hash :: "bool \<Rightarrow> (nat \<times> int option) list \<Rightarrow> int" where
  "mysql_key_hash simple cells =
     take_bit 32 (uint (fst (foldl (\<lambda>st (w, u). mysql_field simple w u st) (1, 4) cells)))"

definition mysql_key_bucket :: "bool \<Rightarrow> nat \<Rightarrow> int \<Rightarrow> int" where
  "mysql_key_bucket linear n h =
     (if linear then
        (let v = int (double_to n 1); part = h AND (v - 1) in if int n \<le> part then h AND (v div 2 - 1) else part)
      else h mod int n)"

section \<open>One step\<close>

text \<open>The state of MySQL's hash as the integers the expression computes with.\<close>

definition low :: "64 word \<Rightarrow> int" where
  "low w = take_bit 32 (uint w)"

lemma low_range: "0 \<le> low w" "low w < 2 ^ 32"
  using take_bit_int_less_exp [of 32 "uint w"] by (simp_all add: low_def)

lemma take_low: "take_bit 32 (take_bit 64 x) = take_bit 32 (x :: int)"
  by (simp add: take_bit_take_bit)

lemma low_ops:
  "low (a + b) = take_bit 32 (uint a + uint b)" "low (a * b) = take_bit 32 (uint a * uint b)"
  "low (push_bit n a) = take_bit 32 (push_bit n (uint a))" "low (a XOR b) = low a XOR low b"
  "low (a OR b) = low a OR low b"
  by (simp_all add: low_def uint_word_arith_bintrs unsigned_push_bit_eq unsigned_xor_eq unsigned_or_eq take_low)

lemma take_add_cong:
  "take_bit 32 (a :: int) = take_bit 32 a' \<Longrightarrow> take_bit 32 b = take_bit 32 b' \<Longrightarrow> take_bit 32 (a + b) = take_bit 32 (a' + b')"
  by (metis take_bit_add)

lemma take_mult_cong:
  "take_bit 32 (a :: int) = take_bit 32 a' \<Longrightarrow> take_bit 32 b = take_bit 32 b' \<Longrightarrow> take_bit 32 (a * b) = take_bit 32 (a' * b')"
  by (metis take_bit_mult)

lemma take_push: "take_bit 32 (push_bit n (take_bit 32 x)) = take_bit 32 (push_bit n (x :: int))"
  unfolding push_bit_eq_mult by (rule take_mult_cong) (simp_all add: take_bit_take_bit)

lemma and_63: "(x :: int) AND 63 = take_bit 6 x"
  by (simp add: take_bit_eq_mask mask_eq_exp_minus_1)

lemma uint_and_63: "uint (w AND (63 :: 64 word)) = low w AND 63"
  by (simp add: unsigned_and_eq low_def and_63 take_bit_take_bit)

lemma low_step:
  "low (fst (mysql_step b (nr1, nr2))) =
     (low nr1 XOR (((low nr1 AND 63) + uint nr2) * uint b + push_bit 8 (low nr1))) AND 4294967295"
proof -
  have m: "x AND 4294967295 = take_bit 32 x" for x :: int by (simp add: take_bit_eq_mask mask_eq_exp_minus_1)
  have "take_bit 32 (uint ((((nr1 AND 63) + nr2) * b) :: 64 word)) = take_bit 32 (((low nr1 AND 63) + uint nr2) * uint b)"
    by (simp add: uint_word_arith_bintrs take_low uint_and_63)
      (intro take_mult_cong, simp_all add: take_low)
  moreover have "take_bit 32 (uint (push_bit 8 nr1)) = take_bit 32 (push_bit 8 (low nr1))"
    by (simp add: low_def unsigned_push_bit_eq take_low take_push)
  ultimately have "low ((((nr1 AND 63) + nr2) * b) + push_bit 8 nr1) =
      take_bit 32 (((low nr1 AND 63) + uint nr2) * uint b + push_bit 8 (low nr1))"
    unfolding low_ops by (rule take_add_cong)
  then show ?thesis by (simp add: mysql_step_def low_ops m) (simp add: low_def take_bit_take_bit)
qed

lemma low_null: "low (fst (mysql_null (nr1, nr2))) = (low nr1 XOR (push_bit 1 (low nr1) OR 1)) AND 4294967295"
proof -
  have m: "x AND 4294967295 = take_bit 32 x" for x :: int by (simp add: take_bit_eq_mask mask_eq_exp_minus_1)
  have one: "low 1 = 1" by (simp add: low_def)
  have "take_bit 32 (push_bit 1 (uint nr1)) = take_bit 32 (push_bit 1 (low nr1))"
    unfolding low_def by (rule take_push [symmetric])
  then show ?thesis
    by (simp add: mysql_null_def low_ops m one) (simp add: low_def take_bit_take_bit)
qed

section \<open>The expression follows MySQL's state\<close>

lemma checked_small: "\<bar>x\<bar> < 2 ^ 62 \<Longrightarrow> checked x = Inr (Some x)"
  by (auto simp: checked_def in_i64_def i64_min_def i64_max_def)

lemma i64_small: "\<bar>x\<bar> < 2 ^ 62 \<Longrightarrow> i64 x = x"
  by (rule i64_id) (auto simp: in_i64_def i64_min_def i64_max_def)

lemma hash_step_value:
  assumes "pg_value \<rho> h = Inr (Some H)" "pg_value \<rho> s = Inr (Some S)" "pg_value \<rho> y = Inr (Some Y)"
    and "0 \<le> H" "H < 2 ^ 32" "0 \<le> S" "S \<le> 1000" "0 \<le> Y" "Y < 256"
  shows "pg_value \<rho> (hash_step h s y) = Inr (Some ((H XOR (((H AND 63) + S) * Y + push_bit 8 H)) AND 4294967295))"
proof -
  define p q where pq: "p = H AND 63" "q = push_bit 8 H"
  have A: "0 \<le> p" "p < 64" using take_bit_int_less_exp [of 6 H] by (simp_all add: pq and_63)
  have C: "0 \<le> q" "q < 2 ^ 40" using assms(4,5) by (simp_all add: pq push_bit_eq_mult)
  have "p + S \<le> 1064" using A(2) assms(7) by linarith
  then have B: "0 \<le> (p + S) * Y" "(p + S) * Y \<le> 1064 * 255"
    using A(1) assms(6,8,9) mult_mono [of "p + S" 1064 Y 255] by simp_all
  have "checked (p + S) = Inr (Some (p + S))" "checked ((p + S) * Y) = Inr (Some ((p + S) * Y))"
    "checked ((p + S) * Y + q) = Inr (Some ((p + S) * Y + q))" "i64 q = q"
    using A B C assms(6,7) by (simp_all add: checked_small i64_small abs_of_nonneg)
  then show ?thesis
    using assms(1-3) unfolding hash_step_def pq by (simp add: on_values_def pg_function_def)
qed

lemma hash_null_value:
  assumes "pg_value \<rho> h = Inr (Some H)" "0 \<le> H" "H < 2 ^ 32"
  shows "pg_value \<rho> (hash_null h) = Inr (Some ((H XOR (push_bit 1 H OR 1)) AND 4294967295))"
proof -
  have "i64 (push_bit 1 H) = push_bit 1 H" using assms by (intro i64_small) (simp add: push_bit_eq_mult)
  then show ?thesis using assms(1) by (simp add: hash_null_def on_values_def pg_function_def)
qed

lemma hex_digit_range: "hex_digit c < 16"
  by (simp add: hex_digit_def)

lemma hex_bytes_range: "length (hex_bytes s) = length s div 2 \<and> list_all (\<lambda>w. 0 \<le> w \<and> w < 256) (hex_bytes s)"
proof (induction s rule: hex_bytes.induct)
  case (1 a b s)
  then show ?case using hex_digit_range [of a] hex_digit_range [of b] by simp
qed simp_all

lemma weights_range: "length weights = 256" "list_all (\<lambda>w. 0 \<le> w \<and> w < 256) weights"
  using hex_bytes_range [of weights_hex] by (simp_all add: weights_def) (simp add: weights_hex_def)

lemma weight_range: "0 \<le> b \<Longrightarrow> b < 256 \<Longrightarrow> 0 \<le> weights ! nat b \<and> weights ! nat b < 256"
  using weights_range by (auto simp: list_all_length)

definition hashed_bytes :: "bool \<Rightarrow> nat \<Rightarrow> int \<Rightarrow> int list" where
  "hashed_bytes simple w x = map (\<lambda>b. if simple then weights ! nat b else b) (stored_bytes w x)"

lemma stored_nth: "i < w \<Longrightarrow> stored_bytes w x ! i = x div 2 ^ (8 * i) mod 256"
  by (simp add: stored_bytes_def)

lemma length_bytes [simp]: "length (stored_bytes w x) = w" "length (hashed_bytes simple w x) = w"
  by (simp_all add: stored_bytes_def hashed_bytes_def)

lemma hashed_range: "i < w \<Longrightarrow> 0 \<le> hashed_bytes simple w x ! i \<and> hashed_bytes simple w x ! i < 256"
  using weight_range by (simp add: hashed_bytes_def stored_nth)

lemma key_byte_value:
  assumes "\<rho> (gk_column key) = Some x" "i < gk_width key"
  shows "pg_value \<rho> (key_byte simple key i) = Inr (Some (hashed_bytes simple (gk_width key) x ! i))"
proof -
  have m: "y AND 255 = y mod 256" for y :: int using int_mask [of y 8] by simp
  show ?thesis
    using assms by (simp add: key_byte_def Let_def on_values_def pg_function_def m drop_bit_eq_div hashed_bytes_def stored_nth
        weight_of_def nat_mult_distrib)
qed

definition run_bytes :: "int list \<Rightarrow> hash_state \<Rightarrow> hash_state" where
  "run_bytes bs st = foldl (\<lambda>st b. mysql_step (of_int b) st) st bs"

lemma uint_byte: "0 \<le> b \<Longrightarrow> b < 256 \<Longrightarrow> uint (of_int b :: 64 word) = b"
  by (simp add: unsigned_of_int take_bit_int_eq_self_iff)

lemma uint_plus_3: "uint (w :: 64 word) \<le> 2000 \<Longrightarrow> uint (w + 3) = uint w + 3"
  by (simp add: uint_word_arith_bintrs take_bit_int_eq_self_iff)

definition follows :: "(string \<Rightarrow> int option) \<Rightarrow> nat \<Rightarrow> pgx \<times> pgx \<Rightarrow> hash_state \<Rightarrow> bool" where
  "follows \<rho> n e st \<longleftrightarrow>
     pg_value \<rho> (fst e) = Inr (Some (low (fst st))) \<and> pg_value \<rho> (snd e) = Inr (Some (uint (snd st))) \<and>
     uint (snd st) \<le> 4 + 3 * int n"

lemma prefix_value:
  assumes "follows \<rho> n (h, sequence) st" "\<rho> (gk_column key) = Some x" "n + gk_width key \<le> 300" "i \<le> gk_width key"
  shows "pg_value \<rho> (prefix_hash simple key h sequence i) =
      Inr (Some (low (fst (run_bytes (take i (hashed_bytes simple (gk_width key) x)) st)))) \<and>
    uint (snd (run_bytes (take i (hashed_bytes simple (gk_width key) x)) st)) = uint (snd st) + 3 * int i"
  using assms(4)
proof (induction i)
  case 0
  then show ?case using assms(1) by (simp add: run_bytes_def follows_def)
next
  case (Suc i)
  let ?bs = "hashed_bytes simple (gk_width key) x"
  define st' where "st' = run_bytes (take i ?bs) st"
  obtain nr1 nr2 where st': "st' = (nr1, nr2)" by (cases st')
  have IH: "pg_value \<rho> (prefix_hash simple key h sequence i) = Inr (Some (low nr1))" "uint nr2 = uint (snd st) + 3 * int i"
    using Suc by (simp_all add: st'_def [symmetric] st')
  have bound: "uint (snd st) + 3 * int i \<le> 1000" using assms(1,3) Suc.prems by (simp add: follows_def)
  have b: "0 \<le> ?bs ! i" "?bs ! i < 256" using hashed_range Suc.prems by simp_all
  have next_state: "run_bytes (take (Suc i) ?bs) st = mysql_step (of_int (?bs ! i)) (nr1, nr2)"
    using Suc.prems by (simp add: run_bytes_def take_Suc_conv_app_nth st'_def [unfolded run_bytes_def, symmetric] st')
  have "checked (uint (snd st) + 3 * int i) = Inr (Some (uint (snd st) + 3 * int i))"
    using bound by (intro checked_small) (simp add: abs_of_nonneg)
  then have "pg_value \<rho> (byte_sequence sequence i) = Inr (Some (uint nr2))"
    using assms(1) IH(2) by (auto simp: byte_sequence_def follows_def on_values_def pg_function_def)
  from hash_step_value [OF IH(1) this key_byte_value [of \<rho> key x i simple, OF assms(2) Suc_le_lessD [OF Suc.prems]] low_range] bound IH(2) b
  have "pg_value \<rho> (prefix_hash simple key h sequence (Suc i)) =
      Inr (Some (low (fst (mysql_step (of_int (?bs ! i)) (nr1, nr2)))))"
    by (simp add: low_step uint_byte)
  moreover have "uint (snd (mysql_step (of_int (?bs ! i)) (nr1, nr2))) = uint (snd st) + 3 * int (Suc i)"
    using uint_plus_3 [of nr2] IH(2) bound by (simp add: mysql_step_def)
  ultimately show ?case by (simp add: next_state)
qed

section \<open>Spaces at the end of a field\<close>

lemma push_or: "0 \<le> b \<Longrightarrow> b < 256 \<Longrightarrow> push_bit 8 x OR b = 256 * x + (b :: int)"
proof -
  assume b: "0 \<le> b" "b < 256"
  then have "b = take_bit 8 b" by (simp add: take_bit_int_eq_self)
  then have "\<not> bit (push_bit 8 x) n \<or> \<not> bit b n" for n
    by (metis bit_push_bit_iff_int bit_take_bit_iff linorder_not_le)
  then have "push_bit 8 x + b = push_bit 8 x OR b" by (intro disjunctive_add_eq_or) (auto simp: bit_eq_iff bit_and_iff)
  then show ?thesis by (simp add: push_bit_eq_mult)
qed

lemma repeat_byte_Suc: "0 \<le> b \<Longrightarrow> b < 256 \<Longrightarrow> repeat_byte b (Suc n) = 256 * repeat_byte b n + b"
  by (simp add: repeat_byte_def push_or)

lemma repeat_255: "repeat_byte 255 n = 2 ^ (8 * n) - 1"
  by (induction n) (simp_all add: repeat_byte_Suc power_add, simp add: repeat_byte_def)

lemma div_shift: "(x :: int) div 2 ^ (8 * u) div 2 ^ (8 * j) = x div 2 ^ (8 * (u + j))"
  by (simp add: power_add distrib_left flip: zdiv_zmult2_eq)

lemma div_later: "(x :: int) div 256 div 2 ^ (8 * j) = x div 2 ^ (8 * Suc j)"
  using div_shift [of x 1 j] by simp

lemma low_bytes_spaces: "y mod 2 ^ (8 * n) = repeat_byte 32 n \<longleftrightarrow> (\<forall>j<n. y div 2 ^ (8 * j) mod 256 = 32)"
proof (induction n arbitrary: y)
  case 0
  then show ?case by (simp add: repeat_byte_def)
next
  case (Suc n)
  have "y mod 2 ^ (8 * Suc n) = y mod 256 + 256 * ((y div 256) mod 2 ^ (8 * n))"
    using mod_mult2_eq' [of y 256 "2 ^ (8 * n)"] by (simp add: power_add)
  moreover have "a + 256 * b = 256 * c + 32 \<longleftrightarrow> a = 32 \<and> b = c" if "0 \<le> a" "a < 256" for a b c :: int
  proof -
    consider "b = c" | "b < c" | "c < b" by linarith
    then show ?thesis using that by cases linarith+
  qed
  ultimately have "y mod 2 ^ (8 * Suc n) = repeat_byte 32 (Suc n) \<longleftrightarrow>
      y mod 256 = 32 \<and> (y div 256) mod 2 ^ (8 * n) = repeat_byte 32 n"
    by (simp add: repeat_byte_Suc)
  also have "\<dots> \<longleftrightarrow> y mod 256 = 32 \<and> (\<forall>j<n. y div 2 ^ (8 * Suc j) mod 256 = 32)"
    unfolding Suc.IH by (simp add: div_later)
  also have "\<dots> \<longleftrightarrow> (\<forall>j<Suc n. y div 2 ^ (8 * j) mod 256 = 32)"
    by (auto simp: less_Suc_eq_0_disj)
  finally show ?case .
qed

definition spaces_at :: "nat \<Rightarrow> int \<Rightarrow> nat \<Rightarrow> bool" where
  "spaces_at w x u \<longleftrightarrow> (\<forall>j<w. u \<le> j \<longrightarrow> stored_bytes w x ! j = 32)"

lemma shift_all: "u \<le> w \<Longrightarrow> (\<forall>j<w - u. Q (u + j)) \<longleftrightarrow> (\<forall>j<w. u \<le> j \<longrightarrow> Q (j :: nat))"
proof (intro iffI allI impI)
  fix j assume all: "\<forall>j<w - u. Q (u + j)" and j: "j < w" "u \<le> j"
  have "j - u < w - u" using j by simp
  then have "Q (u + (j - u))" using all by blast
  then show "Q j" using j by simp
qed auto

lemma spaces_from_value:
  assumes "\<rho> (gk_column key) = Some x" "u \<le> gk_width key"
  shows "pg_true \<rho> (spaces_from key u) = Inr (spaces_at (gk_width key) x u)"
proof -
  let ?w = "gk_width key" and ?n = "gk_width key - u"
  have "(\<forall>j<?n. x div 2 ^ (8 * u) div 2 ^ (8 * j) mod 256 = 32) \<longleftrightarrow> (\<forall>j<?n. x div 2 ^ (8 * (u + j)) mod 256 = 32)"
    by (simp add: div_shift)
  also have "\<dots> \<longleftrightarrow> (\<forall>j<?w. u \<le> j \<longrightarrow> x div 2 ^ (8 * j) mod 256 = 32)"
    by (rule shift_all [OF assms(2)])
  finally show ?thesis
    using assms low_bytes_spaces [of "x div 2 ^ (8 * u)" ?n]
    by (simp add: spaces_from_def on_values_def pg_function_def pg_compare_def repeat_255 int_mask drop_bit_eq_div spaces_at_def stored_nth
        nat_mult_distrib)
qed

lemma first_case:
  assumes "\<And>u. u \<in> set us \<Longrightarrow> pg_true \<rho> (c u) = Inr (P u)"
  shows "pg_cases \<rho> (foldr (\<lambda>u bs. When (c u) (a u) bs) us (Else d)) =
    (case List.find P us of None \<Rightarrow> pg_value \<rho> d | Some u \<Rightarrow> pg_value \<rho> (a u))"
  using assms by (induction us) auto

lemma find_upt:
  assumes "k \<le> n" "k < n \<Longrightarrow> P k" "\<And>j. j < k \<Longrightarrow> \<not> P j"
  shows "List.find P [0..<n] = (if k < n then Some k else None)"
proof (cases "k < n")
  case True
  then show ?thesis using assms by (auto simp: find_Some_iff intro!: exI [of _ k])
next
  case False
  then show ?thesis using assms by (auto simp: find_None_iff)
qed

lemma strip_take: "strip_spaces bs = take (length (strip_spaces bs)) bs"
proof -
  have "rev bs = takeWhile (\<lambda>b. b = 32) (rev bs) @ dropWhile (\<lambda>b. b = 32) (rev bs)" by simp
  then have "bs = strip_spaces bs @ rev (takeWhile (\<lambda>b. b = 32) (rev bs))"
    by (metis rev_append rev_rev_ident strip_spaces_def)
  then show ?thesis by (metis append_eq_conv_conj)
qed

lemma strip_stop: "strip_spaces bs \<noteq> [] \<Longrightarrow> last (strip_spaces bs) \<noteq> 32"
  using hd_dropWhile [of "\<lambda>b. b = 32" "rev bs"] by (auto simp: strip_spaces_def last_rev)

lemma strip_rest:
  assumes "length (strip_spaces bs) \<le> j" "j < length bs"
  shows "bs ! j = 32"
proof -
  have "length (strip_spaces bs) + length (takeWhile (\<lambda>b. b = 32) (rev bs)) = length bs"
    by (metis length_append length_rev strip_spaces_def takeWhile_dropWhile_id add.commute)
  then have "length bs - Suc j < length (takeWhile (\<lambda>b. b = 32) (rev bs))" using assms by linarith
  then have "takeWhile (\<lambda>b. b = 32) (rev bs) ! (length bs - Suc j) = rev bs ! (length bs - Suc j)"
    "takeWhile (\<lambda>b. b = 32) (rev bs) ! (length bs - Suc j) \<in> set (takeWhile (\<lambda>b. b = 32) (rev bs))"
    by (rule takeWhile_nth, rule nth_mem)
  then have "rev bs ! (length bs - Suc j) = 32" using set_takeWhileD by fastforce
  then show ?thesis using assms(2) by (simp add: rev_nth)
qed

lemma length_strip: "length (strip_spaces bs) \<le> length bs"
  by (metis strip_take length_take min.cobounded1)

lemma stripped_value:
  assumes "\<rho> (gk_column key) = Some x"
  shows "pg_value \<rho> (stripped key at) = pg_value \<rho> (at (length (strip_spaces (stored_bytes (gk_width key) x))))"
proof -
  let ?w = "gk_width key" and ?bs = "stored_bytes (gk_width key) x"
  let ?k = "length (strip_spaces ?bs)"
  have k: "?k \<le> ?w" using length_strip [of ?bs] by simp
  have "spaces_at ?w x ?k" using strip_rest [of ?bs] by (simp add: spaces_at_def)
  moreover have "\<not> spaces_at ?w x j" if "j < ?k" for j
  proof -
    have "strip_spaces ?bs \<noteq> []" using that by auto
    then have "?bs ! (?k - 1) \<noteq> 32" using strip_stop [of ?bs] strip_take [of ?bs]
      by (metis One_nat_def diff_Suc_less last_conv_nth length_greater_0_conv nth_take)
    moreover have "?k - 1 < ?w" "j \<le> ?k - 1" using that k by simp_all
    ultimately show ?thesis unfolding spaces_at_def by blast
  qed
  ultimately have "List.find (spaces_at ?w x) [0..<?w] = (if ?k < ?w then Some ?k else None)"
    using find_upt [OF k, of "spaces_at ?w x"] by blast
  then show ?thesis
    using first_case [of "[0..<?w]" \<rho> "spaces_from key" "spaces_at ?w x" at "at ?w"]
      spaces_from_value [of \<rho> key x, OF assms] k
    by (auto simp: stripped_def)
qed

section \<open>Fields, keys and domains\<close>

definition in_domain :: "(string \<Rightarrow> int option) \<Rightarrow> pg_key \<Rightarrow> bool" where
  "in_domain \<rho> key \<longleftrightarrow> (case \<rho> (gk_column key) of None \<Rightarrow> True | Some x \<Rightarrow> gk_min key \<le> x \<and> x \<le> gk_max key)"

definition null_allowed :: "(string \<Rightarrow> int option) \<Rightarrow> pg_key \<Rightarrow> bool" where
  "null_allowed \<rho> key \<longleftrightarrow> \<rho> (gk_column key) = None \<longrightarrow> gk_nullable key"

definition stored_cells :: "(string \<Rightarrow> int option) \<Rightarrow> pg_key list \<Rightarrow> (nat \<times> int option) list" where
  "stored_cells \<rho> keys = map (\<lambda>k. (gk_width k, \<rho> (gk_column k))) keys"

lemma sequence_value:
  assumes "pg_value \<rho> sequence = Inr (Some N)" "pg_value \<rho> used = Inr (Some u)" "0 \<le> N" "N \<le> 1000" "0 \<le> u" "u \<le> 1000"
  shows "pg_value \<rho> (Bin ''int8pl'' sequence (Bin ''int8mul'' (Big 3) used)) = Inr (Some (N + 3 * u))"
proof -
  have "checked (3 * u) = Inr (Some (3 * u))" "checked (N + 3 * u) = Inr (Some (N + 3 * u))"
    using assms(3-6) by (simp_all add: checked_small abs_of_nonneg)
  then show ?thesis using assms(1,2) by (simp add: on_values_def pg_function_def)
qed

lemma field_follows:
  assumes f: "follows \<rho> n (h, sequence) st" and "n + gk_width key \<le> 300" and "null_allowed \<rho> key"
  shows "follows \<rho> (n + gk_width key) (field_hash simple key (h, sequence)) (mysql_field simple (gk_width key) (\<rho> (gk_column key)) st)"
proof -
  let ?w = "gk_width key"
  obtain nr1 nr2 where st: "st = (nr1, nr2)" by (cases st)
  have seq: "pg_value \<rho> sequence = Inr (Some (uint nr2))" "uint nr2 \<le> 1000" "uint nr2 \<le> 4 + 3 * int n"
    and h: "pg_value \<rho> h = Inr (Some (low nr1))"
    using f assms(2) by (simp_all add: follows_def st)
  show ?thesis
  proof (cases "\<rho> (gk_column key)")
    case None
    then have nul: "gk_nullable key" using assms(3) by (simp add: null_allowed_def)
    have "snd (mysql_null (nr1, nr2)) = nr2" by (simp add: mysql_null_def)
    then show ?thesis
      using nul None hash_null_value [OF h low_range] low_null [of nr1 nr2]
        sequence_value [OF seq(1), where used = "Case (When (IsNull (gk_column key)) (Big 0) (Else _))" and u = 0] seq
      by (simp add: field_hash_def Let_def follows_def mysql_field_def st)
  next
    case (Some x)
    let ?T = "hashed_bytes simple ?w x"
    define k where "k = (if simple then length (strip_spaces (stored_bytes ?w x)) else ?w)"
    have k: "k \<le> ?w" using length_strip [of "stored_bytes ?w x"] by (simp add: k_def)
    note P = prefix_value [of \<rho> n h sequence st key x k simple, OF f Some assms(2) k]
    have "map (\<lambda>b. weights ! nat b) (strip_spaces (stored_bytes ?w x)) = take k ?T" if simple
      using that by (subst strip_take) (simp add: k_def hashed_bytes_def take_map)
    moreover have "stored_bytes ?w x = take k ?T" if "\<not> simple"
      using that by (simp add: k_def hashed_bytes_def)
    ultimately have state: "mysql_field simple ?w (Some x) st = run_bytes (take k ?T) st"
      by (simp add: mysql_field_def Let_def run_bytes_def)
    have at_k: "pg_value \<rho> (if simple then stripped key at else at ?w) = pg_value \<rho> (at k)" for at
      using stripped_value [of \<rho> key x at, OF Some] by (simp add: k_def)
    have used: "pg_value \<rho> (if simple then stripped key (\<lambda>u. Big (int u)) else Big (int ?w)) = Inr (Some (int k))"
      using at_k [of "\<lambda>u. Big (int u)"] by simp
    have null: "pg_value \<rho> (if gk_nullable key then Case (When (IsNull (gk_column key)) a (Else b)) else b) = pg_value \<rho> b" for a b
      using Some by simp
    have "pg_value \<rho> (snd (field_hash simple key (h, sequence))) = Inr (Some (uint nr2 + 3 * int k))"
      unfolding field_hash_def Let_def prod.case snd_conv
      using seq k assms(2) used by (intro sequence_value) (simp_all only: null, simp_all)
    moreover have "pg_value \<rho> (fst (field_hash simple key (h, sequence))) = Inr (Some (low (fst (run_bytes (take k ?T) st))))"
      unfolding field_hash_def Let_def prod.case fst_conv null using at_k [of "prefix_hash simple key h sequence"] P by simp
    ultimately show ?thesis using P k seq(3) unfolding follows_def Some state by (simp add: st)
  qed
qed

lemma fields_follow:
  assumes "list_all (null_allowed \<rho>) keys" "n + sum_list (map gk_width keys) \<le> 300" "follows \<rho> n e st"
  shows "follows \<rho> (n + sum_list (map gk_width keys)) (foldl (\<lambda>st key. field_hash simple key st) e keys)
    (foldl (\<lambda>st (w, u). mysql_field simple w u st) st (stored_cells \<rho> keys))"
  using assms
proof (induction keys arbitrary: n e st)
  case (Cons key keys)
  have "follows \<rho> (n + gk_width key) (field_hash simple key e) (mysql_field simple (gk_width key) (\<rho> (gk_column key)) st)"
    using field_follows [of \<rho> n "fst e" "snd e" st key simple] Cons.prems by simp
  with Cons.IH [of "n + gk_width key"] Cons.prems show ?case by (simp add: stored_cells_def add.assoc)
qed (simp add: stored_cells_def)

lemma hash_expression_value:
  assumes "list_all (null_allowed \<rho>) keys" "sum_list (map gk_width keys) \<le> 300"
  shows "pg_value \<rho> (mysqlKeyPGHashExpression simple keys) = Inr (Some (mysql_key_hash simple (stored_cells \<rho> keys)))"
proof -
  have "follows \<rho> 0 (Big 1, Big 4) (1, 4)" by (simp add: follows_def low_def)
  from fields_follow [OF assms(1) _ this] assms(2) show ?thesis
    by (simp add: follows_def mysqlKeyPGHashExpression_def mysql_key_hash_def low_def)
qed

lemma guard_value:
  "pg_value \<rho> (foldl guard_domain e keys) = (if list_all (in_domain \<rho>) keys then pg_value \<rho> e else Inr (Some (-1)))"
  by (induction keys rule: rev_induct)
    (auto simp: guard_domain_def in_domain_def pg_compare_def split: option.splits)

lemma hash_range: "0 \<le> mysql_key_hash simple cs"
  by (simp add: mysql_key_hash_def)

text \<open>The residue the expression computes, before the guards.\<close>

definition key_residue :: "bool \<Rightarrow> nat \<Rightarrow> int \<Rightarrow> int" where
  "key_residue linear m h = (if linear then h AND (int m - 1) else h mod int m)"

lemma key_expression_value:
  assumes "list_all (null_allowed \<rho>) keys" "sum_list (map gk_width keys) \<le> 300" "0 < m"
  shows "pg_value \<rho> (key_expression linear simple m keys) =
    Inr (Some (if list_all (in_domain \<rho>) keys then key_residue linear m (mysql_key_hash simple (stored_cells \<rho> keys)) else -1))"
proof -
  have "rem_t h (int m) = h mod int m" if "0 \<le> h" for h using that assms(3) by (simp add: rem_t_sgn sgn_if)
  then show ?thesis
    using assms(3) hash_expression_value [OF assms(1,2)] hash_range
    by (auto simp: key_expression_def Let_def guard_value on_values_def pg_function_def key_residue_def)
qed

lemma key_fields_width:
  assumes "key_fields opt cols keys bytes after ks ds = Inr (ks', ds')" "bytes = sum_list (map gk_width ks)" "bytes \<le> 4"
  shows "sum_list (map gk_width ks') \<le> 4"
  using assms
proof (induction opt cols keys bytes after ks ds rule: key_fields.induct)
  case (2 opt cols key keys bytes after ks ds)
  then show ?case
    by (auto simp: bind_res_Inr_iff Let_def key_field_def split: option.splits if_splits)
qed auto

lemma key_bucket_values:
  assumes "0 < n" "double_to n 1 = 2 ^ k" "k = 0 \<or> 2 ^ (k - 1) < n"
  shows "linear \<Longrightarrow> 0 \<le> h \<Longrightarrow> key_bucket n (2 ^ k) (key_residue True (2 ^ k) h) = mysql_key_bucket True n h"
    and "0 \<le> r \<Longrightarrow> r < 2 ^ k \<Longrightarrow> 0 \<le> key_bucket n (2 ^ k) r \<and> key_bucket n (2 ^ k) r < int n"
proof -
  have "linear_bucket n (2 ^ k) r = key_bucket n (2 ^ k) r" if "0 \<le> r" "r < 2 ^ k" for r
    using that by (simp add: linear_bucket_def key_bucket_def Let_def int_mask)
  moreover have "0 \<le> h mod 2 ^ k" "h mod 2 ^ k < 2 ^ k" for h :: int by simp_all
  ultimately have b: "key_bucket n (2 ^ k) (h mod 2 ^ k) = linear_bucket n (2 ^ k) h" for h
    using linear_bucket_cong [OF assms(3,1), of "h mod 2 ^ k" h] by (metis mod_mod_trivial)
  show "linear \<Longrightarrow> 0 \<le> h \<Longrightarrow> key_bucket n (2 ^ k) (key_residue True (2 ^ k) h) = mysql_key_bucket True n h"
    using b [of h] assms(2) by (simp add: key_residue_def mysql_key_bucket_def linear_bucket_def Let_def int_mask)
  show "0 \<le> key_bucket n (2 ^ k) r \<and> key_bucket n (2 ^ k) r < int n" if "0 \<le> r" "r < 2 ^ k"
    using b [of r] linear_bucket_range [OF assms(3,1), of r] that by (simp add: mod_pos_pos_trivial)
qed

text \<open>The partitions of the result list the residues of their bucket, and no others.\<close>

lemma key_lists:
  assumes "hash_partitions True n 0 ps = Inr qs" "n = length ps" "i < n"
    and "\<And>r. r \<in> set [0..int m - 1] \<Longrightarrow> 0 \<le> bucket r \<and> bucket r < int n"
  shows "length (foldl (add_value bucket) qs [0..int m - 1]) = n"
    and "holds_in_list (foldl (add_value bucket) qs [0..int m - 1] ! i) v \<longleftrightarrow> 0 \<le> v \<and> v < int m \<and> bucket v = int i"
proof -
  have q: "length qs = n" "pi_values (part_of (qs ! i)) = []" using hash_partitions_nth [OF assms(1)] assms(2,3) by simp_all
  note V = add_values_nth [of "[0..int m - 1]" bucket qs i, unfolded q, OF assms(4) assms(3)]
  show "length (foldl (add_value bucket) qs [0..int m - 1]) = n" using V by simp
  show "holds_in_list (foldl (add_value bucket) qs [0..int m - 1] ! i) v \<longleftrightarrow> 0 \<le> v \<and> v < int m \<and> bucket v = int i"
    using V by (auto simp: holds_in_list_def number_value_inj)
qed

section \<open>Property\<close>

definition is_linear_key :: "partition_spec \<Rightarrow> bool" where
  "is_linear_key src \<longleftrightarrow> method_of (si_method (spec_of src)) = ''LINEAR KEY''"

definition is_simple_hash :: "partition_spec \<Rightarrow> bool" where
  "is_simple_hash src \<longleftrightarrow> si_algorithm (spec_of src) = ''mysql-key-innodb-2:8.0.36''"

lemma mysqlKeyAsPGList_parts:
  assumes "mysqlKeyAsPGList opt pf cols ds src = Inr r"
  obtains keys ds' qs m where "key_fields opt cols (si_keys (spec_of src)) 0 0 [] ds = Inr (keys, ds')"
    "0 < length (parts_of src)" "length (parts_of src) \<le> 8192" "m = (if is_linear_key src then double_to (length (parts_of src)) 1 else length (parts_of src))"
    "hash_partitions True (length (parts_of src)) 0 (parts_of src) = Inr qs"
    "parts_of (kw_spec r) = foldl (add_value (key_bucket (length (parts_of src)) m)) qs [0..int m - 1]"
    "kw_expression r = key_expression (is_linear_key src) (is_simple_hash src) m keys"
  using assms unfolding mysqlKeyAsPGList_def Let_def is_linear_key_def is_simple_hash_def
  by (auto simp: bind_res_Inr_iff Suc_le_eq split: if_splits sum.splits)

text \<open>C22: Replacing MySQL's KEY or LINEAR KEY by lists over an expression keeps every row in its partition. For
  every row of the source's column domains, the expression, evaluated as PostgreSQL does with 64-bit
  overflow checks, has a value, and exactly the partition of the bucket of MySQL's byte hash (computed on
  64-bit words, with the trailing spaces of algorithm 2) lists it. A row outside a column's source domain
  gets the value -1, which no partition lists.\<close>

theorem mysqlKeyAsPGList_routes:
  assumes "mysqlKeyAsPGList opt pf cols ds src = Inr r"
  shows "\<exists>keys ds'. key_fields opt cols (si_keys (spec_of src)) 0 0 [] ds = Inr (keys, ds') \<and>
    length (parts_of (kw_spec r)) = length (parts_of src) \<and>
    (\<forall>\<rho>. list_all (null_allowed \<rho>) keys \<longrightarrow>
      (\<exists>v. pg_value \<rho> (kw_expression r) = Inr (Some v) \<and>
        (\<forall>i<length (parts_of src). holds_in_list (parts_of (kw_spec r) ! i) v \<longleftrightarrow>
          list_all (in_domain \<rho>) keys \<and>
          int i = mysql_key_bucket (is_linear_key src) (length (parts_of src)) (mysql_key_hash (is_simple_hash src) (stored_cells \<rho> keys)))))"
proof -
  define n linear where "n = length (parts_of src)" and "linear = is_linear_key src"
  obtain keys ds' qs m where k: "key_fields opt cols (si_keys (spec_of src)) 0 0 [] ds = Inr (keys, ds')" "0 < n"
      "m = (if linear then double_to n 1 else n)" "hash_partitions True n 0 (parts_of src) = Inr qs"
      "parts_of (kw_spec r) = foldl (add_value (key_bucket n m)) qs [0..int m - 1]"
      "kw_expression r = key_expression linear (is_simple_hash src) m keys"
    using mysqlKeyAsPGList_parts [OF assms] unfolding n_def linear_def by metis
  obtain e where e: "double_to n 1 = 2 ^ e" "n \<le> 2 ^ e" "e = 0 \<or> 2 ^ (e - 1) < n"
    using double_to_power [of 1 0 n] by auto
  have m: "0 < m" using k(2,3) e(1) by simp
  have bucket: "0 \<le> key_bucket n m v \<and> key_bucket n m v < int n" if "0 \<le> v" "v < int m" for v
    using key_bucket_values(2) [OF k(2) e(1,3), of v] that k(3) e(1) by (auto simp: key_bucket_def split: if_splits)
  have residue: "0 \<le> key_residue linear m h \<and> key_residue linear m h < int m \<and>
      key_bucket n m (key_residue linear m h) = mysql_key_bucket linear n h" if "0 \<le> h" for h
  proof (cases linear)
    case True
    then have "int m = 2 ^ e" "m = 2 ^ e" using k(3) e(1) by simp_all
    then show ?thesis using key_bucket_values(1) [OF k(2) e(1,3) True that] True by (simp add: key_residue_def int_mask)
  next
    case False
    have lt: "h mod int n < int n" using k(2) by simp
    have "key_bucket n n (h mod int n) = h mod int n" unfolding key_bucket_def by (rule if_not_P) (use lt in linarith)
    then show ?thesis using False k(2,3) by (simp add: key_residue_def mysql_key_bucket_def)
  qed
  have width: "sum_list (map gk_width keys) \<le> 300" using key_fields_width [OF k(1)] by simp
  have lists: "length (parts_of (kw_spec r)) = n \<and> (holds_in_list (parts_of (kw_spec r) ! i) v \<longleftrightarrow> 0 \<le> v \<and> v < int m \<and> key_bucket n m v = int i)"
    if "i < n" for i v
    using key_lists [OF k(4) n_def that, of m "key_bucket n m"] bucket unfolding k(5) by simp
  show ?thesis
  proof (intro exI conjI allI impI)
    show "key_fields opt cols (si_keys (spec_of src)) 0 0 [] ds = Inr (keys, ds')" by (rule k(1))
    show "length (parts_of (kw_spec r)) = length (parts_of src)" using lists [OF k(2)] by (simp add: n_def)
    fix \<rho> assume nulls: "list_all (null_allowed \<rho>) keys"
    let ?h = "mysql_key_hash (is_simple_hash src) (stored_cells \<rho> keys)"
    show "pg_value \<rho> (kw_expression r) = Inr (Some (if list_all (in_domain \<rho>) keys then key_residue linear m ?h else -1))"
      unfolding k(6) using key_expression_value [OF nulls width m] by simp
    fix i assume "i < length (parts_of src)"
    then have i: "i < n" by (simp add: n_def)
    show "holds_in_list (parts_of (kw_spec r) ! i) (if list_all (in_domain \<rho>) keys then key_residue linear m ?h else -1) \<longleftrightarrow>
        list_all (in_domain \<rho>) keys \<and> int i = mysql_key_bucket (is_linear_key src) (length (parts_of src)) ?h"
      using lists [OF i, of "key_residue linear m ?h"] lists [OF i, of "-1"] residue [OF hash_range, of "is_simple_hash src" "stored_cells \<rho> keys"]
      unfolding n_def [symmetric] linear_def [symmetric] by (cases "list_all (in_domain \<rho>) keys") auto
  qed
qed

definition key_profile :: profile where
  "key_profile = demo_profile\<lparr>pf_features := set [''postgres_declarative'', ''expression_keys'', ''native_list'']\<rparr>"

definition tiny_column :: ColumnInfo where
  "tiny_column = zero_column\<lparr>ci_Name := ''id'', ci_DataType := ''tinyint'', ci_FormattedType := ''tinyint(4)'', ci_IsNullable := True\<rparr>"

definition demo_key :: partition_spec where
  "demo_key = Spec (zero_spec\<lparr>si_method := ''LINEAR KEY'', si_algorithm := ''mysql-key-innodb-1:8.0.36'',
       si_keys := [\<lparr>pk_column = ''id'', pk_expression = [], pk_data_type = ''tinyint'', pk_collation = []\<rparr>]\<rparr>)
     (map (\<lambda>i. Part (zero_partition\<lparr>pi_name := itoa i, pi_modulus := 3, pi_remainder := i\<rparr>) None) [0, 1, 2])"

definition tiny_key :: pg_key where
  "tiny_key = \<lparr>gk_column = [CHR 0x22] @ ''id'' @ [CHR 0x22], gk_width = 1, gk_nullable = True, gk_min = -128, gk_max = 127\<rparr>"

lemma demo_key_fields:
  "key_fields demo_options [tiny_column] (si_keys (spec_of demo_key)) 0 0 [] [] =
     Inr ([tiny_key], [\<lparr>kd_column = ''id'', kd_data_type = ''integer'', kd_nullable = True\<rparr>])"
  by code_simp

text \<open>The length of the text, without building it.\<close>

primrec text_size :: "pgx \<Rightarrow> int" and branches_size :: "pgb \<Rightarrow> int" and test_size :: "pgc \<Rightarrow> int" where
  "text_size (Big n) = (if \<bar>n\<bar> < 10 ^ 10 then 29 else int (length (itoa n)) + 18)"
| "text_size (Lit n) = int (length (itoa (int n)))"
| "text_size (Val c) = int (length c) + 16"
| "text_size (Bin f a b) = int (length f) + text_size a + text_size b + 14"
| "text_size (Weight b) = text_size b + 600"
| "text_size (Case bs) = branches_size bs + 9"
| "branches_size (When c a bs) = test_size c + text_size a + branches_size bs + 12"
| "branches_size (Else a) = text_size a + 5"
| "test_size (Cmp f a b) = int (length f) + text_size a + text_size b + 14"
| "test_size (IsNull c) = int (length c) + 8"

lemma length_weights_hex: "length weights_hex = 512"
  by (simp add: weights_hex_def)

lemma length_nat_digits: "n < 10 ^ Suc k \<Longrightarrow> length (nat_digits n) \<le> Suc k"
proof (induction n arbitrary: k rule: nat_digits.induct)
  case (1 n)
  show ?case
  proof (cases "n < 10")
    case False
    then obtain j where k: "k = Suc j" using 1(2) by (cases k) auto
    then have "length (nat_digits (n div 10)) \<le> Suc j" using 1(1) [OF False, of j] 1(2) by simp
    then show ?thesis using False k by (subst nat_digits.simps) simp
  qed (subst nat_digits.simps, simp)
qed

lemma length_itoa: "\<bar>n\<bar> < 10 ^ 10 \<Longrightarrow> length (itoa n) \<le> 11"
  using length_nat_digits [of "nat n" 9] length_nat_digits [of "nat (- n)" 9]
  by (cases "n < 0") (simp_all add: itoa_def nat_less_iff)

lemma text_size_bounds:
  "int (length (pg_text e)) \<le> text_size e" "int (length (pg_branches bs)) \<le> branches_size bs" "int (length (pg_test c)) \<le> test_size c"
  by (induction e and bs and c) (use length_itoa in \<open>simp_all add: mysqlKeyPGInt_def mysqlKeyPGCall_def length_weights_hex\<close>)

lemma demo_key_ok: "is_ok (mysqlKeyAsPGList demo_options key_profile [tiny_column] [] demo_key)"
proof -
  have "text_size (key_expression True False 4 [tiny_key]) \<le> 5000" by code_simp
  then have "\<not> 512 * 1024 < int (length (''('' @ pg_text (key_expression True False 4 [tiny_key]) @ '')''))"
    using text_size_bounds(1) [of "key_expression True False 4 [tiny_key]"] by simp
  moreover have "is_ok (hash_partitions True 3 0 (parts_of demo_key))" by code_simp
  then obtain qs where "hash_partitions True 3 0 (parts_of demo_key) = Inr qs" by (auto simp: is_ok_def split: sum.splits)
  moreover have "length (parts_of demo_key) = 3" "method_of (si_method (spec_of demo_key)) = ''LINEAR KEY''" "double_to 3 1 = 4"
    "si_algorithm (spec_of demo_key) = ''mysql-key-innodb-1:8.0.36''" "si_keys (spec_of demo_key) \<noteq> []"
    "op_source demo_options = ''mysql''" "op_target demo_options = ''postgres''"
    "pf_features key_profile = set [''postgres_declarative'', ''expression_keys'', ''native_list'']"
    by code_simp+
  ultimately show ?thesis unfolding mysqlKeyAsPGList_def Let_def by (simp add: demo_key_fields)
qed

theorem mysqlKeyAsPGList_routes_witness:
  "\<exists>r v. mysqlKeyAsPGList demo_options key_profile [tiny_column] [] demo_key = Inr r \<and>
    pg_value (\<lambda>_. Some (-5)) (kw_expression r) = Inr (Some v) \<and>
    list_all (\<lambda>i. holds_in_list (parts_of (kw_spec r) ! i) v = (int i = mysql_key_bucket True 3 (mysql_key_hash False [(1, Some (-5))]))) [0, 1, 2]"
proof -
  obtain r where r: "mysqlKeyAsPGList demo_options key_profile [tiny_column] [] demo_key = Inr r"
    using demo_key_ok by (auto simp: is_ok_def split: sum.splits)
  have *: "list_all (null_allowed (\<lambda>_. Some (-5))) [tiny_key]" "list_all (in_domain (\<lambda>_. Some (-5))) [tiny_key]"
    "length (parts_of demo_key) = 3" "is_linear_key demo_key" "\<not> is_simple_hash demo_key"
    "stored_cells (\<lambda>_. Some (-5)) [tiny_key] = [(1, Some (-5))]"
    by code_simp+
  from mysqlKeyAsPGList_routes [OF r] have "\<exists>v. pg_value (\<lambda>_. Some (-5)) (kw_expression r) = Inr (Some v) \<and>
      (\<forall>i<3. holds_in_list (parts_of (kw_spec r) ! i) v \<longleftrightarrow>
        int i = mysql_key_bucket True 3 (mysql_key_hash False [(1, Some (-5))]))"
    unfolding demo_key_fields using * by (auto simp: Let_def)
  with r show ?thesis by auto
qed

end
