(* ===== verification/PartitionMysqlKey.thy ===== *)
theory PartitionMysqlKey
  imports PartitionKey
begin

text \<open>
  MySQL's own KEY partitioning on a MySQL target (\<^verbatim>\<open>partition/key_mysql.go\<close>): the method with its algorithm, the
  storage type and collation of a key column, and the server version (\<^verbatim>\<open>dialect/mysql_pg.go\<close>).
\<close>

section \<open>Server versions\<close>

record mysql_version =
  mv_major :: int
  mv_minor :: int
  mv_patch :: int

datatype native_key_error =
    MariaDb | NoVersion string | UnsupportedVersion string
  | NoVersionIdentity | NotFrozen string
  | ColumnType key_error | CollationOnNumber string | NoCollation string | CollationTooNew string
  | NotMysqlTarget | NoKeyEngine | VersionDiffers string string | NotDirectColumn string | GeneratedColumn string | TypeDiffers string

text \<open>\<open>strconv.Atoi\<close> with its error ignored: on overflow the largest integer.\<close>

definition atoi_saturated :: "string \<Rightarrow> int" where
  "atoi_saturated s = (case parse_int 64 s of None \<Rightarrow> i64_max | Some n \<Rightarrow> n)"

definition version_parts :: "string \<Rightarrow> (string \<times> string \<times> string) option" where
  "version_parts raw =
     (let a = takeWhile is_digit raw; r1 = dropWhile is_digit raw;
          b = takeWhile is_digit (tl r1); r2 = dropWhile is_digit (tl r1);
          c = takeWhile is_digit (tl r2)
      in if a \<noteq> [] \<and> take 1 r1 = ''.'' \<and> b \<noteq> [] \<and> take 1 r2 = ''.'' \<and> c \<noteq> [] then Some (a, b, c) else None)"

definition ParseMySQLVersion :: "string \<Rightarrow> native_key_error + mysql_version" where
  "ParseMySQLVersion raw =
     (if str_contains (to_lower raw) ''mariadb'' then Inl MariaDb
      else
        (case version_parts raw of
           None \<Rightarrow> Inl (NoVersion raw)
         | Some (a, b, c) \<Rightarrow>
             let v = \<lparr>mv_major = atoi_saturated a, mv_minor = atoi_saturated b, mv_patch = atoi_saturated c\<rparr> in
             if (mv_major v = 5 \<and> mv_minor v = 7) \<or> (mv_major v = 8 \<and> mv_minor v = 0) then Inr v
             else Inl (UnsupportedVersion raw)))"

section \<open>The method and the columns\<close>

text \<open>\<open>strings.Cut(s, ":")\<close>.\<close>

definition cut_colon :: "string \<Rightarrow> string \<times> string \<times> bool" where
  "cut_colon s =
     (let a = takeWhile (\<lambda>c. c \<noteq> CHR '':'') s; b = dropWhile (\<lambda>c. c \<noteq> CHR '':'') s in
      if b = [] then (s, [], False) else (a, tl b, True))"

definition mysqlKeyMethodSQL :: "spec_info \<Rightarrow> native_key_error + string" where
  "mysqlKeyMethodSQL si =
     (let m = method_of (si_method si) in
      if m \<noteq> ''KEY'' \<and> m \<noteq> ''LINEAR KEY'' then Inr m
      else
        (case cut_colon (si_algorithm si) of (identity, version, ok) \<Rightarrow>
           if \<not> ok \<or> \<not> is_ok (ParseMySQLVersion version) then Inl NoVersionIdentity
           else if identity = ''mysql-key-innodb-1'' then Inr (m @ '' ALGORITHM = 1'')
           else if identity = ''mysql-key-innodb-2'' then Inr (m @ '' ALGORITHM = 2'')
           else Inl (NotFrozen (si_algorithm si))))"

definition is_word :: "char \<Rightarrow> bool" where
  "is_word c \<longleftrightarrow> is_lower c \<or> is_digit c"

text \<open>The pattern of a collation: a name that starts with a letter, an underscore, and more.\<close>

definition collation_ok :: "string \<Rightarrow> bool" where
  "collation_ok s \<longleftrightarrow>
     (let a = takeWhile is_word s; r = dropWhile is_word s in
      a \<noteq> [] \<and> is_lower (hd a) \<and> take 1 r = ''_'' \<and> tl r \<noteq> [] \<and> list_all (\<lambda>c. is_word c \<or> c = CHR ''_'') (tl r))"

definition mysqlKeyColumnSQL :: "partition_key \<Rightarrow> string \<Rightarrow> native_key_error + string" where
  "mysqlKeyColumnSQL key version =
     (case canonicalMySQLKeyType (pk_data_type key) of
        Inl e \<Rightarrow> Inl (ColumnType e)
      | Inr typ \<Rightarrow>
          let decl = to_lower (str_join '' '' (str_fields (pk_data_type key))); coll = pk_collation key in
          if \<not> (has_prefix typ ''char('' \<or> has_prefix typ ''varchar('')
          then (if coll \<noteq> [] then Inl (CollationOnNumber (pk_column key)) else Inr decl)
          else if \<not> collation_ok coll then Inl (NoCollation (pk_column key))
          else if has_prefix version ''5.7.'' \<and> (str_contains coll ''_0900_'' \<or> has_prefix coll ''utf8mb3_'')
          then Inl (CollationTooNew coll)
          else Inr (decl @ '' CHARACTER SET '' @ takeWhile (\<lambda>c. c \<noteq> CHR ''_'') coll @ '' COLLATE '' @ coll))"

section \<open>The checks before a KEY is kept\<close>

definition native_key_column :: "profile \<Rightarrow> ColumnInfo list \<Rightarrow> partition_key \<Rightarrow> native_key_error + unit" where
  "native_key_column pf cols key =
     (case column_of cols (pk_column key) of
        None \<Rightarrow> Inl (NotDirectColumn (pk_column key))
      | Some col \<Rightarrow>
          if pk_expression key \<noteq> [] then Inl (NotDirectColumn (pk_column key))
          else if ci_Generated col \<noteq> [] \<or> str_contains (to_lower (ci_Extra col)) ''generated'' then Inl (GeneratedColumn (pk_column key))
          else
            (case canonicalMySQLKeyType (pk_data_type key) of
               Inl e \<Rightarrow> Inl (ColumnType e)
             | Inr typ \<Rightarrow>
                 if canonicalMySQLKeyType (if ci_FormattedType col = [] then ci_DataType col else ci_FormattedType col) \<noteq> Inr typ
                 then Inl (TypeDiffers (pk_column key))
                 else bind_res (mysqlKeyColumnSQL key (pf_version pf)) (\<lambda>_. Inr ())))"

definition version_text :: "mysql_version \<Rightarrow> string" where
  "version_text v = itoa (mv_major v) @ ''.'' @ itoa (mv_minor v) @ ''.'' @ itoa (mv_patch v)"

definition native_key_checks :: "options \<Rightarrow> profile \<Rightarrow> ColumnInfo list \<Rightarrow> spec_info \<Rightarrow> native_key_error + unit" where
  "native_key_checks opt pf cols si =
     (if op_source opt \<noteq> ''mysql'' \<or> op_target opt \<noteq> ''mysql'' then Inl NotMysqlTarget
      else if ''inline_mysql'' \<notin> pf_features pf \<or> ''mysql_key_innodb'' \<notin> pf_features pf then Inl NoKeyEngine
      else
        bind_res (ParseMySQLVersion (pf_version pf)) (\<lambda>v.
        bind_res (mysqlKeyMethodSQL si) (\<lambda>_.
          let source = fst (snd (cut_colon (si_algorithm si))) in
          if source \<noteq> version_text v then Inl (VersionDiffers source (pf_version pf))
          else each_res (native_key_column pf cols) (si_keys si))))"

end
