(* ===== verification/PartitionCompile.thy ===== *)
theory PartitionCompile
  imports PartitionMysqlKey
begin

text \<open>
  The preparation of a topology for the target (\<^verbatim>\<open>partition/compile.go\<close>): every rewrite, every refusal, the
  names of the target and the mapping of source leaves to target leaves. \<open>prepare\<close> returns the topology the
  Go function writes through \<open>dst\<close>, which is a clone of \<open>src\<close> when it is called; the compiler's fields that it
  changes are a state. The native interval rule (\<^verbatim>\<open>partition/interval.go\<close>, calendar and decimal arithmetic) is
  the argument \<open>ce_interval\<close>: it gives the rule's text or refuses.
\<close>

section \<open>The compiler\<close>

datatype compile_error =
    TooDeep | SourceUnsupported string | RewriteFailed rewrite_error | KeyFailed key_error | NativeKey native_key_error
  | ForeignKeyHash | ForeignLinearHash | MethodNotExact string | FeatureMissing string | EmptyPartition | MultiColumn
  | IntervalFailed | UnknownMovement | MovementDiffers | ForeignHash | HashIdentity | HashAlgorithm
  | KeyColumnMissing string | NoExpressions | BadExpression | TextRouting string | NullRouting string
  | ParentName string | NameClash string | NoDefault | BadPartition string partition_error | InvalidName partition_error
  | OpenLower string | ClosedUpper string | LeadingGap | RangeGap string | NoSubpartitions | TwoLevels | LeafClash string | TwoDefaults

record prep_state =
  ps_names :: "string list"
  ps_leaves :: "string list"
  ps_rules :: "string list"
  ps_domains :: "key_domain list"
  ps_mapping :: "leaf_mapping list"

record compile_env =
  ce_uni :: "string \<Rightarrow> rune_info"
  ce_dec :: "string \<Rightarrow> string option"
  ce_opt :: options
  ce_table :: string
  ce_cols :: "ColumnInfo list"
  ce_interval :: "partition_spec \<Rightarrow> nat \<Rightarrow> string option"

definition lift_error :: "('a \<Rightarrow> compile_error) \<Rightarrow> 'a + 'b \<Rightarrow> compile_error + 'b" where
  "lift_error f r = (case r of Inl e \<Rightarrow> Inl (f e) | Inr x \<Rightarrow> Inr x)"

definition check :: "bool \<Rightarrow> compile_error \<Rightarrow> compile_error + unit" where
  "check b e = (if b then Inr () else Inl e)"

section \<open>Keys\<close>

definition column_nullable :: "compile_env \<Rightarrow> profile \<Rightarrow> partition_key \<Rightarrow> bool" where
  "column_nullable ce pf k =
     (if pk_column k = [] then
        (case integerExpression (ce_uni ce) (ce_opt ce) pf (ce_cols ce) (pk_expression k) of Inl _ \<Rightarrow> True | Inr n \<Rightarrow> ir_nullable n)
      else (case column_of (ce_cols ce) (pk_column k) of None \<Rightarrow> True | Some col \<Rightarrow> ci_IsNullable col))"

definition textKey :: "compile_env \<Rightarrow> partition_key \<Rightarrow> bool" where
  "textKey ce k =
     (let dt = to_lower (case column_of (ce_cols ce) (pk_column k) of None \<Rightarrow> pk_data_type k | Some col \<Rightarrow> ci_DataType col) in
      list_ex (str_contains dt) [''char'', ''text'', ''enum'', ''set''])"

definition IsPGFamily :: "string \<Rightarrow> bool" where
  "IsPGFamily s \<longleftrightarrow> s \<in> set [''postgres'', ''gaussdb'', ''highgo'', ''vastbase'', ''gbase'', ''seabox'', ''kingbase'']"

definition sameNullRange :: "options \<Rightarrow> profile \<Rightarrow> bool" where
  "sameNullRange opt pf \<longleftrightarrow>
     op_source opt = op_target opt \<or>
     (op_source opt = ''sqlserver'' \<and> op_target opt = ''mysql'') \<or>
     (IsPGFamily (op_source opt) \<and> ''postgres_declarative'' \<in> pf_features pf) \<or>
     (op_source opt \<in> set [''oracle'', ''dameng''] \<and> op_target opt \<in> set [''oracle'', ''dameng'', ''oscar''])"

fun strip_parens :: "token list \<Rightarrow> token list" where
  "strip_parens [] = []"
| "strip_parens (t # ts) =
     (if 2 \<le> length ts \<and> tk_text t = ''('' \<and> tk_text (last ts) = '')'' then strip_parens (butlast ts) else t # ts)"

definition is_name :: "token \<Rightarrow> bool" where
  "is_name t \<longleftrightarrow> tk_kind t = TQuoted \<or> tk_kind t = TIdent"

definition date_function :: "compile_env \<Rightarrow> profile \<Rightarrow> token \<Rightarrow> token \<Rightarrow> compile_error + string" where
  "date_function ce pf f a =
     (case column_of (ce_cols ce) (tk_value a) of
        None \<Rightarrow> Inl BadExpression
      | Some col \<Rightarrow>
          let fn = to_upper (tk_value f); key = sql_quote (op_target (ce_opt ce)) (op_column_name (ce_opt ce) (ci_Name col));
              part = (if fn = ''DAYOFMONTH'' then ''DAY'' else fn)
          in if fn \<in> set [''YEAR'', ''MONTH'', ''DAY'', ''DAYOFMONTH''] then
               (if to_lower (ci_DataType col) \<noteq> ''date'' \<and> to_lower (ci_DataType col) \<noteq> ''datetime'' then Inl BadExpression
                else if op_target (ce_opt ce) = ''mysql'' then Inr (part @ ''('' @ key @ '')'')
                else if ''postgres_declarative'' \<in> pf_features pf then Inr (''(EXTRACT('' @ part @ '' FROM '' @ key @ ''))'')
                else Inl BadExpression)
             else Inl BadExpression)"

definition key_expression_sql :: "compile_env \<Rightarrow> profile \<Rightarrow> string \<Rightarrow> compile_error + string" where
  "key_expression_sql ce pf raw =
     (case integerExpression (ce_uni ce) (ce_opt ce) pf (ce_cols ce) raw of
        Inr n \<Rightarrow> Inr (''('' @ ir_sql n @ '')'')
      | Inl _ \<Rightarrow>
          (case lex (ce_uni ce) raw of
             Inl _ \<Rightarrow> Inl BadExpression
           | Inr ts0 \<Rightarrow>
               let ts = strip_parens ts0 in
               if length ts = 1 \<and> is_name (ts ! 0) \<and> column_of (ce_cols ce) (tk_value (ts ! 0)) \<noteq> None
               then Inr (sql_quote (op_target (ce_opt ce)) (op_column_name (ce_opt ce) (tk_value (ts ! 0))))
               else if op_source (ce_opt ce) = ''mysql'' \<and> length ts = 4 \<and> tk_kind (ts ! 0) = TIdent \<and> tk_text (ts ! 1) = ''('' \<and>
                  is_name (ts ! 2) \<and> tk_text (ts ! 3) = '')''
               then date_function ce pf (ts ! 0) (ts ! 2)
               else Inl BadExpression))"

definition prepare_key :: "compile_env \<Rightarrow> profile \<Rightarrow> string \<Rightarrow> partition_key \<Rightarrow> compile_error + partition_key" where
  "prepare_key ce pf b k =
     (let opt = ce_opt ce in
      bind_res
        (if pk_column k \<noteq> [] then
           (if column_of (ce_cols ce) (pk_column k) = None then Inl (KeyColumnMissing (pk_column k))
            else
              let name = op_column_name opt (pk_column k) in
              bind_res (lift_error InvalidName (validateName opt name)) (\<lambda>_. Inr (k\<lparr>pk_column := name, pk_expression := []\<rparr>)))
         else if ''expression_keys'' \<notin> pf_features pf then Inl NoExpressions
         else bind_res (key_expression_sql ce pf (pk_expression k)) (\<lambda>e. Inr (k\<lparr>pk_expression := e\<rparr>)))
        (\<lambda>k'.
          if op_source opt \<noteq> op_target opt \<and> textKey ce k \<and> ''exact_text_collation'' \<notin> pf_features pf then Inl (TextRouting (pk_column k))
          else if b = ''RANGE'' \<and> column_nullable ce pf k \<and> \<not> sameNullRange opt pf then Inl (NullRouting (pk_column k))
          else Inr k'))"

section \<open>Partitions\<close>

definition base_feature :: "string \<Rightarrow> string" where
  "base_feature b = (if b = ''RANGE'' then ''native_range'' else if b = ''LIST'' then ''native_list'' else ''native_hash'')"

definition multi_feature :: "string \<Rightarrow> string" where
  "multi_feature b = (if b = ''RANGE'' then ''multi_column_range'' else if b = ''LIST'' then ''multi_column_list'' else ''multi_column_hash'')"

definition default_ok :: "profile \<Rightarrow> string \<Rightarrow> bool" where
  "default_ok pf b \<longleftrightarrow> (b = ''RANGE'' \<and> ''default_range'' \<in> pf_features pf) \<or> (b = ''LIST'' \<and> ''default_list'' \<in> pf_features pf)"

text \<open>The target's name, schema and ordinal of the partition with index \<open>i\<close>.\<close>

definition target_partition :: "compile_env \<Rightarrow> nat \<Rightarrow> partition_info \<Rightarrow> partition_info" where
  "target_partition ce i p =
     (let opt = ce_opt ce; index = itoa (int i + 1);
          p1 = p\<lparr>pi_name := op_name opt (pi_name p), pi_schema := op_schema opt\<rparr>;
          p2 = (if op_target opt = ''sqlserver'' then p1\<lparr>pi_name := index, pi_ordinal := int i + 1\<rparr> else p1)
      in if pi_name p2 = [] \<and> op_source opt = ''sqlserver''
         then p2\<lparr>pi_name := op_name opt (ce_table ce @ ''_p'' @ index)\<rparr> else p2)"

definition name_key :: "profile \<Rightarrow> partition_info \<Rightarrow> string" where
  "name_key pf d = (if ''postgres_declarative'' \<in> pf_features pf then LeafKey (pi_schema d) (pi_name d) else pi_name d)"

definition take_name :: "compile_env \<Rightarrow> profile \<Rightarrow> partition_info \<Rightarrow> prep_state \<Rightarrow> compile_error + prep_state" where
  "take_name ce pf d st =
     bind_res (lift_error InvalidName (validateName (ce_opt ce) (pi_name d))) (\<lambda>_.
       if ''postgres_declarative'' \<in> pf_features pf \<and> pi_name d = op_name (ce_opt ce) (ce_table ce) then Inl (ParentName (pi_name d))
       else if name_key pf d \<in> set (ps_names st) then Inl (NameClash (name_key pf d))
       else Inr (st\<lparr>ps_names := name_key pf d # ps_names st\<rparr>))"

text \<open>Targets whose ranges are contiguous cannot keep a gap, nor other bounds than half-open ones.\<close>

definition contiguous :: "compile_env \<Rightarrow> partition_spec \<Rightarrow> nat \<Rightarrow> compile_error + unit" where
  "contiguous ce src i =
     (let p = part_of (parts_of src ! i) in
      if \<not> pi_default p \<and> \<not> pi_lower_inclusive p then Inl (OpenLower (pi_name p))
      else if \<not> pi_default p \<and> pi_upper_inclusive p then Inl (ClosedUpper (pi_name p))
      else if i = 0 \<and> \<not> allKind (pi_lower p) ''minvalue'' then Inl LeadingGap
      else if 0 < i \<and> \<not> (si_interval (spec_of src) \<noteq> None \<and> pi_is_interval p) \<and>
         \<not> sameValues (ce_dec ce) (pi_upper (part_of (parts_of src ! (i - 1)))) (pi_lower p) then Inl (RangeGap (pi_name p))
      else Inr ())"

definition take_leaf :: "compile_env \<Rightarrow> partition_info \<Rightarrow> partition_info \<Rightarrow> prep_state \<Rightarrow> compile_error + prep_state" where
  "take_leaf ce p d st =
     (let key = LeafKey (pi_schema d) (pi_name d) in
      if key \<in> set (ps_leaves st) then Inl (LeafClash key)
      else Inr (st\<lparr>ps_leaves := key # ps_leaves st,
             ps_mapping := ps_mapping st @ [\<lparr>lm_source_schema = pi_schema p, lm_source_name = pi_name p, lm_target_schema = pi_schema d,
               lm_target_name = pi_name d, lm_ordinal = (if op_target (ce_opt ce) = ''sqlserver'' then pi_ordinal d else 0)\<rparr>]\<rparr>))"

type_synonym preparation = "partition_spec \<Rightarrow> prep_state \<Rightarrow> compile_error + partition_spec \<times> prep_state"

text \<open>One partition; \<open>sub\<close> prepares its subpartitions.\<close>

definition prepare_part ::
  "compile_env \<Rightarrow> profile \<Rightarrow> nat \<Rightarrow> string \<Rightarrow> preparation \<Rightarrow> partition_spec \<Rightarrow> nat \<Rightarrow> prep_state \<Rightarrow> compile_error + partition \<times> prep_state" where
  "prepare_part ce pf depth b sub src i st =
     (let part = parts_of src ! i; p = part_of part; d = target_partition ce i p in
      bind_res (take_name ce pf d st) (\<lambda>st1.
      bind_res (check (\<not> pi_default p \<or> default_ok pf b) NoDefault) (\<lambda>_.
      bind_res (lift_error (BadPartition (pi_name p)) (validateValues (ce_dec ce) p b (length (si_keys (spec_of src))))) (\<lambda>_.
      bind_res (if b = ''RANGE'' \<and> ''postgres_declarative'' \<notin> pf_features pf \<and> ''native_sqlserver'' \<notin> pf_features pf
                then contiguous ce src i else Inr ()) (\<lambda>_.
        case sub_of part of
          None \<Rightarrow> bind_res (take_leaf ce p d st1) (\<lambda>st2. Inr (Part d None, st2))
        | Some s \<Rightarrow>
            if ''subpartition'' \<notin> pf_features pf then Inl NoSubpartitions
            else if ''postgres_declarative'' \<notin> pf_features pf \<and> 0 < depth then Inl TwoLevels
            else bind_res (sub s st1) (\<lambda>(s', st2). Inr (Part d (Some s'), st2)))))))"

fun prepare_parts ::
  "compile_env \<Rightarrow> profile \<Rightarrow> nat \<Rightarrow> string \<Rightarrow> preparation \<Rightarrow> partition_spec \<Rightarrow> nat list \<Rightarrow> prep_state \<Rightarrow>
   compile_error + partition list \<times> prep_state" where
  "prepare_parts ce pf depth b sub src [] st = Inr ([], st)"
| "prepare_parts ce pf depth b sub src (i # is) st =
     bind_res (prepare_part ce pf depth b sub src i st) (\<lambda>(d, st1).
     bind_res (prepare_parts ce pf depth b sub src is st1) (\<lambda>(ds, st2). Inr (d # ds, st2)))"

section \<open>One level\<close>

definition movement_ok :: "profile \<Rightarrow> nat \<Rightarrow> string \<Rightarrow> compile_error + unit" where
  "movement_ok pf depth m =
     (if depth \<noteq> 0 \<or> m = [] then Inr ()
      else if m \<noteq> ''enabled'' \<and> m \<noteq> ''disabled'' then Inl UnknownMovement
      else if ''row_movement_clause'' \<notin> pf_features pf \<and> (if ''row_movement'' \<in> pf_features pf then ''enabled'' else ''disabled'') \<noteq> m
      then Inl MovementDiffers else Inr ())"

definition hash_identity :: "options \<Rightarrow> spec_info \<Rightarrow> compile_error + unit" where
  "hash_identity opt si =
     (if op_source opt \<noteq> op_target opt then Inl ForeignHash
      else if si_algorithm si = [] then Inl HashIdentity
      else if op_source opt = ''mysql'' \<and>
         si_algorithm si \<noteq> (if method_of (si_method si) = ''LINEAR HASH'' then ''mysql-linear-hash'' else ''mysql-mod'') then Inl HashAlgorithm
      else Inr ())"

text \<open>The target's method and algorithm.\<close>

definition target_method :: "options \<Rightarrow> profile \<Rightarrow> spec_info \<Rightarrow> string \<times> string" where
  "target_method opt pf si =
     (let m = method_of (si_method si); b = baseMethod m;
          m1 = (if m = ''LINEAR HASH'' \<and> op_source opt = ''mysql'' \<and> op_target opt = ''mysql'' then m else b);
          alg = (if ''inline_gauss'' \<in> pf_features pf then ''pg_partition:'' @ op_target opt @ '':'' @ to_lower b else si_algorithm si);
          columns = (''inline_mysql'' \<in> pf_features pf \<and> (has_suffix m '' COLUMNS'' \<or> b = ''RANGE'' \<or> b = ''LIST'') \<and>
             (1 < length (si_keys si) \<or> pk_column (hd (si_keys si)) \<noteq> []))
      in (if columns then b @ '' COLUMNS'' else m1, alg))"

definition default_part :: "partition \<Rightarrow> bool" where
  "default_part p \<longleftrightarrow> pi_default (part_of p)"

definition with_ordinals :: "partition list \<Rightarrow> partition list" where
  "with_ordinals ps = map (\<lambda>(i, p). Part ((part_of p)\<lparr>pi_ordinal := int i + 1\<rparr>) (sub_of p)) (enumerate 0 ps)"

text \<open>Oscar wants the default partition last; the sort is stable.\<close>

definition oscar_order :: "options \<Rightarrow> string \<Rightarrow> partition list \<Rightarrow> compile_error + partition list" where
  "oscar_order opt b ps =
     (if op_target opt \<noteq> ''oscar'' \<or> b \<noteq> ''LIST'' then Inr ps
      else if 1 < length (filter default_part ps) then Inl TwoDefaults
      else Inr (with_ordinals (filter (\<lambda>p. \<not> default_part p) ps @ filter default_part ps)))"

definition interval_rule :: "compile_env \<Rightarrow> partition_spec \<Rightarrow> nat \<Rightarrow> prep_state \<Rightarrow> compile_error + (string \<times> bool) \<times> prep_state" where
  "interval_rule ce src depth st =
     (let si = spec_of src in
      if si_automatic si = [] \<and> si_interval si = None then Inr ((si_automatic si, False), st)
      else
        (case ce_interval ce src depth of
           None \<Rightarrow> Inl IntervalFailed
         | Some rule \<Rightarrow> Inr ((rule, True), st\<lparr>ps_rules := ps_rules st @ [''native-interval-preserve-transition-and-sparse-leaves'']\<rparr>)))"

definition prepare_plain :: "compile_env \<Rightarrow> profile \<Rightarrow> nat \<Rightarrow> preparation \<Rightarrow> preparation" where
  "prepare_plain ce pf depth sub src st =
     (let si = spec_of src; m = method_of (si_method si); b = baseMethod m; opt = ce_opt ce; n = length (parts_of src) in
      bind_res (check (b \<in> set [''RANGE'', ''LIST'', ''HASH'']) (MethodNotExact m)) (\<lambda>_.
      bind_res (check (base_feature b \<in> pf_features pf) (FeatureMissing b)) (\<lambda>_.
      bind_res (check (si_keys si \<noteq> [] \<and> n \<noteq> 0) EmptyPartition) (\<lambda>_.
      bind_res (check (length (si_keys si) \<le> 1 \<or> multi_feature b \<in> pf_features pf) MultiColumn) (\<lambda>_.
      bind_res (interval_rule ce src depth st) (\<lambda>((automatic, renumber), st1).
      bind_res (movement_ok pf depth (si_row_movement si)) (\<lambda>_.
      bind_res (if b = ''HASH'' then hash_identity opt si else Inr ()) (\<lambda>_.
      bind_res (map_res (prepare_key ce pf b) (si_keys si)) (\<lambda>keys.
      bind_res (prepare_parts ce pf depth b sub src [0..<n] st1) (\<lambda>(ps, st2).
      bind_res (oscar_order opt b (if renumber then with_ordinals ps else ps)) (\<lambda>ps'.
        Inr (Spec (si\<lparr>si_method := fst (target_method opt pf si), si_algorithm := snd (target_method opt pf si), si_keys := keys,
                      si_automatic := automatic\<rparr>) ps', st2))))))))))))"

section \<open>The rewrites\<close>

definition multi_hash :: "profile \<Rightarrow> profile" where
  "multi_hash pf = pf\<lparr>pf_features := insert ''multi_column_hash'' (pf_features pf)\<rparr>"

definition add_rule :: "string \<Rightarrow> prep_state \<Rightarrow> prep_state" where
  "add_rule rule st = st\<lparr>ps_rules := ps_rules st @ [rule]\<rparr>"

definition with_keys :: "partition_key list \<Rightarrow> partition_spec \<Rightarrow> partition_spec" where
  "with_keys ks s = Spec ((spec_of s)\<lparr>si_keys := ks\<rparr>) (parts_of s)"

definition prepareMySQLKey :: "compile_env \<Rightarrow> profile \<Rightarrow> (profile \<Rightarrow> preparation) \<Rightarrow> preparation" where
  "prepareMySQLKey ce pf plain src st =
     (let opt = ce_opt ce; si = spec_of src in
      if op_source opt = ''mysql'' \<and> op_target opt = ''postgres'' then
        bind_res (lift_error KeyFailed (mysqlKeyAsPGList opt pf (ce_cols ce) (ps_domains st) src)) (\<lambda>kw.
        bind_res (plain pf (kw_spec kw) (st\<lparr>ps_domains := kw_domains kw\<rparr>)) (\<lambda>(dst, st1).
          Inr (with_keys [\<lparr>pk_column = [], pk_expression = ''('' @ pg_text (kw_expression kw) @ '')'', pk_data_type = ''bigint'', pk_collation = []\<rparr>] dst,
               add_rule ''mysql-innodb-key-bytes-to-native-list'' st1)))
      else
        bind_res (lift_error NativeKey (native_key_checks opt pf (ce_cols ce) si)) (\<lambda>_.
        bind_res (plain (multi_hash pf) (Spec (si\<lparr>si_method := ''HASH'', si_algorithm := ''mysql-mod''\<rparr>) (parts_of src)) st) (\<lambda>(dst, st1).
          Inr (Spec ((spec_of dst)\<lparr>si_method := method_of (si_method si), si_algorithm := si_algorithm si\<rparr>) (parts_of dst),
               add_rule ''mysql-innodb-native-key-algorithm'' st1))))"

text \<open>Seven levels below the root; the rewritten topologies are prepared as they stand, at the same depth.\<close>

fun prepare :: "nat \<Rightarrow> compile_env \<Rightarrow> profile \<Rightarrow> nat \<Rightarrow> preparation" where
  "prepare 0 ce pf depth src st = Inl TooDeep"
| "prepare (Suc levels) ce pf depth src st =
     (let si = spec_of src; opt = ce_opt ce; m = method_of (si_method si); b = baseMethod m;
          plain = (\<lambda>pf. prepare_plain ce pf depth (prepare levels ce pf (depth + 1))) in
      if si_unsupported si \<noteq> [] then Inl (SourceUnsupported (si_unsupported si))
      else if m = ''KEY'' \<or> m = ''LINEAR KEY'' then prepareMySQLKey ce pf plain src st
      else
        bind_res (if b = ''RANGE'' \<and> op_source opt = ''sqlserver'' \<and> ''native_sqlserver'' \<notin> pf_features pf
                  then lift_error RewriteFailed (sqlServerRangeLeft (ce_dec ce) (ce_cols ce) src) else Inr None) (\<lambda>left.
          case left of
            Some normal \<Rightarrow>
              bind_res (plain pf normal st) (\<lambda>(dst, st1). Inr (dst, add_rule ''sqlserver-integer-range-left-to-half-open'' st1))
          | None \<Rightarrow>
              if m = ''LINEAR HASH'' \<and> op_source opt \<noteq> ''mysql'' then Inl ForeignLinearHash
              else if b = ''HASH'' \<and> op_source opt = ''mysql'' \<and> op_target opt \<noteq> ''mysql'' \<and> ''postgres_declarative'' \<in> pf_features pf
              then
                bind_res (lift_error RewriteFailed (mysqlHashAsList (ce_uni ce) opt pf (ce_cols ce) src)) (\<lambda>lw.
                bind_res (plain pf (lw_spec lw) st) (\<lambda>(dst, st1). Inr (with_keys (lw_keys lw) dst, add_rule (lw_rule lw) st1)))
              else plain pf src st))"

definition empty_state :: prep_state where
  "empty_state = \<lparr>ps_names = [], ps_leaves = [], ps_rules = [], ps_domains = [], ps_mapping = []\<rparr>"

definition prepare_root :: "compile_env \<Rightarrow> profile \<Rightarrow> partition_spec \<Rightarrow> compile_error + partition_spec \<times> prep_state" where
  "prepare_root ce pf src = prepare 8 ce pf 0 src empty_state"

end
