(* ===== verification/PartitionLeaves.thy ===== *)
theory PartitionLeaves
  imports PartitionCompile "HOL-Library.Multiset"
begin

text \<open>
  No leaf is lost, invented or merged by the preparation of a topology: an invariant of the compiler's state
  (the leaf names taken so far are those of the mapping, without repetition) and a relation between a
  topology and its preparation, kept by every step.
\<close>

section \<open>The relation\<close>

definition source_key :: "leaf_mapping \<Rightarrow> string" where
  "source_key m = LeafKey (lm_source_schema m) (lm_source_name m)"

definition target_key :: "leaf_mapping \<Rightarrow> string" where
  "target_key m = LeafKey (lm_target_schema m) (lm_target_name m)"

definition leaves_ok :: "prep_state \<Rightarrow> bool" where
  "leaves_ok st \<longleftrightarrow> ps_leaves st = rev (map target_key (ps_mapping st)) \<and> distinct (map target_key (ps_mapping st))"

definition maps_leaves :: "options \<Rightarrow> string list \<Rightarrow> string list \<Rightarrow> prep_state \<Rightarrow> prep_state \<Rightarrow> bool" where
  "maps_leaves opt ss ts st st' \<longleftrightarrow>
     (\<exists>new. ps_mapping st' = ps_mapping st @ new \<and> map source_key new = ss \<and> mset (map target_key new) = mset ts \<and>
        list_all (\<lambda>m. name_ok (op_target opt) (lm_target_name m)) new) \<and> (leaves_ok st \<longrightarrow> leaves_ok st')"

definition leafwise :: "options \<Rightarrow> preparation \<Rightarrow> bool" where
  "leafwise opt f \<longleftrightarrow> (\<forall>s st d st'. f s st = Inr (d, st') \<longrightarrow> maps_leaves opt (LeafNames s) (LeafNames d) st st')"

lemma maps_refl: "ps_mapping st' = ps_mapping st \<Longrightarrow> ps_leaves st' = ps_leaves st \<Longrightarrow> maps_leaves opt [] [] st st'"
  by (simp add: maps_leaves_def leaves_ok_def)

lemma maps_trans:
  assumes "maps_leaves opt ss ts st st1" "maps_leaves opt ss' ts' st1 st2"
  shows "maps_leaves opt (ss @ ss') (ts @ ts') st st2"
proof -
  obtain a where a: "ps_mapping st1 = ps_mapping st @ a" "map source_key a = ss" "mset (map target_key a) = mset ts"
      "list_all (\<lambda>m. name_ok (op_target opt) (lm_target_name m)) a"
    using assms(1) by (auto simp: maps_leaves_def)
  obtain b where b: "ps_mapping st2 = ps_mapping st1 @ b" "map source_key b = ss'" "mset (map target_key b) = mset ts'"
      "list_all (\<lambda>m. name_ok (op_target opt) (lm_target_name m)) b"
    using assms(2) by (auto simp: maps_leaves_def)
  have "ps_mapping st2 = ps_mapping st @ (a @ b) \<and> map source_key (a @ b) = ss @ ss' \<and>
      mset (map target_key (a @ b)) = mset (ts @ ts') \<and> list_all (\<lambda>m. name_ok (op_target opt) (lm_target_name m)) (a @ b)"
    using a b by simp
  then show ?thesis using assms unfolding maps_leaves_def by blast
qed

lemma maps_perm: "maps_leaves opt ss ts st st' \<Longrightarrow> mset ts' = mset ts \<Longrightarrow> maps_leaves opt ss ts' st st'"
  by (simp add: maps_leaves_def)

lemma maps_after:
  "maps_leaves opt ss ts st st1 \<Longrightarrow> ps_mapping st2 = ps_mapping st1 \<Longrightarrow> ps_leaves st2 = ps_leaves st1 \<Longrightarrow> maps_leaves opt ss ts st st2"
  using maps_trans [OF _ maps_refl, of opt ss ts st st1 st2] by simp

lemma maps_before:
  "maps_leaves opt ss ts st1 st2 \<Longrightarrow> ps_mapping st1 = ps_mapping st \<Longrightarrow> ps_leaves st1 = ps_leaves st \<Longrightarrow> maps_leaves opt ss ts st st2"
  using maps_trans [OF maps_refl, of st1 st opt ss ts st2] by simp

section \<open>Partitions\<close>

lemma bind_pair: "bind_res r (\<lambda>(a, b). f a b) = Inr y \<longleftrightarrow> (\<exists>a b. r = Inr (a, b) \<and> f a b = Inr y)"
  by (auto simp: bind_res_Inr_iff)

lemma bind_triple: "bind_res r (\<lambda>((a, b), c). f a b c) = Inr y \<longleftrightarrow> (\<exists>a b c. r = Inr ((a, b), c) \<and> f a b c = Inr y)"
  by (auto simp: bind_res_Inr_iff)

lemma bind_unit: "bind_res r (\<lambda>_. q) = Inr y \<longleftrightarrow> (\<exists>x. r = Inr x) \<and> q = Inr y"
  by (auto simp: bind_res_Inr_iff)

lemma lift_error_Inr: "lift_error f r = Inr x \<longleftrightarrow> r = Inr x"
  by (cases r) (simp_all add: lift_error_def)

lemma take_name_state:
  assumes "take_name ce pf d st = Inr st1"
  shows "ps_mapping st1 = ps_mapping st" "ps_leaves st1 = ps_leaves st" "name_ok (op_target (ce_opt ce)) (pi_name d)"
  using assms by (auto simp: take_name_def bind_res_Inr_iff lift_error_Inr validateName_def split: if_splits)

lemma take_leaf_maps:
  assumes "take_leaf ce p d st = Inr st'" "name_ok (op_target (ce_opt ce)) (pi_name d)"
  shows "maps_leaves (ce_opt ce) [LeafKey (pi_schema p) (pi_name p)] [LeafKey (pi_schema d) (pi_name d)] st st'"
proof -
  let ?m = "\<lparr>lm_source_schema = pi_schema p, lm_source_name = pi_name p, lm_target_schema = pi_schema d,
      lm_target_name = pi_name d, lm_ordinal = (if op_target (ce_opt ce) = ''sqlserver'' then pi_ordinal d else 0)\<rparr>"
  have st': "LeafKey (pi_schema d) (pi_name d) \<notin> set (ps_leaves st)"
      "st' = st\<lparr>ps_leaves := LeafKey (pi_schema d) (pi_name d) # ps_leaves st, ps_mapping := ps_mapping st @ [?m]\<rparr>"
    using assms(1) by (auto simp: take_leaf_def Let_def split: if_splits)
  have "ps_mapping st' = ps_mapping st @ [?m] \<and> map source_key [?m] = [LeafKey (pi_schema p) (pi_name p)] \<and>
      mset (map target_key [?m]) = mset [LeafKey (pi_schema d) (pi_name d)] \<and>
      list_all (\<lambda>m. name_ok (op_target (ce_opt ce)) (lm_target_name m)) [?m]"
    using assms(2) by (simp add: st'(2) source_key_def target_key_def)
  moreover have "leaves_ok st'" if ok: "leaves_ok st"
  proof -
    have key: "target_key ?m = LeafKey (pi_schema d) (pi_name d)" by (simp add: target_key_def)
    have "set (ps_leaves st) = set (map target_key (ps_mapping st))" using ok by (simp add: leaves_ok_def)
    then have "target_key ?m \<notin> set (map target_key (ps_mapping st))" using st'(1) key by simp
    then show ?thesis using ok by (simp add: leaves_ok_def st'(2) key)
  qed
  ultimately show ?thesis unfolding maps_leaves_def by (intro conjI impI exI [of _ "[?m]"]) simp_all
qed

lemma prepare_part_maps:
  assumes "leafwise (ce_opt ce) sub" "prepare_part ce pf depth b sub src i st = Inr (d, st')"
  shows "maps_leaves (ce_opt ce) (leaf_names_of (parts_of src ! i)) (leaf_names_of d) st st'"
proof -
  let ?p = "part_of (parts_of src ! i)" and ?d = "target_partition ce i (part_of (parts_of src ! i))"
  obtain st1 where st1: "take_name ce pf ?d st = Inr st1"
      and rest: "(case sub_of (parts_of src ! i) of
          None \<Rightarrow> bind_res (take_leaf ce ?p ?d st1) (\<lambda>st2. Inr (Part ?d None, st2))
        | Some s \<Rightarrow>
            if ''subpartition'' \<notin> pf_features pf then Inl NoSubpartitions
            else if ''postgres_declarative'' \<notin> pf_features pf \<and> 0 < depth then Inl TwoLevels
            else bind_res (sub s st1) (\<lambda>(s', st2). Inr (Part ?d (Some s'), st2))) = Inr (d, st')"
    using assms(2) unfolding prepare_part_def Let_def bind_res_Inr_iff by auto
  note N = take_name_state [OF st1]
  have src: "parts_of src ! i = Part ?p (sub_of (parts_of src ! i))" by simp
  show ?thesis
  proof (cases "sub_of (parts_of src ! i)")
    case None
    with rest obtain "take_leaf ce ?p ?d st1 = Inr st'" "d = Part ?d None"
      by (auto simp: bind_res_Inr_iff)
    from maps_before [OF take_leaf_maps [OF this(1) N(3)] N(1,2)] this(2) show ?thesis
      by (subst src) (simp add: None)
  next
    case (Some s)
    with rest obtain s' where s': "sub s st1 = Inr (s', st')" "d = Part ?d (Some s')"
      by (auto simp: bind_res_Inr_iff split: if_splits)
    then have "maps_leaves (ce_opt ce) (LeafNames s) (LeafNames s') st1 st'" using assms(1) by (simp add: leafwise_def)
    from maps_before [OF this N(1,2)] s'(2) show ?thesis by (subst src) (simp add: Some)
  qed
qed

lemma prepare_parts_maps:
  assumes "leafwise (ce_opt ce) sub" "prepare_parts ce pf depth b sub src is st = Inr (ds, st')"
  shows "maps_leaves (ce_opt ce) (concat (map (\<lambda>i. leaf_names_of (parts_of src ! i)) is)) (concat (map leaf_names_of ds)) st st'"
  using assms(2)
proof (induction "is" arbitrary: ds st)
  case Nil
  then show ?case by (simp add: maps_refl)
next
  case (Cons i "is")
  then obtain d st1 ds' where "prepare_part ce pf depth b sub src i st = Inr (d, st1)"
      "prepare_parts ce pf depth b sub src is st1 = Inr (ds', st')" "ds = d # ds'"
    by (auto simp: bind_res_Inr_iff)
  then show ?case using maps_trans [OF prepare_part_maps [OF assms(1)] Cons.IH] by simp
qed

section \<open>Levels\<close>

lemma leaf_names_ordinals: "concat (map leaf_names_of (with_ordinals ps)) = concat (map leaf_names_of ps)"
proof -
  have "leaf_names_of (Part ((part_of p)\<lparr>pi_ordinal := n\<rparr>) (sub_of p)) = leaf_names_of p" for p n
  proof (cases p)
    case (Part q s)
    then show ?thesis by (cases s) simp_all
  qed
  then have "map leaf_names_of (with_ordinals ps) = map leaf_names_of ps"
    by (intro nth_equalityI) (simp_all add: with_ordinals_def nth_enumerate_eq)
  then show ?thesis by simp
qed

lemma oscar_order_leaves:
  assumes "oscar_order opt b ps = Inr qs"
  shows "mset (concat (map leaf_names_of qs)) = mset (concat (map leaf_names_of ps))"
proof -
  have "mset (concat (map f (filter (\<lambda>p. \<not> P p) ps))) + mset (concat (map f (filter P ps))) = mset (concat (map f ps))"
    for P :: "partition \<Rightarrow> bool" and f :: "partition \<Rightarrow> string list"
    by (induction ps) auto
  then show ?thesis using assms by (auto simp: oscar_order_def leaf_names_ordinals split: if_splits)
qed

lemma LeafNames_parts: "LeafNames s = concat (map leaf_names_of (parts_of s))"
  by (cases s) simp

lemma map_nth_all: "map (\<lambda>i. f (xs ! i)) [0..<length xs] = map f xs"
  by (rule nth_equalityI) simp_all

lemma prepare_plain_leafwise:
  assumes "leafwise (ce_opt ce) sub"
  shows "leafwise (ce_opt ce) (prepare_plain ce pf depth sub)"
  unfolding leafwise_def
proof (intro allI impI)
  fix src st d st'
  assume "prepare_plain ce pf depth sub src st = Inr (d, st')"
  then obtain automatic renumber st1 ps qs where
      i: "interval_rule ce src depth st = Inr ((automatic, renumber), st1)"
      and ps: "prepare_parts ce pf depth (baseMethod (method_of (si_method (spec_of src)))) sub src [0..<length (parts_of src)] st1 = Inr (ps, st')"
      and qs: "oscar_order (ce_opt ce) (baseMethod (method_of (si_method (spec_of src)))) (if renumber then with_ordinals ps else ps) = Inr qs"
      and d: "parts_of d = qs"
    unfolding prepare_plain_def Let_def bind_triple bind_pair bind_unit by (elim exE conjE) (auto simp: bind_res_Inr_iff bind_pair)
  have "ps_mapping st1 = ps_mapping st" "ps_leaves st1 = ps_leaves st"
    using i by (auto simp: interval_rule_def Let_def split: if_splits option.splits)
  from maps_before [OF prepare_parts_maps [OF assms ps] this]
  have "maps_leaves (ce_opt ce) (LeafNames src) (concat (map leaf_names_of ps)) st st'"
    by (simp add: LeafNames_parts map_nth_all)
  then show "maps_leaves (ce_opt ce) (LeafNames src) (LeafNames d) st st'"
    by (rule maps_perm) (use oscar_order_leaves [OF qs] in \<open>simp add: LeafNames_parts d leaf_names_ordinals split: if_splits\<close>)
qed

section \<open>Rewrites keep the leaves\<close>

definition same_leaf :: "partition \<Rightarrow> partition \<Rightarrow> bool" where
  "same_leaf p q \<longleftrightarrow> sub_of q = sub_of p \<and> pi_schema (part_of q) = pi_schema (part_of p) \<and> pi_name (part_of q) = pi_name (part_of p)"

lemma same_leaf_names: "same_leaf p q \<Longrightarrow> leaf_names_of q = leaf_names_of p"
  by (cases p rule: partition.exhaust; cases q rule: partition.exhaust; cases "sub_of p") (auto simp: same_leaf_def)

lemma same_leaves: "list_all2 same_leaf ps qs \<Longrightarrow> concat (map leaf_names_of qs) = concat (map leaf_names_of ps)"
  by (induction rule: list_all2_induct) (simp_all add: same_leaf_names)

lemma same_leaf_trans: "list_all2 same_leaf ps qs \<Longrightarrow> list_all2 same_leaf qs rs \<Longrightarrow> list_all2 same_leaf ps rs"
  by (rule list_all2_trans) (auto simp: same_leaf_def)

lemma same_leaf_refl: "list_all2 same_leaf ps ps"
  by (simp add: list_all2_conv_all_nth same_leaf_def)

lemma add_value_leaf: "list_all2 same_leaf ps (add_value bucket ps r)"
  unfolding list_all2_conv_all_nth
proof (intro conjI allI impI)
  show "length ps = length (add_value bucket ps r)" by (simp add: add_value_def Let_def)
  fix i assume i: "i < length ps"
  show "same_leaf (ps ! i) (add_value bucket ps r ! i)"
    by (cases "nat (bucket r) = i") (use i in \<open>simp_all add: add_value_def Let_def same_leaf_def\<close>)
qed

lemma add_values_leaf: "list_all2 same_leaf ps (foldl (add_value bucket) ps rs)"
proof (induction rs rule: rev_induct)
  case (snoc r rs)
  from same_leaf_trans [OF snoc.IH add_value_leaf] show ?case by simp
qed (simp add: same_leaf_refl)

lemma hash_partitions_leaf: "hash_partitions linear n j ps = Inr qs \<Longrightarrow> list_all2 same_leaf ps qs"
proof (induction ps arbitrary: j qs)
  case (Cons p ps)
  then show ?case by (auto simp: bind_res_Inr_iff clear_partition_def same_leaf_def split: if_splits)
qed simp

lemma range_left_leaves:
  assumes "sqlServerRangeLeft dec cols src = Inr (Some normal)"
  shows "LeafNames normal = LeafNames src"
proof -
  obtain lo hi where m: "map_res (half_open dec lo hi) (parts_of src) = Inr (parts_of normal)"
    using assms by (auto simp: sqlServerRangeLeft_def bind_res_Inr_iff split: if_splits list.splits option.splits)
  have "same_leaf p q" if "half_open dec lo hi p = Inr q" for p q
    using that by (auto simp: half_open_def Let_def bind_res_Inr_iff same_leaf_def split: if_splits)
  then have "list_all2 same_leaf (parts_of src) (parts_of normal)"
    using m unfolding map_res_Inr by (auto elim: list_all2_mono)
  then show ?thesis using same_leaves by (simp add: LeafNames_parts)
qed

lemma hash_list_leaves:
  assumes "mysqlHashAsList uni opt pf cols src = Inr r"
  shows "LeafNames (lw_spec r) = LeafNames src"
proof -
  obtain qs linear n where q: "hash_partitions linear n 0 (parts_of src) = Inr qs"
      "parts_of (lw_spec r) = (if linear then foldl (add_value (linear_bucket n (double_to n 1))) qs [1 - int (double_to n 1)..int (double_to n 1) - 1] else qs)"
    by (rule mysqlHashAsList_cases [OF assms refl refl])
  have "list_all2 same_leaf (parts_of src) (parts_of (lw_spec r))"
    unfolding q(2) using same_leaf_trans [OF hash_partitions_leaf [OF q(1)] add_values_leaf] hash_partitions_leaf [OF q(1)] by simp
  then show ?thesis using same_leaves by (simp add: LeafNames_parts)
qed

lemma key_list_leaves:
  assumes "mysqlKeyAsPGList opt pf cols ds src = Inr r"
  shows "LeafNames (kw_spec r) = LeafNames src"
proof -
  obtain qs n m where q: "hash_partitions True n 0 (parts_of src) = Inr qs"
      "parts_of (kw_spec r) = foldl (add_value (key_bucket n m)) qs [0..int m - 1]"
    by (rule mysqlKeyAsPGList_parts [OF assms]) blast
  have "list_all2 same_leaf (parts_of src) (parts_of (kw_spec r))"
    unfolding q(2) using same_leaf_trans [OF hash_partitions_leaf [OF q(1)] add_values_leaf] .
  then show ?thesis using same_leaves by (simp add: LeafNames_parts)
qed

section \<open>The whole preparation\<close>

lemma leafwiseD: "leafwise opt f \<Longrightarrow> f s st = Inr (d, st') \<Longrightarrow> maps_leaves opt (LeafNames s) (LeafNames d) st st'"
  by (simp add: leafwise_def)

lemma LeafNames_same_parts: "parts_of s = parts_of t \<Longrightarrow> LeafNames s = LeafNames t"
  by (simp add: LeafNames_parts)

lemma add_rule_state [simp]: "ps_mapping (add_rule r st) = ps_mapping st" "ps_leaves (add_rule r st) = ps_leaves st"
  by (simp_all add: add_rule_def)

lemma prepareMySQLKey_leafwise:
  assumes "\<And>pf. leafwise (ce_opt ce) (plain pf)"
  shows "leafwise (ce_opt ce) (prepareMySQLKey ce pf plain)"
  unfolding leafwise_def
proof (intro allI impI)
  fix src st d st'
  assume run: "prepareMySQLKey ce pf plain src st = Inr (d, st')"
  show "maps_leaves (ce_opt ce) (LeafNames src) (LeafNames d) st st'"
  proof (cases "op_source (ce_opt ce) = ''mysql'' \<and> op_target (ce_opt ce) = ''postgres''")
    case True
    with run obtain kw dst st1 where s: "mysqlKeyAsPGList (ce_opt ce) pf (ce_cols ce) (ps_domains st) src = Inr kw"
        "plain pf (kw_spec kw) (st\<lparr>ps_domains := kw_domains kw\<rparr>) = Inr (dst, st1)" "parts_of d = parts_of dst"
        "st' = add_rule ''mysql-innodb-key-bytes-to-native-list'' st1"
      by (auto simp: prepareMySQLKey_def Let_def bind_res_Inr_iff lift_error_Inr with_keys_def)
    from maps_after [OF maps_before [OF leafwiseD [OF assms s(2)]], of st st'] show ?thesis
      using LeafNames_same_parts [OF s(3)] key_list_leaves [OF s(1)] by (simp add: s(4))
  next
    case False
    with run obtain dst st1 where s: "plain (multi_hash pf) (Spec ((spec_of src)\<lparr>si_method := ''HASH'', si_algorithm := ''mysql-mod''\<rparr>) (parts_of src)) st = Inr (dst, st1)"
        "parts_of d = parts_of dst" "st' = add_rule ''mysql-innodb-native-key-algorithm'' st1"
      unfolding prepareMySQLKey_def Let_def if_not_P [OF False] by (auto simp: bind_res_Inr_iff)
    from maps_after [OF leafwiseD [OF assms s(1)], of st'] show ?thesis
      using LeafNames_same_parts [OF s(2)] LeafNames_parts [of src] by (simp add: s(3))
  qed
qed

lemma prepare_leafwise: "leafwise (ce_opt ce) (prepare levels ce pf depth)"
proof (induction levels arbitrary: pf depth)
  case 0
  then show ?case by (simp add: leafwise_def)
next
  case (Suc levels)
  let ?plain = "\<lambda>pf. prepare_plain ce pf depth (prepare levels ce pf (depth + 1))"
  have plain: "leafwise (ce_opt ce) (?plain pf)" for pf by (rule prepare_plain_leafwise [OF Suc])
  show ?case
    unfolding leafwise_def
  proof (intro allI impI)
    fix src st d st'
    assume run: "prepare (Suc levels) ce pf depth src st = Inr (d, st')"
    let ?m = "method_of (si_method (spec_of src))"
    show "maps_leaves (ce_opt ce) (LeafNames src) (LeafNames d) st st'"
    proof (cases "?m = ''KEY'' \<or> ?m = ''LINEAR KEY''")
      case True
      then have "prepareMySQLKey ce pf ?plain src st = Inr (d, st')" using run by (simp add: Let_def split: if_splits)
      with leafwiseD [OF prepareMySQLKey_leafwise [of ce ?plain pf, OF plain]] show ?thesis by blast
    next
      case False
      have u: "\<not> si_unsupported (spec_of src) \<noteq> []" using run by (auto simp: Let_def split: if_splits)
      obtain left where left:
          "(if baseMethod ?m = ''RANGE'' \<and> op_source (ce_opt ce) = ''sqlserver'' \<and> ''native_sqlserver'' \<notin> pf_features pf
            then lift_error RewriteFailed (sqlServerRangeLeft (ce_dec ce) (ce_cols ce) src) else Inr None) = Inr left"
          and rest: "(case left of
            Some normal \<Rightarrow> bind_res (?plain pf normal st) (\<lambda>(dst, st1). Inr (dst, add_rule ''sqlserver-integer-range-left-to-half-open'' st1))
          | None \<Rightarrow>
              if ?m = ''LINEAR HASH'' \<and> op_source (ce_opt ce) \<noteq> ''mysql'' then Inl ForeignLinearHash
              else if baseMethod ?m = ''HASH'' \<and> op_source (ce_opt ce) = ''mysql'' \<and> op_target (ce_opt ce) \<noteq> ''mysql'' \<and>
                ''postgres_declarative'' \<in> pf_features pf
              then bind_res (lift_error RewriteFailed (mysqlHashAsList (ce_uni ce) (ce_opt ce) pf (ce_cols ce) src)) (\<lambda>lw.
                bind_res (?plain pf (lw_spec lw) st) (\<lambda>(dst, st1). Inr (with_keys (lw_keys lw) dst, add_rule (lw_rule lw) st1)))
              else ?plain pf src st) = Inr (d, st')"
        using run unfolding prepare.simps Let_def if_not_P [OF u] if_not_P [OF False] bind_res_Inr_iff by (elim exE conjE) (rule that)
      show ?thesis
      proof (cases left)
        case (Some normal)
        with left have same: "LeafNames normal = LeafNames src"
          by (auto simp: lift_error_Inr split: if_splits intro: range_left_leaves)
        from rest Some obtain st1 where run: "?plain pf normal st = Inr (d, st1)"
            "st' = add_rule ''sqlserver-integer-range-left-to-half-open'' st1"
          by (auto simp: bind_res_Inr_iff)
        from maps_after [OF leafwiseD [OF plain run(1)], of st'] show ?thesis by (simp add: run(2) same)
      next
        case None
        show ?thesis
        proof (cases "?plain pf src st = Inr (d, st')")
          case True
          from leafwiseD [OF plain this] show ?thesis .
        next
          case False
          with rest None obtain lw dst st1 where lw: "mysqlHashAsList (ce_uni ce) (ce_opt ce) pf (ce_cols ce) src = Inr lw"
              and run: "?plain pf (lw_spec lw) st = Inr (dst, st1)" "d = with_keys (lw_keys lw) dst" "st' = add_rule (lw_rule lw) st1"
            by (auto simp: bind_res_Inr_iff lift_error_Inr split: if_splits)
          from maps_after [OF leafwiseD [OF plain run(1)], of st'] show ?thesis
            using hash_list_leaves [OF lw] LeafNames_same_parts [of d dst] by (simp add: run(2,3) with_keys_def)
        qed
      qed
    qed
  qed
qed

lemma empty_leaves: "leaves_ok empty_state"
  by (simp add: leaves_ok_def empty_state_def)

text \<open>LINEAR HASH over MySQL's \<open>id\<close>, with HASH below its first partition, prepared for PostgreSQL.\<close>

definition demo_env :: compile_env where
  "demo_env = \<lparr>ce_uni = no_runes, ce_dec = plain_decimal, ce_opt = demo_options, ce_table = ''t'', ce_cols = [demo_column],
     ce_interval = (\<lambda>_ _. None)\<rparr>"

definition demo_keys :: "partition_key list" where
  "demo_keys = [\<lparr>pk_column = ''id'', pk_expression = [], pk_data_type = ''int'', pk_collation = []\<rparr>]"

definition demo_parts :: "string list \<Rightarrow> partition_spec option \<Rightarrow> partition list" where
  "demo_parts ns sub = map (\<lambda>(i, n). Part (zero_partition\<lparr>pi_name := n, pi_modulus := int (length ns), pi_remainder := int i\<rparr>)
     (if i = 0 then sub else None)) (enumerate 0 ns)"

definition demo_tree :: partition_spec where
  "demo_tree = Spec (zero_spec\<lparr>si_method := ''LINEAR HASH'', si_algorithm := ''mysql-linear-hash'', si_keys := demo_keys\<rparr>)
     (demo_parts [''p0'', ''p1'']
       (Some (Spec (zero_spec\<lparr>si_method := ''HASH'', si_algorithm := ''mysql-mod'', si_keys := demo_keys\<rparr>) (demo_parts [''s''] None))))"

definition tree_profile :: profile where
  "tree_profile = demo_profile\<lparr>pf_features := set [''postgres_declarative'', ''expression_keys'', ''native_list'', ''subpartition'']\<rparr>"

section \<open>Property\<close>

text \<open>C25: Preparing a topology for its target loses, invents and merges no leaf, whatever rewrites the methods
  need. The mapping that the rows are copied by lists the leaves of the source in their order, its targets are
  the leaves of the prepared topology, each once, and every target name passes the target's rules for names.\<close>

theorem prepare_leaves:
  assumes "prepare_root ce pf src = Inr (dst, st)"
  shows "map (\<lambda>m. LeafKey (lm_source_schema m) (lm_source_name m)) (ps_mapping st) = LeafNames src \<and>
    mset (map (\<lambda>m. LeafKey (lm_target_schema m) (lm_target_name m)) (ps_mapping st)) = mset (LeafNames dst) \<and>
    distinct (LeafNames dst) \<and>
    list_all (\<lambda>m. validateName (ce_opt ce) (lm_target_name m) = Inr ()) (ps_mapping st)"
proof -
  have keys: "map (\<lambda>m. LeafKey (lm_source_schema m) (lm_source_name m)) = map source_key"
      "map (\<lambda>m. LeafKey (lm_target_schema m) (lm_target_name m)) = map target_key"
    by (simp_all add: fun_eq_iff source_key_def target_key_def)
  have m: "maps_leaves (ce_opt ce) (LeafNames src) (LeafNames dst) empty_state st"
    using leafwiseD [OF prepare_leafwise] assms by (simp add: prepare_root_def)
  then have new: "map source_key (ps_mapping st) = LeafNames src" "mset (map target_key (ps_mapping st)) = mset (LeafNames dst)"
      "list_all (\<lambda>m. name_ok (op_target (ce_opt ce)) (lm_target_name m)) (ps_mapping st)"
    by (auto simp: maps_leaves_def empty_state_def)
  from m have "distinct (map target_key (ps_mapping st))" using empty_leaves by (simp add: maps_leaves_def leaves_ok_def)
  then have "distinct (LeafNames dst)" using new(2) by (metis mset_eq_imp_distinct_iff)
  then show ?thesis using new unfolding keys by (simp add: validateName_def list_all_iff)
qed

lemma demo_tree_ok: "is_ok (prepare_root demo_env tree_profile demo_tree)"
  by code_simp

theorem prepare_leaves_witness:
  "\<exists>dst st. prepare_root demo_env tree_profile demo_tree = Inr (dst, st) \<and>
    map (\<lambda>m. LeafKey (lm_source_schema m) (lm_source_name m)) (ps_mapping st) = LeafNames demo_tree \<and>
    mset (map (\<lambda>m. LeafKey (lm_target_schema m) (lm_target_name m)) (ps_mapping st)) = mset (LeafNames dst) \<and>
    distinct (LeafNames dst) \<and>
    list_all (\<lambda>m. validateName demo_options (lm_target_name m) = Inr ()) (ps_mapping st)"
proof -
  obtain dst st where run: "prepare_root demo_env tree_profile demo_tree = Inr (dst, st)"
    using demo_tree_ok by (cases "prepare_root demo_env tree_profile demo_tree") auto
  have opt: "ce_opt demo_env = demo_options" by (simp add: demo_env_def)
  show ?thesis using prepare_leaves [OF run] run unfolding opt by blast
qed

end
