(* ===== verification/RepairStore.thy ===== *)
theory RepairStore
  imports GoPrelude
begin

text \<open>
  The ledger of repairs (\<^verbatim>\<open>store/migration_repair.go\<close>, the records of \<^verbatim>\<open>datamigrate/repair/types.go\<close> and the
  writes of \<^verbatim>\<open>api/handler/migration_repair.go\<close>). The tables are lists of rows in the order of their keys; every
  operation is one SQLite transaction, so it is a function of the ledger. A failure of SQLite itself rolls the
  transaction back and leaves the ledger as it was. A JSON column holds the value it was written from; a column
  of objects may also hold text that does not parse (\<open>None\<close>). Times are left out.
\<close>

section \<open>Rows\<close>

record saved_unit =
  un_id :: string
  un_sql :: string
  un_original :: string
  un_status :: string
  un_error :: string
  un_selected :: bool
  un_destructive :: bool

text \<open>The plans of special objects are opaque here: only their presence matters.\<close>

record saved_object =
  ro_id :: string
  ro_kind :: string
  ro_name :: string
  ro_table :: string
  ro_source_table :: string
  ro_schema :: string
  ro_target_name :: string
  ro_ddl :: string
  ro_status :: string
  ro_data_status :: string
  ro_error :: string
  ro_units :: "saved_unit list"
  ro_dependencies :: "string list"
  ro_diagnostic :: bool
  ro_requires_review :: bool
  ro_manual_trigger :: bool
  ro_native :: bool
  ro_pg_trigger :: bool
  ro_dm_trigger :: bool
  ro_partition :: bool
  ro_column_mapping :: "(string \<times> string) list"

record object_row =
  or_job :: string
  or_object :: string
  or_payload :: "saved_object option"
  or_version :: int

record binding_row =
  bd_job :: string
  bd_src_conn :: nat
  bd_dst_conn :: nat
  bd_schema :: string
  bd_configured :: bool
  bd_version :: int

record recovery_result =
  rr_data_status :: string
  rr_status :: string
  rr_committed :: int
  rr_source_rows :: int
  rr_target_rows :: int
  rr_error :: string

record attempt_row =
  at_id :: string
  at_job :: string
  at_request :: string
  at_hash :: string
  at_object :: string
  at_owner :: nat
  at_kind :: string
  at_status :: string
  at_scope :: string
  at_units :: "saved_unit list"
  at_result :: "recovery_result option"
  at_error :: string
  at_cancel :: bool

record job_row =
  jr_id :: string
  jr_status :: string
  jr_summary :: string

record lock_row =
  lk_scope :: string
  lk_owner :: string

record ledger =
  ld_objects :: "object_row list"
  ld_bindings :: "binding_row list"
  ld_attempts :: "attempt_row list"
  ld_locks :: "lock_row list"
  ld_jobs :: "job_row list"

datatype ledger_error = RepairConflict | RecordNotFound | BadJson | DuplicateKey

section \<open>Queries and updates\<close>

definition update_rows :: "('r \<Rightarrow> bool) \<Rightarrow> ('r \<Rightarrow> 'r) \<Rightarrow> 'r list \<Rightarrow> 'r list" where
  "update_rows P f rows = map (\<lambda>r. if P r then f r else r) rows"

definition object_key :: "string \<Rightarrow> string \<Rightarrow> object_row \<Rightarrow> bool" where
  "object_key job ob r \<longleftrightarrow> or_job r = job \<and> or_object r = ob"

definition GetMigrationRepairObject :: "string \<Rightarrow> string \<Rightarrow> ledger \<Rightarrow> ledger_error + object_row" where
  "GetMigrationRepairObject job ob db =
     (case List.find (object_key job ob) (ld_objects db) of None \<Rightarrow> Inl RecordNotFound | Some r \<Rightarrow> Inr r)"

definition GetMigrationRepairBinding :: "string \<Rightarrow> ledger \<Rightarrow> ledger_error + binding_row" where
  "GetMigrationRepairBinding job db =
     (case List.find (\<lambda>b. bd_job b = job) (ld_bindings db) of None \<Rightarrow> Inl RecordNotFound | Some b \<Rightarrow> Inr b)"

definition running :: "attempt_row \<Rightarrow> bool" where
  "running a \<longleftrightarrow> at_status a = ''running''"

definition job_running :: "string \<Rightarrow> ledger \<Rightarrow> bool" where
  "job_running job db \<longleftrightarrow> list_ex (\<lambda>a. at_job a = job \<and> running a) (ld_attempts db)"

text \<open>\<open>OnConflict DoNothing\<close> on the primary key of the locks.\<close>

definition AcquireMigrationScope :: "string \<Rightarrow> string \<Rightarrow> ledger \<Rightarrow> ledger_error + ledger" where
  "AcquireMigrationScope scope owner db =
     (if list_ex (\<lambda>l. lk_scope l = scope) (ld_locks db) then Inl RepairConflict
      else Inr (db\<lparr>ld_locks := ld_locks db @ [\<lparr>lk_scope = scope, lk_owner = owner\<rparr>]\<rparr>))"

definition ReleaseMigrationScope :: "string \<Rightarrow> string \<Rightarrow> ledger \<Rightarrow> ledger" where
  "ReleaseMigrationScope scope owner db =
     db\<lparr>ld_locks := filter (\<lambda>l. \<not> (lk_scope l = scope \<and> lk_owner l = owner)) (ld_locks db)\<rparr>"

section \<open>Objects\<close>

definition insert_binding :: "binding_row \<Rightarrow> ledger \<Rightarrow> ledger" where
  "insert_binding b db =
     (if list_ex (\<lambda>c. bd_job c = bd_job b) (ld_bindings db) then db else db\<lparr>ld_bindings := ld_bindings db @ [b]\<rparr>)"

definition insert_object :: "object_row \<Rightarrow> ledger \<Rightarrow> ledger" where
  "insert_object r db =
     (if list_ex (object_key (or_job r) (or_object r)) (ld_objects db) then db
      else db\<lparr>ld_objects := ld_objects db @ [r]\<rparr>)"

definition SeedMigrationRepairs :: "binding_row \<Rightarrow> object_row list \<Rightarrow> ledger \<Rightarrow> ledger" where
  "SeedMigrationRepairs b rows db = foldl (\<lambda>d r. insert_object r d) (insert_binding b db) rows"

text \<open>An upsert keeps the row and its version and replaces the object.\<close>

definition upsertMigrationRepairObject :: "string \<Rightarrow> saved_object \<Rightarrow> ledger \<Rightarrow> ledger" where
  "upsertMigrationRepairObject job ob db =
     (if list_ex (object_key job (ro_id ob)) (ld_objects db)
      then db\<lparr>ld_objects := update_rows (object_key job (ro_id ob)) (\<lambda>r. r\<lparr>or_payload := Some ob\<rparr>) (ld_objects db)\<rparr>
      else db\<lparr>ld_objects := ld_objects db @ [\<lparr>or_job = job, or_object = ro_id ob, or_payload = Some ob, or_version = 1\<rparr>]\<rparr>)"

definition SaveMigrationRepairObject :: "string \<Rightarrow> string \<Rightarrow> int \<Rightarrow> saved_object \<Rightarrow> ledger \<Rightarrow> ledger_error + ledger" where
  "SaveMigrationRepairObject job ob version payload db =
     (if job_running job db then Inl RepairConflict
      else if \<not> list_ex (\<lambda>r. object_key job ob r \<and> or_version r = version) (ld_objects db) then Inl RepairConflict
      else Inr (db\<lparr>ld_objects := update_rows (\<lambda>r. object_key job ob r \<and> or_version r = version)
                   (\<lambda>r. r\<lparr>or_payload := Some payload, or_version := version + 1\<rparr>) (ld_objects db)\<rparr>))"

section \<open>Attempts\<close>

definition same_request :: "attempt_row \<Rightarrow> attempt_row \<Rightarrow> bool" where
  "same_request a b \<longleftrightarrow> at_job b = at_job a \<and> at_request b = at_request a"

definition check_related :: "string \<Rightarrow> (string \<times> int) list \<Rightarrow> ledger \<Rightarrow> ledger_error + unit" where
  "check_related job wanted db =
     foldr (\<lambda>(ob, want) rest. bind_res (GetMigrationRepairObject job ob db) (\<lambda>r. if or_version r \<noteq> want then Inl RepairConflict else rest))
       wanted (Inr ())"

text \<open>The result is the attempt of the request, and whether this call made it.\<close>

definition ClaimRepairAttempt ::
  "attempt_row \<Rightarrow> int \<Rightarrow> int \<Rightarrow> (string \<times> int) list \<Rightarrow> ledger \<Rightarrow> ledger_error + attempt_row \<times> bool \<times> ledger" where
  "ClaimRepairAttempt a version bversion related db =
     (case List.find (same_request a) (ld_attempts db) of
        Some existing \<Rightarrow> if at_hash existing \<noteq> at_hash a then Inl RepairConflict else Inr (existing, False, db)
      | None \<Rightarrow>
          bind_res (GetMigrationRepairObject (at_job a) (at_object a) db) (\<lambda>r.
          bind_res (GetMigrationRepairBinding (at_job a) db) (\<lambda>b.
            if or_version r \<noteq> version \<or> bd_version b \<noteq> bversion then Inl RepairConflict
            else
              bind_res (check_related (at_job a) related db) (\<lambda>_.
                if job_running (at_job a) db then Inl RepairConflict
                else
                  bind_res (AcquireMigrationScope (at_scope a) (at_id a) db) (\<lambda>db1.
                    if list_ex (\<lambda>x. at_id x = at_id a) (ld_attempts db1) then Inl DuplicateKey
                    else Inr (a, True, db1\<lparr>ld_attempts := ld_attempts db1 @ [a]\<rparr>))))))"

text \<open>The payload is absent where the Go function is given the empty string.\<close>

definition FinishRepairAttempt :: "attempt_row \<Rightarrow> saved_object option \<Rightarrow> ledger \<Rightarrow> ledger" where
  "FinishRepairAttempt a payload db =
     ReleaseMigrationScope (at_scope a) (at_id a)
       (db\<lparr>ld_attempts := update_rows (\<lambda>r. at_id r = at_id a \<and> running r)
              (\<lambda>r. r\<lparr>at_status := at_status a, at_error := at_error a, at_units := at_units a, at_result := at_result a\<rparr>) (ld_attempts db),
            ld_objects := (case payload of
                None \<Rightarrow> ld_objects db
              | Some ob \<Rightarrow> update_rows (object_key (at_job a) (at_object a))
                  (\<lambda>r. r\<lparr>or_payload := Some ob, or_version := or_version r + 1\<rparr>) (ld_objects db))\<rparr>)"

text \<open>\<open>persistRepairProgress\<close>: the units are saved in the attempt and in the object, whose version stays.\<close>

definition persistRepairProgress :: "attempt_row \<Rightarrow> saved_object \<Rightarrow> saved_unit list \<Rightarrow> saved_unit list \<Rightarrow> ledger \<Rightarrow> ledger" where
  "persistRepairProgress a ob units previous db =
     db\<lparr>ld_attempts := update_rows (\<lambda>r. at_id r = at_id a \<and> running r) (\<lambda>r. r\<lparr>at_units := previous @ units\<rparr>) (ld_attempts db),
        ld_objects := update_rows (object_key (at_job a) (ro_id ob))
          (\<lambda>r. r\<lparr>or_payload := Some (ob\<lparr>ro_units := units, ro_status := ''running''\<rparr>)\<rparr>) (ld_objects db)\<rparr>"

definition save_result :: "attempt_row \<Rightarrow> recovery_result \<Rightarrow> ledger \<Rightarrow> ledger" where
  "save_result a res db =
     db\<lparr>ld_attempts := update_rows (\<lambda>r. at_id r = at_id a \<and> running r) (\<lambda>r. r\<lparr>at_result := Some res\<rparr>) (ld_attempts db)\<rparr>"

definition request_cancel :: "string \<Rightarrow> ledger \<Rightarrow> ledger" where
  "request_cancel aid db = db\<lparr>ld_attempts := update_rows (\<lambda>r. at_id r = aid) (\<lambda>r. r\<lparr>at_cancel := True\<rparr>) (ld_attempts db)\<rparr>"

end
