(* ===== verification/RepairLedger.thy ===== *)
theory RepairLedger
  imports RepairStore
begin

text \<open>
  What happens to the ledger over time: the end of an attempt (\<^verbatim>\<open>finishRepair\<close>), data recovered for several
  objects, and the restart of the service (\<^verbatim>\<open>MarkInterruptedRepairsUnknown\<close>), with the invariants every
  sequence of operations keeps. A crash cannot tell whether the target committed, so nothing is replayed.
\<close>

section \<open>Objects that were executed\<close>

definition unit_done :: "saved_unit \<Rightarrow> bool" where
  "unit_done u \<longleftrightarrow> un_status u = ''succeeded'' \<and> trim_space (un_sql u) \<noteq> [] \<and> un_error u = []"

definition AllUnitsSucceeded :: "saved_object \<Rightarrow> bool" where
  "AllUnitsSucceeded ob \<longleftrightarrow> ro_units ob \<noteq> [] \<and> list_all unit_done (ro_units ob)"

text \<open>The flag says whether the object was changed.\<close>

definition NormalizeLegacyExecution :: "saved_object \<Rightarrow> bool \<times> saved_object" where
  "NormalizeLegacyExecution ob =
     (if ro_status ob \<noteq> ''unverified'' then (False, ob)
      else if \<not> ro_diagnostic ob \<and> AllUnitsSucceeded ob
      then (True, ob\<lparr>ro_status := ''succeeded'', ro_units := map (\<lambda>u. u\<lparr>un_selected := False\<rparr>) (ro_units ob)\<rparr>)
      else (True, ob\<lparr>ro_status := ''unknown''\<rparr>))"

section \<open>The end of an attempt\<close>

record finish_error =
  fe_text :: string
  fe_cancelled :: bool

definition uncertain :: "saved_unit \<Rightarrow> bool" where
  "uncertain u \<longleftrightarrow> un_status u = ''running'' \<or> un_status u = ''unknown''"

definition finish_status :: "attempt_row \<Rightarrow> finish_error option \<Rightarrow> string" where
  "finish_status a err =
     (case err of
        None \<Rightarrow> if running a then ''succeeded'' else at_status a
      | Some e \<Rightarrow>
          if list_ex uncertain (at_units a) \<or> fe_cancelled e then ''unknown''
          else if running a then ''failed'' else at_status a)"

definition finished_attempt :: "attempt_row \<Rightarrow> finish_error option \<Rightarrow> attempt_row" where
  "finished_attempt a err =
     a\<lparr>at_status := finish_status a err, at_error := (case err of None \<Rightarrow> at_error a | Some e \<Rightarrow> fe_text e)\<rparr>"

definition finished_object :: "attempt_row \<Rightarrow> saved_object \<Rightarrow> finish_error option \<Rightarrow> saved_object" where
  "finished_object a ob err =
     (if at_kind a = ''ddl'' then ob\<lparr>ro_status := finish_status a err, ro_units := at_units a\<rparr> else ob)"

definition finishRepair :: "attempt_row \<Rightarrow> saved_object \<Rightarrow> finish_error option \<Rightarrow> ledger \<Rightarrow> ledger" where
  "finishRepair a ob err db = FinishRepairAttempt (finished_attempt a err) (Some (finished_object a ob err)) db"

section \<open>Recovered data\<close>

definition same_data :: "saved_object \<Rightarrow> saved_object \<Rightarrow> bool" where
  "same_data item ob \<longleftrightarrow>
     (ro_table item = ro_table ob \<and> ro_table item \<noteq> []) \<or> (ro_source_table item \<noteq> [] \<and> ro_source_table item = ro_source_table ob)"

definition data_kind :: "saved_object \<Rightarrow> bool" where
  "data_kind item \<longleftrightarrow> ro_kind item = ''table'' \<or> ro_kind item = ''data''"

definition mark_data :: "saved_object \<Rightarrow> saved_object" where
  "mark_data item = item\<lparr>ro_data_status := ''succeeded'', ro_status := (if ro_kind item = ''data'' then ''succeeded'' else ro_status item)\<rparr>"

definition recovered_row :: "string \<Rightarrow> saved_object \<Rightarrow> object_row \<Rightarrow> ledger_error + object_row" where
  "recovered_row job ob r =
     (if or_job r \<noteq> job then Inr r
      else
        (case or_payload r of
           None \<Rightarrow> Inl BadJson
         | Some item \<Rightarrow>
             if ro_id item = ro_id ob then Inr (r\<lparr>or_payload := Some ob, or_version := or_version r + 1\<rparr>)
             else if \<not> same_data item ob \<or> ro_data_status ob \<noteq> ''succeeded'' \<or> \<not> data_kind item then Inr r
             else Inr (r\<lparr>or_payload := Some (mark_data (item\<lparr>ro_column_mapping := ro_column_mapping ob\<rparr>)),
                         or_version := or_version r + 1\<rparr>)))"

definition persistRecoveryData :: "string \<Rightarrow> saved_object \<Rightarrow> ledger \<Rightarrow> ledger_error + ledger" where
  "persistRecoveryData job ob db =
     bind_res (map_res (recovered_row job ob) (ld_objects db)) (\<lambda>rows. Inr (db\<lparr>ld_objects := rows\<rparr>))"

section \<open>The restart\<close>

definition data_committed :: "attempt_row \<Rightarrow> bool" where
  "data_committed a \<longleftrightarrow> at_kind a = ''recovery'' \<and> (case at_result a of None \<Rightarrow> False | Some r \<Rightarrow> rr_data_status r = ''succeeded'')"

text \<open>The object of an interrupted attempt.\<close>

definition interrupted :: "attempt_row \<Rightarrow> saved_object \<Rightarrow> saved_object" where
  "interrupted a ob =
     (if data_committed a then mark_data ob
      else if at_kind a = ''recovery'' then ob\<lparr>ro_data_status := ''unknown''\<rparr>
      else ob\<lparr>ro_status := ''unknown''\<rparr>)"

text \<open>The interrupted attempts in turn; the list collects the objects whose data was committed.\<close>

fun mark_active :: "attempt_row list \<Rightarrow> (string \<times> saved_object) list \<Rightarrow> ledger \<Rightarrow> ledger_error + (string \<times> saved_object) list \<times> ledger" where
  "mark_active [] done_list db = Inr (done_list, db)"
| "mark_active (a # as) done_list db =
     bind_res (GetMigrationRepairObject (at_job a) (at_object a) db) (\<lambda>r.
       case or_payload r of
         None \<Rightarrow> Inl BadJson
       | Some ob \<Rightarrow>
           mark_active as (if data_committed a then done_list @ [(at_job a, interrupted a ob)] else done_list)
             (db\<lparr>ld_objects := update_rows (object_key (at_job a) (at_object a))
                 (\<lambda>x. x\<lparr>or_payload := Some (interrupted a ob), or_version := or_version r + 1\<rparr>) (ld_objects db)\<rparr>))"

definition stop_unit :: "saved_unit \<Rightarrow> saved_unit" where
  "stop_unit u = (if un_status u = ''running'' then u\<lparr>un_status := ''unknown''\<rparr> else u)"

text \<open>No object stays in execution.\<close>

definition settle :: "(string \<times> saved_object) list \<Rightarrow> string \<Rightarrow> saved_object \<Rightarrow> bool \<times> saved_object" where
  "settle done_list job ob =
     (let (changed, ob1) = NormalizeLegacyExecution ob;
          hit = (data_kind ob1 \<and> list_ex (\<lambda>(j, d). j = job \<and> same_data ob1 d) done_list);
          ob2 = (if hit then mark_data ob1 else ob1);
          ob3 = (if ro_status ob2 = ''running'' then ob2\<lparr>ro_status := ''unknown''\<rparr> else ob2);
          ob4 = (if ro_data_status ob3 = ''running'' then ob3\<lparr>ro_data_status := ''unknown''\<rparr> else ob3)
      in (changed \<or> hit \<or> ro_status ob2 = ''running'' \<or> ro_data_status ob3 = ''running'' \<or>
            list_ex (\<lambda>u. un_status u = ''running'') (ro_units ob4),
          ob4\<lparr>ro_units := map stop_unit (ro_units ob4)\<rparr>))"

definition settle_row :: "(string \<times> saved_object) list \<Rightarrow> object_row \<Rightarrow> ledger_error + bool \<times> object_row" where
  "settle_row done_list r =
     (case or_payload r of
        None \<Rightarrow> Inl BadJson
      | Some ob \<Rightarrow>
          (case settle done_list (or_job r) ob of (changed, ob') \<Rightarrow>
             Inr (changed, if changed then r\<lparr>or_payload := Some ob', or_version := or_version r + 1\<rparr> else r)))"

definition fail_job :: "string list \<Rightarrow> job_row \<Rightarrow> job_row" where
  "fail_job unknown_jobs j =
     (if jr_status j \<noteq> ''running'' then j
      else j\<lparr>jr_status := ''failed'', jr_summary := (if jr_id j \<in> set unknown_jobs then ''objects unknown'' else ''interrupted'')\<rparr>)"

definition stop_attempt :: "attempt_row \<Rightarrow> attempt_row" where
  "stop_attempt a = (if running a then a\<lparr>at_status := ''unknown'', at_error := ''restarted''\<rparr> else a)"

definition MarkInterruptedRepairsUnknown :: "ledger \<Rightarrow> ledger_error + ledger" where
  "MarkInterruptedRepairsUnknown db =
     bind_res (mark_active (filter running (ld_attempts db)) [] db) (\<lambda>(done_list, db1).
     bind_res (map_res (settle_row done_list) (ld_objects db1)) (\<lambda>rows.
       Inr (db1\<lparr>ld_objects := map snd rows,
                ld_attempts := map stop_attempt (ld_attempts db1),
                ld_jobs := map (fail_job (map (\<lambda>(_, r). or_job r) (filter fst rows))) (ld_jobs db1),
                ld_locks := []\<rparr>)))"

section \<open>Every sequence of operations\<close>

text \<open>
  One operation of any client: handlers, workers, migrations, the restart. A worker finishes the attempt it was
  started for. The lock of a running attempt is released by its owner only (the identifiers of attempts and
  of jobs are fresh UUIDs).
\<close>

inductive ledger_step :: "ledger \<Rightarrow> ledger \<Rightarrow> bool" where
  Seed: "ledger_step db (SeedMigrationRepairs b rows db)"
| Upsert: "ledger_step db (upsertMigrationRepairObject job ob db)"
| Save: "SaveMigrationRepairObject job oid v ob db = Inr db' \<Longrightarrow> ledger_step db db'"
| Acquire: "AcquireMigrationScope scope owner db = Inr db' \<Longrightarrow> ledger_step db db'"
| Release: "\<forall>a\<in>set (ld_attempts db). running a \<longrightarrow> at_id a \<noteq> owner \<Longrightarrow> ledger_step db (ReleaseMigrationScope scope owner db)"
| Claim: "running a \<Longrightarrow> ClaimRepairAttempt a v bv related db = Inr (existing, claimed, db') \<Longrightarrow> ledger_step db db'"
| Progress: "ledger_step db (persistRepairProgress a ob us previous db)"
| Result: "ledger_step db (save_result a res db)"
| Cancel: "ledger_step db (request_cancel aid db)"
| Finish: "r \<in> set (ld_attempts db) \<Longrightarrow> at_id a = at_id r \<Longrightarrow> at_scope a = at_scope r \<Longrightarrow> \<not> running a \<Longrightarrow>
    ledger_step db (FinishRepairAttempt a payload db)"
| Recover: "persistRecoveryData job ob db = Inr db' \<Longrightarrow> ledger_step db db'"
| Restart: "MarkInterruptedRepairsUnknown db = Inr db' \<Longrightarrow> ledger_step db db'"

abbreviation ledger_steps :: "ledger \<Rightarrow> ledger \<Rightarrow> bool" where
  "ledger_steps \<equiv> ledger_step\<^sup>*\<^sup>*"

definition no_ledger :: ledger where
  "no_ledger = \<lparr>ld_objects = [], ld_bindings = [], ld_attempts = [], ld_locks = [], ld_jobs = []\<rparr>"

text \<open>A worker's own end is one of these operations.\<close>

lemma finish_status_stopped: "\<not> running (finished_attempt a err)"
  by (cases err) (auto simp: running_def finished_attempt_def finish_status_def)

lemma finishRepair_step:
  "r \<in> set (ld_attempts db) \<Longrightarrow> at_id a = at_id r \<Longrightarrow> at_scope a = at_scope r \<Longrightarrow> ledger_step db (finishRepair a ob err db)"
  unfolding finishRepair_def
  by (rule ledger_step.Finish [of r]) (simp_all add: finished_attempt_def finish_status_stopped [unfolded finished_attempt_def])

section \<open>The attempts keep their identity\<close>

definition holds_lock :: "lock_row list \<Rightarrow> attempt_row \<Rightarrow> bool" where
  "holds_lock locks a \<longleftrightarrow> (\<exists>l\<in>set locks. lk_scope l = at_scope a \<and> lk_owner l = at_id a)"

definition ledger_ok :: "ledger \<Rightarrow> bool" where
  "ledger_ok db \<longleftrightarrow>
     distinct (map at_id (ld_attempts db)) \<and>
     distinct (map (\<lambda>a. (at_job a, at_request a)) (ld_attempts db)) \<and>
     distinct (map lk_scope (ld_locks db)) \<and>
     distinct (map at_job (filter running (ld_attempts db))) \<and>
     (\<forall>a\<in>set (ld_attempts db). running a \<longrightarrow> holds_lock (ld_locks db) a)"

text \<open>The same attempt at a later time: nothing identifying changes, and once it has ended nothing but the
  request to cancel it.\<close>

definition later :: "attempt_row \<Rightarrow> attempt_row \<Rightarrow> bool" where
  "later a b \<longleftrightarrow> at_id b = at_id a \<and> at_job b = at_job a \<and> at_request b = at_request a \<and> at_hash b = at_hash a \<and>
     at_object b = at_object a \<and> at_kind b = at_kind a \<and> at_scope b = at_scope a \<and>
     (\<not> running a \<longrightarrow> b = a\<lparr>at_cancel := at_cancel b\<rparr>)"

lemma later_refl [simp]: "later a a"
  by (simp add: later_def)

lemma later_trans: "later a b \<Longrightarrow> later b c \<Longrightarrow> later a c"
  unfolding later_def running_def by (cases a; cases b; cases c) auto

lemma update_rows_later:
  assumes "\<And>a. P a \<Longrightarrow> later a (f a)"
  shows "list_all2 later as (update_rows P f as)"
  using assms by (simp add: update_rows_def list_all2_conv_all_nth)

lemma later_refl_all: "list_all2 later as as"
  by (simp add: list_all2_conv_all_nth)

lemma locks_simps [simp]:
  "ld_attempts (ReleaseMigrationScope scope owner db) = ld_attempts db"
  "ld_attempts (upsertMigrationRepairObject job ob db) = ld_attempts db"
  "ld_locks (upsertMigrationRepairObject job ob db) = ld_locks db"
  by (simp_all add: ReleaseMigrationScope_def upsertMigrationRepairObject_def)

lemma seed_simps [simp]:
  "ld_attempts (SeedMigrationRepairs b rows db) = ld_attempts db" "ld_locks (SeedMigrationRepairs b rows db) = ld_locks db"
proof -
  have "ld_attempts (foldl (\<lambda>d r. insert_object r d) d0 rows) = ld_attempts d0 \<and>
      ld_locks (foldl (\<lambda>d r. insert_object r d) d0 rows) = ld_locks d0" for d0
    by (induction rows arbitrary: d0) (simp_all add: insert_object_def)
  then show "ld_attempts (SeedMigrationRepairs b rows db) = ld_attempts db" "ld_locks (SeedMigrationRepairs b rows db) = ld_locks db"
    by (simp_all add: SeedMigrationRepairs_def insert_binding_def)
qed

lemma mark_active_frame:
  "mark_active as dl db = Inr (dl', db') \<Longrightarrow>
     ld_attempts db' = ld_attempts db \<and> ld_locks db' = ld_locks db \<and> ld_jobs db' = ld_jobs db \<and> ld_bindings db' = ld_bindings db"
  by (induction as dl db rule: mark_active.induct)
    (auto simp: bind_res_Inr_iff split: option.splits)

lemma restart_attempts:
  assumes "MarkInterruptedRepairsUnknown db = Inr db'"
  shows "ld_attempts db' = map stop_attempt (ld_attempts db)" "ld_locks db' = []"
  using assms by (auto simp: MarkInterruptedRepairsUnknown_def bind_res_Inr_iff dest!: mark_active_frame)

text \<open>What a successful claim does.\<close>

lemma claim_cases:
  assumes "ClaimRepairAttempt a v bv related db = Inr (existing, claimed, db')"
  obtains (Old) "List.find (same_request a) (ld_attempts db) = Some existing" "at_hash existing = at_hash a" "\<not> claimed" "db' = db"
  | (New) "claimed" "existing = a" "List.find (same_request a) (ld_attempts db) = None" "\<not> job_running (at_job a) db"
      "at_id a \<notin> at_id ` set (ld_attempts db)" "at_scope a \<notin> lk_scope ` set (ld_locks db)"
      "ld_attempts db' = ld_attempts db @ [a]"
      "ld_locks db' = ld_locks db @ [\<lparr>lk_scope = at_scope a, lk_owner = at_id a\<rparr>]" "ld_objects db' = ld_objects db"
      "\<exists>r. GetMigrationRepairObject (at_job a) (at_object a) db = Inr r \<and> or_version r = v"
proof (cases "List.find (same_request a) (ld_attempts db)")
  case None
  with assms show ?thesis
    by (intro New) (auto simp: ClaimRepairAttempt_def AcquireMigrationScope_def bind_res_Inr_iff list_ex_iff split: if_splits)
next
  case (Some b)
  with assms show ?thesis
    by (intro Old) (auto simp: ClaimRepairAttempt_def split: if_splits)
qed

lemma ledger_step_later:
  assumes "ledger_step db db'"
  shows "\<exists>new. list_all2 later (ld_attempts db) (take (length (ld_attempts db)) (ld_attempts db')) \<and>
    ld_attempts db' = take (length (ld_attempts db)) (ld_attempts db') @ new"
  using assms
proof (cases rule: ledger_step.cases)
  case (Claim a v bv related existing claimed)
  from Claim(2) show ?thesis by (cases rule: claim_cases) (auto simp: later_refl_all)
next
  case (Finish r a payload)
  then show ?thesis
    by (auto simp: FinishRepairAttempt_def update_rows_def later_def list_all2_conv_all_nth)
next
  case Restart
  then show ?thesis
    by (auto simp: restart_attempts stop_attempt_def later_def list_all2_conv_all_nth)
qed (auto simp: later_refl_all SaveMigrationRepairObject_def AcquireMigrationScope_def persistRepairProgress_def save_result_def
    request_cancel_def persistRecoveryData_def bind_res_Inr_iff update_rows_def later_def list_all2_conv_all_nth split: if_splits)

lemma ledger_steps_later:
  assumes "ledger_steps db db'" "a \<in> set (ld_attempts db)"
  shows "\<exists>b\<in>set (ld_attempts db'). later a b"
  using assms(1)
proof (induction rule: rtranclp_induct)
  case base
  then show ?case using assms(2) later_refl by blast
next
  case (step y z)
  then obtain b where b: "b \<in> set (ld_attempts y)" "later a b" by blast
  obtain new where n: "list_all2 later (ld_attempts y) (take (length (ld_attempts y)) (ld_attempts z))"
    using ledger_step_later [OF step(2)] by blast
  from b(1) obtain i where i: "i < length (ld_attempts y)" "ld_attempts y ! i = b" by (auto simp: in_set_conv_nth)
  with list_all2_nthD [OF n i(1)] have "later b (take (length (ld_attempts y)) (ld_attempts z) ! i)" by simp
  moreover have "take (length (ld_attempts y)) (ld_attempts z) ! i \<in> set (ld_attempts z)"
    using i(1) list_all2_lengthD [OF n] by (metis in_set_takeD nth_mem)
  ultimately show ?case using later_trans [OF b(2)] by blast
qed

section \<open>The invariant\<close>

lemma find_Some_eqI:
  assumes "P e" "\<And>x. x \<in> set xs \<Longrightarrow> P x \<Longrightarrow> x = e" "e \<in> set xs"
  shows "List.find P xs = Some e"
proof (cases "List.find P xs")
  case None
  then show ?thesis using assms(1,3) by (simp add: find_None_iff)
next
  case (Some y)
  then have "y \<in> set xs" "P y" by (auto simp: find_Some_iff)
  then show ?thesis using Some assms(2) by simp
qed


lemma later_maps:
  assumes "list_all2 later as bs"
  shows "map at_id bs = map at_id as" "map (\<lambda>a. (at_job a, at_request a)) bs = map (\<lambda>a. (at_job a, at_request a)) as"
  using assms by (induction rule: list_all2_induct) (auto simp: later_def)

lemma later_running: "later a b \<Longrightarrow> running b \<Longrightarrow> running a"
  by (cases a; cases b) (auto simp: later_def running_def)

lemma later_running_jobs:
  assumes "list_all2 later as bs" "distinct (map at_job (filter running as))"
  shows "distinct (map at_job (filter running bs))"
  using assms
proof (induction rule: list_all2_induct)
  case (Cons a as b bs)
  have sub: "at_job ` {x \<in> set bs. running x} \<subseteq> at_job ` {x \<in> set as. running x}"
    using Cons(2)
  proof (induction rule: list_all2_induct)
    case (Cons x xs y ys)
    then show ?case using later_running [of x y] by (auto simp: later_def)
  qed simp
  have "at_job b = at_job a" using Cons(1) by (simp add: later_def)
  then show ?case using Cons sub later_running [OF Cons(1)] by (auto split: if_splits)
qed simp

lemma later_set: "list_all2 later as bs \<Longrightarrow> b \<in> set bs \<Longrightarrow> \<exists>a\<in>set as. later a b"
  by (induction rule: list_all2_induct) auto

lemma later_lock: "later a b \<Longrightarrow> holds_lock locks b \<longleftrightarrow> holds_lock locks a"
  by (simp add: later_def holds_lock_def)

text \<open>An operation that only moves attempts on, and takes no lock away from one that is still running.\<close>

lemma ledger_ok_later:
  assumes "ledger_ok db" "list_all2 later (ld_attempts db) (ld_attempts db')" "distinct (map lk_scope (ld_locks db'))"
    "\<And>b. b \<in> set (ld_attempts db') \<Longrightarrow> running b \<Longrightarrow> holds_lock (ld_locks db) b \<Longrightarrow> holds_lock (ld_locks db') b"
  shows "ledger_ok db'"
proof -
  have "holds_lock (ld_locks db') b" if b: "b \<in> set (ld_attempts db')" "running b" for b
  proof -
    obtain a where a: "a \<in> set (ld_attempts db)" "later a b" using later_set [OF assms(2) b(1)] by blast
    have "holds_lock (ld_locks db) a" using assms(1) a later_running [OF a(2) b(2)] by (simp add: ledger_ok_def)
    then have "holds_lock (ld_locks db) b" using later_lock [OF a(2)] by simp
    then show ?thesis by (rule assms(4) [OF b])
  qed
  then show ?thesis
    using assms(1,3) later_maps [OF assms(2)] later_running_jobs [OF assms(2)] by (simp add: ledger_ok_def)
qed

lemma ledger_ok_same: "ledger_ok db \<Longrightarrow> ld_attempts db' = ld_attempts db \<Longrightarrow> ld_locks db' = ld_locks db \<Longrightarrow> ledger_ok db'"
  by (simp add: ledger_ok_def)

lemma release_lock:
  assumes "holds_lock locks b" "at_id b \<noteq> owner"
  shows "holds_lock (filter (\<lambda>l. \<not> (lk_scope l = scope \<and> lk_owner l = owner)) locks) b"
  using assms by (auto simp: holds_lock_def)

lemma distinct_filter_locks: "distinct (map lk_scope locks) \<Longrightarrow> distinct (map lk_scope (filter P locks))"
  by (simp add: distinct_map_filter)

lemma claim_ok:
  assumes ok: "ledger_ok db" and c: "running a" "ClaimRepairAttempt a v bv related db = Inr (existing, claimed, db')"
  shows "ledger_ok db'"
  using c(2)
proof (cases rule: claim_cases)
  case New
  have "(at_job a, at_request a) \<notin> (\<lambda>a. (at_job a, at_request a)) ` set (ld_attempts db)"
    using New(3) by (auto simp: find_None_iff same_request_def)
  moreover have "at_job a \<notin> at_job ` set (filter running (ld_attempts db))"
    using New(4) by (auto simp: job_running_def list_ex_iff)
  ultimately show ?thesis
    using ok New(5,6) by (auto simp: ledger_ok_def New(7,8) holds_lock_def)
qed (use ok in simp)

lemma finish_ok:
  assumes ok: "ledger_ok db" and f: "r \<in> set (ld_attempts db)" "at_id a = at_id r" "at_scope a = at_scope r" "\<not> running a"
  shows "ledger_ok (FinishRepairAttempt a payload db)" (is "ledger_ok ?db")
proof (rule ledger_ok_later [OF ok])
  show "list_all2 later (ld_attempts db) (ld_attempts ?db)"
    using update_rows_later [of "\<lambda>r. at_id r = at_id a \<and> running r"] by (simp add: FinishRepairAttempt_def later_def)
  show "distinct (map lk_scope (ld_locks ?db))"
    using ok by (simp add: FinishRepairAttempt_def ReleaseMigrationScope_def distinct_filter_locks ledger_ok_def)
  fix b assume b: "b \<in> set (ld_attempts ?db)" "running b" "holds_lock (ld_locks db) b"
  then have "at_id b \<noteq> at_id a"
    using f(4) by (auto simp: FinishRepairAttempt_def update_rows_def running_def split: if_splits)
  then show "holds_lock (ld_locks ?db) b"
    using release_lock [OF b(3)] by (simp add: FinishRepairAttempt_def ReleaseMigrationScope_def)
qed

lemma ledger_step_ok:
  assumes "ledger_step db db'" "ledger_ok db"
  shows "ledger_ok db'"
  using assms(1)
proof (cases rule: ledger_step.cases)
  case (Save job oid v ob)
  with assms(2) show ?thesis by (auto intro: ledger_ok_same simp: SaveMigrationRepairObject_def split: if_splits)
next
  case (Acquire scope owner)
  with assms(2) show ?thesis
    by (auto simp: AcquireMigrationScope_def ledger_ok_def holds_lock_def list_ex_iff split: if_splits)
next
  case (Release owner scope)
  show ?thesis
  proof (rule ledger_ok_later [OF assms(2)])
    fix b assume "b \<in> set (ld_attempts db')" "running b" "holds_lock (ld_locks db) b"
    with Release show "holds_lock (ld_locks db') b" using release_lock by (auto simp: ReleaseMigrationScope_def)
  qed (use Release assms(2) in \<open>simp_all add: later_refl_all ReleaseMigrationScope_def distinct_filter_locks ledger_ok_def\<close>)
next
  case (Claim a v bv related existing claimed)
  then show ?thesis using claim_ok assms(2) by blast
next
  case (Progress a ob us previous)
  then show ?thesis
    using assms(2) update_rows_later [of "\<lambda>r. at_id r = at_id a \<and> running r"]
    by (intro ledger_ok_later [OF assms(2)]) (simp_all add: persistRepairProgress_def later_def ledger_ok_def)
next
  case (Result a res)
  then show ?thesis
    using assms(2) update_rows_later [of "\<lambda>r. at_id r = at_id a \<and> running r"]
    by (intro ledger_ok_later [OF assms(2)]) (simp_all add: save_result_def later_def ledger_ok_def)
next
  case (Cancel aid)
  then show ?thesis
    using assms(2) update_rows_later [of "\<lambda>r. at_id r = aid"]
    by (intro ledger_ok_later [OF assms(2)]) (simp_all add: request_cancel_def later_def ledger_ok_def)
next
  case (Finish r a payload)
  then show ?thesis using finish_ok [OF assms(2)] by blast
next
  case (Recover job ob)
  with assms(2) show ?thesis by (auto intro: ledger_ok_same simp: persistRecoveryData_def bind_res_Inr_iff)
next
  case Restart
  have "\<not> running (stop_attempt a)" for a by (auto simp: stop_attempt_def running_def)
  then have none: "\<not> (b \<in> set (ld_attempts db') \<and> running b)" for b using restart_attempts(1) [OF Restart] by auto
  have "list_all2 later (ld_attempts db) (ld_attempts db')"
    by (simp add: restart_attempts [OF Restart] stop_attempt_def later_def list_all2_conv_all_nth)
  then show ?thesis
    by (rule ledger_ok_later [OF assms(2)]) (use none restart_attempts(2) [OF Restart] in auto)
qed (use assms(2) in \<open>auto intro: ledger_ok_same\<close>)

lemma ledger_steps_ok: "ledger_steps db db' \<Longrightarrow> ledger_ok db \<Longrightarrow> ledger_ok db'"
  by (induction rule: rtranclp_induct) (blast intro: ledger_step_ok)+

lemma no_ledger_ok: "ledger_ok no_ledger"
  by (simp add: no_ledger_def ledger_ok_def)

section \<open>Properties\<close>

text \<open>C15: Two repairs that are running at the same time belong to different jobs and to different targets, whatever
  the clients, the workers, the migrations and restarts of the service do in between: while a repair runs, nobody else
  (neither a repair nor a migration) gets the lock of its target.\<close>

theorem repair_exclusive:
  assumes "ledger_steps no_ledger db" "a \<in> set (ld_attempts db)" "running a"
  shows "AcquireMigrationScope (at_scope a) owner db = Inl RepairConflict \<and>
    (\<forall>b\<in>set (ld_attempts db). running b \<and> at_id b \<noteq> at_id a \<longrightarrow> at_job b \<noteq> at_job a \<and> at_scope b \<noteq> at_scope a)"
proof -
  have ok: "ledger_ok db" by (rule ledger_steps_ok [OF assms(1) no_ledger_ok])
  have "AcquireMigrationScope (at_scope a) owner db = Inl RepairConflict"
    using ok assms(2,3) by (auto simp: ledger_ok_def holds_lock_def AcquireMigrationScope_def list_ex_iff)
  moreover have "at_job b \<noteq> at_job a \<and> at_scope b \<noteq> at_scope a"
    if b: "b \<in> set (ld_attempts db)" "running b" "at_id b \<noteq> at_id a" for b
  proof
    show "at_job b \<noteq> at_job a"
      using ok assms(2,3) b by (auto simp: ledger_ok_def distinct_map inj_on_def)
    obtain l m where "l \<in> set (ld_locks db)" "lk_scope l = at_scope a" "lk_owner l = at_id a"
        "m \<in> set (ld_locks db)" "lk_scope m = at_scope b" "lk_owner m = at_id b"
      using ok assms(2,3) b(1,2) unfolding ledger_ok_def holds_lock_def by blast
    then show "at_scope b \<noteq> at_scope a"
      using ok b(3) by (auto simp: ledger_ok_def distinct_map inj_on_def)
  qed
  ultimately show ?thesis by blast
qed

text \<open>C14: A request is executed at most once. After the call that started an attempt for it, every later call with the
  same job and request gets that attempt back and starts nothing, or is refused because its content is another; it
  never changes the ledger. This holds across any number of operations of other clients and restarts.\<close>

theorem request_once:
  assumes "ledger_steps no_ledger db" "running a" "ClaimRepairAttempt a v bv related db = Inr (existing, True, db1)" "ledger_steps db1 db2"
    "at_job b = at_job a" "at_request b = at_request a"
  shows "(if at_hash b = at_hash a
      then \<exists>e. ClaimRepairAttempt b v' bv' related' db2 = Inr (e, False, db2) \<and> at_id e = at_id a
      else ClaimRepairAttempt b v' bv' related' db2 = Inl RepairConflict)"
proof -
  have "ledger_ok db" by (rule ledger_steps_ok [OF assms(1) no_ledger_ok])
  then have "ledger_ok db1" by (rule claim_ok [OF _ assms(2,3)])
  then have ok: "ledger_ok db2" by (rule ledger_steps_ok [OF assms(4)])
  have "a \<in> set (ld_attempts db1)" using assms(3) by (cases rule: claim_cases) simp_all
  then obtain e where e: "e \<in> set (ld_attempts db2)" "later a e" using ledger_steps_later [OF assms(4)] by blast
  have "List.find (same_request b) (ld_attempts db2) = Some e"
  proof (rule find_Some_eqI)
    show "same_request b e" using e(2) assms(5,6) by (simp add: same_request_def later_def)
    show "x = e" if "x \<in> set (ld_attempts db2)" "same_request b x" for x
      using ok e that assms(5,6) by (auto simp: ledger_ok_def same_request_def later_def distinct_map inj_on_def)
  qed (rule e(1))
  then show ?thesis using e(2) by (auto simp: ClaimRepairAttempt_def later_def)
qed

text \<open>C17: The outcome of a repair is final: once an attempt has ended, its status, units, result and error stay as they
  are for ever, whatever operations follow, restarts of the service included.\<close>

theorem repair_outcome_final:
  assumes "a \<in> set (ld_attempts db)" "at_status a \<noteq> ''running''" "ledger_steps db db'"
  shows "\<exists>b\<in>set (ld_attempts db'). b = a\<lparr>at_cancel := at_cancel b\<rparr>"
  using ledger_steps_later [OF assms(3,1)] assms(2) by (auto simp: later_def running_def)

section \<open>After a restart\<close>

lemma find_list_all2:
  assumes "list_all2 R xs ys" "\<And>x y. R x y \<Longrightarrow> P x = P y" "List.find P xs = Some x"
  shows "\<exists>y. List.find P ys = Some y \<and> R x y"
  using assms(1,3) by (induction rule: list_all2_induct) (auto simp: assms(2) split: if_splits)

lemma get_row_update:
  assumes "\<And>r. object_key job ob r \<Longrightarrow> object_key job ob (f r)"
  shows "GetMigrationRepairObject job ob (db\<lparr>ld_objects := update_rows (object_key job ob) f (ld_objects db)\<rparr>) =
    (case GetMigrationRepairObject job ob db of Inl e \<Rightarrow> Inl e | Inr r \<Rightarrow> Inr (f r))"
proof -
  have "List.find (object_key job ob) (update_rows (object_key job ob) f rs) =
      map_option f (List.find (object_key job ob) rs)" for rs
    by (induction rs) (simp_all add: update_rows_def assms)
  then show ?thesis by (simp add: GetMigrationRepairObject_def split: option.split)
qed

lemma get_row_other:
  assumes "job' \<noteq> job"
  shows "GetMigrationRepairObject job ob (db\<lparr>ld_objects := update_rows (object_key job' ob')
      (\<lambda>r. r\<lparr>or_payload := p r, or_version := v r\<rparr>) (ld_objects db)\<rparr>) = GetMigrationRepairObject job ob db"
proof -
  have "List.find (object_key job ob) (update_rows (object_key job' ob') (\<lambda>r. r\<lparr>or_payload := p r, or_version := v r\<rparr>) rs) =
      List.find (object_key job ob) rs" for rs
    by (induction rs) (use assms in \<open>auto simp: update_rows_def object_key_def\<close>)
  then show ?thesis by (simp add: GetMigrationRepairObject_def)
qed

lemma mark_active_other:
  "mark_active as dl db = Inr (dl', db') \<Longrightarrow> job \<notin> at_job ` set as \<Longrightarrow>
     GetMigrationRepairObject job ob db' = GetMigrationRepairObject job ob db"
  by (induction as dl db rule: mark_active.induct)
    (auto simp: bind_res_Inr_iff get_row_other split: option.splits)

lemma mark_active_row:
  "mark_active as dl db = Inr (dl', db') \<Longrightarrow> distinct (map at_job as) \<Longrightarrow> a \<in> set as \<Longrightarrow>
     \<exists>r ob. GetMigrationRepairObject (at_job a) (at_object a) db = Inr r \<and> or_payload r = Some ob \<and>
       GetMigrationRepairObject (at_job a) (at_object a) db' =
         Inr (r\<lparr>or_payload := Some (interrupted a ob), or_version := or_version r + 1\<rparr>)"
proof (induction as dl db rule: mark_active.induct)
  case (2 b as dl db)
  let ?f = "\<lambda>r ob x. x\<lparr>or_payload := Some (interrupted b ob), or_version := or_version r + 1\<rparr>"
  from "2.prems"(1) obtain r ob where r: "GetMigrationRepairObject (at_job b) (at_object b) db = Inr r" "or_payload r = Some ob"
      and rest: "mark_active as (if data_committed b then dl @ [(at_job b, interrupted b ob)] else dl)
        (db\<lparr>ld_objects := update_rows (object_key (at_job b) (at_object b)) (?f r ob) (ld_objects db)\<rparr>) = Inr (dl', db')"
    by (auto simp: bind_res_Inr_iff split: option.splits)
  show ?case
  proof (cases "a = b")
    case True
    have "at_job b \<notin> at_job ` set as" using "2.prems"(2) by auto
    then show ?thesis
      using mark_active_other [OF rest, of "at_job b" "at_object b"] r get_row_update [of "at_job b" "at_object b" "?f r ob" db]
      by (auto simp: True object_key_def)
  next
    case False
    then have a: "a \<in> set as" "at_job b \<noteq> at_job a" using "2.prems" by auto
    from "2.IH" [OF r(2) rest _ a(1)] "2.prems"(2) show ?thesis by (simp add: get_row_other [OF a(2)])
  qed
qed simp

lemma mark_active_done:
  "mark_active as dl db = Inr (dl', db') \<Longrightarrow> x \<in> set dl' \<Longrightarrow> x \<in> set dl \<or> (\<exists>a\<in>set as. data_committed a \<and> at_job a = fst x)"
proof (induction as dl db rule: mark_active.induct)
  case (2 a as dl db)
  then show ?case by (fastforce simp: bind_res_Inr_iff split: option.splits if_splits)
qed simp

lemma settle_settled:
  assumes "settle dl job ob = (changed, ob')"
  shows "ro_status ob' \<noteq> ''running''" "ro_data_status ob' \<noteq> ''running''" "list_all (\<lambda>u. un_status u \<noteq> ''running'') (ro_units ob')"
  using assms
  by (auto simp: settle_def Let_def mark_data_def stop_unit_def list_all_iff split: prod.splits if_splits)

lemma settle_unchanged: "settle dl job ob = (False, ob') \<Longrightarrow> ob' = ob"
proof -
  have units: "map stop_unit us = us" if "\<not> list_ex (\<lambda>u. un_status u = ''running'') us" for us
    using that by (induction us) (simp_all add: stop_unit_def)
  show "settle dl job ob = (False, ob') \<Longrightarrow> ob' = ob"
    by (cases "NormalizeLegacyExecution ob") (auto simp: settle_def Let_def NormalizeLegacyExecution_def units split: if_splits)
qed

lemma settle_unknown:
  assumes "settle dl job ob = (changed, ob')" "ro_status ob = ''unknown''" "\<forall>x\<in>set dl. fst x \<noteq> job"
  shows "ro_status ob' = ''unknown''"
proof -
  have "\<not> list_ex (\<lambda>(j, d). j = job \<and> same_data ob d) dl" using assms(3) by (auto simp: list_ex_iff)
  then show ?thesis using assms(1,2) by (auto simp: settle_def Let_def NormalizeLegacyExecution_def split: if_splits)
qed

text \<open>C16: A restart of the service settles everything and replays nothing. No attempt, object or unit stays in
  execution and no lock stays held; a repair that was interrupted is recorded as unknown, never as done or as
  open, and the version of its object has moved on, so that drafts and claims made before the restart are refused.\<close>

theorem restart_settles:
  assumes "ledger_steps no_ledger db" "MarkInterruptedRepairsUnknown db = Inr db'"
  shows "ld_locks db' = [] \<and> \<not> list_ex running (ld_attempts db') \<and>
    (\<forall>r\<in>set (ld_objects db'). \<exists>ob. or_payload r = Some ob \<and> ro_status ob \<noteq> ''running'' \<and> ro_data_status ob \<noteq> ''running'' \<and>
       list_all (\<lambda>u. un_status u \<noteq> ''running'') (ro_units ob)) \<and>
    (\<forall>a\<in>set (ld_attempts db). running a \<and> at_kind a = ''ddl'' \<longrightarrow>
       (\<exists>r r' ob. GetMigrationRepairObject (at_job a) (at_object a) db = Inr r \<and>
          GetMigrationRepairObject (at_job a) (at_object a) db' = Inr r' \<and> or_version r < or_version r' \<and>
          or_payload r' = Some ob \<and> ro_status ob = ''unknown''))"
proof -
  have ok: "ledger_ok db" by (rule ledger_steps_ok [OF assms(1) no_ledger_ok])
  obtain dl db1 rows where m: "mark_active (filter running (ld_attempts db)) [] db = Inr (dl, db1)"
      and rows: "map_res (settle_row dl) (ld_objects db1) = Inr rows" and db': "ld_objects db' = map snd rows"
    using assms(2) by (auto simp: MarkInterruptedRepairsUnknown_def bind_res_Inr_iff)
  have R: "list_all2 (\<lambda>x r. \<exists>ch. settle_row dl x = Inr (ch, r)) (ld_objects db1) (ld_objects db')"
    using rows unfolding map_res_Inr db' list_all2_map2 by (rule list_all2_mono) (metis prod.collapse)
  have row: "\<exists>ob ch ob'. or_payload x = Some ob \<and> settle dl (or_job x) ob = (ch, ob') \<and> or_payload r = Some ob' \<and>
      or_version x \<le> or_version r \<and> or_job r = or_job x \<and> or_object r = or_object x"
    if st: "\<exists>ch. settle_row dl x = Inr (ch, r)" for x r
  proof -
    obtain ob ch ob' where x: "or_payload x = Some ob" "settle dl (or_job x) ob = (ch, ob')"
        "r = (if ch then x\<lparr>or_payload := Some ob', or_version := or_version x + 1\<rparr> else x)"
    proof (cases "or_payload x")
      case None
      then show ?thesis using st by (simp add: settle_row_def)
    next
      case (Some ob)
      obtain ch ob' where s: "settle dl (or_job x) ob = (ch, ob')" by fastforce
      from st have "r = (if ch then x\<lparr>or_payload := Some ob', or_version := or_version x + 1\<rparr> else x)"
        by (simp add: settle_row_def Some s)
      then show ?thesis by (rule that(1) [OF Some s])
    qed
    have "or_payload r = Some ob' \<and> or_version x \<le> or_version r \<and> or_job r = or_job x \<and> or_object r = or_object x"
    proof (cases ch)
      case True
      then show ?thesis by (simp add: x(3))
    next
      case False
      then have "ob' = ob" using x(2) settle_unchanged by simp
      then show ?thesis using False x(1) by (simp add: x(3))
    qed
    with x(1,2) show ?thesis by blast
  qed
  have objects: "\<exists>ob. or_payload r = Some ob \<and> ro_status ob \<noteq> ''running'' \<and> ro_data_status ob \<noteq> ''running'' \<and>
      list_all (\<lambda>u. un_status u \<noteq> ''running'') (ro_units ob)" if r: "r \<in> set (ld_objects db')" for r
  proof -
    obtain x where "\<exists>ch. settle_row dl x = Inr (ch, r)" using R r by (induction rule: list_all2_induct) auto
    from row [OF this] settle_settled show ?thesis by blast
  qed
  have ddl: "\<exists>r r' ob. GetMigrationRepairObject (at_job a) (at_object a) db = Inr r \<and>
      GetMigrationRepairObject (at_job a) (at_object a) db' = Inr r' \<and> or_version r < or_version r' \<and>
      or_payload r' = Some ob \<and> ro_status ob = ''unknown''"
    if a: "a \<in> set (ld_attempts db)" "running a" "at_kind a = ''ddl''" for a
  proof -
    have jobs: "distinct (map at_job (filter running (ld_attempts db)))" using ok by (simp add: ledger_ok_def)
    obtain r ob where r: "GetMigrationRepairObject (at_job a) (at_object a) db = Inr r" and
        r1: "GetMigrationRepairObject (at_job a) (at_object a) db1 =
          Inr (r\<lparr>or_payload := Some (interrupted a ob), or_version := or_version r + 1\<rparr>)"
      using mark_active_row [OF m jobs, of a] a(1,2) by auto
    have none: "\<forall>x\<in>set dl. fst x \<noteq> at_job a"
    proof (intro ballI notI)
      fix x assume "x \<in> set dl" "fst x = at_job a"
      then obtain b where "b \<in> set (ld_attempts db)" "running b" "data_committed b" "at_job b = at_job a"
        using mark_active_done [OF m, of x] by auto
      moreover from this have "b = a" using jobs a by (auto simp: distinct_map inj_on_def)
      ultimately show False using a(3) by (simp add: data_committed_def)
    qed
    let ?r1 = "r\<lparr>or_payload := Some (interrupted a ob), or_version := or_version r + 1\<rparr>"
    have "List.find (object_key (at_job a) (at_object a)) (ld_objects db1) = Some ?r1"
      using r1 by (simp add: GetMigrationRepairObject_def split: option.splits)
    moreover have "object_key j k x = object_key j k y" if "\<exists>ch. settle_row dl x = Inr (ch, y)" for j k x y
      using row [OF that] by (auto simp: object_key_def)
    ultimately obtain r' where r': "List.find (object_key (at_job a) (at_object a)) (ld_objects db') = Some r'"
        "\<exists>ch. settle_row dl ?r1 = Inr (ch, r')"
      using find_list_all2 [OF R, of "object_key (at_job a) (at_object a)" ?r1] by blast
    obtain ch ob' where s: "settle dl (or_job r) (interrupted a ob) = (ch, ob')" "or_payload r' = Some ob'" "or_version r < or_version r'"
      using row [OF r'(2)] by auto
    have "or_job r = at_job a" using r by (auto simp: GetMigrationRepairObject_def find_Some_iff object_key_def split: option.splits)
    with none have "ro_status ob' = ''unknown''"
      using settle_unknown [OF s(1)] a(3) by (simp add: interrupted_def data_committed_def)
    then show ?thesis using r r'(1) s(2,3) by (auto simp: GetMigrationRepairObject_def)
  qed
  have "\<not> running (stop_attempt a)" for a by (auto simp: stop_attempt_def running_def)
  then show ?thesis using restart_attempts [OF assms(2)] objects ddl by (auto simp: list_ex_iff)
qed

section \<open>Two repairs\<close>

definition demo_unit :: "string \<Rightarrow> string \<Rightarrow> saved_unit" where
  "demo_unit uid sql = \<lparr>un_id = uid, un_sql = sql, un_original = sql, un_status = ''failed'', un_error = ''e'', un_selected = True,
     un_destructive = False\<rparr>"

definition demo_object :: saved_object where
  "demo_object = \<lparr>ro_id = ''o'', ro_kind = ''index'', ro_name = ''i'', ro_table = ''t'', ro_source_table = ''t'', ro_schema = ''s'',
     ro_target_name = ''i'', ro_ddl = ''ddl'', ro_status = ''failed'', ro_data_status = [], ro_error = [],
     ro_units = [demo_unit ''u1'' ''CREATE A'', demo_unit ''u2'' ''CREATE B''], ro_dependencies = [], ro_diagnostic = False,
     ro_requires_review = False, ro_manual_trigger = False, ro_native = False, ro_pg_trigger = False, ro_dm_trigger = False,
     ro_partition = False, ro_column_mapping = []\<rparr>"

definition demo_binding :: "string \<Rightarrow> binding_row" where
  "demo_binding job = \<lparr>bd_job = job, bd_src_conn = 1, bd_dst_conn = 2, bd_schema = ''s'', bd_configured = True, bd_version = 1\<rparr>"

definition demo_row :: "string \<Rightarrow> object_row" where
  "demo_row job = \<lparr>or_job = job, or_object = ''o'', or_payload = Some demo_object, or_version = 1\<rparr>"

definition demo_attempt :: "string \<Rightarrow> string \<Rightarrow> string \<Rightarrow> attempt_row" where
  "demo_attempt aid job scope = \<lparr>at_id = aid, at_job = job, at_request = ''r'', at_hash = ''h'', at_object = ''o'', at_owner = 1,
     at_kind = ''ddl'', at_status = ''running'', at_scope = scope, at_units = ro_units demo_object, at_result = None, at_error = [],
     at_cancel = False\<rparr>"

definition demo_seeded :: ledger where
  "demo_seeded = SeedMigrationRepairs (demo_binding ''k'') [demo_row ''k'']
     (SeedMigrationRepairs (demo_binding ''j'') [demo_row ''j''] no_ledger)"

definition demo_claimed :: "ledger \<Rightarrow> attempt_row \<Rightarrow> ledger" where
  "demo_claimed db a = (case ClaimRepairAttempt a 1 1 [] db of Inr (_, _, db') \<Rightarrow> db' | Inl _ \<Rightarrow> db)"

definition demo_one :: ledger where "demo_one = demo_claimed demo_seeded (demo_attempt ''a'' ''j'' ''x'')"
definition demo_two :: ledger where "demo_two = demo_claimed demo_one (demo_attempt ''b'' ''k'' ''y'')"

lemma demo_claims:
  "ClaimRepairAttempt (demo_attempt ''a'' ''j'' ''x'') 1 1 [] demo_seeded = Inr (demo_attempt ''a'' ''j'' ''x'', True, demo_one)"
  "ClaimRepairAttempt (demo_attempt ''b'' ''k'' ''y'') 1 1 [] demo_one = Inr (demo_attempt ''b'' ''k'' ''y'', True, demo_two)"
  by code_simp+

lemma ledger_snoc: "ledger_steps a b \<Longrightarrow> ledger_step b c \<Longrightarrow> ledger_steps a c"
  by (rule rtranclp.rtrancl_into_rtrancl)

lemma ledger_once: "ledger_step a b \<Longrightarrow> ledger_steps a b"
  by (rule r_into_rtranclp)

lemma demo_reached: "ledger_steps no_ledger demo_seeded" "ledger_steps demo_one demo_two"
proof -
  show "ledger_steps no_ledger demo_seeded"
    unfolding demo_seeded_def by (rule ledger_snoc [OF ledger_once [OF ledger_step.Seed] ledger_step.Seed])
  show "ledger_steps demo_one demo_two"
    by (rule ledger_once [OF ledger_step.Claim [OF _ demo_claims(2)]]) (simp add: running_def demo_attempt_def)
qed

lemma demo_one_reached: "ledger_steps no_ledger demo_one"
  by (rule ledger_snoc [OF demo_reached(1) ledger_step.Claim [OF _ demo_claims(1)]]) (simp add: running_def demo_attempt_def)

theorem repair_exclusive_witness:
  "AcquireMigrationScope ''x'' ''m'' demo_two = Inl RepairConflict \<and>
   (\<exists>b\<in>set (ld_attempts demo_two). running b \<and> at_id b = ''b'' \<and> at_job b \<noteq> ''j'' \<and> at_scope b \<noteq> ''x'')"
proof -
  let ?a = "demo_attempt ''a'' ''j'' ''x''" and ?b = "demo_attempt ''b'' ''k'' ''y''"
  have "ledger_steps no_ledger demo_two" using rtranclp_trans [OF demo_one_reached demo_reached(2)] .
  moreover have "ld_attempts demo_two = [?a, ?b]" by code_simp
  ultimately show ?thesis
    using repair_exclusive [of demo_two ?a "''m''"] by (simp add: running_def demo_attempt_def)
qed

theorem request_once_witness:
  "\<exists>e. ClaimRepairAttempt (demo_attempt ''c'' ''j'' ''z'') 7 1 [] demo_two = Inr (e, False, demo_two) \<and> at_id e = ''a''"
  using request_once [OF demo_reached(1) _ demo_claims(1) demo_reached(2), of "demo_attempt ''c'' ''j'' ''z''" 7 1 "[]"]
  by (simp add: running_def demo_attempt_def)

definition demo_done :: ledger where
  "demo_done = finishRepair ((demo_attempt ''a'' ''j'' ''x'')\<lparr>at_units := [demo_unit ''u1'' ''CREATE A'']\<rparr>) demo_object None demo_one"

theorem repair_outcome_final_witness:
  "\<exists>a\<in>set (ld_attempts demo_done). at_status a = ''succeeded'' \<and>
     (\<exists>b\<in>set (ld_attempts (request_cancel ''a'' demo_done)). b = a\<lparr>at_cancel := at_cancel b\<rparr>)"
proof -
  have "list_ex (\<lambda>a. at_status a = ''succeeded'') (ld_attempts demo_done)" by code_simp
  then obtain a where a: "a \<in> set (ld_attempts demo_done)" "at_status a = ''succeeded''" by (auto simp: list_ex_iff)
  moreover have "ledger_steps demo_done (request_cancel ''a'' demo_done)"
    by (rule ledger_once [OF ledger_step.Cancel])
  ultimately show ?thesis using repair_outcome_final [of a demo_done "request_cancel ''a'' demo_done"] by auto
qed

theorem restart_settles_witness:
  "\<exists>db'. MarkInterruptedRepairsUnknown demo_one = Inr db' \<and> ld_locks db' = [] \<and> \<not> list_ex running (ld_attempts db')"
proof -
  have "is_ok (MarkInterruptedRepairsUnknown demo_one)" by code_simp
  then obtain db' where "MarkInterruptedRepairsUnknown demo_one = Inr db'"
    by (cases "MarkInterruptedRepairsUnknown demo_one") auto
  with restart_settles [OF demo_one_reached this] show ?thesis by blast
qed

end
