(* ===== verification/QuerySql.thy ===== *)
theory QuerySql
  imports GoPrelude
begin

text \<open>
  The query centre's look at a statement (\<^verbatim>\<open>api/handler/query_sql.go\<close>) and the confirmation it asks for
  (\<^verbatim>\<open>ExecuteQuery\<close> in \<^verbatim>\<open>api/handler/query.go\<close>). The scanner works on bytes, with the classes of Latin-1;
  upper case is the ASCII one, which decides every comparison with a keyword.
\<close>

section \<open>Characters\<close>

definition latin_space :: "char \<Rightarrow> bool" where
  "latin_space c \<longleftrightarrow> is_space c \<or> c = CHR 0x85 \<or> c = CHR 0xA0"

definition latin_letter :: "char \<Rightarrow> bool" where
  "latin_letter c \<longleftrightarrow> (let n = (of_char c :: nat) in
     (65 \<le> n \<and> n \<le> 90) \<or> (97 \<le> n \<and> n \<le> 122) \<or> n = 0xAA \<or> n = 0xB5 \<or> n = 0xBA \<or> (0xC0 \<le> n \<and> n \<noteq> 0xD7 \<and> n \<noteq> 0xF7))"

definition word_start :: "char \<Rightarrow> bool" where
  "word_start c \<longleftrightarrow> latin_letter c \<or> c = CHR ''_''"

definition tag_char :: "char \<Rightarrow> bool" where
  "tag_char c \<longleftrightarrow> latin_letter c \<or> is_digit c \<or> c = CHR ''_''"

definition word_char :: "char \<Rightarrow> bool" where
  "word_char c \<longleftrightarrow> tag_char c \<or> c = CHR ''$''"

definition quote_char :: "char \<Rightarrow> bool" where
  "quote_char c \<longleftrightarrow> c = CHR 0x27 \<or> c = CHR 0x22 \<or> c = CHR 0x60"

section \<open>The scanner\<close>

datatype query_error =
    OpenComment | OpenQuote | OpenDollar | OpenParen
  | EmptySql | TooLong | Delimiter | NotOneStatement | Transaction

record scan_state =
  ss_tokens :: "string list"
  ss_statements :: nat
  ss_content :: bool
  ss_depth :: nat

text \<open>What follows the first occurrence of a text.\<close>

definition text_after :: "string \<Rightarrow> string \<Rightarrow> string option" where
  "text_after p s = map_option (\<lambda>i. drop (i + length p) s) (str_index s p)"

fun close_quote :: "char \<Rightarrow> string \<Rightarrow> string option" where
  "close_quote q [] = None"
| "close_quote q (c # s) =
     (if c = CHR 0x5C \<and> q = CHR 0x27 \<and> s \<noteq> [] then close_quote q (tl s)
      else if c = q then (if s \<noteq> [] \<and> hd s = q then close_quote q (tl s) else Some s)
      else close_quote q s)"

definition dollar_tag :: "string \<Rightarrow> string option" where
  "dollar_tag s =
     (let name = takeWhile tag_char s; rest = dropWhile tag_char s in
      if rest \<noteq> [] \<and> hd rest = CHR ''$'' then Some (CHR ''$'' # name @ ''$'') else None)"

definition seen :: "scan_state \<Rightarrow> scan_state" where
  "seen st = st\<lparr>ss_content := True\<rparr>"

definition end_line :: "string \<Rightarrow> string" where
  "end_line s = dropWhile (\<lambda>c. c \<noteq> CHR 0x0A) s"

definition finish_scan :: "scan_state \<Rightarrow> query_error + string list \<times> nat" where
  "finish_scan st =
     (if ss_depth st \<noteq> 0 then Inl OpenParen
      else Inr (ss_tokens st, if ss_content st then ss_statements st + 1 else ss_statements st))"

definition after_semicolon :: "scan_state \<Rightarrow> scan_state" where
  "after_semicolon st = (if ss_content st then st\<lparr>ss_statements := ss_statements st + 1, ss_content := False\<rparr> else st)"

definition add_word :: "string \<Rightarrow> scan_state \<Rightarrow> scan_state" where
  "add_word w st = seen (st\<lparr>ss_tokens := ss_tokens st @ [to_upper w]\<rparr>)"

lemma text_after_shorter: "text_after p s = Some r \<Longrightarrow> length r \<le> length s"
  by (auto simp: text_after_def)

lemma text_after_tail: "text_after p (tl (dropWhile P s)) = Some r \<Longrightarrow> length r \<le> length s"
  using text_after_shorter [of p "tl (dropWhile P s)" r] length_dropWhile_le [of P s] by simp

lemma close_quote_shorter: "close_quote q s = Some r \<Longrightarrow> length r < length s"
  by (induction q s rule: close_quote.induct) (auto split: if_splits simp: less_Suc_eq)

lemma end_line_shorter: "length (end_line s) \<le> length s"
  by (simp add: end_line_def length_dropWhile_le)

function scan_query :: "string \<Rightarrow> scan_state \<Rightarrow> query_error + string list \<times> nat" where
  "scan_query [] st = finish_scan st"
| "scan_query (c # s) st =
     (if latin_space c then scan_query s st
      else if c = CHR ''-'' \<and> take 1 s = ''-'' then scan_query (end_line (tl s)) st
      else if c = CHR ''#'' then scan_query (end_line s) st
      else if c = CHR ''/'' \<and> take 1 s = ''*'' then
        (case text_after ''*/'' (tl s) of None \<Rightarrow> Inl OpenComment | Some r \<Rightarrow> scan_query r st)
      else if quote_char c then
        (case close_quote c s of None \<Rightarrow> Inl OpenQuote | Some r \<Rightarrow> scan_query r (seen st))
      else if c = CHR ''$'' \<and> dollar_tag s \<noteq> None then
        (case text_after (the (dollar_tag s)) (tl (dropWhile tag_char s)) of None \<Rightarrow> Inl OpenDollar | Some r \<Rightarrow> scan_query r (seen st))
      else if c = CHR ''('' then scan_query s (seen (st\<lparr>ss_depth := ss_depth st + 1\<rparr>))
      else if c = CHR '')'' then scan_query s (seen (st\<lparr>ss_depth := ss_depth st - 1\<rparr>))
      else if c = CHR '';'' \<and> ss_depth st = 0 then scan_query s (after_semicolon st)
      else if word_start c then scan_query (dropWhile word_char s) (add_word (c # takeWhile word_char s) st)
      else scan_query s (seen st))"
  by pat_completeness auto
termination
  by (relation "measure (\<lambda>(s, st). length s)")
    (auto simp: less_Suc_eq_le length_dropWhile_le dest: text_after_shorter close_quote_shorter text_after_tail
      intro: order_trans [OF end_line_shorter])

definition scanQueryTokens :: "string \<Rightarrow> query_error + string list \<times> nat" where
  "scanQueryTokens s = scan_query s \<lparr>ss_tokens = [], ss_statements = 0, ss_content = False, ss_depth = 0\<rparr>"

section \<open>The analysis\<close>

definition transaction_words :: "string list" where
  "transaction_words = [''BEGIN'', ''START'', ''COMMIT'', ''ROLLBACK'', ''SAVEPOINT'', ''RELEASE'']"

definition read_words :: "string list" where
  "read_words = [''SELECT'', ''SHOW'', ''DESCRIBE'', ''DESC'', ''EXPLAIN'']"

definition write_words :: "string list" where
  "write_words = [''INSERT'', ''UPDATE'', ''DELETE'', ''MERGE'', ''REPLACE'']"

record analysis =
  an_statement :: string
  an_risk :: string
  an_returns :: bool

definition main_keyword :: "string list \<Rightarrow> string" where
  "main_keyword ts =
     (if hd ts = ''WITH'' then (case List.find (\<lambda>t. t \<in> set write_words) (tl ts) of None \<Rightarrow> ''SELECT'' | Some t \<Rightarrow> t) else hd ts)"

fun into_file :: "string list \<Rightarrow> bool" where
  "into_file (a # b # ts) = ((a = ''INTO'' \<and> b \<in> set [''OUTFILE'', ''DUMPFILE'']) \<or> into_file (b # ts))"
| "into_file _ = False"

text \<open>Unicode upper case also turns the dotless i (bytes C4 B1) into an ASCII letter.\<close>

fun upper_prefix :: "string \<Rightarrow> string \<Rightarrow> bool" where
  "upper_prefix [] s = True"
| "upper_prefix (p # ps) s =
     ((s \<noteq> [] \<and> upper_char (hd s) = p \<and> upper_prefix ps (tl s)) \<or>
      (p = CHR ''I'' \<and> take 2 s = [CHR 0xC4, CHR 0xB1] \<and> upper_prefix ps (drop 2 s)))"

declare upper_prefix.simps [simp del]

definition classify :: "string list \<Rightarrow> analysis" where
  "classify ts =
     (let k = main_keyword ts in
      if k \<in> set read_words then
        \<lparr>an_statement = to_lower k, an_risk = (if into_file ts then ''dangerous'' else ''readonly''), an_returns = True\<rparr>
      else if k \<in> set write_words then
        \<lparr>an_statement = to_lower k, an_risk = ''write'', an_returns = (''RETURNING'' \<in> set ts)\<rparr>
      else \<lparr>an_statement = to_lower k, an_risk = ''dangerous'', an_returns = False\<rparr>)"

definition analyzeQuerySQL :: "string \<Rightarrow> query_error + analysis" where
  "analyzeQuerySQL text =
     (let s = trim_space text in
      if s = [] then Inl EmptySql
      else if 2 ^ 20 < int (length s) then Inl TooLong
      else if upper_prefix ''DELIMITER'' s then Inl Delimiter
      else
        bind_res (scanQueryTokens s) (\<lambda>(ts, n).
          if n \<noteq> 1 then Inl NotOneStatement
          else if ts = [] then Inl EmptySql
          else if main_keyword ts \<in> set transaction_words then Inl Transaction
          else Inr (classify ts)))"

text \<open>The environment's name, in UTF-8 (\<open>production\<close> in Chinese is E7 94 9F E4 BA A7).\<close>

definition isProductionEnvironment :: "string \<Rightarrow> bool" where
  "isProductionEnvironment env =
     (let e = to_lower (trim_space env) in
      str_contains e [CHR 0xE7, CHR 0x94, CHR 0x9F, CHR 0xE4, CHR 0xBA, CHR 0xA7] \<or> str_contains e ''production'' \<or> str_contains e ''prod'')"

record query_request =
  qr_sql :: string
  qr_confirmed :: bool
  qr_text :: string

datatype query_gate = BadQuery query_error | NeedsConfirmation string string | RunRows | RunCommand

definition confirmation_mode :: "string \<Rightarrow> string \<Rightarrow> string" where
  "confirmation_mode env risk =
     (if risk = ''dangerous'' then (if isProductionEnvironment env then ''type_connection_name'' else ''click'')
      else if risk = ''write'' then ''click'' else [])"

text \<open>What \<open>ExecuteQuery\<close> does with a request on a connection, up to the execution.\<close>

definition query_decision :: "string \<Rightarrow> string \<Rightarrow> query_request \<Rightarrow> query_gate" where
  "query_decision env conn_name req =
     (case analyzeQuerySQL (qr_sql req) of
        Inl e \<Rightarrow> BadQuery e
      | Inr a \<Rightarrow>
          let mode = confirmation_mode env (an_risk a) in
          if mode \<noteq> [] \<and> (\<not> qr_confirmed req \<or> (mode = ''type_connection_name'' \<and> qr_text req \<noteq> conn_name))
          then NeedsConfirmation (an_risk a) mode
          else if an_returns a then RunRows else RunCommand)"

section \<open>Texts made of pieces\<close>

text \<open>
  A statement as a list of pieces, written one after the other; a blank is a piece too. Only the words and the
  semicolons outside parentheses count; literals, quoted names, comments and dollar-quoted bodies may hold
  anything, keywords and semicolons included.
\<close>

datatype piece =
    Word string
  | Literal char string
  | Dollar string string
  | LineComment string
  | HashComment string
  | BlockComment string
  | LeftParen
  | RightParen
  | Semicolon
  | Symbol char
  | Blank char

fun double_quote :: "char \<Rightarrow> string \<Rightarrow> string" where
  "double_quote q [] = []"
| "double_quote q (c # s) = (if c = q then q # q # double_quote q s else c # double_quote q s)"

fun piece_text :: "piece \<Rightarrow> string" where
  "piece_text (Word w) = w"
| "piece_text (Literal q s) = q # double_quote q s @ [q]"
| "piece_text (Dollar tag s) = ''$'' @ tag @ ''$'' @ s @ ''$'' @ tag @ ''$''"
| "piece_text (LineComment s) = ''--'' @ s @ [CHR 0x0A]"
| "piece_text (HashComment s) = ''#'' @ s @ [CHR 0x0A]"
| "piece_text (BlockComment s) = ''/*'' @ s @ ''*/''"
| "piece_text LeftParen = ''(''"
| "piece_text RightParen = '')''"
| "piece_text Semicolon = '';''"
| "piece_text (Symbol c) = [c]"
| "piece_text (Blank c) = [c]"

definition avoids :: "string \<Rightarrow> string \<Rightarrow> bool" where
  "avoids p s \<longleftrightarrow> (\<forall>n. n < length s \<longrightarrow> \<not> has_prefix (drop n (s @ p)) p)"

fun piece_ok :: "piece \<Rightarrow> bool" where
  "piece_ok (Word w) \<longleftrightarrow> w \<noteq> [] \<and> word_start (hd w) \<and> list_all word_char w"
| "piece_ok (Literal q s) \<longleftrightarrow> quote_char q \<and> (q = CHR 0x27 \<longrightarrow> CHR 0x5C \<notin> set s)"
| "piece_ok (Dollar tag s) \<longleftrightarrow> list_all tag_char tag \<and> avoids (''$'' @ tag @ ''$'') s"
| "piece_ok (LineComment s) \<longleftrightarrow> CHR 0x0A \<notin> set s"
| "piece_ok (HashComment s) \<longleftrightarrow> CHR 0x0A \<notin> set s"
| "piece_ok (BlockComment s) \<longleftrightarrow> avoids ''*/'' s"
| "piece_ok (Symbol c) \<longleftrightarrow> \<not> latin_space c \<and> \<not> quote_char c \<and> \<not> word_start c \<and> c \<notin> set ''#();''"
| "piece_ok (Blank c) \<longleftrightarrow> latin_space c"
| "piece_ok _ \<longleftrightarrow> True"

definition render :: "piece list \<Rightarrow> string" where
  "render ps = concat (map piece_text ps)"

text \<open>
  Two pieces may touch unless the text would read differently: a word is not followed by a character of a word, a
  literal not by its own quote, and two symbols do not make a comment or a dollar quote.
\<close>

fun fits :: "piece \<Rightarrow> string \<Rightarrow> bool" where
  "fits (Word w) r \<longleftrightarrow> (case r of [] \<Rightarrow> True | c # _ \<Rightarrow> \<not> word_char c)"
| "fits (Literal q s) r \<longleftrightarrow> take 1 r \<noteq> [q]"
| "fits (Symbol c) r \<longleftrightarrow> (c = CHR ''-'' \<longrightarrow> take 1 r \<noteq> ''-'') \<and> (c = CHR ''/'' \<longrightarrow> take 1 r \<noteq> ''*'') \<and>
     (c = CHR ''$'' \<longrightarrow> take 1 (dropWhile tag_char r) \<noteq> ''$'')"
| "fits _ r \<longleftrightarrow> True"

fun joined :: "piece list \<Rightarrow> bool" where
  "joined [] \<longleftrightarrow> True"
| "joined (p # ps) \<longleftrightarrow> piece_ok p \<and> fits p (render ps) \<and> joined ps"

fun take_piece :: "scan_state \<Rightarrow> piece \<Rightarrow> scan_state" where
  "take_piece st (Word w) = add_word w st"
| "take_piece st (LineComment _) = st"
| "take_piece st (HashComment _) = st"
| "take_piece st (BlockComment _) = st"
| "take_piece st (Blank _) = st"
| "take_piece st LeftParen = seen (st\<lparr>ss_depth := ss_depth st + 1\<rparr>)"
| "take_piece st RightParen = seen (st\<lparr>ss_depth := ss_depth st - 1\<rparr>)"
| "take_piece st Semicolon = (if ss_depth st = 0 then after_semicolon st else seen st)"
| "take_piece st _ = seen st"

definition read_pieces :: "piece list \<Rightarrow> query_error + string list \<times> nat" where
  "read_pieces ps = finish_scan (foldl take_piece \<lparr>ss_tokens = [], ss_statements = 0, ss_content = False, ss_depth = 0\<rparr> ps)"

section \<open>The scanner reads the pieces\<close>

lemma letter_facts:
  assumes "word_start c"
  shows "\<not> latin_space c" "c \<noteq> CHR ''-''" "c \<noteq> CHR ''#''" "c \<noteq> CHR ''/''" "\<not> quote_char c" "c \<noteq> CHR ''$''"
    "c \<noteq> CHR ''(''" "c \<noteq> CHR '')''" "c \<noteq> CHR '';''"
  using assms by (auto simp: word_start_def latin_letter_def latin_space_def is_space_def quote_char_def Let_def)

lemma space_facts [simp]: "latin_space CHR '' ''" "\<not> word_char CHR '' ''" "\<not> tag_char CHR ''$''"
  by (simp_all add: latin_space_def is_space_def word_char_def tag_char_def latin_letter_def is_digit_def)

lemma str_index_avoids:
  assumes "avoids p s"
  shows "str_index (s @ p @ r) p = Some (length s)"
  using assms
proof (induction s)
  case Nil
  show ?case using has_prefix_append [of p r] by (cases "p @ r") auto
next
  case (Cons c s)
  have here: "\<not> has_prefix (c # s @ p @ r) p"
  proof -
    have "take (length p) (c # s @ p @ r) = take (length p) (c # s @ p)" by (simp add: take_Cons' take_append)
    then show ?thesis using Cons.prems [unfolded avoids_def, rule_format, of 0] by (simp add: has_prefix_def)
  qed
  have "avoids p s"
    unfolding avoids_def
  proof (intro allI impI)
    fix n assume "n < length s"
    then show "\<not> has_prefix (drop n (s @ p)) p" using Cons.prems [unfolded avoids_def, rule_format, of "Suc n"] by simp
  qed
  with here Cons.IH show ?case by simp
qed

lemma text_after_avoids: "avoids p s \<Longrightarrow> text_after p (s @ p @ r) = Some r"
  by (simp add: text_after_def str_index_avoids)

lemma close_quote_doubled:
  assumes "q = CHR 0x27 \<longrightarrow> CHR 0x5C \<notin> set s" "take 1 r \<noteq> [q]"
  shows "close_quote q (double_quote q s @ q # r) = Some r"
  using assms by (induction s) (auto simp: take_Suc)

lemma takeWhile_word:
  "list_all word_char w \<Longrightarrow> fits (Word v) r \<Longrightarrow> takeWhile word_char (w @ r) = w \<and> dropWhile word_char (w @ r) = r"
  by (induction w) (auto split: list.splits)

lemma dollar_tag_ok:
  assumes "list_all tag_char tag"
  shows "dollar_tag (tag @ CHR ''$'' # r) = Some (CHR ''$'' # tag @ ''$'') \<and> tl (dropWhile tag_char (tag @ CHR ''$'' # r)) = r"
proof -
  have "takeWhile tag_char (tag @ CHR ''$'' # r) = tag \<and> dropWhile tag_char (tag @ CHR ''$'' # r) = CHR ''$'' # r"
    using assms by (induction tag) auto
  then show ?thesis by (simp add: dollar_tag_def)
qed

lemma quote_facts: "quote_char q \<Longrightarrow> \<not> latin_space q \<and> q \<noteq> CHR ''-'' \<and> q \<noteq> CHR ''#'' \<and> q \<noteq> CHR ''/''"
  by (auto simp: quote_char_def latin_space_def is_space_def)

lemma punctuation_facts [simp]:
  "\<not> latin_space CHR ''('' \<and> \<not> latin_space CHR '')'' \<and> \<not> latin_space CHR '';'' \<and> \<not> latin_space CHR ''$'' \<and> \<not> latin_space CHR ''-'' \<and> \<not> latin_space CHR ''/''"
  "\<not> quote_char CHR ''('' \<and> \<not> quote_char CHR '')'' \<and> \<not> quote_char CHR '';'' \<and> \<not> quote_char CHR ''$'' \<and> \<not> quote_char CHR ''-'' \<and> \<not> quote_char CHR ''/''"
  "\<not> word_start CHR '';''"
  by (simp_all add: latin_space_def is_space_def quote_char_def word_start_def latin_letter_def)

lemma end_line_text: "CHR 0x0A \<notin> set s \<Longrightarrow> end_line (s @ CHR 0x0A # r) = CHR 0x0A # r"
  by (induction s) (auto simp: end_line_def)

lemma scan_newline: "scan_query (CHR 0x0A # r) st = scan_query r st"
proof -
  have "latin_space CHR 0x0A" by (simp add: latin_space_def is_space_def)
  then show ?thesis by simp
qed

lemma scan_piece:
  assumes "piece_ok p" "fits p r"
  shows "scan_query (piece_text p @ r) st = scan_query r (take_piece st p)"
  using assms
proof (cases p)
  case (Word w)
  with assms obtain c v where w: "w = c # v" "word_start c" "list_all word_char v" by (cases w) auto
  have "scan_query (c # v @ r) st = scan_query r (add_word (c # v) st)"
    using letter_facts [OF w(2)] takeWhile_word [OF w(3) assms(2) [unfolded Word]] w(2) by simp
  then show ?thesis by (simp add: Word w(1))
next
  case (Literal q s)
  with assms have q: "quote_char q" "q = CHR 0x27 \<longrightarrow> CHR 0x5C \<notin> set s" "take 1 r \<noteq> [q]" by simp_all
  have c: "close_quote q (double_quote q s @ q # r) = Some r"
    by (rule close_quote_doubled [OF q(2,3)])
  have "scan_query (q # double_quote q s @ q # r) st = scan_query r (seen st)"
    by (subst scan_query.simps(2)) (use quote_facts [OF q(1)] q(1) c in simp)
  then show ?thesis by (simp add: Literal)
next
  case (Dollar tag s)
  with assms have t: "list_all tag_char tag" "avoids (''$'' @ tag @ ''$'') s" by simp_all
  have d: "dollar_tag (tag @ CHR ''$'' # s @ CHR ''$'' # tag @ CHR ''$'' # r) = Some (CHR ''$'' # tag @ ''$'')"
    "tl (dropWhile tag_char (tag @ CHR ''$'' # s @ CHR ''$'' # tag @ CHR ''$'' # r)) = s @ CHR ''$'' # tag @ CHR ''$'' # r"
    using dollar_tag_ok [OF t(1)] by blast+
  have "text_after (CHR ''$'' # tag @ ''$'') (s @ CHR ''$'' # tag @ CHR ''$'' # r) = Some r"
    using text_after_avoids [OF t(2), of r] by simp
  then have "scan_query (CHR ''$'' # tag @ CHR ''$'' # s @ CHR ''$'' # tag @ CHR ''$'' # r) st = scan_query r (seen st)"
    by (subst scan_query.simps(2)) (simp add: d)
  then show ?thesis by (simp add: Dollar)
next
  case (LineComment s)
  with assms have "CHR 0x0A \<notin> set s" by simp
  then have "scan_query (CHR ''-'' # CHR ''-'' # s @ CHR 0x0A # r) st = scan_query (CHR 0x0A # r) st"
    by (subst scan_query.simps(2)) (simp add: end_line_text)
  also have "\<dots> = scan_query r st" by (rule scan_newline)
  finally show ?thesis by (simp add: LineComment)
next
  case (HashComment s)
  with assms have "CHR 0x0A \<notin> set s" by simp
  moreover have "\<not> latin_space CHR ''#''" by (simp add: latin_space_def is_space_def)
  ultimately have "scan_query (CHR ''#'' # s @ CHR 0x0A # r) st = scan_query (CHR 0x0A # r) st"
    by (subst scan_query.simps(2)) (simp add: end_line_text)
  also have "\<dots> = scan_query r st" by (rule scan_newline)
  finally show ?thesis by (simp add: HashComment)
next
  case (BlockComment s)
  with assms have "text_after ''*/'' (s @ CHR ''*'' # CHR ''/'' # r) = Some r"
    using text_after_avoids [of "''*/''" s r] by simp
  then have "scan_query (CHR ''/'' # CHR ''*'' # s @ CHR ''*'' # CHR ''/'' # r) st = scan_query r st"
    by (subst scan_query.simps(2)) simp
  then show ?thesis by (simp add: BlockComment)
next
  case (Symbol c)
  have "dollar_tag r = None" if "c = CHR ''$''"
    using assms(2) that by (cases "dropWhile tag_char r") (auto simp: Symbol dollar_tag_def Let_def)
  then have "\<not> latin_space c" "\<not> (c = CHR ''-'' \<and> take 1 r = ''-'')" "c \<noteq> CHR ''#''" "\<not> (c = CHR ''/'' \<and> take 1 r = ''*'')"
      "\<not> quote_char c" "\<not> (c = CHR ''$'' \<and> dollar_tag r \<noteq> None)" "c \<noteq> CHR ''(''" "c \<noteq> CHR '')''" "c \<noteq> CHR '';''" "\<not> word_start c"
    using assms Symbol by simp_all
  then have "scan_query (c # r) st = scan_query r (seen st)"
    by (subst scan_query.simps(2)) (simp only: if_False simp_thms)
  then show ?thesis by (simp add: Symbol)
next
  case (Blank c)
  then have "scan_query (c # r) st = scan_query r st"
    by (subst scan_query.simps(2)) (use assms in simp)
  then show ?thesis by (simp add: Blank)
qed simp_all

lemma scan_render: "joined ps \<Longrightarrow> scan_query (render ps) st = finish_scan (foldl take_piece st ps)"
proof (induction ps arbitrary: st)
  case (Cons p ps)
  then show ?case using scan_piece [of p "render ps" st] by (simp add: render_def)
qed (simp add: render_def)

lemma find_Some_in: "List.find P xs = Some x \<Longrightarrow> x \<in> set xs \<and> P x"
  by (auto simp: find_Some_iff)

section \<open>Properties\<close>

text \<open>C18: The scanner reads a statement back as the pieces it was written from: of every text made of words, literals,
  quoted names, dollar-quoted bodies, comments, parentheses, semicolons, other characters and blanks, put together in any way
  in which no two of them run together into another piece, it returns the words in upper case and the number of statements, whatever
  the literals, bodies and comments contain, and it fails only for an open parenthesis. (A single-quoted literal holds
  no backslash: for the scanner, as for MySQL, it escapes.)\<close>

theorem scanner_reads_pieces:
  assumes "joined ps"
  shows "scanQueryTokens (render ps) = read_pieces ps"
  using scan_render [OF assms] by (simp add: scanQueryTokens_def read_pieces_def)

text \<open>C19: What the query centre lets through, in terms of what its scanner reads (the property above): it is one statement; without a
  confirmation its first word is a reading keyword (SELECT, SHOW, DESCRIBE, DESC, EXPLAIN), or WITH and then no writing
  keyword follows outside literals and comments, and it has no INTO OUTFILE or INTO DUMPFILE; and on a production connection a
  statement whose keyword is neither reading nor writing was let through only with the connection's name typed. This is a statement
  about the text: EXPLAIN ANALYZE of a writing statement counts as reading (\<open>explained_statement\<close> below), and where the server does
  not take a backslash in a literal for an escape it may see more than one statement (\<open>hidden_statement\<close>).\<close>

theorem query_gate_sound:
  assumes "query_decision env conn_name req = RunRows \<or> query_decision env conn_name req = RunCommand"
  shows "\<exists>ts. scanQueryTokens (trim_space (qr_sql req)) = Inr (ts, 1) \<and> ts \<noteq> [] \<and>
    (qr_confirmed req \<or>
      (hd ts \<in> set read_words \<or> hd ts = ''WITH'' \<and> (\<forall>t\<in>set (tl ts). t \<notin> set write_words)) \<and> \<not> into_file ts) \<and>
    (isProductionEnvironment env \<and> main_keyword ts \<notin> set (read_words @ write_words) \<longrightarrow> qr_text req = conn_name)"
proof -
  obtain a where a: "analyzeQuerySQL (qr_sql req) = Inr a"
    using assms by (cases "analyzeQuerySQL (qr_sql req)") (auto simp: query_decision_def)
  obtain ts where ts: "scanQueryTokens (trim_space (qr_sql req)) = Inr (ts, 1)" "ts \<noteq> []" "a = classify ts"
    using a
    by (cases "scanQueryTokens (trim_space (qr_sql req))")
      (simp_all add: analyzeQuerySQL_def Let_def split: if_splits prod.splits)
  have mode: "confirmation_mode env (an_risk a) = [] \<or>
      qr_confirmed req \<and> (confirmation_mode env (an_risk a) = ''type_connection_name'' \<longrightarrow> qr_text req = conn_name)"
    using assms by (auto simp: query_decision_def a Let_def split: if_splits)
  have reads: "(hd ts \<in> set read_words \<or> hd ts = ''WITH'' \<and> (\<forall>t\<in>set (tl ts). t \<notin> set write_words)) \<and> \<not> into_file ts"
    if unconfirmed: "\<not> qr_confirmed req"
  proof -
    have "main_keyword ts \<in> set read_words \<and> \<not> into_file ts"
      using mode unconfirmed by (auto simp: ts(3) classify_def Let_def confirmation_mode_def split: if_splits)
    moreover have "t \<notin> set write_words" if "t \<in> set read_words" for t
      using that by (auto simp: read_words_def write_words_def)
    ultimately show ?thesis
      by (cases "List.find (\<lambda>t. t \<in> set write_words) (tl ts)")
        (auto simp: main_keyword_def find_None_iff dest!: find_Some_in split: if_splits)
  qed
  have "qr_text req = conn_name" if "isProductionEnvironment env" "main_keyword ts \<notin> set (read_words @ write_words)"
    using mode that by (simp add: ts(3) classify_def Let_def confirmation_mode_def)
  with ts reads show ?thesis by blast
qed

section \<open>Examples\<close>

definition demo_pieces :: "piece list" where
  "demo_pieces = [LineComment ''x; DELETE'', Word ''select'', Literal CHR 0x27 ''a;b'', Symbol CHR '','', Dollar ''q'' ''; drop'',
     Symbol CHR ''-'', Word ''f'', LeftParen, Symbol CHR ''$'', Symbol CHR ''1'', RightParen, BlockComment '' ( '', Semicolon,
     Word ''delete'', Semicolon, Blank CHR '' '']"

theorem scanner_reads_pieces_witness:
  "scanQueryTokens (render demo_pieces) = Inr ([''SELECT'', ''F'', ''DELETE''], 2)"
proof -
  have "avoids ''$q$'' ''; drop''" "avoids ''*/'' '' ( ''"
    unfolding avoids_def by (auto simp: has_prefix_def less_Suc_eq)
  then have "joined demo_pieces"
    by (simp add: demo_pieces_def render_def word_start_def word_char_def tag_char_def latin_letter_def latin_space_def is_space_def
        quote_char_def is_digit_def)
  moreover have "read_pieces demo_pieces = Inr ([''SELECT'', ''F'', ''DELETE''], 2)" by code_simp
  ultimately show ?thesis using scanner_reads_pieces [of demo_pieces] by simp
qed

definition demo_request :: query_request where
  "demo_request = \<lparr>qr_sql = ''SELECT * FROM t;'', qr_confirmed = False, qr_text = []\<rparr>"

theorem query_gate_sound_witness:
  "\<exists>ts. scanQueryTokens (trim_space ''SELECT * FROM t;'') = Inr (ts, 1) \<and> hd ts \<in> set read_words \<and> \<not> into_file ts"
proof -
  have "query_decision ''prod'' ''c'' demo_request = RunRows" by code_simp
  from query_gate_sound [OF disjI1 [OF this]] obtain ts where ts: "scanQueryTokens (trim_space ''SELECT * FROM t;'') = Inr (ts, 1)"
      "hd ts \<in> set read_words \<or> hd ts = ''WITH''" "\<not> into_file ts"
    by (auto simp: demo_request_def)
  moreover have "(case scanQueryTokens (trim_space ''SELECT * FROM t;'') of Inl _ \<Rightarrow> [] | Inr (ts, _) \<Rightarrow> hd ts) = ''SELECT''" by code_simp
  ultimately show ?thesis by auto
qed

text \<open>
  The gate takes a backslash for an escape on every server. PostgreSQL does not: the statement below is a SELECT of
  one backslash followed by a DELETE there, and it runs without a confirmation.
\<close>

lemma hidden_statement:
  "query_decision ''prod'' ''c'' \<lparr>qr_sql = ''SELECT '' @ [CHR 0x27, CHR 0x5C, CHR 0x27] @ ''; DELETE FROM t; --'' @ [CHR 0x27],
     qr_confirmed = False, qr_text = []\<rparr> = RunRows"
  by code_simp

text \<open>EXPLAIN reads whatever follows it, also an EXPLAIN ANALYZE that carries the statement out.\<close>

lemma explained_statement:
  "query_decision ''prod'' ''c'' \<lparr>qr_sql = ''EXPLAIN ANALYZE DELETE FROM t'', qr_confirmed = False, qr_text = []\<rparr> = RunRows"
  by code_simp

end
