(* ===== verification/RepairExec.thy ===== *)
theory RepairExec
  imports RepairLedger QuerySql
begin

text \<open>
  The execution of a repair on the target (\<^verbatim>\<open>ExecuteRepair\<close> in \<^verbatim>\<open>datamigrate/target/repair.go\<close>), for objects
  without a plan of their own. What the context, the ledger, the session and the target answer may depend on
  everything that happened before, so each of them is a function of the trace.
\<close>

section \<open>Errors\<close>

datatype error_mark =
    Canceled | DeadlineExceeded | BadConn | EndOfFile | UnexpectedEof | Network | ManualInvalid | ManualUnknown

record sql_error =
  re_text :: string
  re_state :: "string option"
  re_marks :: "error_mark list"

definition uncertain_texts :: "string list" where
  "uncertain_texts = [''connection reset'', ''connection lost'', ''broken pipe'', ''bridge unavailable'', ''bridge exited'', ''bridge protocol'']"

definition uncertainRepairError :: "sql_error \<Rightarrow> bool" where
  "uncertainRepairError e \<longleftrightarrow>
     (case re_state e of None \<Rightarrow> False | Some s \<Rightarrow> has_prefix s ''08'' \<or> s = ''40003'') \<or>
     list_ex (str_contains (to_lower (re_text e))) uncertain_texts \<or>
     list_ex (\<lambda>m. m \<in> set (re_marks e)) [Canceled, DeadlineExceeded, BadConn, EndOfFile, UnexpectedEof, Network]"

definition repairErrorStatus :: "sql_error \<Rightarrow> string" where
  "repairErrorStatus e =
     (if ManualInvalid \<in> set (re_marks e) then ''failed''
      else if ManualUnknown \<in> set (re_marks e) then ''unknown''
      else if uncertainRepairError e then ''unknown'' else ''failed'')"

datatype repair_error =
    RunError sql_error
  | SchemaMismatch
  | EmptyStep nat
  | NothingSelected
  | SaveBefore sql_error
  | SaveAfter sql_error
  | Joined "sql_error option" "sql_error option"

section \<open>The world around an execution\<close>

datatype run_event =
    Saved "saved_unit list" "sql_error option"
  | Ran nat "sql_error option"
  | Committed "sql_error option"
  | RolledBack "sql_error option"

text \<open>\<open>en_session\<close> opens the session and fixes its schema, \<open>en_check\<close> is Oracle's look at a statement.\<close>

record run_env =
  en_schema :: "sql_error + string"
  en_family :: string
  en_session :: "sql_error option"
  en_context :: "run_event list \<Rightarrow> sql_error option"
  en_save :: "run_event list \<Rightarrow> sql_error option"
  en_check :: "string \<Rightarrow> sql_error option"
  en_exec :: "run_event list \<Rightarrow> string \<Rightarrow> sql_error option"
  en_commit :: "run_event list \<Rightarrow> sql_error option"
  en_rollback :: "run_event list \<Rightarrow> sql_error option"

definition repairKind :: "string \<Rightarrow> string" where
  "repairKind k =
     (if k = ''tables'' then ''table''
      else if k \<in> set [''primary_keys'', ''primaryKeys''] then ''primary_key''
      else if k = ''indexes'' then ''index''
      else if k \<in> set [''foreign_keys'', ''constraints''] then ''foreign_key''
      else if k = ''views'' then ''view''
      else if k = ''sequences'' then ''sequence''
      else if k = ''comments'' then ''comment'' else k)"

text \<open>Whether all units run in one transaction.\<close>

definition one_transaction :: "run_env \<Rightarrow> saved_object \<Rightarrow> bool" where
  "one_transaction env ob \<longleftrightarrow> en_family env = ''sqlserver'' \<or> (en_family env = ''postgres'' \<and> repairKind (ro_kind ob) = ''view'')"

section \<open>Execution\<close>

fun pick_units :: "nat \<Rightarrow> saved_unit list \<Rightarrow> (repair_error + nat list) \<times> saved_unit list" where
  "pick_units i [] = (Inr [], [])"
| "pick_units i (u # us) =
     (if un_status u = ''succeeded'' then (case pick_units (i + 1) us of (r, vs) \<Rightarrow> (r, u\<lparr>un_selected := False\<rparr> # vs))
      else if un_selected u then
        (if trim_space (un_sql u) = [] then (Inl (EmptyStep (i + 1)), u # us)
         else (case pick_units (i + 1) us of (r, vs) \<Rightarrow> (map_sum id (Cons i) r, u # vs)))
      else (case pick_units (i + 1) us of (r, vs) \<Rightarrow> (r, u # vs)))"

definition update_at :: "nat list \<Rightarrow> (saved_unit \<Rightarrow> saved_unit) \<Rightarrow> saved_unit list \<Rightarrow> saved_unit list" where
  "update_at ns f us = map (\<lambda>n. if n \<in> set ns then f (us ! n) else us ! n) [0..<length us]"

definition with_error :: "string \<Rightarrow> sql_error option \<Rightarrow> saved_unit \<Rightarrow> saved_unit" where
  "with_error status e u = (case e of None \<Rightarrow> u\<lparr>un_status := status\<rparr> | Some x \<Rightarrow> u\<lparr>un_status := status, un_error := re_text x\<rparr>)"

definition roll_back :: "run_env \<Rightarrow> bool \<Rightarrow> nat list \<Rightarrow> saved_unit list \<Rightarrow> run_event list \<Rightarrow> saved_unit list \<times> run_event list" where
  "roll_back env tx executed out tr =
     (if \<not> tx then (out, tr)
      else
        let e = en_rollback env tr in
        (update_at executed (with_error (if e = None then ''rolled_back'' else ''unknown'') e) out, tr @ [RolledBack e]))"

text \<open>One unit on the target; a statement that Oracle's check refuses is not sent.\<close>

definition run_unit :: "run_env \<Rightarrow> nat \<Rightarrow> saved_unit \<Rightarrow> run_event list \<Rightarrow> sql_error option \<times> run_event list" where
  "run_unit env i u tr =
     (case en_check env (un_sql u) of
        Some e \<Rightarrow> (Some e, tr)
      | None \<Rightarrow> let e = en_exec env tr (un_sql u) in (e, tr @ [Ran i e]))"

definition save_step :: "run_env \<Rightarrow> saved_unit list \<Rightarrow> run_event list \<Rightarrow> sql_error option \<times> run_event list" where
  "save_step env out tr = (let e = en_save env tr in (e, tr @ [Saved out e]))"

text \<open>The loop; without an error it ends with the executed units.\<close>

fun run_units ::
  "run_env \<Rightarrow> bool \<Rightarrow> nat list \<Rightarrow> nat list \<Rightarrow> saved_unit list \<Rightarrow> run_event list \<Rightarrow>
     (repair_error + nat list) \<times> saved_unit list \<times> run_event list" where
  "run_units env tx [] executed out tr = (Inr executed, out, tr)"
| "run_units env tx (i # is) executed out tr =
     (case en_context env tr of
        Some e \<Rightarrow>
          (let (out1, tr1) = roll_back env tx executed out tr; (p, tr2) = save_step env out1 tr1 in (Inl (RunError e), out1, tr2))
      | None \<Rightarrow>
          let out1 = update_at [i] (\<lambda>u. u\<lparr>un_status := ''running'', un_error := []\<rparr>) out; (p, tr1) = save_step env out1 tr in
          (case p of
             Some e \<Rightarrow>
               (let (out2, tr2) = roll_back env tx executed (update_at [i] (\<lambda>u. u\<lparr>un_status := ''pending''\<rparr>) out1) tr1
                in (Inl (SaveBefore e), out2, tr2))
           | None \<Rightarrow>
               let (r, tr2) = run_unit env i (out1 ! i) tr1 in
               (case r of
                  Some e \<Rightarrow>
                    (let (out2, tr3) = roll_back env tx executed (update_at [i] (with_error (repairErrorStatus e) (Some e)) out1) tr2;
                         (q, tr4) = save_step env out2 tr3
                     in (Inl (Joined (Some e) q), out2, tr4))
                | None \<Rightarrow>
                    let out2 = (if tx then out1 else update_at [i] (\<lambda>u. u\<lparr>un_status := ''succeeded''\<rparr>) out1);
                        (q, tr3) = save_step env out2 tr2 in
                    (case q of
                       Some e \<Rightarrow>
                         (let (out3, tr4) = roll_back env tx (executed @ [i]) out2 tr3
                          in (Inl (SaveAfter e), if tx then out3 else update_at [i] (with_error ''unknown'' (Some e)) out3, tr4))
                     | None \<Rightarrow> run_units env tx is (executed @ [i]) out2 tr3))))"

definition commit_units :: "run_env \<Rightarrow> nat list \<Rightarrow> saved_unit list \<Rightarrow> run_event list \<Rightarrow> saved_unit list \<times> repair_error option \<times> run_event list" where
  "commit_units env executed out tr =
     (let c = en_commit env tr;
          out1 = update_at executed (with_error (if c = None then ''succeeded'' else ''unknown'') c) out;
          (p, tr2) = save_step env out1 (tr @ [Committed c]) in
      if c \<noteq> None \<or> p \<noteq> None then (update_at executed (with_error ''unknown'' p) out1, Some (Joined c p), tr2)
      else (out1, None, tr2))"

definition ExecuteRepair :: "run_env \<Rightarrow> saved_object \<Rightarrow> saved_unit list \<Rightarrow> saved_unit list \<times> repair_error option \<times> run_event list" where
  "ExecuteRepair env ob us =
     (case en_schema env of
        Inl e \<Rightarrow> (us, Some (RunError e), [])
      | Inr schema \<Rightarrow>
          if ro_schema ob = [] \<or> ro_schema ob \<noteq> schema then (us, Some SchemaMismatch, [])
          else
            (case pick_units 0 us of
               (Inl e, out) \<Rightarrow> (out, Some e, [])
             | (Inr [], out) \<Rightarrow> (out, Some NothingSelected, [])
             | (Inr is, out) \<Rightarrow>
                 (case en_session env of
                    Some e \<Rightarrow> (out, Some (RunError e), [])
                  | None \<Rightarrow>
                      (case run_units env (one_transaction env ob) is [] out [] of
                         (Inl e, out1, tr) \<Rightarrow> (out1, Some e, tr)
                       | (Inr executed, out1, tr) \<Rightarrow>
                           if one_transaction env ob then commit_units env executed out1 tr else (out1, None, tr)))))"

section \<open>What a trace tells\<close>

text \<open>The last units the ledger has, and the units that may have changed the target.\<close>

definition saved_at :: "saved_unit list \<Rightarrow> run_event list \<Rightarrow> saved_unit list" where
  "saved_at us tr = foldl (\<lambda>s ev. case ev of Saved vs None \<Rightarrow> vs | _ \<Rightarrow> s) us tr"

definition may_have_run :: "sql_error option \<Rightarrow> bool" where
  "may_have_run r \<longleftrightarrow> (case r of None \<Rightarrow> True | Some e \<Rightarrow> repairErrorStatus e = ''unknown'')"

fun is_commit :: "run_event \<Rightarrow> bool" where
  "is_commit (Committed c) = True"
| "is_commit _ = False"

fun ran_unit :: "run_event \<Rightarrow> nat option" where
  "ran_unit (Ran i r) = (if may_have_run r then Some i else None)"
| "ran_unit _ = None"

definition touched :: "bool \<Rightarrow> run_event list \<Rightarrow> nat list" where
  "touched tx tr = (if tx \<and> \<not> list_ex is_commit tr then [] else List.map_filter ran_unit tr)"

definition on_record :: "saved_unit list \<Rightarrow> nat \<Rightarrow> bool" where
  "on_record us i \<longleftrightarrow> i < length us \<and> un_status (us ! i) \<in> set [''running'', ''succeeded'', ''unknown'']"

definition ahead :: "bool \<Rightarrow> saved_unit list \<Rightarrow> run_event list \<Rightarrow> bool" where
  "ahead tx us tr \<longleftrightarrow> (\<forall>k\<le>length tr. list_all (on_record (saved_at us (take k tr))) (touched tx (take k tr)))"

definition settled_unit :: "saved_unit list \<Rightarrow> nat \<Rightarrow> bool" where
  "settled_unit us i \<longleftrightarrow> i < length us \<and> un_status (us ! i) \<in> set [''succeeded'', ''unknown'']"

lemma ahead_snoc: "ahead tx us (tr @ [ev]) \<longleftrightarrow>
    ahead tx us tr \<and> list_all (on_record (saved_at us (tr @ [ev]))) (touched tx (tr @ [ev]))"
proof -
  have "(\<forall>k\<le>Suc (length tr). P (take k (tr @ [ev]))) \<longleftrightarrow> (\<forall>k\<le>length tr. P (take k tr)) \<and> P (tr @ [ev])" for P
    by (auto simp: le_Suc_eq)
  from this [of "\<lambda>t. list_all (on_record (saved_at us t)) (touched tx t)"] show ?thesis
    by (simp add: ahead_def)
qed

lemma ahead_Nil [simp]: "ahead tx us []"
  by (simp add: ahead_def touched_def List.map_filter_def)

lemma saved_at_simps [simp]:
  "saved_at us [] = us"
  "saved_at us (tr @ [Saved vs None]) = vs"
  "saved_at us (tr @ [Saved vs (Some e)]) = saved_at us tr"
  "saved_at us (tr @ [Ran i r]) = saved_at us tr"
  "saved_at us (tr @ [Committed r]) = saved_at us tr"
  "saved_at us (tr @ [RolledBack r]) = saved_at us tr"
  by (simp_all add: saved_at_def)

lemma touched_simps [simp]:
  "touched tx [] = []"
  "touched tx (tr @ [Saved vs q]) = touched tx tr"
  "touched tx (tr @ [RolledBack q]) = touched tx tr"
  "touched False (tr @ [Committed q]) = touched False tr"
  "touched False (tr @ [Ran i r]) = touched False tr @ (if may_have_run r then [i] else [])"
  by (simp_all add: touched_def map_filter_def)

lemma update_at_simps [simp]: "length (update_at ns f us) = length us"
  "i < length us \<Longrightarrow> update_at ns f us ! i = (if i \<in> set ns then f (us ! i) else us ! i)"
  by (simp_all add: update_at_def)

lemma with_error_simps [simp]: "un_status (with_error st e u) = st" "un_id (with_error st e u) = un_id u"
  "un_sql (with_error st e u) = un_sql u"
  by (simp_all add: with_error_def split: option.splits)

section \<open>One turn of the loop\<close>

abbreviation started :: "nat \<Rightarrow> saved_unit list \<Rightarrow> saved_unit list" where
  "started i \<equiv> update_at [i] (\<lambda>u. u\<lparr>un_status := ''running'', un_error := []\<rparr>)"

definition after_run :: "bool \<Rightarrow> nat \<Rightarrow> saved_unit list \<Rightarrow> saved_unit list" where
  "after_run tx i out = (if tx then started i out else update_at [i] (\<lambda>u. u\<lparr>un_status := ''succeeded''\<rparr>) (started i out))"

lemma run_units_cases:
  assumes "run_units env tx (i # is) ex out tr = (r, out', tr')"
  obtains (Context) e p tr1 where "r = Inl (RunError e)" "roll_back env tx ex out tr = (out', tr1)" "tr' = tr1 @ [Saved out' p]"
  | (Before) e where "r = Inl (SaveBefore e)"
      "roll_back env tx ex (update_at [i] (\<lambda>u. u\<lparr>un_status := ''pending''\<rparr>) (started i out)) (tr @ [Saved (started i out) (Some e)]) = (out', tr')"
  | (Failed) e q rs tr3 where "r = Inl (Joined (Some e) q)" "rs = [] \<or> rs = [Ran i (Some e)]"
      "roll_back env tx ex (update_at [i] (with_error (repairErrorStatus e) (Some e)) (started i out))
         ((tr @ [Saved (started i out) None]) @ rs) = (out', tr3)" "tr' = tr3 @ [Saved out' q]"
  | (After) e out3 where "r = Inl (SaveAfter e)"
      "roll_back env tx (ex @ [i]) (after_run tx i out)
         (((tr @ [Saved (started i out) None]) @ [Ran i None]) @ [Saved (after_run tx i out) (Some e)]) = (out3, tr')"
      "out' = (if tx then out3 else update_at [i] (with_error ''unknown'' (Some e)) out3)"
  | (Turn) "run_units env tx is (ex @ [i]) (after_run tx i out)
         (((tr @ [Saved (started i out) None]) @ [Ran i None]) @ [Saved (after_run tx i out) None]) = (r, out', tr')"
proof (cases "en_context env tr")
  case (Some e)
  then show ?thesis using assms Context by (auto simp: save_step_def Let_def split: prod.splits)
next
  case ok: None
  show ?thesis
  proof (cases "en_save env tr")
    case (Some e)
    with ok show ?thesis using assms Before by (auto simp: save_step_def Let_def split: prod.splits)
  next
    case saved: None
    let ?tr1 = "tr @ [Saved (started i out) None]"
    obtain q tr2 where q: "run_unit env i (started i out ! i) ?tr1 = (q, tr2)" by fastforce
    have tr2: "tr2 = ?tr1 @ [Ran i q] \<or> (tr2 = ?tr1 \<and> q \<noteq> None)"
      using q by (auto simp: run_unit_def Let_def split: option.splits)
    show ?thesis
    proof (cases q)
      case (Some e)
      then obtain rs where rs: "tr2 = ?tr1 @ rs" "rs = [] \<or> rs = [Ran i (Some e)]" using tr2 by auto
      obtain out2 tr3 where b: "roll_back env tx ex (update_at [i] (with_error (repairErrorStatus e) (Some e)) (started i out)) tr2 = (out2, tr3)"
        by fastforce
      have "r = Inl (Joined (Some e) (en_save env tr3))" "out' = out2" "tr' = tr3 @ [Saved out' (en_save env tr3)]"
        using assms by (auto simp: ok saved save_step_def q Some b Let_def)
      then show ?thesis using Failed [OF _ rs(2)] b rs(1) by blast
    next
      case None
      then have t: "tr2 = ?tr1 @ [Ran i None]" using tr2 by simp
      let ?tr3 = "tr2 @ [Saved (after_run tx i out) (en_save env tr2)]"
      show ?thesis
      proof (cases "en_save env tr2")
        case q2: (Some e)
        obtain out3 tr4 where b: "roll_back env tx (ex @ [i]) (after_run tx i out) ?tr3 = (out3, tr4)" by fastforce
        have "r = Inl (SaveAfter e) \<and> tr' = tr4 \<and> out' = (if tx then out3 else update_at [i] (with_error ''unknown'' (Some e)) out3)"
          using assms b by (auto simp: ok saved save_step_def q None Let_def q2 after_run_def split: if_splits)
        then show ?thesis using After b t q2 by simp
      next
        case q2: None
        have "run_units env tx is (ex @ [i]) (after_run tx i out) ?tr3 = (r, out', tr')"
          using assms by (auto simp: ok saved save_step_def q None Let_def q2 after_run_def split: if_splits)
        then show ?thesis using Turn t q2 by simp
      qed
    qed
  qed
qed

section \<open>Without a transaction\<close>

text \<open>Traces grow at the end.\<close>

declare append_assoc [simp del]

lemma roll_back_auto [simp]: "roll_back env False ex out tr = (out, tr)"
  by (simp add: roll_back_def)

definition auto_inv :: "saved_unit list \<Rightarrow> nat list \<Rightarrow> saved_unit list \<Rightarrow> run_event list \<Rightarrow> bool" where
  "auto_inv us D out tr \<longleftrightarrow>
     length out = length us \<and> length (saved_at us tr) = length us \<and> ahead False us tr \<and> set (touched False tr) \<subseteq> set D \<and>
     (\<forall>i\<in>set D. i < length us \<and> un_status (out ! i) = ''succeeded'' \<and> un_status (saved_at us tr ! i) = ''succeeded'')"

definition auto_end :: "saved_unit list \<Rightarrow> saved_unit list \<Rightarrow> run_event list \<Rightarrow> bool" where
  "auto_end us out tr \<longleftrightarrow> length out = length us \<and> ahead False us tr \<and> list_all (settled_unit out) (touched False tr)"

lemma auto_inv_end: "auto_inv us D out tr \<Longrightarrow> auto_end us out tr"
  by (auto simp: auto_inv_def auto_end_def settled_unit_def list_all_iff)

lemma auto_end_save:
  assumes "auto_end us out tr" "list_all (on_record out) (touched False tr)"
  shows "auto_end us out (tr @ [Saved out q])"
  using assms by (cases q) (auto simp: auto_end_def ahead_snoc, auto simp: ahead_def)

lemma settled_on_record: "list_all (settled_unit us) is \<Longrightarrow> list_all (on_record us) is"
  by (auto simp: list_all_iff settled_unit_def on_record_def)

lemma run_units_auto:
  assumes "run_units env False is D out tr = (r, out', tr')" "auto_inv us D out tr" "distinct (D @ is)" "set is \<subseteq> {..<length us}"
  shows "auto_end us out' tr'"
  using assms
proof (induction "is" arbitrary: D out tr)
  case Nil
  then show ?case by (auto intro: auto_inv_end)
next
  case (Cons i "is")
  note inv = Cons.prems(2)
  have i: "i \<notin> set D" "i < length us" using Cons.prems(3,4) by auto
  let ?tr1 = "tr @ [Saved (started i out) None]"
  have start: "length (started i out) = length us" "un_status (started i out ! i) = ''running''"
      "\<And>j. j \<in> set D \<Longrightarrow> un_status (started i out ! j) = ''succeeded''"
    using inv i by (auto simp: auto_inv_def)
  have ahead1: "ahead False us ?tr1"
    using inv start by (auto simp: auto_inv_def ahead_snoc on_record_def list_all_iff)
  have ahead2: "ahead False us (?tr1 @ [Ran i q])" for q
    using ahead1 inv start i(2) by (auto simp: auto_inv_def ahead_snoc on_record_def list_all_iff)
  have on: "\<forall>x\<in>set (touched False tr). x < length us \<and> x \<noteq> i \<and> un_status (out ! x) = ''succeeded'' \<and> un_status (saved_at us tr ! x) = ''succeeded''"
    using inv i(1) by (auto simp: auto_inv_def)
  have D: "set (touched False tr) \<subseteq> set D" "set D \<subseteq> {..<length us}" using inv by (auto simp: auto_inv_def)
  from Cons.prems(1) show ?case
  proof (cases rule: run_units_cases)
    case (Context e p tr1)
    then show ?thesis
      using auto_end_save [OF auto_inv_end [OF inv] settled_on_record, of p] auto_inv_end [OF inv]
      by (simp add: auto_end_def)
  next
    case (Before e)
    from on show ?thesis using Before(2) inv
      by (auto simp: auto_end_def auto_inv_def ahead_snoc settled_unit_def list_all_iff on_record_def)
  next
    case (Failed e q rs tr3)
    have "auto_end us out' tr3"
      using on Failed(2,3) ahead1 ahead2 [of "Some e"] start(1) i
      by (auto simp: auto_end_def settled_unit_def list_all_iff may_have_run_def)
    then show ?thesis unfolding Failed(4) by (intro auto_end_save) (auto simp: auto_end_def intro: settled_on_record)
  next
    case (After e out3)
    with on show ?thesis using ahead2 [of None] start(1) i
      by (auto simp: auto_end_def ahead_snoc settled_unit_def list_all_iff may_have_run_def after_run_def on_record_def)
  next
    case Turn
    have "auto_inv us (D @ [i]) (after_run False i out) (((?tr1) @ [Ran i None]) @ [Saved (after_run False i out) None])"
      using on ahead2 [of None] start(1) inv i
      by (auto simp: auto_inv_def ahead_snoc on_record_def list_all_iff may_have_run_def after_run_def)
    then show ?thesis using Cons.IH [OF Turn] Cons.prems(3,4) by simp
  qed
qed

section \<open>In one transaction\<close>

definition tx_inv :: "saved_unit list \<Rightarrow> nat list \<Rightarrow> saved_unit list \<Rightarrow> run_event list \<Rightarrow> bool" where
  "tx_inv us D out tr \<longleftrightarrow>
     length out = length us \<and> \<not> list_ex is_commit tr \<and> set (List.map_filter ran_unit tr) \<subseteq> set D \<and>
     (\<forall>i\<in>set D. i < length us \<and> un_status (out ! i) = ''running'' \<and>
        i < length (saved_at us tr) \<and> un_status (saved_at us tr ! i) = ''running'')"

lemma roll_back_frame:
  assumes "roll_back env tx ex out tr = (out', tr')"
  shows "length out' = length out" "list_ex is_commit tr' = list_ex is_commit tr"
  using assms by (cases tx; auto simp: roll_back_def Let_def)+

lemma run_units_tx:
  assumes "run_units env True is D out tr = (r, out', tr')" "tx_inv us D out tr" "distinct (D @ is)" "set is \<subseteq> {..<length us}"
  shows "length out' = length us \<and> \<not> list_ex is_commit tr' \<and> (\<forall>ex. r = Inr ex \<longrightarrow> tx_inv us ex out' tr')"
  using assms
proof (induction "is" arbitrary: D out tr)
  case Nil
  then show ?case by (auto simp: tx_inv_def)
next
  case (Cons i "is")
  note inv = Cons.prems(2)
  have i: "i \<notin> set D" "i < length us" using Cons.prems(3,4) by auto
  have l: "length out = length us" "\<not> list_ex is_commit tr" using inv by (simp_all add: tx_inv_def)
  from Cons.prems(1) show ?case
  proof (cases rule: run_units_cases)
    case (Failed e q rs tr3)
    then show ?thesis using roll_back_frame [OF Failed(3)] l by auto
  next
    case (After e out3)
    then show ?thesis using roll_back_frame [OF After(2)] l by (auto simp: after_run_def)
  next
    case Turn
    have "tx_inv us (D @ [i]) (after_run True i out)
        (((tr @ [Saved (started i out) None]) @ [Ran i None]) @ [Saved (after_run True i out) None])"
      using inv i by (auto simp: tx_inv_def after_run_def map_filter_def may_have_run_def)
    then show ?thesis using Cons.IH [OF Turn] Cons.prems(3,4) by simp
  qed (use l in \<open>auto dest: roll_back_frame\<close>)
qed

lemma ahead_no_commit: "\<not> list_ex is_commit tr \<Longrightarrow> ahead True us tr"
proof -
  assume "\<not> list_ex is_commit tr"
  then have "\<not> list_ex is_commit (take k tr)" for k by (auto simp: list_ex_iff dest: in_set_takeD)
  then show ?thesis by (simp add: ahead_def touched_def)
qed

lemma commit_units_end:
  assumes "commit_units env ex out tr = (out', err, tr')" "tx_inv us ex out tr"
  shows "length out' = length us" "ahead True us tr'" "list_all (settled_unit out') (touched True tr')"
proof -
  let ?c = "en_commit env tr"
  let ?out = "update_at ex (with_error (if ?c = None then ''succeeded'' else ''unknown'') ?c) out"
  let ?p = "en_save env (tr @ [Committed ?c])"
  have tr': "tr' = (tr @ [Committed ?c]) @ [Saved ?out ?p]"
    using assms(1) by (auto simp: commit_units_def Let_def save_step_def split: if_splits)
  have out': "out' = (if ?c \<noteq> None \<or> ?p \<noteq> None then update_at ex (with_error ''unknown'' ?p) ?out else ?out)"
    using assms(1) by (auto simp: commit_units_def Let_def save_step_def split: if_splits)
  have t: "touched True (tr @ [Committed ?c]) = List.map_filter ran_unit tr" by (simp add: touched_def map_filter_def)
  have sub: "\<forall>i\<in>set (List.map_filter ran_unit tr). i \<in> set ex \<and> i < length us \<and> i < length (saved_at us tr) \<and> un_status (saved_at us tr ! i) = ''running''"
    using assms(2) by (auto simp: tx_inv_def)
  have l: "length out = length us" "ahead True us tr" using assms(2) ahead_no_commit by (simp_all add: tx_inv_def)
  show "length out' = length us" by (simp add: out' l)
  have a: "ahead True us (tr @ [Committed ?c])"
    using sub l by (auto simp: ahead_snoc t list_all_iff on_record_def)
  have "on_record ?out i" if "i \<in> set (List.map_filter ran_unit tr)" for i
    using sub that l by (simp add: on_record_def)
  with a show "ahead True us tr'"
    unfolding tr' by (cases ?p) (auto simp: ahead_snoc t list_all_iff)
  show "list_all (settled_unit out') (touched True tr')"
    using sub l by (auto simp: tr' out' t list_all_iff settled_unit_def)
qed

lemma run_units_executed: "run_units env tx is ex out tr = (r, out', tr') \<Longrightarrow> r = Inr ex' \<Longrightarrow> ex' = ex @ is"
proof (induction "is" arbitrary: ex out tr)
  case (Cons i "is")
  from Cons.prems(1) show ?case
  proof (cases rule: run_units_cases)
    case Turn
    from Cons.IH [OF Turn Cons.prems(2)] show ?thesis by (simp add: append_assoc)
  qed (use Cons.prems(2) in simp_all)
qed simp

section \<open>What an execution leaves alone\<close>

definition unit_key :: "saved_unit \<Rightarrow> string \<times> string \<times> string \<times> bool" where
  "unit_key u = (un_id u, un_sql u, un_original u, un_destructive u)"

definition same_but :: "nat list \<Rightarrow> saved_unit list \<Rightarrow> saved_unit list \<Rightarrow> bool" where
  "same_but ns us vs \<longleftrightarrow> length vs = length us \<and>
     (\<forall>j<length us. unit_key (vs ! j) = unit_key (us ! j) \<and> (j \<notin> set ns \<longrightarrow> vs ! j = us ! j))"

definition runs :: "run_event list \<Rightarrow> nat list" where
  "runs tr = List.map_filter (\<lambda>ev. case ev of Ran i r \<Rightarrow> Some i | _ \<Rightarrow> None) tr"

definition saves_within :: "nat list \<Rightarrow> saved_unit list \<Rightarrow> run_event list \<Rightarrow> bool" where
  "saves_within ns us tr \<longleftrightarrow> (\<forall>vs q. Saved vs q \<in> set tr \<longrightarrow> same_but ns us vs)"

lemma same_but_refl [simp]: "same_but ns us us"
  by (simp add: same_but_def)

lemma same_but_trans: "same_but ns us vs \<Longrightarrow> same_but ns vs ws \<Longrightarrow> same_but ns us ws"
  by (simp add: same_but_def)

lemma same_but_update:
  assumes "same_but ns us vs" "set ms \<subseteq> set ns" "\<And>u. unit_key (f u) = unit_key u"
  shows "same_but ns us (update_at ms f vs)"
  using assms by (auto simp: same_but_def)

lemma unit_key_simps [simp]: "unit_key (with_error st e u) = unit_key u" "unit_key (u\<lparr>un_status := st\<rparr>) = unit_key u"
  "unit_key (u\<lparr>un_status := st, un_error := x\<rparr>) = unit_key u" "unit_key (u\<lparr>un_selected := b\<rparr>) = unit_key u"
  by (simp_all add: unit_key_def with_error_def split: option.splits)

lemma saves_within_snoc [simp]: "saves_within ns us []"
  "saves_within ns us (tr @ [Saved vs q]) \<longleftrightarrow> saves_within ns us tr \<and> same_but ns us vs"
  "saves_within ns us (tr @ [Ran i r]) \<longleftrightarrow> saves_within ns us tr"
  "saves_within ns us (tr @ [Committed c]) \<longleftrightarrow> saves_within ns us tr"
  "saves_within ns us (tr @ [RolledBack c]) \<longleftrightarrow> saves_within ns us tr"
  by (auto simp: saves_within_def)

lemma runs_snoc [simp]: "runs [] = []" "runs (tr @ [Saved vs q]) = runs tr" "runs (tr @ [Ran i r]) = runs tr @ [i]"
  "runs (tr @ [Committed c]) = runs tr" "runs (tr @ [RolledBack c]) = runs tr"
  by (simp_all add: runs_def map_filter_def)

lemma roll_back_within:
  assumes "roll_back env tx ex out tr = (out', tr')" "same_but ns us out" "saves_within ns us tr" "set ex \<subseteq> set ns"
  shows "same_but ns us out' \<and> saves_within ns us tr' \<and> runs tr' = runs tr"
  using assms by (cases tx) (auto simp: roll_back_def Let_def intro: same_but_update)

lemma run_units_within:
  assumes "run_units env tx is ex out tr = (r, out', tr')" "same_but ns us out" "saves_within ns us tr" "set ex \<union> set is \<subseteq> set ns"
  shows "same_but ns us out' \<and> saves_within ns us tr' \<and> (\<exists>k. runs tr' = runs tr @ take k is)"
  using assms
proof (induction "is" arbitrary: ex out tr)
  case Nil
  then show ?case by simp
next
  case (Cons i "is")
  have i: "set [i] \<subseteq> set ns" and ex: "set (ex @ [i]) \<subseteq> set ns" "set ex \<subseteq> set ns" using Cons.prems(4) by auto
  have start: "same_but ns us (started i out)" by (rule same_but_update [OF Cons.prems(2) i]) simp
  have pend: "same_but ns us (update_at [i] (\<lambda>u. u\<lparr>un_status := st\<rparr>) (started i out))" for st
    by (rule same_but_update [OF start i]) simp
  have fail: "same_but ns us (update_at [i] (with_error st e) (started i out))" for st e
    by (rule same_but_update [OF start i]) simp
  have after: "same_but ns us (after_run tx i out)" using start pend by (simp add: after_run_def)
  from Cons.prems(1) show ?case
  proof (cases rule: run_units_cases)
    case (Context e p tr1)
    from roll_back_within [OF Context(2) Cons.prems(2,3) ex(2)] have "runs tr' = runs tr @ take 0 (i # is)" by (simp add: Context(3))
    moreover from roll_back_within [OF Context(2) Cons.prems(2,3) ex(2)] show ?thesis using calculation unfolding Context(3) by auto
  next
    case (Before e)
    from roll_back_within [OF Before(2) pend _ ex(2)] Cons.prems(3) start
    have "same_but ns us out' \<and> saves_within ns us tr' \<and> runs tr' = runs tr @ take 0 (i # is)" by simp
    then show ?thesis by blast
  next
    case (Failed e q rs tr3)
    from Failed(2) have w: "saves_within ns us ((tr @ [Saved (started i out) None]) @ rs)" "\<exists>k. runs ((tr @ [Saved (started i out) None]) @ rs) = runs tr @ take k (i # is)"
      using Cons.prems(3) start by (auto intro: exI [of _ 0] exI [of _ 1])
    from roll_back_within [OF Failed(3) fail w(1) ex(2)] w(2) show ?thesis unfolding Failed(4) by simp
  next
    case (After e out3)
    from roll_back_within [OF After(2) after _ ex(1)] Cons.prems(3) start after
    have "same_but ns us out3 \<and> saves_within ns us tr' \<and> runs tr' = runs tr @ take 1 (i # is)" by simp
    moreover from this have "same_but ns us out'" using same_but_update [OF _ i] by (simp add: After(3))
    ultimately show ?thesis by blast
  next
    case Turn
    from Cons.IH [OF Turn after] Cons.prems(3,4) start after obtain k where
      "same_but ns us out' \<and> saves_within ns us tr' \<and> runs tr' = (runs tr @ [i]) @ take k is" by auto
    then have "same_but ns us out' \<and> saves_within ns us tr' \<and> runs tr' = runs tr @ take (Suc k) (i # is)" by (simp add: append_assoc)
    then show ?thesis by blast
  qed
qed

declare append_assoc [simp]

lemma length_runs_take: "runs tr = runs (take k tr) @ runs (drop k tr)"
proof -
  have "runs (a @ b) = runs a @ runs b" for a b by (simp add: runs_def map_filter_def)
  from this [of "take k tr" "drop k tr"] show ?thesis by simp
qed

lemma touched_runs: "set (touched tx tr) \<subseteq> set (runs tr)" "distinct (runs tr) \<Longrightarrow> distinct (touched tx tr)"
proof -
  have s: "set (List.map_filter ran_unit tr) \<subseteq> set (runs tr)" for tr
  proof (induction tr)
    case (Cons ev tr)
    then show ?case by (cases ev) (auto simp: map_filter_def runs_def)
  qed (simp add: map_filter_def)
  have "distinct (runs tr) \<Longrightarrow> distinct (List.map_filter ran_unit tr)"
  proof (induction tr)
    case (Cons ev tr)
    then show ?case using s [of tr] by (cases ev) (auto simp: map_filter_def runs_def)
  qed (simp add: map_filter_def)
  then show "set (touched tx tr) \<subseteq> set (runs tr)" "distinct (runs tr) \<Longrightarrow> distinct (touched tx tr)"
    using s [of tr] by (simp_all add: touched_def)
qed

section \<open>The whole execution\<close>

definition picked :: "saved_unit list \<Rightarrow> saved_unit list \<Rightarrow> bool" where
  "picked us vs \<longleftrightarrow> list_all2 (\<lambda>u v. unit_key v = unit_key u \<and> un_status v = un_status u) us vs"

definition to_run :: "saved_unit \<Rightarrow> bool" where
  "to_run u \<longleftrightarrow> un_selected u \<and> un_status u \<noteq> ''succeeded''"

lemma pick_units_result:
  "pick_units k us = (r, vs) \<Longrightarrow> picked us vs \<and>
     (\<forall>is. r = Inr is \<longrightarrow> distinct is \<and> (\<forall>i\<in>set is. k \<le> i \<and> i < k + length us \<and> to_run (us ! (i - k))))"
proof (induction us arbitrary: k r vs)
  case Nil
  then show ?case by (auto simp: picked_def)
next
  case (Cons u us)
  obtain q ws where q: "pick_units (k + 1) us = (q, ws)" by fastforce
  have IH: "picked us ws" "q = Inr is \<Longrightarrow> distinct is \<and> (\<forall>i\<in>set is. k + 1 \<le> i \<and> i < k + 1 + length us \<and> to_run (us ! (i - (k + 1))))" for "is"
    using Cons.IH [OF q] by blast+
  have head: "r = Inr is \<Longrightarrow> distinct is \<and> (\<forall>i\<in>set is. k \<le> i \<and> i < k + length (u # us) \<and> to_run ((u # us) ! (i - k)))" for "is"
  proof -
    assume r: "r = Inr is"
    obtain "is'" where "is'": "q = Inr is'" "is = is' \<or> (is = k # is' \<and> to_run u)"
      using Cons.prems r q by (cases q) (auto simp: to_run_def split: if_splits)
    show ?thesis using IH(2) [OF "is'"(1)] "is'"(2)
      by (force simp: nth_Cons' Suc_le_eq)
  qed
  moreover have "picked (u # us) vs"
    using Cons.prems q IH(1) by (auto simp: picked_def list_all2_same split: if_splits)
  ultimately show ?case by blast
qed

definition keeps :: "saved_unit list \<Rightarrow> saved_unit list \<Rightarrow> bool" where
  "keeps us vs \<longleftrightarrow> length vs = length us \<and>
     (\<forall>j<length us. unit_key (vs ! j) = unit_key (us ! j) \<and> (un_status (us ! j) = ''succeeded'' \<longrightarrow> un_status (vs ! j) = ''succeeded''))"

lemma picked_keeps: "picked us vs \<Longrightarrow> keeps us vs"
  by (auto simp: picked_def keeps_def list_all2_conv_all_nth)

lemma same_but_keeps:
  assumes "picked us vs" "same_but is vs ws" "\<forall>i\<in>set is. to_run (us ! i)"
  shows "keeps us ws"
  using assms by (auto simp: picked_def keeps_def list_all2_conv_all_nth same_but_def to_run_def)

definition sound_execution :: "bool \<Rightarrow> saved_unit list \<Rightarrow> saved_unit list \<Rightarrow> run_event list \<Rightarrow> bool" where
  "sound_execution tx us out tr \<longleftrightarrow>
     ahead tx us tr \<and> list_all (settled_unit out) (touched tx tr) \<and>
     distinct (runs tr) \<and> list_all (\<lambda>i. i < length us \<and> to_run (us ! i)) (runs tr) \<and>
     keeps us out \<and> list_all (\<lambda>ev. case ev of Saved vs q \<Rightarrow> keeps us vs | _ \<Rightarrow> True) tr"

lemma quiet_execution: "picked us out \<Longrightarrow> sound_execution tx us out []"
  by (simp add: sound_execution_def picked_keeps runs_def map_filter_def)

lemma execution_sound:
  assumes pick: "pick_units 0 us = (Inr is, out0)" and run: "run_units env tx is [] out0 [] = (r, out1, tr1)"
    and fin: "(case r of Inl e \<Rightarrow> (out, err, tr) = (out1, Some e, tr1)
      | Inr ex \<Rightarrow> (out, err, tr) = (if tx then commit_units env ex out1 tr1 else (out1, None, tr1)))"
  shows "sound_execution tx us out tr"
proof -
  have p: "picked us out0" "distinct is" "\<forall>i\<in>set is. i < length us \<and> to_run (us ! i)" using pick_units_result [OF pick] by auto
  have l: "length out0 = length us" using p(1) by (simp add: picked_def list_all2_lengthD)
  have b: "distinct ([] @ is)" "set is \<subseteq> {..<length us}" using p by auto
  obtain k where w: "same_but is out0 out1" "saves_within is out0 tr1" "runs tr1 = take k is"
    using run_units_within [OF run same_but_refl [of "is"]] by auto
  have "same_but is out0 out \<and> saves_within is out0 tr \<and> runs tr = runs tr1 \<and> length out = length us \<and>
      ahead tx us tr \<and> list_all (settled_unit out) (touched tx tr)"
  proof (cases tx)
    case False
    have "auto_inv us [] out0 []" by (simp add: auto_inv_def l)
    then have "auto_end us out1 tr1" using run_units_auto [OF _ _ b, of env out0 "[]"] run False by simp
    then show ?thesis using fin w False by (auto simp: auto_end_def split: sum.splits)
  next
    case True
    have "tx_inv us [] out0 []" by (simp add: tx_inv_def l map_filter_def)
    then have t: "length out1 = length us" "\<not> list_ex is_commit tr1" "\<And>ex. r = Inr ex \<Longrightarrow> tx_inv us ex out1 tr1"
      using run_units_tx [OF _ _ b, of env out0 "[]"] run True by simp_all
    show ?thesis
    proof (cases r)
      case (Inl e)
      then show ?thesis using fin w t True ahead_no_commit [OF t(2)] by (auto simp: touched_def)
    next
      case (Inr ex)
      then have c: "commit_units env ex out1 tr1 = (out, err, tr)" using fin True by simp
      have ex: "set ex \<subseteq> set is" using run_units_executed [OF run] Inr by auto
      have frame: "same_but is out0 out \<and> saves_within is out0 tr \<and> runs tr = runs tr1"
        using c w same_but_update [OF w(1) ex] same_but_update [OF same_but_update [OF w(1) ex] ex]
        by (auto simp: commit_units_def Let_def save_step_def append_assoc [symmetric] simp del: append_assoc split: if_splits)
      then show ?thesis using commit_units_end [OF c t(3) [OF Inr]] True by simp
    qed
  qed
  moreover have "list_all (\<lambda>ev. case ev of Saved vs q \<Rightarrow> keeps us vs | _ \<Rightarrow> True) tr" if "saves_within is out0 tr"
    using that same_but_keeps [OF p(1) _] p(3) by (auto simp: list_all_iff saves_within_def split: run_event.split)
  ultimately show ?thesis
    using w(3) p same_but_keeps [OF p(1), of "is" out] by (auto simp: sound_execution_def list_all_iff dest: in_set_takeD)
qed

lemma ExecuteRepair_sound:
  assumes "ExecuteRepair env ob us = (out, err, tr)"
  shows "sound_execution (one_transaction env ob) us out tr"
proof -
  obtain q out0 where pick: "pick_units 0 us = (q, out0)" by fastforce
  have same: "picked us us" by (simp add: picked_def list_all2_same)
  have p: "picked us out0" using pick_units_result [OF pick] by blast
  show ?thesis
  proof (cases "tr = [] \<and> (out = us \<or> out = out0)")
    case True
    then show ?thesis using quiet_execution same p by auto
  next
    case False
    then obtain "is" where "is": "q = Inr is" "is \<noteq> []"
      using assms pick by (cases q) (auto simp: ExecuteRepair_def split: sum.splits if_splits list.splits option.splits)
    obtain r out1 tr1 where run: "run_units env (one_transaction env ob) is [] out0 [] = (r, out1, tr1)" by (cases "run_units env (one_transaction env ob) is [] out0 []")
    have "(case r of Inl e \<Rightarrow> (out, err, tr) = (out1, Some e, tr1)
        | Inr ex \<Rightarrow> (out, err, tr) = (if one_transaction env ob then commit_units env ex out1 tr1 else (out1, None, tr1)))"
      using assms pick "is" run False by (auto simp: ExecuteRepair_def split: sum.splits if_splits list.splits option.splits)
    then show ?thesis using execution_sound [OF _ run] pick "is"(1) by blast
  qed
qed

section \<open>Property\<close>

text \<open>C8: The ledger knows of every change before the target does. At each moment of an execution, whatever fails or
  is cancelled, the units that may have changed the target are recorded as running, succeeded or unknown by the
  last write that reached the ledger, so a restart finds them; at the end each of them is recorded as succeeded or
  unknown. Every selected open unit is sent at most once, a succeeded one never, and no SQL is altered.\<close>

theorem repair_write_ahead:
  "case ExecuteRepair env ob us of (out, err, tr) \<Rightarrow>
     (\<forall>k. list_all (on_record (saved_at us (take k tr))) (touched (one_transaction env ob) (take k tr))) \<and>
     list_all (settled_unit out) (touched (one_transaction env ob) tr) \<and>
     distinct (runs tr) \<and> list_all (\<lambda>i. i < length us \<and> to_run (us ! i)) (runs tr) \<and>
     map unit_key out = map unit_key us"
proof (cases "ExecuteRepair env ob us")
  case (fields out err tr)
  have s: "sound_execution (one_transaction env ob) us out tr" by (rule ExecuteRepair_sound [OF fields])
  have "list_all (on_record (saved_at us (take k tr))) (touched (one_transaction env ob) (take k tr))" for k
    using s by (cases "k \<le> length tr") (auto simp: sound_execution_def ahead_def)
  moreover have "map unit_key out = map unit_key us"
    using s by (auto simp: sound_execution_def keeps_def intro!: nth_equalityI)
  ultimately show ?thesis using s by (simp add: fields sound_execution_def)
qed

end
