(* ===== verification/RepairDraft.thy ===== *)
theory RepairDraft
  imports RepairExec
begin

text \<open>
  What a user may save and run (\<^verbatim>\<open>SaveMigrationRepairDraft\<close>, \<^verbatim>\<open>validateRepairUnits\<close> and the checks of
  \<^verbatim>\<open>ExecuteMigrationRepair\<close> in \<^verbatim>\<open>api/handler/migration_repair.go\<close>, \<^verbatim>\<open>CanEditDDL\<close> and \<^verbatim>\<open>CanExecuteDDL\<close> in
  \<^verbatim>\<open>datamigrate/repair/types.go\<close>). The judgements on the frozen plans of triggers and native objects, and the drafts
  written for them, are parameters.
\<close>

section \<open>Objects with DDL\<close>

datatype gate_error =
    StaleVersion | BadMode | NotEditable | OutcomeUnknown | UnitUnknown | DuplicateUnit | SucceededEdited
  | SucceededDeleted | TooManyUnits | FrozenMapping | NotExecutable | NotConfirmed | NeedsReview | PlanChanged
  | EmptyUnit | OnlyComments | NotDdl | ForbiddenClear | ForbiddenDrop | ForbiddenAlter | ForbiddenSchema
  | NothingToRun | BadSql query_error | OutOfScope string | DependencyOpen string | BadPlan string

record repair_rules =
  rl_manual :: "saved_object \<Rightarrow> bool"
  rl_native :: "saved_object \<Rightarrow> bool"
  rl_scope :: "saved_object \<Rightarrow> saved_unit list \<Rightarrow> gate_error option"
  rl_depends :: "saved_object \<Rightarrow> gate_error option"
  rl_manual_draft :: "saved_object \<Rightarrow> saved_unit list \<Rightarrow> bool \<Rightarrow> gate_error + saved_object"
  rl_sequence :: "saved_object \<Rightarrow> saved_unit list \<Rightarrow> gate_error + saved_object"

definition CanEditDDL :: "repair_rules \<Rightarrow> saved_object \<Rightarrow> bool" where
  "CanEditDDL rl ob \<longleftrightarrow>
     (if ro_manual_trigger ob then rl_manual rl ob
      else if ro_native ob then False
      else if ro_diagnostic ob \<or> trim_space (ro_schema ob) = [] \<or> trim_space (ro_target_name ob) = [] then False
      else if ro_kind ob \<in> set [''table'', ''tables'', ''view'', ''views'', ''sequence'', ''sequences'', ''owner'', ''distribution''] then True
      else if ro_kind ob \<in> set [''index'', ''indexes'', ''primary_key'', ''primary_keys'', ''primaryKeys'', ''unique'', ''foreign_key'',
        ''foreign_keys'', ''constraints'', ''comment'', ''comments'']
      then ro_table ob \<noteq> [] \<or> ro_ddl ob \<noteq> [] \<or> ro_units ob \<noteq> []
      else False)"

definition CanExecuteDDL :: "repair_rules \<Rightarrow> saved_object \<Rightarrow> bool" where
  "CanExecuteDDL rl ob \<longleftrightarrow>
     (if ro_manual_trigger ob then rl_manual rl ob
      else if ro_native ob then rl_native rl ob
      else CanEditDDL rl ob \<or>
        (\<not> ro_diagnostic ob \<and> ro_kind ob = ''trigger'' \<and> (ro_pg_trigger ob \<or> ro_dm_trigger ob) \<and>
         ro_schema ob \<noteq> [] \<and> ro_target_name ob \<noteq> []))"

section \<open>The words of a unit\<close>

definition ddl_heads :: "string list" where
  "ddl_heads = [''CREATE'', ''ALTER'', ''COMMENT'', ''DECLARE'', ''BEGIN'', ''IF'', ''DO'', ''EXEC'', ''EXECUTE'', ''DBCC'', ''DROP'']"

fun check_words :: "string list \<Rightarrow> gate_error option" where
  "check_words [] = None"
| "check_words (t # ts) =
     (if t \<in> set [''TRUNCATE'', ''USE''] then Some ForbiddenClear
      else
        (case ts of
           [] \<Rightarrow> None
         | n # _ \<Rightarrow>
             if t = ''DROP'' \<and> n \<in> set [''TABLE'', ''DATABASE'', ''SCHEMA''] then Some ForbiddenDrop
             else if t = ''ALTER'' \<and> n \<in> set [''SESSION'', ''DATABASE'', ''SYSTEM''] then Some ForbiddenAlter
             else if t = ''SET'' \<and> n \<in> set [''SEARCH_PATH'', ''SCHEMA''] then Some ForbiddenSchema
             else check_words ts))"

definition check_unit :: "saved_unit \<Rightarrow> gate_error option" where
  "check_unit u =
     (if trim_space (un_sql u) = [] \<or> 2 ^ 20 < int (length (un_sql u)) then Some EmptyUnit
      else
        (case scanQueryTokens (un_sql u) of
           Inl e \<Rightarrow> Some (BadSql e)
         | Inr (ts, n) \<Rightarrow>
             if ts = [] then Some OnlyComments
             else if hd ts \<notin> set ddl_heads then Some NotDdl
             else check_words ts))"

fun check_units :: "nat \<Rightarrow> saved_unit list \<Rightarrow> gate_error option" where
  "check_units selected [] = (if selected = 0 then Some NothingToRun else None)"
| "check_units selected (u # us) =
     (if \<not> to_run u then check_units selected us
      else (case check_unit u of Some e \<Rightarrow> Some e | None \<Rightarrow> check_units (selected + 1) us))"

definition validateRepairUnits :: "saved_unit list \<Rightarrow> gate_error option" where
  "validateRepairUnits us = (if 100 < length us then Some TooManyUnits else check_units 0 us)"

section \<open>Drafts\<close>

record draft_request =
  dr_mode :: string
  dr_version :: int
  dr_units :: "saved_unit list"
  dr_mapping :: "(string \<times> string) list option"
  dr_reviewed :: bool
  dr_sequence :: bool

text \<open>A unit without an identifier gets a fresh one; \<open>fresh\<close> gives it for a place in the request.\<close>

definition merge_unit :: "saved_unit list \<Rightarrow> saved_unit \<Rightarrow> gate_error + saved_unit" where
  "merge_unit old u =
     (case List.find (\<lambda>was. un_id was = un_id u) (rev old) of
        None \<Rightarrow> Inr (u\<lparr>un_original := [], un_status := ''pending'', un_error := []\<rparr>)
      | Some was \<Rightarrow>
          if uncertain was then Inl UnitUnknown
          else if un_status was = ''succeeded'' \<and> un_sql u \<noteq> un_sql was then Inl SucceededEdited
          else Inr (was\<lparr>un_sql := un_sql u, un_selected := (un_selected u \<and> un_status was \<noteq> ''succeeded'')\<rparr>))"

fun merge_units :: "(nat \<Rightarrow> string) \<Rightarrow> saved_unit list \<Rightarrow> nat \<Rightarrow> string list \<Rightarrow> saved_unit list \<Rightarrow> gate_error + saved_unit list" where
  "merge_units fresh old i met [] = Inr []"
| "merge_units fresh old i met (u # us) =
     (let v = (if un_id u = [] then u\<lparr>un_id := fresh i\<rparr> else u) in
      if un_id v \<in> set met then Inl DuplicateUnit
      else
        bind_res (merge_unit old v) (\<lambda>w.
        bind_res (merge_units fresh old (i + 1) (un_id v # met) us) (\<lambda>ws. Inr (w # ws))))"

definition same_mapping :: "(string \<times> string) list \<Rightarrow> (string \<times> string) list \<Rightarrow> bool" where
  "same_mapping own asked \<longleftrightarrow> length asked = length own \<and> list_all (\<lambda>(c, m). map_of own c = Some m) asked"

fun sql_changed :: "saved_unit list \<Rightarrow> saved_unit list \<Rightarrow> bool" where
  "sql_changed [] [] = False"
| "sql_changed (a # as) (b # bs) = (un_id a \<noteq> un_id b \<or> un_sql a \<noteq> un_sql b \<or> sql_changed as bs)"
| "sql_changed _ _ = True"

definition drafted :: "draft_request \<Rightarrow> saved_object \<Rightarrow> saved_unit list \<Rightarrow> saved_object" where
  "drafted req ob out =
     ob\<lparr>ro_units := out,
        ro_column_mapping := (case dr_mapping req of None \<Rightarrow> ro_column_mapping ob | Some m \<Rightarrow> m),
        ro_requires_review := (ro_requires_review ob \<and> \<not> dr_reviewed req),
        ro_status := (if sql_changed (ro_units ob) out \<or> ro_status ob \<noteq> ''succeeded'' then ''draft'' else ro_status ob)\<rparr>"

text \<open>The draft of an object with ordinary DDL.\<close>

definition plain_draft :: "repair_rules \<Rightarrow> (nat \<Rightarrow> string) \<Rightarrow> draft_request \<Rightarrow> saved_object \<Rightarrow> gate_error + saved_object" where
  "plain_draft rl fresh req ob =
     (if ro_status ob = ''unknown'' then Inl OutcomeUnknown
      else if list_ex uncertain (ro_units ob) then Inl UnitUnknown
      else
        bind_res (merge_units fresh (ro_units ob) 0 [] (dr_units req)) (\<lambda>out.
          if list_ex (\<lambda>u. un_status u = ''succeeded'' \<and> un_id u \<notin> un_id ` set out) (ro_units ob) then Inl SucceededDeleted
          else if 100 < length out \<and> \<not> ro_partition ob then Inl TooManyUnits
          else if ro_partition ob then
            (case rl_scope rl ob out of
               Some e \<Rightarrow> Inl e
             | None \<Rightarrow>
                 (case dr_mapping req of
                    Some m \<Rightarrow> if same_mapping (ro_column_mapping ob) m then Inr (drafted req ob out) else Inl FrozenMapping
                  | None \<Rightarrow> Inr (drafted req ob out)))
          else Inr (drafted req ob out)))"

definition draft_object :: "repair_rules \<Rightarrow> (nat \<Rightarrow> string) \<Rightarrow> draft_request \<Rightarrow> int \<Rightarrow> string \<Rightarrow> saved_object \<Rightarrow> gate_error + saved_object" where
  "draft_object rl fresh req version schema ob =
     (if dr_version req \<noteq> version then Inl StaleVersion
      else if dr_mode req \<noteq> [] \<and> dr_mode req \<noteq> ''manual_trigger'' then Inl BadMode
      else if dr_mode req = ''manual_trigger'' \<or> ro_manual_trigger ob then
        (if schema \<noteq> ro_schema ob then Inl (BadPlan ''schema'') else rl_manual_draft rl ob (dr_units req) (dr_reviewed req))
      else if \<not> CanEditDDL rl ob then Inl NotEditable
      else if dr_sequence req then
        (if \<not> dr_reviewed req then Inl NeedsReview
         else bind_res (rl_sequence rl ob (dr_units req)) (plain_draft rl fresh req))
      else plain_draft rl fresh req ob)"

text \<open>The handler: load, judge, save under the version of the request.\<close>

definition SaveMigrationRepairDraft ::
  "repair_rules \<Rightarrow> (nat \<Rightarrow> string) \<Rightarrow> string \<Rightarrow> string \<Rightarrow> string \<Rightarrow> draft_request \<Rightarrow> ledger \<Rightarrow> (ledger_error + gate_error) + ledger" where
  "SaveMigrationRepairDraft rl fresh job oid schema req db =
     (case GetMigrationRepairObject job oid db of
        Inl e \<Rightarrow> Inl (Inl e)
      | Inr r \<Rightarrow>
          (case or_payload r of
             None \<Rightarrow> Inl (Inl BadJson)
           | Some ob \<Rightarrow>
               (case draft_object rl fresh req (or_version r) schema ob of
                  Inl e \<Rightarrow> Inl (Inr e)
                | Inr ob' \<Rightarrow>
                    (case SaveMigrationRepairObject job oid (dr_version req) ob' db of
                       Inl e \<Rightarrow> Inl (Inl e)
                     | Inr db' \<Rightarrow> Inr db'))))"

section \<open>The gate of an execution\<close>

record execute_request =
  xr_version :: int
  xr_request :: string
  xr_confirmed :: bool

definition special :: "saved_object \<Rightarrow> bool" where
  "special ob \<longleftrightarrow> ro_pg_trigger ob \<or> ro_dm_trigger ob \<or> ro_native ob \<or> ro_manual_trigger ob"

definition select_all :: "saved_object \<Rightarrow> saved_object" where
  "select_all ob =
     (if special ob then ob\<lparr>ro_units := map (\<lambda>u. if un_status u \<noteq> ''succeeded'' then u\<lparr>un_selected := True\<rparr> else u) (ro_units ob)\<rparr> else ob)"

definition first_error :: "gate_error option list \<Rightarrow> gate_error option" where
  "first_error es = (case List.find (\<lambda>e. e \<noteq> None) es of None \<Rightarrow> None | Some e \<Rightarrow> e)"

text \<open>From the loaded object to the object a worker gets; the request of an earlier attempt is answered before.\<close>

definition execute_gate :: "repair_rules \<Rightarrow> string \<Rightarrow> execute_request \<Rightarrow> int \<Rightarrow> saved_object \<Rightarrow> gate_error + saved_object" where
  "execute_gate rl dst req version ob0 =
     (let replay = (ro_native ob0 \<or> ro_dm_trigger ob0 \<or> ro_manual_trigger ob0) in
      if \<not> CanExecuteDDL rl ob0 then Inl NotExecutable
      else if xr_request req = [] \<or> \<not> xr_confirmed req then Inl NotConfirmed
      else if xr_version req \<noteq> version then Inl StaleVersion
      else if ro_manual_trigger ob0 \<and> (dst \<noteq> ''dameng'' \<or> \<not> rl_manual rl ob0) then Inl PlanChanged
      else if ro_manual_trigger ob0 \<and> ro_requires_review ob0 then Inl NeedsReview
      else if ro_status ob0 = ''unknown'' \<and> \<not> replay then Inl OutcomeUnknown
      else
        let ob = select_all ob0 in
        if ro_requires_review ob \<and> \<not> ro_pg_trigger ob \<and> \<not> ro_dm_trigger ob \<and> \<not> ro_native ob then Inl NeedsReview
        else if list_ex uncertain (ro_units ob) \<and> \<not> replay then Inl UnitUnknown
        else
          (case first_error
             [if \<not> ro_native ob \<and> \<not> ro_manual_trigger ob then validateRepairUnits (ro_units ob)
              else if ro_native ob \<and> \<not> rl_native rl ob then Some PlanChanged else None,
              rl_scope rl ob (ro_units ob), rl_depends rl ob] of
             Some e \<Rightarrow> Inl e
           | None \<Rightarrow> Inr ob))"

section \<open>The worker\<close>

definition error_mentions :: "(sql_error \<Rightarrow> bool) \<Rightarrow> repair_error \<Rightarrow> bool" where
  "error_mentions P e =
     (case e of
        RunError x \<Rightarrow> P x
      | SaveBefore x \<Rightarrow> P x
      | SaveAfter x \<Rightarrow> P x
      | Joined x y \<Rightarrow> list_ex P (List.map_filter id [x, y])
      | _ \<Rightarrow> False)"

definition cancelled_error :: "repair_error \<Rightarrow> bool" where
  "cancelled_error = error_mentions (\<lambda>x. Canceled \<in> set (re_marks x) \<or> DeadlineExceeded \<in> set (re_marks x))"

text \<open>The attempt after \<^verbatim>\<open>ExecuteRepair\<close>, and the object as \<^verbatim>\<open>finishRepair\<close> leaves it; the text of an error is a parameter.\<close>

definition ran_attempt :: "attempt_row \<Rightarrow> saved_unit list \<Rightarrow> attempt_row" where
  "ran_attempt a out =
     a\<lparr>at_units := map (\<lambda>u. if un_status u = ''succeeded'' then u\<lparr>un_selected := False\<rparr> else u) out,
       at_status := (if list_ex (\<lambda>u. un_status u = ''unknown'') out then ''unknown'' else at_status a)\<rparr>"

definition repaired :: "(repair_error \<Rightarrow> string) \<Rightarrow> attempt_row \<Rightarrow> saved_object \<Rightarrow> saved_unit list \<Rightarrow> repair_error option \<Rightarrow> saved_object" where
  "repaired tell a ob out err =
     finished_object (ran_attempt a out) ob (map_option (\<lambda>e. \<lparr>fe_text = tell e, fe_cancelled = cancelled_error e\<rparr>) err)"

end
