(* ===== verification/RepairLife.thy ===== *)
theory RepairLife
  imports RepairDraft
begin

text \<open>
  The life of an object in the ledger: drafts, executions, crashes in the middle of one, restarts and recovered
  data. A unit that may have changed the target is not sent again, in whatever order these happen.
\<close>

section \<open>Steps\<close>

text \<open>An object whose units are ordinary DDL.\<close>

definition plain :: "saved_object \<Rightarrow> bool" where
  "plain ob \<longleftrightarrow> \<not> special ob \<and> \<not> ro_partition ob"

text \<open>The object in the ledger after a prefix of an execution (each step saves it with \<^verbatim>\<open>persistRepairProgress\<close>),
  and after the restart that follows.\<close>

definition saved_object_at :: "saved_object \<Rightarrow> run_event list \<Rightarrow> saved_object" where
  "saved_object_at ob tr =
     (if list_ex (\<lambda>ev. case ev of Saved vs q \<Rightarrow> q = None | _ \<Rightarrow> False) tr
      then ob\<lparr>ro_units := saved_at (ro_units ob) tr, ro_status := ''running''\<rparr> else ob)"

definition restarted_object :: "(string \<times> saved_object) list \<Rightarrow> attempt_row \<Rightarrow> saved_object \<Rightarrow> saved_object" where
  "restarted_object finished a ob = snd (settle finished (at_job a) (interrupted a ob))"

definition unit_ids :: "saved_object \<Rightarrow> nat list \<Rightarrow> string list" where
  "unit_ids ob is = map (\<lambda>i. un_id (ro_units ob ! i)) is"

text \<open>The log holds the units whose SQL may have taken effect, in order.\<close>

inductive object_step :: "repair_rules \<Rightarrow> saved_object \<times> string list \<Rightarrow> saved_object \<times> string list \<Rightarrow> bool" for rl where
  Draft: "plain ob \<Longrightarrow> dr_mode req = [] \<Longrightarrow> \<not> dr_sequence req \<Longrightarrow> draft_object rl fresh req version schema ob = Inr ob' \<Longrightarrow>
    object_step rl (ob, log) (ob', log)"
| Execute: "plain ob \<Longrightarrow> execute_gate rl dst req version ob = Inr ob1 \<Longrightarrow> at_kind a = ''ddl'' \<Longrightarrow> running a \<Longrightarrow>
    ExecuteRepair env ob1 (ro_units ob1) = (out, err, tr) \<Longrightarrow>
    object_step rl (ob, log) (repaired tell a ob1 out err, log @ unit_ids ob1 (touched (one_transaction env ob1) tr))"
| Crash: "plain ob \<Longrightarrow> execute_gate rl dst req version ob = Inr ob1 \<Longrightarrow> at_kind a = ''ddl'' \<Longrightarrow>
    ExecuteRepair env ob1 (ro_units ob1) = (out, err, tr) \<Longrightarrow> k \<le> length tr \<Longrightarrow>
    object_step rl (ob, log) (restarted_object finished a (saved_object_at ob1 (take k tr)),
      log @ unit_ids ob1 (touched (one_transaction env ob1) (take k tr)))"
| Restart: "object_step rl (ob, log) (snd (settle finished job ob), log)"
| DataState: "object_step rl (ob, log) (ob\<lparr>ro_data_status := st\<rparr>, log)"
| DataDone: "data_kind ob \<Longrightarrow> object_step rl (ob, log) (mark_data (ob\<lparr>ro_column_mapping := m\<rparr>), log)"

section \<open>The invariant\<close>

definition accounted :: "saved_object \<Rightarrow> string \<Rightarrow> bool" where
  "accounted ob uid \<longleftrightarrow> ro_status ob = ''unknown'' \<or>
     (\<exists>u\<in>set (ro_units ob). un_id u = uid \<and> un_status u \<in> set [''succeeded'', ''unknown''])"

definition life_ok :: "saved_object \<times> string list \<Rightarrow> bool" where
  "life_ok s \<longleftrightarrow> (case s of (ob, log) \<Rightarrow>
     distinct (map un_id (ro_units ob)) \<and> distinct log \<and> list_all (accounted ob) log \<and> (log \<noteq> [] \<longrightarrow> ro_kind ob \<noteq> ''data''))"

lemma find_rev_id:
  assumes "distinct (map un_id us)" "was \<in> set us"
  shows "List.find (\<lambda>x. un_id x = un_id was) (rev us) = Some was"
proof (rule find_Some_eqI)
  show "x = was" if "x \<in> set (rev us)" "un_id x = un_id was" for x
    using that assms by (auto simp: distinct_map inj_on_def)
qed (use assms in simp_all)

lemma merge_unit_result:
  assumes "merge_unit old u = Inr w" "distinct (map un_id old)"
  shows "un_id w = un_id u \<and> (\<forall>was\<in>set old. un_id was = un_id w \<and> un_status was = ''succeeded'' \<longrightarrow> un_status w = ''succeeded'')"
proof (cases "List.find (\<lambda>was. un_id was = un_id u) (rev old)")
  case None
  then have "un_id w = un_id u" using assms(1) by (auto simp: merge_unit_def)
  then show ?thesis using None by (auto simp: find_None_iff)
next
  case (Some was)
  then have was: "was \<in> set old" "un_id was = un_id u" using find_Some_in [OF Some] by simp_all
  have uniq: "x = was" if "x \<in> set old" "un_id x = un_id u" for x
    using that was assms(2) by (auto simp: distinct_map inj_on_def)
  have w: "w = was\<lparr>un_sql := un_sql u, un_selected := (un_selected u \<and> un_status was \<noteq> ''succeeded'')\<rparr>"
    using assms(1) Some by (auto simp: merge_unit_def split: if_splits)
  then have "un_id w = un_id u" "un_status w = un_status was" using was(2) by simp_all
  then show ?thesis using uniq by metis
qed

lemma merge_units_result:
  "merge_units fresh old i met us = Inr ws \<Longrightarrow> distinct (map un_id old) \<Longrightarrow>
     distinct (map un_id ws) \<and> set met \<inter> un_id ` set ws = {} \<and>
     (\<forall>w\<in>set ws. \<forall>was\<in>set old. un_id was = un_id w \<and> un_status was = ''succeeded'' \<longrightarrow> un_status w = ''succeeded'')"
proof (induction us arbitrary: i met ws)
  case (Cons u us)
  let ?v = "if un_id u = [] then u\<lparr>un_id := fresh i\<rparr> else u"
  from Cons.prems(1) obtain w ws' where w: "un_id ?v \<notin> set met" "merge_unit old ?v = Inr w"
      "merge_units fresh old (i + 1) (un_id ?v # met) us = Inr ws'" "ws = w # ws'"
    by (auto simp: Let_def bind_res_Inr_iff split: if_splits)
  from Cons.IH [OF w(3) Cons.prems(2)] merge_unit_result [OF w(2) Cons.prems(2)] w(1,4) show ?case by auto
qed simp

lemma plain_draft_ok:
  assumes "plain_draft rl fresh req ob = Inr ob'" "life_ok (ob, log)" "plain ob"
  shows "life_ok (ob', log)"
proof -
  from assms(1,3) obtain out where out: "ro_status ob \<noteq> ''unknown''" "\<not> list_ex uncertain (ro_units ob)"
      "merge_units fresh (ro_units ob) 0 [] (dr_units req) = Inr out"
      "\<not> list_ex (\<lambda>u. un_status u = ''succeeded'' \<and> un_id u \<notin> un_id ` set out) (ro_units ob)" "ob' = drafted req ob out"
    by (auto simp: plain_draft_def plain_def bind_res_Inr_iff split: if_splits)
  have ids: "distinct (map un_id (ro_units ob))" using assms(2) by (simp add: life_ok_def)
  note m = merge_units_result [OF out(3) ids]
  have "accounted ob' uid" if "accounted ob uid" for uid
  proof -
    obtain u where u: "u \<in> set (ro_units ob)" "un_id u = uid" "un_status u = ''succeeded''"
      using \<open>accounted ob uid\<close> out(1,2) by (auto simp: accounted_def list_ex_iff uncertain_def)
    then have "uid \<in> un_id ` set out" using out(4) by (auto simp: list_ex_iff)
    then obtain w where w: "w \<in> set out" "un_id w = uid" by auto
    then have "un_status w = ''succeeded''" using m u by blast
    with w show ?thesis by (auto simp: accounted_def out(5) drafted_def)
  qed
  then show ?thesis using assms(2) m by (auto simp: life_ok_def list_all_iff out(5) drafted_def)
qed

section \<open>Restarts\<close>

lemma settle_frame:
  assumes "settle finished job ob = (ch, ob')"
  shows "ro_kind ob' = ro_kind ob" "map un_id (ro_units ob') = map un_id (ro_units ob)"
    "accounted ob uid \<Longrightarrow> ro_kind ob \<noteq> ''data'' \<Longrightarrow> accounted ob' uid"
proof -
  obtain c1 ob1 where n: "NormalizeLegacyExecution ob = (c1, ob1)" by fastforce
  have norm: "ro_kind ob1 = ro_kind ob" "map un_id (ro_units ob1) = map un_id (ro_units ob)"
      "accounted ob uid \<Longrightarrow> accounted ob1 uid"
    using n by (auto simp: NormalizeLegacyExecution_def accounted_def split: if_splits)
  have stop: "map un_id (map stop_unit us) = map un_id us" for us
    by (simp add: stop_unit_def)
  show "ro_kind ob' = ro_kind ob" "map un_id (ro_units ob') = map un_id (ro_units ob)"
    using assms norm stop by (auto simp: settle_def Let_def n mark_data_def simp del: map_map split: if_splits)
  assume a: "accounted ob uid" "ro_kind ob \<noteq> ''data''"
  have keep: "un_status u \<in> set [''succeeded'', ''unknown''] \<Longrightarrow> un_status (stop_unit u) \<in> set [''succeeded'', ''unknown''] \<and> un_id (stop_unit u) = un_id u" for u
    by (auto simp: stop_unit_def)
  have st: "ro_status ob1 = ''unknown'' \<Longrightarrow> ro_status ob' = ''unknown''"
    using assms a(2) norm(1) by (auto simp: settle_def Let_def n mark_data_def split: if_splits)
  have un: "ro_units ob' = map stop_unit (ro_units ob1)"
    using assms by (auto simp: settle_def Let_def n mark_data_def split: if_splits)
  from norm(3) [OF a(1)] show "accounted ob' uid"
    unfolding accounted_def using st un keep by auto
qed

lemma restart_life:
  assumes "life_ok (ob, log)"
  shows "life_ok (snd (settle finished job ob), log)"
proof -
  obtain ch ob' where "settle finished job ob = (ch, ob')" by fastforce
  note f = settle_frame [OF this]
  show ?thesis using assms f by (auto simp: \<open>settle finished job ob = (ch, ob')\<close> life_ok_def list_all_iff)
qed

section \<open>Executions\<close>

lemma gate_facts:
  assumes "execute_gate rl dst req version ob = Inr ob1" "plain ob"
  shows "ob1 = ob" "ro_status ob \<noteq> ''unknown''" "\<not> list_ex uncertain (ro_units ob)" "ro_kind ob \<noteq> ''data''"
    "validateRepairUnits (ro_units ob) = None" "rl_scope rl ob (ro_units ob) = None"
proof -
  have p: "\<not> special ob" "\<not> ro_native ob" "\<not> ro_dm_trigger ob" "\<not> ro_pg_trigger ob" "\<not> ro_manual_trigger ob"
    using assms(2) by (auto simp: plain_def special_def)
  have first: "first_error es = None \<Longrightarrow> list_all (\<lambda>e. e = None) es" for es
    by (induction es) (auto simp: first_error_def split: if_splits option.splits)
  have g: "CanExecuteDDL rl ob \<and> ro_status ob \<noteq> ''unknown'' \<and> \<not> list_ex uncertain (ro_units ob) \<and> ob1 = ob \<and>
      first_error [validateRepairUnits (ro_units ob), rl_scope rl ob (ro_units ob), rl_depends rl ob] = None"
    using assms(1) p by (auto simp: execute_gate_def select_all_def Let_def split: if_splits option.splits)
  then show "ob1 = ob" "ro_status ob \<noteq> ''unknown''" "\<not> list_ex uncertain (ro_units ob)"
    "validateRepairUnits (ro_units ob) = None" "rl_scope rl ob (ro_units ob) = None"
    using first [of "[validateRepairUnits (ro_units ob), rl_scope rl ob (ro_units ob), rl_depends rl ob]"] by simp_all
  show "ro_kind ob \<noteq> ''data''"
    using g p by (auto simp: CanExecuteDDL_def CanEditDDL_def split: if_splits)
qed

lemma saved_keeps:
  "list_all (\<lambda>ev. case ev of Saved vs q \<Rightarrow> keeps us vs | _ \<Rightarrow> True) tr \<Longrightarrow> keeps us (saved_at us tr)"
proof (induction tr rule: rev_induct)
  case (snoc ev tr)
  then show ?case by (cases ev; cases "case ev of Saved vs q \<Rightarrow> q | _ \<Rightarrow> None") auto
qed (simp add: keeps_def)

lemma keeps_ids: "keeps us vs \<Longrightarrow> map un_id vs = map un_id us"
  by (auto simp: keeps_def unit_key_def intro!: nth_equalityI)

lemma keeps_succeeded:
  assumes "keeps us vs" "u \<in> set us" "un_status u = ''succeeded''"
  shows "\<exists>v\<in>set vs. un_id v = un_id u \<and> un_status v = ''succeeded''"
proof -
  obtain j where j: "j < length us" "us ! j = u" using assms(2) by (auto simp: in_set_conv_nth)
  with assms(1,3) have "vs ! j \<in> set vs \<and> un_id (vs ! j) = un_id u \<and> un_status (vs ! j) = ''succeeded''"
    by (auto simp: keeps_def unit_key_def)
  then show ?thesis by blast
qed

text \<open>The units an execution touches are new to the log.\<close>

lemma execution_log:
  assumes "sound_execution tx (ro_units ob) out tr" "life_ok (ob, log)" "\<not> list_ex uncertain (ro_units ob)" "ro_status ob \<noteq> ''unknown''"
  shows "distinct (log @ unit_ids ob (touched tx (take k tr)))"
proof -
  let ?us = "ro_units ob"
  have ids: "distinct (map un_id ?us)" "distinct log" "list_all (accounted ob) log" using assms(2) by (auto simp: life_ok_def)
  have r: "distinct (runs (take k tr))" "\<forall>i\<in>set (runs (take k tr)). i < length ?us \<and> un_status (?us ! i) \<noteq> ''succeeded''"
    using assms(1) length_runs_take [of tr k] by (auto simp: sound_execution_def list_all_iff to_run_def)
  have t: "distinct (touched tx (take k tr))" "set (touched tx (take k tr)) \<subseteq> set (runs (take k tr))"
    using touched_runs r(1) by blast+
  have inj: "i = j" if "i < length ?us" "j < length ?us" "un_id (?us ! i) = un_id (?us ! j)" for i j
    using ids(1) that by (auto simp: distinct_conv_nth)
  have "distinct (unit_ids ob (touched tx (take k tr)))"
    unfolding unit_ids_def distinct_map
  proof (intro conjI inj_onI)
    show "i = j" if "i \<in> set (touched tx (take k tr))" "j \<in> set (touched tx (take k tr))" "un_id (?us ! i) = un_id (?us ! j)" for i j
      using that t(2) r(2) inj by (meson subsetD)
  qed (rule t(1))
  moreover have "un_id (?us ! i) \<notin> set log" if i: "i \<in> set (touched tx (take k tr))" for i
  proof
    assume "un_id (?us ! i) \<in> set log"
    then obtain u where "u \<in> set ?us" "un_id u = un_id (?us ! i)" "un_status u = ''succeeded''"
      using ids(3) assms(3,4) by (auto simp: list_all_iff accounted_def list_ex_iff uncertain_def)
    then obtain j where j: "j < length ?us" "un_id (?us ! j) = un_id (?us ! i)" "un_status (?us ! j) = ''succeeded''"
      by (auto simp: in_set_conv_nth)
    have bi: "i < length ?us \<and> un_status (?us ! i) \<noteq> ''succeeded''" using i t(2) r(2) by blast
    from inj [OF j(1) conjunct1 [OF bi] j(2)] j(3) bi show False by simp
  qed
  ultimately show ?thesis using ids(2) by (auto simp: unit_ids_def)
qed

lemma repaired_simps:
  assumes "at_kind a = ''ddl''"
  shows "ro_units (repaired tell a ob out err) = map (\<lambda>u. if un_status u = ''succeeded'' then u\<lparr>un_selected := False\<rparr> else u) out"
    "ro_kind (repaired tell a ob out err) = ro_kind ob"
  using assms by (simp_all add: repaired_def finished_object_def ran_attempt_def)

lemma execute_life:
  assumes "plain ob" "execute_gate rl dst req version ob = Inr ob1" "at_kind a = ''ddl''"
    "ExecuteRepair env ob1 (ro_units ob1) = (out, err, tr)" "life_ok (ob, log)"
  shows "life_ok (repaired tell a ob1 out err, log @ unit_ids ob1 (touched (one_transaction env ob1) tr))"
proof -
  note g = gate_facts [OF assms(2,1)]
  let ?tx = "one_transaction env ob" and ?ob' = "repaired tell a ob out err"
  have s: "sound_execution ?tx (ro_units ob) out tr" using ExecuteRepair_sound [OF assms(4)] g(1) by simp
  have k: "keeps (ro_units ob) out" using s by (simp add: sound_execution_def)
  have units: "map un_id (ro_units ?ob') = map un_id (ro_units ob)" "ro_kind ?ob' = ro_kind ob"
  proof -
    have "un_id (if un_status u = ''succeeded'' then u\<lparr>un_selected := False\<rparr> else u) = un_id u" for u by simp
    then have "map un_id (ro_units ?ob') = map un_id out"
      unfolding repaired_simps [OF assms(3)] map_map o_def by (rule arg_cong [OF ext])
    then show "map un_id (ro_units ?ob') = map un_id (ro_units ob)" using keeps_ids [OF k] by simp
  qed (simp add: repaired_simps [OF assms(3)])
  have new: "accounted ?ob' (un_id v)" if "v \<in> set out" "un_status v \<in> set [''succeeded'', ''unknown'']" for v
  proof -
    let ?v = "if un_status v = ''succeeded'' then v\<lparr>un_selected := False\<rparr> else v"
    have "?v \<in> set (ro_units ?ob')" unfolding repaired_simps [OF assms(3)] set_map by (rule imageI [OF that(1)])
    moreover have "un_id ?v = un_id v \<and> un_status ?v \<in> set [''succeeded'', ''unknown'']" using that(2) by auto
    ultimately show ?thesis unfolding accounted_def by (intro disjI2 bexI [of _ ?v])
  qed
  have "accounted ?ob' uid" if uid: "uid \<in> set log" for uid
  proof -
    obtain u where u: "u \<in> set (ro_units ob)" "un_id u = uid" "un_status u = ''succeeded''"
      using uid assms(5) g(2,3) by (auto simp: life_ok_def list_all_iff accounted_def list_ex_iff uncertain_def)
    from keeps_succeeded [OF k u(1,3)] obtain v where "v \<in> set out" "un_id v = uid" "un_status v = ''succeeded''" using u(2) by auto
    then show ?thesis using new [of v] by simp
  qed
  moreover have "accounted ?ob' (un_id (ro_units ob ! i))" if "i \<in> set (touched ?tx tr)" for i
  proof -
    have i: "i < length out" "un_status (out ! i) \<in> set [''succeeded'', ''unknown'']"
      using s that by (auto simp: sound_execution_def list_all_iff settled_unit_def)
    moreover have "un_id (out ! i) = un_id (ro_units ob ! i)" using k i(1) by (auto simp: keeps_def unit_key_def)
    ultimately show ?thesis using new [of "out ! i"] by simp
  qed
  ultimately show ?thesis
    using execution_log [OF s assms(5) g(3,2), of "length tr"] units g(1,4) assms(5)
    by (auto simp: life_ok_def list_all_iff unit_ids_def)
qed

lemma crash_life:
  assumes "plain ob" "execute_gate rl dst req version ob = Inr ob1" "at_kind a = ''ddl''"
    "ExecuteRepair env ob1 (ro_units ob1) = (out, err, tr)" "life_ok (ob, log)"
  shows "life_ok (restarted_object finished a (saved_object_at ob1 (take k tr)),
    log @ unit_ids ob1 (touched (one_transaction env ob1) (take k tr)))"
proof -
  note g = gate_facts [OF assms(2,1)]
  let ?saved = "saved_object_at ob (take k tr)"
  have s: "sound_execution (one_transaction env ob) (ro_units ob) out tr" using ExecuteRepair_sound [OF assms(4)] g(1) by simp
  have "list_all (\<lambda>ev. case ev of Saved vs q \<Rightarrow> keeps (ro_units ob) vs | _ \<Rightarrow> True) (take k tr)"
    using s by (auto simp: sound_execution_def list_all_iff dest: in_set_takeD)
  then have ids: "map un_id (ro_units ?saved) = map un_id (ro_units ob)" "ro_kind ?saved = ro_kind ob"
    using keeps_ids [OF saved_keeps] by (auto simp: saved_object_at_def)
  have int: "interrupted a ?saved = ?saved\<lparr>ro_status := ''unknown''\<rparr>"
    using assms(3) by (simp add: interrupted_def data_committed_def)
  obtain ch ob2 where o2: "settle finished (at_job a) (interrupted a ?saved) = (ch, ob2)" by fastforce
  note f = settle_frame [OF o2]
  have "accounted (interrupted a ?saved) uid" for uid by (simp add: int accounted_def)
  then have "accounted ob2 uid" for uid using f(3) ids(2) g(4) by (simp add: int)
  then show ?thesis
    using execution_log [OF s assms(5) g(3,2), of k] f(1,2) ids g(1,4) assms(5) o2
    by (auto simp: life_ok_def list_all_iff restarted_object_def int)
qed

lemma object_step_life: "object_step rl s s' \<Longrightarrow> life_ok s \<Longrightarrow> life_ok s'"
proof (induction rule: object_step.induct)
  case (Draft ob req fresh version schema ob' log)
  then have "plain_draft rl fresh req ob = Inr ob'"
    by (auto simp: draft_object_def plain_def special_def split: if_splits)
  then show ?case using plain_draft_ok Draft by blast
next
  case (Execute ob dst req version ob1 a env out err tr log tell)
  then show ?case by (intro execute_life)
next
  case (Crash ob dst req version ob1 a env out err tr k log finished)
  then show ?case by (intro crash_life)
next
  case (Restart finished job ob log)
  then show ?case by (rule restart_life)
next
  case (DataState ob log st)
  have "accounted (ob\<lparr>ro_data_status := st\<rparr>) = accounted ob" by (simp add: accounted_def fun_eq_iff)
  with DataState show ?case by (simp add: life_ok_def)
next
  case (DataDone ob log m)
  have "accounted (ob\<lparr>ro_column_mapping := m, ro_data_status := ''succeeded''\<rparr>) = accounted ob" by (simp add: accounted_def fun_eq_iff)
  with DataDone show ?case by (cases "ro_kind ob = ''data''") (auto simp: life_ok_def mark_data_def)
qed

text \<open>C7: A statement of an ordinary DDL object takes effect at most once. For an object that is none of the source's
  special ones (native, a MySQL trigger for PostgreSQL or DaMeng, a manually handled trigger, a partition interval) and
  that gets no mode or sequence drafts: whatever the order of drafts, executions, failures and cancellations, crashes of the
  service in the middle of an execution, restarts and data recoveries, none of its units is sent to the target
  again after it may have changed it, neither when the target has committed it nor when nobody can tell. (For
  native objects, DaMeng triggers and manually handled triggers the source replays an unknown outcome on purpose.)\<close>

theorem repair_runs_once:
  assumes "(object_step rl)\<^sup>*\<^sup>* (ob0, []) (ob, log)" "distinct (map un_id (ro_units ob0))"
  shows "distinct log"
proof -
  have "life_ok (ob0, [])" using assms(2) by (simp add: life_ok_def)
  with assms(1) have "life_ok (ob, log)" by (induction rule: rtranclp_induct) (auto intro: object_step_life)
  then show ?thesis by (simp add: life_ok_def)
qed

text \<open>An execution without faults.\<close>

definition demo_env :: run_env where
  "demo_env = \<lparr>en_schema = Inr ''s'', en_family = ''mysql'', en_session = None, en_context = (\<lambda>_. None), en_save = (\<lambda>_. None),
     en_check = (\<lambda>_. None), en_exec = (\<lambda>_ _. None), en_commit = (\<lambda>_. None), en_rollback = (\<lambda>_. None)\<rparr>"

definition demo_rules :: repair_rules where
  "demo_rules = \<lparr>rl_manual = (\<lambda>_. False), rl_native = (\<lambda>_. False), rl_scope = (\<lambda>_ _. None), rl_depends = (\<lambda>_. None),
     rl_manual_draft = (\<lambda>_ _ _. Inl BadMode), rl_sequence = (\<lambda>_ _. Inl BadMode)\<rparr>"

definition demo_plain :: saved_object where
  "demo_plain = demo_object\<lparr>ro_kind := ''table'', ro_schema := ''s'', ro_target_name := ''t'', ro_requires_review := False, ro_status := ''draft'',
     ro_units := [(demo_unit ''u'' ''CREATE TABLE t (a int)'')\<lparr>un_status := ''pending'', un_selected := True\<rparr>]\<rparr>"

theorem repair_runs_once_witness:
  "\<exists>ob. (object_step demo_rules)\<^sup>*\<^sup>* (demo_plain, []) (ob, [''u'']) \<and> distinct [''u'']"
proof -
  let ?a = "demo_attempt ''a'' ''j'' ''x''"
  obtain out err tr where x: "ExecuteRepair demo_env demo_plain (ro_units demo_plain) = (out, err, tr)"
    by (cases "ExecuteRepair demo_env demo_plain (ro_units demo_plain)")
  have "plain demo_plain" by code_simp
  moreover have "execute_gate demo_rules ''mysql'' \<lparr>xr_version = 1, xr_request = ''r'', xr_confirmed = True\<rparr> 1 demo_plain = Inr demo_plain"
    by code_simp
  ultimately have "object_step demo_rules (demo_plain, [])
      (repaired (\<lambda>_. []) ?a demo_plain out err, [] @ unit_ids demo_plain (touched (one_transaction demo_env demo_plain) tr))"
    by (rule object_step.Execute [OF _ _ _ _ x]) (simp_all add: demo_attempt_def running_def)
  moreover have "(case ExecuteRepair demo_env demo_plain (ro_units demo_plain) of (_, _, tr) \<Rightarrow>
      unit_ids demo_plain (touched (one_transaction demo_env demo_plain) tr)) = [''u'']" by code_simp
  ultimately have "object_step demo_rules (demo_plain, []) (repaired (\<lambda>_. []) ?a demo_plain out err, [''u''])" by (simp add: x)
  then have "(object_step demo_rules)\<^sup>*\<^sup>* (demo_plain, []) (repaired (\<lambda>_. []) ?a demo_plain out err, [''u''])" by (rule r_into_rtranclp)
  with repair_runs_once [OF this] show ?thesis by (auto simp: demo_plain_def)
qed

end
