(* ===== verification/CdcPreflight.thy ===== *)
theory CdcPreflight
  imports CdcDamengMetadata CdcPosition
begin

text \<open>
  The checks before an incremental job starts (\<^verbatim>\<open>preflight.go\<close>), the compatibility of a target after the full load and the
  availability of its position (\<^verbatim>\<open>bootstrap.go\<close>). What the servers answer is in the records \<open>source_answers\<close> and
  \<open>target_answers\<close>; an error of a query is an \<open>'e\<close>. Texts of errors and warnings are constructors.
\<close>

section \<open>Answers read from rows\<close>

text \<open>\<open>strconv.ParseUint(s, 10, bits)\<close> with its error ignored: \<open>limit\<close> is the largest value, 0 the value for other text.\<close>

fun uint_scan :: "int \<Rightarrow> int \<Rightarrow> string \<Rightarrow> int" where
  "uint_scan limit acc [] = acc"
| "uint_scan limit acc (c # cs) =
     (if \<not> is_digit c then 0
      else if limit < 10 * acc + int (digit_val c) then limit
      else uint_scan limit (10 * acc + int (digit_val c)) cs)"

definition uint_or_limit :: "nat \<Rightarrow> string \<Rightarrow> int" where
  "uint_or_limit bits s = uint_scan (2 ^ bits - 1) 0 s"

text \<open>A row is the list of its columns with their values.\<close>

fun log_columns :: "(string \<times> string) list \<Rightarrow> string \<times> int \<Rightarrow> string \<times> int" where
  "log_columns [] p = p"
| "log_columns ((c, v) # cs) (name, bytes) =
     log_columns cs
       (if to_lower c = ''log_name'' then (v, bytes)
        else if to_lower c = ''file_size'' then (name, uint_or_limit 64 v)
        else (name, bytes))"

text \<open>The bytes of a binary log the server still has.\<close>

fun findBinlogFile :: "string \<Rightarrow> (string \<times> string) list list \<Rightarrow> int option" where
  "findBinlogFile wanted [] = None"
| "findBinlogFile wanted (r # rs) =
     (let (name, bytes) = log_columns r ([], 0) in if name = wanted then Some bytes else findBinlogFile wanted rs)"

datatype 'e position_error = StatusUnread 'e | StatusEmpty | StatusUnusable

fun status_columns :: "(string \<times> string) list \<Rightarrow> Position \<Rightarrow> Position" where
  "status_columns [] p = p"
| "status_columns ((c, v) # cs) p =
     status_columns cs
       (if to_lower c = ''file'' then p\<lparr>File := v\<rparr>
        else if to_lower c = ''position'' then p\<lparr>Pos := of_int (uint_or_limit 32 v)\<rparr>
        else if to_lower c = ''executed_gtid_set'' then p\<lparr>GTID := trim_space v\<rparr>
        else p)"

text \<open>The two statements that show the position: the second is tried when the first fails.\<close>

definition CurrentPosition ::
  "'e + (string \<times> string) list list \<Rightarrow> 'e + (string \<times> string) list list \<Rightarrow> 'e position_error + Position" where
  "CurrentPosition master binlog =
     (case (case master of Inl e \<Rightarrow> binlog | Inr rows \<Rightarrow> Inr rows) of
        Inl e \<Rightarrow> Inl (StatusUnread e)
      | Inr [] \<Rightarrow> Inl StatusEmpty
      | Inr (r # rs) \<Rightarrow>
          (let p = status_columns r zero_position in
           if File p = [] \<or> Pos p < 4 then Inl StatusUnusable else Inr p))"

definition parseNonNegativeInt64 :: "string \<Rightarrow> int option" where
  "parseNonNegativeInt64 v =
     (case parse_int 64 (trim_space v) of None \<Rightarrow> None | Some n \<Rightarrow> if n < 0 then None else Some n)"

definition retention_of_days :: "string \<Rightarrow> int option" where
  "retention_of_days v =
     (case parseNonNegativeInt64 v of
        None \<Rightarrow> None
      | Some days \<Rightarrow>
          if days > quo i64_max (24 * 60 * 60) then None
          else if 0 < days then Some (i64 (i64 (i64 (days * 24) * 60) * 60))
          else Some 0)"

text \<open>The retention in seconds, 0 when nothing is purged; \<open>None\<close> when it cannot be told. \<open>lookup\<close> reads a variable; the
  arithmetic is that of \<open>int64\<close>.\<close>

definition readBinlogRetention :: "(string \<Rightarrow> 'e + string) \<Rightarrow> int option" where
  "readBinlogRetention lookup =
     (let auto_off = (case lookup ''binlog_expire_logs_auto_purge'' of
                        Inl e \<Rightarrow> False | Inr v \<Rightarrow> to_upper (trim_space v) \<in> set [''OFF'', ''0'']);
          seconds = (case lookup ''binlog_expire_logs_seconds'' of Inl e \<Rightarrow> None | Inr v \<Rightarrow> parseNonNegativeInt64 v)
      in if auto_off then Some 0
         else if (case seconds of None \<Rightarrow> False | Some n \<Rightarrow> 0 < n) then seconds
         else
           (case lookup ''expire_logs_days'' of
              Inl e \<Rightarrow> None
            | Inr v \<Rightarrow> retention_of_days v))"

text \<open>Whether a warning about a short retention is due.\<close>

definition retentionDurationWarning :: "int option \<Rightarrow> bool" where
  "retentionDurationWarning s = (case s of None \<Rightarrow> False | Some n \<Rightarrow> 0 < n \<and> n < 72 * 3600)"

section \<open>The start position\<close>

datatype 'e start_error =
    GtidMalformed
  | GtidAhead
  | GtidPurged
  | GtidOff
  | NoStart
  | VariableUnread 'e
  | LogsUnread 'e
  | LogMissing string
  | BeyondFile "32 word" int

definition contains_text :: "'g gtid_lib \<Rightarrow> string \<Rightarrow> 'g \<Rightarrow> bool" where
  "contains_text lib text g = (case ParseGTIDSet lib text of None \<Rightarrow> False | Some h \<Rightarrow> Contain lib h g)"

definition contained_text :: "'g gtid_lib \<Rightarrow> string \<Rightarrow> 'g \<Rightarrow> bool" where
  "contained_text lib text g = (case ParseGTIDSet lib text of None \<Rightarrow> False | Some h \<Rightarrow> Contain lib g h)"

text \<open>\<open>lookup\<close> reads a global variable of the source, \<open>logs\<close> are the binary logs it has.\<close>

definition ValidatePositionAvailable ::
  "'g gtid_lib \<Rightarrow> (string \<Rightarrow> 'e + string) \<Rightarrow> 'e + (string \<times> string) list list \<Rightarrow> Position \<Rightarrow> 'e start_error + unit" where
  "ValidatePositionAvailable lib lookup logs p =
     (if GTID p \<noteq> [] then
        (case ParseGTIDSet lib (GTID p) of
           None \<Rightarrow> Inl GtidMalformed
         | Some start \<Rightarrow>
             (case lookup ''gtid_executed'' of
                Inl e \<Rightarrow> Inl (VariableUnread e)
              | Inr executed \<Rightarrow>
                  if \<not> contains_text lib executed start then Inl GtidAhead
                  else
                    (case lookup ''gtid_purged'' of
                       Inl e \<Rightarrow> Inl (VariableUnread e)
                     | Inr purged \<Rightarrow>
                         if trim_space purged \<noteq> [] \<and> \<not> contained_text lib purged start then Inl GtidPurged else Inr ())))
      else if File p = [] \<or> Pos p < 4 then Inl NoStart
      else
        (case logs of
           Inl e \<Rightarrow> Inl (LogsUnread e)
         | Inr rows \<Rightarrow>
             (case findBinlogFile (File p) rows of
                None \<Rightarrow> Inl (LogMissing (File p))
              | Some bytes \<Rightarrow> if bytes < uint (Pos p) then Inl (BeyondFile (Pos p) bytes) else Inr ())))"

text \<open>The same question in the preflight, which goes on to collect every problem: \<open>executed\<close> is the text of the current
  position.\<close>

definition start_problems ::
  "'g gtid_lib \<Rightarrow> (string \<Rightarrow> 'e + string) \<Rightarrow> 'e + (string \<times> string) list list \<Rightarrow> string \<Rightarrow> string \<Rightarrow> Position \<Rightarrow> 'e start_error list" where
  "start_problems lib lookup logs gtid_mode executed p =
     (if GTID p = [] \<and> (File p = [] \<or> Pos p < 4) then [NoStart] else []) @
     (if GTID p \<noteq> [] then
        (case ParseGTIDSet lib (GTID p) of
           None \<Rightarrow> [GtidMalformed]
         | Some start \<Rightarrow>
             if \<not> equal_fold gtid_mode ''ON'' then [GtidOff]
             else
               (if contains_text lib executed start then [] else [GtidAhead]) @
               (case lookup ''gtid_purged'' of
                  Inl e \<Rightarrow> [VariableUnread e]
                | Inr purged \<Rightarrow> if purged \<noteq> [] \<and> \<not> contained_text lib purged start then [GtidPurged] else []))
      else if File p \<noteq> [] then
        (case logs of
           Inl e \<Rightarrow> [LogsUnread e]
         | Inr rows \<Rightarrow>
             (case findBinlogFile (File p) rows of
                None \<Rightarrow> [LogMissing (File p)]
              | Some bytes \<Rightarrow> if bytes < uint (Pos p) then [BeyondFile (Pos p) bytes] else []))
      else [])"

section \<open>The shape of the target\<close>

datatype shape_error =
    TableMissing
  | ColumnMissing string
  | RequiredColumn string
  | KeyMissing

definition missing_columns :: "Config \<Rightarrow> TableInfo \<Rightarrow> target_table \<Rightarrow> string list" where
  "missing_columns cfg t tt = filter (\<lambda>c. c \<notin> tt_column_names tt) (map (object_name cfg) (Columns t))"

definition required_columns :: "Config \<Rightarrow> TableInfo \<Rightarrow> target_table \<Rightarrow> string list" where
  "required_columns cfg t tt =
     map tc_name (filter (\<lambda>c. tc_name c \<notin> object_name cfg ` set (Columns t) \<and> tc_nullable c = ''NO'' \<and>
       tc_default c = None \<and> tc_identity c \<noteq> ''YES'') (tt_columns tt))"

text \<open>The indexes of a loaded primary key are those of columns of the table.\<close>

definition key_matched :: "Config \<Rightarrow> TableInfo \<Rightarrow> target_table \<Rightarrow> bool" where
  "key_matched cfg t tt \<longleftrightarrow>
     PrimaryKey t = [] \<or> list_ex (sameColumnSet (map (object_name cfg) (columnNamesAt t (PrimaryKey t)))) (tt_unique tt)"

text \<open>The first problem of a table after the full load; a Go map with one entry per table name, the last one winning.\<close>

definition table_failure :: "Config \<Rightarrow> target_table list \<Rightarrow> TableInfo \<Rightarrow> shape_error option" where
  "table_failure cfg meta t =
     (case find_target (object_name cfg (Name t)) meta of
        None \<Rightarrow> Some TableMissing
      | Some tt \<Rightarrow>
          (case missing_columns cfg t tt of
             c # cs \<Rightarrow> Some (ColumnMissing c)
           | [] \<Rightarrow>
               (case required_columns cfg t tt of
                  c # cs \<Rightarrow> Some (RequiredColumn c)
                | [] \<Rightarrow> if key_matched cfg t tt then None else Some KeyMissing)))"

fun validateTargetTableCompatibilityFromMetadata ::
  "Config \<Rightarrow> target_table list \<Rightarrow> TableInfo list \<Rightarrow> string \<rightharpoonup> shape_error" where
  "validateTargetTableCompatibilityFromMetadata cfg meta [] = Map.empty"
| "validateTargetTableCompatibilityFromMetadata cfg meta (t # ts) =
     (let rest = validateTargetTableCompatibilityFromMetadata cfg meta ts
      in (case table_failure cfg meta t of None \<Rightarrow> Map.empty | Some e \<Rightarrow> [Name t \<mapsto> e]) ++ rest)"

section \<open>The preflight\<close>

record 'e source_answers =
  sa_open :: "'e option"
  sa_config :: "'e + string \<times> string \<times> string \<times> string"
  sa_variable :: "string \<Rightarrow> 'e + string"
  sa_master :: "'e + (string \<times> string) list list"
  sa_binlog :: "'e + (string \<times> string) list list"
  sa_grants :: "'e + string"
  sa_logs :: "'e + (string \<times> string) list list"
  sa_tables :: "'e + TableInfo list"

record 'e target_answers =
  ta_open :: "'e option"
  ta_ping :: "'e option"
  ta_schema :: "'e + bool"
  ta_metadata :: "'e + target_table list"
  ta_triggers :: "TableInfo list \<Rightarrow> 'e option"

datatype 'e preflight_error =
    SourceDown 'e
  | ConfigUnread 'e
  | BinlogOff
  | FormatNotRow
  | ImageNotFull
  | GtidUnstable
  | PositionUnread "'e position_error"
  | NoReplicationGrant
  | NoFlushGrant
  | TablesUnread 'e
  | ReservedTable string
  | EngineRefused string string
  | ExclusionsRefused
  | StartProblem "'e start_error"
  | NameProblem name_issue
  | TargetDown 'e
  | SchemaUnread 'e
  | SchemaMissing
  | MetadataUnread 'e
  | ExclusionProblem exclusion_error
  | TargetMissing TargetTableIssue
  | ShapeProblem string shape_error
  | TriggersActive 'e

datatype preflight_warning = RetentionUnread | RetentionShort | GrantsUnread | TablesExcluded nat | FullRowTables "string list"

record 'e preflight_result =
  pf_position :: Position
  pf_retention :: "int option"
  pf_tables :: "TableInfo list"
  pf_no_key :: "string list"
  pf_missing :: "TargetTableIssue list"
  pf_excluded :: "TargetTableIssue list"
  pf_errors :: "'e preflight_error list"
  pf_warnings :: "preflight_warning list"

definition empty_result :: "'e preflight_error list \<Rightarrow> 'e preflight_result" where
  "empty_result errs = \<lparr>pf_position = zero_position, pf_retention = None, pf_tables = [], pf_no_key = [], pf_missing = [],
     pf_excluded = [], pf_errors = errs, pf_warnings = []\<rparr>"

definition pf_ok :: "'e preflight_result \<Rightarrow> bool" where
  "pf_ok r \<longleftrightarrow> pf_errors r = []"

text \<open>The four settings of the binary log.\<close>

definition config_errors :: "string \<times> string \<times> string \<times> string \<Rightarrow> 'e preflight_error list" where
  "config_errors v =
     (case v of (log_bin, format, row_image, gtid) \<Rightarrow>
       (if equal_fold log_bin ''ON'' \<or> log_bin = ''1'' then [] else [BinlogOff]) @
       (if equal_fold format ''ROW'' then [] else [FormatNotRow]) @
       (if equal_fold row_image ''FULL'' then [] else [ImageNotFull]) @
       (if equal_fold gtid ''ON'' \<or> equal_fold gtid ''OFF'' then [] else [GtidUnstable]))"

definition grant_errors :: "bool \<Rightarrow> string \<Rightarrow> 'e preflight_error list" where
  "grant_errors incremental_only grants =
     (let up = to_upper grants; everything = str_contains up ''ALL PRIVILEGES'' in
       (if everything \<or> str_contains up ''REPLICATION SLAVE'' \<or> str_contains up ''REPLICATION REPLICA'' then [] else [NoReplicationGrant]) @
       (if incremental_only \<or> everything \<or> str_contains up ''RELOAD'' \<or> str_contains up ''FLUSH_TABLES'' then [] else [NoFlushGrant]))"

definition table_errors :: "Config \<Rightarrow> bool \<Rightarrow> TableInfo \<Rightarrow> 'e preflight_error list" where
  "table_errors cfg incremental_only t =
     (if TargetDBType cfg \<noteq> ''dameng'' \<and> (if LowerCaseNames cfg then to_lower (Name t) else Name t) = CheckpointTableName
      then [ReservedTable (Name t)] else []) @
     (if \<not> incremental_only \<and> \<not> equal_fold (Engine t) ''InnoDB'' then [EngineRefused (Name t) (Engine t)] else [])"

text \<open>What the source side says: the errors, the warnings, the retention, the position and the tables.\<close>

definition source_side ::
  "'g gtid_lib \<Rightarrow> Config \<Rightarrow> bool \<Rightarrow> string list \<Rightarrow> string \<times> string \<times> string \<times> string \<Rightarrow> 'e source_answers
     \<Rightarrow> 'e preflight_error list \<times> preflight_warning list \<times> int option \<times> Position \<times> TableInfo list" where
  "source_side lib cfg incremental_only requested config sa =
     (let retention = readBinlogRetention (sa_variable sa);
          position = CurrentPosition (sa_master sa) (sa_binlog sa);
          current = (case position of Inl e \<Rightarrow> zero_position | Inr p \<Rightarrow> p);
          tables = (case sa_tables sa of Inl e \<Rightarrow> [] | Inr ts \<Rightarrow> ts)
      in (config_errors config @
          (case position of Inl e \<Rightarrow> [PositionUnread e] | Inr p \<Rightarrow> []) @
          (case sa_grants sa of Inl e \<Rightarrow> [] | Inr g \<Rightarrow> grant_errors incremental_only g) @
          (case sa_tables sa of Inl e \<Rightarrow> [TablesUnread e] | Inr ts \<Rightarrow> concat (map (table_errors cfg incremental_only) ts)) @
          (if \<not> incremental_only \<and> requested \<noteq> [] then [ExclusionsRefused] else []) @
          (if incremental_only
           then map StartProblem (start_problems lib (sa_variable sa) (sa_logs sa) (snd (snd (snd config))) (GTID current) (Start cfg))
           else []) @
          (if TargetDBType cfg = ''dameng'' \<and> \<not> incremental_only then map NameProblem (validateDamengNameCollisions cfg tables) else []),
          (if retention = None then [RetentionUnread] else if retentionDurationWarning retention then [RetentionShort] else []) @
          (case sa_grants sa of Inl e \<Rightarrow> [GrantsUnread] | Inr g \<Rightarrow> []),
          retention, current, tables))"

definition shape_errors :: "Config \<Rightarrow> target_table list \<Rightarrow> TableInfo \<Rightarrow> 'e preflight_error list" where
  "shape_errors cfg meta t =
     (case find_target (object_name cfg (Name t)) meta of
        None \<Rightarrow> []
      | Some tt \<Rightarrow>
          map (ShapeProblem (object_name cfg (Name t)))
            (map ColumnMissing (missing_columns cfg t tt) @ map RequiredColumn (required_columns cfg t tt) @
             (if key_matched cfg t tt then [] else [KeyMissing])))"

definition missing_targets :: "Config \<Rightarrow> target_table list \<Rightarrow> TableInfo list \<Rightarrow> string \<rightharpoonup> TargetTableIssue" where
  "missing_targets cfg meta tables =
     map_of (map (\<lambda>t. (Name t, \<lparr>ti_source = Name t, ti_schema = TargetSchema cfg, ti_target = object_name cfg (Name t)\<rparr>))
       (filter (\<lambda>t. find_target (object_name cfg (Name t)) meta = None) tables))"

text \<open>The target's metadata or why there is none.\<close>

definition target_meta :: "'e target_answers \<Rightarrow> 'e preflight_error + target_table list" where
  "target_meta ta =
     (case ta_open ta of
        Some e \<Rightarrow> Inl (TargetDown e)
      | None \<Rightarrow>
          (case ta_ping ta of
             Some e \<Rightarrow> Inl (TargetDown e)
           | None \<Rightarrow>
               (case ta_schema ta of
                  Inl e \<Rightarrow> Inl (SchemaUnread e)
                | Inr False \<Rightarrow> Inl SchemaMissing
                | Inr True \<Rightarrow> (case ta_metadata ta of Inl e \<Rightarrow> Inl (MetadataUnread e) | Inr meta \<Rightarrow> Inr meta))))"

definition full_row_names :: "TableInfo list \<Rightarrow> string list" where
  "full_row_names ts = map Name (filter (\<lambda>t. LocatorStrategy t = LocatorFullRow) ts)"

definition no_key_names :: "TableInfo list \<Rightarrow> string list" where
  "no_key_names ts = map Name (filter (\<lambda>t. PrimaryKey t = []) ts)"

text \<open>The scope after the confirmed exclusions: errors, the tables that stay, the missing and the excluded ones.\<close>

definition scope_side ::
  "Config \<Rightarrow> bool \<Rightarrow> string list \<Rightarrow> target_table list \<Rightarrow> TableInfo list
     \<Rightarrow> 'e preflight_error list \<times> TableInfo list \<times> TargetTableIssue list \<times> TargetTableIssue list" where
  "scope_side cfg incremental_only requested meta tables =
     (if \<not> incremental_only then ([], tables, [], [])
      else
        (let (effective, unresolved, accepted, errs) = applyMissingTargetExclusions tables (missing_targets cfg meta tables) requested
         in (map ExclusionProblem errs @ map TargetMissing unresolved @
             (if TargetDBType cfg = ''dameng'' then map NameProblem (validateDamengNames cfg effective) else []) @
             concat (map (shape_errors cfg meta) effective), effective, unresolved, accepted)))"

definition Preflight ::
  "'g gtid_lib \<Rightarrow> Config \<Rightarrow> bool \<Rightarrow> string list \<Rightarrow> 'e source_answers \<Rightarrow> 'e target_answers \<Rightarrow> 'e preflight_result" where
  "Preflight lib cfg incremental_only requested sa ta =
     (case sa_open sa of
        Some e \<Rightarrow> empty_result [SourceDown e]
      | None \<Rightarrow>
          (case sa_config sa of
             Inl e \<Rightarrow> empty_result [ConfigUnread e]
           | Inr config \<Rightarrow>
               (let (errs, warns, retention, current, tables) = source_side lib cfg incremental_only requested config sa
                in case target_meta ta of
                     Inl e \<Rightarrow>
                       (let kept = (if incremental_only then [] else tables)
                        in \<lparr>pf_position = current, pf_retention = retention, pf_tables = kept, pf_no_key = no_key_names kept,
                            pf_missing = [], pf_excluded = [], pf_errors = errs @ [e], pf_warnings = warns\<rparr>)
                   | Inr meta \<Rightarrow>
                       (let (errs2, scope, unresolved, accepted) = scope_side cfg incremental_only requested meta tables;
                            resolved = (if scope = [] then [] else resolveLocatorStrategiesFromMetadata cfg scope meta)
                        in \<lparr>pf_position = current, pf_retention = retention, pf_tables = resolved, pf_no_key = no_key_names resolved,
                            pf_missing = unresolved, pf_excluded = accepted,
                            pf_errors = errs @ errs2 @
                              (if scope = [] then [] else case ta_triggers ta scope of None \<Rightarrow> [] | Some e \<Rightarrow> [TriggersActive e]),
                            pf_warnings = warns @ (if accepted = [] then [] else [TablesExcluded (length accepted)]) @
                              (if full_row_names resolved = [] then [] else [FullRowTables (full_row_names resolved)])\<rparr>))))"

section \<open>What a table and a position must satisfy\<close>

definition fits_target :: "Config \<Rightarrow> TableInfo \<Rightarrow> target_table \<Rightarrow> bool" where
  "fits_target cfg t tt \<longleftrightarrow>
     (let mapped = object_name cfg ` set (Columns t); key = map (object_name cfg) (columnNamesAt t (PrimaryKey t)) in
      tt_name tt = object_name cfg (Name t) \<and> mapped \<subseteq> tt_column_names tt \<and>
      (\<forall>c\<in>set (tt_columns tt). tc_name c \<in> mapped \<or> tc_nullable c \<noteq> ''NO'' \<or> tc_default c \<noteq> None \<or> tc_identity c = ''YES'') \<and>
      (PrimaryKey t = [] \<or> (\<exists>u\<in>set (tt_unique tt). set u \<subseteq> set key \<and> length u = length key)))"

text \<open>The log holds everything after \<open>p\<close>, and \<open>p\<close> is in the log.\<close>

definition position_in_log :: "'g gtid_lib \<Rightarrow> string \<Rightarrow> string \<Rightarrow> (string \<times> string) list list \<Rightarrow> Position \<Rightarrow> bool" where
  "position_in_log lib executed purged logs p \<longleftrightarrow>
     (if GTID p \<noteq> [] then
        \<exists>g e. ParseGTIDSet lib (GTID p) = Some g \<and> ParseGTIDSet lib executed = Some e \<and> Contain lib e g \<and>
          (trim_space purged = [] \<or> (\<exists>h. ParseGTIDSet lib purged = Some h \<and> Contain lib g h))
      else 4 \<le> Pos p \<and> (\<exists>bytes. findBinlogFile (File p) logs = Some bytes \<and> uint (Pos p) \<le> bytes))"

lemma trim_space_Nil [simp]: "trim_space [] = []"
  by (simp add: trim_space_def)

lemma find_target_Some: "find_target n meta = Some tt \<Longrightarrow> tt \<in> set meta \<and> tt_name tt = n"
  unfolding find_target_def by (drule find_Some_mem) simp

lemma shape_fits:
  assumes "missing_columns cfg t tt = []" "required_columns cfg t tt = []" "key_matched cfg t tt"
    "tt_name tt = object_name cfg (Name t)"
  shows "fits_target cfg t tt"
  using assms
  by (auto simp: fits_target_def Let_def missing_columns_def required_columns_def key_matched_def filter_empty_conv list_ex_iff
      sameColumnSet_def list_all_iff)

lemma table_failure_None: "table_failure cfg meta t = None \<Longrightarrow> \<exists>tt\<in>set meta. fits_target cfg t tt"
  by (auto simp: table_failure_def split: option.splits list.splits if_splits dest!: find_target_Some intro!: shape_fits bexI)

lemma shape_errors_Nil:
  "shape_errors cfg meta t = [] \<Longrightarrow> find_target (object_name cfg (Name t)) meta \<noteq> None \<Longrightarrow> \<exists>tt\<in>set meta. fits_target cfg t tt"
  by (auto simp: shape_errors_def split: option.splits if_splits dest!: find_target_Some intro!: shape_fits bexI)

lemma start_problems_Nil:
  assumes "start_problems lib lookup logs mode executed p = []"
  shows "\<exists>purged rows. position_in_log lib executed purged rows p \<and>
    (if GTID p \<noteq> [] then lookup ''gtid_purged'' = Inr purged else logs = Inr rows)"
proof (cases "GTID p = []")
  case True
  then obtain rows bytes where "logs = Inr rows" "findBinlogFile (File p) rows = Some bytes" "uint (Pos p) \<le> bytes" "4 \<le> Pos p"
    using assms by (auto simp: start_problems_def split: if_splits sum.splits option.splits)
  then show ?thesis using True by (auto simp: position_in_log_def)
next
  case False
  then obtain g where g: "ParseGTIDSet lib (GTID p) = Some g" "contains_text lib executed g"
    using assms by (auto simp: start_problems_def split: if_splits option.splits)
  moreover obtain purged where "lookup ''gtid_purged'' = Inr purged" "purged = [] \<or> contained_text lib purged g"
    using assms False g by (auto simp: start_problems_def split: if_splits sum.splits)
  ultimately show ?thesis using False
    by (auto simp: position_in_log_def contains_text_def contained_text_def split: option.splits)
qed

section \<open>Properties\<close>

text \<open>The position of a full load is confirmed only when the source can still deliver everything after it: the GTID set lies
  between what was purged and what was executed, or the binary log file is there and long enough.\<close>

theorem available_position_in_log:
  assumes "ValidatePositionAvailable lib lookup logs p = Inr ()"
  shows "\<exists>executed purged rows. position_in_log lib executed purged rows p \<and>
    (if GTID p \<noteq> [] then lookup ''gtid_executed'' = Inr executed \<and> lookup ''gtid_purged'' = Inr purged else logs = Inr rows)"
proof (cases "GTID p = []")
  case True
  then obtain rows bytes where "logs = Inr rows" "findBinlogFile (File p) rows = Some bytes" "uint (Pos p) \<le> bytes" "4 \<le> Pos p"
    using assms by (auto simp: ValidatePositionAvailable_def split: if_splits sum.splits option.splits)
  then show ?thesis using True by (auto simp: position_in_log_def)
next
  case False
  then obtain g executed where g: "ParseGTIDSet lib (GTID p) = Some g" "lookup ''gtid_executed'' = Inr executed" "contains_text lib executed g"
    using assms by (auto simp: ValidatePositionAvailable_def split: if_splits option.splits sum.splits)
  moreover obtain purged where "lookup ''gtid_purged'' = Inr purged" "trim_space purged = [] \<or> contained_text lib purged g"
    using assms False g by (auto simp: ValidatePositionAvailable_def split: if_splits sum.splits)
  ultimately show ?thesis using False
    by (auto simp: position_in_log_def contains_text_def contained_text_def split: option.splits)
qed

lemma retention_of_days_exact:
  assumes "retention_of_days v = Some n"
  shows "0 \<le> n \<and> n \<le> i64_max \<and> (\<exists>d. parse_int 64 (trim_space v) = Some d \<and> n = d * 86400)"
proof -
  have big: "quo i64_max 86400 = 106751991167300" by (simp add: quo_def i64_max_def)
  obtain d where d: "parse_int 64 (trim_space v) = Some d" "0 \<le> d" "d \<le> 106751991167300"
      "n = (if 0 < d then i64 (i64 (i64 (d * 24) * 60) * 60) else 0)"
    using assms by (auto simp: retention_of_days_def parseNonNegativeInt64_def big split: option.splits if_splits)
  then have "n = d * 86400" by (simp add: i64_id in_i64_def i64_min_def i64_max_def)
  then show ?thesis using d by (simp add: i64_max_def)
qed

text \<open>The retention of the binary log is read without overflow: what is reported is exactly the seconds the server names, or its
  days as seconds, or zero for a log that is never purged.\<close>

theorem retention_exact:
  assumes "readBinlogRetention lookup = Some n"
  shows "0 \<le> n \<and> n \<le> i64_max \<and>
    (n = 0 \<or>
     (\<exists>v. lookup ''binlog_expire_logs_seconds'' = Inr v \<and> parse_int 64 (trim_space v) = Some n) \<or>
     (\<exists>v d. lookup ''expire_logs_days'' = Inr v \<and> parse_int 64 (trim_space v) = Some d \<and> n = d * 86400))"
proof -
  have days: "0 \<le> n \<and> n \<le> i64_max \<and> (\<exists>d. parse_int 64 (trim_space v) = Some d \<and> n = d * 86400)"
    if "retention_of_days v = Some n" for v
    using that by (rule retention_of_days_exact)
  have "parse_int 64 s = Some m \<Longrightarrow> m \<le> i64_max" for s m
    by (auto simp: parse_int_def i64_max_def split: option.splits if_splits)
  then have seconds: "0 \<le> n \<and> n \<le> i64_max \<and> parse_int 64 (trim_space v) = Some n" if "parseNonNegativeInt64 v = Some n" for v
    using that by (auto simp: parseNonNegativeInt64_def split: option.splits if_splits)
  have "0 \<le> i64_max" by (simp add: i64_max_def)
  then show ?thesis using assms
    by (auto simp: readBinlogRetention_def Let_def split: if_splits sum.splits option.splits dest!: days seconds)
qed

lemma missing_targets_iff:
  "missing_targets cfg meta tables n = Some i \<longleftrightarrow>
     n \<in> Name ` set tables \<and> find_target (object_name cfg n) meta = None \<and>
     i = \<lparr>ti_source = n, ti_schema = TargetSchema cfg, ti_target = object_name cfg n\<rparr>"
  by (induction tables) (auto simp: missing_targets_def)

lemma resolve_locator_keeps [simp]:
  "Name (resolve_locator cfg meta t) = Name t" "Columns (resolve_locator cfg meta t) = Columns t"
  "PrimaryKey (resolve_locator cfg meta t) = PrimaryKey t"
  by (auto simp: resolve_locator_def Let_def split: option.splits)

lemma fits_resolved [simp]: "fits_target cfg (resolve_locator cfg meta t) tt = fits_target cfg t tt"
  by (simp add: fits_target_def columnNamesAt_def)

lemma scope_side_ok:
  assumes "scope_side cfg True requested meta tables = ([] :: 'e preflight_error list, scope, unresolved, accepted)"
  shows "scope \<noteq> [] \<and> scope = filter (\<lambda>t. Name t \<notin> set requested) tables \<and> (\<forall>t\<in>set scope. \<exists>tt\<in>set meta. fits_target cfg t tt)"
proof -
  let ?m = "missing_targets cfg meta tables"
  obtain errs where a: "applyMissingTargetExclusions tables ?m requested = (scope, unresolved, accepted, errs)"
      and "errs = []" "unresolved = []" and shape: "\<forall>t\<in>set scope. shape_errors cfg meta t = ([] :: 'e preflight_error list)"
    using assms by (auto simp: scope_side_def split: prod.splits)
  with exclusions_accounted [OF a] have f: "scope = filter (\<lambda>t. ?m (Name t) = None) tables" "scope \<noteq> []"
      "\<forall>n\<in>set requested. ?m n \<noteq> None" "map Some accepted = map ?m requested"
      "\<forall>t\<in>set tables. \<forall>i. ?m (Name t) = Some i \<longrightarrow> i \<in> set accepted"
    by auto
  have "?m (Name t) = None \<longleftrightarrow> Name t \<notin> set requested" if t: "t \<in> set tables" for t
  proof
    assume "Name t \<notin> set requested"
    show "?m (Name t) = None"
    proof (rule ccontr)
      assume "?m (Name t) \<noteq> None"
      then obtain i where i: "?m (Name t) = Some i" by blast
      with f(5) t have "Some i \<in> set (map Some accepted)" by auto
      then obtain n where "n \<in> set requested" "?m n = Some i" using f(4) by auto
      then show False using i \<open>Name t \<notin> set requested\<close> by (simp add: missing_targets_iff)
    qed
  qed (use f(3) in auto)
  then have "scope = filter (\<lambda>t. Name t \<notin> set requested) tables" using f(1) by (simp cong: filter_cong)
  moreover have "\<exists>tt\<in>set meta. fits_target cfg t tt" if t: "t \<in> set scope" for t
  proof (rule shape_errors_Nil)
    show "shape_errors cfg meta t = ([] :: 'e preflight_error list)" using shape t by blast
    have "t \<in> set tables" "?m (Name t) = None" using t f(1) by auto
    moreover have "?m (Name t) = Some \<lparr>ti_source = Name t, ti_schema = TargetSchema cfg, ti_target = object_name cfg (Name t)\<rparr>"
      if "find_target (object_name cfg (Name t)) meta = None"
      using that \<open>t \<in> set tables\<close> unfolding missing_targets_iff by simp
    ultimately show "find_target (object_name cfg (Name t)) meta \<noteq> None" by auto
  qed
  ultimately show ?thesis using f(2) by blast
qed

text \<open>C13: When the preflight of a job that starts from a position passes, the log still holds everything after the position, the
  tables are exactly the selected ones without those whose exclusion was confirmed, at least one is left, and every
  one of them has a target with all its columns, no further required column and a unique key over its primary key.\<close>

theorem preflight_incremental_sound:
  fixes sa :: "'e source_answers"
  assumes "r = Preflight lib cfg True requested sa ta" "pf_ok r" "sa_tables sa = Inr tables" "ta_metadata ta = Inr meta"
  shows "(\<exists>purged rows. position_in_log lib (GTID (pf_position r)) purged rows (Start cfg) \<and>
      (if GTID (Start cfg) \<noteq> [] then sa_variable sa ''gtid_purged'' = Inr purged else sa_logs sa = Inr rows)) \<and>
    map Name (pf_tables r) = filter (\<lambda>n. n \<notin> set requested) (map Name tables) \<and> pf_tables r \<noteq> [] \<and>
    (\<forall>t\<in>set (pf_tables r). \<exists>tt\<in>set meta. fits_target cfg t tt)"
proof -
  obtain config where c: "sa_open sa = None" "sa_config sa = Inr config"
    using assms(1,2) by (auto simp: Preflight_def empty_result_def pf_ok_def split: option.splits sum.splits)
  obtain errs warns ret cur ts where s: "source_side lib cfg True requested config sa = (errs, warns, ret, cur, ts)"
    by (cases "source_side lib cfg True requested config sa") auto
  obtain m where m: "target_meta ta = Inr m"
    using assms(1,2) c s by (cases "target_meta ta") (auto simp: Preflight_def pf_ok_def Let_def)
  then have "m = meta" using assms(4) by (auto simp: target_meta_def split: option.splits sum.splits bool.splits)
  obtain errs2 scope un ac where sc: "scope_side cfg True requested meta tables = (errs2 :: 'e preflight_error list, scope, un, ac)"
    by (cases "scope_side cfg True requested meta tables :: 'e preflight_error list \<times> _") auto
  have ts: "ts = tables" and problems: "errs = [] \<Longrightarrow> start_problems lib (sa_variable sa) (sa_logs sa) (snd (snd (snd config))) (GTID cur) (Start cfg) = []"
    using s assms(3) by (auto simp: source_side_def Let_def)
  have r: "pf_errors r = errs @ errs2 @ (if scope = [] then [] else case ta_triggers ta scope of None \<Rightarrow> [] | Some e \<Rightarrow> [TriggersActive e])"
      "pf_tables r = (if scope = [] then [] else resolveLocatorStrategiesFromMetadata cfg scope meta)" "pf_position r = cur"
    unfolding assms(1) using c s m sc \<open>m = meta\<close> ts by (simp_all add: Preflight_def Let_def)
  then have "errs = []" "errs2 = []" using assms(2) by (auto simp: pf_ok_def)
  note sc = scope_side_ok [OF sc [unfolded \<open>errs2 = []\<close>]]
  have "map Name (pf_tables r) = filter (\<lambda>n. n \<notin> set requested) (map Name tables)"
    using sc r(2) by (simp add: resolveLocatorStrategiesFromMetadata_def filter_map comp_def)
  then show ?thesis using sc r(2,3) start_problems_Nil [OF problems [OF \<open>errs = []\<close>]]
    by (auto simp: resolveLocatorStrategiesFromMetadata_def)
qed
section \<open>A preflight that passes\<close>

definition demo_start :: Config where
  "demo_start = \<lparr>JobID = ''j'', SourceDatabase = ''d'', TargetDBType = ''postgres'', TargetSchema = ''s'', LowerCaseNames = True,
     Start = \<lparr>File = ''b.1'', Pos = 7, GTID = []\<rparr>, cfg_locator_version = 1, cfg_locators = [], cfg_exclusions = [], cfg_manifest_hash = []\<rparr>"

definition demo_copied :: TableInfo where
  "demo_copied = \<lparr>Name = ''T'', Engine = ''InnoDB'', Columns = [''id''], ColumnTypes = [''int''], PrimaryKey = [0], AutoIncrement = [],
     LocatorStrategy = [], LocatorIndex = [], LocatorColumns = [], UniqueIndexes = []\<rparr>"

definition demo_target :: target_table where
  "demo_target = \<lparr>tt_name = ''t'', tt_columns = [\<lparr>tc_name = ''id'', tc_nullable = ''NO'', tc_default = None, tc_identity = ''NO''\<rparr>],
     tt_unique = [[''id'']]\<rparr>"

definition demo_variable :: "string \<Rightarrow> unit + string" where
  "demo_variable v = (if v = ''expire_logs_days'' then Inr ''7'' else Inl ())"

definition demo_logs :: "(string \<times> string) list list" where
  "demo_logs = [[(''Log_name'', ''b.0''), (''File_size'', ''4'')], [(''Log_name'', ''b.1''), (''File_size'', ''9'')]]"

definition demo_answers :: "unit source_answers" where
  "demo_answers = \<lparr>sa_open = None, sa_config = Inr (''1'', ''row'', ''full'', ''OFF''), sa_variable = demo_variable,
     sa_master = Inr [[(''File'', ''b.1''), (''Position'', ''9'')]], sa_binlog = Inl (), sa_grants = Inr ''ALL PRIVILEGES'',
     sa_logs = Inr demo_logs, sa_tables = Inr [demo_copied, demo_copied\<lparr>Name := ''U''\<rparr>]\<rparr>"

definition demo_server :: "unit target_answers" where
  "demo_server = \<lparr>ta_open = None, ta_ping = None, ta_schema = Inr True, ta_metadata = Inr [demo_target], ta_triggers = (\<lambda>_. None)\<rparr>"

definition no_gtid_lib :: "unit gtid_lib" where
  "no_gtid_lib = \<lparr>ParseGTIDSet = (\<lambda>_. None), Contain = (\<lambda>_ _. False), EqualSet = (\<lambda>_ _. False), UpdateSet = (\<lambda>_ _. None), SetString = (\<lambda>_. [])\<rparr>"

theorem preflight_incremental_sound_witness:
  "pf_ok (Preflight no_gtid_lib demo_start True [''U''] demo_answers demo_server) \<and>
   map Name (pf_tables (Preflight no_gtid_lib demo_start True [''U''] demo_answers demo_server)) = [''T'']"
proof -
  have ok: "pf_ok (Preflight no_gtid_lib demo_start True [''U''] demo_answers demo_server)" by code_simp
  have "sa_tables demo_answers = Inr [demo_copied, demo_copied\<lparr>Name := ''U''\<rparr>]" "ta_metadata demo_server = Inr [demo_target]"
    by (simp_all add: demo_answers_def demo_server_def)
  from preflight_incremental_sound [OF refl ok this] show ?thesis using ok by (simp add: demo_copied_def)
qed

theorem retention_exact_witness:
  "readBinlogRetention demo_variable = Some 604800 \<and> (604800 :: int) \<le> i64_max"
proof -
  have "readBinlogRetention demo_variable = Some 604800" by code_simp
  with retention_exact [OF this] show ?thesis by simp
qed

theorem available_position_in_log_witness:
  "\<exists>executed purged rows. position_in_log no_gtid_lib executed purged rows (Start demo_start) \<and> rows = demo_logs"
proof -
  have "ValidatePositionAvailable no_gtid_lib demo_variable (Inr demo_logs) (Start demo_start) = Inr ()" by code_simp
  from available_position_in_log [OF this] show ?thesis by (auto simp: demo_start_def)
qed

end
