(* ===== verification/CdcBootstrapReview.thy ===== *)
theory CdcBootstrapReview
  imports CdcPreflight "HOL-Library.Multiset"
begin

text \<open>
  What a full load leaves for change data capture (\<^verbatim>\<open>bootstrap.go\<close>, the report of \<^verbatim>\<open>report.go\<close>): the tables that may go
  on, those that must be excluded and why, the failures kept for the operator, and the hash of the manifest he confirms.
  The texts shown are in the record \<open>review_texts\<close>; \<open>digest\<close> is SHA-256 of the JSON of the manifest.
\<close>

section \<open>The report of a load\<close>

record object_result =
  or_name :: string
  or_error :: string
  or_ddl :: string

text \<open>\<open>cr_items\<close> holds the failures.\<close>

record category_report =
  cr_total :: int
  cr_success :: int
  cr_failed :: int
  cr_items :: "object_result list"

record row_count =
  rw_table :: string
  rw_src :: int
  rw_dst :: int
  rw_match :: bool

record load_report =
  lr_tables :: category_report
  lr_data :: category_report
  lr_keys :: category_report
  lr_views :: category_report
  lr_indexes :: category_report
  lr_constraints :: category_report
  lr_sequences :: category_report
  lr_comments :: category_report
  lr_rows :: "row_count list"

record review_texts =
  rt_key :: "string \<Rightarrow> string"
  rt_unchecked :: string
  rt_counts :: "int \<Rightarrow> int \<Rightarrow> string"
  rt_warning :: "string \<Rightarrow> object_result \<Rightarrow> string"

definition loaded_name :: "bool \<Rightarrow> string \<Rightarrow> string" where
  "loaded_name lower t = (if lower then to_lower t else t)"

definition targetToSource :: "bool \<Rightarrow> string list \<Rightarrow> string \<rightharpoonup> string" where
  "targetToSource lower expected = foldl (\<lambda>m t. m(loaded_name lower t \<mapsto> t)) Map.empty expected"

definition rowCounts :: "row_count list \<Rightarrow> string \<rightharpoonup> row_count" where
  "rowCounts rows = foldl (\<lambda>m r. m(rw_table r \<mapsto> r)) Map.empty rows"

section \<open>Issues\<close>

definition issue :: "string \<Rightarrow> string \<Rightarrow> string \<Rightarrow> string \<Rightarrow> BootstrapIssue" where
  "issue t stage err ddl = \<lparr>bi_table = t, bi_stage = stage, bi_error = err, bi_ddl = ddl\<rparr>"

definition schema_issue :: "(string \<rightharpoonup> BootstrapIssue) \<Rightarrow> object_result \<Rightarrow> string \<rightharpoonup> BootstrapIssue" where
  "schema_issue m i = m(or_name i \<mapsto> issue (or_name i) ''schema'' (or_error i) (or_ddl i))"

text \<open>An entry that is set only once.\<close>

definition put_new :: "string \<Rightarrow> BootstrapIssue \<Rightarrow> (string \<rightharpoonup> BootstrapIssue) \<Rightarrow> string \<rightharpoonup> BootstrapIssue" where
  "put_new k v m = (case m k of None \<Rightarrow> m(k \<mapsto> v) | Some w \<Rightarrow> m)"

definition data_issue :: "(string \<rightharpoonup> BootstrapIssue) \<Rightarrow> object_result \<Rightarrow> string \<rightharpoonup> BootstrapIssue" where
  "data_issue m i = put_new (or_name i) (issue (or_name i) ''data'' (or_error i) []) m"

definition key_issue ::
  "review_texts \<Rightarrow> (string \<rightharpoonup> string) \<Rightarrow> (string \<rightharpoonup> BootstrapIssue) \<Rightarrow> object_result \<Rightarrow> string \<rightharpoonup> BootstrapIssue" where
  "key_issue tx sources m i =
     (case sources (or_name i) of
        None \<Rightarrow> m
      | Some t \<Rightarrow> put_new t (issue t ''cdc_compatibility'' (rt_key tx (or_error i)) (or_ddl i)) m)"

definition row_issue ::
  "review_texts \<Rightarrow> bool \<Rightarrow> (string \<rightharpoonup> row_count) \<Rightarrow> (string \<rightharpoonup> string) \<Rightarrow> (string \<rightharpoonup> BootstrapIssue) \<Rightarrow> string \<Rightarrow> string \<rightharpoonup> BootstrapIssue" where
  "row_issue tx lower rows unfit m t =
     (if m t \<noteq> None then m
      else
        (case rows (loaded_name lower t) of
           None \<Rightarrow> m(t \<mapsto> issue t ''row_count'' (rt_unchecked tx) [])
         | Some r \<Rightarrow>
             if \<not> rw_match r then m(t \<mapsto> issue t ''row_count'' (rt_counts tx (rw_src r) (rw_dst r)) [])
             else (case unfit t of None \<Rightarrow> m | Some e \<Rightarrow> if e = [] then m else m(t \<mapsto> issue t ''cdc_compatibility'' e []))))"

definition review_issues ::
  "review_texts \<Rightarrow> bool \<Rightarrow> (string \<rightharpoonup> string) \<Rightarrow> string list \<Rightarrow> load_report \<Rightarrow> string \<rightharpoonup> BootstrapIssue" where
  "review_issues tx lower unfit expected rep =
     foldl (row_issue tx lower (rowCounts (lr_rows rep)) unfit)
       (foldl (key_issue tx (targetToSource lower expected))
         (foldl data_issue (foldl schema_issue Map.empty (cr_items (lr_tables rep))) (cr_items (lr_data rep)))
         (cr_items (lr_keys rep)))
       expected"

section \<open>Failed objects\<close>

definition failed_key :: "BootstrapFailedObject \<Rightarrow> string" where
  "failed_key o' = str_join [CHR 0x00] [fo_category o', fo_name o', fo_error o', fo_ddl o', fo_stage o']"

text \<open>The items with new keys, in order.\<close>

fun append_failures :: "BootstrapFailedObject list \<Rightarrow> BootstrapFailedObject list \<Rightarrow> BootstrapFailedObject list" where
  "append_failures items [] = items"
| "append_failures items (x # xs) =
     append_failures (if failed_key x \<in> failed_key ` set items then items else items @ [x]) xs"

definition failures_of :: "string \<Rightarrow> string \<Rightarrow> category_report \<Rightarrow> BootstrapFailedObject list" where
  "failures_of category stage cr =
     map (\<lambda>i. \<lparr>fo_category = category, fo_name = or_name i, fo_error = or_error i, fo_ddl = or_ddl i, fo_stage = stage\<rparr>) (cr_items cr)"

definition reported_failures :: "load_report \<Rightarrow> BootstrapFailedObject list" where
  "reported_failures rep =
     append_failures []
       (failures_of ''table'' ''schema'' (lr_tables rep) @ failures_of ''data'' ''data'' (lr_data rep) @
        failures_of ''primary_key'' ''objects'' (lr_keys rep) @ failures_of ''sequence'' ''objects'' (lr_sequences rep) @
        failures_of ''index'' ''objects'' (lr_indexes rep) @ failures_of ''foreign_key'' ''objects'' (lr_constraints rep) @
        failures_of ''view'' ''objects'' (lr_views rep) @ failures_of ''comment'' ''objects'' (lr_comments rep))"

definition failed_tables :: "bool \<Rightarrow> string list \<Rightarrow> load_report \<Rightarrow> string set" where
  "failed_tables lower expected rep =
     or_name ` set (cr_items (lr_tables rep)) \<union> or_name ` set (cr_items (lr_data rep)) \<union>
     set (List.map_filter (\<lambda>i. targetToSource lower expected (or_name i)) (cr_items (lr_keys rep)))"

definition validation_failure :: "string \<Rightarrow> string \<Rightarrow> string \<Rightarrow> BootstrapFailedObject" where
  "validation_failure category t err =
     \<lparr>fo_category = category, fo_name = t, fo_error = err, fo_ddl = [], fo_stage = ''validation''\<rparr>"

definition table_failures ::
  "review_texts \<Rightarrow> bool \<Rightarrow> (string \<rightharpoonup> row_count) \<Rightarrow> (string \<rightharpoonup> string) \<Rightarrow> string \<Rightarrow> BootstrapFailedObject list" where
  "table_failures tx lower rows unfit t =
     (case rows (loaded_name lower t) of
        None \<Rightarrow> [validation_failure ''row_count'' t (rt_unchecked tx)]
      | Some r \<Rightarrow> if rw_match r then [] else [validation_failure ''row_count'' t (rt_counts tx (rw_src r) (rw_dst r))]) @
     (case unfit t of None \<Rightarrow> [] | Some e \<Rightarrow> if e = [] then [] else [validation_failure ''cdc_compatibility'' t e])"

definition BuildBootstrapFailedObjects ::
  "review_texts \<Rightarrow> bool \<Rightarrow> (string \<rightharpoonup> string) \<Rightarrow> string list \<Rightarrow> load_report \<Rightarrow> BootstrapFailedObject list" where
  "BuildBootstrapFailedObjects tx lower unfit expected rep =
     reported_failures rep @
     concat (map (table_failures tx lower (rowCounts (lr_rows rep)) unfit)
       (filter (\<lambda>t. t \<notin> failed_tables lower expected rep) expected))"

text \<open>The kinds shown are \<open>index\<close>, \<open>foreign key\<close>, \<open>sequence\<close>, \<open>comment\<close> and \<open>view\<close>.\<close>

definition bootstrapObjectWarnings :: "review_texts \<Rightarrow> load_report \<Rightarrow> string list" where
  "bootstrapObjectWarnings tx rep =
     concat (map (\<lambda>(k, cr). map (rt_warning tx k) (cr_items cr))
       [(''index'', lr_indexes rep), (''foreign_key'', lr_constraints rep), (''sequence'', lr_sequences rep),
        (''comment'', lr_comments rep), (''view'', lr_views rep)])"

section \<open>The manifest and the review\<close>

definition issue_less :: "BootstrapIssue \<Rightarrow> BootstrapIssue \<Rightarrow> bool" where
  "issue_less x y =
     (if bi_table x \<noteq> bi_table y then str_less (bi_table x) (bi_table y)
      else if bi_stage x \<noteq> bi_stage y then str_less (bi_stage x) (bi_stage y)
      else if bi_error x \<noteq> bi_error y then str_less (bi_error x) (bi_error y)
      else str_less (bi_ddl x) (bi_ddl y))"

type_synonym manifest = "Position \<times> string list \<times> BootstrapIssue list"

definition canonical_manifest :: "BootstrapRecord \<Rightarrow> manifest" where
  "canonical_manifest rec = (br_position rec, sort_by str_less (br_effective rec), sort_by issue_less (br_excluded rec))"

definition HashBootstrapManifest :: "(manifest \<Rightarrow> string) \<Rightarrow> BootstrapRecord \<Rightarrow> string" where
  "HashBootstrapManifest digest rec = digest (canonical_manifest rec)"

record bootstrap_review =
  rv_record :: BootstrapRecord
  rv_requested :: nat
  rv_warnings :: "string list"

definition BuildBootstrapReview ::
  "(manifest \<Rightarrow> string) \<Rightarrow> review_texts \<Rightarrow> Position \<Rightarrow> string list \<Rightarrow> load_report \<Rightarrow> bool \<Rightarrow> (string \<rightharpoonup> string) \<Rightarrow> bootstrap_review" where
  "BuildBootstrapReview digest tx p expected rep lower unfit =
     (let issues = review_issues tx lower unfit expected rep;
          rec = \<lparr>br_state = ''review_pending'', br_position = p, br_effective = filter (\<lambda>t. issues t = None) expected,
                 br_excluded = List.map_filter issues expected, br_manifest_hash = [],
                 br_failed = BuildBootstrapFailedObjects tx lower unfit expected rep, br_report_version = 1,
                 br_locator_version = 0, br_locators = []\<rparr>
      in \<lparr>rv_record = rec\<lparr>br_manifest_hash := HashBootstrapManifest digest rec\<rparr>, rv_requested = length expected,
          rv_warnings = bootstrapObjectWarnings tx rep\<rparr>)"

section \<open>Facts\<close>

lemma foldl_keeps: "(\<And>m x. x \<in> set xs \<Longrightarrow> P m \<Longrightarrow> P (f m x)) \<Longrightarrow> P m \<Longrightarrow> P (foldl f m xs)"
  by (induction xs arbitrary: m) auto

lemma mem_map_filter: "y \<in> set (List.map_filter f xs) \<longleftrightarrow> (\<exists>x\<in>set xs. f x = Some y)"
  by (force simp: List.map_filter_def)

lemma dom_schema: "dom (foldl schema_issue m is) = dom m \<union> or_name ` set is"
  by (induction "is" arbitrary: m) (auto simp: schema_issue_def)

lemma dom_put_new [simp]: "dom (put_new k v m) = insert k (dom m)"
  by (auto simp: put_new_def split: option.splits if_splits)

lemma put_new_Some: "put_new k v m t = Some i \<longleftrightarrow> m t = Some i \<or> (m t = None \<and> t = k \<and> i = v)"
  by (auto simp: put_new_def split: option.splits)

lemma dom_data: "dom (foldl data_issue m is) = dom m \<union> or_name ` set is"
  by (induction "is" arbitrary: m) (auto simp: data_issue_def)

lemma dom_key: "dom (foldl (key_issue tx src) m is) = dom m \<union> set (List.map_filter (\<lambda>i. src (or_name i)) is)"
  by (induction "is" arbitrary: m) (auto simp: key_issue_def map_filter_simps split: option.splits)

definition row_problem :: "bool \<Rightarrow> (string \<rightharpoonup> row_count) \<Rightarrow> (string \<rightharpoonup> string) \<Rightarrow> string \<Rightarrow> bool" where
  "row_problem lower rows unfit t \<longleftrightarrow>
     (case rows (loaded_name lower t) of None \<Rightarrow> True | Some r \<Rightarrow> \<not> rw_match r) \<or> (unfit t \<noteq> None \<and> unfit t \<noteq> Some [])"

lemma row_issue_dom: "dom (row_issue tx lower rows unfit m t) = dom m \<union> {t'. t' = t \<and> row_problem lower rows unfit t}"
  by (auto simp: row_issue_def row_problem_def split: option.splits if_splits)

lemma dom_row: "dom (foldl (row_issue tx lower rows unfit) m ts) = dom m \<union> {t \<in> set ts. row_problem lower rows unfit t}"
proof (induction ts arbitrary: m)
  case (Cons t ts)
  show ?case by (simp only: foldl.simps Cons.IH row_issue_dom) auto
qed simp

text \<open>The issues before the row counts are looked at.\<close>

definition early_issues :: "review_texts \<Rightarrow> bool \<Rightarrow> string list \<Rightarrow> load_report \<Rightarrow> string \<rightharpoonup> BootstrapIssue" where
  "early_issues tx lower expected rep =
     foldl (key_issue tx (targetToSource lower expected))
       (foldl data_issue (foldl schema_issue Map.empty (cr_items (lr_tables rep))) (cr_items (lr_data rep))) (cr_items (lr_keys rep))"

lemma early_dom: "dom (early_issues tx lower expected rep) = failed_tables lower expected rep"
  by (simp only: early_issues_def dom_key dom_data dom_schema failed_tables_def) simp

lemma review_issues_early:
  "review_issues tx lower unfit expected rep =
     foldl (row_issue tx lower (rowCounts (lr_rows rep)) unfit) (early_issues tx lower expected rep) expected"
  by (simp add: review_issues_def early_issues_def)

lemma review_dom:
  "dom (review_issues tx lower unfit expected rep) =
     failed_tables lower expected rep \<union> {t \<in> set expected. row_problem lower (rowCounts (lr_rows rep)) unfit t}"
  by (simp only: review_issues_early dom_row early_dom)

lemma foldl_upd_Some: "foldl (\<lambda>m t. m(f t \<mapsto> t)) m ts n = Some t \<Longrightarrow> m n = Some t \<or> (t \<in> set ts \<and> f t = n)"
proof (induction ts arbitrary: m)
  case (Cons x ts)
  from Cons.IH [of "m(f x \<mapsto> x)"] Cons.prems show ?case by (auto split: if_splits)
qed simp

lemma foldl_upd_keep: "n \<notin> f ` set ts \<Longrightarrow> foldl (\<lambda>m t. m(f t \<mapsto> t)) m ts n = m n"
  by (induction ts arbitrary: m) auto

lemma foldl_upd_mem: "distinct (map f ts) \<Longrightarrow> t \<in> set ts \<Longrightarrow> foldl (\<lambda>m t. m(f t \<mapsto> t)) m ts (f t) = Some t"
  by (induction ts arbitrary: m) (auto simp: foldl_upd_keep)

lemma targetToSource_iff:
  assumes "distinct (map (loaded_name lower) expected)"
  shows "targetToSource lower expected n = Some t \<longleftrightarrow> t \<in> set expected \<and> loaded_name lower t = n"
  using foldl_upd_Some [of "loaded_name lower" Map.empty expected n t] foldl_upd_mem [OF assms, of t Map.empty]
  by (auto simp: targetToSource_def)

section \<open>Which tables go on\<close>

definition load_complete :: "bool \<Rightarrow> (string \<rightharpoonup> string) \<Rightarrow> load_report \<Rightarrow> string \<Rightarrow> bool" where
  "load_complete lower unfit rep t \<longleftrightarrow>
     t \<notin> or_name ` set (cr_items (lr_tables rep)) \<and> t \<notin> or_name ` set (cr_items (lr_data rep)) \<and>
     loaded_name lower t \<notin> or_name ` set (cr_items (lr_keys rep)) \<and>
     (case rowCounts (lr_rows rep) (loaded_name lower t) of None \<Rightarrow> False | Some r \<Rightarrow> rw_match r) \<and>
     (unfit t = None \<or> unfit t = Some [])"

lemma failed_tables_iff:
  assumes "distinct (map (loaded_name lower) expected)" "t \<in> set expected"
  shows "t \<in> failed_tables lower expected rep \<longleftrightarrow>
    t \<in> or_name ` set (cr_items (lr_tables rep)) \<or> t \<in> or_name ` set (cr_items (lr_data rep)) \<or>
    loaded_name lower t \<in> or_name ` set (cr_items (lr_keys rep))"
proof -
  have "t \<in> set (List.map_filter (\<lambda>i. targetToSource lower expected (or_name i)) items) \<longleftrightarrow> loaded_name lower t \<in> or_name ` set items" for items
    using assms(2) targetToSource_iff [OF assms(1), of _ t] by (auto simp: mem_map_filter)
  from this [of "cr_items (lr_keys rep)"] show ?thesis by (simp only: failed_tables_def Un_iff disj_assoc)
qed

lemma review_issues_None:
  assumes "distinct (map (loaded_name lower) expected)" "t \<in> set expected"
  shows "review_issues tx lower unfit expected rep t = None \<longleftrightarrow> load_complete lower unfit rep t"
proof -
  have "review_issues tx lower unfit expected rep t = None \<longleftrightarrow> t \<notin> dom (review_issues tx lower unfit expected rep)" by auto
  then show ?thesis
    using assms(2) failed_tables_iff [OF assms]
    by (auto simp: review_dom load_complete_def row_problem_def split: option.splits)
qed

lemma issue_table [simp]: "bi_table (issue t s e d) = t"
  by (simp add: issue_def)

definition names_tables :: "(string \<rightharpoonup> BootstrapIssue) \<Rightarrow> bool" where
  "names_tables m \<longleftrightarrow> (\<forall>t i. m t = Some i \<longrightarrow> bi_table i = t)"

lemma names_tables_put [intro]: "names_tables m \<Longrightarrow> bi_table v = k \<Longrightarrow> names_tables (m(k \<mapsto> v))"
  by (simp add: names_tables_def)

lemma names_tables_new [intro]: "names_tables m \<Longrightarrow> bi_table v = k \<Longrightarrow> names_tables (put_new k v m)"
  by (auto simp: put_new_def split: option.split)

lemma names_tables_review: "names_tables (review_issues tx lower unfit expected rep)"
  unfolding review_issues_def
proof (rule foldl_keeps [where P = names_tables])
  show "names_tables (foldl (key_issue tx (targetToSource lower expected))
      (foldl data_issue (foldl schema_issue Map.empty (cr_items (lr_tables rep))) (cr_items (lr_data rep))) (cr_items (lr_keys rep)))"
  proof (rule foldl_keeps [where P = names_tables])
    show "names_tables (foldl data_issue (foldl schema_issue Map.empty (cr_items (lr_tables rep))) (cr_items (lr_data rep)))"
    proof (rule foldl_keeps [where P = names_tables])
      show "names_tables (foldl schema_issue Map.empty (cr_items (lr_tables rep)))"
        by (rule foldl_keeps [where P = names_tables]) (auto simp: schema_issue_def, simp add: names_tables_def)
    qed (auto simp: data_issue_def)
  qed (auto simp: key_issue_def split: option.split)
qed (auto simp: row_issue_def split: option.split)

lemma review_issue_table: "review_issues tx lower unfit expected rep t = Some i \<Longrightarrow> bi_table i = t"
  using names_tables_review [of tx lower unfit expected rep] by (simp add: names_tables_def)

lemma map_filter_tables:
  assumes "\<And>t i. m t = Some i \<Longrightarrow> bi_table i = t"
  shows "map bi_table (List.map_filter m ts) = filter (\<lambda>t. m t \<noteq> None) ts"
  using assms by (induction ts) (auto simp: map_filter_simps split: option.splits)

lemma review_scopes:
  assumes "distinct (map (loaded_name lower) expected)"
  shows "br_effective (rv_record (BuildBootstrapReview digest tx p expected rep lower unfit)) = filter (load_complete lower unfit rep) expected"
    "map bi_table (br_excluded (rv_record (BuildBootstrapReview digest tx p expected rep lower unfit))) =
       filter (\<lambda>t. \<not> load_complete lower unfit rep t) expected"
proof -
  let ?m = "review_issues tx lower unfit expected rep"
  have "filter (\<lambda>t. ?m t = None) expected = filter (load_complete lower unfit rep) expected"
    by (rule filter_cong) (simp_all add: review_issues_None [OF assms])
  then show "br_effective (rv_record (BuildBootstrapReview digest tx p expected rep lower unfit)) = filter (load_complete lower unfit rep) expected"
    by (simp add: BuildBootstrapReview_def Let_def)
  have "map bi_table (List.map_filter ?m expected) = filter (\<lambda>t. ?m t \<noteq> None) expected"
    by (rule map_filter_tables) (rule review_issue_table)
  moreover have "\<dots> = filter (\<lambda>t. \<not> load_complete lower unfit rep t) expected"
    by (rule filter_cong) (simp_all add: review_issues_None [OF assms])
  ultimately show "map bi_table (br_excluded (rv_record (BuildBootstrapReview digest tx p expected rep lower unfit))) =
       filter (\<lambda>t. \<not> load_complete lower unfit rep t) expected"
    by (simp add: BuildBootstrapReview_def Let_def)
qed

text \<open>C29: The review of a full load loses no table: a table goes on exactly when its creation, its data and its primary key did
  not fail, its rows were counted and match and its target fits, and every other table is excluded with its issue, both
  in the order of the load.\<close>

theorem review_classifies:
  assumes "distinct (map (loaded_name lower) expected)"
    and "rec = rv_record (BuildBootstrapReview digest tx p expected rep lower unfit)"
  shows "br_effective rec = filter (load_complete lower unfit rep) expected \<and>
    map bi_table (br_excluded rec) = filter (\<lambda>t. \<not> load_complete lower unfit rep t) expected \<and>
    br_state rec = ''review_pending'' \<and> br_position rec = p"
  using review_scopes [OF assms(1)] unfolding assms(2) by (simp add: BuildBootstrapReview_def Let_def)

section \<open>Every exclusion is explained\<close>

lemma failed_keys_append: "failed_key ` set (append_failures items xs) = failed_key ` (set items \<union> set xs)"
  by (induction xs arbitrary: items) auto

text \<open>The failed object an issue comes from.\<close>

definition explains :: "review_texts \<Rightarrow> bool \<Rightarrow> BootstrapIssue \<Rightarrow> BootstrapFailedObject \<Rightarrow> bool" where
  "explains tx lower i x \<longleftrightarrow>
     (fo_category x, fo_stage x) = (''table'', ''schema'') \<and> bi_stage i = ''schema'' \<and> fo_name x = bi_table i \<and> fo_error x = bi_error i \<and> fo_ddl x = bi_ddl i \<or>
     (fo_category x, fo_stage x) = (''data'', ''data'') \<and> bi_stage i = ''data'' \<and> fo_name x = bi_table i \<and> fo_error x = bi_error i \<or>
     (fo_category x, fo_stage x) = (''primary_key'', ''objects'') \<and> bi_stage i = ''cdc_compatibility'' \<and>
       fo_name x = loaded_name lower (bi_table i) \<and> rt_key tx (fo_error x) = bi_error i \<and> fo_ddl x = bi_ddl i \<or>
     fo_stage x = ''validation'' \<and> fo_category x = bi_stage i \<and> fo_name x = bi_table i \<and> fo_error x = bi_error i"

definition explained_by :: "review_texts \<Rightarrow> bool \<Rightarrow> BootstrapFailedObject set \<Rightarrow> (string \<rightharpoonup> BootstrapIssue) \<Rightarrow> bool" where
  "explained_by tx lower X m \<longleftrightarrow> (\<forall>t i. m t = Some i \<longrightarrow> (\<exists>x\<in>X. explains tx lower i x))"

lemma explained_put: "explained_by tx lower X m \<Longrightarrow> x \<in> X \<Longrightarrow> explains tx lower v x \<Longrightarrow> explained_by tx lower X (m(k \<mapsto> v))"
  by (auto simp: explained_by_def)

lemma explained_new: "explained_by tx lower X m \<Longrightarrow> x \<in> X \<Longrightarrow> explains tx lower v x \<Longrightarrow> explained_by tx lower X (put_new k v m)"
  by (auto simp: put_new_def explained_put split: option.split)

lemma explained_empty: "explained_by tx lower X Map.empty"
  by (simp add: explained_by_def)

lemma explained_early:
  assumes "distinct (map (loaded_name lower) expected)"
    and "set (failures_of ''table'' ''schema'' (lr_tables rep)) \<subseteq> X" "set (failures_of ''data'' ''data'' (lr_data rep)) \<subseteq> X"
      "set (failures_of ''primary_key'' ''objects'' (lr_keys rep)) \<subseteq> X"
  shows "explained_by tx lower X (early_issues tx lower expected rep)"
  unfolding early_issues_def
proof (rule foldl_keeps [where P = "explained_by tx lower X"])
  show "explained_by tx lower X (foldl data_issue (foldl schema_issue Map.empty (cr_items (lr_tables rep))) (cr_items (lr_data rep)))"
  proof (rule foldl_keeps [where P = "explained_by tx lower X"])
    show "explained_by tx lower X (foldl schema_issue Map.empty (cr_items (lr_tables rep)))"
    proof (rule foldl_keeps [where P = "explained_by tx lower X"])
      fix m i assume "i \<in> set (cr_items (lr_tables rep))" and m: "explained_by tx lower X m"
      then have "\<lparr>fo_category = ''table'', fo_name = or_name i, fo_error = or_error i, fo_ddl = or_ddl i, fo_stage = ''schema''\<rparr> \<in> X"
        using assms(2) by (auto simp: failures_of_def)
      from explained_put [OF m this] show "explained_by tx lower X (schema_issue m i)"
        by (simp add: schema_issue_def explains_def issue_def)
    qed (rule explained_empty)
  next
    fix m i assume "i \<in> set (cr_items (lr_data rep))" and m: "explained_by tx lower X m"
    then have "\<lparr>fo_category = ''data'', fo_name = or_name i, fo_error = or_error i, fo_ddl = or_ddl i, fo_stage = ''data''\<rparr> \<in> X"
      using assms(3) by (auto simp: failures_of_def)
    from explained_new [OF m this] show "explained_by tx lower X (data_issue m i)"
      by (simp add: data_issue_def explains_def issue_def)
  qed
next
  fix m i assume i: "i \<in> set (cr_items (lr_keys rep))" and m: "explained_by tx lower X m"
  then have x: "\<lparr>fo_category = ''primary_key'', fo_name = or_name i, fo_error = or_error i, fo_ddl = or_ddl i, fo_stage = ''objects''\<rparr> \<in> X"
    using assms(4) by (auto simp: failures_of_def)
  show "explained_by tx lower X (key_issue tx (targetToSource lower expected) m i)"
  proof (cases "targetToSource lower expected (or_name i)")
    case (Some t)
    then have "loaded_name lower t = or_name i" using targetToSource_iff [OF assms(1)] by simp
    then show ?thesis using explained_new [OF m x] Some by (simp add: key_issue_def explains_def issue_def)
  qed (simp add: key_issue_def m)
qed

lemma explains_validation: "explains tx lower (issue t c e []) (validation_failure c t e)"
  by (simp add: explains_def issue_def validation_failure_def)

lemma explained_rows:
  assumes "explained_by tx lower X m"
    and "\<And>t. t \<in> set ts \<Longrightarrow> t \<notin> dom m \<Longrightarrow> set (table_failures tx lower rows unfit t) \<subseteq> X"
  shows "explained_by tx lower X (foldl (row_issue tx lower rows unfit) m ts)"
  using assms
proof (induction ts arbitrary: m)
  case (Cons t ts)
  have "explained_by tx lower X (row_issue tx lower rows unfit m t)"
  proof (cases "m t")
    case None
    then have sub: "set (table_failures tx lower rows unfit t) \<subseteq> X" using Cons.prems(2) [of t] by auto
    note put = explained_put [OF Cons.prems(1) _ explains_validation]
    show ?thesis
    proof (cases "rows (loaded_name lower t)")
      case None
      then have "validation_failure ''row_count'' t (rt_unchecked tx) \<in> X" using sub by (simp add: table_failures_def)
      from put [OF this] show ?thesis using \<open>m t = None\<close> None by (simp add: row_issue_def)
    next
      case (Some r)
      show ?thesis
      proof (cases "rw_match r")
        case False
        then have "validation_failure ''row_count'' t (rt_counts tx (rw_src r) (rw_dst r)) \<in> X" using sub Some by (simp add: table_failures_def)
        from put [OF this] show ?thesis using \<open>m t = None\<close> Some False by (simp add: row_issue_def)
      next
        case True
        have "validation_failure ''cdc_compatibility'' t e \<in> X" if "unfit t = Some e" "e \<noteq> []" for e
          using sub that by (simp add: table_failures_def)
        then show ?thesis using \<open>m t = None\<close> Some True put Cons.prems(1)
          by (cases "unfit t") (simp_all add: row_issue_def)
      qed
    qed
  qed (simp add: row_issue_def Cons.prems(1))
  moreover have "set (table_failures tx lower rows unfit u) \<subseteq> X" if "u \<in> set ts" "u \<notin> dom (row_issue tx lower rows unfit m t)" for u
    using that Cons.prems(2) [of u] by (auto simp: row_issue_dom)
  ultimately show ?case using Cons.IH by simp
qed simp

text \<open>C28: No table is excluded without a reason that is kept: for every excluded table the list of failed objects has an entry of
  that table, or of the primary key of its target, with the same error.\<close>

theorem exclusions_explained:
  assumes "distinct (map (loaded_name lower) expected)"
    and "rec = rv_record (BuildBootstrapReview digest tx p expected rep lower unfit)" "i \<in> set (br_excluded rec)"
  shows "\<exists>x. explains tx lower i x \<and> failed_key x \<in> failed_key ` set (br_failed rec)"
proof -
  define rows where "rows = concat (map (table_failures tx lower (rowCounts (lr_rows rep)) unfit)
       (filter (\<lambda>t. t \<notin> failed_tables lower expected rep) expected))"
  define named where "named = failures_of ''table'' ''schema'' (lr_tables rep) @ failures_of ''data'' ''data'' (lr_data rep) @
        failures_of ''primary_key'' ''objects'' (lr_keys rep) @ failures_of ''sequence'' ''objects'' (lr_sequences rep) @
        failures_of ''index'' ''objects'' (lr_indexes rep) @ failures_of ''foreign_key'' ''objects'' (lr_constraints rep) @
        failures_of ''view'' ''objects'' (lr_views rep) @ failures_of ''comment'' ''objects'' (lr_comments rep)"
  let ?X = "set named \<union> set rows"
  have "br_failed rec = append_failures [] named @ rows"
    by (simp add: assms(2) BuildBootstrapReview_def Let_def BuildBootstrapFailedObjects_def reported_failures_def named_def rows_def)
  then have keys: "failed_key ` set (br_failed rec) = failed_key ` ?X"
    by (simp add: image_Un failed_keys_append)
  have "explained_by tx lower ?X (early_issues tx lower expected rep)"
    by (rule explained_early [OF assms(1)]) (auto simp: named_def)
  then have "explained_by tx lower ?X (review_issues tx lower unfit expected rep)"
    unfolding review_issues_early by (rule explained_rows) (auto simp: early_dom rows_def)
  moreover obtain t where "review_issues tx lower unfit expected rep t = Some i"
    using assms(2,3) by (auto simp: BuildBootstrapReview_def Let_def mem_map_filter)
  ultimately show ?thesis using keys unfolding explained_by_def by blast
qed

section \<open>The manifest\<close>

lemma mset_insert_by [simp]: "mset (insert_by lt x ys) = add_mset x (mset ys)"
  by (induction ys) auto

lemma mset_sort_by [simp]: "mset (sort_by lt xs) = mset xs"
proof (induction xs)
  case (Cons x xs)
  then show ?case by (simp add: sort_by_def)
qed (simp add: sort_by_def)

lemma sorted_unique:
  assumes "\<And>a b. P a b \<Longrightarrow> P b a \<Longrightarrow> a = b"
  shows "sorted_wrt P xs \<Longrightarrow> sorted_wrt P ys \<Longrightarrow> mset xs = mset ys \<Longrightarrow> xs = ys"
proof (induction xs arbitrary: ys)
  case (Cons x xs)
  then obtain y ys' where ys: "ys = y # ys'" by (cases ys) auto
  then have "y \<in> set (x # xs)" "x \<in> set (y # ys')" using Cons.prems(3) by (metis list.set_intros(1) set_mset_mset)+
  then have "x = y" using Cons.prems(1,2) assms [of x y] ys by auto
  then show ?case using Cons.IH [of ys'] Cons.prems ys by simp
qed simp

lemma sort_by_mset:
  assumes "\<And>a b. lt a b \<Longrightarrow> \<not> lt b a" "\<And>a b c. \<not> lt b a \<Longrightarrow> \<not> lt c b \<Longrightarrow> \<not> lt c a" "\<And>a b. \<not> lt a b \<Longrightarrow> \<not> lt b a \<Longrightarrow> a = b"
  shows "sort_by lt xs = sort_by lt ys \<longleftrightarrow> mset xs = mset ys"
proof
  assume "mset xs = mset ys"
  show "sort_by lt xs = sort_by lt ys"
  proof (rule sorted_unique)
    show "sorted_wrt (\<lambda>a b. \<not> lt b a) (sort_by lt xs)" "sorted_wrt (\<lambda>a b. \<not> lt b a) (sort_by lt ys)"
      using sorted_sort_by [of lt] assms(1,2) by blast+
  qed (simp_all add: assms(3) \<open>mset xs = mset ys\<close>)
qed (metis mset_sort_by)

lemma str_not_less_trans: "\<not> str_less b a \<Longrightarrow> \<not> str_less c b \<Longrightarrow> \<not> str_less c a"
  by (metis str_less_total str_less_trans)

lemma sort_strings: "sort_by str_less xs = sort_by str_less ys \<longleftrightarrow> mset xs = mset ys"
  by (rule sort_by_mset) (use str_less_asym str_not_less_trans str_less_total in blast)+

lemma issue_eqI: "bi_table x = bi_table y \<Longrightarrow> bi_stage x = bi_stage y \<Longrightarrow> bi_error x = bi_error y \<Longrightarrow> bi_ddl x = bi_ddl y \<Longrightarrow> x = (y :: BootstrapIssue)"
  by simp

lemma issue_less_asym: "issue_less x y \<Longrightarrow> \<not> issue_less y x"
  by (auto simp: issue_less_def dest: str_less_asym split: if_splits)

lemma issue_less_total: "\<not> issue_less x y \<Longrightarrow> \<not> issue_less y x \<Longrightarrow> x = y"
  using str_less_total by (intro issue_eqI) (auto simp: issue_less_def split: if_splits)

lemma issue_less_trans: "issue_less x y \<Longrightarrow> issue_less y z \<Longrightarrow> issue_less x z"
  by (auto simp: issue_less_def dest: str_less_trans str_less_asym split: if_splits)

lemma sort_issues: "sort_by issue_less xs = sort_by issue_less ys \<longleftrightarrow> mset xs = mset ys"
proof (rule sort_by_mset)
  show "\<not> issue_less b a \<Longrightarrow> \<not> issue_less c b \<Longrightarrow> \<not> issue_less c a" for a b c
    by (metis issue_less_total issue_less_trans)
qed (use issue_less_asym issue_less_total in blast)+

text \<open>C30: The hash that an operator confirms stands for the content of the manifest and not for its order: two records have the
  same hash exactly when they have the same position, the same tables and the same issues, unless SHA-256 maps the two
  manifests to one value.\<close>

theorem manifest_hash_content:
  assumes "inj_on digest {canonical_manifest r1, canonical_manifest r2}"
  shows "HashBootstrapManifest digest r1 = HashBootstrapManifest digest r2 \<longleftrightarrow>
    br_position r1 = br_position r2 \<and> mset (br_effective r1) = mset (br_effective r2) \<and> mset (br_excluded r1) = mset (br_excluded r2)"
proof -
  have "HashBootstrapManifest digest r1 = HashBootstrapManifest digest r2 \<longleftrightarrow> canonical_manifest r1 = canonical_manifest r2"
    unfolding HashBootstrapManifest_def by (rule inj_on_eq_iff [OF assms]) simp_all
  then show ?thesis by (simp add: canonical_manifest_def sort_strings sort_issues)
qed
section \<open>A review\<close>

text \<open>Of three tables one goes on; the data of the second failed and the third was not counted.\<close>

definition demo_failed :: category_report where
  "demo_failed = \<lparr>cr_total = 3, cr_success = 2, cr_failed = 1, cr_items = [\<lparr>or_name = ''B'', or_error = ''e'', or_ddl = []\<rparr>]\<rparr>"

definition demo_passed :: category_report where
  "demo_passed = \<lparr>cr_total = 3, cr_success = 3, cr_failed = 0, cr_items = []\<rparr>"

definition demo_load :: load_report where
  "demo_load = \<lparr>lr_tables = demo_passed, lr_data = demo_failed, lr_keys = demo_passed, lr_views = demo_passed, lr_indexes = demo_passed,
     lr_constraints = demo_passed, lr_sequences = demo_passed, lr_comments = demo_passed,
     lr_rows = [\<lparr>rw_table = ''a'', rw_src = 1, rw_dst = 1, rw_match = True\<rparr>]\<rparr>"

definition demo_texts :: review_texts where
  "demo_texts = \<lparr>rt_key = (\<lambda>e. e), rt_unchecked = ''unchecked'', rt_counts = (\<lambda>_ _. ''rows''), rt_warning = (\<lambda>_ _. ''w'')\<rparr>"

definition demo_review :: BootstrapRecord where
  "demo_review = rv_record (BuildBootstrapReview (\<lambda>_. ''hash'') demo_texts zero_position [''A'', ''B'', ''C''] demo_load True Map.empty)"

lemma demo_names: "distinct (map (loaded_name True) [''A'', ''B'', ''C''])"
  by code_simp

theorem review_classifies_witness:
  "br_effective demo_review = [''A''] \<and> map bi_table (br_excluded demo_review) = [''B'', ''C'']"
proof -
  have "filter (load_complete True Map.empty demo_load) [''A'', ''B'', ''C''] = [''A'']"
      "filter (\<lambda>t. \<not> load_complete True Map.empty demo_load t) [''A'', ''B'', ''C''] = [''B'', ''C'']"
    by code_simp+
  with review_classifies [OF demo_names demo_review_def] show ?thesis by simp
qed

theorem exclusions_explained_witness:
  "\<exists>x. explains demo_texts True (hd (br_excluded demo_review)) x \<and> failed_key x \<in> failed_key ` set (br_failed demo_review)"
proof -
  have "map bi_table (br_excluded demo_review) = [''B'', ''C'']" by code_simp
  then have "hd (br_excluded demo_review) \<in> set (br_excluded demo_review)" by (cases "br_excluded demo_review") auto
  from exclusions_explained [OF demo_names demo_review_def this] show ?thesis .
qed

theorem manifest_hash_content_witness:
  "HashBootstrapManifest (\<lambda>m. if m = canonical_manifest demo_review then ''x'' else ''y'') demo_review \<noteq>
     HashBootstrapManifest (\<lambda>m. if m = canonical_manifest demo_review then ''x'' else ''y'') (demo_review\<lparr>br_effective := []\<rparr>)"
proof -
  let ?d = "\<lambda>m. if m = canonical_manifest demo_review then ''x'' else ''y''"
  have "inj_on ?d {canonical_manifest demo_review, canonical_manifest (demo_review\<lparr>br_effective := []\<rparr>)}"
    by (auto simp: inj_on_def)
  moreover have "br_effective demo_review = [''A'']" by code_simp
  ultimately show ?thesis using manifest_hash_content [of ?d demo_review "demo_review\<lparr>br_effective := []\<rparr>"] by simp
qed

end
