(* ===== verification/IncrementalStore.thy ===== *)
theory IncrementalStore
  imports CdcRegistry CdcBootstrapReview
begin

text \<open>
  The row of an incremental job (\<^verbatim>\<open>store/incremental.go\<close>) and what bootstrap records and the start of the service do
  to it (\<^verbatim>\<open>api/handler/incremental.go\<close>). Connection snapshots, counters shown to the user, texts and times are left
  out; the frozen table lists and locators are represented by the manifest's hash and the version.
\<close>

section \<open>Rows\<close>

record inc_row =
  ir_job :: string
  ir_target :: nat
  ir_schema :: string
  ir_mode :: string
  ir_status :: string
  ir_phase :: string
  ir_done :: bool
  ir_bstate :: string
  ir_version :: int
  ir_manifest :: string
  ir_effective :: nat
  ir_excluded :: nat
  ir_skipped :: int
  ir_start :: Position
  ir_pending :: Position
  ir_checkpoint :: Position
  ir_cutover :: Position
  ir_blocking :: Position
  ir_validation :: string

definition full_mode :: string where
  "full_mode = ''full_then_cdc''"

text \<open>\<open>cdc.LocatorStrategyVersion\<close>\<close>

definition strategy_version :: int where
  "strategy_version = 1"

definition terminal_statuses :: "string list" where
  "terminal_statuses = [''stopped'', ''aborted'']"

text \<open>The groups of the list page.\<close>

definition active_statuses :: "string list" where
  "active_statuses = [''initializing'', ''snapshot'', ''catching_up'', ''running'', ''reconnecting'', ''pausing'', ''cutting_over'', ''validating'']"

definition attention_statuses :: "string list" where
  "attention_statuses = [''paused_manual'', ''paused_restart'', ''paused_ddl'', ''paused_row_conflict'', ''paused_bootstrap_review'',
     ''ready_to_cutover'', ''ready_with_warnings'', ''cutover_blocked'', ''failed'']"

definition HasOpenIncrementalTarget :: "nat \<Rightarrow> string \<Rightarrow> inc_row list \<Rightarrow> bool" where
  "HasOpenIncrementalTarget conn schema rows \<longleftrightarrow>
     list_ex (\<lambda>r. ir_target r = conn \<and> ir_schema r = schema \<and> ir_status r \<notin> set terminal_statuses) rows"

text \<open>The update of a row that may have moved on: its success, and the row.\<close>

definition UpdateIncrementalJobIfStatus :: "string list \<Rightarrow> (inc_row \<Rightarrow> inc_row) \<Rightarrow> inc_row \<Rightarrow> bool \<times> inc_row" where
  "UpdateIncrementalJobIfStatus statuses f r = (if ir_status r \<in> set statuses then (True, f r) else (False, r))"

definition set_status :: "string \<Rightarrow> string \<Rightarrow> inc_row \<Rightarrow> inc_row" where
  "set_status st ph r = r\<lparr>ir_status := st, ir_phase := ph\<rparr>"

section \<open>The start of the service\<close>

definition discard_legacy :: "inc_row \<Rightarrow> inc_row" where
  "discard_legacy r =
     (if ir_status r \<notin> set terminal_statuses \<and> ir_version r \<noteq> strategy_version then set_status ''aborted'' ''aborted'' r else r)"

definition DiscardLegacyIncrementalJobs :: "inc_row list \<Rightarrow> inc_row list" where
  "DiscardLegacyIncrementalJobs = map discard_legacy"

definition pause_interrupted :: "inc_row \<Rightarrow> inc_row" where
  "pause_interrupted r =
     (if ir_status r \<in> set active_statuses \<and> ir_version r = strategy_version then set_status ''paused_restart'' ''paused'' r else r)"

definition PauseInterruptedIncrementalJobs :: "inc_row list \<Rightarrow> inc_row list" where
  "PauseInterruptedIncrementalJobs = map pause_interrupted"

definition restart_row :: "inc_row \<Rightarrow> inc_row" where
  "restart_row r = pause_interrupted (discard_legacy r)"

section \<open>New jobs\<close>

datatype create_error = ConnectionChanged | TargetInUse

definition incrementalTargetSchema :: "string \<Rightarrow> string \<Rightarrow> string" where
  "incrementalTargetSchema dbtype schema = (if dbtype = ''dameng'' then to_upper schema else schema)"

text \<open>Under the mutex; \<open>changed\<close> says whether a connection was edited since the preflight.\<close>

definition createIncrementalAfterPreflight ::
  "string \<Rightarrow> bool \<Rightarrow> inc_row \<Rightarrow> inc_row list \<Rightarrow> create_error + inc_row list" where
  "createIncrementalAfterPreflight dbtype changed j rows =
     (let j' = j\<lparr>ir_schema := incrementalTargetSchema dbtype (ir_schema j)\<rparr> in
      if changed then Inl ConnectionChanged
      else if HasOpenIncrementalTarget (ir_target j') (ir_schema j') rows then Inl TargetInUse
      else Inr (rows @ [j']))"

section \<open>Bootstrap records\<close>

text \<open>The row with the values of a confirmed record; a record without scope keeps the lists of the row.\<close>

definition completed_row :: "BootstrapRecord \<Rightarrow> inc_row \<Rightarrow> inc_row" where
  "completed_row rec r =
     (let legacy = (br_manifest_hash rec = [] \<and> br_effective rec = [] \<and> br_excluded rec = []);
          r1 = r\<lparr>ir_done := True, ir_bstate := ''completed'', ir_start := br_position rec, ir_checkpoint := br_position rec,
                ir_version := br_locator_version rec\<rparr>
      in if legacy then r1
         else r1\<lparr>ir_effective := length (br_effective rec), ir_excluded := length (br_excluded rec), ir_manifest := br_manifest_hash rec\<rparr>)"

text \<open>The writes to the local job and to the stored row; \<open>None\<close> when the record's version is another.\<close>

definition applyCompletedBootstrapRecord :: "BootstrapRecord \<Rightarrow> (inc_row \<Rightarrow> inc_row) option" where
  "applyCompletedBootstrapRecord rec = (if br_locator_version rec \<noteq> strategy_version then None else Some (completed_row rec))"

definition review_scope :: "BootstrapRecord \<Rightarrow> inc_row \<Rightarrow> inc_row" where
  "review_scope rec r =
     r\<lparr>ir_bstate := ''review_pending'', ir_effective := length (br_effective rec), ir_excluded := length (br_excluded rec),
       ir_manifest := br_manifest_hash rec\<rparr>"

definition paused_review :: "BootstrapRecord \<Rightarrow> inc_row \<Rightarrow> inc_row" where
  "paused_review rec r =
     set_status ''paused_bootstrap_review'' ''bootstrap_review'' (review_scope rec (r\<lparr>ir_version := br_locator_version rec\<rparr>))"

definition review_fields :: "BootstrapRecord \<Rightarrow> inc_row \<Rightarrow> inc_row" where
  "review_fields rec r = (review_scope rec r)\<lparr>ir_pending := br_position rec\<rparr>"

definition applyReviewBootstrapRecord :: "BootstrapRecord \<Rightarrow> ((inc_row \<Rightarrow> inc_row) \<times> (inc_row \<Rightarrow> inc_row)) option" where
  "applyReviewBootstrapRecord rec =
     (if br_locator_version rec \<noteq> strategy_version then None
      else Some (review_fields rec,
        \<lambda>r. (paused_review rec r)\<lparr>ir_pending := br_position rec\<rparr>))"

section \<open>Strict bootstraps\<close>

definition strictBootstrapFailure :: "load_report \<Rightarrow> string list \<Rightarrow> string option" where
  "strictBootstrapFailure rep expected =
     (let n = int (length expected); tabs = lr_tables rep; dat = lr_data rep in
      if cr_total tabs \<noteq> n \<or> cr_total dat \<noteq> n \<or> cr_failed tabs + cr_failed dat > 0 \<or>
         cr_success tabs \<noteq> cr_total tabs \<or> cr_success dat \<noteq> cr_total dat then Some ''incomplete''
      else if list_ex (\<lambda>r. \<not> rw_match r) (lr_rows rep) then Some ''rows''
      else if length (lr_rows rep) \<noteq> length expected then Some ''unchecked''
      else if cr_failed (lr_keys rep) + cr_failed (lr_indexes rep) + cr_failed (lr_constraints rep) + cr_failed (lr_sequences rep) > 0
      then Some ''objects''
      else None)"

section \<open>Properties\<close>

text \<open>After a start of the service no incremental job seems to be at work: every job waits for an operator or is closed,
  those of another locator strategy are closed for good, a closed job stays exactly as it was, and what a job knows of
  its snapshot, positions and boundary is untouched.\<close>

theorem incremental_restart_rests:
  assumes "list_all (\<lambda>r. ir_status r \<in> set (active_statuses @ attention_statuses @ terminal_statuses)) rows"
  shows "list_all2 (\<lambda>r r'.
      ir_status r' \<in> set (attention_statuses @ terminal_statuses) \<and>
      (ir_version r' = strategy_version \<or> ir_status r' \<in> set terminal_statuses) \<and>
      (ir_status r \<in> set terminal_statuses \<longrightarrow> r' = r) \<and>
      r' = r\<lparr>ir_status := ir_status r', ir_phase := ir_phase r'\<rparr>)
    rows (PauseInterruptedIncrementalJobs (DiscardLegacyIncrementalJobs rows))"
proof -
  have "ir_status (restart_row r) \<in> set (attention_statuses @ terminal_statuses) \<and>
      (ir_version (restart_row r) = strategy_version \<or> ir_status (restart_row r) \<in> set terminal_statuses) \<and>
      (ir_status r \<in> set terminal_statuses \<longrightarrow> restart_row r = r) \<and>
      restart_row r = r\<lparr>ir_status := ir_status (restart_row r), ir_phase := ir_phase (restart_row r)\<rparr>"
    if "ir_status r \<in> set (active_statuses @ attention_statuses @ terminal_statuses)" for r
    using that
    by (auto simp: restart_row_def pause_interrupted_def discard_legacy_def set_status_def active_statuses_def
        attention_statuses_def terminal_statuses_def)
  then show ?thesis
    using assms by (auto simp: PauseInterruptedIncrementalJobs_def DiscardLegacyIncrementalJobs_def list_all2_conv_all_nth list_all_length
        restart_row_def)
qed

definition demo_inc :: "string \<Rightarrow> int \<Rightarrow> inc_row" where
  "demo_inc st v = \<lparr>ir_job = ''j'', ir_target = 1, ir_schema = ''s'', ir_mode = full_mode, ir_status = st, ir_phase = st, ir_done = False,
     ir_bstate = ''pending'', ir_version = v, ir_manifest = [], ir_effective = 0, ir_excluded = 0, ir_skipped = 0,
     ir_start = zero_position, ir_pending = zero_position, ir_checkpoint = zero_position, ir_cutover = zero_position,
     ir_blocking = zero_position, ir_validation = []\<rparr>"

theorem incremental_restart_rests_witness:
  "map ir_status (PauseInterruptedIncrementalJobs (DiscardLegacyIncrementalJobs [demo_inc ''running'' 1, demo_inc ''paused_ddl'' 0])) =
     [''paused_restart'', ''aborted''] \<and>
   ir_status (hd (PauseInterruptedIncrementalJobs (DiscardLegacyIncrementalJobs [demo_inc ''running'' 1]))) \<in>
     set (attention_statuses @ terminal_statuses)"
proof
  show "map ir_status (PauseInterruptedIncrementalJobs (DiscardLegacyIncrementalJobs [demo_inc ''running'' 1, demo_inc ''paused_ddl'' 0])) =
     [''paused_restart'', ''aborted'']" by code_simp
  have "list_all (\<lambda>r. ir_status r \<in> set (active_statuses @ attention_statuses @ terminal_statuses)) [demo_inc ''running'' 1]"
    by code_simp
  from incremental_restart_rests [OF this]
  show "ir_status (hd (PauseInterruptedIncrementalJobs (DiscardLegacyIncrementalJobs [demo_inc ''running'' 1]))) \<in>
     set (attention_statuses @ terminal_statuses)"
    by (cases "PauseInterruptedIncrementalJobs (DiscardLegacyIncrementalJobs [demo_inc ''running'' 1])") auto
qed

end
