(* ===== verification/IncrementalLife.thy ===== *)
theory IncrementalLife
  imports IncrementalStore
begin

text \<open>
  The life of an incremental job (\<^verbatim>\<open>api/handler/incremental.go\<close>): the requests of operators, the goroutine of
  \<^verbatim>\<open>launchIncremental\<close> and a crash of the service, interleaved. A request reads the row once (\<open>j\<close>, any earlier
  value) and acts later; where it acts in several places, the rest of it is a \<open>worker\<close> of its own, like the
  goroutine. The mutex of the start requests is left out: what is proved holds without it. What the databases
  answer is chosen by the environment.
\<close>

section \<open>The world of a job\<close>

datatype run_end = EndOk | EndCutover | EndDdl | EndReview | EndConflict | EndCancelled | EndError

text \<open>The goroutine before its registration ends (up to \<open>Leaving\<close>) and after, and requests that are not finished.\<close>

datatype worker =
    Starting inc_row
  | Booting inc_row
  | Recorded inc_row
  | Loading inc_row
  | Streaming inc_row
  | Leaving inc_row run_end
  | Gone inc_row run_end string
  | Validating
  | LaunchPending inc_row
  | PausePending
  | AbortPending inc_row
  | PreparePending inc_row Position
  | CancelPending bool
  | CancelDone bool
  | ResumePending inc_row
  | AcceptPending inc_row

text \<open>\<open>is_loads\<close> counts the full loads that were started.\<close>

record inc_shared =
  is_row :: inc_row
  is_reg :: registry
  is_record :: "BootstrapRecord option"
  is_loads :: nat

definition on_row :: "(inc_row \<Rightarrow> inc_row) \<Rightarrow> inc_shared \<Rightarrow> inc_shared" where
  "on_row f sh = sh\<lparr>is_row := f (is_row sh)\<rparr>"

definition swap_status :: "string list \<Rightarrow> (inc_row \<Rightarrow> inc_row) \<Rightarrow> inc_shared \<Rightarrow> bool \<times> inc_shared" where
  "swap_status statuses f sh =
     (case UpdateIncrementalJobIfStatus statuses f (is_row sh) of (ok, r) \<Rightarrow> (ok, sh\<lparr>is_row := r\<rparr>))"

definition cutover_set :: "inc_row \<Rightarrow> bool" where
  "cutover_set r \<longleftrightarrow> File (ir_cutover r) \<noteq> [] \<or> GTID (ir_cutover r) \<noteq> []"

definition launchIncremental :: "inc_row \<Rightarrow> inc_shared \<Rightarrow> inc_shared \<times> worker list" where
  "launchIncremental j sh =
     (case Register (is_reg sh) (ir_job j) of
        (False, _) \<Rightarrow> (sh, [])
      | (True, reg) \<Rightarrow>
          (sh\<lparr>is_reg := (if cutover_set j then snd (RequestCutover reg (ir_job j) (ir_cutover j)) else reg)\<rparr>, [Starting j]))"

definition without_cutover :: "inc_row \<Rightarrow> inc_row" where
  "without_cutover r = r\<lparr>ir_cutover := zero_position, ir_validation := []\<rparr>"

definition abort_record :: "bool \<Rightarrow> BootstrapRecord option \<Rightarrow> BootstrapRecord option" where
  "abort_record ok rec =
     (if ok then map_option (\<lambda>r. if br_state r = ''completed'' then r else r\<lparr>br_state := ''aborted''\<rparr>) rec else rec)"

definition unfinished_load :: "inc_row \<Rightarrow> bool" where
  "unfinished_load j \<longleftrightarrow> ir_mode j = full_mode \<and> \<not> ir_done j"

section \<open>Requests\<close>

definition PauseIncremental :: "inc_row \<Rightarrow> inc_shared \<Rightarrow> inc_shared \<times> worker list" where
  "PauseIncremental j sh =
     (if unfinished_load j then (sh, [])
      else
        (case Cancel (is_reg sh) (ir_job j) ''pause'' of
           (False, _) \<Rightarrow> (sh, [])
         | (True, reg) \<Rightarrow> (sh\<lparr>is_reg := reg\<rparr>, [PausePending])))"

definition pause_rest :: "inc_shared \<Rightarrow> inc_shared" where
  "pause_rest = on_row (set_status ''pausing'' ''pausing'')"

definition AbortIncremental :: "inc_row \<Rightarrow> inc_shared \<Rightarrow> inc_shared \<times> worker list" where
  "AbortIncremental j sh =
     (if ir_status j \<in> set (''validating'' # terminal_statuses) then (sh, [])
      else if Running (is_reg sh) (ir_job j) then (sh\<lparr>is_reg := snd (Cancel (is_reg sh) (ir_job j) ''abort'')\<rparr>, [])
      else (sh, [AbortPending j]))"

definition aborted_row :: "inc_row \<Rightarrow> inc_row" where
  "aborted_row r = (set_status ''aborted'' ''aborted'' r)\<lparr>ir_bstate := ''aborted''\<rparr>"

definition abort_rest :: "bool \<Rightarrow> inc_row \<Rightarrow> inc_shared \<Rightarrow> inc_shared" where
  "abort_rest ok j sh =
     (let sh1 = (if ir_done j then sh else sh\<lparr>is_record := abort_record ok (is_record sh)\<rparr>)
      in snd (swap_status [ir_status j] aborted_row sh1))"

text \<open>\<open>boundary\<close> is the position of the source at the request.\<close>

definition PrepareIncrementalCutover :: "inc_row \<Rightarrow> Position \<Rightarrow> inc_shared \<Rightarrow> inc_shared \<times> worker list" where
  "PrepareIncrementalCutover j boundary sh =
     (if ir_status j \<notin> set [''running'', ''catching_up''] \<or> \<not> Running (is_reg sh) (ir_job j) then (sh, [])
      else
        (case swap_status [''running'', ''catching_up'']
                (\<lambda>r. (set_status ''cutting_over'' ''cutting_over'' r)\<lparr>ir_cutover := boundary, ir_validation := ''pending''\<rparr>) sh of
           (False, _) \<Rightarrow> (sh, [])
         | (True, sh1) \<Rightarrow> (sh1, [PreparePending j boundary])))"

definition prepare_rest :: "inc_row \<Rightarrow> Position \<Rightarrow> inc_shared \<Rightarrow> inc_shared" where
  "prepare_rest j boundary sh =
     (case RequestCutover (is_reg sh) (ir_job j) boundary of
        (True, reg) \<Rightarrow> sh\<lparr>is_reg := reg\<rparr>
      | (False, _) \<Rightarrow>
          (case swap_status [''cutting_over''] (\<lambda>r. set_status (ir_status j) (ir_phase j) (without_cutover r)) sh of
             (True, sh1) \<Rightarrow> sh1
           | (False, _) \<Rightarrow> on_row without_cutover sh))"

record stop_request =
  sr_warnings :: bool
  sr_exclusions :: bool
  sr_checkpoint :: "Position option"
  sr_head :: Position

text \<open>The last two fields are what the target and the source answer.\<close>

definition stop_allowed :: "'g gtid_lib \<Rightarrow> inc_row \<Rightarrow> stop_request \<Rightarrow> bool" where
  "stop_allowed lib j req \<longleftrightarrow>
     ir_status j \<in> set [''ready_to_cutover'', ''ready_with_warnings''] \<and>
     (ir_status j = ''ready_with_warnings'' \<longrightarrow> sr_warnings req) \<and>
     (0 < ir_excluded j \<longrightarrow> sr_exclusions req) \<and>
     (case sr_checkpoint req of None \<Rightarrow> False | Some p \<Rightarrow> PositionReached lib p (ir_cutover j)) \<and>
     PositionEquivalent lib (sr_head req) (ir_cutover j)"

definition StopIncremental :: "'g gtid_lib \<Rightarrow> inc_row \<Rightarrow> stop_request \<Rightarrow> inc_shared \<Rightarrow> inc_shared" where
  "StopIncremental lib j req sh =
     (if stop_allowed lib j req then snd (swap_status [ir_status j] (set_status ''stopped'' ''completed'') sh) else sh)"

definition cutover_statuses :: "string list" where
  "cutover_statuses = [''cutting_over'', ''ready_to_cutover'', ''ready_with_warnings'', ''cutover_blocked'']"

definition CancelIncrementalCutover :: "inc_row \<Rightarrow> inc_shared \<Rightarrow> inc_shared \<times> worker list" where
  "CancelIncrementalCutover j sh =
     (if ir_status j \<in> set cutover_statuses then (sh, [CancelPending (Running (is_reg sh) (ir_job j))]) else (sh, []))"

definition cancel_rest :: "bool \<Rightarrow> inc_shared \<Rightarrow> inc_shared \<times> worker list" where
  "cancel_rest was_running sh =
     (case swap_status cutover_statuses (\<lambda>r. set_status ''running'' ''running'' (without_cutover r)) sh of
        (False, _) \<Rightarrow> (sh, [])
      | (True, sh1) \<Rightarrow> (sh1, [CancelDone was_running]))"

definition cancel_done :: "bool \<Rightarrow> inc_shared \<Rightarrow> inc_shared \<times> worker list" where
  "cancel_done was_running sh =
     (if was_running then (sh\<lparr>is_reg := snd (ClearCutover (is_reg sh) (ir_job (is_row sh)))\<rparr>, [])
      else if ir_status (is_row sh) = ''running'' then launchIncremental (is_row sh) sh
      else (sh, []))"

definition resume_statuses :: "string list" where
  "resume_statuses = [''paused_manual'', ''paused_restart'', ''failed'', ''paused_row_conflict'']"

definition ResumeIncremental :: "inc_row \<Rightarrow> inc_shared \<Rightarrow> inc_shared \<times> worker list" where
  "ResumeIncremental j sh =
     (if Running (is_reg sh) (ir_job j) \<or> ir_version j \<noteq> strategy_version \<or> ir_status j \<notin> set resume_statuses then (sh, [])
      else if \<not> unfinished_load j then (sh, [ResumePending j])
      else
        (case is_record sh of
           None \<Rightarrow> (sh, [])
         | Some rec \<Rightarrow>
             if br_state rec = ''review_pending'' then
               (case applyReviewBootstrapRecord rec of None \<Rightarrow> (sh, []) | Some (f, g) \<Rightarrow> (on_row g sh, []))
             else if br_state rec \<noteq> ''completed'' then (sh, [])
             else (case applyCompletedBootstrapRecord rec of None \<Rightarrow> (sh, []) | Some f \<Rightarrow> (on_row f sh, [ResumePending (f j)]))))"

definition resume_rest :: "inc_row \<Rightarrow> inc_shared \<Rightarrow> inc_shared \<times> worker list" where
  "resume_rest j sh =
     (case swap_status resume_statuses (set_status ''initializing'' ''initializing'') sh of
        (False, _) \<Rightarrow> (sh, [])
      | (True, sh1) \<Rightarrow> (sh1, [LaunchPending (j\<lparr>ir_status := ''initializing''\<rparr>)]))"

text \<open>\<open>hash\<close> is the manifest the operator confirms; the position must be available, and \<open>done\<close> is whether the target
  confirmed the record.\<close>

definition AcceptIncrementalBootstrapExclusions :: "inc_row \<Rightarrow> string \<Rightarrow> bool \<Rightarrow> bool \<Rightarrow> inc_shared \<Rightarrow> inc_shared \<times> worker list" where
  "AcceptIncrementalBootstrapExclusions j hash available confirmed sh =
     (if ir_status j \<noteq> ''paused_bootstrap_review'' \<and> ir_bstate j \<noteq> ''completed'' then (sh, [])
      else
        (case is_record sh of
           None \<Rightarrow> (sh, [])
         | Some rec \<Rightarrow>
             if br_state rec \<notin> set [''review_pending'', ''completed''] then (sh, [])
             else if hash \<noteq> br_manifest_hash rec \<or> hash \<noteq> ir_manifest j then (sh, [])
             else if br_state rec = ''completed'' \<and> ir_done j \<and> ir_status j \<noteq> ''paused_bootstrap_review'' then (sh, [])
             else if \<not> available \<or> (br_state rec = ''review_pending'' \<and> \<not> confirmed) then (sh, [])
             else
               (let rec1 = rec\<lparr>br_state := ''completed''\<rparr>; sh1 = sh\<lparr>is_record := Some rec1\<rparr> in
                case applyCompletedBootstrapRecord rec1 of
                  None \<Rightarrow> (sh1, [])
                | Some f \<Rightarrow>
                    (on_row (\<lambda>r. set_status ''catching_up'' ''catching_up'' (f r)) sh1,
                     [AcceptPending (set_status ''catching_up'' ''catching_up'' (f j))]))))"

definition accept_rest :: "inc_row \<Rightarrow> inc_shared \<Rightarrow> inc_shared \<times> worker list" where
  "accept_rest j sh = (if Running (is_reg sh) (ir_job j) then (sh, []) else launchIncremental j sh)"

text \<open>\<open>acked\<close>: the target's checkpoint was moved past the statement.\<close>

definition AckIncrementalDDL :: "inc_row \<Rightarrow> bool \<Rightarrow> inc_shared \<Rightarrow> inc_shared \<times> worker list" where
  "AckIncrementalDDL j acked sh =
     (if ir_status j \<noteq> ''paused_ddl'' \<or> \<not> acked then (sh, [])
      else
        (case swap_status [''paused_ddl'']
                (\<lambda>r. r\<lparr>ir_blocking := zero_position, ir_checkpoint := ir_blocking j, ir_status := ''initializing''\<rparr>) sh of
           (False, _) \<Rightarrow> (sh, [])
         | (True, sh1) \<Rightarrow> (sh1, [LaunchPending (j\<lparr>ir_checkpoint := ir_blocking j\<rparr>)])))"

section \<open>The goroutine\<close>

definition context_cancelled :: "inc_row \<Rightarrow> inc_shared \<Rightarrow> bool" where
  "context_cancelled j sh \<longleftrightarrow> (case is_reg sh (ir_job j) of None \<Rightarrow> False | Some c \<Rightarrow> ctl_cancelled c)"

text \<open>With the load settled, the binlog is read unless the context has ended.\<close>

definition go_on :: "inc_row \<Rightarrow> inc_shared \<Rightarrow> worker" where
  "go_on j sh = (if context_cancelled j sh then Leaving j EndOk else Streaming j)"

text \<open>What a record found at the start means; without one a full load begins.\<close>

definition start_job :: "inc_row \<Rightarrow> inc_shared \<Rightarrow> inc_shared \<times> worker" where
  "start_job j sh =
     (if \<not> unfinished_load j then (sh, go_on j sh)
      else
        (case is_record sh of
           None \<Rightarrow> (sh, Booting j)
         | Some rec \<Rightarrow>
             if br_state rec = ''completed'' then
               (case applyCompletedBootstrapRecord rec of None \<Rightarrow> (sh, Leaving j EndError) | Some f \<Rightarrow> (on_row f sh, go_on (f j) sh))
             else if br_state rec = ''review_pending'' then
               (case applyReviewBootstrapRecord rec of
                  None \<Rightarrow> (sh, Leaving j EndError)
                | Some (f, g) \<Rightarrow> (on_row g sh, Leaving (f j) EndReview))
             else (sh, Leaving j EndError)))"

definition finishIncrementalCutover :: "inc_shared \<Rightarrow> inc_shared \<times> worker list" where
  "finishIncrementalCutover sh =
     (case swap_status [''cutting_over''] (\<lambda>r. (set_status ''validating'' ''validating'' r)\<lparr>ir_validation := ''running''\<rparr>) sh of
        (True, sh1) \<Rightarrow> (sh1, [Validating])
      | (False, _) \<Rightarrow>
          if ir_status (is_row sh) = ''running'' \<and> \<not> Running (is_reg sh) (ir_job (is_row sh)) then launchIncremental (is_row sh) sh
          else (sh, []))"

definition blocked_row :: "string \<Rightarrow> inc_row \<Rightarrow> inc_row" where
  "blocked_row v r = (set_status ''cutover_blocked'' ''validation_failed'' r)\<lparr>ir_validation := v\<rparr>"

definition ready_row :: "inc_row \<Rightarrow> inc_row" where
  "ready_row r =
     (set_status (if 0 < ir_skipped r \<or> 0 < ir_excluded r then ''ready_with_warnings'' else ''ready_to_cutover'') ''ready'' r)
       \<lparr>ir_validation := ''passed''\<rparr>"

text \<open>After the registration was given back, by the end of the run and the decided action.\<close>

definition leave :: "inc_row \<Rightarrow> run_end \<Rightarrow> string \<Rightarrow> bool \<Rightarrow> inc_shared \<Rightarrow> inc_shared \<times> worker list" where
  "leave j e action ok sh =
     (if e = EndCutover then
        (if \<not> cutover_set (is_row sh) then launchIncremental (is_row sh) sh else finishIncrementalCutover sh)
      else if e \<in> set [EndDdl, EndReview, EndConflict] then (sh, [])
      else if action = ''pause'' then (on_row (set_status ''paused_manual'' ''paused'') sh, [])
      else if action = ''stop'' then (on_row (set_status ''stopped'' ''stopped'') sh, [])
      else if action = ''abort'' then
        (on_row aborted_row (if ir_done j then sh else sh\<lparr>is_record := abort_record ok (is_record sh)\<rparr>), [])
      else if e = EndError then (on_row (set_status ''failed'' ''failed'') sh, [])
      else (sh, []))"

definition hook_statuses :: "string list" where
  "hook_statuses = [''initializing'', ''catching_up'', ''running'', ''reconnecting'', ''cutting_over'']"

text \<open>A record that exists is changed, never removed (\<^verbatim>\<open>SaveTargetBootstrapRecord\<close>, \<^verbatim>\<open>FinalizeTargetBootstrap\<close>,
  \<^verbatim>\<open>AbortTargetBootstrap\<close>).\<close>

inductive worker_step :: "inc_shared \<Rightarrow> worker \<Rightarrow> inc_shared \<Rightarrow> worker list \<Rightarrow> bool" where
  StartFails: "unfinished_load j \<Longrightarrow> e \<in> set [EndError, EndCancelled] \<Longrightarrow> worker_step sh (Starting j) sh [Leaving j e]"
| Start: "start_job j sh = (sh', w) \<Longrightarrow> worker_step sh (Starting j) sh' [w]"
| BootFails: "e \<in> set [EndError, EndCancelled] \<Longrightarrow>
    worker_step sh (Booting j) (on_row (set_status ''snapshot'' ''snapshot'') sh) [Leaving j e]"
| SaveFails: "is_record sh \<noteq> None \<longrightarrow> rec \<noteq> None \<Longrightarrow>
    worker_step sh (Booting j) (on_row (set_status ''snapshot'' ''snapshot'') (sh\<lparr>is_record := rec\<rparr>)) [Leaving j EndError]"
| Boot: "br_state rec = ''snapshot_in_progress'' \<Longrightarrow>
    worker_step sh (Booting j)
      (on_row (\<lambda>r. (set_status ''snapshot'' ''snapshot'' r)\<lparr>ir_bstate := br_state rec, ir_pending := br_position rec\<rparr>) (sh\<lparr>is_record := Some rec\<rparr>))
      [Recorded (j\<lparr>ir_bstate := br_state rec, ir_pending := br_position rec\<rparr>)]"
| LoadFails: "e \<in> set [EndError, EndCancelled] \<Longrightarrow> worker_step sh (Recorded j) sh [Leaving j e]"
| Load: "worker_step sh (Recorded j) (sh\<lparr>is_loads := is_loads sh + 1\<rparr>) [Loading j]"
| Broken: "e \<in> set [EndError, EndCancelled] \<Longrightarrow> st = ir_bstate (is_row sh) \<or> st = ''aborted'' \<Longrightarrow> is_record sh \<noteq> None \<longrightarrow> rec \<noteq> None \<Longrightarrow>
    worker_step sh (Loading j) (on_row (\<lambda>r. r\<lparr>ir_bstate := st\<rparr>) (sh\<lparr>is_record := rec\<rparr>)) [Leaving j e]"
| Review: "br_state rec = ''review_pending'' \<Longrightarrow>
    worker_step sh (Loading j) (on_row (paused_review rec) (sh\<lparr>is_record := Some rec\<rparr>)) [Leaving (review_scope rec j) EndReview]"
| Loaded: "br_state rec = ''completed'' \<Longrightarrow> applyCompletedBootstrapRecord rec = Some f \<Longrightarrow>
    worker_step sh (Loading j) (on_row (\<lambda>r. set_status ''catching_up'' ''catching_up'' (f r)) (sh\<lparr>is_record := Some rec\<rparr>)) [go_on (f j) sh]"
| Hook: "st \<in> set hook_statuses \<Longrightarrow> worker_step sh (Streaming j) (on_row (set_status st ph) sh) [Streaming j]"
| Statistics: "worker_step sh (Streaming j) (on_row (\<lambda>r. r\<lparr>ir_checkpoint := p, ir_skipped := n\<rparr>) sh) [Streaming j]"
| Ddl: "worker_step sh (Streaming j) (on_row (\<lambda>r. (set_status ''paused_ddl'' ''paused'' r)\<lparr>ir_blocking := p\<rparr>) sh) [Leaving j EndDdl]"
| Conflict: "worker_step sh (Streaming j) (on_row (set_status ''paused_row_conflict'' ''paused'') sh) [Leaving j EndConflict]"
| Ends: "e \<in> set [EndOk, EndCutover, EndCancelled, EndError] \<Longrightarrow> worker_step sh (Streaming j) sh [Leaving j e]"
| Release: "Remove (is_reg sh) (ir_job j) = (a, reg) \<Longrightarrow> worker_step sh (Leaving j e) (sh\<lparr>is_reg := reg\<rparr>) [Gone j e a]"
| Leave: "leave j e a ok sh = (sh', ws) \<Longrightarrow> worker_step sh (Gone j e a) sh' ws"
| Invalid: "v \<in> set [''failed'', ''mismatch''] \<Longrightarrow> worker_step sh Validating (on_row (blocked_row v) sh) []"
| Valid: "worker_step sh Validating (on_row ready_row sh) []"
| Launch: "launchIncremental j sh = (sh', ws) \<Longrightarrow> worker_step sh (LaunchPending j) sh' ws"
| PauseRest: "worker_step sh PausePending (pause_rest sh) []"
| AbortRest: "worker_step sh (AbortPending j) (abort_rest ok j sh) []"
| PrepareRest: "worker_step sh (PreparePending j p) (prepare_rest j p sh) []"
| CancelRest: "cancel_rest b sh = (sh', ws) \<Longrightarrow> worker_step sh (CancelPending b) sh' ws"
| CancelEnd: "cancel_done b sh = (sh', ws) \<Longrightarrow> worker_step sh (CancelDone b) sh' ws"
| ResumeRest: "resume_rest j sh = (sh', ws) \<Longrightarrow> worker_step sh (ResumePending j) sh' ws"
| AcceptRest: "accept_rest j sh = (sh', ws) \<Longrightarrow> worker_step sh (AcceptPending j) sh' ws"

section \<open>All together\<close>

datatype inc_request =
    AskPause
  | AskAbort
  | AskPrepare Position
  | AskStop stop_request
  | AskCancel
  | AskResume
  | AskAccept string bool bool
  | AskAck bool

fun serve :: "'g gtid_lib \<Rightarrow> inc_row \<Rightarrow> inc_request \<Rightarrow> inc_shared \<Rightarrow> inc_shared \<times> worker list" where
  "serve lib j AskPause sh = PauseIncremental j sh"
| "serve lib j AskAbort sh = AbortIncremental j sh"
| "serve lib j (AskPrepare p) sh = PrepareIncrementalCutover j p sh"
| "serve lib j (AskStop req) sh = (StopIncremental lib j req sh, [])"
| "serve lib j AskCancel sh = CancelIncrementalCutover j sh"
| "serve lib j AskResume sh = ResumeIncremental j sh"
| "serve lib j (AskAccept h a c) sh = AcceptIncrementalBootstrapExclusions j h a c sh"
| "serve lib j (AskAck a) sh = AckIncrementalDDL j a sh"

inductive inc_step :: "'g gtid_lib \<Rightarrow> inc_shared \<times> worker list \<Rightarrow> inc_shared \<times> worker list \<Rightarrow> bool" for lib where
  Work: "worker_step sh w sh' ws \<Longrightarrow> inc_step lib (sh, xs @ w # ys) (sh', xs @ ws @ ys)"
| Ask: "ir_job j = ir_job (is_row sh) \<Longrightarrow> serve lib j q sh = (sh', new) \<Longrightarrow> inc_step lib (sh, ws) (sh', ws @ new)"
| Others: "reg (ir_job (is_row sh)) = is_reg sh (ir_job (is_row sh)) \<Longrightarrow> inc_step lib (sh, ws) (sh\<lparr>is_reg := reg\<rparr>, ws)"
| Crash: "inc_step lib (sh, ws) (sh\<lparr>is_row := restart_row (is_row sh), is_reg := Map.empty\<rparr>, [])"

text \<open>A job as \<^verbatim>\<open>StartIncremental\<close> creates it, about to be launched.\<close>

definition new_job :: "inc_row \<Rightarrow> inc_shared \<times> worker list" where
  "new_job r = (\<lparr>is_row = r, is_reg = Map.empty, is_record = None, is_loads = 0\<rparr>, [LaunchPending r])"

section \<open>The invariant\<close>

fun in_run :: "worker \<Rightarrow> bool" where
  "in_run (Starting j) = True"
| "in_run (Booting j) = True"
| "in_run (Recorded j) = True"
| "in_run (Loading j) = True"
| "in_run (Streaming j) = True"
| "in_run (Leaving j e) = True"
| "in_run _ = False"

fun boots :: "worker \<Rightarrow> bool" where
  "boots (Booting j) = True"
| "boots (Recorded j) = True"
| "boots _ = False"

text \<open>What a worker of a job may carry: rows of this job, the statuses it read, no action that nobody asks for.\<close>

fun carries :: "string \<Rightarrow> worker \<Rightarrow> bool" where
  "carries jid (Gone j e a) \<longleftrightarrow> ir_job j = jid \<and> a \<noteq> ''stop''"
| "carries jid (PreparePending j p) \<longleftrightarrow> ir_job j = jid \<and> ir_status j \<in> set [''running'', ''catching_up'']"
| "carries jid (Starting j) \<longleftrightarrow> ir_job j = jid"
| "carries jid (Booting j) \<longleftrightarrow> ir_job j = jid"
| "carries jid (Recorded j) \<longleftrightarrow> ir_job j = jid"
| "carries jid (Loading j) \<longleftrightarrow> ir_job j = jid"
| "carries jid (Streaming j) \<longleftrightarrow> ir_job j = jid"
| "carries jid (Leaving j e) \<longleftrightarrow> ir_job j = jid"
| "carries jid (LaunchPending j) \<longleftrightarrow> ir_job j = jid"
| "carries jid (AbortPending j) \<longleftrightarrow> ir_job j = jid"
| "carries jid (ResumePending j) \<longleftrightarrow> ir_job j = jid"
| "carries jid (AcceptPending j) \<longleftrightarrow> ir_job j = jid"
| "carries jid _ \<longleftrightarrow> True"

definition occupied :: "inc_shared \<Rightarrow> nat" where
  "occupied sh = (if is_reg sh (ir_job (is_row sh)) = None then 0 else 1)"

definition no_stop :: "inc_shared \<Rightarrow> bool" where
  "no_stop sh \<longleftrightarrow> stop_action (ir_job (is_row sh)) (is_reg sh) \<noteq> Some ''stop''"

text \<open>One access to the world, seen from the others: \<open>old\<close> is the worker it belongs to, if any, \<open>new\<close> what follows.\<close>

definition fair_access :: "inc_shared \<Rightarrow> worker list \<Rightarrow> inc_shared \<Rightarrow> worker list \<Rightarrow> bool" where
  "fair_access sh old sh' new \<longleftrightarrow>
     ir_job (is_row sh') = ir_job (is_row sh) \<and> list_all (carries (ir_job (is_row sh))) new \<and> no_stop sh' \<and>
     length (filter in_run new) + occupied sh = length (filter in_run old) + occupied sh' \<and>
     (is_record sh \<noteq> None \<longrightarrow> is_record sh' \<noteq> None) \<and>
     (is_loads sh' = is_loads sh \<or> (is_loads sh' = is_loads sh + 1 \<and> (\<exists>j. old = [Recorded j]) \<and> \<not> list_ex boots new)) \<and>
     (list_ex boots new \<longrightarrow> list_ex boots old \<or> is_record sh = None) \<and>
     ((\<exists>j. Recorded j \<in> set new) \<longrightarrow> is_record sh' \<noteq> None)"

definition inc_ok :: "inc_shared \<times> worker list \<Rightarrow> bool" where
  "inc_ok s \<longleftrightarrow> (case s of (sh, ws) \<Rightarrow>
     list_all (carries (ir_job (is_row sh))) ws \<and> no_stop sh \<and> length (filter in_run ws) = occupied sh \<and>
     is_loads sh \<le> 1 \<and> (is_loads sh = 1 \<longrightarrow> is_record sh \<noteq> None \<and> \<not> list_ex boots ws) \<and>
     ((\<exists>j. Recorded j \<in> set ws) \<longrightarrow> is_record sh \<noteq> None))"

lemma boots_in_run: "boots w \<Longrightarrow> in_run w"
  by (cases w) simp_all

lemma occupied_le: "occupied sh \<le> 1"
  by (simp add: occupied_def)

lemma fair_access_ok:
  assumes "inc_ok (sh, xs @ old @ ys)" "fair_access sh old sh' new"
  shows "inc_ok (sh', xs @ new @ ys)"
proof -
  note ok = assms(1) [unfolded inc_ok_def prod.case] and fair = assms(2) [unfolded fair_access_def]
  have count: "length (filter in_run (xs @ new @ ys)) = occupied sh'" using ok fair by simp
  have loads: "is_loads sh' \<le> 1 \<and> (is_loads sh' = 1 \<longrightarrow> is_record sh' \<noteq> None \<and> \<not> list_ex boots (xs @ new @ ys))"
  proof (cases "is_loads sh' = is_loads sh")
    case True
    then show ?thesis using ok fair by auto
  next
    case False
    then obtain j where j: "is_loads sh' = is_loads sh + 1" "old = [Recorded j]" "\<not> list_ex boots new" using fair by auto
    then have z: "is_loads sh = 0" "is_record sh \<noteq> None" using ok by auto
    have "length (filter in_run xs) + length (filter in_run ys) + 1 \<le> 1"
      using ok occupied_le [of sh] by (simp add: j(2))
    then have "filter in_run xs = []" "filter in_run ys = []" by simp_all
    then have "\<not> list_ex boots xs \<and> \<not> list_ex boots ys" using boots_in_run by (auto simp: filter_empty_conv list_ex_iff)
    then show ?thesis using j z fair by auto
  qed
  show ?thesis unfolding inc_ok_def prod.case using ok fair count loads by auto
qed

section \<open>Every access is fair\<close>

lemma row_job [simp]:
  "ir_job (set_status st ph r) = ir_job r" "ir_job (without_cutover r) = ir_job r" "ir_job (aborted_row r) = ir_job r"
  "ir_job (blocked_row v r) = ir_job r" "ir_job (ready_row r) = ir_job r" "ir_job (completed_row rec r) = ir_job r"
  "ir_job (review_fields rec r) = ir_job r" "ir_job (review_scope rec r) = ir_job r" "ir_job (paused_review rec r) = ir_job r" "ir_job (restart_row r) = ir_job r"
  by (simp_all add: set_status_def without_cutover_def aborted_row_def blocked_row_def ready_row_def completed_row_def review_fields_def review_scope_def paused_review_def
      restart_row_def pause_interrupted_def discard_legacy_def Let_def)

lemma on_row_simps [simp]:
  "is_row (on_row f sh) = f (is_row sh)" "is_reg (on_row f sh) = is_reg sh" "is_record (on_row f sh) = is_record sh"
  "is_loads (on_row f sh) = is_loads sh"
  by (simp_all add: on_row_def)

lemma fair_row:
  assumes "ir_job (is_row sh') = ir_job (is_row sh)" "is_reg sh' = is_reg sh" "is_record sh \<noteq> None \<longrightarrow> is_record sh' \<noteq> None"
    "is_loads sh' = is_loads sh" "no_stop sh" "length (filter in_run new) = length (filter in_run old)"
    "list_all (carries (ir_job (is_row sh))) new" "list_ex boots new \<longrightarrow> list_ex boots old \<or> is_record sh = None"
    "(\<exists>j. Recorded j \<in> set new) \<longrightarrow> is_record sh' \<noteq> None"
  shows "fair_access sh old sh' new"
  using assms by (simp add: fair_access_def no_stop_def occupied_def)

text \<open>An access that only changes the row, its record or what is left to do.\<close>

lemma swap_status_frame:
  assumes "swap_status sts f sh = (b, sh')" "\<And>r. ir_job (f r) = ir_job r"
  shows "ir_job (is_row sh') = ir_job (is_row sh)" "is_reg sh' = is_reg sh" "is_record sh' = is_record sh" "is_loads sh' = is_loads sh"
  using assms by (auto simp: swap_status_def UpdateIncrementalJobIfStatus_def split: if_splits)

lemma fair_idle:
  assumes "fair_access sh [] sh' new" "\<not> in_run w"
  shows "fair_access sh [w] sh' new"
  using assms by (auto simp: fair_access_def)

lemma fair_trans_row:
  assumes "fair_access sh1 [] sh' new" "ir_job (is_row sh1) = ir_job (is_row sh)" "is_reg sh1 = is_reg sh" "is_record sh1 = is_record sh"
    "is_loads sh1 = is_loads sh"
  shows "fair_access sh [] sh' new"
  using assms by (simp add: fair_access_def occupied_def)

lemma fair_refl: "no_stop sh \<Longrightarrow> fair_access sh [] sh []"
  by (rule fair_row) simp_all

lemma launch_fair:
  assumes "launchIncremental j sh = (sh', new)" "ir_job j = ir_job (is_row sh)" "no_stop sh"
  shows "fair_access sh [] sh' new"
  using assms
  by (auto simp: launchIncremental_def fair_access_def occupied_def no_stop_def stop_action_def registry_defs split: option.splits if_splits)

lemma serve_fair:
  assumes "serve lib j q sh = (sh', new)" "ir_job j = ir_job (is_row sh)" "no_stop sh"
  shows "fair_access sh [] sh' new"
proof (cases q)
  case AskPause
  then show ?thesis using assms
    by (auto simp: PauseIncremental_def fair_access_def occupied_def no_stop_def stop_action_def registry_defs split: option.splits if_splits)
next
  case AskAbort
  then show ?thesis using assms
    by (auto simp: AbortIncremental_def fair_access_def occupied_def no_stop_def stop_action_def registry_defs split: option.splits if_splits)
next
  case (AskPrepare p)
  then show ?thesis using assms
    by (auto simp: PrepareIncrementalCutover_def intro!: fair_row dest: swap_status_frame split: if_splits prod.splits bool.splits)
next
  case (AskStop req)
  then show ?thesis using assms
    by (auto simp: StopIncremental_def swap_status_def UpdateIncrementalJobIfStatus_def intro!: fair_row)
next
  case AskCancel
  then show ?thesis using assms by (auto simp: CancelIncrementalCutover_def intro!: fair_row split: if_splits)
next
  case AskResume
  then show ?thesis using assms
    by (auto simp: ResumeIncremental_def applyReviewBootstrapRecord_def applyCompletedBootstrapRecord_def intro!: fair_row
        split: if_splits option.splits)
next
  case (AskAccept h a c)
  then show ?thesis using assms
    by (auto simp: AcceptIncrementalBootstrapExclusions_def applyCompletedBootstrapRecord_def Let_def intro!: fair_row
        split: if_splits option.splits)
next
  case (AskAck a)
  then show ?thesis using assms
    by (auto simp: AckIncrementalDDL_def intro!: fair_row dest: swap_status_frame split: if_splits prod.splits bool.splits)
qed

lemma prepare_rest_fair:
  assumes "ir_job j = ir_job (is_row sh)" "no_stop sh"
  shows "fair_access sh [] (prepare_rest j p sh) []"
proof (cases "RequestCutover (is_reg sh) (ir_job j) p")
  case (Pair b reg)
  show ?thesis
  proof (cases b)
    case True
    then show ?thesis using Pair assms
      by (auto simp: prepare_rest_def fair_access_def occupied_def no_stop_def stop_action_def registry_defs split: option.splits if_splits)
  next
    case False
    then show ?thesis using Pair assms(2)
      by (auto simp: prepare_rest_def intro!: fair_row dest: swap_status_frame split: prod.splits bool.splits)
  qed
qed

lemma cancel_done_fair:
  assumes "cancel_done b sh = (sh', new)" "no_stop sh"
  shows "fair_access sh [] sh' new"
proof (cases b)
  case True
  then show ?thesis using assms
    by (auto simp: cancel_done_def fair_access_def occupied_def no_stop_def stop_action_def registry_defs split: option.splits if_splits)
next
  case False
  then show ?thesis using assms launch_fair [of "is_row sh" sh sh' new] by (auto simp: cancel_done_def intro: fair_refl split: if_splits)
qed

lemma finish_fair:
  assumes "finishIncrementalCutover sh = (sh', new)" "no_stop sh"
  shows "fair_access sh [] sh' new"
proof (cases "ir_status (is_row sh) = ''cutting_over''")
  case True
  then show ?thesis using assms
    by (auto simp: finishIncrementalCutover_def swap_status_def UpdateIncrementalJobIfStatus_def intro!: fair_row)
next
  case False
  then have "(sh', new) = (sh, []) \<or> launchIncremental (is_row sh) sh = (sh', new)"
    using assms(1) by (auto simp: finishIncrementalCutover_def swap_status_def UpdateIncrementalJobIfStatus_def split: if_splits)
  then show ?thesis using launch_fair [of "is_row sh" sh sh' new] assms(2) by (auto intro: fair_refl)
qed

lemma leave_fair:
  assumes "leave j e a ok sh = (sh', new)" "no_stop sh"
  shows "fair_access sh [] sh' new"
proof (cases "e = EndCutover")
  case True
  then show ?thesis using assms launch_fair [of "is_row sh" sh sh' new] finish_fair [of sh sh' new]
    by (auto simp: leave_def split: if_splits)
next
  case False
  then show ?thesis using assms
    by (auto simp: leave_def abort_record_def intro!: fair_row split: if_splits)
qed

lemma go_on_cases: "go_on j sh = Leaving j EndOk \<or> go_on j sh = Streaming j"
  by (simp add: go_on_def)

lemma start_job_fair:
  assumes "start_job j sh = (sh', w)" "ir_job j = ir_job (is_row sh)" "no_stop sh"
  shows "fair_access sh [Starting j] sh' [w]"
  using assms go_on_cases [of j sh]
  by (auto simp: start_job_def applyReviewBootstrapRecord_def applyCompletedBootstrapRecord_def go_on_def intro!: fair_row
      split: if_splits option.splits)

lemma work_fair:
  assumes "worker_step sh w sh' new" "carries (ir_job (is_row sh)) w" "no_stop sh" "in_run w \<Longrightarrow> occupied sh = 1"
  shows "fair_access sh [w] sh' new"
  using assms
proof (cases rule: worker_step.cases)
  case (Start j)
  then show ?thesis using start_job_fair assms by auto
next
  case (Review rec j)
  then show ?thesis using assms(2,3) by (auto simp: applyReviewBootstrapRecord_def intro!: fair_row split: if_splits)
next
  case (Loaded rec f j)
  then show ?thesis using assms(2,3) by (auto simp: applyCompletedBootstrapRecord_def go_on_def intro!: fair_row split: if_splits)
next
  case (Load j)
  then show ?thesis using assms(2,3) by (auto simp: fair_access_def no_stop_def occupied_def)
next
  case (Release j a reg e)
  then show ?thesis using assms(2-4)
    by (auto simp: fair_access_def no_stop_def occupied_def stop_action_def registry_defs split: option.splits if_splits)
next
  case (Leave j e a ok)
  then show ?thesis using leave_fair assms(3) by (auto intro: fair_idle)
next
  case (Launch j)
  then show ?thesis using launch_fair assms(2,3) by (auto intro: fair_idle)
next
  case (PrepareRest j p)
  then show ?thesis using prepare_rest_fair assms(2,3) by (auto intro: fair_idle)
next
  case (CancelRest b)
  then show ?thesis using assms(3)
    by (auto simp: cancel_rest_def intro!: fair_row dest: swap_status_frame split: prod.splits bool.splits)
next
  case (CancelEnd b)
  then show ?thesis using cancel_done_fair assms(3) by (auto intro: fair_idle)
next
  case (ResumeRest j)
  then show ?thesis using assms(2,3)
    by (auto simp: resume_rest_def intro!: fair_row dest: swap_status_frame split: prod.splits bool.splits)
next
  case (AcceptRest j)
  then show ?thesis using launch_fair assms(2,3) by (auto simp: accept_rest_def intro: fair_idle fair_refl split: if_splits)
next
  case (AbortRest ok j)
  then show ?thesis using assms(3)
    by (auto simp: abort_rest_def swap_status_def UpdateIncrementalJobIfStatus_def abort_record_def Let_def intro!: fair_row)
qed (use assms in \<open>auto simp: pause_rest_def intro!: fair_row\<close>)

lemma inc_step_ok:
  assumes "inc_step lib s s'" "inc_ok s"
  shows "inc_ok s'"
  using assms
proof (induction rule: inc_step.induct)
  case (Work sh w sh' ws xs ys)
  have "carries (ir_job (is_row sh)) w" "no_stop sh" using Work(2) by (simp_all add: inc_ok_def)
  moreover have "occupied sh = 1" if "in_run w"
  proof -
    have "1 \<le> length (filter in_run (xs @ w # ys))" using that by simp
    then show ?thesis using Work(2) occupied_le [of sh] by (simp add: inc_ok_def)
  qed
  ultimately have "fair_access sh [w] sh' ws" using work_fair [OF Work(1)] by blast
  then show ?case using fair_access_ok [of sh xs "[w]" ys] Work(2) by simp
next
  case (Ask j sh q sh' new ws)
  have "no_stop sh" using Ask(3) by (simp add: inc_ok_def)
  from serve_fair [OF Ask(2,1) this] show ?case using fair_access_ok [of sh ws "[]" "[]" sh' new] Ask(3) by simp
next
  case (Others reg sh ws)
  then show ?case by (simp add: inc_ok_def no_stop_def occupied_def stop_action_def)
next
  case (Crash sh ws)
  then show ?case by (auto simp: inc_ok_def no_stop_def occupied_def stop_action_def)
qed

lemma new_job_ok: "inc_ok (new_job r)"
  by (simp add: new_job_def inc_ok_def no_stop_def occupied_def stop_action_def)

lemma inc_steps_ok: "(inc_step lib)\<^sup>*\<^sup>* (new_job r) s \<Longrightarrow> inc_ok s"
  by (induction rule: rtranclp_induct) (auto intro: new_job_ok inc_step_ok)

section \<open>Completion\<close>

definition closed_job :: "inc_shared \<Rightarrow> bool" where
  "closed_job sh \<longleftrightarrow> ir_status (is_row sh) = ''stopped''"

lemma row_status [simp]:
  "ir_status (set_status st ph r) = st" "ir_status (without_cutover r) = ir_status r" "ir_status (aborted_row r) = ''aborted''"
  "ir_status (blocked_row v r) = ''cutover_blocked''" "ir_status (completed_row rec r) = ir_status r"
  "ir_status (review_fields rec r) = ir_status r" "ir_status (review_scope rec r) = ir_status r"
  "ir_status (paused_review rec r) = ''paused_bootstrap_review''"
  by (simp_all add: set_status_def without_cutover_def aborted_row_def blocked_row_def completed_row_def review_fields_def review_scope_def paused_review_def Let_def)

lemma ready_status: "ir_status (ready_row r) \<in> set [''ready_with_warnings'', ''ready_to_cutover'']"
  by (simp add: ready_row_def set_status_def)

lemma swap_status_closed:
  assumes "swap_status sts f sh = (b, sh')" "closed_job sh'" "\<And>r. ir_status (f r) \<noteq> ''stopped''"
  shows "closed_job sh"
  using assms by (auto simp: swap_status_def UpdateIncrementalJobIfStatus_def closed_job_def split: if_splits)

lemma launch_row: "launchIncremental j sh = (sh', new) \<Longrightarrow> is_row sh' = is_row sh"
  by (auto simp: launchIncremental_def split: prod.splits bool.splits)

lemma finish_closed: "finishIncrementalCutover sh = (sh', new) \<Longrightarrow> closed_job sh' \<Longrightarrow> closed_job sh"
  by (auto simp: finishIncrementalCutover_def closed_job_def swap_status_def UpdateIncrementalJobIfStatus_def
      split: if_splits dest: launch_row)

lemma work_closed:
  assumes "worker_step sh w sh' new" "carries (ir_job (is_row sh)) w" "closed_job sh'"
  shows "closed_job sh"
  using assms
proof (cases rule: worker_step.cases)
  case (Leave j e a ok)
  then show ?thesis using assms(2,3) finish_closed [of sh sh' new]
    by (auto simp: leave_def closed_job_def split: if_splits dest: launch_row)
next
  case (PrepareRest j p)
  then show ?thesis using assms(2,3)
    by (auto simp: prepare_rest_def closed_job_def swap_status_def UpdateIncrementalJobIfStatus_def split: prod.splits bool.splits if_splits)
next
  case (CancelRest b)
  then show ?thesis using assms(3)
    by (auto simp: cancel_rest_def closed_job_def swap_status_def UpdateIncrementalJobIfStatus_def split: prod.splits bool.splits if_splits)
next
  case (CancelEnd b)
  then show ?thesis using assms(3) by (auto simp: cancel_done_def closed_job_def dest: launch_row split: if_splits)
next
  case (ResumeRest j)
  then show ?thesis using assms(3)
    by (auto simp: resume_rest_def closed_job_def swap_status_def UpdateIncrementalJobIfStatus_def split: prod.splits bool.splits if_splits)
next
  case (AcceptRest j)
  then show ?thesis using assms(3) by (auto simp: accept_rest_def closed_job_def dest: launch_row split: if_splits)
next
  case (AbortRest ok j)
  then show ?thesis using assms(3)
    by (auto simp: abort_rest_def swap_status_def UpdateIncrementalJobIfStatus_def closed_job_def Let_def split: if_splits)
next
  case (Start j)
  then show ?thesis using assms(3)
    by (auto simp: start_job_def applyReviewBootstrapRecord_def applyCompletedBootstrapRecord_def closed_job_def split: if_splits option.splits)
next
  case Valid
  then show ?thesis using assms(3) ready_status [of "is_row sh"] by (auto simp: closed_job_def)
qed (use assms in \<open>auto simp: closed_job_def hook_statuses_def pause_rest_def applyReviewBootstrapRecord_def applyCompletedBootstrapRecord_def
      dest: launch_row split: if_splits\<close>)

lemma serve_closed:
  assumes "serve lib j q sh = (sh', new)" "closed_job sh'" "\<not> closed_job sh"
  shows "\<exists>req. q = AskStop req \<and> stop_allowed lib j req \<and> ir_status (is_row sh) = ir_status j"
proof (cases q)
  case (AskStop req)
  then show ?thesis using assms
    by (auto simp: StopIncremental_def swap_status_def UpdateIncrementalJobIfStatus_def split: if_splits)
next
  case AskPause
  then show ?thesis using assms by (auto simp: PauseIncremental_def closed_job_def split: if_splits prod.splits bool.splits)
next
  case AskAbort
  then show ?thesis using assms by (auto simp: AbortIncremental_def closed_job_def split: if_splits)
next
  case (AskPrepare p)
  then show ?thesis using assms
    by (auto simp: PrepareIncrementalCutover_def closed_job_def swap_status_def UpdateIncrementalJobIfStatus_def split: if_splits prod.splits bool.splits)
next
  case AskCancel
  then show ?thesis using assms by (auto simp: CancelIncrementalCutover_def split: if_splits)
next
  case AskResume
  then show ?thesis using assms
    by (auto simp: ResumeIncremental_def applyReviewBootstrapRecord_def applyCompletedBootstrapRecord_def closed_job_def split: if_splits option.splits)
next
  case (AskAccept h a c)
  then show ?thesis using assms
    by (auto simp: AcceptIncrementalBootstrapExclusions_def applyCompletedBootstrapRecord_def Let_def closed_job_def split: if_splits option.splits)
next
  case (AskAck a)
  then show ?thesis using assms
    by (auto simp: AckIncrementalDDL_def closed_job_def swap_status_def UpdateIncrementalJobIfStatus_def split: if_splits prod.splits bool.splits)
qed

section \<open>Properties\<close>

text \<open>C9: The destructive full load of a job is started at most once, and at most one goroutine of a job works on the
  target at a time: whatever requests, pauses, resumptions, failures, restarts of the service and late answers
  interleave, a second start finds the bootstrap record that was written before the load began.\<close>

theorem full_load_once:
  assumes "(inc_step lib)\<^sup>*\<^sup>* (new_job r) (sh, ws)"
  shows "is_loads sh \<le> 1 \<and> (is_loads sh = 1 \<longrightarrow> is_record sh \<noteq> None) \<and>
    length (filter in_run ws) = (if Running (is_reg sh) (ir_job (is_row sh)) then 1 else 0)"
  using inc_steps_ok [OF assms] by (simp add: inc_ok_def occupied_def Running_def)

text \<open>C10: A job is closed as completed only by the operator's request to complete it, and only from a ready status, when the
  target's checkpoint has reached the boundary that the request read, the source has produced nothing since, and
  warnings and excluded tables were acknowledged. No goroutine, other request or restart ever closes it.\<close>

theorem completion_checked:
  assumes "(inc_step lib)\<^sup>*\<^sup>* (new_job r) s" "inc_step lib s s'"
    "ir_status (is_row (fst s)) \<noteq> ''stopped''" "ir_status (is_row (fst s')) = ''stopped''"
  shows "\<exists>(j :: inc_row) (req :: stop_request) p. fst s' = StopIncremental lib j req (fst s) \<and>
    ir_status (is_row (fst s)) \<in> set [''ready_to_cutover'', ''ready_with_warnings''] \<and> ir_status j = ir_status (is_row (fst s)) \<and>
    sr_checkpoint req = Some p \<and> PositionReached lib p (ir_cutover j) \<and> PositionEquivalent lib (sr_head req) (ir_cutover j) \<and>
    (ir_status j = ''ready_with_warnings'' \<longrightarrow> sr_warnings req) \<and> (0 < ir_excluded j \<longrightarrow> sr_exclusions req)"
  using assms(2)
proof (cases rule: inc_step.cases)
  case (Work sh w sh' ws xs ys)
  then have "carries (ir_job (is_row sh)) w" using inc_steps_ok [OF assms(1)] by (simp add: inc_ok_def)
  then have "closed_job sh" using work_closed Work(3) assms(4) Work(2) by (auto simp: closed_job_def)
  then show ?thesis using assms(3) Work(1) by (simp add: closed_job_def)
next
  case (Ask j sh q sh' new ws)
  then obtain req where q: "q = AskStop req" and r: "stop_allowed lib j req" "ir_status (is_row sh) = ir_status j"
    using serve_closed [of lib j q sh sh' new] assms(3,4) by (auto simp: closed_job_def)
  then obtain p where p: "sr_checkpoint req = Some p" by (auto simp: stop_allowed_def split: option.splits)
  show ?thesis
    by (rule exI [of _ j], rule exI [of _ req], rule exI [of _ p]) (use q r p Ask in \<open>auto simp: stop_allowed_def\<close>)
next
  case (Crash sh ws)
  then show ?thesis using assms(3,4)
    by (auto simp: restart_row_def pause_interrupted_def discard_legacy_def split: if_splits)
qed (use assms(3,4) in auto)

section \<open>Two runs\<close>

lemma inc_snoc: "(inc_step lib)\<^sup>*\<^sup>* a b \<Longrightarrow> inc_step lib b c \<Longrightarrow> (inc_step lib)\<^sup>*\<^sup>* a c"
  by (rule rtranclp.rtrancl_into_rtrancl)

lemma only_worker: "worker_step sh w sh' ws \<Longrightarrow> inc_step lib (sh, [w]) (sh', ws)"
  using inc_step.Work [of sh w sh' ws lib "[]" "[]"] by simp

lemma last_worker: "worker_step sh w sh' [] \<Longrightarrow> inc_step lib (sh, [v, w]) (sh', [v])"
  using inc_step.Work [of sh w sh' "[]" lib "[v]" "[]"] by simp

text \<open>A job that is launched and begins its full load.\<close>

definition demo_lib :: "unit gtid_lib" where
  "demo_lib = \<lparr>ParseGTIDSet = (\<lambda>_. None), Contain = (\<lambda>_ _. False), EqualSet = (\<lambda>_ _. False), UpdateSet = (\<lambda>_ _. None),
     SetString = (\<lambda>_. [])\<rparr>"

definition demo_found :: BootstrapRecord where
  "demo_found = \<lparr>br_state = ''snapshot_in_progress'', br_position = zero_position, br_effective = [], br_excluded = [], br_manifest_hash = [],
     br_failed = [], br_report_version = 1, br_locator_version = 1, br_locators = []\<rparr>"

definition demo_full :: inc_row where
  "demo_full = demo_inc ''initializing'' 1"

definition demo_f1 :: inc_shared where
  "demo_f1 = fst (launchIncremental demo_full (fst (new_job demo_full)))"

lemma demo_full_loads:
  "\<exists>sh. (inc_step demo_lib)\<^sup>*\<^sup>* (new_job demo_full) (sh, [Loading (demo_full\<lparr>ir_bstate := br_state demo_found, ir_pending := br_position demo_found\<rparr>)]) \<and>
     is_loads sh = 1"
proof -
  let ?n = "new_job demo_full"
  have "snd (launchIncremental demo_full (fst ?n)) = [Starting demo_full]" by code_simp
  then have "launchIncremental demo_full (fst ?n) = (demo_f1, [Starting demo_full])" by (simp add: demo_f1_def prod_eq_iff)
  from inc_snoc [OF rtranclp.rtrancl_refl only_worker [OF worker_step.Launch [OF this]]]
  have 1: "(inc_step demo_lib)\<^sup>*\<^sup>* ?n (demo_f1, [Starting demo_full])" by (simp add: new_job_def)
  have "start_job demo_full demo_f1 = (demo_f1, Booting demo_full)"
    by (simp add: start_job_def unfinished_load_def demo_full_def demo_inc_def demo_f1_def launchIncremental_def Register_def new_job_def
        cutover_set_def zero_position_def)
  note run = inc_snoc [OF inc_snoc [OF inc_snoc [OF 1 only_worker [OF worker_step.Start [OF this]]] only_worker [OF worker_step.Boot [of demo_found]]]
      only_worker [OF worker_step.Load]]
  show ?thesis
    by (rule exI, rule conjI, rule run) (simp_all add: demo_found_def demo_f1_def launchIncremental_def Register_def new_job_def)
qed

theorem full_load_once_witness:
  "\<exists>sh ws. (inc_step demo_lib)\<^sup>*\<^sup>* (new_job demo_full) (sh, ws) \<and> is_loads sh = 1 \<and> is_record sh \<noteq> None \<and> length (filter in_run ws) = 1"
proof -
  obtain sh where run: "(inc_step demo_lib)\<^sup>*\<^sup>* (new_job demo_full) (sh, [Loading (demo_full\<lparr>ir_bstate := br_state demo_found, ir_pending := br_position demo_found\<rparr>)])"
      and one: "is_loads sh = 1"
    using demo_full_loads by blast
  then have "is_record sh \<noteq> None" using full_load_once [OF run] by simp
  with run one show ?thesis by force
qed

text \<open>A job that only reads the binlog, is cut over and closed.\<close>

definition demo_only :: inc_row where
  "demo_only = (demo_inc ''initializing'' 1)\<lparr>ir_mode := ''incremental_only''\<rparr>"

definition demo_edge :: Position where
  "demo_edge = \<lparr>File = ''b.1'', Pos = 9, GTID = []\<rparr>"

definition demo_c1 :: inc_shared where "demo_c1 = fst (launchIncremental demo_only (fst (new_job demo_only)))"
definition demo_c2 :: inc_shared where "demo_c2 = on_row (set_status ''running'' ''running'') demo_c1"
definition demo_c3 :: inc_shared where "demo_c3 = fst (PrepareIncrementalCutover (is_row demo_c2) demo_edge demo_c2)"
definition demo_c4 :: inc_shared where "demo_c4 = prepare_rest (is_row demo_c2) demo_edge demo_c3"
definition demo_c5 :: inc_shared where "demo_c5 = demo_c4\<lparr>is_reg := snd (Remove (is_reg demo_c4) (ir_job demo_only))\<rparr>"
definition demo_c6 :: inc_shared where "demo_c6 = fst (leave demo_only EndCutover [] True demo_c5)"
definition demo_c7 :: inc_shared where "demo_c7 = on_row ready_row demo_c6"

definition demo_stop :: stop_request where
  "demo_stop = \<lparr>sr_warnings = False, sr_exclusions = False, sr_checkpoint = Some demo_edge, sr_head = demo_edge\<rparr>"

lemma demo_cutover: "(inc_step demo_lib)\<^sup>*\<^sup>* (new_job demo_only) (demo_c7, [])"
proof -
  let ?n = "new_job demo_only"
  have "snd (launchIncremental demo_only (fst ?n)) = [Starting demo_only]" by code_simp
  then have "launchIncremental demo_only (fst ?n) = (demo_c1, [Starting demo_only])" by (simp add: demo_c1_def prod_eq_iff)
  from inc_snoc [OF rtranclp.rtrancl_refl only_worker [OF worker_step.Launch [OF this]]]
  have 1: "(inc_step demo_lib)\<^sup>*\<^sup>* ?n (demo_c1, [Starting demo_only])" by (simp add: new_job_def)
  have "start_job demo_only demo_c1 = (demo_c1, go_on demo_only demo_c1)"
    by (simp add: start_job_def unfinished_load_def demo_only_def full_mode_def)
  moreover have "go_on demo_only demo_c1 = Streaming demo_only" by code_simp
  ultimately have "start_job demo_only demo_c1 = (demo_c1, Streaming demo_only)" by simp
  from inc_snoc [OF inc_snoc [OF 1 only_worker [OF worker_step.Start [OF this]]] only_worker [OF worker_step.Hook [where st = "''running''" and ph = "''running''"]]]
  have 2: "(inc_step demo_lib)\<^sup>*\<^sup>* ?n (demo_c2, [Streaming demo_only])" by (simp add: hook_statuses_def demo_c2_def)
  have "snd (PrepareIncrementalCutover (is_row demo_c2) demo_edge demo_c2) = [PreparePending (is_row demo_c2) demo_edge]" by code_simp
  then have "serve demo_lib (is_row demo_c2) (AskPrepare demo_edge) demo_c2 = (demo_c3, [PreparePending (is_row demo_c2) demo_edge])"
    by (simp add: demo_c3_def prod_eq_iff)
  from inc_snoc [OF 2 inc_step.Ask [OF refl this]]
  have "(inc_step demo_lib)\<^sup>*\<^sup>* ?n (demo_c3, [Streaming demo_only, PreparePending (is_row demo_c2) demo_edge])" by simp
  from inc_snoc [OF inc_snoc [OF this last_worker [OF worker_step.PrepareRest]] only_worker [OF worker_step.Ends [of EndCutover]]]
  have 3: "(inc_step demo_lib)\<^sup>*\<^sup>* ?n (demo_c4, [Leaving demo_only EndCutover])" by (simp add: demo_c4_def)
  have "fst (Remove (is_reg demo_c4) (ir_job demo_only)) = []" by code_simp
  then have "Remove (is_reg demo_c4) (ir_job demo_only) = ([], snd (Remove (is_reg demo_c4) (ir_job demo_only)))" by (simp add: prod_eq_iff)
  from inc_snoc [OF 3 only_worker [OF worker_step.Release [OF this]]]
  have 4: "(inc_step demo_lib)\<^sup>*\<^sup>* ?n (demo_c5, [Gone demo_only EndCutover []])" by (simp add: demo_c5_def)
  have "snd (leave demo_only EndCutover [] True demo_c5) = [Validating]" by code_simp
  then have "leave demo_only EndCutover [] True demo_c5 = (demo_c6, [Validating])" by (simp add: demo_c6_def prod_eq_iff)
  from inc_snoc [OF inc_snoc [OF 4 only_worker [OF worker_step.Leave [OF this]]] only_worker [OF worker_step.Valid]]
  show ?thesis by (simp add: demo_c7_def)
qed

theorem completion_checked_witness:
  "ir_status (is_row demo_c7) = ''ready_to_cutover'' \<and> (\<exists>(j :: inc_row) (req :: stop_request) p.
     StopIncremental demo_lib (is_row demo_c7) demo_stop demo_c7 = StopIncremental demo_lib j req demo_c7 \<and>
     sr_checkpoint req = Some p \<and> PositionReached demo_lib p (ir_cutover j))"
proof -
  let ?s = "serve demo_lib (is_row demo_c7) (AskStop demo_stop) demo_c7"
  have step: "inc_step demo_lib (demo_c7, []) (fst ?s, [] @ snd ?s)" 
    by (rule inc_step.Ask [where q = "AskStop demo_stop" and j = "is_row demo_c7"]) simp_all
  have "ir_status (is_row demo_c7) = ''ready_to_cutover''" "ir_status (is_row (fst ?s)) = ''stopped''" by code_simp+
  with completion_checked [OF demo_cutover step] show ?thesis by simp blast
qed

end
