(* ===== verification/IncrementalBootstrap.thy ===== *)
theory IncrementalBootstrap
  imports IncrementalLife
begin

text \<open>
  What an incremental job does with a full load that has ended (the rest of \<^verbatim>\<open>runIncrementalBootstrap\<close> in
  \<^verbatim>\<open>api/handler/incremental.go\<close>): the report is judged, the target's metadata is compared, and the job is aborted, waits
  for a review or goes on. \<open>load_world\<close> holds what the environment answers; every write of the bootstrap record to
  the target may fail, and a failed one may have become durable or not. Writes to SQLite succeed.
\<close>

section \<open>The end of a load\<close>

datatype write_outcome = Written | Unconfirmed | Unwritten

record load_world =
  lw_cancelled :: bool
  lw_finished :: bool
  lw_report :: load_report
  lw_saved :: write_outcome
  lw_tables :: "TableInfo list option"
  lw_target :: "target_table list option"
  lw_resolved :: "target_table list option"
  lw_settled :: write_outcome
  lw_abort_saved :: write_outcome
  lw_aborted :: write_outcome

text \<open>What is fixed for the job: the policy, the tables to load, the names, the boundary and the shown texts.\<close>

record load_plan =
  lp_strict :: bool
  lp_expected :: "string list"
  lp_config :: Config
  lp_position :: Position
  lp_texts :: review_texts
  lp_shape :: "shape_error \<Rightarrow> string"
  lp_digest :: "manifest \<Rightarrow> string"

definition plan_review :: "load_plan \<Rightarrow> load_report \<Rightarrow> (string \<rightharpoonup> string) \<Rightarrow> BootstrapRecord" where
  "plan_review pl rep unfit =
     rv_record (BuildBootstrapReview (lp_digest pl) (lp_texts pl) (lp_position pl) (lp_expected pl) rep
       (LowerCaseNames (lp_config pl)) unfit)"

text \<open>The record saved before the judgement, so that the failures are kept.\<close>

definition preliminary_record :: "load_plan \<Rightarrow> load_report \<Rightarrow> BootstrapRecord" where
  "preliminary_record pl rep =
     (plan_review pl rep Map.empty)\<lparr>br_state := ''snapshot_in_progress'', br_locator_version := strategy_version\<rparr>"

definition unfit_tables :: "load_plan \<Rightarrow> target_table list \<Rightarrow> TableInfo list \<Rightarrow> string \<rightharpoonup> string" where
  "unfit_tables pl meta tables =
     (\<lambda>t. map_option (lp_shape pl) (validateTargetTableCompatibilityFromMetadata (lp_config pl) meta tables t))"

definition final_review :: "load_plan \<Rightarrow> load_report \<Rightarrow> target_table list \<Rightarrow> target_table list \<Rightarrow> TableInfo list \<Rightarrow> BootstrapRecord" where
  "final_review pl rep meta meta2 tables =
     (let rec = plan_review pl rep (unfit_tables pl meta tables);
          all = LocatorStrategiesFromTables (resolveLocatorStrategiesFromMetadata (lp_config pl) tables meta2)
      in rec\<lparr>br_locators := filter (\<lambda>l. ls_table l \<in> set (br_effective rec)) all, br_locator_version := strategy_version\<rparr>)"

text \<open>The record in the target after a write. Both calls of an abort are tried whatever the first gives, and their
  errors are ignored; the job's row is aborted in any case.\<close>

definition put_bootstrap :: "write_outcome \<Rightarrow> BootstrapRecord \<Rightarrow> inc_shared \<Rightarrow> inc_shared" where
  "put_bootstrap o' rec sh = (if o' = Unwritten then sh else sh\<lparr>is_record := Some rec\<rparr>)"

definition aborted_load :: "load_world \<Rightarrow> inc_row \<Rightarrow> inc_shared \<Rightarrow> inc_shared \<times> worker" where
  "aborted_load w j sh =
     (on_row (\<lambda>r. r\<lparr>ir_bstate := ''aborted''\<rparr>) (sh\<lparr>is_record := abort_record (lw_aborted w \<noteq> Unwritten) (is_record sh)\<rparr>), Leaving j EndError)"

text \<open>The decision over the final review.\<close>

definition decide_load :: "load_plan \<Rightarrow> load_world \<Rightarrow> BootstrapRecord \<Rightarrow> inc_row \<Rightarrow> inc_shared \<Rightarrow> inc_shared \<times> worker" where
  "decide_load pl w rec j sh =
     (if lp_strict pl \<and> br_excluded rec \<noteq> [] \<or> br_effective rec = []
      then aborted_load w j (put_bootstrap (lw_abort_saved w) (rec\<lparr>br_state := ''aborted''\<rparr>) sh)
      else if br_excluded rec \<noteq> [] then
        (if lw_settled w = Written then (on_row (paused_review rec) (sh\<lparr>is_record := Some rec\<rparr>), Leaving (review_scope rec j) EndReview)
         else (put_bootstrap (lw_settled w) rec sh, Leaving j EndError))
      else
        (let rec1 = rec\<lparr>br_state := ''completed''\<rparr> in
         if lw_settled w \<noteq> Written then (put_bootstrap (lw_settled w) rec1 sh, Leaving j EndError)
         else
           (case applyCompletedBootstrapRecord rec1 of
              None \<Rightarrow> (sh\<lparr>is_record := Some rec1\<rparr>, Leaving j EndError)
            | Some f \<Rightarrow>
                (on_row (\<lambda>r. set_status ''catching_up'' ''catching_up'' (f r)) (sh\<lparr>is_record := Some rec1\<rparr>), go_on (f j) sh))))"

definition settle_load :: "load_plan \<Rightarrow> load_world \<Rightarrow> inc_row \<Rightarrow> inc_shared \<Rightarrow> inc_shared \<times> worker" where
  "settle_load pl w j sh =
     (if lw_cancelled w then (sh, Leaving j EndCancelled)
      else if \<not> lw_finished w then (sh, Leaving j EndError)
      else
        (let sh1 = put_bootstrap (lw_saved w) (preliminary_record pl (lw_report w)) sh in
         if lw_saved w \<noteq> Written then (sh1, Leaving j EndError)
         else if lp_strict pl \<and> strictBootstrapFailure (lw_report w) (lp_expected pl) \<noteq> None then aborted_load w j sh1
         else
           (case (lw_tables w, lw_target w, lw_resolved w) of
              (Some tables, Some meta, Some meta2) \<Rightarrow> decide_load pl w (final_review pl (lw_report w) meta meta2 tables) j sh1
            | _ \<Rightarrow> (sh1, Leaving j EndError))))"

section \<open>Facts\<close>

lemma broken_same:
  assumes "e \<in> set [EndError, EndCancelled]" "is_record sh \<noteq> None \<longrightarrow> rec \<noteq> None"
  shows "worker_step sh (Loading j) (sh\<lparr>is_record := rec\<rparr>) [Leaving j e]"
  using worker_step.Broken [OF assms(1) _ assms(2), of "ir_bstate (is_row sh)" j]
  by (simp add: on_row_def)

lemma broken_keep: "e \<in> set [EndError, EndCancelled] \<Longrightarrow> worker_step sh (Loading j) sh [Leaving j e]"
  using broken_same [of e sh "is_record sh" j] by simp

lemma aborted_load_step:
  assumes "aborted_load w j (sh\<lparr>is_record := Some rec\<rparr>) = (sh', wk)"
  shows "worker_step sh (Loading j) sh' [wk]"
  using assms worker_step.Broken [of EndError "''aborted''" sh "abort_record (lw_aborted w \<noteq> Unwritten) (Some rec)" j]
  by (auto simp: aborted_load_def abort_record_def)

lemma put_bootstrap_record: "put_bootstrap o' rec (sh\<lparr>is_record := Some rec0\<rparr>) = sh\<lparr>is_record := Some (if o' = Unwritten then rec0 else rec)\<rparr>"
  by (simp add: put_bootstrap_def)

lemma br_states [simp]:
  "br_state (plan_review pl rep unfit) = ''review_pending''" "br_state (final_review pl rep meta meta2 tables) = ''review_pending''"
  by (simp_all add: plan_review_def final_review_def BuildBootstrapReview_def Let_def)

lemma decide_load_step:
  assumes "br_state rec = ''review_pending''" "decide_load pl w rec j (sh\<lparr>is_record := Some rec0\<rparr>) = (sh', wk)"
  shows "worker_step sh (Loading j) sh' [wk]"
proof -
  let ?sh = "sh\<lparr>is_record := Some rec0\<rparr>"
  consider (abort) "lp_strict pl \<and> br_excluded rec \<noteq> [] \<or> br_effective rec = []"
    | (review) "\<not> (lp_strict pl \<and> br_excluded rec \<noteq> [] \<or> br_effective rec = [])" "br_excluded rec \<noteq> []"
    | (complete) "br_effective rec \<noteq> []" "br_excluded rec = []" by blast
  then show ?thesis
  proof cases
    case abort
    then have "aborted_load w j (sh\<lparr>is_record := Some (if lw_abort_saved w = Unwritten then rec0 else rec\<lparr>br_state := ''aborted''\<rparr>)\<rparr>) = (sh', wk)"
      using assms(2) by (auto simp: decide_load_def put_bootstrap_record)
    then show ?thesis by (rule aborted_load_step)
  next
    case review
    then show ?thesis using assms worker_step.Review [OF assms(1), of sh j]
      by (auto simp: decide_load_def put_bootstrap_def intro: broken_same split: if_splits)
  next
    case complete
    let ?r = "rec\<lparr>br_state := ''completed''\<rparr>"
    have "worker_step sh (Loading j) (on_row (\<lambda>r. set_status ''catching_up'' ''catching_up'' (f r)) (sh\<lparr>is_record := Some ?r\<rparr>)) [go_on (f j) sh]"
      if "applyCompletedBootstrapRecord ?r = Some f" for f
      by (rule worker_step.Loaded) (simp_all add: that)
    moreover have "go_on k (sh\<lparr>is_record := Some rec0\<rparr>) = go_on k sh" for k
      by (simp add: go_on_def context_cancelled_def)
    ultimately show ?thesis using assms(2) complete
      by (auto simp: decide_load_def Let_def put_bootstrap_def intro: broken_same split: if_splits option.splits)
  qed
qed

text \<open>One of the outcomes that the life of a job allows.\<close>

lemma settle_load_refines:
  "inc_step lib (sh, xs @ Loading j # ys) (fst (settle_load pl w j sh), xs @ [snd (settle_load pl w j sh)] @ ys)"
proof (rule inc_step.Work)
  have "worker_step sh (Loading j) sh' [wk]" if "settle_load pl w j sh = (sh', wk)" for sh' wk
    using that
    by (auto simp: settle_load_def Let_def put_bootstrap_def intro: broken_keep broken_same aborted_load_step decide_load_step [OF br_states(2)]
        split: if_splits option.splits)
  then show "worker_step sh (Loading j) (fst (settle_load pl w j sh)) [snd (settle_load pl w j sh)]" by simp
qed

lemma validate_distinct:
  "distinct (map Name ts) \<Longrightarrow> t \<in> set ts \<Longrightarrow>
     validateTargetTableCompatibilityFromMetadata cfg meta ts (Name t) = table_failure cfg meta t"
proof (induction ts)
  case (Cons x ts)
  have none: "validateTargetTableCompatibilityFromMetadata cfg meta us n = None" if "n \<notin> Name ` set us" for us n
    using that by (induction us) (auto simp: Let_def map_add_def split: option.splits)
  show ?case
  proof (cases "t = x")
    case True
    then show ?thesis using Cons.prems none [of "Name t" ts] by (auto simp: Let_def map_add_def split: option.splits)
  next
    case False
    then have "t \<in> set ts" using Cons.prems by simp
    then have "Name t \<in> Name ` set ts" by (rule imageI)
    moreover have "Name x \<notin> Name ` set ts" using Cons.prems(1) by simp
    ultimately have t: "t \<in> set ts" "Name t \<noteq> Name x" using \<open>t \<in> set ts\<close> by metis+
    then show ?thesis using Cons by (auto simp: Let_def map_add_def split: option.splits)
  qed
qed simp

lemma final_scopes:
  assumes "distinct (map (loaded_name (LowerCaseNames (lp_config pl))) (lp_expected pl))"
  shows "br_effective (final_review pl rep meta meta2 tables) =
      filter (load_complete (LowerCaseNames (lp_config pl)) (unfit_tables pl meta tables) rep) (lp_expected pl)"
    "map bi_table (br_excluded (final_review pl rep meta meta2 tables)) =
      filter (\<lambda>t. \<not> load_complete (LowerCaseNames (lp_config pl)) (unfit_tables pl meta tables) rep t) (lp_expected pl)"
  using review_scopes [OF assms(1)] by (simp_all add: final_review_def plan_review_def Let_def)

lemma filter_none: "filter P xs = [] \<longleftrightarrow> (\<forall>x\<in>set xs. \<not> P x)"
  by (simp add: filter_empty_conv)

section \<open>Properties\<close>

text \<open>C11: A job that goes on from its full load without a review has loaded everything: for every expected table the report lists
  no failed structure, data or key item, its rows were counted and match, and the target has a table that fits it; none is
  excluded. Under the strict policy the report also passes \<^verbatim>\<open>strictBootstrapFailure\<close>: structure and data of all the
  expected tables succeeded, every row count matches and there is one per table, and no primary key, index, constraint or
  sequence failed (views and comments are not part of that check). Assumed: the metadata read for the comparison are of exactly the expected
  tables, their names stay different as loaded, the text of a misfit is never empty, and the record that was there before is not a
  completed one.\<close>

theorem load_confirmed_complete:
  assumes "settle_load pl w j sh = (sh', wk)" "is_record sh' = Some rec" "br_state rec = ''completed''"
    and "map_option br_state (is_record sh) \<noteq> Some ''completed''"
    and "distinct (map (loaded_name (LowerCaseNames (lp_config pl))) (lp_expected pl))" "\<And>e. lp_shape pl e \<noteq> []"
    and "lw_tables w = Some tables" "map Name tables = lp_expected pl"
  shows "br_effective rec = lp_expected pl \<and> br_excluded rec = [] \<and>
    (\<exists>meta. lw_target w = Some meta \<and> (\<forall>t\<in>set tables.
       load_complete (LowerCaseNames (lp_config pl)) (unfit_tables pl meta tables) (lw_report w) (Name t) \<and> (\<exists>tt\<in>set meta. fits_target (lp_config pl) t tt))) \<and>
    (lp_strict pl \<longrightarrow> strictBootstrapFailure (lw_report w) (lp_expected pl) = None)"
proof -
  let ?low = "LowerCaseNames (lp_config pl)"
  have not_aborted: "aborted_load w j s \<noteq> (sh', wk)" if "map_option br_state (is_record s) \<noteq> Some ''completed''" for s
    using assms(2,3) that by (cases "is_record s") (auto simp: aborted_load_def abort_record_def on_row_def split: if_splits)
  obtain meta meta2 where m: "lw_target w = Some meta" "lw_resolved w = Some meta2"
      and strict: "lp_strict pl \<longrightarrow> strictBootstrapFailure (lw_report w) (lp_expected pl) = None"
      and d: "decide_load pl w (final_review pl (lw_report w) meta meta2 tables) j (sh\<lparr>is_record := Some (preliminary_record pl (lw_report w))\<rparr>) = (sh', wk)"
    using assms(1-4,7) not_aborted [of "sh\<lparr>is_record := Some (preliminary_record pl (lw_report w))\<rparr>"]
    by (auto simp: settle_load_def Let_def preliminary_record_def put_bootstrap_def split: if_splits option.splits)
  let ?u = "unfit_tables pl meta tables" and ?f = "final_review pl (lw_report w) meta meta2 tables"
  have ok: "br_excluded ?f = [] \<and> rec = ?f\<lparr>br_state := ''completed''\<rparr>"
    using d assms(2,3) not_aborted [of "sh\<lparr>is_record := Some (preliminary_record pl (lw_report w))\<rparr>"]
      not_aborted [of "sh\<lparr>is_record := Some (?f\<lparr>br_state := ''aborted''\<rparr>)\<rparr>"]
    by (auto simp: decide_load_def Let_def on_row_def preliminary_record_def put_bootstrap_def split: if_splits option.splits)
  have f: "br_effective ?f = filter (load_complete ?low ?u (lw_report w)) (lp_expected pl)"
      "map bi_table (br_excluded ?f) = filter (\<lambda>t. \<not> load_complete ?low ?u (lw_report w) t) (lp_expected pl)"
    by (rule final_scopes [OF assms(5)])+
  then have all: "load_complete ?low ?u (lw_report w) t" if "t \<in> set (lp_expected pl)" for t
  proof -
    have "filter (\<lambda>t. \<not> load_complete ?low ?u (lw_report w) t) (lp_expected pl) = []" using ok f(2) by simp
    then show ?thesis using that unfolding filter_empty_conv by blast
  qed
  have "\<exists>tt\<in>set meta. fits_target (lp_config pl) t tt" if t: "t \<in> set tables" for t
  proof (rule table_failure_None)
    have "distinct (map Name tables)" using assms(5,8) by (simp add: distinct_map)
    then have "validateTargetTableCompatibilityFromMetadata (lp_config pl) meta tables (Name t) = table_failure (lp_config pl) meta t"
      using t by (rule validate_distinct)
    moreover have "load_complete ?low ?u (lw_report w) (Name t)" using all t assms(8) by (metis image_eqI list.set_map)
    ultimately show "table_failure (lp_config pl) meta t = None"
      using assms(6) by (cases "table_failure (lp_config pl) meta t") (auto simp: load_complete_def unfit_tables_def)
  qed
  moreover have "load_complete ?low ?u (lw_report w) (Name t)" if "t \<in> set tables" for t
    using all that assms(8) by (metis image_eqI list.set_map)
  moreover have "br_effective ?f = lp_expected pl" using f(1) all by (simp add: filter_id_conv)
  ultimately show ?thesis using ok m(1) strict by auto
qed

text \<open>C12: What a finished load leads to is decided by the policy and by which tables were loaded completely (no failed
  item, counted, matching, fitting). When the judgement can be made (the preliminary record was saved, the metadata were read)
  and the record of the decision is written: if no table is complete, or the policy is strict and some table is not or the report
  fails the strict check, the job ends with an error, its row is aborted, it neither waits for a review nor goes on, and unless
  the abort of the record could not be written either, so is the record, whatever happens to the other write. Otherwise, if some table is
  not complete, the job waits for a review whose effective tables are exactly the complete ones and whose exclusions
  are exactly the others, both in load order, with locators for effective tables only. Otherwise the record is
  completed with all tables and the job goes on to read the log.\<close>

theorem load_decides:
  assumes "\<not> lw_cancelled w" "lw_finished w" "lw_saved w = Written" "lw_settled w = Written"
    and "lw_tables w = Some tables" "lw_target w = Some meta" "lw_resolved w = Some meta2"
    and "distinct (map (loaded_name (LowerCaseNames (lp_config pl))) (lp_expected pl))"
    and "settle_load pl w j sh = (sh', wk)"
    and complete: "complete = load_complete (LowerCaseNames (lp_config pl)) (unfit_tables pl meta tables) (lw_report w)"
  shows "if (\<forall>t\<in>set (lp_expected pl). \<not> complete t) \<or>
        lp_strict pl \<and> ((\<exists>t\<in>set (lp_expected pl). \<not> complete t) \<or> strictBootstrapFailure (lw_report w) (lp_expected pl) \<noteq> None)
    then wk = Leaving j EndError \<and> is_row sh' = (is_row sh)\<lparr>ir_bstate := ''aborted''\<rparr> \<and>
      (\<exists>rec. is_record sh' = Some rec \<and> (if lw_aborted w = Unwritten then br_state rec \<in> {''snapshot_in_progress'', ''aborted''} else br_state rec = ''aborted''))
    else if \<exists>t\<in>set (lp_expected pl). \<not> complete t
    then \<exists>rec. is_record sh' = Some rec \<and> br_state rec = ''review_pending'' \<and>
      br_effective rec = filter complete (lp_expected pl) \<and> map bi_table (br_excluded rec) = filter (\<lambda>t. \<not> complete t) (lp_expected pl) \<and>
      ls_table ` set (br_locators rec) \<subseteq> set (br_effective rec) \<and>
      ir_status (is_row sh') = ''paused_bootstrap_review'' \<and> wk = Leaving (review_scope rec j) EndReview
    else \<exists>rec. is_record sh' = Some rec \<and> br_state rec = ''completed'' \<and> br_effective rec = lp_expected pl \<and> br_excluded rec = [] \<and>
      ls_table ` set (br_locators rec) \<subseteq> set (br_effective rec) \<and>
      ir_status (is_row sh') = ''catching_up'' \<and> ir_done (is_row sh') \<and> wk = go_on (completed_row rec j) sh"
proof -
  let ?f = "final_review pl (lw_report w) meta meta2 tables" and ?p = "preliminary_record pl (lw_report w)"
  let ?sh = "sh\<lparr>is_record := Some ?p\<rparr>"
  have f: "br_effective ?f = filter complete (lp_expected pl)" "map bi_table (br_excluded ?f) = filter (\<lambda>t. \<not> complete t) (lp_expected pl)"
    unfolding complete by (rule final_scopes [OF assms(8)])+
  have none: "br_effective ?f = [] \<longleftrightarrow> (\<forall>t\<in>set (lp_expected pl). \<not> complete t)"
    "br_excluded ?f = [] \<longleftrightarrow> \<not> (\<exists>t\<in>set (lp_expected pl). \<not> complete t)"
    using filter_none [of complete "lp_expected pl"] filter_none [of "\<lambda>t. \<not> complete t" "lp_expected pl"] f
    by (auto simp flip: map_is_Nil_conv [of bi_table])
  have loc: "ls_table ` set (br_locators ?f) \<subseteq> set (br_effective ?f)" "br_locator_version ?f = strategy_version"
    by (auto simp: final_review_def plan_review_def Let_def)
  have abort: "wk = Leaving j EndError \<and> is_row sh' = (is_row sh)\<lparr>ir_bstate := ''aborted''\<rparr> \<and>
      (\<exists>rec. is_record sh' = Some rec \<and> (if lw_aborted w = Unwritten then br_state rec \<in> {''snapshot_in_progress'', ''aborted''} else br_state rec = ''aborted''))"
    if "aborted_load w j (sh\<lparr>is_record := Some r\<rparr>) = (sh', wk)" "br_state r \<in> {''snapshot_in_progress'', ''aborted''}" for r
    using that by (cases "lw_aborted w = Unwritten") (auto simp: aborted_load_def abort_record_def on_row_def)
  have run: "settle_load pl w j sh =
      (if lp_strict pl \<and> strictBootstrapFailure (lw_report w) (lp_expected pl) \<noteq> None then aborted_load w j ?sh
       else decide_load pl w ?f j ?sh)"
    using assms(1-7) by (auto simp: settle_load_def Let_def put_bootstrap_def)
  have prelim: "br_state ?p = ''snapshot_in_progress''" by (simp add: preliminary_record_def)
  consider (strict) "lp_strict pl" "strictBootstrapFailure (lw_report w) (lp_expected pl) \<noteq> None"
    | (refused) "lp_strict pl \<and> br_excluded ?f \<noteq> [] \<or> br_effective ?f = []" "settle_load pl w j sh = decide_load pl w ?f j ?sh"
    | (going) "\<not> (lp_strict pl \<and> br_excluded ?f \<noteq> [] \<or> br_effective ?f = [])" "settle_load pl w j sh = decide_load pl w ?f j ?sh"
        "\<not> (lp_strict pl \<and> strictBootstrapFailure (lw_report w) (lp_expected pl) \<noteq> None)"
    using run by (metis (full_types))
  then show ?thesis
  proof cases
    case strict
    then have "aborted_load w j ?sh = (sh', wk)" using run assms(9) by simp
    then show ?thesis using strict abort [of ?p] prelim by simp
  next
    case refused
    then have "aborted_load w j (sh\<lparr>is_record := Some (if lw_abort_saved w = Unwritten then ?p else ?f\<lparr>br_state := ''aborted''\<rparr>)\<rparr>) = (sh', wk)"
      using assms(9) by (auto simp: decide_load_def put_bootstrap_record)
    from abort [OF this] show ?thesis using refused(1) prelim none by auto
  next
    case going
    show ?thesis
    proof (cases "br_excluded ?f = []")
      case False
      then have "sh' = on_row (paused_review ?f) (?sh\<lparr>is_record := Some ?f\<rparr>)" "wk = Leaving (review_scope ?f j) EndReview"
        using going assms(4,9) by (auto simp: decide_load_def)
      then show ?thesis using False going none f loc(1) by (auto simp: on_row_def paused_review_def set_status_def)
    next
      case True
      let ?r = "?f\<lparr>br_state := ''completed''\<rparr>"
      have all: "br_effective ?f = lp_expected pl" using True none f(1) by (simp add: filter_id_conv)
      have "sh' = on_row (\<lambda>r. set_status ''catching_up'' ''catching_up'' (completed_row ?r r)) (?sh\<lparr>is_record := Some ?r\<rparr>)"
        "wk = go_on (completed_row ?r j) ?sh"
        using True going assms(4,9) loc(2) by (auto simp: decide_load_def Let_def applyCompletedBootstrapRecord_def)
      then show ?thesis using True going none all loc(1)
        by (auto simp: on_row_def set_status_def go_on_def context_cancelled_def completed_row_def Let_def)
    qed
  qed
qed

section \<open>Two loads\<close>

text \<open>One table, loaded and counted, with a fitting target.\<close>

definition demo_category :: category_report where
  "demo_category = \<lparr>cr_total = 1, cr_success = 1, cr_failed = 0, cr_items = []\<rparr>"

definition demo_nothing :: category_report where
  "demo_nothing = \<lparr>cr_total = 0, cr_success = 0, cr_failed = 0, cr_items = []\<rparr>"

definition demo_report :: load_report where
  "demo_report = \<lparr>lr_tables = demo_category, lr_data = demo_category, lr_keys = demo_nothing, lr_views = demo_nothing,
     lr_indexes = demo_nothing, lr_constraints = demo_nothing, lr_sequences = demo_nothing, lr_comments = demo_nothing,
     lr_rows = [\<lparr>rw_table = ''t'', rw_src = 2, rw_dst = 2, rw_match = True\<rparr>]\<rparr>"

definition demo_loaded :: TableInfo where
  "demo_loaded = \<lparr>Name = ''T'', Engine = ''InnoDB'', Columns = [''id''], ColumnTypes = [''int''], PrimaryKey = [0], AutoIncrement = [],
     LocatorStrategy = [], LocatorIndex = [], LocatorColumns = [], UniqueIndexes = []\<rparr>"

definition demo_created :: target_table where
  "demo_created = \<lparr>tt_name = ''t'', tt_columns = [\<lparr>tc_name = ''id'', tc_nullable = ''NO'', tc_default = None, tc_identity = ''NO''\<rparr>],
     tt_unique = [[''id'']]\<rparr>"

definition demo_plan :: load_plan where
  "demo_plan = \<lparr>lp_strict = True, lp_expected = [''T''],
     lp_config = \<lparr>JobID = ''j'', SourceDatabase = ''d'', TargetDBType = ''postgres'', TargetSchema = ''s'', LowerCaseNames = True,
       Start = zero_position, cfg_locator_version = 1, cfg_locators = [], cfg_exclusions = [], cfg_manifest_hash = []\<rparr>,
     lp_position = \<lparr>File = ''b.1'', Pos = 4, GTID = []\<rparr>,
     lp_texts = \<lparr>rt_key = (\<lambda>e. e), rt_unchecked = ''unchecked'', rt_counts = (\<lambda>_ _. ''rows''), rt_warning = (\<lambda>_ _. ''w'')\<rparr>,
     lp_shape = (\<lambda>_. ''shape''), lp_digest = (\<lambda>_. ''hash'')\<rparr>"

definition demo_world :: load_world where
  "demo_world = \<lparr>lw_cancelled = False, lw_finished = True, lw_report = demo_report, lw_saved = Written, lw_tables = Some [demo_loaded],
     lw_target = Some [demo_created], lw_resolved = Some [demo_created], lw_settled = Written, lw_abort_saved = Written, lw_aborted = Written\<rparr>"

definition demo_shared :: inc_shared where
  "demo_shared = \<lparr>is_row = demo_full, is_reg = Map.empty, is_record = Some demo_found, is_loads = 1\<rparr>"

text \<open>Two tables under the other policy; the rows of the second were not counted.\<close>

definition demo_partial_plan :: load_plan where
  "demo_partial_plan = demo_plan\<lparr>lp_strict := False, lp_expected := [''T'', ''U'']\<rparr>"

definition demo_partial_world :: load_world where
  "demo_partial_world = demo_world\<lparr>lw_tables := Some [demo_loaded, demo_loaded\<lparr>Name := ''U''\<rparr>],
     lw_target := Some [demo_created, demo_created\<lparr>tt_name := ''u''\<rparr>], lw_resolved := Some [demo_created, demo_created\<lparr>tt_name := ''u''\<rparr>]\<rparr>"

theorem load_decides_witness:
  "\<exists>rec. is_record (fst (settle_load demo_partial_plan demo_partial_world demo_full demo_shared)) = Some rec \<and>
     br_state rec = ''review_pending'' \<and> br_effective rec = [''T''] \<and> map bi_table (br_excluded rec) = [''U''] \<and>
     snd (settle_load demo_partial_plan demo_partial_world demo_full demo_shared) = Leaving (review_scope rec demo_full) EndReview"
proof -
  let ?pl = demo_partial_plan and ?w = demo_partial_world
  obtain tables meta meta2 where m: "lw_tables ?w = Some tables" "lw_target ?w = Some meta" "lw_resolved ?w = Some meta2"
    by (simp add: demo_partial_world_def)
  let ?c = "load_complete (LowerCaseNames (lp_config ?pl)) (unfit_tables ?pl meta tables) (lw_report ?w)"
  have "case (lw_tables ?w, lw_target ?w) of (Some tables, Some meta) \<Rightarrow>
      map (load_complete (LowerCaseNames (lp_config ?pl)) (unfit_tables ?pl meta tables) (lw_report ?w)) [''T'', ''U''] = [True, False]
    | _ \<Rightarrow> False"
    by code_simp
  then have c: "?c ''T''" "\<not> ?c ''U''" by (simp_all add: m)
  have e: "lp_expected ?pl = [''T'', ''U'']" "\<not> lp_strict ?pl" by (simp_all add: demo_partial_plan_def)
  have "\<not> lw_cancelled ?w" "lw_finished ?w" "lw_saved ?w = Written" "lw_settled ?w = Written"
    "distinct (map (loaded_name (LowerCaseNames (lp_config ?pl))) (lp_expected ?pl))" by code_simp+
  from load_decides [OF this(1-4) m this(5) prod.collapse [symmetric] refl, of demo_full demo_shared] show ?thesis
    using c e by auto
qed

theorem load_confirmed_complete_witness:
  "\<exists>rec. is_record (fst (settle_load demo_plan demo_world demo_full demo_shared)) = Some rec \<and> br_effective rec = [''T''] \<and>
     br_excluded rec = [] \<and> fits_target (lp_config demo_plan) demo_loaded demo_created"
proof -
  let ?s = "settle_load demo_plan demo_world demo_full demo_shared"
  have "map_option br_state (is_record (fst ?s)) = Some ''completed''" by code_simp
  then obtain rec where rec: "is_record (fst ?s) = Some rec" "br_state rec = ''completed''" by auto
  have "map_option br_state (is_record demo_shared) \<noteq> Some ''completed''"
      "distinct (map (loaded_name (LowerCaseNames (lp_config demo_plan))) (lp_expected demo_plan))"
      "lw_tables demo_world = Some [demo_loaded]" "map Name [demo_loaded] = lp_expected demo_plan"
      "lw_target demo_world = Some [demo_created]" "lp_expected demo_plan = [''T'']" by code_simp+
  moreover have "lp_shape demo_plan e \<noteq> []" for e by (simp add: demo_plan_def)
  ultimately show ?thesis
    using load_confirmed_complete [OF prod.collapse [symmetric] rec, of "[demo_loaded]"] rec by auto
qed

end
