(* ===== verification/Spec2Isabelle.thy ===== *)
theory Spec2Isabelle
  imports DamengNames CdcDamengReplication CdcDamengIdentity Validation TypeRegistry MigrationState PartitionLeaves RepairLife IncrementalBootstrap
begin

text \<open>
  A verification library for dbgold, a Go service that migrates databases (MySQL, Oracle, SQL Server, PostgreSQL, DaMeng,
  Oscar and others), keeps a migrated target in step with its source by change data capture (CDC), compares the two and
  lets operators repair what failed.

  \<^bold>\<open>The program and its parts.\<close> An HTTP service (\<^verbatim>\<open>api/\<close>) keeps jobs and tickets in SQLite (\<^verbatim>\<open>store/\<close>). A migration
  (\<^verbatim>\<open>datamigrate/\<close>) selects tables (\<^verbatim>\<open>filter.go\<close>), reads the source's catalog (\<^verbatim>\<open>source/\<close>), maps column types
  (\<^verbatim>\<open>typemap/\<close>) and names (\<^verbatim>\<open>damengnames/\<close>), compiles partitions (\<^verbatim>\<open>partition/\<close>, on the lexer of \<^verbatim>\<open>sqlsyntax/\<close>), writes the
  target (\<^verbatim>\<open>target/\<close>, \<^verbatim>\<open>dialect/\<close>) and records what failed and what this blocks (\<^verbatim>\<open>migration_state.go\<close>) in a ledger of
  repairs (\<^verbatim>\<open>repair/\<close>, \<^verbatim>\<open>store/migration_repair.go\<close>), which users edit and run again through
  \<^verbatim>\<open>api/handler/migration_repair.go\<close>. An incremental job (\<^verbatim>\<open>api/handler/incremental.go\<close>) loads a snapshot once, then runs
  the loop of \<^verbatim>\<open>cdc/runner.go\<close>: events of the binary log are collected into transactions and given to an applier
  (\<^verbatim>\<open>cdc/postgres.go\<close> or \<^verbatim>\<open>cdc/dameng.go\<close>), which commits the rows together with a checkpoint. The loop and the handlers
  share the registry of running jobs (\<^verbatim>\<open>cdc/registry.go\<close>). The content of two tables is compared through sorted files of
  fingerprints (\<^verbatim>\<open>validation/\<close>). Paths here are relative to \<^verbatim>\<open>src/\<close>, those without a directory to
  \<^verbatim>\<open>src/datamigrate/\<close>.
\<close>

section \<open>Which theory models what\<close>

text \<open>
  \<^bold>\<open>Shared.\<close> \<open>GoPrelude\<close>: the functions of Go's \<^verbatim>\<open>strings\<close>, \<^verbatim>\<open>strconv\<close> and \<^verbatim>\<open>slices\<close> that the code calls, on byte strings,
  64-bit wrap-around, and the lemmas on lists, options and maps that the components share.

  \<^bold>\<open>Change data capture\<close> (\<^verbatim>\<open>cdc/\<close>).
  \<^item> \<open>CdcTypes\<close> (\<^verbatim>\<open>types.go\<close>) the data; \<open>CdcPosition\<close> comparison of log positions, with the GTID sets of go-mysql as the
    parameter \<open>gtid_lib\<close>; \<open>CdcRegistry\<close> (\<^verbatim>\<open>registry.go\<close>) every method of the registry as an atomic step, with the locale
    \<open>stop_once\<close>.
  \<^item> \<open>CdcMetadata\<close>, \<open>CdcLocators\<close> (\<^verbatim>\<open>metadata.go\<close>, \<^verbatim>\<open>target_metadata.go\<close>, \<^verbatim>\<open>preflight.go\<close>) table metadata, the choice of a
    row locator, its freezing and replay, the exclusions; \<open>CdcPreflight\<close> (\<^verbatim>\<open>preflight.go\<close>, \<^verbatim>\<open>bootstrap.go\<close>) the checks
    before a job starts, binary log positions and their retention; \<open>CdcBootstrapReview\<close> (\<^verbatim>\<open>bootstrap.go\<close>) which tables may
    go on after a full load, why the others may not, and the hash of the manifest an operator confirms.
  \<^item> \<open>CdcDml\<close>, \<open>CdcPostgresDml\<close>, \<open>CdcPostgres\<close>, \<open>CdcBootstrapStore\<close> (\<^verbatim>\<open>postgres.go\<close>, \<^verbatim>\<open>trigger_guard.go\<close>) statements,
    transactions, checkpoint and bootstrap record of a PostgreSQL target. A transaction works on a copy of the database;
    a failed commit may or may not have become durable.
  \<^item> \<open>CdcDamengMetadata\<close>, \<open>CdcDamengDml\<close>, \<open>CdcDameng\<close>, \<open>CdcDamengBootstrap\<close>, \<open>CdcDamengIdentity\<close> (\<^verbatim>\<open>dameng.go\<close>,
    \<^verbatim>\<open>dameng_metadata.go\<close>, \<^verbatim>\<open>dameng_dml.go\<close>, \<^verbatim>\<open>dameng_checkpoint.go\<close>, \<^verbatim>\<open>dameng_identity.go\<close>) the same for DaMeng, where DDL
    commits by itself: the session's clean-up, the frozen clean-up plan, the identity counters.
  \<^item> \<open>CdcTarget\<close> the contract of an applier (locale \<open>target_applier\<close>); \<open>CdcRunner\<close> (\<^verbatim>\<open>runner.go\<close>) the loop, one iteration a
    function of what the outside answers; \<open>CdcReplication\<close> (locale \<open>replication_target\<close>) many runs with crashes, lost
    commits and restarts; \<open>CdcExactlyOnce\<close> and \<open>CdcDamengReplication\<close> its two instances.
  \<^item> \<open>IncrementalStore\<close> (\<^verbatim>\<open>store/incremental.go\<close>), \<open>IncrementalLife\<close> (\<^verbatim>\<open>api/handler/incremental.go\<close>) a job's row, the
    requests on it, the goroutine and the start of the service as interleaved steps (\<open>inc_step\<close>). A handler that writes in
    several places is cut there: its rest is a \<open>worker\<close> that runs later. \<open>IncrementalBootstrap\<close> the judgement of a finished
    full load in detail, for the step that the life leaves open.

  \<^bold>\<open>Repairs and queries.\<close>
  \<^item> \<open>RepairStore\<close> (\<^verbatim>\<open>store/migration_repair.go\<close>, \<^verbatim>\<open>repair/types.go\<close>) the rows and the transactions on them; \<open>RepairLedger\<close>
    the end of an attempt, recovered data and the restart; \<open>RepairExec\<close> (\<^verbatim>\<open>target/repair.go\<close>) the execution unit by unit,
    whose environment answers as a function of the trace so far; \<open>RepairDraft\<close> what may be saved and run
    (\<^verbatim>\<open>api/handler/migration_repair.go\<close>); \<open>RepairLife\<close> all of it interleaved with crashes.
  \<^item> \<open>QuerySql\<close> (\<^verbatim>\<open>api/handler/query_sql.go\<close>) the scanner of the query centre, the class of a statement, the confirmation
    it needs.
  \<^item> \<open>MigrationState\<close> (\<^verbatim>\<open>migration_state.go\<close>, \<^verbatim>\<open>migration_target_dependencies.go\<close>) failures of tables, what they block,
    and which target tables must be kept.

  \<^bold>\<open>Tables, types, partitions, comparison.\<close>
  \<^item> \<open>TableFilter\<close> (\<^verbatim>\<open>filter.go\<close>), \<open>DamengNames\<close> (\<^verbatim>\<open>damengnames/names.go\<close>).
  \<^item> \<open>TypeColumns\<close>, \<open>TypeFromMysql\<close>, \<open>TypeFromOthers\<close>, \<open>TypeFromOracle\<close>, \<open>TypeRegistry\<close> (\<^verbatim>\<open>typemap/\<close>) every mapping of
    a source column type to a target type, the validators, the registry.
  \<^item> \<open>SqlTokens\<close> (\<^verbatim>\<open>sqlsyntax/tokens.go\<close>) the lexer; \<open>PartitionTypes\<close>, \<open>PartitionExpr\<close>, \<open>PartitionExprSound\<close>,
    \<open>PartitionRewrite\<close>, \<open>PartitionKey\<close>, \<open>PartitionMysqlKey\<close>, \<open>PartitionCompile\<close>, \<open>PartitionLeaves\<close> (\<^verbatim>\<open>partition/\<close>,
    \<^verbatim>\<open>source/partition.go\<close>) the topology of a partitioned table and its preparation for a target; the parser of integer
    expressions is written over its node operations (locale \<open>node_simulation\<close>).
  \<^item> \<open>MergeHeap\<close> (locale \<open>min_queue\<close>, the array of \<^verbatim>\<open>container/heap\<close> as its instance), \<open>ExternalSort\<close>
    (\<^verbatim>\<open>validation/sort.go\<close>), \<open>Validation\<close> (\<^verbatim>\<open>validation/validate.go\<close>, \<^verbatim>\<open>append.go\<close>).
\<close>

section \<open>What is shown\<close>

text \<open>
  \<^bold>\<open>Replication.\<close> What a list of events holds is read independently of the loop (\<open>read_event\<close>, \<open>source_txs\<close>, \<open>due_txs\<close>:
  the transactions of the selected tables that a checkpoint has not reached). Over any number of runs, crashes and lost
  commits the target holds the result of what was delivered, run by run, up to some point of each stream, and the
  checkpoint is the last transaction's position (\<open>replication_chain\<close>, \<open>dameng_replication_chain\<close>); a run that is still
  going has applied all of it (\<open>stream_applied_exactly\<close>). Both rest on a simulation of the loop by that reading
  (\<open>handle_matches\<close>, \<open>run_rep\<close>). Applying a transaction is all or nothing (\<open>Apply_atomic\<close>). A
  bootstrap record that is completed or aborted stays so (\<open>bootstrap_outcome_final\<close>), a clean-up
  drops only what the review excluded (\<open>dameng_cleanup_plan_sound\<close>) and can be resumed on a server that drops no table a
  foreign key still references (\<open>dameng_finalize_resumes\<close>).
  Locators: \<open>unique_locator_confirmed\<close>, \<open>frozen_strategies_replay\<close>; DaMeng's session settings and
  counters: \<open>dameng_identity_never_leaks\<close>, \<open>dameng_counters_safe\<close>.

  \<^bold>\<open>Jobs.\<close> However requests, goroutines, failures and restarts interleave, the destructive full load of an incremental job
  starts at most once and one goroutine at most works on the target (\<open>full_load_once\<close>, from the invariant \<open>inc_ok\<close>); a job
  is completed only after the checks of the cutover (\<open>completion_checked\<close>). A preflight that passes has a position that
  the log still covers and a fitting target for every table (\<open>preflight_incremental_sound\<close>); the review of a load
  partitions its tables by what was loaded (\<open>review_classifies\<close>), keeps a reason for every exclusion
  (\<open>exclusions_explained\<close>) and is confirmed by a hash of its content (\<open>manifest_hash_content\<close>); a job that goes on without
  a review has loaded everything (\<open>load_confirmed_complete\<close>); whether a load fails, waits or goes on, and with which
  tables, is decided by the policy and the tables loaded completely (\<open>load_decides\<close>).

  \<^bold>\<open>Repairs.\<close> A unit of an ordinary DDL object that may have changed the target is never sent again (\<open>repair_runs_once\<close>; for native
  objects and triggers the source replays unknown outcomes on purpose), the ledger is written before
  the target (\<open>repair_write_ahead\<close>), attempts exclude each other (\<open>repair_exclusive\<close>), a request is claimed once
  (\<open>request_once\<close>), outcomes are final and a restart settles what was running (\<open>repair_outcome_final\<close>, \<open>restart_settles\<close>).
  The query gate lets only what it classes as reading run unconfirmed (\<open>query_gate_sound\<close>; two texts it misjudges are
  \<open>explained_statement\<close> and \<open>hidden_statement\<close>), and its scanner reads back the pieces a text was written from
  (\<open>scanner_reads_pieces\<close>).

  \<^bold>\<open>Tables.\<close> Selection is its specification (\<open>Plan_correct\<close>); the validators keep DaMeng's and Oracle's sizes
  (\<open>ValidateOracleDamengColumn_wf\<close>); tables that retained ones refer to are kept
  (\<open>protect_leaves_no_dangling_key\<close>) and one pass over the ledger blocks whatever depends on a failure
  (\<open>reconcile_settles\<close>). The partition rewrites, by the values of the expressions they generate, route every row as the source does (\<open>mysqlHashAsList_routes\<close>,
  \<open>mysqlKeyAsPGList_routes\<close>, \<open>sqlServerRangeLeft_same_rows\<close>), an accepted expression has the same value on both servers
  (\<open>integerExpression_sound\<close>), no leaf is lost or merged (\<open>prepare_leaves\<close>). The sort returns the sorted records
  (\<open>external_sort_correct\<close>) and a comparison that passes has compared equal contents, unless two fingerprints collide (\<open>validation_passed_sound\<close>, \<open>append_passed_sound\<close>).

  \<^bold>\<open>Bounds and termination.\<close> The parser's fuel is \<open>3 * tokens + 2\<close> and never used up (\<open>integerExpression_ends\<close>). Loops
  that need not end are \<open>partial_function (option)\<close>: the passes of the merge (\<open>merge_all\<close>) and the sweep over foreign keys
  (\<open>sweep_loop\<close>), both proved to return. The fuel of the regular expressions of the Oracle mappings is the length of the
  text, every step of which consumes a character; \<open>prepare\<close> refuses more than eight levels, as the code does. The other
  recursions are structural or have a measure (rounds of \<open>dependency_loop\<close>, the rest of the input for the scanners,
  \<open>double_to\<close>).
\<close>

section \<open>What is a parameter, and what is not modelled\<close>

text \<open>
  \<^bold>\<open>Parameters.\<close> What databases, drivers and libraries answer is an argument of the definitions or chosen by the
  environment: catalog rows and statement results (\<open>pg_env\<close>, \<open>dm_env\<close>, \<open>boot_env\<close>, \<open>id_env\<close>, \<open>run_env\<close>), GTID sets,
  SHA-256, the value converters, decimal numbers, Unicode classes, the interval rules of \<^verbatim>\<open>partition/interval.go\<close>, the
  special plans of repairs (native, trigger and partition objects) and the scope check of
  \<^verbatim>\<open>api/handler/migration_repair_sql.go\<close>.

  \<^bold>\<open>Left out of modelled parts.\<close> Texts shown to users, log lines, times and counters that nothing reads; the connection
  settings of \<open>Config\<close> and the fields of \<open>TableInfo\<close> that only DaMeng value conversion and messages read; I/O errors of
  the sort's files, which end the functions early; the contents of the samples of differences (\<open>loadSamples\<close>); the assembly of partition
  statements from a prepared topology; letters beyond ASCII in case folding. \<open>IncrementalLife\<close> follows one job whose row
  requests may have read at any earlier time, leaves out the mutex of the start requests (what is proved holds without it)
  and lets the environment choose how a full load ends, which \<open>IncrementalBootstrap\<close> then derives from the report, with
  every write of the record and of its abort succeeding or not.

  \<^bold>\<open>Not modelled.\<close> The source readers, target writers and dialects (catalog queries and the text of statements, mostly I/O
  with the databases), the migration drivers that call them, the converters of triggers and routines, DaMeng's native
  migration, the value converters for DaMeng and the validation scanners (character sets, binary JSON, driver values), the
  other HTTP handlers and SQLite tables, the drivers (\<^verbatim>\<open>driver/\<close>, the fork of lib/pq in \<^verbatim>\<open>internal/highgopq\<close>, the JDBC
  bridge, the vendored DaMeng driver), process start-up and the portable upgrade, and the load generator
  \<^verbatim>\<open>cmd/cdcstress\<close>.
\<close>

end
